(* ===== verification/Clave_Prelude.thy ===== *)
theory Clave_Prelude
  imports Main "HOL-Library.Word" "HOL-Library.AList" "HOL-Library.Char_ord"
    "HOL-Library.List_Lexorder"
begin

text \<open>
  The prelude of the development: the machine integer types of the Rust sources, their saturating
  arithmetic, \<open>Result\<close> as a sum (\<open>Inl\<close> the error), and the model of
  \<open>std::collections::HashMap\<close> as an association list with distinct keys, with its interface as a
  locale. The named collections at the top gather the facts that the component proofs share.
\<close>

unbundle bit_operations_syntax

named_theorems hmap_simps \<open>lookup laws of the HashMap model\<close>
named_theorems hmap_wf \<open>operations that keep HashMap keys distinct\<close>
named_theorems frame_simps \<open>what an operation leaves unchanged\<close>

section \<open>Machine integers\<close>

type_synonym u8 = "8 word"
type_synonym u16 = "16 word"
type_synonym u32 = "32 word"
type_synonym u64 = "64 word"
type_synonym u128 = "128 word"
type_synonym bytes = "u8 list"
type_synonym unix_time = u64

definition saturating_sub :: "'a::len word \<Rightarrow> 'a word \<Rightarrow> 'a word" where
  "saturating_sub a b = (if a \<le> b then 0 else a - b)"

definition saturating_add :: "'a::len word \<Rightarrow> 'a word \<Rightarrow> 'a word" where
  "saturating_add a b = (if a + b < a then -1 else a + b)"

lemma unat_saturating_sub: "unat (saturating_sub a b) = unat a - unat b"
  by (auto simp: saturating_sub_def word_le_nat_alt unat_sub)

lemma saturating_sub_le: "saturating_sub a b \<le> a"
  by (simp add: word_le_nat_alt unat_saturating_sub)

lemma saturating_sub_0_iff: "saturating_sub a b = 0 \<longleftrightarrow> a \<le> b"
  by (auto simp: saturating_sub_def)

lemma saturating_add_ge: "a \<le> saturating_add a b"
  by (auto simp: saturating_add_def not_less)

lemma word_Suc_unat: "unat (w :: 'a::len word) + 1 < 2 ^ LENGTH('a) \<Longrightarrow> unat (w + 1) = unat w + 1"
  by (simp add: unat_word_ariths)

lemma word_le_imp_Suc_less:
  "unat (w :: 'a::len word) + 1 < 2 ^ LENGTH('a) \<Longrightarrow> w < w + 1"
  by (simp add: word_less_nat_alt word_Suc_unat)

lemma unat_add_of_nat:
  "unat (w :: 'a::len word) + n < 2 ^ LENGTH('a) \<Longrightarrow> unat (w + of_nat n) = unat w + n"
  by (simp add: unat_word_ariths unat_of_nat)

section \<open>Result\<close>

text \<open>\<open>Result<T, E>\<close> is \<open>'e + 'a\<close> with \<open>Inl\<close> the error; the \<open>?\<close> operator is \<open>rbind\<close>.\<close>

definition rbind :: "'e + 'a \<Rightarrow> ('a \<Rightarrow> 'e + 'b) \<Rightarrow> 'e + 'b" where
  "rbind r f = (case r of Inl e \<Rightarrow> Inl e | Inr a \<Rightarrow> f a)"

definition map_err :: "('e \<Rightarrow> 'f) \<Rightarrow> 'e + 'a \<Rightarrow> 'f + 'a" where
  "map_err g r = (case r of Inl e \<Rightarrow> Inl (g e) | Inr a \<Rightarrow> Inr a)"

definition ok_or :: "'a option \<Rightarrow> 'e \<Rightarrow> 'e + 'a" where
  "ok_or x e = (case x of None \<Rightarrow> Inl e | Some a \<Rightarrow> Inr a)"

lemma rbind_simps [simp]: "rbind (Inl e) f = Inl e" "rbind (Inr a) f = f a"
  by (simp_all add: rbind_def)

lemma map_err_simps [simp]: "map_err g (Inl e) = Inl (g e)" "map_err g (Inr a) = Inr a"
  by (simp_all add: map_err_def)

lemma ok_or_simps [simp]: "ok_or None e = Inl e" "ok_or (Some a) e = Inr a"
  by (simp_all add: ok_or_def)

lemma rbind_eq_Inr: "rbind r f = Inr b \<longleftrightarrow> (\<exists>a. r = Inr a \<and> f a = Inr b)"
  by (cases r) auto

lemma rbind_eq_Inl: "rbind r f = Inl e \<longleftrightarrow> r = Inl e \<or> (\<exists>a. r = Inr a \<and> f a = Inl e)"
  by (cases r) auto

lemma map_err_eq_Inr: "map_err g r = Inr a \<longleftrightarrow> r = Inr a"
  by (cases r) auto

lemma ok_or_eq_Inr: "ok_or x e = Inr a \<longleftrightarrow> x = Some a"
  by (cases x) auto

lemmas result_eqs = rbind_eq_Inr rbind_eq_Inl map_err_eq_Inr ok_or_eq_Inr

section \<open>Lists\<close>

lemma find_None_all: "List.find P xs = None \<longleftrightarrow> (\<forall>x \<in> set xs. \<not> P x)"
  by (induction xs) auto

lemma find_SomeD: "List.find P xs = Some x \<Longrightarrow> x \<in> set xs \<and> P x"
  by (induction xs) (auto split: if_splits)

lemma list_all_filter_id: "list_all P xs \<Longrightarrow> filter P xs = xs"
  by (induction xs) auto

section \<open>HashMap\<close>

text \<open>
  A \<open>HashMap\<close> is an association list with distinct keys. Its iteration order is not specified by
  Rust; the model iterates in insertion order, and what the code returns from an iteration is
  sorted by key or read as a set wherever a property depends on it.
\<close>

type_synonym ('k, 'v) hmap = "('k \<times> 'v) list"

definition hm_get :: "('k, 'v) hmap \<Rightarrow> 'k \<Rightarrow> 'v option" where
  "hm_get m k = map_of m k"

definition hm_insert :: "('k, 'v) hmap \<Rightarrow> 'k \<Rightarrow> 'v \<Rightarrow> ('k, 'v) hmap" where
  "hm_insert m k v = AList.update k v m"

definition hm_remove :: "('k, 'v) hmap \<Rightarrow> 'k \<Rightarrow> ('k, 'v) hmap" where
  "hm_remove m k = AList.delete k m"

definition hm_contains :: "('k, 'v) hmap \<Rightarrow> 'k \<Rightarrow> bool" where
  "hm_contains m k = (hm_get m k \<noteq> None)"

definition hm_keys :: "('k, 'v) hmap \<Rightarrow> 'k list" where
  "hm_keys m = map fst m"

definition hm_values :: "('k, 'v) hmap \<Rightarrow> 'v list" where
  "hm_values m = map snd m"

definition hm_wf :: "('k, 'v) hmap \<Rightarrow> bool" where
  "hm_wf m = distinct (map fst m)"

lemma hm_get_empty [simp]: "hm_get [] k = None"
  by (simp add: hm_get_def)

lemma hm_get_insert [hmap_simps, simp]:
  "hm_get (hm_insert m k v) k' = (if k' = k then Some v else hm_get m k')"
  by (simp add: hm_get_def hm_insert_def AList.update_conv')

lemma hm_get_remove [hmap_simps, simp]:
  "hm_get (hm_remove m k) k' = (if k' = k then None else hm_get m k')"
  by (simp add: hm_get_def hm_remove_def AList.delete_conv')

lemma hm_contains_insert [hmap_simps, simp]:
  "hm_contains (hm_insert m k v) k' = (k' = k \<or> hm_contains m k')"
  by (simp add: hm_contains_def)

lemma hm_contains_remove [hmap_simps, simp]:
  "hm_contains (hm_remove m k) k' = (k' \<noteq> k \<and> hm_contains m k')"
  by (simp add: hm_contains_def)

lemma hm_contains_empty [simp]: "\<not> hm_contains [] k"
  by (simp add: hm_contains_def)

lemma hm_wf_empty [hmap_wf, simp]: "hm_wf []"
  by (simp add: hm_wf_def)

lemma hm_wf_insert [hmap_wf, simp]: "hm_wf m \<Longrightarrow> hm_wf (hm_insert m k v)"
  by (simp add: hm_wf_def hm_insert_def AList.distinct_update)

lemma hm_wf_remove [hmap_wf, simp]: "hm_wf m \<Longrightarrow> hm_wf (hm_remove m k)"
  by (simp add: hm_wf_def hm_remove_def AList.distinct_delete)

lemma set_hm_keys: "set (hm_keys m) = {k. hm_contains m k}"
  by (auto simp: hm_keys_def hm_contains_def hm_get_def map_of_eq_None_iff)

lemma hm_keys_insert: "set (hm_keys (hm_insert m k v)) = insert k (set (hm_keys m))"
  by (auto simp: set_hm_keys)

lemma hm_get_eq_SomeD: "hm_get m k = Some v \<Longrightarrow> (k, v) \<in> set m"
  by (simp add: hm_get_def map_of_SomeD)

lemma hm_get_Some_iff: "hm_wf m \<Longrightarrow> hm_get m k = Some v \<longleftrightarrow> (k, v) \<in> set m"
  by (simp add: hm_get_def hm_wf_def)

lemma set_hm_values: "hm_wf m \<Longrightarrow> set (hm_values m) = {v. \<exists>k. hm_get m k = Some v}"
  by (force simp: hm_values_def hm_get_Some_iff)

lemma hm_insert_length:
  "length (hm_insert m k v) = (if hm_contains m k then length m else Suc (length m))"
  by (induction m) (auto simp: hm_insert_def hm_contains_def hm_get_def)

lemma hm_get_map:
  "hm_get (map (\<lambda>(k, v). (k, f k v)) m) k = map_option (f k) (hm_get m k)"
  by (induction m) (auto simp: hm_get_def)

text \<open>The interface of a map, in the form the components use it.\<close>

locale hash_map =
  fixes empty :: 'm
    and get :: "'m \<Rightarrow> 'k \<Rightarrow> 'v option"
    and put :: "'m \<Rightarrow> 'k \<Rightarrow> 'v \<Rightarrow> 'm"
    and del :: "'m \<Rightarrow> 'k \<Rightarrow> 'm"
    and wf :: "'m \<Rightarrow> bool"
  assumes get_empty: "get empty k = None"
    and get_put: "wf m \<Longrightarrow> get (put m k v) k' = (if k' = k then Some v else get m k')"
    and get_del: "wf m \<Longrightarrow> get (del m k) k' = (if k' = k then None else get m k')"
    and wf_empty: "wf empty"
    and wf_put: "wf m \<Longrightarrow> wf (put m k v)"
    and wf_del: "wf m \<Longrightarrow> wf (del m k)"
begin

definition put_all :: "'m \<Rightarrow> ('k \<times> 'v) list \<Rightarrow> 'm" where
  "put_all m kvs = foldl (\<lambda>a (k, v). put a k v) m kvs"

lemma wf_put_all: "wf m \<Longrightarrow> wf (put_all m kvs)"
  by (induction kvs arbitrary: m) (auto simp: put_all_def wf_put)

lemma get_put_all:
  "wf m \<Longrightarrow> get (put_all m kvs) k =
     (case map_of (rev kvs) k of None \<Rightarrow> get m k | Some v \<Rightarrow> Some v)"
proof (induction kvs arbitrary: m)
  case Nil
  then show ?case by (simp add: put_all_def)
next
  case (Cons kv kvs)
  obtain k0 v0 where kv: "kv = (k0, v0)" by (cases kv)
  have "get (put_all m (kv # kvs)) k = get (put_all (put m k0 v0) kvs) k"
    by (simp add: put_all_def kv)
  also have "\<dots> = (case map_of (rev kvs) k of None \<Rightarrow> get (put m k0 v0) k | Some v \<Rightarrow> Some v)"
    using Cons by (simp add: wf_put)
  finally show ?case
    using Cons.prems by (auto simp: kv get_put map_add_def split: option.splits)
qed

end

interpretation hm: hash_map "[]" hm_get hm_insert hm_remove hm_wf
  by unfold_locales (simp_all add: hmap_wf)

end
