(* ===== verification/Rust_Str.thy ===== *)
theory Rust_Str
  imports Clave_Prelude "HOL-Library.Sublist"
begin

text \<open>
  The parts of Rust's \<open>str\<close> the sources use. A \<open>String\<close> is its UTF-8 bytes, a \<open>char list\<close> with
  one \<open>char\<close> per byte. ASCII operations (\<open>to_ascii_lowercase\<close>, separators such as \<open>'/'\<close>) act on
  single bytes, exactly as on UTF-8, where bytes below 128 stand only for themselves.
  \<open>str::trim\<close> and \<open>char::is_whitespace\<close> work on code points: the byte sequences of the Unicode
  White\_Space code points are listed in \<open>ws_seqs\<close>.
\<close>

section \<open>ASCII case\<close>

definition to_lower_char :: "char \<Rightarrow> char" where
  "to_lower_char c =
     (if 65 \<le> (of_char c :: nat) \<and> (of_char c :: nat) \<le> 90
      then char_of ((of_char c :: nat) + 32) else c)"

definition to_ascii_lowercase :: "string \<Rightarrow> string" where
  "to_ascii_lowercase s = map to_lower_char s"

definition eq_ignore_ascii_case :: "string \<Rightarrow> string \<Rightarrow> bool" where
  "eq_ignore_ascii_case a b = (to_ascii_lowercase a = to_ascii_lowercase b)"

lemma to_lower_char_idem [simp]: "to_lower_char (to_lower_char c) = to_lower_char c"
  by (simp add: to_lower_char_def)

lemma to_ascii_lowercase_idem [simp]:
  "to_ascii_lowercase (to_ascii_lowercase s) = to_ascii_lowercase s"
  by (simp add: to_ascii_lowercase_def)

lemma to_ascii_lowercase_append [simp]:
  "to_ascii_lowercase (a @ b) = to_ascii_lowercase a @ to_ascii_lowercase b"
  by (simp add: to_ascii_lowercase_def)

lemma to_ascii_lowercase_Nil_iff [simp]: "to_ascii_lowercase s = [] \<longleftrightarrow> s = []"
  by (simp add: to_ascii_lowercase_def)

lemma length_to_ascii_lowercase [simp]: "length (to_ascii_lowercase s) = length s"
  by (simp add: to_ascii_lowercase_def)

text \<open>A byte that is not an upper-case letter comes only from itself.\<close>

definition upper_char :: "char \<Rightarrow> bool" where
  "upper_char c = (65 \<le> (of_char c :: nat) \<and> (of_char c :: nat) \<le> 90)"

definition lower_char :: "char \<Rightarrow> bool" where
  "lower_char c = (97 \<le> (of_char c :: nat) \<and> (of_char c :: nat) \<le> 122)"

lemma to_lower_char_eq_iff:
  assumes "\<not> upper_char d" and "\<not> lower_char d"
  shows "to_lower_char c = d \<longleftrightarrow> c = d"
  using assms by (auto simp: to_lower_char_def upper_char_def lower_char_def)

lemma set_to_ascii_lowercase_iff:
  assumes "\<not> upper_char d" and "\<not> lower_char d"
  shows "d \<in> set (to_ascii_lowercase s) \<longleftrightarrow> d \<in> set s"
proof -
  have "d = to_lower_char x \<longleftrightarrow> x = d" for x
    using to_lower_char_eq_iff[OF assms, of x] by auto
  then show ?thesis by (simp add: to_ascii_lowercase_def image_iff)
qed

section \<open>White space and trimming\<close>

definition ws_seqs :: "string list" where
  "ws_seqs =
     [[CHR 0x09], [CHR 0x0A], [CHR 0x0B], [CHR 0x0C], [CHR 0x0D], [CHR 0x20],
      [CHR 0xC2, CHR 0x85], [CHR 0xC2, CHR 0xA0], [CHR 0xE1, CHR 0x9A, CHR 0x80],
      [CHR 0xE2, CHR 0x80, CHR 0x80], [CHR 0xE2, CHR 0x80, CHR 0x81],
      [CHR 0xE2, CHR 0x80, CHR 0x82], [CHR 0xE2, CHR 0x80, CHR 0x83],
      [CHR 0xE2, CHR 0x80, CHR 0x84], [CHR 0xE2, CHR 0x80, CHR 0x85],
      [CHR 0xE2, CHR 0x80, CHR 0x86], [CHR 0xE2, CHR 0x80, CHR 0x87],
      [CHR 0xE2, CHR 0x80, CHR 0x88], [CHR 0xE2, CHR 0x80, CHR 0x89],
      [CHR 0xE2, CHR 0x80, CHR 0x8A], [CHR 0xE2, CHR 0x80, CHR 0xA8],
      [CHR 0xE2, CHR 0x80, CHR 0xA9], [CHR 0xE2, CHR 0x80, CHR 0xAF],
      [CHR 0xE2, CHR 0x81, CHR 0x9F], [CHR 0xE3, CHR 0x80, CHR 0x80]]"

definition ws_prefix :: "string \<Rightarrow> string option" where
  "ws_prefix s = List.find (\<lambda>w. take (length w) s = w) ws_seqs"

definition ws_suffix :: "string \<Rightarrow> string option" where
  "ws_suffix s = List.find (\<lambda>w. take (length w) (rev s) = rev w) ws_seqs"

lemma ws_seqs_nonempty: "w \<in> set ws_seqs \<Longrightarrow> w \<noteq> []"
  by (auto simp: ws_seqs_def)

lemma ws_prefix_Some: "ws_prefix s = Some w \<Longrightarrow> w \<noteq> [] \<and> take (length w) s = w"
  by (auto simp: ws_prefix_def dest!: find_SomeD dest: ws_seqs_nonempty)

lemma ws_suffix_Some: "ws_suffix s = Some w \<Longrightarrow> w \<noteq> [] \<and> take (length w) (rev s) = rev w"
  by (auto simp: ws_suffix_def dest!: find_SomeD dest: ws_seqs_nonempty)

function trim_start :: "string \<Rightarrow> string" where
  "trim_start s = (case ws_prefix s of None \<Rightarrow> s | Some w \<Rightarrow> trim_start (drop (length w) s))"
  by pat_completeness auto
termination
proof (relation "measure length", goal_cases)
  case (2 s w)
  then show ?case using ws_prefix_Some[of s w] by (cases s) auto
qed simp

function trim_end :: "string \<Rightarrow> string" where
  "trim_end s =
     (case ws_suffix s of None \<Rightarrow> s | Some w \<Rightarrow> trim_end (take (length s - length w) s))"
  by pat_completeness auto
termination
proof (relation "measure length", goal_cases)
  case (2 s w)
  then show ?case using ws_suffix_Some[of s w] by (cases s) auto
qed simp

declare trim_start.simps [simp del] trim_end.simps [simp del]

definition trim :: "string \<Rightarrow> string" where
  "trim s = trim_end (trim_start s)"

fun contains_whitespace :: "string \<Rightarrow> bool" where
  "contains_whitespace [] = False"
| "contains_whitespace (c # s) = (ws_prefix (c # s) \<noteq> None \<or> contains_whitespace s)"

text \<open>A string with no white-space sequence is unchanged by trimming.\<close>

lemma contains_whitespace_suffix:
  "contains_whitespace b \<Longrightarrow> contains_whitespace (a @ b)"
  by (induction a) auto

lemma no_whitespace_prefix: "\<not> contains_whitespace s \<Longrightarrow> ws_prefix s = None"
  by (cases s) (auto simp: ws_prefix_def find_None_all dest: ws_seqs_nonempty)

lemma ws_suffix_contains:
  assumes "ws_suffix s = Some w"
  shows "contains_whitespace s"
proof -
  from assms have w: "w \<in> set ws_seqs" "take (length w) (rev s) = rev w"
    by (auto simp: ws_suffix_def dest!: find_SomeD)
  define a where "a = take (length s - length w) s"
  have "rev (take (length w) (rev s)) = drop (length s - length w) s"
    by (simp add: rev_take)
  with w(2) have "drop (length s - length w) s = w" by simp
  then have s: "s = a @ w" unfolding a_def by (metis append_take_drop_id)
  have "w \<noteq> []" using w(1) by (rule ws_seqs_nonempty)
  moreover have "ws_prefix w \<noteq> None"
    unfolding ws_prefix_def find_None_all using w(1) by (auto intro: bexI[of _ w])
  ultimately have "contains_whitespace w" by (cases w) auto
  then show ?thesis using s contains_whitespace_suffix by simp
qed

lemma trim_no_whitespace: "\<not> contains_whitespace s \<Longrightarrow> trim s = s"
proof -
  assume ns: "\<not> contains_whitespace s"
  then have "trim_start s = s" by (subst trim_start.simps) (simp add: no_whitespace_prefix)
  moreover have "ws_suffix s = None" using ns ws_suffix_contains by (cases "ws_suffix s") auto
  then have "trim_end s = s" by (subst trim_end.simps) simp
  ultimately show ?thesis by (simp add: trim_def)
qed

section \<open>Prefixes, suffixes, replacement and splitting\<close>

definition starts_with :: "string \<Rightarrow> string \<Rightarrow> bool" where
  "starts_with s p = prefix p s"

definition ends_with :: "string \<Rightarrow> string \<Rightarrow> bool" where
  "ends_with s p = suffix p s"

definition strip_prefix :: "string \<Rightarrow> string \<Rightarrow> string option" where
  "strip_prefix s p = (if prefix p s then Some (drop (length p) s) else None)"

definition trim_end_matches :: "string \<Rightarrow> char \<Rightarrow> string" where
  "trim_end_matches s c = rev (dropWhile (\<lambda>x. x = c) (rev s))"

definition trim_start_matches :: "string \<Rightarrow> char \<Rightarrow> string" where
  "trim_start_matches s c = dropWhile (\<lambda>x. x = c) s"

definition replace_char :: "string \<Rightarrow> char \<Rightarrow> char \<Rightarrow> string" where
  "replace_char s a b = map (\<lambda>c. if c = a then b else c) s"

definition split_once :: "string \<Rightarrow> char \<Rightarrow> (string \<times> string) option" where
  "split_once s c =
     (if c \<in> set s then Some (takeWhile (\<lambda>x. x \<noteq> c) s, tl (dropWhile (\<lambda>x. x \<noteq> c) s)) else None)"

fun split_on :: "string \<Rightarrow> char \<Rightarrow> string list" where
  "split_on [] c = [[]]"
| "split_on (x # s) c =
     (if x = c then [] # split_on s c
      else case split_on s c of [] \<Rightarrow> [[x]] | p # ps \<Rightarrow> (x # p) # ps)"

lemma strip_prefix_Some: "strip_prefix s p = Some r \<longleftrightarrow> s = p @ r"
  by (auto simp: strip_prefix_def prefix_def)

lemma trim_end_matches_idem [simp]:
  "trim_end_matches (trim_end_matches s c) c = trim_end_matches s c"
  by (simp add: trim_end_matches_def dropWhile_idem)

lemma trim_end_matches_snoc [simp]: "trim_end_matches (s @ [c]) c = trim_end_matches s c"
  by (simp add: trim_end_matches_def)

lemma trim_end_matches_snoc_other [simp]:
  "d \<noteq> c \<Longrightarrow> trim_end_matches (s @ [d]) c = s @ [d]"
  by (simp add: trim_end_matches_def)

lemma trim_end_matches_Nil [simp]: "trim_end_matches [] c = []"
  by (simp add: trim_end_matches_def)

lemma split_once_Some:
  "split_once s c = Some (a, b) \<longleftrightarrow> s = a @ c # b \<and> c \<notin> set a"
proof
  assume "split_once s c = Some (a, b)"
  then have c: "c \<in> set s" and a: "a = takeWhile (\<lambda>x. x \<noteq> c) s"
    and b: "b = tl (dropWhile (\<lambda>x. x \<noteq> c) s)"
    by (auto simp: split_once_def split: if_splits)
  from c have ne: "dropWhile (\<lambda>x. x \<noteq> c) s \<noteq> []" by (auto simp: dropWhile_eq_Nil_conv)
  with hd_dropWhile[OF ne] have "dropWhile (\<lambda>x. x \<noteq> c) s = c # b"
    unfolding b by (cases "dropWhile (\<lambda>x. x \<noteq> c) s") auto
  then have "s = a @ c # b" unfolding a by (metis takeWhile_dropWhile_id)
  then show "s = a @ c # b \<and> c \<notin> set a" unfolding a by (auto dest: set_takeWhileD)
next
  assume "s = a @ c # b \<and> c \<notin> set a"
  then have s: "s = a @ c # b" and a: "\<forall>x \<in> set a. x \<noteq> c" by auto
  then show "split_once s c = Some (a, b)"
    by (simp add: split_once_def takeWhile_append2 dropWhile_append2)
qed

lemma split_on_no_sep: "p \<in> set (split_on s c) \<Longrightarrow> c \<notin> set p"
  by (induction s c arbitrary: p rule: split_on.induct) (auto split: if_splits list.splits)

lemma map_lower_trim_end:
  assumes "\<not> upper_char c" and "\<not> lower_char c"
  shows "to_ascii_lowercase (trim_end_matches s c) = trim_end_matches (to_ascii_lowercase s) c"
proof (induction s rule: rev_induct)
  case Nil
  then show ?case by (simp add: to_ascii_lowercase_def)
next
  case (snoc x xs)
  then show ?case
    by (cases "x = c")
      (simp_all add: to_ascii_lowercase_def assms to_lower_char_eq_iff trim_end_matches_def)
qed

section \<open>Splitting at a separator, and component lists\<close>

fun join_with :: "char \<Rightarrow> string list \<Rightarrow> string" where
  "join_with c [] = []"
| "join_with c [p] = p"
| "join_with c (p # q # ps) = p @ c # join_with c (q # ps)"

lemma split_on_nonempty [simp]: "split_on s c \<noteq> []"
  by (induction s) (auto split: list.splits)

lemma join_with_split [simp]: "join_with c (split_on s c) = s"
proof (induction s)
  case (Cons x s)
  then show ?case by (cases "split_on s c"; cases "tl (split_on s c)") auto
qed simp

lemma split_on_inj: "split_on a c = split_on b c \<Longrightarrow> a = b"
  by (metis join_with_split)

lemma split_on_sep: "split_on (a @ c # b) c = split_on a c @ split_on b c"
  by (induction a) (auto split: list.splits simp: append_eq_Cons_conv)

lemma join_with_append:
  "xs \<noteq> [] \<Longrightarrow> ys \<noteq> [] \<Longrightarrow> join_with c (xs @ ys) = join_with c xs @ c # join_with c ys"
proof (induction xs rule: join_with.induct[of _ c])
  case (2 c p)
  then show ?case by (cases ys) auto
qed auto

lemma split_on_prefix_iff:
  "prefix (split_on a c) (split_on b c) \<longleftrightarrow> b = a \<or> (\<exists>r. b = a @ c # r)"
proof
  assume "prefix (split_on a c) (split_on b c)"
  then obtain ys where ys: "split_on b c = split_on a c @ ys" by (auto simp: prefix_def)
  have "b = join_with c (split_on a c @ ys)" using join_with_split[of c b] ys by simp
  then show "b = a \<or> (\<exists>r. b = a @ c # r)"
    by (cases "ys = []") (simp_all add: join_with_append)
qed (auto simp: split_on_sep)

lemma split_on_suffix_iff:
  "suffix (split_on a c) (split_on b c) \<longleftrightarrow> b = a \<or> (\<exists>r. b = r @ c # a)"
proof
  assume "suffix (split_on a c) (split_on b c)"
  then obtain ys where ys: "split_on b c = ys @ split_on a c" by (auto simp: suffix_def)
  have "b = join_with c (ys @ split_on a c)" using join_with_split[of c b] ys by simp
  then show "b = a \<or> (\<exists>r. b = r @ c # a)"
    by (cases "ys = []") (simp_all add: join_with_append)
qed (auto simp: split_on_sep suffix_def)

end
