(* ===== verification/Platform.thy ===== *)
theory Platform
  imports Rust_Str
begin

text \<open>
  Crate \<open>clave-platform\<close>: the portable value types (\<open>types.rs\<close>), the errors of the OS-capability
  traits (\<open>traits.rs\<close>) and the enforcement posture (\<open>enforcement.rs\<close>). The lemmas show that a
  report built from a status function answers with that function and that the production gate is
  passed exactly when every capability is enforced, naming every blocker otherwise.
\<close>

section \<open>Value types\<close>

text \<open>The audit token of macOS is an array of eight words, the process id its sixth.\<close>

datatype proc_id =
    Windows u32 u64
  | Macos u32 u32 u32 u32 u32 u32 u32 u32

fun proc_pid :: "proc_id \<Rightarrow> u32" where
  "proc_pid (Windows pid _) = pid"
| "proc_pid (Macos _ _ _ _ _ pid _ _) = pid"

datatype zone = Work | Personal

datatype clip_format = PlainText | RichText | Html | Image | Files | OtherFormat

definition ClipFormat_ALL :: "clip_format list" where
  "ClipFormat_ALL = [PlainText, RichText, Html, Image, Files, OtherFormat]"

datatype window_id = WindowId u64

record rgba =
  rgba_r :: u8
  rgba_g :: u8
  rgba_b :: u8
  rgba_a :: u8

definition CLAVE_EDGE :: rgba where
  "CLAVE_EDGE = \<lparr>rgba_r = 0x1E, rgba_g = 0x6F, rgba_b = 0xD6, rgba_a = 0xFF\<rparr>"

datatype decision = Allow | Deny | Watermark | Prompt | Sanitize

datatype route = RTunnel | RDirect | RBlock

datatype platform_error = PAccessDenied | PNotFound | PUnsupported | PIo string

section \<open>Enforcement posture\<close>

datatype capability =
  ProcessSupervision | CapVolume | CapClipboard | CapNetwork | CapScreen | CapOverlay | CapInput

definition Capability_ALL :: "capability list" where
  "Capability_ALL =
     [ProcessSupervision, CapVolume, CapClipboard, CapNetwork, CapScreen, CapOverlay, CapInput]"

fun capability_name :: "capability \<Rightarrow> string" where
  "capability_name ProcessSupervision = ''process supervision''"
| "capability_name CapVolume = ''encrypted volume''"
| "capability_name CapClipboard = ''clipboard DLP''"
| "capability_name CapNetwork = ''network split-tunnel''"
| "capability_name CapScreen = ''screen-capture protection''"
| "capability_name CapOverlay = ''Clave Edge overlay''"
| "capability_name CapInput = ''input isolation''"

datatype enforcement_status = Enforced | DevelopmentOnly | Unavailable

fun is_enforced :: "enforcement_status \<Rightarrow> bool" where
  "is_enforced Enforced = True"
| "is_enforced _ = False"

fun enforcement_status_display :: "enforcement_status \<Rightarrow> string" where
  "enforcement_status_display Enforced = ''enforced''"
| "enforcement_status_display DevelopmentOnly = ''development-only''"
| "enforcement_status_display Unavailable = ''unavailable''"

type_synonym enforcement_report = "(capability \<times> enforcement_status) list"

definition report_from_fn :: "(capability \<Rightarrow> enforcement_status) \<Rightarrow> enforcement_report" where
  "report_from_fn status = map (\<lambda>cap. (cap, status cap)) Capability_ALL"

definition report_status :: "enforcement_report \<Rightarrow> capability \<Rightarrow> enforcement_status" where
  "report_status r cap =
     (case List.find (\<lambda>(c, _). c = cap) r of None \<Rightarrow> Unavailable | Some (_, s) \<Rightarrow> s)"

definition production_blockers :: "enforcement_report \<Rightarrow> (capability \<times> enforcement_status) list" where
  "production_blockers r = filter (\<lambda>(_, s). \<not> is_enforced s) r"

definition is_production_ready :: "enforcement_report \<Rightarrow> bool" where
  "is_production_ready r = list_all (\<lambda>(_, s). is_enforced s) r"

definition require_production ::
  "enforcement_report \<Rightarrow> (capability \<times> enforcement_status) list + unit" where
  "require_production r =
     (let blockers = production_blockers r in if blockers = [] then Inr () else Inl blockers)"

definition report_display :: "enforcement_report \<Rightarrow> string" where
  "report_display r =
     ''enforcement: '' @ (if is_production_ready r then ''production-ready'' else ''lab build'')
       @ [CHR 0x0A]
       @ concat (map (\<lambda>(cap, status). ''  - '' @ capability_name cap @ '': ''
                        @ enforcement_status_display status @ [CHR 0x0A]) r)"

lemma Capability_ALL_complete: "set Capability_ALL = UNIV"
proof -
  have "c \<in> set Capability_ALL" for c by (cases c) (simp_all add: Capability_ALL_def)
  then show ?thesis by blast
qed

lemma find_status: "cap \<in> set caps \<Longrightarrow>
  List.find (\<lambda>(c, _). c = cap) (map (\<lambda>c. (c, f c)) caps) = Some (cap, f cap)"
  by (induction caps) auto

lemma is_enforced_iff: "is_enforced s \<longleftrightarrow> s = Enforced"
  by (cases s) auto

text \<open>
  Enforcement posture. A report built from a status function returns that status for every
  capability; the production gate lets a platform through exactly when every capability is
  enforced, and otherwise returns exactly the capabilities that are not, with their status.
\<close>

theorem require_production_exact:
  "report_status (report_from_fn f) cap = f cap \<and>
   (require_production (report_from_fn f) = Inr () \<longleftrightarrow> (\<forall>c. f c = Enforced)) \<and>
   (\<forall>bs. require_production (report_from_fn f) = Inl bs \<longleftrightarrow>
      bs \<noteq> [] \<and> bs = filter (\<lambda>(c, s). s \<noteq> Enforced) (map (\<lambda>c. (c, f c)) Capability_ALL))"
proof -
  have bl: "production_blockers (report_from_fn f)
      = filter (\<lambda>(c, s). s \<noteq> Enforced) (map (\<lambda>c. (c, f c)) Capability_ALL)"
    unfolding production_blockers_def report_from_fn_def by (simp add: is_enforced_iff)
  have "cap \<in> set Capability_ALL" by (simp add: Capability_ALL_complete)
  then have "report_status (report_from_fn f) cap = f cap"
    unfolding report_status_def report_from_fn_def by (simp add: find_status)
  moreover have "production_blockers (report_from_fn f) = [] \<longleftrightarrow> (\<forall>c. f c = Enforced)"
    unfolding bl by (auto simp: filter_empty_conv Capability_ALL_complete)
  ultimately show ?thesis by (auto simp: require_production_def Let_def bl)
qed

end
