(* ===== verification/Overlay.thy ===== *)
theory Overlay
  imports Platform
begin

text \<open>
  \<open>clave-core/src/overlay.rs\<close>: the Clave Edge, the coloured ring drawn around the visible part of
  each work window. Coordinates are \<open>i32\<close>; every addition and subtraction of the code is written
  with its wrap-around (\<open>i32\<close>). What the frames cover is shown in \<open>Overlay_Pixels\<close>.
\<close>

section \<open>Definitions\<close>

definition i32 :: "int \<Rightarrow> int" where
  "i32 n = signed_take_bit 31 n"

record rect_px =
  rx :: int
  ry :: int
  rw :: int
  rh :: int

definition rect_new :: "int \<Rightarrow> int \<Rightarrow> int \<Rightarrow> int \<Rightarrow> rect_px" where
  "rect_new x y w h = \<lparr>rx = x, ry = y, rw = w, rh = h\<rparr>"

definition right :: "rect_px \<Rightarrow> int" where
  "right r = i32 (rx r + rw r)"

definition bottom :: "rect_px \<Rightarrow> int" where
  "bottom r = i32 (ry r + rh r)"

definition rect_is_empty :: "rect_px \<Rightarrow> bool" where
  "rect_is_empty r = (rw r \<le> 0 \<or> rh r \<le> 0)"

definition intersect :: "rect_px \<Rightarrow> rect_px \<Rightarrow> rect_px option" where
  "intersect a c =
     (let x = max (rx a) (rx c); y = max (ry a) (ry c);
          r = min (right a) (right c); b = min (bottom a) (bottom c)
      in if r > x \<and> b > y then Some (rect_new x y (i32 (r - x)) (i32 (b - y))) else None)"

record window_geom =
  wg_window :: window_id
  wg_rect :: rect_px

record border_cfg =
  bc_thickness :: int
  bc_color :: rgba

definition border_cfg_default :: border_cfg where
  "border_cfg_default = \<lparr>bc_thickness = 3, bc_color = CLAVE_EDGE\<rparr>"

record frame =
  fr_window :: window_id
  fr_color :: rgba
  fr_segments :: "rect_px list"

definition subtract :: "rect_px \<Rightarrow> rect_px \<Rightarrow> rect_px list" where
  "subtract a hole =
     (case intersect a hole of
        None \<Rightarrow> (if rect_is_empty a then [] else [a])
      | Some ix \<Rightarrow>
          (if ry ix > ry a then [rect_new (rx a) (ry a) (rw a) (i32 (ry ix - ry a))] else [])
          @ (if bottom ix < bottom a
             then [rect_new (rx a) (bottom ix) (rw a) (i32 (bottom a - bottom ix))] else [])
          @ (if rx ix > rx a then [rect_new (rx a) (ry ix) (i32 (rx ix - rx a)) (rh ix)] else [])
          @ (if right ix < right a
             then [rect_new (right ix) (ry ix) (i32 (right a - right ix)) (rh ix)] else []))"

definition region_subtract :: "rect_px list \<Rightarrow> rect_px \<Rightarrow> rect_px list" where
  "region_subtract region hole = concat (map (\<lambda>r. subtract r hole) region)"

definition ring :: "rect_px \<Rightarrow> int \<Rightarrow> rect_px list" where
  "ring rect thickness =
     (if rect_is_empty rect \<or> thickness \<le> 0 then []
      else let t = min (min thickness (rw rect)) (rh rect);
               mid_h = i32 (rh rect - i32 (2 * t));
               mid_y = i32 (ry rect + t)
           in [rect_new (rx rect) (ry rect) (rw rect) t]
              @ (if rh rect > t
                 then [rect_new (rx rect) (i32 (bottom rect - t)) (rw rect) t] else [])
              @ (if mid_h > 0
                 then [rect_new (rx rect) mid_y t mid_h]
                      @ (if rw rect > t
                         then [rect_new (i32 (right rect - t)) mid_y t mid_h] else [])
                 else []))"

text \<open>The inner loop stops early when nothing is left visible, which changes nothing.\<close>

fun visible_after :: "rect_px list \<Rightarrow> window_geom list \<Rightarrow> rect_px list" where
  "visible_after visible [] = visible"
| "visible_after visible (occ # occs) =
     (let v = region_subtract visible (wg_rect occ) in if v = [] then [] else visible_after v occs)"

definition segments_of :: "rect_px list \<Rightarrow> rect_px list \<Rightarrow> rect_px list" where
  "segments_of bands visible =
     concat (map (\<lambda>band. concat (map (\<lambda>v. case intersect band v of None \<Rightarrow> [] | Some s \<Rightarrow> [s])
                                   visible)) bands)"

text \<open>One iteration of the outer loop, for the window \<open>wg\<close> below the windows \<open>occs\<close>.\<close>

definition window_frame ::
  "window_id list \<Rightarrow> int \<Rightarrow> (window_id \<Rightarrow> rgba) \<Rightarrow> window_geom list \<Rightarrow> window_geom \<Rightarrow> frame list" where
  "window_frame work thickness color_of occs wg =
     (if wg_window wg \<notin> set work \<or> rect_is_empty (wg_rect wg) then []
      else let visible = visible_after [wg_rect wg] occs
           in if visible = [] then []
              else let segments = segments_of (ring (wg_rect wg) thickness) visible
                   in if segments = [] then []
                      else [\<lparr>fr_window = wg_window wg, fr_color = color_of (wg_window wg),
                             fr_segments = segments\<rparr>])"

definition frames_impl ::
  "window_geom list \<Rightarrow> window_id list \<Rightarrow> int \<Rightarrow> (window_id \<Rightarrow> rgba) \<Rightarrow> frame list" where
  "frames_impl windows work thickness color_of =
     concat (map (\<lambda>i. window_frame work thickness color_of (take i windows) (windows ! i))
               [0..<length windows])"

definition recompute_frames :: "window_geom list \<Rightarrow> window_id list \<Rightarrow> border_cfg \<Rightarrow> frame list" where
  "recompute_frames windows work cfg =
     frames_impl windows work (bc_thickness cfg) (\<lambda>_. bc_color cfg)"

definition recompute_frames_themed ::
  "window_geom list \<Rightarrow> window_id list \<Rightarrow> border_cfg \<Rightarrow> (window_id, rgba) hmap \<Rightarrow> frame list" where
  "recompute_frames_themed windows work cfg colors =
     frames_impl windows work (bc_thickness cfg)
       (\<lambda>w. case hm_get colors w of Some c \<Rightarrow> c | None \<Rightarrow> bc_color cfg)"

end
