(* ===== verification/Overlay_Pixels.thy ===== *)
theory Overlay_Pixels
  imports Overlay
begin

text \<open>
  What the Clave Edge covers, pixel by pixel: \<open>covers r p\<close> says that pixel \<open>p\<close> lies in rectangle
  \<open>r\<close>. On a desktop whose coordinates stay below \<open>2\<^sup>2\<^sup>9\<close> in absolute value no arithmetic wraps, and
  the frame of a work window covers exactly the pixels of its ring that no window in front of it
  covers.
\<close>

section \<open>Pixel semantics\<close>

definition covers :: "rect_px \<Rightarrow> int \<times> int \<Rightarrow> bool" where
  "covers r p = (rx r \<le> fst p \<and> fst p < rx r + rw r \<and> ry r \<le> snd p \<and> snd p < ry r + rh r)"

definition covers_any :: "rect_px list \<Rightarrow> int \<times> int \<Rightarrow> bool" where
  "covers_any rs p = list_ex (\<lambda>r. covers r p) rs"

text \<open>On screen: small enough that no sum or difference of two coordinates wraps.\<close>

definition on_screen :: "rect_px \<Rightarrow> bool" where
  "on_screen r = (- (2 ^ 29) \<le> rx r \<and> rx r \<le> 2 ^ 29 \<and> - (2 ^ 29) \<le> ry r \<and> ry r \<le> 2 ^ 29 \<and>
     - (2 ^ 29) \<le> rw r \<and> rw r \<le> 2 ^ 29 \<and> - (2 ^ 29) \<le> rh r \<and> rh r \<le> 2 ^ 29 \<and>
     - (2 ^ 29) \<le> rx r + rw r \<and> rx r + rw r \<le> 2 ^ 29 \<and>
     - (2 ^ 29) \<le> ry r + rh r \<and> ry r + rh r \<le> 2 ^ 29)"

text \<open>The ring by pixels: inside the rectangle, within \<open>t\<close> of an edge.\<close>

definition in_ring :: "rect_px \<Rightarrow> int \<Rightarrow> int \<times> int \<Rightarrow> bool" where
  "in_ring r t p = (covers r p \<and>
     (fst p < rx r + t \<or> rx r + rw r - t \<le> fst p \<or> snd p < ry r + t \<or> ry r + rh r - t \<le> snd p))"

lemma i32_id: "- (2 ^ 31) \<le> n \<Longrightarrow> n < 2 ^ 31 \<Longrightarrow> i32 n = n"
  by (simp add: i32_def signed_take_bit_int_eq_self)

lemma i32_small: "- (2 ^ 30) \<le> n \<Longrightarrow> n \<le> 2 ^ 30 \<Longrightarrow> i32 n = n"
  by (rule i32_id) auto

lemma right_on_screen: "on_screen r \<Longrightarrow> right r = rx r + rw r"
  by (simp add: right_def on_screen_def i32_small)

lemma bottom_on_screen: "on_screen r \<Longrightarrow> bottom r = ry r + rh r"
  by (simp add: bottom_def on_screen_def i32_small)

lemmas screen_simps = right_on_screen bottom_on_screen

text \<open>Intersection is the set of common pixels.\<close>

lemma intersect_Some:
  assumes "on_screen a" "on_screen c" "intersect a c = Some s"
  shows "on_screen s" "\<not> rect_is_empty s" "covers s p \<longleftrightarrow> covers a p \<and> covers c p"
proof -
  define x y r b where "x = max (rx a) (rx c)" and "y = max (ry a) (ry c)"
    and "r = min (rx a + rw a) (rx c + rw c)" and "b = min (ry a + rh a) (ry c + rh c)"
  note d = x_def y_def r_def b_def
  have lt: "r > x" "b > y" and s0: "s = rect_new x y (i32 (r - x)) (i32 (b - y))"
    using assms by (auto simp: intersect_def Let_def screen_simps d split: if_splits)
  have "i32 (r - x) = r - x" "i32 (b - y) = b - y"
    using assms(1,2) lt by (auto simp: on_screen_def d intro!: i32_small)
  with s0 have s: "s = rect_new x y (r - x) (b - y)" by simp
  show "on_screen s" using assms(1,2) lt unfolding s
    by (auto simp: on_screen_def rect_new_def d)
  show "\<not> rect_is_empty s" using lt by (simp add: s rect_is_empty_def rect_new_def)
  show "covers s p \<longleftrightarrow> covers a p \<and> covers c p"
    unfolding s by (auto simp: covers_def rect_new_def d)
qed

lemma intersect_None:
  assumes "on_screen a" "on_screen c" "intersect a c = None"
  shows "\<not> (covers a p \<and> covers c p)"
  using assms by (auto simp: intersect_def Let_def screen_simps covers_def split: if_splits)

definition disjoint_rects :: "rect_px list \<Rightarrow> bool" where
  "disjoint_rects rs = sorted_wrt (\<lambda>a b. \<forall>p. \<not> (covers a p \<and> covers b p)) rs"

lemma covers_any_simps [simp]:
  "covers_any [] p = False"
  "covers_any (r # rs) p = (covers r p \<or> covers_any rs p)"
  "covers_any (rs @ qs) p = (covers_any rs p \<or> covers_any qs p)"
  by (auto simp: covers_any_def)

lemma covers_any_concat: "covers_any (concat rss) p \<longleftrightarrow> (\<exists>rs \<in> set rss. covers_any rs p)"
  by (induction rss) auto

lemma covers_any_ex: "covers_any rs p \<longleftrightarrow> (\<exists>r \<in> set rs. covers r p)"
  by (auto simp: covers_any_def list_ex_iff)

lemma rect_empty_covers: "rect_is_empty r \<Longrightarrow> \<not> covers r p"
  by (auto simp: rect_is_empty_def covers_def)

text \<open>The pieces left of \<open>a\<close> when \<open>hole\<close> is cut out, with the arithmetic resolved.\<close>

lemma subtract_Some_eq:
  assumes a: "on_screen a" and h: "on_screen hole" and i: "intersect a hole = Some ix"
  shows "subtract a hole =
    (if ry ix > ry a then [rect_new (rx a) (ry a) (rw a) (ry ix - ry a)] else [])
    @ (if ry ix + rh ix < ry a + rh a
       then [rect_new (rx a) (ry ix + rh ix) (rw a) (ry a + rh a - (ry ix + rh ix))] else [])
    @ (if rx ix > rx a then [rect_new (rx a) (ry ix) (rx ix - rx a) (rh ix)] else [])
    @ (if rx ix + rw ix < rx a + rw a
       then [rect_new (rx ix + rw ix) (ry ix) (rx a + rw a - (rx ix + rw ix)) (rh ix)] else [])"
proof -
  note sx = intersect_Some(1)[OF a h i]
  have "i32 (ry ix - ry a) = ry ix - ry a" "i32 (rx ix - rx a) = rx ix - rx a"
    "i32 (ry a + rh a - (ry ix + rh ix)) = ry a + rh a - (ry ix + rh ix)"
    "i32 (rx a + rw a - (rx ix + rw ix)) = rx a + rw a - (rx ix + rw ix)"
    using a sx by (auto simp: on_screen_def intro!: i32_small)
  then show ?thesis using a sx by (simp add: subtract_def i screen_simps)
qed

lemma intersect_within:
  assumes "on_screen a" "on_screen c" "intersect a c = Some s"
  shows "rx a \<le> rx s \<and> ry a \<le> ry s \<and> rx s + rw s \<le> rx a + rw a \<and> ry s + rh s \<le> ry a + rh a
    \<and> 0 < rw s \<and> 0 < rh s"
proof -
  note s = intersect_Some[OF assms]
  have pos: "0 < rw s" "0 < rh s" using s(2) by (auto simp: rect_is_empty_def)
  have "covers a (rx s, ry s)" "covers a (rx s + rw s - 1, ry s + rh s - 1)"
    using s(3)[of "(rx s, ry s)"] s(3)[of "(rx s + rw s - 1, ry s + rh s - 1)"] pos
    by (auto simp: covers_def)
  then show ?thesis using pos by (auto simp: covers_def)
qed

lemma covers_any_if: "covers_any (if c then [r] else []) p \<longleftrightarrow> c \<and> covers r p"
  by simp

lemma subtract_Some_pixels:
  assumes a: "on_screen a" and h: "on_screen hole" and i: "intersect a hole = Some ix"
  shows "covers_any (subtract a hole) p \<longleftrightarrow> covers a p \<and> \<not> covers ix p"
proof -
  note w = intersect_within[OF a h i]
  consider "snd p < ry ix" | "ry ix + rh ix \<le> snd p" | "ry ix \<le> snd p" "snd p < ry ix + rh ix" by linarith
  then show ?thesis
    using w unfolding subtract_Some_eq[OF a h i] covers_any_simps(3) covers_any_if covers_def rect_new_def rect_px.simps
    by cases (linarith+)
qed
lemma subtract_pixels:
  assumes a: "on_screen a" and h: "on_screen hole"
  shows "covers_any (subtract a hole) p \<longleftrightarrow> covers a p \<and> \<not> covers hole p"
proof (cases "intersect a hole")
  case None
  then show ?thesis using intersect_None[OF a h, of p] rect_empty_covers[of a p]
    by (auto simp: subtract_def)
next
  case (Some ix)
  have px: "covers a p \<and> covers hole p \<longleftrightarrow> covers ix p"
    using intersect_Some(3)[OF a h Some, of p] by simp
  have "covers_any (subtract a hole) p \<longleftrightarrow> covers a p \<and> \<not> covers ix p"
    by (rule subtract_Some_pixels[OF a h Some])
  then show ?thesis using px by blast
qed

lemma subtract_on_screen:
  assumes a: "on_screen a" and h: "on_screen hole"
  shows "list_all on_screen (subtract a hole)"
proof (cases "intersect a hole")
  case None
  then show ?thesis using a by (simp add: subtract_def)
next
  case (Some ix)
  show ?thesis
    using intersect_within[OF a h Some] intersect_Some(1)[OF a h Some] a
    unfolding subtract_Some_eq[OF a h Some]
    by (auto simp: on_screen_def rect_new_def)
qed

lemma subtract_disjoint:
  assumes a: "on_screen a" and h: "on_screen hole"
  shows "disjoint_rects (subtract a hole)"
proof (cases "intersect a hole")
  case None
  then show ?thesis by (simp add: subtract_def disjoint_rects_def)
next
  case (Some ix)
  show ?thesis
    using intersect_within[OF a h Some]
    unfolding subtract_Some_eq[OF a h Some]
    by (auto simp: disjoint_rects_def covers_def rect_new_def)
qed

text \<open>Disjointness of a concatenation: each block disjoint, and blocks disjoint by pixels.\<close>

lemma disjoint_rects_append:
  "disjoint_rects (rs @ qs) \<longleftrightarrow> disjoint_rects rs \<and> disjoint_rects qs \<and>
     (\<forall>p. \<not> (covers_any rs p \<and> covers_any qs p))"
  by (auto simp: disjoint_rects_def sorted_wrt_append covers_any_ex)

lemma disjoint_rects_concat_map:
  assumes "disjoint_rects rs"
    and "\<And>r. r \<in> set rs \<Longrightarrow> disjoint_rects (f r)"
    and "\<And>r p. r \<in> set rs \<Longrightarrow> covers_any (f r) p \<Longrightarrow> covers r p"
  shows "disjoint_rects (concat (map f rs))"
  using assms
proof (induction rs)
  case (Cons r rs)
  have "\<not> (covers_any (f r) p \<and> covers_any (concat (map f rs)) p)" for p
  proof
    assume p: "covers_any (f r) p \<and> covers_any (concat (map f rs)) p"
    then obtain q where q: "q \<in> set rs" "covers_any (f q) p" by (auto simp: covers_any_concat)
    then have "covers r p" "covers q p" using p Cons.prems(3) by auto
    then show False using Cons.prems(1) q(1) by (cases p) (auto simp: disjoint_rects_def)
  qed
  moreover have "disjoint_rects (concat (map f rs))"
    using Cons by (simp add: disjoint_rects_def)
  ultimately show ?case using Cons.prems(2)[of r] by (simp add: disjoint_rects_append)
qed (simp add: disjoint_rects_def)

lemma region_subtract_pixels:
  assumes "list_all on_screen rs" "on_screen hole"
  shows "covers_any (region_subtract rs hole) p \<longleftrightarrow> covers_any rs p \<and> \<not> covers hole p"
  using assms by (induction rs) (auto simp: region_subtract_def subtract_pixels)

lemma region_subtract_on_screen:
  assumes "list_all on_screen rs" "on_screen hole"
  shows "list_all on_screen (region_subtract rs hole)"
  using assms by (induction rs) (auto simp: region_subtract_def subtract_on_screen)

lemma region_subtract_disjoint:
  assumes "list_all on_screen rs" "on_screen hole" "disjoint_rects rs"
  shows "disjoint_rects (region_subtract rs hole)"
  unfolding region_subtract_def
  by (rule disjoint_rects_concat_map)
    (use assms in \<open>auto simp: list_all_iff subtract_disjoint subtract_pixels\<close>)

lemma visible_after_spec:
  assumes "list_all on_screen vs" "list_all (\<lambda>w. on_screen (wg_rect w)) occs" "disjoint_rects vs"
  shows "list_all on_screen (visible_after vs occs) \<and> disjoint_rects (visible_after vs occs) \<and>
    (\<forall>p. covers_any (visible_after vs occs) p \<longleftrightarrow>
       covers_any vs p \<and> \<not> (\<exists>w \<in> set occs. covers (wg_rect w) p))"
  using assms
proof (induction vs occs rule: visible_after.induct)
  case (2 vs occ occs)
  define v where "v = region_subtract vs (wg_rect occ)"
  have px: "covers_any v p \<longleftrightarrow> covers_any vs p \<and> \<not> covers (wg_rect occ) p" for p
    using 2 by (simp add: v_def region_subtract_pixels)
  have os: "list_all on_screen v" and dj: "disjoint_rects v"
    using 2 by (simp_all add: v_def region_subtract_on_screen region_subtract_disjoint)
  show ?case
  proof (cases "v = []")
    case True
    then have "\<not> (covers_any vs p \<and> \<not> covers (wg_rect occ) p)" for p using px[of p] by simp
    then show ?thesis using True by (auto simp: v_def Let_def disjoint_rects_def)
  next
    case False
    then show ?thesis using 2 os dj px by (auto simp: v_def Let_def)
  qed
qed simp

lemma ring_on_screen_eq:
  assumes r: "on_screen rect" and e: "\<not> rect_is_empty rect" and t0: "thickness > 0"
    and t: "t = min (min thickness (rw rect)) (rh rect)"
  shows "ring rect thickness =
    [rect_new (rx rect) (ry rect) (rw rect) t]
    @ (if rh rect > t then [rect_new (rx rect) (ry rect + rh rect - t) (rw rect) t] else [])
    @ (if rh rect - 2 * t > 0
       then [rect_new (rx rect) (ry rect + t) t (rh rect - 2 * t)]
            @ (if rw rect > t
               then [rect_new (rx rect + rw rect - t) (ry rect + t) t (rh rect - 2 * t)] else [])
       else [])"
proof -
  have tb: "0 < t" "t \<le> rw rect" "t \<le> rh rect" using e t0 t by (auto simp: rect_is_empty_def)
  have "i32 (2 * t) = 2 * t" "i32 (rh rect - 2 * t) = rh rect - 2 * t"
    "i32 (ry rect + t) = ry rect + t" "i32 (ry rect + rh rect - t) = ry rect + rh rect - t"
    "i32 (rx rect + rw rect - t) = rx rect + rw rect - t"
    using r tb by (auto simp: on_screen_def intro!: i32_small)
  then show ?thesis
    using r e t0 by (simp add: ring_def Let_def screen_simps flip: t)
qed

lemma ring_spec:
  assumes r: "on_screen rect" and e: "\<not> rect_is_empty rect" and t0: "thickness > 0"
  shows "list_all on_screen (ring rect thickness)" (is ?A)
    and "2 * thickness \<le> rw rect \<Longrightarrow> 2 * thickness \<le> rh rect \<Longrightarrow>
      disjoint_rects (ring rect thickness)" (is "_ \<Longrightarrow> _ \<Longrightarrow> ?B")
    and "covers_any (ring rect thickness) p \<longleftrightarrow> in_ring rect thickness p" (is ?C)
proof -
  obtain t where t: "t = min (min thickness (rw rect)) (rh rect)" by simp
  have tb: "0 < t" "t \<le> rw rect" "t \<le> rh rect" "t \<le> thickness"
    using e t0 t by (auto simp: rect_is_empty_def)
  note eq = ring_on_screen_eq[OF r e t0 t]
  show ?A using r tb unfolding eq by (auto simp: on_screen_def rect_new_def)
  show ?B if "2 * thickness \<le> rw rect" "2 * thickness \<le> rh rect"
    using tb that unfolding eq by (auto simp: disjoint_rects_def covers_def rect_new_def)
  have "covers_any (ring rect thickness) p \<longleftrightarrow> in_ring rect t p"
    using tb unfolding eq by (auto simp: in_ring_def covers_def rect_new_def)
  moreover have "in_ring rect t p \<longleftrightarrow> in_ring rect thickness p"
    unfolding t by (auto simp: in_ring_def covers_def min_def)
  ultimately show ?C by simp
qed

text \<open>The segments drawn are the bands cut down to what is visible.\<close>

lemma segments_pixels:
  assumes "list_all on_screen bands" "list_all on_screen vs"
  shows "covers_any (segments_of bands vs) p \<longleftrightarrow> covers_any bands p \<and> covers_any vs p"
proof -
  have one: "covers_any (case intersect b v of None \<Rightarrow> [] | Some s \<Rightarrow> [s]) p
      \<longleftrightarrow> covers b p \<and> covers v p" if "on_screen b" "on_screen v" for b v
    using intersect_None[OF that, of p] intersect_Some(3)[OF that, of _ p]
    by (cases "intersect b v") auto
  have "covers_any (segments_of bands vs) p \<longleftrightarrow> (\<exists>b \<in> set bands. \<exists>v \<in> set vs.
      covers_any (case intersect b v of None \<Rightarrow> [] | Some s \<Rightarrow> [s]) p)"
    unfolding segments_of_def by (simp add: covers_any_concat)
  also have "\<dots> \<longleftrightarrow> (\<exists>b \<in> set bands. \<exists>v \<in> set vs. covers b p \<and> covers v p)"
    using assms one unfolding list_all_iff by (intro bex_cong refl) blast
  also have "\<dots> \<longleftrightarrow> covers_any bands p \<and> covers_any vs p"
    unfolding covers_any_ex by blast
  finally show ?thesis .
qed

lemma window_frame_pixels:
  assumes "on_screen (wg_rect wg)" "list_all (\<lambda>w. on_screen (wg_rect w)) occs"
  shows "(\<exists>f \<in> set (window_frame work thickness color_of occs wg). covers_any (fr_segments f) p) \<longleftrightarrow>
    wg_window wg \<in> set work \<and> 0 < thickness \<and> in_ring (wg_rect wg) thickness p \<and>
    \<not> (\<exists>w \<in> set occs. covers (wg_rect w) p)"
proof (cases "wg_window wg \<in> set work \<and> \<not> rect_is_empty (wg_rect wg) \<and> 0 < thickness")
  case False
  then have "wg_window wg \<notin> set work \<or> ring (wg_rect wg) thickness = []"
    unfolding ring_def by (simp add: not_less)
  then have "window_frame work thickness color_of occs wg = []"
    by (elim disjE) (simp_all add: window_frame_def Let_def segments_of_def)
  moreover have "rect_is_empty (wg_rect wg) \<Longrightarrow> \<not> covers (wg_rect wg) p"
    using rect_empty_covers by blast
  ultimately show ?thesis using False by (auto simp: in_ring_def)
next
  case True
  define v where "v = visible_after [wg_rect wg] occs"
  define sg where "sg = segments_of (ring (wg_rect wg) thickness) v"
  have vis: "list_all on_screen v" "covers_any v p \<longleftrightarrow> covers (wg_rect wg) p \<and>
      \<not> (\<exists>w \<in> set occs. covers (wg_rect w) p)"
    using visible_after_spec[of "[wg_rect wg]" occs] assms
    by (cases p; simp add: v_def disjoint_rects_def)+
  have "covers_any sg p \<longleftrightarrow> in_ring (wg_rect wg) thickness p \<and> covers_any v p"
    using True assms(1) vis(1) by (simp add: sg_def segments_pixels ring_spec)
  moreover have "v = [] \<Longrightarrow> \<not> covers_any v p" by simp
  moreover have "window_frame work thickness color_of occs wg =
      (if v = [] \<or> sg = [] then []
       else [\<lparr>fr_window = wg_window wg, fr_color = color_of (wg_window wg), fr_segments = sg\<rparr>])"
    using True by (simp add: window_frame_def v_def sg_def Let_def)
  ultimately show ?thesis
    using True vis(2) by (auto simp: in_ring_def)
qed

lemma window_frame_window: "f \<in> set (window_frame work t c occs wg) \<Longrightarrow> fr_window f = wg_window wg"
  by (auto simp: window_frame_def Let_def split: if_splits)

lemma frames_impl_at:
  assumes "i < length ws" "distinct (map wg_window ws)"
  shows "(\<exists>f \<in> set (frames_impl ws work t c). fr_window f = wg_window (ws ! i) \<and> Q f) \<longleftrightarrow>
    (\<exists>f \<in> set (window_frame work t c (take i ws) (ws ! i)). Q f)"
proof
  assume "\<exists>f \<in> set (frames_impl ws work t c). fr_window f = wg_window (ws ! i) \<and> Q f"
  then obtain f j where f: "j < length ws" "f \<in> set (window_frame work t c (take j ws) (ws ! j))"
    "fr_window f = wg_window (ws ! i)" "Q f"
    by (auto simp: frames_impl_def)
  then have "map wg_window ws ! j = map wg_window ws ! i"
    using assms(1) by (simp add: window_frame_window[OF f(2)])
  then have "j = i"
    using nth_eq_iff_index_eq[of "map wg_window ws" j i] assms f(1) by simp
  then show "\<exists>f \<in> set (window_frame work t c (take i ws) (ws ! i)). Q f" using f by blast
next
  assume "\<exists>f \<in> set (window_frame work t c (take i ws) (ws ! i)). Q f"
  then show "\<exists>f \<in> set (frames_impl ws work t c). fr_window f = wg_window (ws ! i) \<and> Q f"
    using assms(1) by (force simp: frames_impl_def dest: window_frame_window)
qed

text \<open>
  The Clave Edge. With windows listed front to back, distinct ids and coordinates below
  \<open>2\<^sup>2\<^sup>9\<close>, the frame computed for the \<open>i\<close>-th window covers a pixel exactly when the window is a work
  window, the border thickness is positive, the pixel lies in the window within that distance of
  one of its edges, and no window in front of it covers the pixel. A personal window is never
  framed, and no frame is ever painted over another window.
\<close>

theorem edge_exact:
  assumes "i < length windows" "distinct (map wg_window windows)"
    and "list_all (\<lambda>w. on_screen (wg_rect w)) windows"
  shows "(\<exists>f \<in> set (recompute_frames windows work cfg).
            fr_window f = wg_window (windows ! i) \<and> covers_any (fr_segments f) p) \<longleftrightarrow>
    wg_window (windows ! i) \<in> set work \<and> 0 < bc_thickness cfg \<and>
    in_ring (wg_rect (windows ! i)) (bc_thickness cfg) p \<and>
    \<not> (\<exists>w \<in> set (take i windows). covers (wg_rect w) p)"
proof -
  have "on_screen (wg_rect (windows ! i))" using assms(1,3) by (simp add: list_all_length)
  moreover have "list_all (\<lambda>w. on_screen (wg_rect w)) (take i windows)"
    using assms(3) by (auto simp: list_all_iff dest: in_set_takeD)
  ultimately show ?thesis
    unfolding recompute_frames_def frames_impl_at[OF assms(1,2)] by (rule window_frame_pixels)
qed

text \<open>
  The edge at a pixel: a 100 by 80 work window partly behind a personal one. The pixel on its
  left border is painted, the pixel on its right border, behind the personal window, is not.
\<close>

theorem edge_exact_witness:
  "(\<exists>f \<in> set (recompute_frames
       [\<lparr>wg_window = WindowId 1, wg_rect = rect_new 50 0 100 100\<rparr>,
        \<lparr>wg_window = WindowId 2, wg_rect = rect_new 0 0 100 80\<rparr>] [WindowId 2] border_cfg_default).
     fr_window f = WindowId 2 \<and> covers_any (fr_segments f) (1, 40)) \<and>
   \<not> (\<exists>f \<in> set (recompute_frames
       [\<lparr>wg_window = WindowId 1, wg_rect = rect_new 50 0 100 100\<rparr>,
        \<lparr>wg_window = WindowId 2, wg_rect = rect_new 0 0 100 80\<rparr>] [WindowId 2] border_cfg_default).
     fr_window f = WindowId 2 \<and> covers_any (fr_segments f) (99, 40))"
  using edge_exact[of 1 "[\<lparr>wg_window = WindowId 1, wg_rect = rect_new 50 0 100 100\<rparr>,
        \<lparr>wg_window = WindowId 2, wg_rect = rect_new 0 0 100 80\<rparr>]" "[WindowId 2]"
        border_cfg_default "(1, 40)"]
    edge_exact[of 1 "[\<lparr>wg_window = WindowId 1, wg_rect = rect_new 50 0 100 100\<rparr>,
        \<lparr>wg_window = WindowId 2, wg_rect = rect_new 0 0 100 80\<rparr>]" "[WindowId 2]"
        border_cfg_default "(99, 40)"]
  by (simp add: on_screen_def rect_new_def border_cfg_default_def in_ring_def covers_def)

end
