(* ===== verification/Zone.thy ===== *)
theory Zone
  imports Platform
begin

text \<open>
  \<open>clave-core/src/zone.rs\<close>: the registry of processes in the work zone, a \<open>HashMap\<close> from process
  identity to membership behind a lock. Every operation takes the lock once, so each is one atomic
  step. The locale \<open>zone_registry\<close> states the contract the rest of the system relies on (the
  registry is a finite set of processes, changed by join and leave only); it is interpreted on the
  model, and its client lemma says what any history of joins and leaves makes of a process.
\<close>

datatype join_reason = Launcher | Child proc_id | AllowList

record zone_member =
  zm_id :: proc_id
  zm_reason :: join_reason

type_synonym zone_registry = "(proc_id, zone_member) hmap"

definition zone_new :: zone_registry where
  "zone_new = []"

definition zone_join :: "zone_registry \<Rightarrow> proc_id \<Rightarrow> join_reason \<Rightarrow> zone_registry" where
  "zone_join z p reason = hm_insert z p \<lparr>zm_id = p, zm_reason = reason\<rparr>"

definition zone_leave :: "zone_registry \<Rightarrow> proc_id \<Rightarrow> zone_registry" where
  "zone_leave z p = hm_remove z p"

definition is_supervised :: "zone_registry \<Rightarrow> proc_id \<Rightarrow> bool" where
  "is_supervised z p = hm_contains z p"

definition zone_member_of :: "zone_registry \<Rightarrow> proc_id \<Rightarrow> zone_member option" where
  "zone_member_of z p = hm_get z p"

definition supervised_pids :: "zone_registry \<Rightarrow> u32 list" where
  "supervised_pids z = remdups_adj (sort (map proc_pid (hm_keys z)))"

definition zone_len :: "zone_registry \<Rightarrow> nat" where
  "zone_len z = length z"

definition zone_is_empty :: "zone_registry \<Rightarrow> bool" where
  "zone_is_empty z = (zone_len z = 0)"

definition zone_reset_from :: "zone_registry \<Rightarrow> (proc_id \<times> join_reason) list \<Rightarrow> zone_registry" where
  "zone_reset_from z xs =
     foldl (\<lambda>g (p, reason). hm_insert g p \<lparr>zm_id = p, zm_reason = reason\<rparr>) [] xs"

text \<open>Well-formed: distinct keys, each stored under its own identity.\<close>

definition zone_wf :: "zone_registry \<Rightarrow> bool" where
  "zone_wf z = (hm_wf z \<and> list_all (\<lambda>(p, m). zm_id m = p) z)"

definition zone_set :: "zone_registry \<Rightarrow> proc_id set" where
  "zone_set z = {p. is_supervised z p}"

lemma list_all_update: "list_all P m \<Longrightarrow> P (k, v) \<Longrightarrow> list_all P (AList.update k v m)"
  by (induction m) auto

lemma list_all_delete: "list_all P m \<Longrightarrow> list_all P (AList.delete k m)"
  by (auto simp: list_all_iff AList.delete_eq)

lemma zone_wf_new [simp]: "zone_wf zone_new"
  by (simp add: zone_wf_def zone_new_def)

lemma zone_wf_join [simp]: "zone_wf z \<Longrightarrow> zone_wf (zone_join z p r)"
  by (simp add: zone_wf_def zone_join_def) (simp add: hm_insert_def list_all_update)

lemma zone_wf_leave [simp]: "zone_wf z \<Longrightarrow> zone_wf (zone_leave z p)"
  by (simp add: zone_wf_def zone_leave_def) (simp add: hm_remove_def list_all_delete)

lemma supervised_join [simp]: "is_supervised (zone_join z p r) q \<longleftrightarrow> q = p \<or> is_supervised z q"
  by (simp add: is_supervised_def zone_join_def)

lemma supervised_leave [simp]: "is_supervised (zone_leave z p) q \<longleftrightarrow> q \<noteq> p \<and> is_supervised z q"
  by (simp add: is_supervised_def zone_leave_def)

lemma supervised_new [simp]: "\<not> is_supervised zone_new q"
  by (simp add: is_supervised_def zone_new_def)

lemma member_join:
  "zone_member_of (zone_join z p r) q =
     (if q = p then Some \<lparr>zm_id = p, zm_reason = r\<rparr> else zone_member_of z q)"
  by (simp add: zone_member_of_def zone_join_def)

lemma zone_len_card: "zone_wf z \<Longrightarrow> zone_len z = card (zone_set z)"
proof -
  assume "zone_wf z"
  then have d: "distinct (hm_keys z)" by (simp add: zone_wf_def hm_wf_def hm_keys_def)
  have "zone_set z = set (hm_keys z)" by (auto simp: zone_set_def is_supervised_def set_hm_keys)
  then show ?thesis using distinct_card[OF d] by (simp add: zone_len_def hm_keys_def)
qed

lemma set_supervised_pids: "set (supervised_pids z) = proc_pid ` zone_set z"
  by (simp add: supervised_pids_def zone_set_def is_supervised_def set_hm_keys)

lemma sorted_remdups_adj_strict:
  "sorted (xs :: 'a::linorder list) \<Longrightarrow> distinct (remdups_adj xs)"
  by (induction xs rule: remdups_adj.induct) (auto simp: order.antisym split: if_splits)

section \<open>The registry's contract\<close>

datatype zone_event = ZJoin proc_id join_reason | ZLeave proc_id

fun ev_about :: "proc_id \<Rightarrow> zone_event \<Rightarrow> bool" where
  "ev_about q (ZJoin p _) = (p = q)"
| "ev_about q (ZLeave p) = (p = q)"

fun ev_is_join :: "zone_event \<Rightarrow> bool" where
  "ev_is_join (ZJoin _ _) = True"
| "ev_is_join (ZLeave _) = False"

fun zone_apply :: "zone_registry \<Rightarrow> zone_event \<Rightarrow> zone_registry" where
  "zone_apply z (ZJoin p r) = zone_join z p r"
| "zone_apply z (ZLeave p) = zone_leave z p"

locale zone_registry =
  fixes new :: 'z
    and join :: "'z \<Rightarrow> proc_id \<Rightarrow> join_reason \<Rightarrow> 'z"
    and leave :: "'z \<Rightarrow> proc_id \<Rightarrow> 'z"
    and sup :: "'z \<Rightarrow> proc_id \<Rightarrow> bool"
    and count :: "'z \<Rightarrow> nat"
    and abs :: "'z \<Rightarrow> proc_id set"
    and zstep :: "'z \<Rightarrow> zone_event \<Rightarrow> 'z"
    and wf :: "'z \<Rightarrow> bool"
  assumes abs_new: "abs new = {}"
    and abs_join: "wf z \<Longrightarrow> abs (join z p r) = insert p (abs z)"
    and abs_leave: "wf z \<Longrightarrow> abs (leave z p) = abs z - {p}"
    and sup_abs: "wf z \<Longrightarrow> sup z p \<longleftrightarrow> p \<in> abs z"
    and count_abs: "wf z \<Longrightarrow> count z = card (abs z)"
    and wf_new: "wf new"
    and wf_join: "wf z \<Longrightarrow> wf (join z p r)"
    and wf_leave: "wf z \<Longrightarrow> wf (leave z p)"
    and zstep_join: "zstep z (ZJoin p r) = join z p r"
    and zstep_leave: "zstep z (ZLeave p) = leave z p"
begin

lemma wf_run: "wf z \<Longrightarrow> wf (foldl zstep z es)"
proof (induction es arbitrary: z)
  case (Cons e es)
  then show ?case by (cases e) (auto simp: zstep_join zstep_leave intro: wf_join wf_leave)
qed simp

lemma sup_zstep:
  "wf z \<Longrightarrow> sup (zstep z e) q \<longleftrightarrow> (if ev_about q e then ev_is_join e else sup z q)"
  by (cases e)
    (auto simp: zstep_join zstep_leave sup_abs abs_join abs_leave wf_join wf_leave)

lemma last_event_decides:
  "wf z \<Longrightarrow> sup (foldl zstep z es) q \<longleftrightarrow>
     (case filter (ev_about q) es of [] \<Rightarrow> sup z q | _ \<Rightarrow> ev_is_join (last (filter (ev_about q) es)))"
proof (induction es rule: rev_induct)
  case (snoc e es)
  then show ?case
    by (auto simp: sup_zstep wf_run split: list.splits)
qed simp

end

interpretation zr: zone_registry zone_new zone_join zone_leave is_supervised zone_len zone_set
  zone_apply zone_wf
  by unfold_locales (auto simp: zone_set_def zone_len_card)

text \<open>
  Work-zone membership. After any sequence of joins and leaves from an empty registry, a
  process is supervised exactly when the last event about it was a join, and the number of
  supervised processes reported is the number of distinct members.
\<close>

theorem zone_history:
  "(is_supervised (foldl zone_apply zone_new es) q \<longleftrightarrow>
     (case filter (ev_about q) es of [] \<Rightarrow> False
      | _ \<Rightarrow> ev_is_join (last (filter (ev_about q) es)))) \<and>
   zone_len (foldl zone_apply zone_new es) = card (zone_set (foldl zone_apply zone_new es))"
  using zr.last_event_decides[OF zr.wf_new, of es q] zr.count_abs[OF zr.wf_run[OF zr.wf_new, of es]]
  by (simp split: list.splits)

text \<open>
  The pid list handed to the OS hooks is strictly ascending and lists exactly the pids of the
  supervised processes.
\<close>

theorem supervised_pids_exact:
  "sorted_wrt (<) (supervised_pids z) \<and> set (supervised_pids z) = proc_pid ` zone_set z"
proof -
  have "sorted (supervised_pids z)" by (simp add: supervised_pids_def sorted_remdups_adj)
  moreover have "distinct (supervised_pids z)"
    unfolding supervised_pids_def by (rule sorted_remdups_adj_strict) simp
  ultimately show ?thesis by (simp add: strict_sorted_iff set_supervised_pids)
qed

text \<open>Resetting forgets every earlier member and keeps exactly the listed processes.\<close>

lemma zone_reset_exact:
  "zone_wf (zone_reset_from z xs) \<and> zone_set (zone_reset_from z xs) = fst ` set xs"
proof (induction xs rule: rev_induct)
  case Nil
  then show ?case
    by (simp add: zone_reset_from_def zone_wf_def zone_set_def is_supervised_def)
next
  case (snoc x xs)
  obtain p r where x: "x = (p, r)" by (cases x)
  have "zone_reset_from z (xs @ [x]) = zone_join (zone_reset_from z xs) p r"
    by (simp add: zone_reset_from_def zone_join_def x)
  with snoc show ?case by (auto simp: x zone_set_def)
qed

end
