(* ===== verification/App.thy ===== *)
theory App
  imports Zone
begin

text \<open>
  \<open>clave-core/src/app.rs\<close> and \<open>web.rs\<close>: the allow-list of work applications, the classification
  of an exec, and the resolution of a launch profile into the arguments and environment that keep
  an application's state on the Clave Disk. Web apps launch as contained browser windows.
\<close>

section \<open>Data\<close>

datatype app_id = AppId (app_id_str: string)

datatype binary_match =
    BMacos string string      \<comment> \<open>\<open>team_id\<close>, \<open>signing_id\<close>\<close>
  | BWindows string string    \<comment> \<open>\<open>publisher\<close>, \<open>product\<close>\<close>

datatype container_kind = Native | Chromium

record launch_profile =
  lp_profile_subdir :: string
  lp_container :: container_kind
  lp_args :: "string list"
  lp_env :: "(string \<times> string) list"
  lp_namespace_prefix :: "string option"
  lp_hive_seed :: "string option"
  lp_passthrough_paths :: "string list"
  lp_seed_home :: "string list"

definition launch_profile_default :: launch_profile where
  "launch_profile_default =
     \<lparr>lp_profile_subdir = [], lp_container = Native, lp_args = [], lp_env = [],
      lp_namespace_prefix = None, lp_hive_seed = None, lp_passthrough_paths = [],
      lp_seed_home = []\<rparr>"

definition launch_profile_chromium :: launch_profile where
  "launch_profile_chromium = launch_profile_default\<lparr>lp_container := Chromium\<rparr>"

definition with_seed_home :: "launch_profile \<Rightarrow> string list \<Rightarrow> launch_profile" where
  "with_seed_home p paths = p\<lparr>lp_seed_home := paths\<rparr>"

record app_rule =
  ar_app_id :: app_id
  ar_binary :: binary_match
  ar_launch :: launch_profile
  ar_display_name :: string
  ar_executable :: string

record launchable_app =
  la_app_id :: app_id
  la_label :: string

record launch_spec =
  ls_app_id :: app_id
  ls_executable :: string
  ls_args :: "string list"
  ls_env :: "(string \<times> string) list"
  ls_namespace_prefix :: "string option"
  ls_seed_home :: "string list"

record resolved_launch =
  rl_home :: string
  rl_profile_dir :: string
  rl_args :: "string list"
  rl_env :: "(string \<times> string) list"
  rl_hive_path :: "string option"
  rl_namespace_prefix :: "string option"
  rl_seed_home :: "string list"

record app_policy =
  ap_allow :: "app_rule list"

record exec_verdict =
  ev_allow :: bool
  ev_joins_zone :: bool
  ev_matched :: "app_id option"

section \<open>Operations on rules and profiles\<close>

definition app_rule_new :: "app_id \<Rightarrow> binary_match \<Rightarrow> app_rule" where
  "app_rule_new aid b =
     \<lparr>ar_app_id = aid, ar_binary = b, ar_launch = launch_profile_default,
      ar_display_name = [], ar_executable = []\<rparr>"

definition with_launch :: "app_rule \<Rightarrow> launch_profile \<Rightarrow> app_rule" where
  "with_launch r l = r\<lparr>ar_launch := l\<rparr>"

definition with_display_name :: "app_rule \<Rightarrow> string \<Rightarrow> app_rule" where
  "with_display_name r n = r\<lparr>ar_display_name := n\<rparr>"

definition with_executable :: "app_rule \<Rightarrow> string \<Rightarrow> app_rule" where
  "with_executable r e = r\<lparr>ar_executable := e\<rparr>"

definition app_rule_label :: "app_rule \<Rightarrow> string" where
  "app_rule_label r = (if ar_display_name r = [] then app_id_str (ar_app_id r) else ar_display_name r)"

definition is_launchable :: "app_rule \<Rightarrow> bool" where
  "is_launchable r = (ar_executable r \<noteq> [])"

definition resolve :: "launch_profile \<Rightarrow> app_id \<Rightarrow> string \<Rightarrow> string \<Rightarrow> resolved_launch" where
  "resolve p aid mount_point user =
     (let sub = (if lp_profile_subdir p = [] then app_id_str aid else lp_profile_subdir p);
          home = mount_point @ ''/'' @ user;
          profile_dir = home @ ''/profiles/'' @ sub;
          env = [(''HOME'', home), (''TMPDIR'', home @ ''/tmp'')] @ lp_env p;
          args = (case lp_container p of
                    Native \<Rightarrow> []
                  | Chromium \<Rightarrow> [''--user-data-dir='' @ profile_dir, ''--no-first-run'',
                                 ''--no-default-browser-check'']) @ lp_args p;
          hive_path = map_option (\<lambda>h. home @ ''/registry/'' @ h) (lp_hive_seed p)
      in \<lparr>rl_home = home, rl_profile_dir = profile_dir, rl_args = args, rl_env = env,
          rl_hive_path = hive_path, rl_namespace_prefix = lp_namespace_prefix p,
          rl_seed_home = lp_seed_home p\<rparr>)"

definition rule_launch_spec :: "app_rule \<Rightarrow> string \<Rightarrow> string \<Rightarrow> launch_spec" where
  "rule_launch_spec r mount_point user =
     (let resolved = resolve (ar_launch r) (ar_app_id r) mount_point user
      in \<lparr>ls_app_id = ar_app_id r, ls_executable = ar_executable r, ls_args = rl_args resolved,
          ls_env = rl_env resolved, ls_namespace_prefix = rl_namespace_prefix resolved,
          ls_seed_home = rl_seed_home resolved\<rparr>)"

section \<open>Allow-list and exec classification\<close>

definition app_policy_empty :: app_policy where
  "app_policy_empty = \<lparr>ap_allow = []\<rparr>"

fun binary_matches :: "binary_match \<Rightarrow> binary_match \<Rightarrow> bool \<Rightarrow> bool" where
  "binary_matches (BMacos rule_team rule_sign) (BMacos pres_team pres_sign) is_platform_binary =
     (if rule_sign \<noteq> pres_sign then False
      else if rule_team = [] then is_platform_binary \<and> pres_team = []
      else rule_team = pres_team)"
| "binary_matches (BWindows rule_pub rule_prod) (BWindows pres_pub pres_prod) is_platform_binary =
     (rule_pub = pres_pub \<and> rule_prod = pres_prod)"
| "binary_matches _ _ is_platform_binary = False"

definition match_app :: "app_policy \<Rightarrow> binary_match \<Rightarrow> bool \<Rightarrow> app_id option" where
  "match_app pol presented is_platform_binary =
     map_option ar_app_id
       (List.find (\<lambda>r. binary_matches (ar_binary r) presented is_platform_binary) (ap_allow pol))"

definition app_policy_rule :: "app_policy \<Rightarrow> app_id \<Rightarrow> app_rule option" where
  "app_policy_rule pol aid = List.find (\<lambda>r. ar_app_id r = aid) (ap_allow pol)"

definition classify_exec :: "binary_match \<Rightarrow> bool \<Rightarrow> bool \<Rightarrow> app_policy \<Rightarrow> exec_verdict" where
  "classify_exec binary is_platform_binary parent_supervised apps =
     (case match_app apps binary is_platform_binary of
        Some app \<Rightarrow> \<lparr>ev_allow = True, ev_joins_zone = True, ev_matched = Some app\<rparr>
      | None \<Rightarrow> \<lparr>ev_allow = True, ev_joins_zone = parent_supervised, ev_matched = None\<rparr>)"

section \<open>Web apps\<close>

record web_app_rule =
  wr_id :: app_id
  wr_display_name :: string
  wr_url :: string
  wr_persona :: "string option"

record web_policy =
  wp_browser :: string
  wp_apps :: "web_app_rule list"

record web_app_info =
  wi_app_id :: app_id
  wi_label :: string
  wi_url :: string

definition web_app_rule_new :: "string \<Rightarrow> string \<Rightarrow> web_app_rule" where
  "web_app_rule_new i u = \<lparr>wr_id = AppId i, wr_display_name = [], wr_url = u, wr_persona = None\<rparr>"

definition web_with_display_name :: "web_app_rule \<Rightarrow> string \<Rightarrow> web_app_rule" where
  "web_with_display_name r n = r\<lparr>wr_display_name := n\<rparr>"

definition web_with_persona :: "web_app_rule \<Rightarrow> string \<Rightarrow> web_app_rule" where
  "web_with_persona r p = r\<lparr>wr_persona := Some p\<rparr>"

definition web_label :: "web_app_rule \<Rightarrow> string" where
  "web_label r = (if wr_display_name r = [] then app_id_str (wr_id r) else wr_display_name r)"

definition web_launch_spec :: "web_app_rule \<Rightarrow> string \<Rightarrow> string \<Rightarrow> string \<Rightarrow> launch_spec" where
  "web_launch_spec r browser mount_point user =
     (let subdir = (case wr_persona r of Some p \<Rightarrow> p | None \<Rightarrow> ''web-'' @ app_id_str (wr_id r));
          profile = launch_profile_default
            \<lparr>lp_profile_subdir := subdir, lp_container := Chromium,
             lp_args := [''--app='' @ wr_url r]\<rparr>;
          resolved = resolve profile (wr_id r) mount_point user
      in \<lparr>ls_app_id = wr_id r, ls_executable = browser, ls_args = rl_args resolved,
          ls_env = rl_env resolved, ls_namespace_prefix = rl_namespace_prefix resolved,
          ls_seed_home = rl_seed_home resolved\<rparr>)"

definition web_policy_default :: web_policy where
  "web_policy_default = \<lparr>wp_browser = [], wp_apps = []\<rparr>"

definition web_is_launchable :: "web_policy \<Rightarrow> bool" where
  "web_is_launchable p = (wp_browser p \<noteq> [])"

definition web_rule :: "web_policy \<Rightarrow> app_id \<Rightarrow> web_app_rule option" where
  "web_rule p i = List.find (\<lambda>r. wr_id r = i) (wp_apps p)"

section \<open>Lemmas\<close>

lemma binary_matches_team:
  "binary_matches (BMacos [] s) (BMacos t s') b \<longleftrightarrow> s = s' \<and> t = [] \<and> b"
  by auto

text \<open>
  Exec classification. Every exec is allowed to run; it joins the work zone exactly when some
  allow-list rule matches the presented binary or its parent is supervised, and the application it
  is attributed to is that of the first matching rule. A rule with an empty team id is matched only
  by a platform binary that presents no team id and the rule's signing id, so no developer-signed
  binary can pass for a platform application.
\<close>

theorem classify_exec_exact:
  "ev_allow (classify_exec b plat psup pol) \<and>
   (ev_joins_zone (classify_exec b plat psup pol) \<longleftrightarrow>
      psup \<or> (\<exists>r \<in> set (ap_allow pol). binary_matches (ar_binary r) b plat)) \<and>
   ev_matched (classify_exec b plat psup pol) =
      map_option ar_app_id (List.find (\<lambda>r. binary_matches (ar_binary r) b plat) (ap_allow pol)) \<and>
   (binary_matches (BMacos [] s) b plat \<longleftrightarrow> plat \<and> b = BMacos [] s)"
proof -
  have imp: "binary_matches (BMacos [] s) b plat \<longleftrightarrow> plat \<and> b = BMacos [] s"
    by (cases b) auto
  show ?thesis
    using imp find_None_all[of "\<lambda>r. binary_matches (ar_binary r) b plat" "ap_allow pol"]
    by (auto simp: classify_exec_def match_app_def split: option.splits dest: find_SomeD)
qed

lemma resolve_home: "rl_home (resolve p a m u) = m @ ''/'' @ u"
  by (simp add: resolve_def Let_def)

lemma resolve_env_prefix:
  "rl_env (resolve p a m u)
     = (''HOME'', m @ ''/'' @ u) # (''TMPDIR'', m @ ''/'' @ u @ ''/tmp'') # lp_env p"
  by (simp add: resolve_def Let_def)

lemma resolve_chromium_args:
  "lp_container p = Chromium \<Longrightarrow>
   hd (rl_args (resolve p a m u)) = ''--user-data-dir='' @ rl_profile_dir (resolve p a m u)"
  by (simp add: resolve_def Let_def)

end
