(* ===== verification/Policy.thy ===== *)
theory Policy
  imports App Overlay
begin

text \<open>
  \<open>clave-core/src/policy.rs\<close> and the provider data of \<open>clave-core/src/net.rs\<close>: the signed policy
  bundle, its sections, the queries the decision engine makes of them and the lint \<open>validate\<close>.
  The lemmas show that host matching is insensitive to case and trailing dots and that \<open>validate\<close>
  is silent exactly on the bundles that meet its rules.
\<close>

section \<open>Network providers (net.rs)\<close>

datatype forward_mode = Wireguard | Ipsec | ExplicitProxy | Dns

datatype forwarding = PacketTunnel | FlowProxy | DnsOnly

datatype provider_error = MissingEndpoint | MissingResolvers

record dns_steering =
  ds_resolvers :: "string list"
  ds_match_domains :: "string list"
  ds_steer_all :: bool

record network_provider =
  np_id :: string
  np_display_name :: string
  np_mode :: forward_mode
  np_endpoints :: "string list"
  np_static_egress_ip :: "string option"
  np_dns :: "dns_steering option"
  np_params :: "(string, string) hmap"

definition provider_forwarding :: "network_provider \<Rightarrow> provider_error + forwarding" where
  "provider_forwarding p =
     (case np_mode p of
        Wireguard \<Rightarrow> (if np_endpoints p = [] then Inl MissingEndpoint else Inr PacketTunnel)
      | Ipsec \<Rightarrow> (if np_endpoints p = [] then Inl MissingEndpoint else Inr PacketTunnel)
      | ExplicitProxy \<Rightarrow> (if np_endpoints p = [] then Inl MissingEndpoint else Inr FlowProxy)
      | Dns \<Rightarrow> (case np_dns p of
                  Some d \<Rightarrow> (if ds_resolvers d \<noteq> [] then Inr DnsOnly else Inl MissingResolvers)
                | None \<Rightarrow> Inl MissingResolvers))"

definition is_egress :: "network_provider \<Rightarrow> bool" where
  "is_egress p = (np_mode p \<noteq> Dns)"

section \<open>The policy bundle (policy.rs)\<close>

record input_policy =
  ip_on_tap :: decision
  ip_allowed_tappers :: "string list"

record screen_policy =
  sp_on_capture :: decision
  sp_allowed_capturers :: "string list"

record overlay_policy =
  op_color :: rgba
  op_thickness :: u32

record clipboard_policy =
  cp_work_to_personal_allow :: "clip_format list"
  cp_personal_to_work_sanitize :: "clip_format list"

record network_policy =
  np_blocked_hosts :: "string list"
  np_egress_ip :: "string option"
  np_providers :: "network_provider list"

record file_policy =
  fp_allow_save_outside_enclave :: bool
  fp_work_data_roots :: "string list"
  fp_cow_roots :: "string list"

record policy_bundle =
  pb_version :: u64
  pb_not_after :: unix_time
  pb_clipboard :: clipboard_policy
  pb_network :: network_policy
  pb_files :: file_policy
  pb_apps :: app_policy
  pb_overlay :: overlay_policy
  pb_screen :: screen_policy
  pb_input :: input_policy
  pb_web :: web_policy

definition default_on_tap :: decision where
  "default_on_tap = Deny"

definition default_on_capture :: decision where
  "default_on_capture = Deny"

definition input_policy_default :: input_policy where
  "input_policy_default = \<lparr>ip_on_tap = default_on_tap, ip_allowed_tappers = []\<rparr>"

definition is_allowed_tapper :: "input_policy \<Rightarrow> string \<Rightarrow> bool" where
  "is_allowed_tapper p exe = list_ex (\<lambda>a. a = exe) (ip_allowed_tappers p)"

definition screen_policy_default :: screen_policy where
  "screen_policy_default = \<lparr>sp_on_capture = default_on_capture, sp_allowed_capturers = []\<rparr>"

definition is_allowed_capturer :: "screen_policy \<Rightarrow> string \<Rightarrow> bool" where
  "is_allowed_capturer p exe = list_ex (\<lambda>a. a = exe) (sp_allowed_capturers p)"

definition default_edge_color :: rgba where
  "default_edge_color = CLAVE_EDGE"

definition default_edge_thickness :: u32 where
  "default_edge_thickness = 3"

definition overlay_policy_default :: overlay_policy where
  "overlay_policy_default = \<lparr>op_color = default_edge_color, op_thickness = default_edge_thickness\<rparr>"

definition policy_border_cfg :: "overlay_policy \<Rightarrow> border_cfg" where
  "policy_border_cfg p = \<lparr>bc_thickness = sint (op_thickness p), bc_color = op_color p\<rparr>"

definition work_to_personal :: "clipboard_policy \<Rightarrow> clip_format \<Rightarrow> decision" where
  "work_to_personal p fmt =
     (if List.member (cp_work_to_personal_allow p) fmt then Allow else Deny)"

definition personal_to_work :: "clipboard_policy \<Rightarrow> clip_format \<Rightarrow> decision" where
  "personal_to_work p fmt =
     (if List.member (cp_personal_to_work_sanitize p) fmt then Sanitize else Allow)"

definition normalize_host :: "string \<Rightarrow> string" where
  "normalize_host host = to_ascii_lowercase (trim_end_matches host CHR ''.'')"

definition is_blocked :: "network_policy \<Rightarrow> string \<Rightarrow> bool" where
  "is_blocked p host =
     (let host = normalize_host host in list_ex (\<lambda>h. normalize_host h = host) (np_blocked_hosts p))"

definition egress_provider :: "network_policy \<Rightarrow> network_provider option" where
  "egress_provider p = List.find is_egress (np_providers p)"

fun find_map_list :: "('a \<Rightarrow> 'b option) \<Rightarrow> 'a list \<Rightarrow> 'b option" where
  "find_map_list f [] = None"
| "find_map_list f (x # xs) = (case f x of Some y \<Rightarrow> Some y | None \<Rightarrow> find_map_list f xs)"

definition policy_dns_steering :: "network_policy \<Rightarrow> dns_steering option" where
  "policy_dns_steering p = find_map_list np_dns (np_providers p)"

definition ZONE_PAIRS :: "(zone \<times> zone) list" where
  "ZONE_PAIRS = [(Work, Work), (Work, Personal), (Personal, Work), (Personal, Personal)]"

definition restrictive_default :: policy_bundle where
  "restrictive_default =
     \<lparr>pb_version = 0, pb_not_after = -1,
      pb_clipboard = \<lparr>cp_work_to_personal_allow = [], cp_personal_to_work_sanitize = []\<rparr>,
      pb_network = \<lparr>np_blocked_hosts = [], np_egress_ip = None, np_providers = []\<rparr>,
      pb_files = \<lparr>fp_allow_save_outside_enclave = False, fp_work_data_roots = [],
                  fp_cow_roots = []\<rparr>,
      pb_apps = app_policy_empty, pb_overlay = overlay_policy_default,
      pb_screen = screen_policy_default, pb_input = input_policy_default,
      pb_web = web_policy_default\<rparr>"

section \<open>Lint of a bundle\<close>

definition em_dash :: string where
  "em_dash = [CHR 0xE2, CHR 0x80, CHR 0x94]"

text \<open>The two loops of \<open>validate\<close>, each with the set of identifiers seen so far.\<close>

fun validate_apps :: "string list \<Rightarrow> app_rule list \<Rightarrow> string list" where
  "validate_apps seen [] = []"
| "validate_apps seen (rule # rest) =
     (let i = app_id_str (ar_app_id rule)
      in if trim i = [] then ''an app rule has an empty id'' # validate_apps seen rest
         else if i \<in> set seen then (''duplicate app id: '' @ i) # validate_apps seen rest
         else validate_apps (i # seen) rest)"

fun validate_web_apps :: "string list \<Rightarrow> web_app_rule list \<Rightarrow> string list" where
  "validate_web_apps seen [] = []"
| "validate_web_apps seen (w # rest) =
     (let i = app_id_str (wr_id w)
      in (if trim (wr_url w) = [] then [''web app '' @ [CHR 0x27] @ i @ [CHR 0x27] @ '' has an empty url''] else [])
         @ (if trim i = [] then ''a web app has an empty id'' # validate_web_apps seen rest
            else if i \<in> set seen then (''duplicate web app id: '' @ i) # validate_web_apps seen rest
            else validate_web_apps (i # seen) rest))"

definition validate :: "policy_bundle \<Rightarrow> string list" where
  "validate p =
     validate_apps [] (ap_allow (pb_apps p))
     @ (if wp_apps (pb_web p) \<noteq> [] \<and> trim (wp_browser (pb_web p)) = []
        then [''web apps are defined but web.browser is empty '' @ em_dash @ '' they cannot launch'']
        else [])
     @ validate_web_apps [] (wp_apps (pb_web p))
     @ (if pb_version p = 0
        then [''policy version is 0 '' @ em_dash @ '' bump it before issuing to devices''] else [])"

section \<open>Lemmas\<close>

lemma dot_not_letter: "\<not> upper_char CHR ''.''" "\<not> lower_char CHR ''.''"
  by (simp_all add: upper_char_def lower_char_def)

lemma normalize_host_idem [simp]: "normalize_host (normalize_host h) = normalize_host h"
  by (simp add: normalize_host_def map_lower_trim_end dot_not_letter)

lemma normalize_host_lower [simp]: "normalize_host (to_ascii_lowercase h) = normalize_host h"
  by (simp add: normalize_host_def map_lower_trim_end[OF dot_not_letter, symmetric])

lemma normalize_host_dot [simp]: "normalize_host (h @ ''.'') = normalize_host h"
  by (simp add: normalize_host_def)

lemma is_blocked_iff: "is_blocked p h \<longleftrightarrow> normalize_host h \<in> normalize_host ` set (np_blocked_hosts p)"
  unfolding is_blocked_def list_ex_iff Let_def image_iff by metis

lemma egress_provider_Some:
  "egress_provider p = Some x \<Longrightarrow> x \<in> set (np_providers p) \<and> np_mode x \<noteq> Dns"
  by (auto simp: egress_provider_def is_egress_def dest: find_SomeD)

lemma find_map_list_Some: "find_map_list f xs = Some y \<Longrightarrow> \<exists>x \<in> set xs. f x = Some y"
  by (induction xs) (auto split: option.splits)

lemma find_map_list_None: "find_map_list f xs = None \<longleftrightarrow> (\<forall>x \<in> set xs. f x = None)"
  by (induction xs) (auto split: option.splits)

lemma validate_apps_Nil:
  "validate_apps seen rules = [] \<longleftrightarrow>
     (\<forall>i \<in> set (map (app_id_str \<circ> ar_app_id) rules). trim i \<noteq> [] \<and> i \<notin> set seen) \<and>
     distinct (map (app_id_str \<circ> ar_app_id) rules)"
  by (induction seen rules rule: validate_apps.induct) (auto simp: Let_def image_iff)

lemma validate_web_apps_Nil:
  "validate_web_apps seen ws = [] \<longleftrightarrow>
     (\<forall>w \<in> set ws. trim (wr_url w) \<noteq> [] \<and> trim (app_id_str (wr_id w)) \<noteq> [] \<and>
        app_id_str (wr_id w) \<notin> set seen) \<and>
     distinct (map (app_id_str \<circ> wr_id) ws)"
  by (induction seen ws rule: validate_web_apps.induct) (auto simp: Let_def image_iff)

text \<open>
  The lint of the bundle. \<open>validate\<close> reports nothing exactly when the version is not 0, every
  app id and web-app id is non-blank and unique within its list, every web app has a non-blank url,
  and a browser is configured whenever there are web apps.
\<close>

theorem validate_clean_iff:
  "validate p = [] \<longleftrightarrow>
     pb_version p \<noteq> 0 \<and>
     distinct (map (app_id_str \<circ> ar_app_id) (ap_allow (pb_apps p))) \<and>
     list_all (\<lambda>r. trim (app_id_str (ar_app_id r)) \<noteq> []) (ap_allow (pb_apps p)) \<and>
     distinct (map (app_id_str \<circ> wr_id) (wp_apps (pb_web p))) \<and>
     list_all (\<lambda>w. trim (app_id_str (wr_id w)) \<noteq> [] \<and> trim (wr_url w) \<noteq> []) (wp_apps (pb_web p)) \<and>
     (if wp_apps (pb_web p) = [] then True else trim (wp_browser (pb_web p)) \<noteq> [])"
  by (auto simp: validate_def validate_apps_Nil validate_web_apps_Nil list_all_iff)

end
