(* ===== verification/Decide.thy ===== *)
theory Decide
  imports Policy
begin

text \<open>
  The decision engine: \<open>clave-core/src/decide.rs\<close> (verdicts on clipboard, file, network, screen and
  input actions), the flow and DNS classification of \<open>clave-core/src/net.rs\<close> and the audit events
  of \<open>clave-core/src/audit.rs\<close>. The specification is stated separately, as the question whether an
  action exposes work data and whether the policy permits it; the theorems show that the engine
  answers it, that verdicts about one process do not depend on the others, and that flow routing
  agrees with the verdicts.
\<close>

section \<open>Actions and verdicts\<close>

datatype access = Read | Write

datatype action =
    ClipboardTransfer zone zone clip_format
  | FileOpen proc_id bool access
  | NetConnect proc_id string
  | ScreenCapture "proc_id option" string
  | InputTap "proc_id option" string

datatype reason =
    RClipboard | RFileWrite | RFileAccess | REnclaveIntrusion | RNetwork | RScreenCapture
  | RInputTap | RPolicyExpired | RNotSupervised | RDefault

record verdict =
  vd_decision :: decision
  vd_reason :: reason

definition verdict_of :: "decision \<Rightarrow> reason \<Rightarrow> verdict" where
  "verdict_of d r = \<lparr>vd_decision = d, vd_reason = r\<rparr>"

definition verdict_allow :: "reason \<Rightarrow> verdict" where
  "verdict_allow r = verdict_of Allow r"

definition verdict_deny :: "reason \<Rightarrow> verdict" where
  "verdict_deny r = verdict_of Deny r"

definition is_allow :: "verdict \<Rightarrow> bool" where
  "is_allow v = (vd_decision v = Allow)"

lemmas verdict_simps = verdict_of_def verdict_allow_def verdict_deny_def is_allow_def

section \<open>The engine\<close>

fun clip_decision :: "zone \<Rightarrow> zone \<Rightarrow> clip_format \<Rightarrow> policy_bundle \<Rightarrow> decision" where
  "clip_decision Work Work fmt pol = Allow"
| "clip_decision Personal Personal fmt pol = Allow"
| "clip_decision Work Personal fmt pol = work_to_personal (pb_clipboard pol) fmt"
| "clip_decision Personal Work fmt pol = personal_to_work (pb_clipboard pol) fmt"

definition decide_file_open :: "bool \<Rightarrow> bool \<Rightarrow> access \<Rightarrow> bool \<Rightarrow> verdict" where
  "decide_file_open supervised inside_enclave acc allow_save_outside_enclave =
     (if inside_enclave \<and> \<not> supervised then verdict_deny REnclaveIntrusion
      else if inside_enclave \<and> supervised then verdict_allow RFileAccess
      else if supervised \<and> acc = Write \<and> \<not> allow_save_outside_enclave then verdict_deny RFileWrite
      else if supervised then verdict_allow RFileAccess
      else verdict_allow RNotSupervised)"

definition decide :: "action \<Rightarrow> zone_registry \<Rightarrow> policy_bundle \<Rightarrow> unix_time \<Rightarrow> verdict" where
  "decide act zones pol now =
     (if now > pb_not_after pol then verdict_deny RPolicyExpired
      else case act of
        ClipboardTransfer src dst fmt \<Rightarrow> verdict_of (clip_decision src dst fmt pol) RClipboard
      | FileOpen p inside_enclave acc \<Rightarrow>
          decide_file_open (is_supervised zones p) inside_enclave acc
            (fp_allow_save_outside_enclave (pb_files pol))
      | NetConnect p host \<Rightarrow>
          (if \<not> is_supervised zones p then verdict_allow RNotSupervised
           else if is_blocked (pb_network pol) host then verdict_deny RNetwork
           else verdict_allow RNetwork)
      | ScreenCapture p exe \<Rightarrow>
          (let in_zone = (case p of None \<Rightarrow> False | Some q \<Rightarrow> is_supervised zones q)
           in if in_zone \<or> is_allowed_capturer (pb_screen pol) exe then verdict_allow RScreenCapture
              else verdict_of (sp_on_capture (pb_screen pol)) RScreenCapture)
      | InputTap p exe \<Rightarrow>
          (let in_zone = (case p of None \<Rightarrow> False | Some q \<Rightarrow> is_supervised zones q)
           in if in_zone \<or> is_allowed_tapper (pb_input pol) exe then verdict_allow RInputTap
              else verdict_of (ip_on_tap (pb_input pol)) RInputTap))"

section \<open>Flows and DNS (net.rs)\<close>

definition classify_flow :: "proc_id \<Rightarrow> zone_registry \<Rightarrow> bool \<Rightarrow> route" where
  "classify_flow p zones dst_blocked =
     (if \<not> is_supervised zones p then RDirect else if dst_blocked then RBlock else RTunnel)"

datatype dns_decision = Steer | DnsPersonal

definition suffix_matches :: "string \<Rightarrow> string \<Rightarrow> bool" where
  "suffix_matches qname domain =
     (let domain = normalize_host domain
      in if domain = [] then False else qname = domain \<or> ends_with qname (CHR ''.'' # domain))"

definition decide_dns :: "proc_id \<Rightarrow> string \<Rightarrow> zone_registry \<Rightarrow> dns_steering \<Rightarrow> dns_decision" where
  "decide_dns p qname zones steering =
     (if \<not> is_supervised zones p then DnsPersonal
      else if ds_steer_all steering then Steer
      else let qname = normalize_host qname
           in if list_ex (\<lambda>d. suffix_matches qname d) (ds_match_domains steering) then Steer
              else DnsPersonal)"

definition classify_dns_flow ::
  "proc_id \<Rightarrow> zone_registry \<Rightarrow> string \<Rightarrow> dns_steering option \<Rightarrow> route" where
  "classify_dns_flow p zones qname steering =
     (if \<not> is_supervised zones p then RDirect
      else case steering of
             Some s \<Rightarrow> (case decide_dns p qname zones s of Steer \<Rightarrow> RTunnel | DnsPersonal \<Rightarrow> RDirect)
           | None \<Rightarrow> RTunnel)"

section \<open>Audit events (audit.rs)\<close>

datatype audit_action =
    ClipboardBlocked | ClipboardSanitized | FileSaveDenied | EnclaveIntrusionBlocked
  | NetworkBlocked | ScreenCaptureOverWork | InputTapOverWork | ProcessJoinedZone
  | ProcessLeftZone | VolumeMounted | VolumeUnmounted | Wiped

record audit_event =
  ae_ts :: unix_time
  ae_zone :: zone
  ae_action :: audit_action
  ae_verdict :: verdict
  ae_app_id :: "app_id option"

definition audit_event_new :: "unix_time \<Rightarrow> audit_action \<Rightarrow> verdict \<Rightarrow> audit_event" where
  "audit_event_new ts act v =
     \<lparr>ae_ts = ts, ae_zone = Work, ae_action = act, ae_verdict = v, ae_app_id = None\<rparr>"

definition with_app_id :: "audit_event \<Rightarrow> app_id \<Rightarrow> audit_event" where
  "with_app_id e a = e\<lparr>ae_app_id := Some a\<rparr>"

section \<open>Specification: exposure and permission\<close>

text \<open>
  An action exposes work data when it carries it over the boundary of the work zone, or lets a
  process outside the zone observe it.
\<close>

fun proc_supervised :: "zone_registry \<Rightarrow> proc_id option \<Rightarrow> bool" where
  "proc_supervised z None = False"
| "proc_supervised z (Some p) = is_supervised z p"

fun exposes_work :: "zone_registry \<Rightarrow> action \<Rightarrow> bool" where
  "exposes_work z (ClipboardTransfer s d f) = (s = Work \<and> d = Personal)"
| "exposes_work z (FileOpen p inside acc) =
     (if inside then \<not> is_supervised z p else is_supervised z p \<and> acc = Write)"
| "exposes_work z (NetConnect p h) = is_supervised z p"
| "exposes_work z (ScreenCapture p e) = (\<not> proc_supervised z p)"
| "exposes_work z (InputTap p e) = (\<not> proc_supervised z p)"

fun policy_permits :: "policy_bundle \<Rightarrow> action \<Rightarrow> bool" where
  "policy_permits pol (ClipboardTransfer s d f) = (f \<in> set (cp_work_to_personal_allow (pb_clipboard pol)))"
| "policy_permits pol (FileOpen p inside acc) =
     (\<not> inside \<and> fp_allow_save_outside_enclave (pb_files pol))"
| "policy_permits pol (NetConnect p h) =
     (normalize_host h \<notin> normalize_host ` set (np_blocked_hosts (pb_network pol)))"
| "policy_permits pol (ScreenCapture p e) =
     (e \<in> set (sp_allowed_capturers (pb_screen pol)) \<or> sp_on_capture (pb_screen pol) = Allow)"
| "policy_permits pol (InputTap p e) =
     (e \<in> set (ip_allowed_tappers (pb_input pol)) \<or> ip_on_tap (pb_input pol) = Allow)"

text \<open>A paste into the work zone of a format the policy lists is let through sanitized.\<close>

fun sanitized_paste :: "policy_bundle \<Rightarrow> action \<Rightarrow> bool" where
  "sanitized_paste pol (ClipboardTransfer Personal Work f) =
     (f \<in> set (cp_personal_to_work_sanitize (pb_clipboard pol)))"
| "sanitized_paste pol _ = False"

text \<open>The processes an action is about.\<close>

fun action_procs :: "action \<Rightarrow> proc_id set" where
  "action_procs (ClipboardTransfer s d f) = {}"
| "action_procs (FileOpen p i a) = {p}"
| "action_procs (NetConnect p h) = {p}"
| "action_procs (ScreenCapture p e) = set_option p"
| "action_procs (InputTap p e) = set_option p"

section \<open>Theorems\<close>

lemma clip_allow_iff:
  "clip_decision s d f pol = Allow \<longleftrightarrow>
     (if s = Work \<and> d = Personal then f \<in> set (cp_work_to_personal_allow (pb_clipboard pol))
      else \<not> sanitized_paste pol (ClipboardTransfer s d f))"
  by (cases s; cases d) (simp_all add: work_to_personal_def personal_to_work_def)

lemma proc_supervised_case:
  "(case p of None \<Rightarrow> False | Some q \<Rightarrow> is_supervised z q) = proc_supervised z p"
  by (cases p) auto

lemma allowed_lists:
  "is_allowed_capturer s e \<longleftrightarrow> e \<in> set (sp_allowed_capturers s)"
  "is_allowed_tapper i e \<longleftrightarrow> e \<in> set (ip_allowed_tappers i)"
  by (auto simp: is_allowed_capturer_def is_allowed_tapper_def list_ex_iff)

text \<open>
  (C1) Work data leaves the zone only with the policy's permission. A verdict allows an action
  exactly when the policy has not expired, the action is not a paste the policy sanitizes, and the
  policy permits the action if it exposes work data. Personal activity that exposes nothing is
  never refused by an unexpired policy.
\<close>

theorem decide_confines_work_data:
  "is_allow (decide act z pol now) \<longleftrightarrow>
     (if pb_not_after pol < now then False
      else if exposes_work z act then policy_permits pol act
      else \<not> sanitized_paste pol act)"
proof (cases act)
  case (ClipboardTransfer s d f)
  then show ?thesis by (auto simp: decide_def verdict_simps clip_allow_iff)
next
  case (FileOpen p inside acc)
  then show ?thesis by (auto simp: decide_def decide_file_open_def verdict_simps)
next
  case (NetConnect p h)
  then show ?thesis by (simp add: decide_def verdict_simps is_blocked_iff)
next
  case (ScreenCapture p e)
  then show ?thesis
    by (simp add: decide_def verdict_simps proc_supervised_case allowed_lists Let_def)
next
  case (InputTap p e)
  then show ?thesis
    by (simp add: decide_def verdict_simps proc_supervised_case allowed_lists Let_def)
qed

lemma decide_proc_cong:
  assumes "\<And>q. q \<in> action_procs act \<Longrightarrow> is_supervised z q = is_supervised z' q"
  shows "decide act z pol now = decide act z' pol now"
  using assms by (cases act) (auto simp: decide_def Let_def split: option.splits)

text \<open>
  Verdicts do not interfere. Joining or leaving the zone changes no verdict about other
  processes: for every sequence of zone events about processes other than those an action is
  about, the verdict on the action is the one before the events.
\<close>

theorem decide_noninterference:
  assumes "zone_wf z" "list_all (\<lambda>e. \<forall>p. ev_about p e \<longrightarrow> p \<notin> action_procs act) es"
  shows "decide act (foldl zone_apply z es) pol now = decide act z pol now"
proof (rule decide_proc_cong)
  fix q assume q: "q \<in> action_procs act"
  then have "filter (ev_about q) es = []" using assms(2) by (auto simp: list_all_iff filter_empty_conv)
  then show "is_supervised (foldl zone_apply z es) q = is_supervised z q"
    using zr.last_event_decides[OF assms(1), of es q] by simp
qed

text \<open>The verdict on a supervised process' save, with another process joining and leaving.\<close>

theorem decide_noninterference_witness:
  "decide (FileOpen (Windows 7 1) False Write)
     (foldl zone_apply (zone_join zone_new (Windows 7 1) Launcher)
        [ZJoin (Windows 8 1) AllowList, ZLeave (Windows 8 1)]) restrictive_default 5
   = \<lparr>vd_decision = Deny, vd_reason = RFileWrite\<rparr>"
  using decide_noninterference[of "zone_join zone_new (Windows 7 1) Launcher"
      "FileOpen (Windows 7 1) False Write" "[ZJoin (Windows 8 1) AllowList, ZLeave (Windows 8 1)]"
      restrictive_default 5]
  by (simp add: decide_def decide_file_open_def verdict_simps restrictive_default_def)

text \<open>
  Routing agrees with the verdicts. While the policy is in force a connection is denied
  exactly when the flow classifier blocks it; a personal flow is always direct; a work flow never
  goes out directly.
\<close>

theorem flow_agrees_with_verdict:
  "(vd_decision (decide (NetConnect p h) z pol now) = Deny \<longleftrightarrow>
      pb_not_after pol < now \<or> classify_flow p z (is_blocked (pb_network pol) h) = RBlock) \<and>
   (classify_flow p z b = RDirect \<longleftrightarrow> p \<notin> zone_set z) \<and>
   (classify_flow p z b = RBlock \<longleftrightarrow> p \<in> zone_set z \<and> b)"
  by (simp add: decide_def classify_flow_def verdict_simps zone_set_def)

lemma ends_with_dot: "ends_with q (c # d) \<longleftrightarrow> (\<exists>r. q = r @ c # d)"
  by (auto simp: ends_with_def suffix_def)

text \<open>
  DNS steering by labels. A query of a work process is steered exactly when everything is
  steered, or the labels of some non-empty match domain are a suffix of the labels of the query
  name, both compared without case and trailing dots: \<open>evil-corp.com\<close> does not match \<open>corp.com\<close>.
  Queries of personal processes are never steered.
\<close>

theorem decide_dns_exact:
  "decide_dns p qname z s = Steer \<longleftrightarrow>
     is_supervised z p \<and>
     (ds_steer_all s \<or>
      (\<exists>d \<in> set (ds_match_domains s). normalize_host d \<noteq> [] \<and>
         suffix (split_on (normalize_host d) CHR ''.'') (split_on (normalize_host qname) CHR ''.'')))"
  by (auto simp: decide_dns_def suffix_matches_def list_ex_iff Let_def split_on_suffix_iff
      ends_with_dot)

end
