(* ===== verification/Path.thy ===== *)
theory Path
  imports Decide
begin

text \<open>
  \<open>clave-core/src/path.rs\<close> and \<open>clave-core/src/learn.rs\<close>: which files a work application's path
  stands for (work data to redirect, a copy-on-write root, or pass-through), and the learning mode
  that turns observed accesses into a profile. The lemmas show that \<open>under\<close> compares whole path
  components, never part of one, and that a learned profile redirects every write it was learned
  from.
\<close>

section \<open>Classification of paths\<close>

datatype path_class = WorkData | SystemCow | PassThrough

definition is_ascii_alphabetic :: "char \<Rightarrow> bool" where
  "is_ascii_alphabetic c = (upper_char c \<or> lower_char c)"

definition is_windows_style :: "string \<Rightarrow> bool" where
  "is_windows_style s =
     (CHR 0x5C \<in> set s \<or>
      (case s of a # b # _ \<Rightarrow> is_ascii_alphabetic a \<and> b = CHR '':'' | _ \<Rightarrow> False))"

definition path_norm :: "bool \<Rightarrow> string \<Rightarrow> string" where
  "path_norm fold_case s =
     (let t = trim_end_matches (replace_char s (CHR 0x5C) (CHR ''/'')) (CHR ''/'')
      in if fold_case then to_ascii_lowercase t else t)"

definition under :: "string \<Rightarrow> string \<Rightarrow> bool" where
  "under path pre =
     (let fold_case = is_windows_style pre; pre = path_norm fold_case pre
      in if pre = [] then False
         else let path = path_norm fold_case path
              in path = pre \<or>
                 (case strip_prefix path pre of
                    None \<Rightarrow> False | Some rest \<Rightarrow> starts_with rest ''/''))"

definition is_under_mount :: "string \<Rightarrow> string \<Rightarrow> bool" where
  "is_under_mount path mount_point = under path mount_point"

definition classify_path :: "string \<Rightarrow> string \<Rightarrow> string list \<Rightarrow> file_policy \<Rightarrow> path_class" where
  "classify_path path mount_point passthrough files =
     (if under path mount_point then PassThrough
      else if list_ex (under path) passthrough then PassThrough
      else if list_ex (under path) (fp_work_data_roots files) then WorkData
      else if list_ex (under path) (fp_cow_roots files) then SystemCow
      else PassThrough)"

section \<open>Learning mode\<close>

datatype observation = PathAccess string bool | NamedObject string

record learn_session =
  ln_app_id :: app_id
  ln_observations :: "observation list"

record learned_profile =
  lr_app_id :: app_id
  lr_work_data_roots :: "string list"
  lr_launch :: launch_profile

definition learn_new :: "app_id \<Rightarrow> learn_session" where
  "learn_new a = \<lparr>ln_app_id = a, ln_observations = []\<rparr>"

definition learn_record :: "learn_session \<Rightarrow> observation \<Rightarrow> learn_session" where
  "learn_record s ob = s\<lparr>ln_observations := ln_observations s @ [ob]\<rparr>"

definition learn_len :: "learn_session \<Rightarrow> nat" where
  "learn_len s = length (ln_observations s)"

definition learn_is_empty :: "learn_session \<Rightarrow> bool" where
  "learn_is_empty s = (ln_observations s = [])"

definition is_sep :: "char \<Rightarrow> bool" where
  "is_sep c = (c = CHR ''/'' \<or> c = CHR 0x5C)"

definition parent_dir :: "string \<Rightarrow> string option" where
  "parent_dir path =
     (case dropWhile (\<lambda>c. \<not> is_sep c) (rev path) of
        [] \<Rightarrow> None
      | _ # d \<Rightarrow> (if d = [] then None else Some (rev d)))"

fun synth_step :: "string \<Rightarrow> string list \<times> bool \<Rightarrow> observation \<Rightarrow> string list \<times> bool" where
  "synth_step mount_point (roots, named) (PathAccess path True) =
     (if \<not> under path mount_point
      then (case parent_dir path of
              Some dir \<Rightarrow> (if \<not> list_ex (\<lambda>r. r = dir) roots then roots @ [dir] else roots)
            | None \<Rightarrow> roots)
      else roots, named)"
| "synth_step mount_point (roots, named) (PathAccess path False) = (roots, named)"
| "synth_step mount_point (roots, named) (NamedObject n) = (roots, True)"

definition synthesize :: "learn_session \<Rightarrow> string \<Rightarrow> learned_profile" where
  "synthesize s mount_point =
     (let (roots, named) = foldl (synth_step mount_point) ([], False) (ln_observations s)
      in \<lparr>lr_app_id = ln_app_id s, lr_work_data_roots = sort roots,
          lr_launch = launch_profile_default
            \<lparr>lp_profile_subdir := app_id_str (ln_app_id s),
             lp_namespace_prefix :=
               (if named then Some (''Clave-'' @ app_id_str (ln_app_id s) @ [CHR 0x5C]) else None)\<rparr>\<rparr>)"

section \<open>Path components\<close>

lemma slash_not_letter: "\<not> upper_char CHR ''/''" "\<not> lower_char CHR ''/''"
  by (simp_all add: upper_char_def lower_char_def)

lemma strip_starts:
  "(case strip_prefix s p of None \<Rightarrow> False | Some rest \<Rightarrow> starts_with rest [c])
     \<longleftrightarrow> (\<exists>r. s = p @ c # r)"
  by (auto simp: strip_prefix_def starts_with_def prefix_def)

lemma under_iff:
  "under path pre \<longleftrightarrow>
     (let f = is_windows_style pre; a = path_norm f pre; b = path_norm f path
      in a \<noteq> [] \<and> (b = a \<or> (\<exists>r. b = a @ CHR ''/'' # r)))"
  by (simp add: under_def Let_def strip_starts)

text \<open>
  Containment of paths is by whole components. \<open>under path prefix\<close> holds exactly when the
  prefix is not blank and its list of components is an initial segment of the list of components
  of the path, after unifying separators and dropping trailing ones (and without ASCII case when
  the prefix is a Windows path): \<open>/Volumes/ClaveDisk2\<close> is not under \<open>/Volumes/ClaveDisk\<close>.
\<close>

theorem under_components:
  "under path pre \<longleftrightarrow>
     path_norm (is_windows_style pre) pre \<noteq> [] \<and>
     prefix (split_on (path_norm (is_windows_style pre) pre) CHR ''/'')
            (split_on (path_norm (is_windows_style pre) path) CHR ''/'')"
  by (simp add: under_iff Let_def split_on_prefix_iff)

lemma trim_end_decomp: "\<exists>n. s = trim_end_matches s c @ replicate n c"
proof -
  define w where "w = takeWhile (\<lambda>x. x = c) (rev s)"
  have "rev s = w @ dropWhile (\<lambda>x. x = c) (rev s)" by (simp add: w_def)
  then have "s = trim_end_matches s c @ rev w"
    unfolding trim_end_matches_def by (metis rev_append rev_rev_ident)
  moreover have "replicate (length (rev w)) c = rev w"
    by (rule replicate_length_same) (auto simp: w_def dest: set_takeWhileD)
  ultimately show ?thesis by metis
qed

lemma trim_end_tail:
  assumes "rest \<noteq> []" "c \<notin> set rest"
  shows "trim_end_matches (s @ c # rest) c = s @ c # rest"
proof -
  obtain r x where "rest = r @ [x]" using assms(1) by (cases rest rule: rev_cases) auto
  with assms(2) show ?thesis using trim_end_matches_snoc_other[of x c "s @ c # r"] by auto
qed

lemma path_norm_child:
  assumes "is_sep c" "\<And>x. x \<in> set rest \<Longrightarrow> \<not> is_sep x"
  shows "path_norm f (d @ c # rest) = path_norm f d \<or>
    (\<exists>r. path_norm f (d @ c # rest) = path_norm f d @ CHR ''/'' # r)"
proof -
  let ?R = "\<lambda>s. replace_char s (CHR 0x5C) (CHR ''/'')"
  have rest: "?R rest = rest" "CHR ''/'' \<notin> set rest"
    using assms(2) by (auto simp: replace_char_def is_sep_def intro!: map_idI)
  have app: "?R (d @ c # rest) = ?R d @ CHR ''/'' # rest"
    using assms(1) rest(1) by (auto simp: replace_char_def is_sep_def)
  obtain n where n: "?R d = trim_end_matches (?R d) CHR ''/'' @ replicate n CHR ''/''"
    using trim_end_decomp by blast
  show ?thesis
  proof (cases "rest = []")
    case True
    then show ?thesis using app by (simp add: path_norm_def)
  next
    case False
    define p where "p = trim_end_matches (?R d) CHR ''/''"
    have "trim_end_matches (?R (d @ c # rest)) CHR ''/'' = ?R d @ CHR ''/'' # rest"
      using trim_end_tail[OF False rest(2), of "?R d"] app by simp
    also have "\<dots> = (p @ replicate n CHR ''/'') @ CHR ''/'' # rest"
      using n unfolding p_def by simp
    also have "\<dots> = p @ CHR ''/'' # (replicate n CHR ''/'' @ rest)"
      by (simp add: replicate_app_Cons_same)
    finally have t: "trim_end_matches (?R (d @ c # rest)) CHR ''/'' = \<dots>" .
    have "to_lower_char CHR ''/'' = CHR ''/''" by (simp add: to_lower_char_def)
    then show ?thesis unfolding path_norm_def t p_def[symmetric]
      by (simp add: to_ascii_lowercase_def)
  qed
qed

lemma parent_dir_Some:
  assumes "parent_dir path = Some d"
  obtains c rest where "path = d @ c # rest" "is_sep c" "\<And>x. x \<in> set rest \<Longrightarrow> \<not> is_sep x"
proof -
  from assms obtain c e where e: "dropWhile (\<lambda>c. \<not> is_sep c) (rev path) = c # e" "d = rev e"
    by (auto simp: parent_dir_def split: list.splits if_splits)
  define w where "w = takeWhile (\<lambda>c. \<not> is_sep c) (rev path)"
  have "rev path = w @ c # e" unfolding w_def e(1)[symmetric] by simp
  then have "path = d @ c # rev w" using e(2) by (metis append.assoc append_Cons append_Nil
    rev.simps(2) rev_append rev_rev_ident)
  moreover have "is_sep c" using e(1) by (metis hd_dropWhile list.distinct(1) list.sel(1))
  moreover have "\<And>x. x \<in> set (rev w) \<Longrightarrow> \<not> is_sep x" by (auto simp: w_def dest: set_takeWhileD)
  ultimately show ?thesis using that by blast
qed

lemma under_parent:
  assumes "parent_dir path = Some d" "path_norm (is_windows_style d) d \<noteq> []"
  shows "under path d"
proof -
  obtain c rest where "path = d @ c # rest" "is_sep c" "\<And>x. x \<in> set rest \<Longrightarrow> \<not> is_sep x"
    using parent_dir_Some[OF assms(1)] by blast
  then show ?thesis
    using assms(2) path_norm_child[of c rest "is_windows_style d" d]
    by (auto simp: under_iff Let_def)
qed

section \<open>What is learned\<close>

definition learned_dirs :: "string \<Rightarrow> observation list \<Rightarrow> string set" where
  "learned_dirs mnt obs =
     {d. \<exists>path. PathAccess path True \<in> set obs \<and> \<not> under path mnt \<and> parent_dir path = Some d}"

lemma synth_one:
  "set (fst (synth_step mnt (roots, named) ob)) = set roots \<union> learned_dirs mnt [ob]"
  "distinct roots \<Longrightarrow> distinct (fst (synth_step mnt (roots, named) ob))"
  "snd (synth_step mnt (roots, named) ob) \<longleftrightarrow> named \<or> (\<exists>n. ob = NamedObject n)"
proof (atomize (full), cases ob)
  case (PathAccess path w)
  show "set (fst (synth_step mnt (roots, named) ob)) = set roots \<union> learned_dirs mnt [ob] \<and>
    (distinct roots \<longrightarrow> distinct (fst (synth_step mnt (roots, named) ob))) \<and>
    snd (synth_step mnt (roots, named) ob) = (named \<or> (\<exists>n. ob = NamedObject n))"
    unfolding PathAccess
    by (cases w; cases "parent_dir path")
      (auto simp: learned_dirs_def list_ex_iff)
qed (auto simp: learned_dirs_def)

lemma synth_fold:
  "set (fst (foldl (synth_step mnt) st obs)) = set (fst st) \<union> learned_dirs mnt obs \<and>
   (distinct (fst st) \<longrightarrow> distinct (fst (foldl (synth_step mnt) st obs))) \<and>
   (snd (foldl (synth_step mnt) st obs) \<longleftrightarrow> snd st \<or> (\<exists>n. NamedObject n \<in> set obs))"
proof (induction obs arbitrary: st)
  case Nil
  then show ?case by (simp add: learned_dirs_def)
next
  case (Cons ob obs)
  obtain roots named where st: "st = (roots, named)" by (cases st)
  have step: "set (fst (synth_step mnt st ob)) = set roots \<union> learned_dirs mnt [ob]"
    "distinct roots \<Longrightarrow> distinct (fst (synth_step mnt st ob))"
    "snd (synth_step mnt st ob) \<longleftrightarrow> named \<or> (\<exists>n. ob = NamedObject n)"
    using synth_one[where mnt = mnt and roots = roots and named = named and ob = ob] by (simp_all add: st)
  have "learned_dirs mnt (ob # obs) = learned_dirs mnt [ob] \<union> learned_dirs mnt obs"
    by (auto simp: learned_dirs_def)
  then show ?case using Cons.IH[of "synth_step mnt st ob"] step by (auto simp: st)
qed

lemma synthesize_roots:
  "set (lr_work_data_roots (synthesize s mnt)) = learned_dirs mnt (ln_observations s)"
  "sorted_wrt (<) (lr_work_data_roots (synthesize s mnt))"
proof -
  obtain roots named where f: "foldl (synth_step mnt) ([], False) (ln_observations s) = (roots, named)"
    by fastforce
  then have "lr_work_data_roots (synthesize s mnt) = sort roots" by (simp add: synthesize_def)
  moreover have "set roots = learned_dirs mnt (ln_observations s)" "distinct roots"
    using synth_fold[of mnt "([], False)" "ln_observations s"] f by simp_all
  ultimately show "set (lr_work_data_roots (synthesize s mnt)) = learned_dirs mnt (ln_observations s)"
    "sorted_wrt (<) (lr_work_data_roots (synthesize s mnt))"
    by (simp_all add: strict_sorted_iff)
qed

text \<open>
  Learning is sound. Every write outside the Clave Disk observed while learning, whose parent
  directory is not the root, is classified as work data once the learned roots are the policy's
  work-data roots; the learned roots are strictly sorted and are exactly the parent directories of
  such writes, so reads and accesses inside the disk add nothing.
\<close>

theorem learned_profile_redirects_writes:
  assumes "PathAccess path True \<in> set (ln_observations s)" "\<not> under path mnt"
    and "parent_dir path = Some d" "path_norm (is_windows_style d) d \<noteq> []"
    and "fp_work_data_roots files = lr_work_data_roots (synthesize s mnt)"
  shows "classify_path path mnt (lp_passthrough_paths (lr_launch (synthesize s mnt))) files = WorkData \<and>
    sorted_wrt (<) (lr_work_data_roots (synthesize s mnt)) \<and>
    set (lr_work_data_roots (synthesize s mnt)) = learned_dirs mnt (ln_observations s)"
proof -
  have "d \<in> learned_dirs mnt (ln_observations s)" using assms(1-3) by (auto simp: learned_dirs_def)
  then have "list_ex (under path) (fp_work_data_roots files)"
    using under_parent[OF assms(3,4)] synthesize_roots(1)[of s mnt] assms(5)
    by (auto simp: list_ex_iff)
  moreover have "lp_passthrough_paths (lr_launch (synthesize s mnt)) = []"
    by (simp add: synthesize_def launch_profile_default_def split: prod.splits)
  ultimately show ?thesis using assms(2) synthesize_roots by (simp add: classify_path_def)
qed

text \<open>A session that observed one write to \<open>/Users/a/x\<close> learns \<open>/Users/a\<close>.\<close>

theorem learned_profile_redirects_writes_witness:
  "classify_path ''/Users/a/x'' ''/Volumes/D''
     (lp_passthrough_paths (lr_launch (synthesize
        (learn_record (learn_new (AppId ''acme'')) (PathAccess ''/Users/a/x'' True)) ''/Volumes/D'')))
     \<lparr>fp_allow_save_outside_enclave = False,
      fp_work_data_roots = lr_work_data_roots (synthesize
        (learn_record (learn_new (AppId ''acme'')) (PathAccess ''/Users/a/x'' True)) ''/Volumes/D''),
      fp_cow_roots = []\<rparr> = WorkData"
  using learned_profile_redirects_writes[of "''/Users/a/x''"
      "learn_record (learn_new (AppId ''acme'')) (PathAccess ''/Users/a/x'' True)" "''/Volumes/D''"
      "''/Users/a''" "\<lparr>fp_allow_save_outside_enclave = False,
      fp_work_data_roots = lr_work_data_roots (synthesize
        (learn_record (learn_new (AppId ''acme'')) (PathAccess ''/Users/a/x'' True)) ''/Volumes/D''),
      fp_cow_roots = []\<rparr>"]
  by (simp add: learn_record_def learn_new_def parent_dir_def is_sep_def under_def
      is_windows_style_def is_ascii_alphabetic_def upper_char_def lower_char_def path_norm_def
      trim_end_matches_def replace_char_def strip_prefix_def starts_with_def Let_def)

end
