(* ===== verification/Ext.thy ===== *)
theory Ext
  imports Clave_Prelude
begin

text \<open>
  What the sources use of code outside the repository: the postcard codec, Ed25519 signatures and
  SHA-256. Each is a record of functions that the definitions take as an argument. What the code
  relies on is stated as named predicates on those records, used as hypotheses by the theorems that
  need them. Little-endian byte strings (\<open>to_le_bytes\<close>, \<open>from_le_bytes\<close> of the standard library)
  are defined here with their round trip.
\<close>

section \<open>Little-endian bytes\<close>

fun le_bytes :: "nat \<Rightarrow> nat \<Rightarrow> bytes" where
  "le_bytes 0 k = []"
| "le_bytes (Suc n) k = of_nat k # le_bytes n (k div 256)"

fun le_val :: "bytes \<Rightarrow> nat" where
  "le_val [] = 0"
| "le_val (b # bs) = unat b + 256 * le_val bs"

lemma length_le_bytes [simp]: "length (le_bytes n k) = n"
  by (induction n arbitrary: k) auto

lemma le_val_bytes: "le_val (le_bytes n k) = k mod 256 ^ n"
proof (induction n arbitrary: k)
  case (Suc n)
  have "le_val (le_bytes (Suc n) k) = k mod 256 + 256 * (k div 256 mod 256 ^ n)"
    by (simp add: Suc unat_of_nat)
  also have "\<dots> = k mod (256 * 256 ^ n)" by (simp add: mod_mult2_eq)
  finally show ?case by simp
qed simp

lemma le_bytes_inj: "le_bytes n a = le_bytes n b \<Longrightarrow> a < 256 ^ n \<Longrightarrow> b < 256 ^ n \<Longrightarrow> a = b"
  by (metis le_val_bytes mod_less)

lemma le_bytes_4:
  "le_bytes 4 k = [of_nat k, of_nat (k div 256), of_nat (k div 256 div 256),
     of_nat (k div 256 div 256 div 256)]"
proof -
  have "(4 :: nat) = Suc (Suc (Suc (Suc 0)))" by simp
  then show ?thesis by (simp only: le_bytes.simps)
qed

definition to_le_bytes64 :: "u64 \<Rightarrow> bytes" where
  "to_le_bytes64 w = le_bytes 8 (unat w)"

lemma to_le_bytes64_inj: "to_le_bytes64 a = to_le_bytes64 b \<Longrightarrow> a = b"
proof -
  assume a: "to_le_bytes64 a = to_le_bytes64 b"
  have "unat w < 256 ^ 8" for w :: u64 using unsigned_less[of w, where 'a = nat] by simp
  then have "unat a = unat b" using le_bytes_inj[of 8] a by (auto simp: to_le_bytes64_def)
  then show ?thesis by (simp add: word_unat_eq_iff)
qed

lemma length_to_le_bytes64 [simp]: "length (to_le_bytes64 w) = 8"
  by (simp add: to_le_bytes64_def)

section \<open>Codecs\<close>

record 'a codec =
  cd_enc :: "'a \<Rightarrow> bytes"
  cd_dec :: "bytes \<Rightarrow> 'a option"

definition codec_ok_on :: "'a codec \<Rightarrow> 'a set \<Rightarrow> bool" where
  "codec_ok_on c S = (\<forall>x \<in> S. cd_dec c (cd_enc c x) = Some x)"

lemma codec_ok_onD: "codec_ok_on c S \<Longrightarrow> x \<in> S \<Longrightarrow> cd_dec c (cd_enc c x) = Some x"
  by (simp add: codec_ok_on_def)

lemma codec_inj_on: "codec_ok_on c S \<Longrightarrow> inj_on (cd_enc c) S"
  by (rule inj_onI) (metis codec_ok_onD option.sel)

section \<open>Signatures\<close>

text \<open>
  \<open>ed_key_ok\<close> and \<open>ed_sig_ok\<close> say that \<open>PublicKey::from_slice\<close> and \<open>Signature::from_slice\<close> accept
  the bytes. Signing takes no noise, so it is a function of the key seed and the message.
\<close>

record ed25519 =
  ed_public :: "bytes \<Rightarrow> bytes"
  ed_sign :: "bytes \<Rightarrow> bytes \<Rightarrow> bytes"
  ed_key_ok :: "bytes \<Rightarrow> bool"
  ed_sig_ok :: "bytes \<Rightarrow> bool"
  ed_verify :: "bytes \<Rightarrow> bytes \<Rightarrow> bytes \<Rightarrow> bool"

text \<open>Signatures made with a seed verify under its public key.\<close>

definition ed25519_correct :: "ed25519 \<Rightarrow> bool" where
  "ed25519_correct ed =
     (\<forall>seed msg. ed_key_ok ed (ed_public ed seed) \<and> ed_sig_ok ed (ed_sign ed seed msg) \<and>
        ed_verify ed (ed_public ed seed) msg (ed_sign ed seed msg))"

lemma ed25519_correctD:
  assumes "ed25519_correct ed"
  shows "ed_key_ok ed (ed_public ed seed)" "ed_sig_ok ed (ed_sign ed seed msg)"
    "ed_verify ed (ed_public ed seed) msg (ed_sign ed seed msg)"
  using assms by (simp_all add: ed25519_correct_def)

text \<open>A concrete signature scheme with these laws, for the witnesses.\<close>

definition ed_demo :: ed25519 where
  "ed_demo = \<lparr>ed_public = id, ed_sign = (\<lambda>seed msg. seed @ msg), ed_key_ok = (\<lambda>_. True),
     ed_sig_ok = (\<lambda>_. True), ed_verify = (\<lambda>pk msg sig. sig = pk @ msg)\<rparr>"

lemma ed_demo_correct: "ed25519_correct ed_demo"
  by (simp add: ed25519_correct_def ed_demo_def)

section \<open>Hashes\<close>

type_synonym sha256 = "bytes \<Rightarrow> bytes"

text \<open>No two of the given inputs collide.\<close>

definition collision_free_on :: "sha256 \<Rightarrow> bytes set \<Rightarrow> bool" where
  "collision_free_on sha S = inj_on sha S"

lemma collision_freeD:
  "collision_free_on sha S \<Longrightarrow> a \<in> S \<Longrightarrow> b \<in> S \<Longrightarrow> sha a = sha b \<Longrightarrow> a = b"
  by (auto simp: collision_free_on_def inj_on_def)

definition str_bytes :: "string \<Rightarrow> bytes" where
  "str_bytes s = map (\<lambda>c. of_nat (of_char c)) s"

end
