(* ===== verification/Proto.thy ===== *)
theory Proto
  imports Decide Ext
begin

text \<open>
  Crate \<open>clave-proto\<close>, the signed command channel: \<open>lib.rs\<close>, \<open>command.rs\<close>, \<open>sign.rs\<close>,
  \<open>verify.rs\<close> and the grant types of \<open>enroll.rs\<close>. The verifier keeps a high-water mark of command
  counters. The theorems show that it accepts what the gateway signs (within the age window), that
  every acceptance is justified, and that over any sequence of messages, replayed, reordered or
  forged, the accepted counters strictly increase, so no command takes effect twice.
\<close>

section \<open>Types\<close>

definition GATEWAY_PROTO_VERSION :: u16 where
  "GATEWAY_PROTO_VERSION = 1"

definition DEFAULT_MAX_AGE_SECS :: u64 where
  "DEFAULT_MAX_AGE_SECS = 30 * 24 * 60 * 60"

definition MAX_FUTURE_SKEW_SECS :: u64 where
  "MAX_FUTURE_SKEW_SECS = 5 * 60"

definition PROTO_DOMAIN :: bytes where
  "PROTO_DOMAIN = str_bytes (''clave-proto/v1'' @ [CHR 0x0A])"

definition signing_input :: "bytes \<Rightarrow> bytes" where
  "signing_input envelope_bytes = PROTO_DOMAIN @ envelope_bytes"

datatype tenant_id = TenantId u64

datatype proto_error =
    BadSignature
  | Replay u64 u64              \<comment> \<open>\<open>last\<close>, \<open>got\<close>\<close>
  | Stale unix_time unix_time   \<comment> \<open>\<open>issued_at\<close>, \<open>now\<close>\<close>
  | WrongTenant tenant_id tenant_id
  | UnsupportedProto u16
  | Malformed

datatype control_reason = Offboarding | LostOrStolen | Compromise | AdminRequest

datatype gateway_command =
    UpdatePolicy policy_bundle
  | Lock control_reason
  | Wipe u128 control_reason

record envelope =
  en_proto :: u16
  en_tenant :: tenant_id
  en_counter :: u64
  en_issued_at :: unix_time
  en_command :: gateway_command

definition envelope_new :: "tenant_id \<Rightarrow> u64 \<Rightarrow> unix_time \<Rightarrow> gateway_command \<Rightarrow> envelope" where
  "envelope_new t c issued cmd =
     \<lparr>en_proto = GATEWAY_PROTO_VERSION, en_tenant = t, en_counter = c, en_issued_at = issued,
      en_command = cmd\<rparr>"

definition envelope_to_bytes :: "envelope codec \<Rightarrow> envelope \<Rightarrow> bytes" where
  "envelope_to_bytes pc e = cd_enc pc e"

record signed_command =
  sc_envelope :: bytes
  sc_signature :: bytes

record wrapped_volume_key =
  wk_container :: u128
  wk_wrapped_dek :: bytes
  wk_ephemeral_pub :: "bytes option"

record tls_credentials =
  tc_ca_pem :: bytes
  tc_cert_pem :: bytes
  tc_key_pem :: bytes
  tc_server_name :: string
  tc_gateway_addr :: string

record enrollment_grant =
  eg_policy :: "signed_command option"
  eg_volume_key :: "wrapped_volume_key option"

section \<open>Signing (sign.rs)\<close>

record gateway_signing_key =
  gk_seed :: bytes
  gk_tenant :: tenant_id

definition signing_key_from_seed :: "tenant_id \<Rightarrow> bytes \<Rightarrow> gateway_signing_key" where
  "signing_key_from_seed t seed = \<lparr>gk_seed = seed, gk_tenant = t\<rparr>"

definition gk_public_key :: "ed25519 \<Rightarrow> gateway_signing_key \<Rightarrow> bytes" where
  "gk_public_key ed k = ed_public ed (gk_seed k)"

definition sign_envelope ::
  "ed25519 \<Rightarrow> envelope codec \<Rightarrow> gateway_signing_key \<Rightarrow> envelope \<Rightarrow> signed_command" where
  "sign_envelope ed pc k e =
     (let bytes = envelope_to_bytes pc e
      in \<lparr>sc_envelope = bytes, sc_signature = ed_sign ed (gk_seed k) (signing_input bytes)\<rparr>)"

definition gk_sign ::
  "ed25519 \<Rightarrow> envelope codec \<Rightarrow> gateway_signing_key \<Rightarrow> u64 \<Rightarrow> unix_time \<Rightarrow> gateway_command
     \<Rightarrow> signed_command" where
  "gk_sign ed pc k c issued cmd = sign_envelope ed pc k (envelope_new (gk_tenant k) c issued cmd)"

section \<open>Verification (verify.rs)\<close>

record gateway_verifier =
  gv_tenant :: tenant_id
  gv_key :: bytes
  gv_high_water :: u64
  gv_max_age_secs :: u64

definition verifier_new :: "ed25519 \<Rightarrow> tenant_id \<Rightarrow> bytes \<Rightarrow> proto_error + gateway_verifier" where
  "verifier_new ed t pinned =
     (if \<not> ed_key_ok ed pinned then Inl Malformed
      else Inr \<lparr>gv_tenant = t, gv_key = pinned, gv_high_water = 0,
                gv_max_age_secs = DEFAULT_MAX_AGE_SECS\<rparr>)"

definition with_high_water :: "gateway_verifier \<Rightarrow> u64 \<Rightarrow> gateway_verifier" where
  "with_high_water v c = v\<lparr>gv_high_water := c\<rparr>"

definition with_max_age :: "gateway_verifier \<Rightarrow> u64 \<Rightarrow> gateway_verifier" where
  "with_max_age v secs = v\<lparr>gv_max_age_secs := secs\<rparr>"

definition verify ::
  "ed25519 \<Rightarrow> envelope codec \<Rightarrow> gateway_verifier \<Rightarrow> signed_command \<Rightarrow> unix_time
     \<Rightarrow> gateway_verifier \<times> (proto_error + gateway_command)" where
  "verify ed pc v sc now =
     (if \<not> ed_sig_ok ed (sc_signature sc) then (v, Inl Malformed)
      else if \<not> ed_verify ed (gv_key v) (signing_input (sc_envelope sc)) (sc_signature sc)
      then (v, Inl BadSignature)
      else case cd_dec pc (sc_envelope sc) of
        None \<Rightarrow> (v, Inl Malformed)
      | Some env \<Rightarrow>
          if en_proto env \<noteq> GATEWAY_PROTO_VERSION then (v, Inl (UnsupportedProto (en_proto env)))
          else if en_tenant env \<noteq> gv_tenant v
          then (v, Inl (WrongTenant (gv_tenant v) (en_tenant env)))
          else let age = saturating_sub now (en_issued_at env);
                   future = saturating_sub (en_issued_at env) now
               in if age > gv_max_age_secs v \<or> future > MAX_FUTURE_SKEW_SECS
                  then (v, Inl (Stale (en_issued_at env) now))
                  else if en_counter env \<le> gv_high_water v
                  then (v, Inl (Replay (gv_high_water v) (en_counter env)))
                  else (v\<lparr>gv_high_water := en_counter env\<rparr>, Inr (en_command env)))"

section \<open>What acceptance means\<close>

text \<open>The age window, on the integers: no saturation can turn a stale command into a fresh one.\<close>

definition fresh_at :: "u64 \<Rightarrow> unix_time \<Rightarrow> unix_time \<Rightarrow> bool" where
  "fresh_at max_age issued now =
     (unat now \<le> unat issued + unat max_age \<and> unat issued \<le> unat now + 300)"

text \<open>The messages a verifier with this key accepts, by content.\<close>

definition authentic ::
  "ed25519 \<Rightarrow> envelope codec \<Rightarrow> gateway_verifier \<Rightarrow> signed_command \<Rightarrow> envelope \<Rightarrow> bool" where
  "authentic ed pc v sc env =
     (ed_sig_ok ed (sc_signature sc) \<and>
      ed_verify ed (gv_key v) (signing_input (sc_envelope sc)) (sc_signature sc) \<and>
      cd_dec pc (sc_envelope sc) = Some env \<and>
      en_proto env = GATEWAY_PROTO_VERSION \<and> en_tenant env = gv_tenant v)"

lemma fresh_at_iff:
  "fresh_at m issued now \<longleftrightarrow>
     \<not> (saturating_sub now issued > m \<or> saturating_sub issued now > MAX_FUTURE_SKEW_SECS)"
  by (auto simp: fresh_at_def word_less_nat_alt unat_saturating_sub MAX_FUTURE_SKEW_SECS_def)

lemma verify_Inr_iff:
  "verify ed pc v sc now = (v', Inr cmd) \<longleftrightarrow>
     (\<exists>env. authentic ed pc v sc env \<and> fresh_at (gv_max_age_secs v) (en_issued_at env) now \<and>
        gv_high_water v < en_counter env \<and> v' = v\<lparr>gv_high_water := en_counter env\<rparr> \<and>
        cmd = en_command env)"
  unfolding fresh_at_iff verify_def authentic_def Let_def
  by (auto split: option.splits)

lemma verify_Inl: "verify ed pc v sc now = (v', Inl e) \<Longrightarrow> v' = v"
  unfolding verify_def Let_def by (auto split: option.splits if_splits)

lemma verify_frame:
  "gv_key (fst (verify ed pc v s now)) = gv_key v"
  "gv_tenant (fst (verify ed pc v s now)) = gv_tenant v"
  "gv_max_age_secs (fst (verify ed pc v s now)) = gv_max_age_secs v"
  by (auto simp: verify_def Let_def split: option.splits)

lemma verify_signed:
  assumes "ed25519_correct ed" "codec_ok_on pc {envelope_new (gk_tenant k) c issued cmd}"
    and "gv_key v = gk_public_key ed k" "gv_tenant v = gk_tenant k"
  shows "verify ed pc v (gk_sign ed pc k c issued cmd) now =
    (if \<not> fresh_at (gv_max_age_secs v) issued now then (v, Inl (Stale issued now))
     else if c \<le> gv_high_water v then (v, Inl (Replay (gv_high_water v) c))
     else (v\<lparr>gv_high_water := c\<rparr>, Inr cmd))"
proof -
  have dec: "cd_dec pc (cd_enc pc (envelope_new (gk_tenant k) c issued cmd))
      = Some (envelope_new (gk_tenant k) c issued cmd)"
    using assms(2) by (simp add: codec_ok_on_def)
  show ?thesis
    unfolding fresh_at_iff verify_def gk_sign_def sign_envelope_def envelope_to_bytes_def Let_def
    using ed25519_correctD[OF assms(1)] assms(3,4) dec
    by (simp add: envelope_new_def gk_public_key_def)
qed

section \<open>Sequences of messages\<close>

fun verify_all ::
  "ed25519 \<Rightarrow> envelope codec \<Rightarrow> gateway_verifier \<Rightarrow> (signed_command \<times> unix_time) list
     \<Rightarrow> gateway_verifier \<times> (signed_command \<times> gateway_command) list" where
  "verify_all ed pc v [] = (v, [])"
| "verify_all ed pc v ((s, now) # ms) =
     (case verify ed pc v s now of
        (v1, Inl _) \<Rightarrow> verify_all ed pc v1 ms
      | (v1, Inr cmd) \<Rightarrow> (let (v2, acc) = verify_all ed pc v1 ms in (v2, (s, cmd) # acc)))"

definition counter_of :: "envelope codec \<Rightarrow> signed_command \<Rightarrow> u64" where
  "counter_of pc s = (case cd_dec pc (sc_envelope s) of None \<Rightarrow> 0 | Some e \<Rightarrow> en_counter e)"

lemma verify_all_counters:
  "verify_all ed pc v ms = (v', acc) \<Longrightarrow>
     sorted_wrt (<) (map (counter_of pc \<circ> fst) acc) \<and>
     (\<forall>x \<in> set acc. gv_high_water v < counter_of pc (fst x) \<and> counter_of pc (fst x) \<le> gv_high_water v' \<and>
        (\<exists>env. authentic ed pc v (fst x) env \<and> snd x = en_command env)) \<and>
     gv_high_water v \<le> gv_high_water v' \<and>
     gv_high_water v' = (if acc = [] then gv_high_water v else counter_of pc (fst (last acc)))"
proof (induction ms arbitrary: v acc)
  case Nil
  then show ?case by simp
next
  case (Cons m ms)
  obtain s now where m: "m = (s, now)" by (cases m)
  obtain v1 r where v1: "verify ed pc v s now = (v1, r)" by fastforce
  have au: "authentic ed pc v1 = authentic ed pc v"
    using verify_frame[of ed pc v s now] v1 by (auto simp: authentic_def fun_eq_iff)
  show ?case
  proof (cases r)
    case (Inl e)
    then have "v1 = v" using v1 verify_Inl by blast
    then have "verify_all ed pc v ms = (v', acc)" using Cons.prems v1 Inl by (simp add: m)
    then show ?thesis by (rule Cons.IH)
  next
    case (Inr cmd)
    then obtain env where env: "authentic ed pc v s env" "gv_high_water v < en_counter env"
      "v1 = v\<lparr>gv_high_water := en_counter env\<rparr>" "cmd = en_command env"
      using v1 by (auto simp: verify_Inr_iff)
    have c: "counter_of pc s = en_counter env" using env(1) by (simp add: authentic_def counter_of_def)
    obtain acc1 where rest: "verify_all ed pc v1 ms = (v', acc1)" "acc = (s, cmd) # acc1"
      using Cons.prems v1 Inr by (auto simp: m split: prod.splits)
    have "\<forall>x \<in> set acc1. gv_high_water v < counter_of pc (fst x)"
      using Cons.IH[OF rest(1)] env(2,3) by fastforce
    with Cons.IH[OF rest(1)] env c au show ?thesis unfolding rest(2) by auto
  qed
qed

lemma verify_all_frame: "verify_all ed pc v ms = (v', acc) \<Longrightarrow> \<exists>c. v' = v\<lparr>gv_high_water := c\<rparr>"
proof (induction ms arbitrary: v acc)
  case Nil
  then show ?case by (intro exI[of _ "gv_high_water v"]) simp
next
  case (Cons m ms)
  obtain s now where m: "m = (s, now)" by (cases m)
  obtain v1 r where v1: "verify ed pc v s now = (v1, r)" by fastforce
  then have "\<exists>c. v1 = v\<lparr>gv_high_water := c\<rparr>"
    using verify_Inl[of ed pc v s now v1] by (cases r) (auto simp: verify_Inr_iff intro: exI[of _ "gv_high_water v"])
  moreover obtain acc1 where "verify_all ed pc v1 ms = (v', acc1)"
    using Cons.prems v1 by (auto simp: m split: sum.splits prod.splits)
  ultimately show ?case using Cons.IH by fastforce
qed

lemma counter_determines:
  "sorted_wrt (<) (map (counter_of pc \<circ> fst) acc) \<Longrightarrow> distinct (map (sc_envelope \<circ> fst) acc)"
proof -
  assume "sorted_wrt (<) (map (counter_of pc \<circ> fst) acc)"
  then have "distinct (map (counter_of pc \<circ> fst) acc)" by (simp add: strict_sorted_iff)
  moreover have "map (counter_of pc \<circ> fst) acc = map (\<lambda>b. case cd_dec pc b of None \<Rightarrow> 0
      | Some e \<Rightarrow> en_counter e) (map (sc_envelope \<circ> fst) acc)"
    by (simp add: counter_of_def comp_def)
  ultimately show ?thesis by (auto simp: distinct_map intro: inj_on_imageI2)
qed

text \<open>
  No replay. Whatever messages reach a verifier, in whatever order and however often, the
  commands it accepts carry strictly increasing counters above the initial high-water mark, every
  accepted message is authentic for the pinned key and tenant, no envelope is accepted twice, and
  the final mark is the counter of the last accepted command.
\<close>

theorem verify_no_replay:
  "let (v', acc) = verify_all ed pc v ms
   in sorted_wrt (<) (gv_high_water v # map (counter_of pc \<circ> fst) acc) \<and>
      distinct (map (sc_envelope \<circ> fst) acc) \<and>
      list_all (\<lambda>(s, cmd). \<exists>env. authentic ed pc v s env \<and> cmd = en_command env) acc \<and>
      gv_high_water v' = last (gv_high_water v # map (counter_of pc \<circ> fst) acc)"
proof -
  obtain v' acc where r: "verify_all ed pc v ms = (v', acc)" by fastforce
  note c = verify_all_counters[OF r]
  have "distinct (map (sc_envelope \<circ> fst) acc)" using c counter_determines by blast
  moreover have "list_all (\<lambda>(s, cmd). \<exists>env. authentic ed pc v s env \<and> cmd = en_command env) acc"
    using c by (fastforce simp: list_all_iff)
  ultimately show ?thesis using c by (auto simp: r last_map)
qed

section \<open>Which messages of a stream are accepted\<close>

text \<open>
  The envelope a message counts for: signed under the pinned key over the domain-separated bytes, of the
  pinned tenant and the protocol version, and inside the age window when it arrives.
\<close>

definition valid_envelope ::
  "ed25519 \<Rightarrow> envelope codec \<Rightarrow> gateway_verifier \<Rightarrow> signed_command \<times> unix_time \<Rightarrow> envelope option" where
  "valid_envelope ed pc v m =
     (case cd_dec pc (sc_envelope (fst m)) of
        None \<Rightarrow> None
      | Some env \<Rightarrow>
          if authentic ed pc v (fst m) env \<and> fresh_at (gv_max_age_secs v) (en_issued_at env) (snd m)
          then Some env else None)"

text \<open>
  Message \<open>i\<close> of a stream is to be accepted when it is valid, above the first mark, and above every valid
  message before it, accepted or not.
\<close>

definition new_maximum ::
  "ed25519 \<Rightarrow> envelope codec \<Rightarrow> gateway_verifier \<Rightarrow> (signed_command \<times> unix_time) list \<Rightarrow> nat \<Rightarrow> bool" where
  "new_maximum ed pc v ms i =
     (case valid_envelope ed pc v (ms ! i) of
        None \<Rightarrow> False
      | Some env \<Rightarrow> gv_high_water v < en_counter env \<and>
          list_all (\<lambda>m. case valid_envelope ed pc v m of
             None \<Rightarrow> True | Some e \<Rightarrow> en_counter e < en_counter env) (take i ms))"

lemma valid_envelope_eq:
  "valid_envelope ed pc v (s, now) = Some env \<longleftrightarrow>
     authentic ed pc v s env \<and> fresh_at (gv_max_age_secs v) (en_issued_at env) now"
  by (auto simp: valid_envelope_def authentic_def split: option.splits)

lemma valid_envelope_mark: "valid_envelope ed pc (v\<lparr>gv_high_water := c\<rparr>) = valid_envelope ed pc v"
  by (simp add: fun_eq_iff valid_envelope_def authentic_def split: option.splits)

lemma verify_valid:
  "verify ed pc v s now =
     (case valid_envelope ed pc v (s, now) of
        None \<Rightarrow> (v, Inl (projl (snd (verify ed pc v s now))))
      | Some env \<Rightarrow>
          if gv_high_water v < en_counter env then (v\<lparr>gv_high_water := en_counter env\<rparr>, Inr (en_command env))
          else (v, Inl (projl (snd (verify ed pc v s now)))))"
proof (cases "verify ed pc v s now")
  case (Pair v1 r)
  show ?thesis
  proof (cases r)
    case (Inl e)
    then have "\<not> (\<exists>env. valid_envelope ed pc v (s, now) = Some env \<and> gv_high_water v < en_counter env)"
      using Pair verify_Inr_iff[of ed pc v s now] by (auto simp: valid_envelope_eq)
    then show ?thesis using Pair Inl verify_Inl by (fastforce split: option.splits)
  next
    case (Inr cmd)
    then obtain env where "valid_envelope ed pc v (s, now) = Some env" "gv_high_water v < en_counter env"
      "v1 = v\<lparr>gv_high_water := en_counter env\<rparr>" "cmd = en_command env"
      using Pair verify_Inr_iff[of ed pc v s now v1 cmd] by (auto simp: valid_envelope_eq)
    then show ?thesis using Pair Inr by simp
  qed
qed

text \<open>What the next messages are measured against.\<close>

lemma new_maximum_Suc:
  assumes "gv_high_water v1 = (case valid_envelope ed pc v m of
      None \<Rightarrow> gv_high_water v | Some e \<Rightarrow> max (gv_high_water v) (en_counter e))"
    and "valid_envelope ed pc v1 = valid_envelope ed pc v"
  shows "new_maximum ed pc v (m # ms) (Suc i) = new_maximum ed pc v1 ms i"
  using assms by (auto simp: new_maximum_def split: option.splits)

lemma verify_all_maxima:
  "verify_all ed pc v ms = (v', acc) \<Longrightarrow>
   acc = map (\<lambda>i. (fst (ms ! i), en_command (the (valid_envelope ed pc v (ms ! i)))))
     (filter (new_maximum ed pc v ms) [0..<length ms])"
proof (induction ms arbitrary: v acc)
  case (Cons m ms)
  obtain s now where m: "m = (s, now)" by (cases m)
  obtain v1 r where v1: "verify ed pc v s now = (v1, r)" by fastforce
  note V = verify_valid[of ed pc v s now, unfolded v1]
  have hw: "gv_high_water v1 = (case valid_envelope ed pc v m of
      None \<Rightarrow> gv_high_water v | Some e \<Rightarrow> max (gv_high_water v) (en_counter e))"
    using V by (auto simp: m max_def split: option.splits if_splits)
  have same: "valid_envelope ed pc v1 = valid_envelope ed pc v"
    using V by (auto simp: valid_envelope_mark split: option.splits if_splits)
  have first: "new_maximum ed pc v (m # ms) 0 \<longleftrightarrow> (\<exists>cmd. r = Inr cmd)"
    "r = Inr cmd \<Longrightarrow> cmd = en_command (the (valid_envelope ed pc v m))" for cmd
    using V by (auto simp: new_maximum_def m split: option.splits if_splits)
  have rest: "acc1 = map (\<lambda>i. (fst (ms ! i), en_command (the (valid_envelope ed pc v (ms ! i)))))
      (filter (\<lambda>i. new_maximum ed pc v (m # ms) (Suc i)) [0..<length ms])"
    if "verify_all ed pc v1 ms = (v', acc1)" for acc1
    using Cons.IH[OF that] new_maximum_Suc[OF hw same] same by simp
  have upt: "[0..<length (m # ms)] = 0 # map Suc [0..<length ms]" by (simp add: upt_conv_Cons map_Suc_upt del: upt_Suc)
  show ?case
  proof (cases r)
    case (Inl e)
    then have "verify_all ed pc v1 ms = (v', acc)" using Cons.prems v1 by (simp add: m)
    then show ?thesis using rest first Inl unfolding upt by (simp add: filter_map comp_def)
  next
    case (Inr cmd)
    then obtain acc1 where "verify_all ed pc v1 ms = (v', acc1)" "acc = (s, cmd) # acc1"
      using Cons.prems v1 by (auto simp: m split: prod.splits)
    then show ?thesis using rest first Inr unfolding upt by (simp add: filter_map comp_def m)
  qed
qed simp

text \<open>What the gateway signs for the verifier's tenant counts; what it signs for another tenant does not.\<close>

lemma signed_valid:
  assumes "ed25519_correct ed" "codec_ok_on pc {envelope_new (gk_tenant k) c issued cmd}" "gv_key v = gk_public_key ed k"
  shows "valid_envelope ed pc v (gk_sign ed pc k c issued cmd, now) =
    (if gk_tenant k = gv_tenant v \<and> fresh_at (gv_max_age_secs v) issued now
     then Some (envelope_new (gk_tenant k) c issued cmd) else None)"
proof -
  have dec: "cd_dec pc (cd_enc pc (envelope_new (gk_tenant k) c issued cmd))
      = Some (envelope_new (gk_tenant k) c issued cmd)"
    using assms(2) by (simp add: codec_ok_on_def)
  show ?thesis
    unfolding valid_envelope_def authentic_def gk_sign_def sign_envelope_def envelope_to_bytes_def Let_def
    using ed25519_correctD[OF assms(1)] assms(3) dec by (simp add: envelope_new_def gk_public_key_def)
qed

text \<open>
  (C11) The command channel accepts exactly the new commands of its gateway. Over an arbitrary stream of
  messages, forged, replayed, reordered, stale or meant for another tenant, the commands a verifier
  accepts are those of the messages that carry a signature of the pinned key over their bytes, decode
  to an envelope of the pinned tenant and of this protocol, arrive within the age window, and have a
  counter above the first high-water mark and above that of every valid message before them, in the order
  of the stream; the mark ends at the last accepted counter. A message the gateway's key
  signed is valid exactly when it is for the pinned tenant and fresh.
\<close>

theorem command_stream_exact:
  "let (v', acc) = verify_all ed pc v ms
   in acc = map (\<lambda>i. (fst (ms ! i), en_command (the (valid_envelope ed pc v (ms ! i)))))
        (filter (new_maximum ed pc v ms) [0..<length ms]) \<and>
      v' = v\<lparr>gv_high_water := last (gv_high_water v # map (counter_of pc \<circ> fst) acc)\<rparr> \<and>
      (ed25519_correct ed \<longrightarrow>
        (\<forall>k c issued cmd now. codec_ok_on pc {envelope_new (gk_tenant k) c issued cmd} \<longrightarrow> gv_key v = gk_public_key ed k \<longrightarrow>
           valid_envelope ed pc v (gk_sign ed pc k c issued cmd, now) =
             (if gk_tenant k = gv_tenant v \<and> fresh_at (gv_max_age_secs v) issued now
              then Some (envelope_new (gk_tenant k) c issued cmd) else None)))"
proof -
  obtain v' acc where r: "verify_all ed pc v ms = (v', acc)" by fastforce
  have "gv_high_water v' = last (gv_high_water v # map (counter_of pc \<circ> fst) acc)"
    using verify_all_counters[OF r] by (auto simp: last_map)
  then have "v' = v\<lparr>gv_high_water := last (gv_high_water v # map (counter_of pc \<circ> fst) acc)\<rparr>"
    using verify_all_frame[OF r] by auto
  then show ?thesis using verify_all_maxima[OF r] signed_valid[of ed pc _ _ _ _ v] by (simp add: r)
qed

text \<open>A lock command for tenant 3 with counter 2, checked against a verifier at mark 1.\<close>

definition lock_env :: envelope where
  "lock_env = envelope_new (TenantId 3) 2 100 (Lock AdminRequest)"

definition lock_codec :: "envelope codec" where
  "lock_codec = \<lparr>cd_enc = (\<lambda>e. [ucast (en_counter e)]),
     cd_dec = (\<lambda>b. if b = [2] then Some lock_env else None)\<rparr>"

text \<open>
  A stream for a verifier of tenant 3 at mark 1: a forged lock, the signed one, and a replay of it.
\<close>

definition demo_lock :: signed_command where
  "demo_lock = gk_sign ed_demo lock_codec (signing_key_from_seed (TenantId 3) [9]) 2 100 (Lock AdminRequest)"

lemma command_stream_exact_witness:
  "verify_all ed_demo lock_codec
     \<lparr>gv_tenant = TenantId 3, gv_key = [9], gv_high_water = 1, gv_max_age_secs = 50\<rparr>
     [(demo_lock\<lparr>sc_signature := [7]\<rparr>, 120), (demo_lock, 120), (demo_lock, 121)]
   = (\<lparr>gv_tenant = TenantId 3, gv_key = [9], gv_high_water = 2, gv_max_age_secs = 50\<rparr>,
      [(demo_lock, Lock AdminRequest)])"
proof -
  define v :: gateway_verifier where "v = \<lparr>gv_tenant = TenantId 3, gv_key = [9], gv_high_water = 1, gv_max_age_secs = 50\<rparr>"
  define ms where "ms = [(demo_lock\<lparr>sc_signature := [7]\<rparr>, 120 :: u64), (demo_lock, 120), (demo_lock, 121)]"
  have c: "codec_ok_on lock_codec {envelope_new (TenantId 3) 2 100 (Lock AdminRequest)}"
    by (simp add: codec_ok_on_def lock_codec_def lock_env_def envelope_new_def)
  note T = command_stream_exact[of ed_demo lock_codec v ms, unfolded Let_def case_prod_beta]
  have valid: "valid_envelope ed_demo lock_codec v (demo_lock, 120) = Some lock_env"
    "valid_envelope ed_demo lock_codec v (demo_lock, 121) = Some lock_env"
    "valid_envelope ed_demo lock_codec v (demo_lock\<lparr>sc_signature := [7]\<rparr>, 120) = None"
    unfolding v_def demo_lock_def by code_simp+
  have hw: "gv_high_water v = 1" "en_counter lock_env = 2" by (simp_all add: v_def lock_env_def envelope_new_def)
  have "filter (new_maximum ed_demo lock_codec v ms) [0..<length ms] = [1]"
    using valid hw by (simp add: ms_def new_maximum_def upt_rec)
  then have acc: "snd (verify_all ed_demo lock_codec v ms) = [(demo_lock, Lock AdminRequest)]"
    using T by (simp add: ms_def valid lock_env_def envelope_new_def)
  moreover have "counter_of lock_codec demo_lock = 2" unfolding demo_lock_def by code_simp
  ultimately have "fst (verify_all ed_demo lock_codec v ms) = v\<lparr>gv_high_water := 2\<rparr>" using T by simp
  then show ?thesis using acc by (simp add: v_def ms_def prod_eq_iff)
qed

end
