(* ===== verification/Audit_Spool.thy ===== *)
theory Audit_Spool
  imports Proto
begin

text \<open>
  \<open>clave-proto/src/audit.rs\<close>: the hash-chained audit spool of a device, the signing of a batch and
  its verification by the gateway. A batch is accepted exactly when its entries form a chain from
  the gateway's position to the signed head; whatever a device emits and confirms, its pending
  entries verify from the position it confirmed; and two accepted batches with the same head have
  the same entries, so the signed head fixes the history.
\<close>

section \<open>Definitions\<close>

type_synonym chain_hash = bytes

definition HASH_LEN :: nat where
  "HASH_LEN = 32"

definition GENESIS :: chain_hash where
  "GENESIS = replicate HASH_LEN 0"

definition CHAIN_DOMAIN :: bytes where
  "CHAIN_DOMAIN = str_bytes (''clave-audit-chain/v1'' @ [CHR 0x0A])"

definition SIG_DOMAIN :: bytes where
  "SIG_DOMAIN = str_bytes (''clave-audit-sig/v1'' @ [CHR 0x0A])"

definition hash_input :: "u64 \<Rightarrow> chain_hash \<Rightarrow> bytes \<Rightarrow> bytes" where
  "hash_input seq prev event_bytes = CHAIN_DOMAIN @ to_le_bytes64 seq @ prev @ event_bytes"

definition entry_hash :: "sha256 \<Rightarrow> u64 \<Rightarrow> chain_hash \<Rightarrow> bytes \<Rightarrow> chain_hash" where
  "entry_hash sha seq prev event_bytes = sha (hash_input seq prev event_bytes)"

definition sig_input :: "chain_hash \<Rightarrow> bytes" where
  "sig_input head = SIG_DOMAIN @ head"

record spool_entry =
  se_seq :: u64
  se_prev :: chain_hash
  se_event :: audit_event
  se_hash :: chain_hash

record signed_spool_batch =
  sb_entries :: "spool_entry list"
  sb_head :: chain_hash
  sb_signature :: bytes

text \<open>\<open>as_forward\<close> is the log of the sink the spool forwards to, if it has one.\<close>

record audit_spool =
  as_seq :: u64
  as_head :: chain_hash
  as_pending :: "spool_entry list"
  as_forward :: "audit_event list option"

definition spool_new :: audit_spool where
  "spool_new = \<lparr>as_seq = 0, as_head = GENESIS, as_pending = [], as_forward = None\<rparr>"

definition spool_with_sink :: "audit_event list \<Rightarrow> audit_spool" where
  "spool_with_sink log = spool_new\<lparr>as_forward := Some log\<rparr>"

definition spool_resume_with :: "u64 \<Rightarrow> chain_hash \<Rightarrow> spool_entry list \<Rightarrow> audit_spool" where
  "spool_resume_with seq head pending =
     \<lparr>as_seq = seq, as_head = head, as_pending = pending, as_forward = None\<rparr>"

definition spool_resume :: "u64 \<Rightarrow> chain_hash \<Rightarrow> audit_spool" where
  "spool_resume seq head = spool_resume_with seq head []"

definition spool_pending_len :: "audit_spool \<Rightarrow> nat" where
  "spool_pending_len s = length (as_pending s)"

definition spool_drain :: "audit_spool \<Rightarrow> audit_spool \<times> (spool_entry list \<times> chain_hash)" where
  "spool_drain s = (s\<lparr>as_pending := []\<rparr>, (as_pending s, as_head s))"

definition spool_peek :: "audit_spool \<Rightarrow> spool_entry list \<times> chain_hash" where
  "spool_peek s = (as_pending s, as_head s)"

definition confirm_through :: "audit_spool \<Rightarrow> u64 \<Rightarrow> audit_spool" where
  "confirm_through s through_seq =
     s\<lparr>as_pending := filter (\<lambda>e. se_seq e > through_seq) (as_pending s)\<rparr>"

definition spool_emit :: "sha256 \<Rightarrow> audit_event codec \<Rightarrow> audit_spool \<Rightarrow> audit_event \<Rightarrow> audit_spool" where
  "spool_emit sha pc s event =
     (let seq = as_seq s + 1; bytes = cd_enc pc event; prev = as_head s;
          hash = entry_hash sha seq prev bytes
      in s\<lparr>as_seq := seq, as_head := hash,
           as_pending := as_pending s @ [\<lparr>se_seq = seq, se_prev = prev, se_event = event, se_hash = hash\<rparr>],
           as_forward := map_option (\<lambda>l. l @ [event]) (as_forward s)\<rparr>)"

record device_signing_key =
  dk_seed :: bytes

definition device_key_from_seed :: "bytes \<Rightarrow> device_signing_key" where
  "device_key_from_seed seed = \<lparr>dk_seed = seed\<rparr>"

definition dk_public_key :: "ed25519 \<Rightarrow> device_signing_key \<Rightarrow> bytes" where
  "dk_public_key ed k = ed_public ed (dk_seed k)"

definition sign_batch ::
  "ed25519 \<Rightarrow> device_signing_key \<Rightarrow> spool_entry list \<Rightarrow> chain_hash \<Rightarrow> signed_spool_batch" where
  "sign_batch ed k entries head =
     \<lparr>sb_entries = entries, sb_head = head,
      sb_signature = ed_sign ed (dk_seed k) (sig_input head)\<rparr>"

datatype audit_error =
    Tampered u64
  | BrokenChain u64
  | Gap u64 u64          \<comment> \<open>\<open>expected\<close>, \<open>got\<close>\<close>
  | AuditBadSignature
  | AuditMalformed

fun verify_entries ::
  "sha256 \<Rightarrow> audit_event codec \<Rightarrow> chain_hash \<Rightarrow> u64 \<Rightarrow> spool_entry list
     \<Rightarrow> audit_error + chain_hash \<times> u64" where
  "verify_entries sha pc running expect [] = Inr (running, expect)"
| "verify_entries sha pc running expect (e # es) =
     (if se_seq e \<noteq> expect then Inl (Gap expect (se_seq e))
      else if se_prev e \<noteq> running then Inl (BrokenChain (se_seq e))
      else if entry_hash sha (se_seq e) (se_prev e) (cd_enc pc (se_event e)) \<noteq> se_hash e
      then Inl (Tampered (se_seq e))
      else verify_entries sha pc (se_hash e) (expect + 1) es)"

definition verify_batch ::
  "sha256 \<Rightarrow> ed25519 \<Rightarrow> audit_event codec \<Rightarrow> chain_hash \<Rightarrow> u64 \<Rightarrow> signed_spool_batch \<Rightarrow> bytes
     \<Rightarrow> audit_error + chain_hash" where
  "verify_batch sha ed pc prev next_seq batch device_public_key =
     rbind (verify_entries sha pc prev next_seq (sb_entries batch))
       (\<lambda>(running, expect).
          if running \<noteq> sb_head batch then Inl (BrokenChain (saturating_sub expect 1))
          else if \<not> ed_key_ok ed device_public_key then Inl AuditMalformed
          else if \<not> ed_sig_ok ed (sb_signature batch) then Inl AuditMalformed
          else if \<not> ed_verify ed device_public_key (sig_input (sb_head batch)) (sb_signature batch)
          then Inl AuditBadSignature
          else Inr (sb_head batch))"

section \<open>Chains\<close>

text \<open>The specification: each entry continues the chain, and the chain ends at the head.\<close>

fun chain_ok :: "sha256 \<Rightarrow> audit_event codec \<Rightarrow> chain_hash \<Rightarrow> u64 \<Rightarrow> spool_entry list \<Rightarrow> chain_hash \<Rightarrow> bool" where
  "chain_ok sha pc prev n [] head = (head = prev)"
| "chain_ok sha pc prev n (e # es) head =
     (se_seq e = n \<and> se_prev e = prev \<and>
      se_hash e = sha (hash_input n prev (cd_enc pc (se_event e))) \<and>
      chain_ok sha pc (se_hash e) (n + 1) es head)"

lemma verify_entries_iff:
  "verify_entries sha pc prev n es = Inr (h, m) \<longleftrightarrow>
     chain_ok sha pc prev n es h \<and> m = n + of_nat (length es)"
  by (induction sha pc prev n es rule: verify_entries.induct)
    (auto simp: entry_hash_def algebra_simps)

lemma verify_batch_iff:
  "verify_batch sha ed pc prev n b pk = Inr h \<longleftrightarrow>
     chain_ok sha pc prev n (sb_entries b) (sb_head b) \<and> h = sb_head b \<and>
     ed_key_ok ed pk \<and> ed_sig_ok ed (sb_signature b) \<and>
     ed_verify ed pk (sig_input (sb_head b)) (sb_signature b)"
  unfolding verify_batch_def by (auto simp: rbind_eq_Inr verify_entries_iff split: if_splits)

lemma chain_ok_append:
  "chain_ok sha pc prev n (es @ fs) head \<longleftrightarrow>
     (\<exists>mid. chain_ok sha pc prev n es mid \<and> chain_ok sha pc mid (n + of_nat (length es)) fs head)"
  by (induction es arbitrary: prev n) (auto simp: algebra_simps)

lemma chain_ok_seq:
  "chain_ok sha pc prev n es head \<Longrightarrow> i < length es \<Longrightarrow> se_seq (es ! i) = n + of_nat i"
proof (induction es arbitrary: prev n i)
  case (Cons e es)
  then show ?case by (cases i) (auto simp: algebra_simps)
qed simp

section \<open>What a device sends verifies\<close>

text \<open>The entries emitted for a list of events, from a position of the chain.\<close>

fun emitted :: "sha256 \<Rightarrow> audit_event codec \<Rightarrow> u64 \<Rightarrow> chain_hash \<Rightarrow> audit_event list \<Rightarrow> spool_entry list" where
  "emitted sha pc seq head [] = []"
| "emitted sha pc seq head (ev # evs) =
     (let h = entry_hash sha (seq + 1) head (cd_enc pc ev)
      in \<lparr>se_seq = seq + 1, se_prev = head, se_event = ev, se_hash = h\<rparr>
         # emitted sha pc (seq + 1) h evs)"

fun chain_head :: "sha256 \<Rightarrow> audit_event codec \<Rightarrow> u64 \<Rightarrow> chain_hash \<Rightarrow> audit_event list \<Rightarrow> chain_hash" where
  "chain_head sha pc seq head [] = head"
| "chain_head sha pc seq head (ev # evs) =
     chain_head sha pc (seq + 1) (entry_hash sha (seq + 1) head (cd_enc pc ev)) evs"

lemma length_emitted [simp]: "length (emitted sha pc seq head evs) = length evs"
  by (induction evs arbitrary: seq head) (auto simp: Let_def)

lemma emitted_append:
  "emitted sha pc seq head (as @ bs) = emitted sha pc seq head as
     @ emitted sha pc (seq + of_nat (length as)) (chain_head sha pc seq head as) bs"
  by (induction as arbitrary: seq head) (auto simp: Let_def algebra_simps)

lemma chain_head_append:
  "chain_head sha pc seq head (as @ bs) =
     chain_head sha pc (seq + of_nat (length as)) (chain_head sha pc seq head as) bs"
  by (induction as arbitrary: seq head) (auto simp: algebra_simps)

lemma chain_ok_emitted:
  "chain_ok sha pc head (seq + 1) (emitted sha pc seq head evs) (chain_head sha pc seq head evs)"
proof (induction evs arbitrary: seq head)
  case (Cons ev evs)
  show ?case using Cons.IH[where seq = "seq + 1"] by (simp add: Let_def entry_hash_def)
qed simp

lemma emit_all:
  "foldl (spool_emit sha pc) s evs =
     s\<lparr>as_seq := as_seq s + of_nat (length evs),
       as_head := chain_head sha pc (as_seq s) (as_head s) evs,
       as_pending := as_pending s @ emitted sha pc (as_seq s) (as_head s) evs,
       as_forward := map_option (\<lambda>l. l @ evs) (as_forward s)\<rparr>"
proof (induction evs arbitrary: s)
  case Nil
  then show ?case by (simp add: option.map_ident)
next
  case (Cons ev evs)
  show ?case
    unfolding foldl_Cons Cons.IH
    by (simp add: spool_emit_def Let_def algebra_simps option.map_comp comp_def)
qed

lemma emitted_seq:
  "i < length evs \<Longrightarrow> se_seq (emitted sha pc seq head evs ! i) = seq + 1 + of_nat i"
  using chain_ok_seq[OF chain_ok_emitted] by simp

lemma emitted_seq_bounds:
  assumes "unat seq + length evs < 2 ^ 64" "e \<in> set (emitted sha pc seq head evs)"
  shows "unat seq < unat (se_seq e)" "unat (se_seq e) \<le> unat seq + length evs"
proof -
  obtain i where i: "i < length evs" "e = emitted sha pc seq head evs ! i"
    using assms(2) by (auto simp: in_set_conv_nth)
  then have "se_seq e = seq + of_nat (Suc i)" by (simp add: emitted_seq algebra_simps)
  moreover have "unat (seq + of_nat (Suc i)) = unat seq + Suc i"
    using assms(1) i(1) by (intro unat_add_of_nat) simp
  ultimately show "unat seq < unat (se_seq e)" "unat (se_seq e) \<le> unat seq + length evs"
    using i(1) by simp_all
qed

text \<open>Confirming the first \<open>n\<close> of the emitted entries leaves exactly the later ones.\<close>

lemma confirm_emitted:
  assumes "unat seq + length (as @ bs) < 2 ^ 64"
  shows "filter (\<lambda>e. se_seq e > seq + of_nat (length as)) (emitted sha pc seq head (as @ bs))
    = emitted sha pc (seq + of_nat (length as)) (chain_head sha pc seq head as) bs"
proof -
  have u: "unat (seq + of_nat (length as)) = unat seq + length as"
    using assms by (intro unat_add_of_nat) simp
  have a: "\<not> se_seq e > seq + of_nat (length as)" if "e \<in> set (emitted sha pc seq head as)" for e
    using emitted_seq_bounds(2)[OF _ that] assms u by (simp add: word_less_nat_alt)
  have b: "se_seq e > seq + of_nat (length as)"
    if "e \<in> set (emitted sha pc (seq + of_nat (length as)) (chain_head sha pc seq head as) bs)" for e
    using emitted_seq_bounds(1)[OF _ that] assms u by (simp add: word_less_nat_alt)
  show ?thesis using a b by (simp add: emitted_append filter_id_conv filter_empty_conv)
qed

text \<open>
  The audit channel is complete. A spool resumed at any position, after emitting \<open>as\<close> and
  \<open>bs\<close> and confirming through the last of \<open>as\<close>, signs a batch that the gateway accepts from the
  position after \<open>as\<close>; the batch carries exactly the events \<open>bs\<close>, in order, and leaves the gateway
  at the spool's head. Nothing that was emitted is lost or repeated across a confirmation.
\<close>

theorem audit_round_trip:
  assumes "ed25519_correct ed" "unat seq + length (as @ bs) < 2 ^ 64"
    and "s = confirm_through (foldl (spool_emit sha pc) (spool_resume seq head) (as @ bs))
               (seq + of_nat (length as))"
  shows "verify_batch sha ed pc (chain_head sha pc seq head as) (seq + of_nat (length as) + 1)
      (sign_batch ed k (fst (spool_peek s)) (snd (spool_peek s))) (dk_public_key ed k) = Inr (as_head s) \<and>
    map se_event (fst (spool_peek s)) = bs"
proof -
  let ?mid = "chain_head sha pc seq head as"
  have pend: "as_pending s = emitted sha pc (seq + of_nat (length as)) ?mid bs"
    using confirm_emitted[OF assms(2)] unfolding assms(3)
    by (simp add: confirm_through_def emit_all spool_resume_def spool_resume_with_def
        del: foldl_append)
  have head: "as_head s = chain_head sha pc (seq + of_nat (length as)) ?mid bs"
    unfolding assms(3) by (simp add: confirm_through_def emit_all spool_resume_def
        spool_resume_with_def chain_head_append del: foldl_append)
  have "map se_event (emitted sha pc n h evs) = evs" for n h evs
    by (induction evs arbitrary: n h) (auto simp: Let_def)
  then show ?thesis
    using ed25519_correctD[OF assms(1)] chain_ok_emitted
    by (simp add: verify_batch_iff sign_batch_def spool_peek_def pend head dk_public_key_def)
qed

section \<open>The signed head fixes the history\<close>

definition entry_input :: "audit_event codec \<Rightarrow> spool_entry \<Rightarrow> bytes" where
  "entry_input pc e = hash_input (se_seq e) (se_prev e) (cd_enc pc (se_event e))"

lemma hash_input_inj:
  assumes "length p = length p'" "hash_input n p b = hash_input n' p' b'"
  shows "n = n' \<and> p = p' \<and> b = b'"
  using assms by (auto simp: hash_input_def dest: to_le_bytes64_inj)

lemma chain_ok_snoc:
  "chain_ok sha pc prev n (es @ [e]) head \<longleftrightarrow>
     chain_ok sha pc prev n es (se_prev e) \<and> se_seq e = n + of_nat (length es) \<and>
     se_hash e = sha (entry_input pc e) \<and> head = se_hash e"
  by (auto simp: chain_ok_append entry_input_def)

lemma chain_unique:
  assumes "chain_ok sha pc prev n es head" "chain_ok sha pc prev n fs head"
    and "length es = length fs"
    and "collision_free_on sha (entry_input pc ` (set es \<union> set fs))"
    and "codec_ok_on pc (se_event ` (set es \<union> set fs))"
    and "list_all (\<lambda>e. length (se_prev e) = HASH_LEN) (es @ fs)"
  shows "es = fs"
  using assms
proof (induction es arbitrary: fs head rule: rev_induct)
  case (snoc e es)
  obtain gs g where f: "fs = gs @ [g]" using snoc.prems(3) by (cases fs rule: rev_cases) auto
  note c = snoc.prems(1,2)[unfolded f chain_ok_snoc]
  have "entry_input pc e = entry_input pc g"
  proof (rule collision_freeD[OF snoc.prems(4)])
    show "sha (entry_input pc e) = sha (entry_input pc g)" using c by simp
  qed (simp_all add: f)
  moreover have "length (se_prev e) = length (se_prev g)" using snoc.prems(6) by (simp add: f)
  ultimately have "se_seq e = se_seq g \<and> se_prev e = se_prev g \<and>
      cd_enc pc (se_event e) = cd_enc pc (se_event g)"
    unfolding entry_input_def by (rule hash_input_inj[rotated])
  then have eq: "se_seq e = se_seq g" "se_prev e = se_prev g"
    "cd_enc pc (se_event e) = cd_enc pc (se_event g)" by simp_all
  have "se_event e = se_event g"
    by (rule inj_onD[OF codec_inj_on[OF snoc.prems(5)] eq(3)]) (simp_all add: f)
  with eq c have "e = g" by (intro spool_entry.equality) simp_all
  moreover have "es = gs"
  proof (rule snoc.IH)
    show "chain_ok sha pc prev n es (se_prev e)" "chain_ok sha pc prev n gs (se_prev e)"
      using c eq by simp_all
    show "length es = length gs" using snoc.prems(3) f by simp
    show "collision_free_on sha (entry_input pc ` (set es \<union> set gs))"
      using snoc.prems(4) unfolding collision_free_on_def f by (rule inj_on_subset) auto
    show "codec_ok_on pc (se_event ` (set es \<union> set gs))"
      using snoc.prems(5) unfolding codec_ok_on_def f by simp
    show "list_all (\<lambda>e. length (se_prev e) = HASH_LEN) (es @ gs)" using snoc.prems(6) f by simp
  qed
  ultimately show ?case using f by simp
qed simp

lemma chain_same_length:
  assumes "chain_ok sha pc prev n es head" "chain_ok sha pc prev n fs head" "es \<noteq> []" "fs \<noteq> []"
    and "length es < 2 ^ 64" "length fs < 2 ^ 64"
    and "collision_free_on sha (entry_input pc ` (set es \<union> set fs))"
    and "list_all (\<lambda>e. length (se_prev e) = HASH_LEN) (es @ fs)"
  shows "length es = length fs"
proof -
  obtain es' e where e: "es = es' @ [e]" using assms(3) by (cases es rule: rev_cases) auto
  obtain fs' f where f: "fs = fs' @ [f]" using assms(4) by (cases fs rule: rev_cases) auto
  note c = assms(1)[unfolded e chain_ok_snoc] assms(2)[unfolded f chain_ok_snoc]
  have "entry_input pc e = entry_input pc f"
    by (rule collision_freeD[OF assms(7)]) (use c in \<open>simp_all add: e f\<close>)
  moreover have "length (se_prev e) = length (se_prev f)" using assms(8) by (simp add: e f)
  ultimately have "se_seq e = se_seq f" unfolding entry_input_def using hash_input_inj by blast
  then have "(of_nat (length es') :: u64) = of_nat (length fs')" using c by simp
  then have "unat (of_nat (length es') :: u64) = unat (of_nat (length fs') :: u64)" by simp
  then have "length es' mod 2 ^ 64 = length fs' mod 2 ^ 64" by (simp only: unat_of_nat) simp
  then show ?thesis using assms(5,6) by (simp add: e f)
qed

text \<open>
  (C12) Tamper evidence. Two non-empty batches that the gateway accepts from the same position with
  the same signed head have the same entries, as long as SHA-256 does not collide on their inputs:
  no event can be altered, dropped, inserted or reordered under a signed head.
\<close>

theorem audit_tamper_evident:
  assumes "verify_batch sha ed pc prev n a pk = Inr h" "verify_batch sha ed pc prev n b pk = Inr h"
    and "sb_entries a \<noteq> []" "sb_entries b \<noteq> []"
    and "length (sb_entries a) < 2 ^ 64" "length (sb_entries b) < 2 ^ 64"
    and "collision_free_on sha (entry_input pc ` (set (sb_entries a) \<union> set (sb_entries b)))"
    and "codec_ok_on pc (se_event ` (set (sb_entries a) \<union> set (sb_entries b)))"
    and "list_all (\<lambda>e. length (se_prev e) = HASH_LEN) (sb_entries a @ sb_entries b)"
  shows "sb_entries a = sb_entries b"
proof -
  have c: "chain_ok sha pc prev n (sb_entries a) h" "chain_ok sha pc prev n (sb_entries b) h"
    using assms(1,2) by (auto simp: verify_batch_iff)
  show ?thesis
    by (rule chain_unique[OF c chain_same_length[OF c assms(3-7,9)] assms(7-9)])
qed

text \<open>A one-event history, with the identity as hash and a one-event codec.\<close>

definition demo_event :: audit_event where
  "demo_event = audit_event_new 7 ClipboardBlocked (verdict_deny RClipboard)"

definition demo_event_codec :: "audit_event codec" where
  "demo_event_codec = \<lparr>cd_enc = (\<lambda>_. []), cd_dec = (\<lambda>_. Some demo_event)\<rparr>"

definition demo_batch :: signed_spool_batch where
  "demo_batch = (let s = spool_emit id demo_event_codec spool_new demo_event
     in sign_batch ed_demo (device_key_from_seed [5]) (as_pending s) (as_head s))"

theorem audit_tamper_evident_witness:
  "verify_batch id ed_demo demo_event_codec GENESIS 1 demo_batch [5] = Inr (sb_head demo_batch) \<and>
   sb_entries demo_batch = sb_entries (demo_batch\<lparr>sb_signature := [5] @ sig_input (sb_head demo_batch)\<rparr>)"
proof -
  have v: "verify_batch id ed_demo demo_event_codec GENESIS 1 demo_batch [5] = Inr (sb_head demo_batch)"
    by (simp add: verify_batch_iff demo_batch_def sign_batch_def spool_emit_def spool_new_def Let_def
        entry_hash_def ed_demo_def device_key_from_seed_def)
  have e: "sb_entries demo_batch \<noteq> []" "length (sb_entries demo_batch) < 2 ^ 64"
    "list_all (\<lambda>e. length (se_prev e) = HASH_LEN) (sb_entries demo_batch)"
    "codec_ok_on demo_event_codec (se_event ` set (sb_entries demo_batch))"
    by (simp_all add: demo_batch_def sign_batch_def spool_emit_def spool_new_def Let_def
        GENESIS_def codec_ok_on_def demo_event_codec_def)
  define b where "b = demo_batch\<lparr>sb_signature := [5] @ sig_input (sb_head demo_batch)\<rparr>"
  have "verify_batch id ed_demo demo_event_codec GENESIS 1 b [5] = Inr (sb_head demo_batch)"
    using v by (simp add: verify_batch_iff b_def ed_demo_def)
  then have "sb_entries demo_batch = sb_entries b"
    using v e audit_tamper_evident[of id ed_demo demo_event_codec GENESIS 1 demo_batch "[5]"
        "sb_head demo_batch" b]
    by (simp add: collision_free_on_def b_def)
  then show ?thesis using v by (simp add: b_def)
qed

text \<open>Two events emitted, the first confirmed: the second is sent and accepted.\<close>

theorem audit_round_trip_witness:
  "verify_batch id ed_demo demo_event_codec
     (chain_head id demo_event_codec 4 GENESIS [demo_event]) (4 + of_nat 1 + 1)
     (sign_batch ed_demo (device_key_from_seed [5])
       (fst (spool_peek (confirm_through (foldl (spool_emit id demo_event_codec) (spool_resume 4 GENESIS)
         ([demo_event] @ [demo_event])) (4 + of_nat 1))))
       (snd (spool_peek (confirm_through (foldl (spool_emit id demo_event_codec) (spool_resume 4 GENESIS)
         ([demo_event] @ [demo_event])) (4 + of_nat 1)))))
     (dk_public_key ed_demo (device_key_from_seed [5]))
   = Inr (as_head (confirm_through (foldl (spool_emit id demo_event_codec) (spool_resume 4 GENESIS)
         ([demo_event] @ [demo_event])) (4 + of_nat 1)))"
  using audit_round_trip[OF ed_demo_correct, of 4 "[demo_event]" "[demo_event]" _ id demo_event_codec
      GENESIS "device_key_from_seed [5]"]
  by simp

end
