(* ===== verification/Link.thy ===== *)
theory Link
  imports Audit_Spool
begin

text \<open>
  How commands and audit batches travel: the \<open>GatewayLink\<close> interface of \<open>clave-proto/src/link.rs\<close>
  with its loopback implementation, and \<open>clave-proto/src/transport.rs\<close> with its channel
  implementation, the length-prefixed framing and the pump between the channel and a byte stream.
  The locale \<open>gateway_link\<close> is the contract of the interface: commands are delivered once and in
  order, a batch is queued or refused whole. Both implementations are interpreted in it. The pump is
  a step relation, because \<open>select!\<close> may drop a read in progress.
\<close>

section \<open>The link interface\<close>

datatype link_error = LinkUnavailable

record loopback_link =
  lb_inbound :: "signed_command list"
  lb_pushed :: "signed_spool_batch list"
  lb_online :: bool

definition loopback_new :: loopback_link where
  "loopback_new = \<lparr>lb_inbound = [], lb_pushed = [], lb_online = True\<rparr>"

definition lb_enqueue_command :: "loopback_link \<Rightarrow> signed_command \<Rightarrow> loopback_link" where
  "lb_enqueue_command l c = l\<lparr>lb_inbound := lb_inbound l @ [c]\<rparr>"

definition lb_pushed_batches :: "loopback_link \<Rightarrow> signed_spool_batch list" where
  "lb_pushed_batches l = lb_pushed l"

definition lb_set_online :: "loopback_link \<Rightarrow> bool \<Rightarrow> loopback_link" where
  "lb_set_online l b = l\<lparr>lb_online := b\<rparr>"

definition lb_poll_commands :: "loopback_link \<Rightarrow> loopback_link \<times> signed_command list" where
  "lb_poll_commands l = (l\<lparr>lb_inbound := []\<rparr>, lb_inbound l)"

definition lb_push_audit ::
  "loopback_link \<Rightarrow> signed_spool_batch \<Rightarrow> loopback_link \<times> (link_error + unit)" where
  "lb_push_audit l b =
     (if \<not> lb_online l then (l, Inl LinkUnavailable)
      else (l\<lparr>lb_pushed := lb_pushed l @ [b]\<rparr>, Inr ()))"

text \<open>
  The channel link: two unbounded queues shared with the pump. \<open>ch_open\<close> says that the pump still
  holds the receiving end of the outbound queue; sending fails once it is dropped.
\<close>

record channel_link =
  ch_inbound :: "signed_command list"
  ch_outbound :: "signed_spool_batch list"
  ch_open :: bool

definition channel_link_new :: channel_link where
  "channel_link_new = \<lparr>ch_inbound = [], ch_outbound = [], ch_open = True\<rparr>"

fun try_recv_all :: "signed_command list \<Rightarrow> signed_command list \<Rightarrow> signed_command list" where
  "try_recv_all [] out = out"
| "try_recv_all (c # cs) out = try_recv_all cs (out @ [c])"

definition ch_poll_commands :: "channel_link \<Rightarrow> channel_link \<times> signed_command list" where
  "ch_poll_commands l = (l\<lparr>ch_inbound := []\<rparr>, try_recv_all (ch_inbound l) [])"

definition ch_push_audit ::
  "channel_link \<Rightarrow> signed_spool_batch \<Rightarrow> channel_link \<times> (link_error + unit)" where
  "ch_push_audit l b =
     (if ch_open l then (l\<lparr>ch_outbound := ch_outbound l @ [b]\<rparr>, Inr ()) else (l, Inl LinkUnavailable))"

definition ch_deliver :: "channel_link \<Rightarrow> signed_command \<Rightarrow> channel_link" where
  "ch_deliver l c = l\<lparr>ch_inbound := ch_inbound l @ [c]\<rparr>"

lemma try_recv_all_eq [simp]: "try_recv_all cs out = out @ cs"
  by (induction cs arbitrary: out) auto

text \<open>The contract, with an abstraction to the queued commands and the queued batches.\<close>

datatype link_event = LEnqueue signed_command | LPoll | LPush signed_spool_batch

fun link_run ::
  "('l \<Rightarrow> 'l \<times> signed_command list) \<Rightarrow> ('l \<Rightarrow> signed_spool_batch \<Rightarrow> 'l \<times> (link_error + unit)) \<Rightarrow>
   ('l \<Rightarrow> signed_command \<Rightarrow> 'l) \<Rightarrow> 'l \<Rightarrow> link_event list \<Rightarrow> 'l \<times> signed_command list" where
  "link_run poll push feed l [] = (l, [])"
| "link_run poll push feed l (LEnqueue c # es) = link_run poll push feed (feed l c) es"
| "link_run poll push feed l (LPush b # es) = link_run poll push feed (fst (push l b)) es"
| "link_run poll push feed l (LPoll # es) =
     (fst (link_run poll push feed (fst (poll l)) es),
      snd (poll l) @ snd (link_run poll push feed (fst (poll l)) es))"

fun enqueued :: "link_event list \<Rightarrow> signed_command list" where
  "enqueued [] = []"
| "enqueued (LEnqueue c # es) = c # enqueued es"
| "enqueued (_ # es) = enqueued es"

fun pushes :: "link_event list \<Rightarrow> signed_spool_batch list" where
  "pushes [] = []"
| "pushes (LPush b # es) = b # pushes es"
| "pushes (_ # es) = pushes es"

locale gateway_link =
  fixes poll :: "'l \<Rightarrow> 'l \<times> signed_command list"
    and push :: "'l \<Rightarrow> signed_spool_batch \<Rightarrow> 'l \<times> (link_error + unit)"
    and feed :: "'l \<Rightarrow> signed_command \<Rightarrow> 'l"
    and queued :: "'l \<Rightarrow> signed_command list"
    and sent :: "'l \<Rightarrow> signed_spool_batch list"
    and up :: "'l \<Rightarrow> bool"
  assumes poll_result: "snd (poll l) = queued l"
    and poll_queued: "queued (fst (poll l)) = []"
    and poll_sent: "sent (fst (poll l)) = sent l"
    and poll_up: "up (fst (poll l)) = up l"
    and push_result: "snd (push l b) = (if up l then Inr () else Inl LinkUnavailable)"
    and push_sent: "sent (fst (push l b)) = (if up l then sent l @ [b] else sent l)"
    and push_queued: "queued (fst (push l b)) = queued l"
    and push_up: "up (fst (push l b)) = up l"
    and feed_queued: "queued (feed l c) = queued l @ [c]"
    and feed_sent: "sent (feed l c) = sent l"
    and feed_up: "up (feed l c) = up l"
begin

lemma delivered_once_in_order:
  "snd (link_run poll push feed l es) @ queued (fst (link_run poll push feed l es))
     = queued l @ enqueued es"
proof (induction es arbitrary: l)
  case (Cons e es)
  then show ?case
    by (cases e) (simp_all add: feed_queued push_queued poll_result poll_queued)
qed simp

lemma batches_in_order:
  "up l \<Longrightarrow> sent (fst (link_run poll push feed l es)) = sent l @ pushes es"
proof (induction es arbitrary: l)
  case (Cons e es)
  then show ?case
    by (cases e) (simp_all add: feed_sent feed_up push_sent push_up poll_sent poll_up)
qed simp

end

interpretation lbk: gateway_link lb_poll_commands lb_push_audit lb_enqueue_command lb_inbound
  lb_pushed lb_online
  by unfold_locales
    (simp_all add: lb_poll_commands_def lb_push_audit_def lb_enqueue_command_def)

interpretation chl: gateway_link ch_poll_commands ch_push_audit ch_deliver ch_inbound
  ch_outbound ch_open
  by unfold_locales (simp_all add: ch_poll_commands_def ch_push_audit_def ch_deliver_def)

section \<open>Framing\<close>

datatype io_error = InvalidData string | UnexpectedEof | OtherIo string

definition MAX_FRAME :: nat where
  "MAX_FRAME = 2 ^ 20"

definition write_msg :: "'a codec \<Rightarrow> 'a \<Rightarrow> io_error + bytes" where
  "write_msg pc msg =
     (let body = cd_enc pc msg
      in if length body > MAX_FRAME then Inl (InvalidData ''frame too large'')
         else Inr (le_bytes 4 (length body) @ body))"

text \<open>
  Reading from a stream that holds the given bytes and then ends; the result carries what is left.
  An end of stream inside the length prefix reads as a clean end.
\<close>

definition read_msg :: "'a codec \<Rightarrow> bytes \<Rightarrow> io_error + ('a \<times> bytes) option" where
  "read_msg pc stream =
     (if length stream < 4 then Inr None
      else let len = le_val (take 4 stream); rest = drop 4 stream
           in if len > MAX_FRAME then Inl (InvalidData ''frame too large'')
              else if length rest < len then Inl UnexpectedEof
              else case cd_dec pc (take len rest) of
                     None \<Rightarrow> Inl (InvalidData ''decode'')
                   | Some msg \<Rightarrow> Inr (Some (msg, drop len rest)))"

definition frame_of :: "'a codec \<Rightarrow> 'a \<Rightarrow> bytes" where
  "frame_of pc msg = le_bytes 4 (length (cd_enc pc msg)) @ cd_enc pc msg"

definition framable :: "'a codec \<Rightarrow> 'a \<Rightarrow> bool" where
  "framable pc msg = (length (cd_enc pc msg) \<le> MAX_FRAME \<and> cd_dec pc (cd_enc pc msg) = Some msg)"

lemma le_val_4: "n \<le> MAX_FRAME \<Longrightarrow> le_val (le_bytes 4 n) = n"
  by (simp add: le_val_bytes MAX_FRAME_def)

lemma write_read_msg:
  "write_msg pc msg = Inr bs \<Longrightarrow> codec_ok_on pc {msg} \<Longrightarrow>
   read_msg pc (bs @ rest) = Inr (Some (msg, rest))"
  by (auto simp: write_msg_def read_msg_def Let_def le_val_4 codec_ok_on_def split: if_splits)

lemma frame_of_nonempty [simp]: "frame_of pc m \<noteq> []" "length (frame_of pc m) = 4 + length (cd_enc pc m)"
proof -
  show l: "length (frame_of pc m) = 4 + length (cd_enc pc m)" by (simp add: frame_of_def)
  show "frame_of pc m \<noteq> []" using l by (metis list.size(3) add_is_0 zero_neq_numeral)
qed

text \<open>A complete frame and the message it carries.\<close>

definition is_frame :: "'a codec \<Rightarrow> bytes \<Rightarrow> 'a \<Rightarrow> bool" where
  "is_frame pc f msg =
     (4 \<le> length f \<and> length f = 4 + le_val (take 4 f) \<and> cd_dec pc (drop 4 f) = Some msg)"

lemma is_frame_of: "framable pc m \<Longrightarrow> is_frame pc (frame_of pc m) m"
  by (simp add: framable_def is_frame_def frame_of_def le_val_4)

lemma frame_unique:
  assumes "is_frame pc f m" "is_frame pc g k" "f @ x = g @ y"
  shows "f = g \<and> m = k \<and> x = y"
proof -
  note f = assms(1)[unfolded is_frame_def] and g = assms(2)[unfolded is_frame_def]
  have "take 4 (f @ x) = take 4 f" "take 4 (g @ y) = take 4 g" using f g by simp_all
  then have "take 4 f = take 4 g" using assms(3) by simp
  then have "length f = length g" using f g by presburger
  then have "f = g" "x = y" using assms(3) by simp_all
  then show ?thesis using f g by simp
qed

lemma frames_unique:
  assumes "list_all2 (is_frame pc) fs ms" "list_all (framable pc) cmds"
    and "concat fs @ r = concat (map (frame_of pc) cmds)"
  shows "\<exists>k. ms = take k cmds \<and> r = concat (map (frame_of pc) (drop k cmds))"
  using assms
proof (induction fs ms arbitrary: cmds rule: list_all2_induct)
  case Nil
  then show ?case by (intro exI[of _ 0]) simp
next
  case (Cons f fs m ms)
  show ?case
  proof (cases cmds)
    case Nil
    then show ?thesis using Cons.prems(2) Cons.hyps(1) by (simp add: is_frame_def)
  next
    case (Cons c cs)
    have "f = frame_of pc c \<and> m = c \<and> concat fs @ r = concat (map (frame_of pc) cs)"
      using Cons.prems Cons.hyps(1) Cons is_frame_of[of pc c]
      by (intro frame_unique[where f = f and g = "frame_of pc c"]) auto
    then obtain k where "ms = take k cs" "r = concat (map (frame_of pc) (drop k cs))" "m = c"
      using Cons.IH[of cs] Cons.prems(1) Cons by auto
    then show ?thesis by (intro exI[of _ "Suc k"]) (simp add: Cons)
  qed
qed

section \<open>The pump\<close>

text \<open>
  One iteration of the pump's \<open>select!\<close> either completes the read of a frame or takes a batch from
  the outbound queue. The read future holds the bytes it has consumed so far (\<open>pm_part\<close>); when the
  other branch wins, \<open>select!\<close> drops the future and these bytes with it. \<open>pm_arrived\<close> records all
  bytes the peer has sent, \<open>pm_given\<close> all commands handed to the link. The label of a send carries
  the bytes that were dropped.
\<close>

record pump_state =
  pm_arrived :: bytes
  pm_stream :: bytes
  pm_part :: bytes
  pm_given :: "signed_command list"
  pm_link :: channel_link
  pm_wire :: bytes

datatype pump_label = Arrive bytes | TakeByte | Deliver | Send bytes | Push signed_spool_batch

definition frame_complete :: "bytes \<Rightarrow> bool" where
  "frame_complete part = (4 \<le> length part \<and> le_val (take 4 part) \<le> MAX_FRAME \<and>
     length part = 4 + le_val (take 4 part))"

definition frame_rejected :: "bytes \<Rightarrow> bool" where
  "frame_rejected part = (4 \<le> length part \<and> le_val (take 4 part) > MAX_FRAME)"

inductive pump_step ::
  "signed_command codec \<Rightarrow> signed_spool_batch codec \<Rightarrow> pump_state \<Rightarrow> pump_label \<Rightarrow> pump_state \<Rightarrow> bool"
  for cc :: "signed_command codec" and bc :: "signed_spool_batch codec" where
  arrive: "pump_step cc bc s (Arrive bs)
     (s\<lparr>pm_arrived := pm_arrived s @ bs, pm_stream := pm_stream s @ bs\<rparr>)"
| take_byte: "pm_stream s = b # bs \<Longrightarrow> \<not> frame_complete (pm_part s) \<Longrightarrow> \<not> frame_rejected (pm_part s) \<Longrightarrow>
     pump_step cc bc s TakeByte (s\<lparr>pm_stream := bs, pm_part := pm_part s @ [b]\<rparr>)"
| deliver: "frame_complete (pm_part s) \<Longrightarrow> cd_dec cc (drop 4 (pm_part s)) = Some cmd \<Longrightarrow>
     pump_step cc bc s Deliver
       (s\<lparr>pm_part := [], pm_given := pm_given s @ [cmd], pm_link := ch_deliver (pm_link s) cmd\<rparr>)"
| send: "ch_outbound (pm_link s) = b # bs \<Longrightarrow> write_msg bc b = Inr out \<Longrightarrow>
     pump_step cc bc s (Send (pm_part s))
       (s\<lparr>pm_part := [], pm_link := (pm_link s)\<lparr>ch_outbound := bs\<rparr>, pm_wire := pm_wire s @ out\<rparr>)"
| push: "ch_push_audit (pm_link s) b = (l, r) \<Longrightarrow>
     pump_step cc bc s (Push b) (s\<lparr>pm_link := l\<rparr>)"

inductive_cases pump_stepE: "pump_step cc bc s l t"

inductive pump_run ::
  "signed_command codec \<Rightarrow> signed_spool_batch codec \<Rightarrow> pump_state \<Rightarrow> pump_label list \<Rightarrow> pump_state \<Rightarrow> bool"
  for cc :: "signed_command codec" and bc :: "signed_spool_batch codec" where
  pump_nil: "pump_run cc bc s [] s"
| pump_snoc: "pump_run cc bc s ls t \<Longrightarrow> pump_step cc bc t l u \<Longrightarrow> pump_run cc bc s (ls @ [l]) u"

definition pump_init :: pump_state where
  "pump_init = \<lparr>pm_arrived = [], pm_stream = [], pm_part = [], pm_given = [],
     pm_link = channel_link_new, pm_wire = []\<rparr>"

fun dropped :: "pump_label \<Rightarrow> bytes" where
  "dropped (Send d) = d"
| "dropped _ = []"

definition pump_inv :: "signed_command codec \<Rightarrow> pump_state \<Rightarrow> bool" where
  "pump_inv cc s = (\<exists>fs. list_all2 (is_frame cc) fs (pm_given s) \<and>
     pm_arrived s = concat fs @ pm_part s @ pm_stream s)"

lemma pump_inv_step:
  assumes "pump_step cc bc s l t" "dropped l = []" "pump_inv cc s"
  shows "pump_inv cc t"
proof -
  obtain fs where fs: "list_all2 (is_frame cc) fs (pm_given s)"
    "pm_arrived s = concat fs @ pm_part s @ pm_stream s"
    using assms(3) by (auto simp: pump_inv_def)
  from assms(1) show ?thesis
  proof cases
    case (deliver cmd)
    then have "is_frame cc (pm_part s) cmd" by (simp add: frame_complete_def is_frame_def)
    with fs have "list_all2 (is_frame cc) (fs @ [pm_part s]) (pm_given t)"
      "pm_arrived t = concat (fs @ [pm_part s]) @ pm_part t @ pm_stream t"
      using deliver by (simp_all add: list_all2_appendI)
    then show ?thesis unfolding pump_inv_def by blast
  qed (use fs assms(2) in \<open>auto simp: pump_inv_def\<close>)
qed

lemma pump_inv_run:
  "pump_run cc bc s ls t \<Longrightarrow> list_all (\<lambda>l. dropped l = []) ls \<Longrightarrow> pump_inv cc s \<Longrightarrow> pump_inv cc t"
  by (induction rule: pump_run.induct) (auto intro: pump_inv_step)

text \<open>
  The pump delivers commands whole and in order, as long as no send interrupts a read: if the
  peer's bytes are an initial part of the frames of \<open>cmds\<close> and no send dropped bytes, the commands
  handed to the link are an initial part of \<open>cmds\<close>, and all of \<open>cmds\<close> once everything has
  arrived and been read.
\<close>

theorem pump_delivers_in_order:
  assumes "pump_run cc bc pump_init ls s" "list_all (\<lambda>l. dropped l = []) ls"
    and "list_all (framable cc) cmds"
    and "pm_arrived s @ later = concat (map (frame_of cc) cmds)"
  shows "prefix (pm_given s) cmds \<and>
    (later = [] \<and> pm_part s = [] \<and> pm_stream s = [] \<longrightarrow> pm_given s = cmds)"
proof -
  have "pump_inv cc pump_init" by (simp add: pump_inv_def pump_init_def)
  then have "pump_inv cc s" using pump_inv_run assms(1,2) by blast
  then obtain fs where fs: "list_all2 (is_frame cc) fs (pm_given s)"
    "pm_arrived s = concat fs @ pm_part s @ pm_stream s" by (auto simp: pump_inv_def)
  then obtain k where k: "pm_given s = take k cmds"
    "pm_part s @ pm_stream s @ later = concat (map (frame_of cc) (drop k cmds))"
    using frames_unique[OF fs(1) assms(3), of "pm_part s @ pm_stream s @ later"] assms(4) by auto
  have "drop k cmds = []" if "later = [] \<and> pm_part s = [] \<and> pm_stream s = []"
    using k(2) that by (cases "drop k cmds") auto
  then show ?thesis using k(1) by (auto simp: take_is_prefix)
qed

text \<open>A frame read in part is neither complete nor rejected.\<close>

lemma frame_partial:
  assumes "framable cc cmd" "frame_of cc cmd = xs @ ys" "ys \<noteq> []"
  shows "\<not> frame_complete xs" "\<not> frame_rejected xs"
proof -
  have l: "length xs < 4 + length (cd_enc cc cmd)"
    using arg_cong[OF assms(2), of length] assms(3) by (cases ys) auto
  have "le_val (take 4 xs) = length (cd_enc cc cmd)" if "4 \<le> length xs"
    using that arg_cong[OF assms(2), of "le_val \<circ> take 4"] assms(1)
    by (simp add: frame_of_def framable_def le_val_4)
  then show "\<not> frame_complete xs" "\<not> frame_rejected xs"
    using l assms(1) by (auto simp: frame_complete_def frame_rejected_def framable_def)
qed

lemma pump_take_bytes:
  assumes "framable cc cmd" "frame_of cc cmd = xs @ ys @ zs" "zs \<noteq> []"
    and "pump_run cc bc s0 ls s" "pm_part s = xs" "pm_stream s = ys @ zs"
  shows "\<exists>ks. pump_run cc bc s0 ks (s\<lparr>pm_part := xs @ ys, pm_stream := zs\<rparr>)"
  using assms(2-)
proof (induction ys arbitrary: xs s ls)
  case Nil
  then have "s\<lparr>pm_part := xs @ [], pm_stream := zs\<rparr> = s" by simp
  then show ?case using Nil by metis
next
  case (Cons y ys)
  let ?t = "s\<lparr>pm_stream := ys @ zs, pm_part := xs @ [y]\<rparr>"
  have "pump_step cc bc s TakeByte ?t"
    using take_byte[of s y "ys @ zs" cc bc] Cons.prems frame_partial[OF assms(1), of xs "y # ys @ zs"]
    by simp
  then have "pump_run cc bc s0 (ls @ [TakeByte]) ?t" using Cons.prems(3) by (rule pump_snoc[rotated])
  from Cons.IH[OF _ _ this] Cons.prems show ?case by simp
qed

text \<open>
  A batch sent while a command is being read loses the command. For every command and batch
  there is a run of the pump in which the whole frame of the command has arrived and been consumed
  and no command has been delivered; the reader holds the frame's last byte and will take it for the
  start of the next length prefix.
\<close>

theorem pump_select_drops_command:
  assumes "framable cc cmd" "framable bc b"
  shows "\<exists>ls s. pump_run cc bc pump_init ls s \<and> pm_arrived s = frame_of cc cmd \<and> pm_stream s = [] \<and>
    pm_part s = [last (frame_of cc cmd)] \<and> pm_given s = [] \<and> pm_wire s = frame_of bc b"
proof -
  let ?f = "frame_of cc cmd"
  define xs z where "xs = butlast ?f" and "z = last ?f"
  have f: "?f = [] @ xs @ [z]" by (simp add: xs_def z_def)
  define s1 where "s1 = pump_init\<lparr>pm_link := channel_link_new\<lparr>ch_outbound := [b]\<rparr>\<rparr>"
  define s2 where "s2 = s1\<lparr>pm_arrived := ?f, pm_stream := ?f\<rparr>"
  have "pump_step cc bc pump_init (Push b) s1"
    using push[of pump_init b "channel_link_new\<lparr>ch_outbound := [b]\<rparr>" "Inr ()" cc bc]
    by (simp add: s1_def pump_init_def ch_push_audit_def channel_link_new_def)
  then have r1: "pump_run cc bc pump_init [Push b] s1"
    using pump_snoc[OF pump_nil] by fastforce
  have "pump_step cc bc s1 (Arrive ?f) s2"
    using arrive[of cc bc s1 ?f] by (simp add: s2_def s1_def pump_init_def)
  from pump_snoc[OF r1 this] have r2: "pump_run cc bc pump_init ([Push b] @ [Arrive ?f]) s2" .
  define s3 where "s3 = s2\<lparr>pm_part := [] @ xs, pm_stream := [z]\<rparr>"
  obtain ks where r3: "pump_run cc bc pump_init ks s3"
    using pump_take_bytes[OF assms(1) f _ r2] f
    by (auto simp: s3_def s2_def s1_def pump_init_def)
  define s4 where "s4 = s3\<lparr>pm_part := [], pm_link := (pm_link s3)\<lparr>ch_outbound := []\<rparr>,
      pm_wire := frame_of bc b\<rparr>"
  have "pump_step cc bc s3 (Send (pm_part s3)) s4"
    using send[of s3 b "[]" bc "frame_of bc b" cc] assms(2)
    by (simp add: s4_def s3_def s2_def s1_def pump_init_def write_msg_def frame_of_def framable_def Let_def)
  from pump_snoc[OF r3 this] have r4: "pump_run cc bc pump_init (ks @ [Send (pm_part s3)]) s4" .
  have "pump_step cc bc s4 TakeByte (s4\<lparr>pm_stream := [], pm_part := [z]\<rparr>)"
    using take_byte[of s4 z "[]" cc bc]
    by (simp add: s4_def s3_def frame_complete_def frame_rejected_def)
  from pump_snoc[OF r4 this] show ?thesis
    by (intro exI conjI) (auto simp: s4_def s3_def s2_def s1_def pump_init_def z_def)
qed

section \<open>Witnesses\<close>

text \<open>One-message codecs for a command and a batch.\<close>

definition demo_command :: signed_command where
  "demo_command = \<lparr>sc_envelope = [1], sc_signature = [2]\<rparr>"

definition demo_command_codec :: "signed_command codec" where
  "demo_command_codec = \<lparr>cd_enc = (\<lambda>_. [8]), cd_dec = (\<lambda>_. Some demo_command)\<rparr>"

definition demo_batch_codec :: "signed_spool_batch codec" where
  "demo_batch_codec = \<lparr>cd_enc = (\<lambda>_. [9]), cd_dec = (\<lambda>_. Some demo_batch)\<rparr>"

lemma demo_framable: "framable demo_command_codec demo_command" "framable demo_batch_codec demo_batch"
  by (simp_all add: framable_def demo_command_codec_def demo_batch_codec_def MAX_FRAME_def)

lemma demo_frame: "frame_of demo_command_codec demo_command = [1, 0, 0, 0, 8]"
  by (simp add: frame_of_def demo_command_codec_def le_bytes_4)

text \<open>The frame is five bytes long; four of them are lost.\<close>

theorem pump_select_drops_command_witness:
  "\<exists>ls s. pump_run demo_command_codec demo_batch_codec pump_init ls s \<and>
     pm_arrived s = [1, 0, 0, 0, 8] \<and> pm_stream s = [] \<and> pm_part s = [8] \<and> pm_given s = []"
  using pump_select_drops_command[OF demo_framable]
  by (auto simp: demo_frame)

text \<open>Two bytes of the frame have arrived: nothing is delivered out of order.\<close>

theorem pump_delivers_in_order_witness:
  "\<exists>s. pump_run demo_command_codec demo_batch_codec pump_init [Arrive [1, 0]] s \<and>
     prefix (pm_given s) [demo_command]"
proof -
  define s where "s = pump_init\<lparr>pm_arrived := [1, 0], pm_stream := [1, 0]\<rparr>"
  have "pump_step demo_command_codec demo_batch_codec pump_init (Arrive [1, 0]) s"
    using arrive[of demo_command_codec demo_batch_codec pump_init "[1, 0]"]
    by (simp add: s_def pump_init_def)
  then have r: "pump_run demo_command_codec demo_batch_codec pump_init [Arrive [1, 0]] s"
    using pump_snoc[OF pump_nil] by fastforce
  have "pm_arrived s @ [0, 0, 8] = concat (map (frame_of demo_command_codec) [demo_command])"
    by (simp add: s_def demo_frame)
  then have "prefix (pm_given s) [demo_command]"
    using pump_delivers_in_order[OF r, of "[demo_command]" "[0, 0, 8]"] demo_framable by simp
  with r show ?thesis by blast
qed

text \<open>
  Both links deliver every command exactly once and in order, however enqueues, polls and
  pushes interleave: what was polled, followed by what is still queued, is what was enqueued. While
  the link is up every pushed batch is sent, in order; once it is down a push is refused and leaves
  the link unchanged.
\<close>

theorem links_deliver_once_in_order:
  "snd (link_run lb_poll_commands lb_push_audit lb_enqueue_command loopback_new es)
     @ lb_inbound (fst (link_run lb_poll_commands lb_push_audit lb_enqueue_command loopback_new es))
   = enqueued es \<and>
   snd (link_run ch_poll_commands ch_push_audit ch_deliver channel_link_new es)
     @ ch_inbound (fst (link_run ch_poll_commands ch_push_audit ch_deliver channel_link_new es))
   = enqueued es \<and>
   lb_pushed (fst (link_run lb_poll_commands lb_push_audit lb_enqueue_command loopback_new es)) = pushes es \<and>
   ch_outbound (fst (link_run ch_poll_commands ch_push_audit ch_deliver channel_link_new es)) = pushes es \<and>
   lb_push_audit (lb_set_online l False) b = (lb_set_online l False, Inl LinkUnavailable)"
  using lbk.delivered_once_in_order[of loopback_new es] chl.delivered_once_in_order[of channel_link_new es]
    lbk.batches_in_order[of loopback_new es] chl.batches_in_order[of channel_link_new es]
  by (simp add: loopback_new_def channel_link_new_def lb_push_audit_def lb_set_online_def)

end
