(* ===== verification/Ipc.thy ===== *)
theory Ipc
  imports Link
begin

text \<open>
  Crate \<open>clave-ipc\<close>: the messages between shims, launcher and daemon, the length-prefixed frames
  (\<open>lib.rs\<close>) and the buffered connection with its handshakes and service loops
  (\<open>transport.rs\<close>). A connection reads chunks of any size from its stream into a buffer; the
  lemmas show that what it returns does not depend on how the stream is cut into chunks.
\<close>

section \<open>Messages and frames\<close>

definition IPC_PROTO_VERSION :: u16 where
  "IPC_PROTO_VERSION = 7"

datatype shim_msg =
    ShimHello u16 u64
  | RequestDecision u64 action
  | WindowCreated window_id
  | WindowDestroyed window_id
  | Heartbeat

datatype daemon_msg =
    DWelcome u16
  | DDecision u64 verdict
  | DPolicyVersion u64
  | DWipe

datatype launcher_request =
    LHello u16
  | ListApps
  | PrepareLaunch app_id
  | LLaunch app_id
  | LEnforcement
  | LStatus
  | ListWebApps
  | LaunchWeb app_id
  | PeekAudit

record launcher_status =
  lst_tenant :: u64
  lst_policy_version :: u64
  lst_volume_unlocked :: bool
  lst_mount_point :: "string option"
  lst_gateway_high_water :: u64

datatype launcher_reply =
    LWelcome u16
  | Apps "launchable_app list"
  | ReplySpec "launch_spec option"
  | Launched "u32 option"
  | LaunchFailed string
  | ReplyEnforcement "(string \<times> string) list"
  | ReplyStatus launcher_status
  | WebApps "web_app_info list"
  | ReplyAudit "audit_event list"

datatype frame_error = TooLarge | FrameMalformed

definition encode :: "'a codec \<Rightarrow> 'a \<Rightarrow> bytes" where
  "encode pc msg = (let body = cd_enc pc msg in le_bytes 4 (length body) @ body)"

definition try_decode :: "'a codec \<Rightarrow> bytes \<Rightarrow> frame_error + ('a \<times> nat) option" where
  "try_decode pc buf =
     (if length buf < 4 then Inr None
      else let len = le_val (take 4 buf)
           in if len > MAX_FRAME then Inl TooLarge
              else let endp = 4 + len
                   in if length buf < endp then Inr None
                      else case cd_dec pc (take len (drop 4 buf)) of
                             Some msg \<Rightarrow> Inr (Some (msg, endp))
                           | None \<Rightarrow> Inl FrameMalformed)"

section \<open>Connections\<close>

datatype transport_error =
    TIo string
  | TFrame frame_error
  | Handshake string
  | Truncated
  | TLaunchFailed string

record peer_cred =
  pc_uid :: u32
  pc_pid :: "int option"

text \<open>
  The stream side of a connection: the results the coming \<open>read\<close> calls will give (an I/O error, or
  a chunk; an empty chunk or the end of the list is the end of the stream), the bytes written so
  far, and the error the next writes give, if any.
\<close>

record connection =
  cn_reads :: "(string + bytes) list"
  cn_buf :: bytes
  cn_written :: bytes
  cn_write_err :: "string option"
  cn_cred :: "transport_error + peer_cred"

definition conn_eof :: "connection \<Rightarrow> transport_error + 'a option" where
  "conn_eof c = (if cn_buf c = [] then Inr None else Inl Truncated)"

function conn_read :: "'a codec \<Rightarrow> connection \<Rightarrow> connection \<times> (transport_error + 'a option)" where
  "conn_read pc c =
     (case try_decode pc (cn_buf c) of
        Inl e \<Rightarrow> (c, Inl (TFrame e))
      | Inr (Some (msg, consumed)) \<Rightarrow> (c\<lparr>cn_buf := drop consumed (cn_buf c)\<rparr>, Inr (Some msg))
      | Inr None \<Rightarrow>
          (case cn_reads c of
             [] \<Rightarrow> (c, conn_eof c)
           | Inl e # rs \<Rightarrow> (c\<lparr>cn_reads := rs\<rparr>, Inl (TIo e))
           | Inr chunk # rs \<Rightarrow>
               (if chunk = [] then (c\<lparr>cn_reads := rs\<rparr>, conn_eof c)
                else conn_read pc (c\<lparr>cn_reads := rs, cn_buf := cn_buf c @ chunk\<rparr>))))"
  by pat_completeness auto
termination
  by (relation "measure (\<lambda>(pc, c). length (cn_reads c))") auto

declare conn_read.simps [simp del]

definition conn_write :: "'a codec \<Rightarrow> connection \<Rightarrow> 'a \<Rightarrow> connection \<times> (transport_error + unit)" where
  "conn_write pc c msg =
     (case cn_write_err c of
        Some e \<Rightarrow> (c, Inl (TIo e))
      | None \<Rightarrow> (c\<lparr>cn_written := cn_written c @ encode pc msg\<rparr>, Inr ()))"

definition peer_cred_of :: "connection \<Rightarrow> transport_error + peer_cred" where
  "peer_cred_of c = cn_cred c"

section \<open>Handshakes and service loops\<close>

definition server_handshake ::
  "shim_msg codec \<Rightarrow> daemon_msg codec \<Rightarrow> (peer_cred \<Rightarrow> u64 \<Rightarrow> bool) \<Rightarrow> connection
     \<Rightarrow> connection \<times> (transport_error + peer_cred)" where
  "server_handshake sm dm auth c =
     (case peer_cred_of c of
        Inl e \<Rightarrow> (c, Inl e)
      | Inr cred \<Rightarrow>
          (case conn_read sm c of
             (c1, Inl e) \<Rightarrow> (c1, Inl e)
           | (c1, Inr (Some (ShimHello proto nonce))) \<Rightarrow>
               (if proto \<noteq> IPC_PROTO_VERSION then (c1, Inl (Handshake ''protocol version mismatch''))
                else if \<not> auth cred nonce then (c1, Inl (Handshake ''peer authentication rejected''))
                else case conn_write dm c1 (DWelcome IPC_PROTO_VERSION) of
                       (c2, Inl e) \<Rightarrow> (c2, Inl e)
                     | (c2, Inr _) \<Rightarrow> (c2, Inr cred))
           | (c1, Inr (Some _)) \<Rightarrow> (c1, Inl (Handshake ''expected Hello''))
           | (c1, Inr None) \<Rightarrow> (c1, Inl Truncated)))"

definition client_handshake ::
  "shim_msg codec \<Rightarrow> daemon_msg codec \<Rightarrow> connection \<Rightarrow> u64 \<Rightarrow> connection \<times> (transport_error + unit)" where
  "client_handshake sm dm c nonce =
     (case conn_write sm c (ShimHello IPC_PROTO_VERSION nonce) of
        (c1, Inl e) \<Rightarrow> (c1, Inl e)
      | (c1, Inr _) \<Rightarrow>
          (case conn_read dm c1 of
             (c2, Inl e) \<Rightarrow> (c2, Inl e)
           | (c2, Inr (Some (DWelcome proto))) \<Rightarrow>
               (if proto = IPC_PROTO_VERSION then (c2, Inr ())
                else (c2, Inl (Handshake ''expected Welcome'')))
           | (c2, Inr (Some _)) \<Rightarrow> (c2, Inl (Handshake ''expected Welcome''))
           | (c2, Inr None) \<Rightarrow> (c2, Inl Truncated)))"

text \<open>
  The handler of a service loop is a closure with state \<open>'s\<close>. Each message consumes buffered bytes
  or chunks, so the loop ends after at most as many rounds as the stream can hold messages.
\<close>

fun chunk_len :: "string + bytes \<Rightarrow> nat" where
  "chunk_len (Inl _) = 0"
| "chunk_len (Inr b) = length b"

definition conn_size :: "connection \<Rightarrow> nat" where
  "conn_size c = length (cn_buf c) + sum_list (map chunk_len (cn_reads c))"

lemma try_decode_consumed: "try_decode pc buf = Inr (Some (m, n)) \<Longrightarrow> 4 \<le> n \<and> n \<le> length buf"
  by (auto simp: try_decode_def Let_def split: if_splits option.splits)

lemma conn_read_frame_err:
  "try_decode pc (cn_buf c) = Inl e \<Longrightarrow> conn_read pc c = (c, Inl (TFrame e))"
  by (subst conn_read.simps) simp

lemma conn_read_ready:
  "try_decode pc (cn_buf c) = Inr (Some (m, n)) \<Longrightarrow>
   conn_read pc c = (c\<lparr>cn_buf := drop n (cn_buf c)\<rparr>, Inr (Some m))"
  by (subst conn_read.simps) simp

lemma conn_read_eof:
  "try_decode pc (cn_buf c) = Inr None \<Longrightarrow> cn_reads c = [] \<Longrightarrow> conn_read pc c = (c, conn_eof c)"
  by (subst conn_read.simps) simp

lemma conn_read_chunk:
  "try_decode pc (cn_buf c) = Inr None \<Longrightarrow> cn_reads c = r # rs \<Longrightarrow>
   conn_read pc c = (case r of Inl e \<Rightarrow> (c\<lparr>cn_reads := rs\<rparr>, Inl (TIo e))
     | Inr chunk \<Rightarrow> if chunk = [] then (c\<lparr>cn_reads := rs\<rparr>, conn_eof c)
         else conn_read pc (c\<lparr>cn_reads := rs, cn_buf := cn_buf c @ chunk\<rparr>))"
  by (subst conn_read.simps) (simp split: sum.splits)

lemma conn_read_size:
  "conn_read pc c = (c', Inr (Some m)) \<Longrightarrow> conn_size c' < conn_size c"
proof (induction "length (cn_reads c)" arbitrary: c rule: less_induct)
  case less
  consider (err) e where "try_decode pc (cn_buf c) = Inl e"
    | (msg) m' n where "try_decode pc (cn_buf c) = Inr (Some (m', n))"
    | (wait) "try_decode pc (cn_buf c) = Inr None"
    by (metis option.exhaust sum.exhaust surj_pair)
  then show ?case
  proof cases
    case err
    then show ?thesis using less.prems by (simp add: conn_read_frame_err)
  next
    case msg
    then have "c' = c\<lparr>cn_buf := drop n (cn_buf c)\<rparr>" using less.prems by (simp add: conn_read_ready)
    then show ?thesis using try_decode_consumed[OF msg] by (auto simp: conn_size_def)
  next
    case wait
    show ?thesis
    proof (cases "cn_reads c")
      case Nil
      then show ?thesis using less.prems wait by (auto simp: conn_read_eof conn_eof_def split: if_splits)
    next
      case (Cons r rs)
      then obtain chunk where r: "r = Inr chunk" "chunk \<noteq> []"
        "conn_read pc (c\<lparr>cn_reads := rs, cn_buf := cn_buf c @ chunk\<rparr>) = (c', Inr (Some m))"
        using less.prems wait by (auto simp: conn_read_chunk conn_eof_def split: sum.splits if_splits)
      then show ?thesis
        using less.hyps[of "c\<lparr>cn_reads := rs, cn_buf := cn_buf c @ chunk\<rparr>"] Cons
        by (simp add: conn_size_def)
    qed
  qed
qed

function serve ::
  "shim_msg codec \<Rightarrow> daemon_msg codec \<Rightarrow> ('s \<Rightarrow> shim_msg \<Rightarrow> 's \<times> daemon_msg option) \<Rightarrow> 's \<Rightarrow> connection
     \<Rightarrow> 's \<times> connection \<times> (transport_error + unit)" where
  "serve sm dm handler st c =
     (case conn_read sm c of
        (c1, Inl e) \<Rightarrow> (st, c1, Inl e)
      | (c1, Inr None) \<Rightarrow> (st, c1, Inr ())
      | (c1, Inr (Some msg)) \<Rightarrow>
          (case handler st msg of
             (st1, None) \<Rightarrow> serve sm dm handler st1 c1
           | (st1, Some reply) \<Rightarrow>
               (case conn_write dm c1 reply of
                  (c2, Inl e) \<Rightarrow> (st1, c2, Inl e)
                | (c2, Inr _) \<Rightarrow> serve sm dm handler st1 c2)))"
  by pat_completeness auto
termination
  by (relation "measure (\<lambda>(sm, dm, handler, st, c). conn_size c)")
    (auto simp: conn_write_def split: option.splits prod.splits dest!: conn_read_size sym[of _ "conn_read _ _"]
      simp: conn_size_def)

declare serve.simps [simp del]

function launcher_loop ::
  "launcher_request codec \<Rightarrow> launcher_reply codec \<Rightarrow> ('s \<Rightarrow> launcher_request \<Rightarrow> 's \<times> launcher_reply)
     \<Rightarrow> 's \<Rightarrow> connection \<Rightarrow> 's \<times> connection \<times> (transport_error + unit)" where
  "launcher_loop rq rp handler st c =
     (case conn_read rq c of
        (c1, Inl e) \<Rightarrow> (st, c1, Inl e)
      | (c1, Inr None) \<Rightarrow> (st, c1, Inr ())
      | (c1, Inr (Some req)) \<Rightarrow>
          (case handler st req of
             (st1, reply) \<Rightarrow>
               (case conn_write rp c1 reply of
                  (c2, Inl e) \<Rightarrow> (st1, c2, Inl e)
                | (c2, Inr _) \<Rightarrow> launcher_loop rq rp handler st1 c2)))"
  by pat_completeness auto
termination
  by (relation "measure (\<lambda>(rq, rp, handler, st, c). conn_size c)")
    (auto simp: conn_write_def split: option.splits prod.splits dest!: conn_read_size sym[of _ "conn_read _ _"]
      simp: conn_size_def)

declare launcher_loop.simps [simp del]

definition serve_launcher ::
  "launcher_request codec \<Rightarrow> launcher_reply codec \<Rightarrow> ('s \<Rightarrow> launcher_request \<Rightarrow> 's \<times> launcher_reply)
     \<Rightarrow> 's \<Rightarrow> connection \<Rightarrow> 's \<times> connection \<times> (transport_error + unit)" where
  "serve_launcher rq rp handler st c =
     (case conn_read rq c of
        (c1, Inl e) \<Rightarrow> (st, c1, Inl e)
      | (c1, Inr None) \<Rightarrow> (st, c1, Inl Truncated)
      | (c1, Inr (Some (LHello proto))) \<Rightarrow>
          (if proto = IPC_PROTO_VERSION
           then (case conn_write rp c1 (LWelcome IPC_PROTO_VERSION) of
                   (c2, Inl e) \<Rightarrow> (st, c2, Inl e)
                 | (c2, Inr _) \<Rightarrow> launcher_loop rq rp handler st c2)
           else (st, c1, Inl (Handshake ''protocol version mismatch'')))
      | (c1, Inr (Some _)) \<Rightarrow> (st, c1, Inl (Handshake ''expected Hello'')))"

section \<open>The launcher client\<close>

text \<open>Every call writes a request and reads one reply, which \<open>pick\<close> turns into the result.\<close>

definition client_call ::
  "launcher_request codec \<Rightarrow> launcher_reply codec \<Rightarrow> connection \<Rightarrow> launcher_request
     \<Rightarrow> (launcher_reply \<Rightarrow> transport_error + 'a) \<Rightarrow> connection \<times> (transport_error + 'a)" where
  "client_call rq rp c req pick =
     (case conn_write rq c req of
        (c1, Inl e) \<Rightarrow> (c1, Inl e)
      | (c1, Inr _) \<Rightarrow>
          (case conn_read rp c1 of
             (c2, Inl e) \<Rightarrow> (c2, Inl e)
           | (c2, Inr (Some reply)) \<Rightarrow> (c2, pick reply)
           | (c2, Inr None) \<Rightarrow> (c2, Inl Truncated)))"

definition client_connect ::
  "launcher_request codec \<Rightarrow> launcher_reply codec \<Rightarrow> connection \<Rightarrow> connection \<times> (transport_error + unit)" where
  "client_connect rq rp c = client_call rq rp c (LHello IPC_PROTO_VERSION)
     (\<lambda>r. case r of LWelcome proto \<Rightarrow> (if proto = IPC_PROTO_VERSION then Inr ()
                                      else Inl (Handshake ''protocol version mismatch''))
          | _ \<Rightarrow> Inl (Handshake ''expected Welcome''))"

definition client_list_apps ::
  "launcher_request codec \<Rightarrow> launcher_reply codec \<Rightarrow> connection
     \<Rightarrow> connection \<times> (transport_error + launchable_app list)" where
  "client_list_apps rq rp c = client_call rq rp c ListApps
     (\<lambda>r. case r of Apps apps \<Rightarrow> Inr apps | _ \<Rightarrow> Inl (Handshake ''expected Apps''))"

definition client_prepare_launch ::
  "launcher_request codec \<Rightarrow> launcher_reply codec \<Rightarrow> connection \<Rightarrow> app_id
     \<Rightarrow> connection \<times> (transport_error + launch_spec option)" where
  "client_prepare_launch rq rp c a = client_call rq rp c (PrepareLaunch a)
     (\<lambda>r. case r of ReplySpec spec \<Rightarrow> Inr spec | _ \<Rightarrow> Inl (Handshake ''expected LaunchSpec''))"

definition pick_launched :: "launcher_reply \<Rightarrow> transport_error + u32 option" where
  "pick_launched r = (case r of Launched pid \<Rightarrow> Inr pid | LaunchFailed e \<Rightarrow> Inl (TLaunchFailed e)
     | _ \<Rightarrow> Inl (Handshake ''expected Launched''))"

definition client_launch ::
  "launcher_request codec \<Rightarrow> launcher_reply codec \<Rightarrow> connection \<Rightarrow> app_id
     \<Rightarrow> connection \<times> (transport_error + u32 option)" where
  "client_launch rq rp c a = client_call rq rp c (LLaunch a) pick_launched"

definition client_enforcement ::
  "launcher_request codec \<Rightarrow> launcher_reply codec \<Rightarrow> connection
     \<Rightarrow> connection \<times> (transport_error + (string \<times> string) list)" where
  "client_enforcement rq rp c = client_call rq rp c LEnforcement
     (\<lambda>r. case r of ReplyEnforcement caps \<Rightarrow> Inr caps | _ \<Rightarrow> Inl (Handshake ''expected Enforcement''))"

definition client_status ::
  "launcher_request codec \<Rightarrow> launcher_reply codec \<Rightarrow> connection
     \<Rightarrow> connection \<times> (transport_error + launcher_status)" where
  "client_status rq rp c = client_call rq rp c LStatus
     (\<lambda>r. case r of ReplyStatus st \<Rightarrow> Inr st | _ \<Rightarrow> Inl (Handshake ''expected Status''))"

definition client_list_web_apps ::
  "launcher_request codec \<Rightarrow> launcher_reply codec \<Rightarrow> connection
     \<Rightarrow> connection \<times> (transport_error + web_app_info list)" where
  "client_list_web_apps rq rp c = client_call rq rp c ListWebApps
     (\<lambda>r. case r of WebApps apps \<Rightarrow> Inr apps | _ \<Rightarrow> Inl (Handshake ''expected WebApps''))"

definition client_launch_web ::
  "launcher_request codec \<Rightarrow> launcher_reply codec \<Rightarrow> connection \<Rightarrow> app_id
     \<Rightarrow> connection \<times> (transport_error + u32 option)" where
  "client_launch_web rq rp c a = client_call rq rp c (LaunchWeb a) pick_launched"

definition client_peek_audit ::
  "launcher_request codec \<Rightarrow> launcher_reply codec \<Rightarrow> connection
     \<Rightarrow> connection \<times> (transport_error + audit_event list)" where
  "client_peek_audit rq rp c = client_call rq rp c PeekAudit
     (\<lambda>r. case r of ReplyAudit evs \<Rightarrow> Inr evs | _ \<Rightarrow> Inl (Handshake ''expected Audit''))"

section \<open>Independence from chunking\<close>

lemma encode_frame: "encode pc m = frame_of pc m"
  by (simp add: encode_def frame_of_def Let_def)

lemma try_decode_full:
  "framable pc m \<Longrightarrow> try_decode pc (frame_of pc m @ x) = Inr (Some (m, length (frame_of pc m)))"
  by (simp add: try_decode_def framable_def frame_of_def le_val_4 Let_def)

lemma try_decode_partial:
  assumes "framable pc m" "frame_of pc m = buf @ ys" "ys \<noteq> []"
  shows "try_decode pc buf = Inr None"
proof -
  have l: "length buf < 4 + length (cd_enc pc m)"
    using arg_cong[OF assms(2), of length] assms(3) by (cases ys) auto
  have "le_val (take 4 buf) = length (cd_enc pc m)" if "4 \<le> length buf"
    using that arg_cong[OF assms(2), of "le_val \<circ> take 4"] assms(1)
    by (simp add: frame_of_def framable_def le_val_4)
  then show ?thesis using l assms(1) by (auto simp: try_decode_def framable_def Let_def)
qed

text \<open>The bytes a connection still holds and will still read, when its stream has no errors.\<close>

definition conn_stream :: "connection \<Rightarrow> bytes list \<Rightarrow> bytes \<Rightarrow> bool" where
  "conn_stream c chunks bs =
     (cn_reads c = map Inr chunks \<and> list_all (\<lambda>b. b \<noteq> []) chunks \<and> cn_buf c @ concat chunks = bs)"

lemma append_split:
  assumes "xs @ ys = zs @ ws"
  shows "(\<exists>us. xs = zs @ us \<and> us @ ys = ws) \<or> (\<exists>us. zs = xs @ us \<and> us \<noteq> [])"
proof -
  from assms obtain us where "xs = zs @ us \<and> us @ ys = ws \<or> xs @ us = zs \<and> ys = us @ ws"
    unfolding append_eq_append_conv2 by blast
  then show ?thesis by (cases "us = []") auto
qed

lemma conn_read_stream:
  assumes "framable pc m" "conn_stream c chunks (frame_of pc m @ rest)"
  shows "\<exists>c' chunks'. conn_read pc c = (c', Inr (Some m)) \<and> conn_stream c' chunks' rest \<and>
    cn_written c' = cn_written c \<and> cn_write_err c' = cn_write_err c \<and> cn_cred c' = cn_cred c"
  using assms(2)
proof (induction chunks arbitrary: c)
  case Nil
  then have "cn_buf c = frame_of pc m @ rest" "cn_reads c = []" by (auto simp: conn_stream_def)
  then show ?case
    using conn_read_ready[of pc c m] try_decode_full[OF assms(1)]
    by (auto simp: conn_stream_def intro!: exI[of _ "[]"])
next
  case (Cons b chunks)
  have r: "cn_reads c = Inr b # map Inr chunks" "b \<noteq> []" "list_all (\<lambda>b. b \<noteq> []) chunks"
    and e: "cn_buf c @ b @ concat chunks = frame_of pc m @ rest"
    using Cons.prems by (auto simp: conn_stream_def)
  from e consider (full) us where "cn_buf c = frame_of pc m @ us" "us @ b @ concat chunks = rest"
    | (part) us where "frame_of pc m = cn_buf c @ us" "us \<noteq> []"
    using append_split[of "cn_buf c" "b @ concat chunks" "frame_of pc m" rest] by blast
  then show ?case
  proof cases
    case full
    then show ?thesis
      using conn_read_ready[of pc c m] try_decode_full[OF assms(1), of us] r
      by (auto simp: conn_stream_def intro!: exI[of _ "b # chunks"])
  next
    case part
    let ?c = "c\<lparr>cn_reads := map Inr chunks, cn_buf := cn_buf c @ b\<rparr>"
    have "conn_read pc c = conn_read pc ?c"
      using try_decode_partial[OF assms(1) part] r by (simp add: conn_read_chunk)
    moreover have "conn_stream ?c chunks (frame_of pc m @ rest)"
      using e r by (simp add: conn_stream_def)
    ultimately show ?thesis using Cons.IH[of ?c] by simp
  qed
qed

lemma conn_read_stream_end:
  "conn_stream c chunks [] \<Longrightarrow> conn_read pc c = (c, Inr None)"
  by (cases chunks) (auto simp: conn_stream_def conn_eof_def conn_read_eof try_decode_def)

fun run_handler :: "('s \<Rightarrow> 'm \<Rightarrow> 's \<times> 'r option) \<Rightarrow> 's \<Rightarrow> 'm list \<Rightarrow> 's \<times> 'r list" where
  "run_handler h st [] = (st, [])"
| "run_handler h st (m # ms) =
     (let (st1, r) = h st m; (st2, rs) = run_handler h st1 ms
      in (st2, (case r of None \<Rightarrow> [] | Some x \<Rightarrow> [x]) @ rs))"

lemma serve_stream:
  assumes "list_all (framable sm) msgs" "conn_stream c chunks (concat (map (encode sm) msgs))"
    and "cn_write_err c = None"
  shows "\<exists>c'. serve sm dm h st c = (fst (run_handler h st msgs), c', Inr ()) \<and>
    cn_written c' = cn_written c @ concat (map (encode dm) (snd (run_handler h st msgs)))"
  using assms
proof (induction msgs arbitrary: st c chunks)
  case Nil
  then show ?case by (subst serve.simps) (simp add: conn_read_stream_end)
next
  case (Cons m msgs)
  obtain c1 ch1 where c1: "conn_read sm c = (c1, Inr (Some m))"
    "conn_stream c1 ch1 (concat (map (encode sm) msgs))"
    "cn_written c1 = cn_written c" "cn_write_err c1 = None"
    using conn_read_stream[of sm m c chunks "concat (map (encode sm) msgs)"] Cons.prems
    unfolding list.map concat.simps encode_frame[of sm m] by auto
  obtain st1 r where h: "h st m = (st1, r)" by fastforce
  let ?c2 = "case r of None \<Rightarrow> c1 | Some x \<Rightarrow> c1\<lparr>cn_written := cn_written c1 @ encode dm x\<rparr>"
  have "serve sm dm h st c = serve sm dm h st1 ?c2"
    using c1 h by (subst serve.simps) (simp add: conn_write_def split: option.splits)
  moreover have "conn_stream ?c2 ch1 (concat (map (encode sm) msgs))" "cn_write_err ?c2 = None"
    using c1(2,4) by (auto simp: conn_stream_def split: option.splits)
  ultimately show ?case
    using Cons.IH[of ?c2 ch1 st1] Cons.prems(1) h c1(3)
    by (auto split: option.splits prod.splits)
qed

text \<open>
  (C36) The shim service loop is independent of how the stream is cut into chunks. If the bytes
  buffered and still to be read are the whole frames of \<open>msgs\<close>, in any non-empty chunks, the loop handles
  exactly \<open>msgs\<close>, in order and each once, writes exactly the frames of the handler's replies, in
  order, and ends without error at the end of the stream.
\<close>

theorem serve_chunking_independent:
  assumes "list_all (framable sm) msgs" "cn_write_err c = None"
    and "cn_reads c = map Inr chunks" "list_all (\<lambda>b. b \<noteq> []) chunks"
    and "cn_buf c @ concat chunks = concat (map (encode sm) msgs)"
  shows "\<exists>c'. serve sm dm h st c = (fst (run_handler h st msgs), c', Inr ()) \<and>
    cn_written c' = cn_written c @ concat (map (encode dm) (snd (run_handler h st msgs)))"
  using assms by (intro serve_stream) (auto simp: conn_stream_def)

text \<open>A heartbeat whose frame arrives in two pieces, with a handler that counts messages.\<close>

definition heartbeat_codec :: "shim_msg codec" where
  "heartbeat_codec = \<lparr>cd_enc = (\<lambda>_. [4]), cd_dec = (\<lambda>_. Some Heartbeat)\<rparr>"

definition welcome_codec :: "daemon_msg codec" where
  "welcome_codec = \<lparr>cd_enc = (\<lambda>_. [6]), cd_dec = (\<lambda>_. Some (DWelcome 7))\<rparr>"

theorem serve_chunking_independent_witness:
  "\<exists>c'. serve heartbeat_codec welcome_codec (\<lambda>n m. (n + 1, Some (DWelcome 7))) (0 :: nat)
     \<lparr>cn_reads = [Inr [1, 0], Inr [0, 0, 4]], cn_buf = [], cn_written = [], cn_write_err = None,
      cn_cred = Inl Truncated\<rparr> = (1, c', Inr ()) \<and> cn_written c' = [1, 0, 0, 0, 6]"
  using serve_chunking_independent[of heartbeat_codec "[Heartbeat]"
      "\<lparr>cn_reads = [Inr [1, 0], Inr [0, 0, 4]], cn_buf = [], cn_written = [], cn_write_err = None,
      cn_cred = Inl Truncated\<rparr>" "[[1, 0], [0, 0, 4]]" welcome_codec
      "\<lambda>n m. (n + 1, Some (DWelcome 7))" "0 :: nat"]
  by (simp add: framable_def heartbeat_codec_def welcome_codec_def MAX_FRAME_def encode_def le_bytes_4)

text \<open>
  A peer is admitted exactly when its credentials are known, the first message is a hello of
  this protocol version and the authenticator accepts the credentials with the hello's nonce; it is
  then welcomed. No other first message, version or nonce gets through.
\<close>

theorem server_handshake_exact:
  "server_handshake sm dm auth c = (c2, Inr cred) \<longleftrightarrow>
     (\<exists>c1 nonce. cn_cred c = Inr cred \<and>
        conn_read sm c = (c1, Inr (Some (ShimHello IPC_PROTO_VERSION nonce))) \<and>
        auth cred nonce \<and> conn_write dm c1 (DWelcome IPC_PROTO_VERSION) = (c2, Inr ()))"
proof -
  obtain c1 r where r: "conn_read sm c = (c1, r)" by fastforce
  show ?thesis
  proof (cases "\<exists>p n. r = Inr (Some (ShimHello p n))")
    case True
    then show ?thesis
      by (auto simp: server_handshake_def peer_cred_of_def r
          split: sum.splits prod.splits if_splits)
  next
    case False
    then show ?thesis
      by (auto simp: server_handshake_def peer_cred_of_def r
          split: sum.splits option.splits shim_msg.splits)
  qed
qed

end
