(* ===== verification/Split_Router.thy ===== *)
theory Split_Router
  imports Decide
begin

text \<open>
  Crate \<open>clave-net\<close>: the split router (\<open>router.rs\<close>), the tunnel interface (\<open>lib.rs\<close>) with its
  loopback implementation (\<open>loopback.rs\<close>) and the choice of an egress seam (\<open>provider.rs\<close>). The
  tunnel is a record of operations; the locale \<open>tunnel\<close> is its contract between two peers. The
  router is shown to be fail-closed: a packet leaves outside the tunnel only on a flow that was
  classified as direct when it was opened.
\<close>

section \<open>Tunnels\<close>

datatype tunnel_out = SendToGateway bytes | TOIdle

datatype inbound = ToProcess bytes | InToGateway bytes | InIdle

record 't tunnel_ops =
  tn_encapsulate :: "'t \<Rightarrow> bytes \<Rightarrow> 't \<times> tunnel_out"
  tn_decapsulate :: "'t \<Rightarrow> bytes \<Rightarrow> 't \<times> inbound"
  tn_poll_outgoing :: "'t \<Rightarrow> 't \<times> bytes option"
  tn_update_timers :: "'t \<Rightarrow> 't \<times> bytes option"
  tn_is_established :: "'t \<Rightarrow> bool"

record loopback_tunnel =
  lt_key :: u8

definition loopback_tunnel_new :: "u8 \<Rightarrow> loopback_tunnel" where
  "loopback_tunnel_new k = \<lparr>lt_key = k\<rparr>"

definition lt_encapsulate :: "loopback_tunnel \<Rightarrow> bytes \<Rightarrow> loopback_tunnel \<times> tunnel_out" where
  "lt_encapsulate t pkt =
     (if pkt = [] then (t, TOIdle) else (t, SendToGateway (map (\<lambda>b. b XOR lt_key t) pkt)))"

definition lt_decapsulate :: "loopback_tunnel \<Rightarrow> bytes \<Rightarrow> loopback_tunnel \<times> inbound" where
  "lt_decapsulate t dgram =
     (if dgram = [] then (t, InIdle) else (t, ToProcess (map (\<lambda>b. b XOR lt_key t) dgram)))"

definition loopback_ops :: "loopback_tunnel tunnel_ops" where
  "loopback_ops = \<lparr>tn_encapsulate = lt_encapsulate, tn_decapsulate = lt_decapsulate,
     tn_poll_outgoing = (\<lambda>t. (t, None)), tn_update_timers = (\<lambda>t. (t, None)),
     tn_is_established = (\<lambda>_. True)\<rparr>"

section \<open>The router\<close>

type_synonym flow_id = u64

datatype flow_disposition = FTunnel | FDirect | FBlock | HeldOffline

fun disposition_of :: "route \<Rightarrow> flow_disposition" where
  "disposition_of RTunnel = FTunnel"
| "disposition_of RDirect = FDirect"
| "disposition_of RBlock = FBlock"

datatype outbound = ToGateway bytes | PassThroughOut | OutIdle | Dropped

record 't split_router =
  sr_tunnel :: 't
  sr_flows :: "(flow_id, flow_disposition) hmap"

definition net_route :: "proc_id \<Rightarrow> zone_registry \<Rightarrow> bool \<Rightarrow> route" where
  "net_route p zones dst_blocked = classify_flow p zones dst_blocked"

definition route_dns :: "proc_id \<Rightarrow> zone_registry \<Rightarrow> string \<Rightarrow> dns_steering option \<Rightarrow> route" where
  "route_dns p zones qname steering = classify_dns_flow p zones qname steering"

definition router_new :: "'t \<Rightarrow> 't split_router" where
  "router_new t = \<lparr>sr_tunnel = t, sr_flows = []\<rparr>"

definition link_is_up :: "'t tunnel_ops \<Rightarrow> 't split_router \<Rightarrow> bool" where
  "link_is_up ops r = tn_is_established ops (sr_tunnel r)"

definition router_resolve :: "'t tunnel_ops \<Rightarrow> 't split_router \<Rightarrow> route \<Rightarrow> flow_disposition" where
  "router_resolve ops r rt =
     (if rt = RTunnel \<and> \<not> tn_is_established ops (sr_tunnel r) then HeldOffline else disposition_of rt)"

definition open_flow ::
  "'t tunnel_ops \<Rightarrow> 't split_router \<Rightarrow> flow_id \<Rightarrow> proc_id \<Rightarrow> zone_registry \<Rightarrow> bool
     \<Rightarrow> 't split_router \<times> flow_disposition" where
  "open_flow ops r i p zones dst_blocked =
     (let d = router_resolve ops r (net_route p zones dst_blocked)
      in (r\<lparr>sr_flows := hm_insert (sr_flows r) i d\<rparr>, d))"

definition open_dns_flow ::
  "'t tunnel_ops \<Rightarrow> 't split_router \<Rightarrow> flow_id \<Rightarrow> proc_id \<Rightarrow> zone_registry \<Rightarrow> string
     \<Rightarrow> dns_steering option \<Rightarrow> 't split_router \<times> flow_disposition" where
  "open_dns_flow ops r i p zones qname steering =
     (let d = router_resolve ops r (route_dns p zones qname steering)
      in (r\<lparr>sr_flows := hm_insert (sr_flows r) i d\<rparr>, d))"

definition flow_disposition_of :: "'t split_router \<Rightarrow> flow_id \<Rightarrow> flow_disposition option" where
  "flow_disposition_of r i = hm_get (sr_flows r) i"

definition open_flow_count :: "'t split_router \<Rightarrow> nat" where
  "open_flow_count r = length (sr_flows r)"

definition close_flow :: "'t split_router \<Rightarrow> flow_id \<Rightarrow> 't split_router" where
  "close_flow r i = r\<lparr>sr_flows := hm_remove (sr_flows r) i\<rparr>"

definition router_outbound ::
  "'t tunnel_ops \<Rightarrow> 't split_router \<Rightarrow> flow_id \<Rightarrow> bytes \<Rightarrow> 't split_router \<times> outbound" where
  "router_outbound ops r i pkt =
     (if hm_get (sr_flows r) i = Some FTunnel \<or> hm_get (sr_flows r) i = Some HeldOffline
      then (case tn_encapsulate ops (sr_tunnel r) pkt of
              (t, SendToGateway d) \<Rightarrow> (r\<lparr>sr_tunnel := t\<rparr>, ToGateway d)
            | (t, TOIdle) \<Rightarrow> (r\<lparr>sr_tunnel := t\<rparr>, OutIdle))
      else if hm_get (sr_flows r) i = Some FDirect then (r, PassThroughOut)
      else (r, Dropped))"

definition router_inbound :: "'t tunnel_ops \<Rightarrow> 't split_router \<Rightarrow> bytes \<Rightarrow> 't split_router \<times> inbound" where
  "router_inbound ops r dgram =
     (let (t, x) = tn_decapsulate ops (sr_tunnel r) dgram in (r\<lparr>sr_tunnel := t\<rparr>, x))"

definition router_poll_outgoing :: "'t tunnel_ops \<Rightarrow> 't split_router \<Rightarrow> 't split_router \<times> bytes option" where
  "router_poll_outgoing ops r =
     (let (t, x) = tn_poll_outgoing ops (sr_tunnel r) in (r\<lparr>sr_tunnel := t\<rparr>, x))"

definition router_tick :: "'t tunnel_ops \<Rightarrow> 't split_router \<Rightarrow> 't split_router \<times> bytes option" where
  "router_tick ops r =
     (let (t, x) = tn_update_timers ops (sr_tunnel r) in (r\<lparr>sr_tunnel := t\<rparr>, x))"

section \<open>Egress seams\<close>

datatype 't egress_seam = Packet 't | SeamDnsOnly

datatype seam_error =
    SeamInvalid provider_error | SeamUnsupported forward_mode | MissingKeys | Backend string

record gateway_config =
  gc_private_key :: bytes
  gc_peer_public_key :: bytes
  gc_endpoint :: string
  gc_static_egress_ip :: "string option"

definition gateway_config_new :: "bytes \<Rightarrow> bytes \<Rightarrow> string \<Rightarrow> gateway_config" where
  "gateway_config_new sk pk endpoint =
     \<lparr>gc_private_key = sk, gc_peer_public_key = pk, gc_endpoint = endpoint, gc_static_egress_ip = None\<rparr>"

text \<open>
  The WireGuard tunnel is built by the \<open>boringtun\<close> crate: \<open>wg_new\<close>, absent when the feature is not
  compiled in.
\<close>

definition build_wireguard ::
  "(gateway_config \<Rightarrow> u32 \<Rightarrow> string + 't) option \<Rightarrow> gateway_config option \<Rightarrow> u32
     \<Rightarrow> seam_error + 't egress_seam" where
  "build_wireguard wg_new wg index =
     (case wg_new of
        None \<Rightarrow> Inl (SeamUnsupported Wireguard)
      | Some mk \<Rightarrow> rbind (ok_or wg MissingKeys) (\<lambda>cfg. rbind (map_err Backend (mk cfg index)) (\<lambda>t. Inr (Packet t))))"

definition build_egress ::
  "(gateway_config \<Rightarrow> u32 \<Rightarrow> string + 't) option \<Rightarrow> network_provider \<Rightarrow> gateway_config option \<Rightarrow> u32
     \<Rightarrow> seam_error + 't egress_seam" where
  "build_egress wg_new provider wg index =
     rbind (map_err SeamInvalid (provider_forwarding provider)) (\<lambda>_.
       case np_mode provider of
         Wireguard \<Rightarrow> build_wireguard wg_new wg index
       | Dns \<Rightarrow> Inr SeamDnsOnly
       | Ipsec \<Rightarrow> Inl (SeamUnsupported Ipsec)
       | ExplicitProxy \<Rightarrow> Inl (SeamUnsupported ExplicitProxy))"

section \<open>The tunnel's contract\<close>

locale tunnel =
  fixes ops :: "'t tunnel_ops"
    and paired :: "'t \<Rightarrow> 't \<Rightarrow> bool"
  assumes round_trip: "paired a b \<Longrightarrow> tn_encapsulate ops a pkt = (a', SendToGateway w) \<Longrightarrow>
      snd (tn_decapsulate ops b w) = ToProcess pkt"
begin

lemma outbound_reaches_peer:
  assumes "paired (sr_tunnel r) b" "router_outbound ops r i pkt = (r', ToGateway w)"
  shows "snd (tn_decapsulate ops b w) = ToProcess pkt \<and>
    (flow_disposition_of r i = Some FTunnel \<or> flow_disposition_of r i = Some HeldOffline)"
  using assms round_trip
  by (auto simp: router_outbound_def flow_disposition_of_def split: if_splits prod.splits tunnel_out.splits)

end

lemma xor_twice: "map ((\<lambda>b. b XOR k) \<circ> (\<lambda>b. b XOR k)) bs = (bs :: bytes)"
  by (induction bs) (auto simp: xor.assoc)

interpretation lbt: tunnel loopback_ops "\<lambda>a b. lt_key a = lt_key b"
  by unfold_locales
    (auto simp: loopback_ops_def lt_encapsulate_def lt_decapsulate_def xor_twice
      split: if_splits)

section \<open>The router is fail-closed\<close>

datatype router_event =
    OpenFlow flow_id proc_id zone_registry bool
  | OpenDns flow_id proc_id zone_registry string "dns_steering option"
  | CloseFlow flow_id
  | OutPkt flow_id bytes
  | InPkt bytes
  | PollOut
  | Tick

fun router_apply :: "'t tunnel_ops \<Rightarrow> 't split_router \<Rightarrow> router_event \<Rightarrow> 't split_router" where
  "router_apply ops r (OpenFlow i p z b) = fst (open_flow ops r i p z b)"
| "router_apply ops r (OpenDns i p z q s) = fst (open_dns_flow ops r i p z q s)"
| "router_apply ops r (CloseFlow i) = close_flow r i"
| "router_apply ops r (OutPkt i pkt) = fst (router_outbound ops r i pkt)"
| "router_apply ops r (InPkt d) = fst (router_inbound ops r d)"
| "router_apply ops r PollOut = fst (router_poll_outgoing ops r)"
| "router_apply ops r Tick = fst (router_tick ops r)"

text \<open>The route an event gives to a flow: none for a close, no change for everything else.\<close>

fun event_route :: "flow_id \<Rightarrow> router_event \<Rightarrow> route option option" where
  "event_route j (OpenFlow i p z b) = (if i = j then Some (Some (classify_flow p z b)) else None)"
| "event_route j (OpenDns i p z q s) = (if i = j then Some (Some (classify_dns_flow p z q s)) else None)"
| "event_route j (CloseFlow i) = (if i = j then Some None else None)"
| "event_route j _ = None"

fun flow_route :: "flow_id \<Rightarrow> router_event list \<Rightarrow> route option" where
  "flow_route j [] = None"
| "flow_route j (e # es) = (case event_route j e of Some r \<Rightarrow> r | None \<Rightarrow> flow_route j es)"

fun route_of_disposition :: "flow_disposition \<Rightarrow> route" where
  "route_of_disposition FTunnel = RTunnel"
| "route_of_disposition HeldOffline = RTunnel"
| "route_of_disposition FDirect = RDirect"
| "route_of_disposition FBlock = RBlock"

lemma route_of_resolve: "route_of_disposition (router_resolve ops r rt) = rt"
  by (cases rt) (auto simp: router_resolve_def)

lemma flows_outbound: "sr_flows (fst (router_outbound ops r i pkt)) = sr_flows r"
  by (auto simp: router_outbound_def split: prod.splits tunnel_out.splits)

lemma router_step:
  "map_option route_of_disposition (flow_disposition_of (router_apply ops r e) j) =
     (case event_route j e of
        Some x \<Rightarrow> x | None \<Rightarrow> map_option route_of_disposition (flow_disposition_of r j))"
  by (cases e)
    (auto simp: flow_disposition_of_def open_flow_def open_dns_flow_def close_flow_def Let_def
      route_of_resolve net_route_def route_dns_def flows_outbound router_inbound_def
      router_poll_outgoing_def router_tick_def split: prod.splits)

lemma router_history:
  "map_option route_of_disposition (flow_disposition_of (foldl (router_apply ops) (router_new t) es) j)
     = flow_route j (rev es)"
proof (induction es rule: rev_induct)
  case Nil
  then show ?case by (simp add: flow_disposition_of_def router_new_def)
next
  case (snoc e es)
  then show ?case by (simp add: router_step split: option.splits)
qed

lemma outbound_by_route:
  "snd (router_outbound ops r i pkt) = PassThroughOut \<longleftrightarrow>
     map_option route_of_disposition (flow_disposition_of r i) = Some RDirect"
  "snd (router_outbound ops r i pkt) = Dropped \<longleftrightarrow>
     map_option route_of_disposition (flow_disposition_of r i) \<in> {None, Some RBlock}"
  by (cases "hm_get (sr_flows r) i"; cases "the (hm_get (sr_flows r) i)";
      auto simp: router_outbound_def flow_disposition_of_def split: prod.splits tunnel_out.splits)+

text \<open>
  (C8) The split tunnel fails closed. After any sequence of flow openings, closings, packets and
  timer ticks, through any tunnel and whether its link is up or not, a packet of a flow leaves
  directly exactly when the latest opening of the flow classified it as direct (and it was not
  closed since), and is dropped exactly when it was classified as blocked or the flow is not open.
  In particular no packet of a flow opened by a supervised process ever bypasses the tunnel, except
  a DNS query the policy does not steer.
\<close>

theorem router_fails_closed:
  "(snd (router_outbound ops (foldl (router_apply ops) (router_new t) es) i pkt) = PassThroughOut \<longleftrightarrow>
      flow_route i (rev es) = Some RDirect) \<and>
   (snd (router_outbound ops (foldl (router_apply ops) (router_new t) es) i pkt) = Dropped \<longleftrightarrow>
      flow_route i (rev es) \<in> {None, Some RBlock}) \<and>
   (flow_route i (rev (es @ [OpenFlow i p z b])) = Some RDirect \<longleftrightarrow> p \<notin> zone_set z)"
  unfolding outbound_by_route router_history
  by (simp add: classify_flow_def zone_set_def)

text \<open>
  What the router sends through the loopback tunnel is what the gateway end receives: a packet
  handed to a tunnelled flow is obscured on the wire and decapsulates to itself at a gateway with
  the same key.
\<close>

theorem router_tunnel_round_trip:
  assumes "router_outbound loopback_ops r i pkt = (r', ToGateway w)" "lt_key g = lt_key (sr_tunnel r)"
  shows "snd (lt_decapsulate g w) = ToProcess pkt \<and> w = map (\<lambda>b. b XOR lt_key g) pkt"
proof -
  have "snd (tn_decapsulate loopback_ops g w) = ToProcess pkt"
    using lbt.outbound_reaches_peer[of r g i pkt r' w] assms by simp
  moreover have "w = map (\<lambda>b. b XOR lt_key g) pkt"
    using assms by (auto simp: router_outbound_def loopback_ops_def lt_encapsulate_def split: if_splits)
  ultimately show ?thesis by (simp add: loopback_ops_def)
qed

text \<open>A one-byte packet of a tunnelled flow, with key 5.\<close>

theorem router_tunnel_round_trip_witness:
  "snd (lt_decapsulate (loopback_tunnel_new 5) [6]) = ToProcess [3]"
  using router_tunnel_round_trip[of "\<lparr>sr_tunnel = loopback_tunnel_new 5, sr_flows = [(1, FTunnel)]\<rparr>" 1
      "[3]" "\<lparr>sr_tunnel = loopback_tunnel_new 5, sr_flows = [(1, FTunnel)]\<rparr>" "[6]" "loopback_tunnel_new 5"]
  by (simp add: router_outbound_def loopback_ops_def lt_encapsulate_def loopback_tunnel_new_def hm_get_def)

end
