(* ===== verification/Volume.thy ===== *)
theory Volume
  imports Zone Ext
begin

text \<open>
  Crate \<open>clave-volume\<close>: the encrypted container (\<open>volume.rs\<close>), its backing store
  (\<open>container.rs\<close>), key store (\<open>store.rs\<close>), key wrapping (\<open>keys.rs\<close>), sealing of keys to a
  device (\<open>seal.rs\<close>) and the sector cipher (\<open>xts.rs\<close>). The store traits are records of
  operations; the locales \<open>backing_store\<close> and \<open>key_store\<close> state their contracts and are
  interpreted on the in-memory implementations. AES-KW, XTS and X25519 are parameters.
\<close>

section \<open>Errors, keys and ciphers\<close>

datatype volume_error =
    AccessDenied | Locked | KeyDestroyed | KeyUnwrap | SealFailed | Rng | WipeMarkerSet
  | OutOfRange | Misaligned | VolIo string

fun volume_error_display :: "volume_error \<Rightarrow> string" where
  "volume_error_display AccessDenied = ''access denied: caller is not in the work zone''"
| "volume_error_display Locked = ''volume is locked''"
| "volume_error_display KeyDestroyed = ''wrapped key destroyed or never provisioned''"
| "volume_error_display KeyUnwrap = ''key unwrap failed (wrong KEK or corrupted key)''"
| "volume_error_display SealFailed = ''sealed-box seal/open failed (invalid public key)''"
| "volume_error_display Rng = ''OS RNG unavailable for key generation''"
| "volume_error_display WipeMarkerSet = ''wipe marker set: refusing to mount''"
| "volume_error_display OutOfRange = ''sector out of range''"
| "volume_error_display Misaligned = ''buffer is not sector-aligned''"
| "volume_error_display (VolIo e) = ''backing I/O error: '' @ e"

definition DEK_LEN :: nat where "DEK_LEN = 64"
definition KEK_LEN :: nat where "KEK_LEN = 32"
definition WRAPPED_DEK_LEN :: nat where "WRAPPED_DEK_LEN = DEK_LEN + 8"
definition SECTOR_SIZE :: nat where "SECTOR_SIZE = 4096"

datatype dek = Dek (dek_bytes: bytes)
datatype kek = Kek (kek_bytes: bytes)
datatype wrapped_dek = WrappedDek (wrapped_bytes: bytes)

text \<open>The source of randomness is an argument: the bytes it gives, or nothing when it fails.\<close>

definition dek_generate :: "bytes option \<Rightarrow> volume_error + dek" where
  "dek_generate rng = (case rng of None \<Rightarrow> Inl Rng | Some b \<Rightarrow> Inr (Dek b))"

definition kek_generate :: "bytes option \<Rightarrow> volume_error + kek" where
  "kek_generate rng = (case rng of None \<Rightarrow> Inl Rng | Some b \<Rightarrow> Inr (Kek b))"

definition data_key :: "dek \<Rightarrow> bytes" where
  "data_key d = take 32 (dek_bytes d)"

definition tweak_key :: "dek \<Rightarrow> bytes" where
  "tweak_key d = drop 32 (dek_bytes d)"

record aes_kw =
  kw_wrap :: "bytes \<Rightarrow> bytes \<Rightarrow> bytes"
  kw_unwrap :: "bytes \<Rightarrow> bytes \<Rightarrow> bytes option"

definition aes_kw_correct :: "aes_kw \<Rightarrow> bool" where
  "aes_kw_correct kw = (\<forall>k d. kw_unwrap kw k (kw_wrap kw k d) = Some d)"

definition kek_wrap :: "aes_kw \<Rightarrow> kek \<Rightarrow> dek \<Rightarrow> wrapped_dek" where
  "kek_wrap kw k d = WrappedDek (kw_wrap kw (kek_bytes k) (dek_bytes d))"

definition kek_unwrap :: "aes_kw \<Rightarrow> kek \<Rightarrow> wrapped_dek \<Rightarrow> volume_error + dek" where
  "kek_unwrap kw k w =
     (case kw_unwrap kw (kek_bytes k) (wrapped_bytes w) of
        None \<Rightarrow> Inl KeyUnwrap | Some b \<Rightarrow> Inr (Dek b))"

lemma kek_unwrap_wrap: "aes_kw_correct kw \<Longrightarrow> kek_unwrap kw k (kek_wrap kw k d) = Inr d"
  by (simp add: aes_kw_correct_def kek_unwrap_def kek_wrap_def)

text \<open>
  XTS on areas: \<open>xt_enc data_key tweak_key first_sector area\<close>. What the volume relies on, for an area of
  whole sectors whose indices fit 64 bits (the library counts them in 128 bits, so they do not wrap):
  the area keeps its length, decryption inverts encryption, and sectors are processed one by one, each
  with its own index. Nothing is assumed of other areas.
\<close>

record xts =
  xt_enc :: "bytes \<Rightarrow> bytes \<Rightarrow> u64 \<Rightarrow> bytes \<Rightarrow> bytes"
  xt_dec :: "bytes \<Rightarrow> bytes \<Rightarrow> u64 \<Rightarrow> bytes \<Rightarrow> bytes"

definition xts_area :: "u64 \<Rightarrow> bytes \<Rightarrow> bool" where
  "xts_area s a \<longleftrightarrow> (\<exists>n. length a = n * SECTOR_SIZE \<and> unat s + n \<le> 2 ^ 64)"

definition xts_correct :: "xts \<Rightarrow> bool" where
  "xts_correct x =
     (\<forall>dk tk s a. xts_area s a \<longrightarrow>
        length (xt_enc x dk tk s a) = length a \<and> length (xt_dec x dk tk s a) = length a \<and>
        xt_dec x dk tk s (xt_enc x dk tk s a) = a \<and>
        (\<forall>b c. a = b @ c \<and> length b = SECTOR_SIZE \<and> c \<noteq> [] \<longrightarrow>
           xt_enc x dk tk s a = xt_enc x dk tk s b @ xt_enc x dk tk (s + 1) c \<and>
           xt_dec x dk tk s a = xt_dec x dk tk s b @ xt_dec x dk tk (s + 1) c))"

datatype xts_cipher = XtsCipher (xc_data: bytes) (xc_tweak: bytes)

definition xts_new :: "dek \<Rightarrow> xts_cipher" where
  "xts_new d = XtsCipher (data_key d) (tweak_key d)"

definition xts_encrypt :: "xts \<Rightarrow> xts_cipher \<Rightarrow> bytes \<Rightarrow> u64 \<Rightarrow> bytes" where
  "xts_encrypt x c buf first_sector = xt_enc x (xc_data c) (xc_tweak c) first_sector buf"

definition xts_decrypt :: "xts \<Rightarrow> xts_cipher \<Rightarrow> bytes \<Rightarrow> u64 \<Rightarrow> bytes" where
  "xts_decrypt x c buf first_sector = xt_dec x (xc_data c) (xc_tweak c) first_sector buf"

section \<open>Sealing a key to a device\<close>

record x25519 =
  dh_public :: "bytes \<Rightarrow> bytes option"
  dh_shared :: "bytes \<Rightarrow> bytes \<Rightarrow> bytes option"

text \<open>Diffie-Hellman: two key pairs agree on the shared secret.\<close>

definition x25519_correct :: "x25519 \<Rightarrow> bool" where
  "x25519_correct x =
     (\<forall>a b pa pb. dh_public x a = Some pa \<longrightarrow> dh_public x b = Some pb \<longrightarrow>
        dh_shared x pa b = dh_shared x pb a)"

record device_sealing_key =
  ds_secret :: bytes
  ds_public :: bytes

definition sealing_key_from_secret :: "x25519 \<Rightarrow> bytes \<Rightarrow> volume_error + device_sealing_key" where
  "sealing_key_from_secret x secret =
     (case dh_public x secret of
        None \<Rightarrow> Inl SealFailed
      | Some p \<Rightarrow> Inr \<lparr>ds_secret = secret, ds_public = p\<rparr>)"

record sealed_dek =
  sd_ephemeral_pub :: bytes
  sd_wrapped :: wrapped_dek

definition SEAL_KDF_CONTEXT :: bytes where
  "SEAL_KDF_CONTEXT = str_bytes ''clave-volume/seal/v1''"

definition derive_kek :: "sha256 \<Rightarrow> bytes \<Rightarrow> bytes \<Rightarrow> bytes \<Rightarrow> kek" where
  "derive_kek sha shared ephemeral_pub device_pub =
     Kek (sha (SEAL_KDF_CONTEXT @ ephemeral_pub @ device_pub @ shared))"

text \<open>The ephemeral key pair that \<open>KeyPair::generate\<close> makes is an argument.\<close>

definition seal_dek ::
  "sha256 \<Rightarrow> aes_kw \<Rightarrow> x25519 \<Rightarrow> device_sealing_key \<Rightarrow> bytes \<Rightarrow> dek \<Rightarrow> volume_error + sealed_dek" where
  "seal_dek sha kw x ephemeral device_pub d =
     (case dh_shared x device_pub (ds_secret ephemeral) of
        None \<Rightarrow> Inl SealFailed
      | Some shared \<Rightarrow>
          (let ephemeral_pub = ds_public ephemeral;
               k = derive_kek sha shared ephemeral_pub device_pub
           in Inr \<lparr>sd_ephemeral_pub = ephemeral_pub, sd_wrapped = kek_wrap kw k d\<rparr>))"

definition open_dek ::
  "sha256 \<Rightarrow> aes_kw \<Rightarrow> x25519 \<Rightarrow> device_sealing_key \<Rightarrow> sealed_dek \<Rightarrow> volume_error + dek" where
  "open_dek sha kw x device sealed =
     (case dh_shared x (sd_ephemeral_pub sealed) (ds_secret device) of
        None \<Rightarrow> Inl SealFailed
      | Some shared \<Rightarrow>
          kek_unwrap kw (derive_kek sha shared (sd_ephemeral_pub sealed) (ds_public device))
            (sd_wrapped sealed))"

section \<open>Containers and stores\<close>

datatype container_id = ContainerId (container_num: u128)

record container_meta =
  cm_id :: container_id
  cm_key_version :: u32

definition container_meta_new :: "container_id \<Rightarrow> container_meta" where
  "container_meta_new i = \<lparr>cm_id = i, cm_key_version = 1\<rparr>"

record 'b backing_ops =
  bo_read :: "'b \<Rightarrow> u64 \<Rightarrow> nat \<Rightarrow> volume_error + bytes"
  bo_write :: "'b \<Rightarrow> u64 \<Rightarrow> bytes \<Rightarrow> volume_error + 'b"
  bo_sector_count :: "'b \<Rightarrow> u64"
  bo_set_wipe_marker :: "'b \<Rightarrow> volume_error + 'b"
  bo_is_wiped :: "'b \<Rightarrow> bool"

record 'k keystore_ops =
  ko_unwrap_dek :: "'k \<Rightarrow> container_id \<Rightarrow> volume_error + dek"
  ko_contains :: "'k \<Rightarrow> container_id \<Rightarrow> bool"
  ko_destroy :: "'k \<Rightarrow> container_id \<Rightarrow> volume_error + 'k"

record mem_backing =
  mb_data :: bytes
  mb_wiped :: bool

definition mem_backing_zeroed :: "nat \<Rightarrow> mem_backing" where
  "mem_backing_zeroed sectors = \<lparr>mb_data = replicate (sectors * SECTOR_SIZE) 0, mb_wiped = False\<rparr>"

text \<open>The byte range of a sector, in 64-bit arithmetic.\<close>

definition mem_range :: "u64 \<Rightarrow> nat \<Rightarrow> nat \<Rightarrow> volume_error + (nat \<times> nat)" where
  "mem_range sector len cap =
     (if len \<noteq> SECTOR_SIZE then Inl Misaligned
      else let off = sector * of_nat SECTOR_SIZE; endp = off + of_nat SECTOR_SIZE
           in if unat endp > cap then Inl OutOfRange else Inr (unat off, unat endp))"

definition mem_read_sector :: "mem_backing \<Rightarrow> u64 \<Rightarrow> nat \<Rightarrow> volume_error + bytes" where
  "mem_read_sector b sector len =
     rbind (mem_range sector len (length (mb_data b)))
       (\<lambda>(off, endp). Inr (take (endp - off) (drop off (mb_data b))))"

definition mem_write_sector :: "mem_backing \<Rightarrow> u64 \<Rightarrow> bytes \<Rightarrow> volume_error + mem_backing" where
  "mem_write_sector b sector buf =
     rbind (mem_range sector (length buf) (length (mb_data b)))
       (\<lambda>(off, endp). Inr (b\<lparr>mb_data := take off (mb_data b) @ buf @ drop endp (mb_data b)\<rparr>))"

definition mem_sector_count :: "mem_backing \<Rightarrow> u64" where
  "mem_sector_count b = of_nat (length (mb_data b) div SECTOR_SIZE)"

definition mem_set_wipe_marker :: "mem_backing \<Rightarrow> volume_error + mem_backing" where
  "mem_set_wipe_marker b = Inr (b\<lparr>mb_wiped := True\<rparr>)"

definition mem_is_wiped :: "mem_backing \<Rightarrow> bool" where
  "mem_is_wiped b = mb_wiped b"

definition mem_backing_ops :: "mem_backing backing_ops" where
  "mem_backing_ops = \<lparr>bo_read = mem_read_sector, bo_write = mem_write_sector,
     bo_sector_count = mem_sector_count, bo_set_wipe_marker = mem_set_wipe_marker,
     bo_is_wiped = mem_is_wiped\<rparr>"

type_synonym mem_key_store = "(container_id, kek \<times> wrapped_dek) hmap"

definition mem_provision :: "aes_kw \<Rightarrow> mem_key_store \<Rightarrow> container_id \<Rightarrow> kek \<Rightarrow> dek \<Rightarrow> mem_key_store" where
  "mem_provision kw ks c k d = hm_insert ks c (k, kek_wrap kw k d)"

definition mem_unwrap_dek :: "aes_kw \<Rightarrow> mem_key_store \<Rightarrow> container_id \<Rightarrow> volume_error + dek" where
  "mem_unwrap_dek kw ks c =
     rbind (ok_or (hm_get ks c) KeyDestroyed) (\<lambda>(k, w). kek_unwrap kw k w)"

definition mem_contains :: "mem_key_store \<Rightarrow> container_id \<Rightarrow> bool" where
  "mem_contains ks c = hm_contains ks c"

definition mem_destroy :: "mem_key_store \<Rightarrow> container_id \<Rightarrow> volume_error + mem_key_store" where
  "mem_destroy ks c = Inr (hm_remove ks c)"

definition mem_keystore_ops :: "aes_kw \<Rightarrow> mem_key_store keystore_ops" where
  "mem_keystore_ops kw = \<lparr>ko_unwrap_dek = mem_unwrap_dek kw, ko_contains = mem_contains,
     ko_destroy = mem_destroy\<rparr>"

section \<open>The volume\<close>

record ('k, 'b) clave_volume =
  cv_meta :: container_meta
  cv_keystore :: 'k
  cv_backing :: 'b
  cv_cipher :: "xts_cipher option"

text \<open>The gate is the process supervisor shared with the daemon.\<close>

definition volume_new :: "container_meta \<Rightarrow> 'k \<Rightarrow> 'b \<Rightarrow> ('k, 'b) clave_volume" where
  "volume_new meta ks b = \<lparr>cv_meta = meta, cv_keystore = ks, cv_backing = b, cv_cipher = None\<rparr>"

definition volume_is_unlocked :: "('k, 'b) clave_volume \<Rightarrow> bool" where
  "volume_is_unlocked v = (cv_cipher v \<noteq> None)"

definition volume_container_id :: "('k, 'b) clave_volume \<Rightarrow> container_id" where
  "volume_container_id v = cm_id (cv_meta v)"

definition volume_unlock ::
  "'k keystore_ops \<Rightarrow> 'b backing_ops \<Rightarrow> ('k, 'b) clave_volume
     \<Rightarrow> ('k, 'b) clave_volume \<times> (volume_error + unit)" where
  "volume_unlock ko bo v =
     (if bo_is_wiped bo (cv_backing v) then (v, Inl WipeMarkerSet)
      else if \<not> ko_contains ko (cv_keystore v) (cm_id (cv_meta v)) then (v, Inl KeyDestroyed)
      else case ko_unwrap_dek ko (cv_keystore v) (cm_id (cv_meta v)) of
             Inl e \<Rightarrow> (v, Inl e)
           | Inr d \<Rightarrow> (v\<lparr>cv_cipher := Some (xts_new d)\<rparr>, Inr ()))"

definition volume_lock :: "('k, 'b) clave_volume \<Rightarrow> ('k, 'b) clave_volume" where
  "volume_lock v = v\<lparr>cv_cipher := None\<rparr>"

definition volume_authorize ::
  "(proc_id \<Rightarrow> bool) \<Rightarrow> ('k, 'b) clave_volume \<Rightarrow> proc_id \<Rightarrow> volume_error + xts_cipher" where
  "volume_authorize gate v caller =
     (if \<not> gate caller then Inl AccessDenied else ok_or (cv_cipher v) Locked)"

fun read_sectors :: "'b backing_ops \<Rightarrow> 'b \<Rightarrow> u64 \<Rightarrow> nat \<Rightarrow> volume_error + bytes" where
  "read_sectors bo b s 0 = Inr []"
| "read_sectors bo b s (Suc n) =
     rbind (bo_read bo b s SECTOR_SIZE) (\<lambda>d. rbind (read_sectors bo b (s + 1) n) (\<lambda>ds. Inr (d @ ds)))"

definition volume_read ::
  "xts \<Rightarrow> 'b backing_ops \<Rightarrow> (proc_id \<Rightarrow> bool) \<Rightarrow> ('k, 'b) clave_volume \<Rightarrow> proc_id \<Rightarrow> u64 \<Rightarrow> nat
     \<Rightarrow> volume_error + bytes" where
  "volume_read x bo gate v caller first_sector out_len =
     rbind (volume_authorize gate v caller) (\<lambda>cipher.
       if out_len mod SECTOR_SIZE \<noteq> 0 then Inl Misaligned
       else rbind (read_sectors bo (cv_backing v) first_sector (out_len div SECTOR_SIZE))
              (\<lambda>out. Inr (xts_decrypt x cipher out first_sector)))"

text \<open>
  \<open>chunks_exact\<close> and the loop over the chunks, which stops at the first failing sector and leaves
  the sectors before it written.
\<close>

fun write_sectors :: "'b backing_ops \<Rightarrow> 'b \<Rightarrow> u64 \<Rightarrow> nat \<Rightarrow> bytes \<Rightarrow> 'b \<times> (volume_error + unit)" where
  "write_sectors bo b s 0 ct = (b, Inr ())"
| "write_sectors bo b s (Suc n) ct =
     (case bo_write bo b s (take SECTOR_SIZE ct) of
        Inl e \<Rightarrow> (b, Inl e)
      | Inr b' \<Rightarrow> write_sectors bo b' (s + 1) n (drop SECTOR_SIZE ct))"

definition volume_write ::
  "xts \<Rightarrow> 'b backing_ops \<Rightarrow> (proc_id \<Rightarrow> bool) \<Rightarrow> ('k, 'b) clave_volume \<Rightarrow> proc_id \<Rightarrow> u64 \<Rightarrow> bytes
     \<Rightarrow> ('k, 'b) clave_volume \<times> (volume_error + unit)" where
  "volume_write x bo gate v caller first_sector data =
     (case volume_authorize gate v caller of
        Inl e \<Rightarrow> (v, Inl e)
      | Inr cipher \<Rightarrow>
          (if length data mod SECTOR_SIZE \<noteq> 0 then (v, Inl Misaligned)
           else let ct = xts_encrypt x cipher data first_sector;
                    (b, r) = write_sectors bo (cv_backing v) first_sector (length ct div SECTOR_SIZE) ct
                in (v\<lparr>cv_backing := b\<rparr>, r)))"

definition volume_wipe ::
  "'k keystore_ops \<Rightarrow> 'b backing_ops \<Rightarrow> ('k, 'b) clave_volume
     \<Rightarrow> ('k, 'b) clave_volume \<times> (volume_error + unit)" where
  "volume_wipe ko bo v =
     (let v = v\<lparr>cv_cipher := None\<rparr>
      in case ko_destroy ko (cv_keystore v) (cm_id (cv_meta v)) of
           Inl e \<Rightarrow> (v, Inl e)
         | Inr ks \<Rightarrow>
             (let v = v\<lparr>cv_keystore := ks\<rparr>
              in case bo_set_wipe_marker bo (cv_backing v) of
                   Inl e \<Rightarrow> (v, Inl e)
                 | Inr b \<Rightarrow> (v\<lparr>cv_backing := b\<rparr>, Inr ())))"

end
