(* ===== verification/Volume_Props.thy ===== *)
theory Volume_Props
  imports Volume
begin

text \<open>
  The contracts of the volume's stores and what the volume makes of them: reads see the latest
  write of every sector, a caller outside the work zone gets nothing, a wipe is final, and a key
  sealed to a device opens on that device only through its own secret.
\<close>

section \<open>Contracts of the stores\<close>

text \<open>
  \<open>content b s\<close> is what sector \<open>s\<close> holds, if the store has it; \<open>addr\<close> are the sector numbers for
  which the store's address arithmetic is exact.
\<close>

locale backing_store =
  fixes bo :: "'b backing_ops"
    and content :: "'b \<Rightarrow> u64 \<Rightarrow> bytes option"
    and addr :: "u64 \<Rightarrow> bool"
    and inv :: "'b \<Rightarrow> bool"
  assumes read_content: "inv b \<Longrightarrow> addr s \<Longrightarrow>
      bo_read bo b s SECTOR_SIZE = (case content b s of None \<Rightarrow> Inl OutOfRange | Some d \<Rightarrow> Inr d)"
    and content_length: "inv b \<Longrightarrow> addr s \<Longrightarrow> content b s = Some d \<Longrightarrow> length d = SECTOR_SIZE"
    and write_content: "inv b \<Longrightarrow> addr s \<Longrightarrow> length d = SECTOR_SIZE \<Longrightarrow> content b s \<noteq> None \<Longrightarrow>
      \<exists>b'. bo_write bo b s d = Inr b' \<and> inv b' \<and>
        (\<forall>t. addr t \<longrightarrow> content b' t = (if t = s then Some d else content b t))"
    and wipe_marks: "\<exists>b'. bo_set_wipe_marker bo b = Inr b' \<and> bo_is_wiped bo b'"

locale key_store =
  fixes ko :: "'k keystore_ops"
    and wfk :: "'k \<Rightarrow> bool"
  assumes destroy_forgets: "wfk ks \<Longrightarrow> \<exists>ks'. ko_destroy ko ks c = Inr ks' \<and> wfk ks' \<and> \<not> ko_contains ko ks' c"

section \<open>Reads and writes over any store\<close>

lemma SECTOR_SIZE_pos [simp]: "0 < SECTOR_SIZE" "SECTOR_SIZE \<noteq> 0" "SECTOR_SIZE div SECTOR_SIZE = 1"
  by (simp_all add: SECTOR_SIZE_def)

lemma xts_correctD:
  assumes "xts_correct x" "xts_area s a"
  shows "length (xt_enc x dk tk s a) = length a" "length (xt_dec x dk tk s a) = length a"
    and "xt_dec x dk tk s (xt_enc x dk tk s a) = a"
    and "a = b @ c \<Longrightarrow> length b = SECTOR_SIZE \<Longrightarrow> c \<noteq> [] \<Longrightarrow>
      xt_enc x dk tk s a = xt_enc x dk tk s b @ xt_enc x dk tk (s + 1) c"
  using assms unfolding xts_correct_def by blast+

lemma xts_areaI: "length a = n * SECTOR_SIZE \<Longrightarrow> unat s + n \<le> 2 ^ 64 \<Longrightarrow> xts_area s a"
  by (auto simp: xts_area_def)

lemma xts_area_sector: "length a = SECTOR_SIZE \<Longrightarrow> xts_area s a"
  using unsigned_less[of s, where 'a = nat] by (auto intro!: xts_areaI[of _ 1])

context backing_store
begin

text \<open>The range written, with word subtraction for the position inside it.\<close>

lemma write_sectors_content:
  assumes "inv b" "length ct = n * SECTOR_SIZE" "n \<le> 2 ^ 63"
    and "\<And>i. i < n \<Longrightarrow> addr (s + of_nat i) \<and> content b (s + of_nat i) \<noteq> None"
  shows "\<exists>b'. write_sectors bo b s n ct = (b', Inr ()) \<and> inv b' \<and>
    (\<forall>t. addr t \<longrightarrow> content b' t =
       (if unat (t - s) < n then Some (take SECTOR_SIZE (drop (unat (t - s) * SECTOR_SIZE) ct))
        else content b t))"
  using assms
proof (induction n arbitrary: b s ct)
  case 0
  then show ?case by simp
next
  case (Suc n)
  have "addr s" "content b s \<noteq> None" using Suc.prems(4)[of 0] by simp_all
  moreover have "length (take SECTOR_SIZE ct) = SECTOR_SIZE" using Suc.prems(2) by simp
  ultimately obtain b1 where b1: "bo_write bo b s (take SECTOR_SIZE ct) = Inr b1" "inv b1"
    "\<And>t. addr t \<Longrightarrow> content b1 t = (if t = s then Some (take SECTOR_SIZE ct) else content b t)"
    using write_content[OF Suc.prems(1)] by blast
  have "\<exists>b'. write_sectors bo b1 (s + 1) n (drop SECTOR_SIZE ct) = (b', Inr ()) \<and> inv b' \<and>
    (\<forall>t. addr t \<longrightarrow> content b' t = (if unat (t - (s + 1)) < n
        then Some (take SECTOR_SIZE (drop (unat (t - (s + 1)) * SECTOR_SIZE) (drop SECTOR_SIZE ct)))
        else content b1 t))"
  proof (rule Suc.IH)
    show "addr (s + 1 + of_nat i) \<and> content b1 (s + 1 + of_nat i) \<noteq> None" if "i < n" for i
      using Suc.prems(4)[of "Suc i"] that b1(3) by (auto simp: algebra_simps)
  qed (use Suc.prems b1 in auto)
  then obtain b' where b': "write_sectors bo b1 (s + 1) n (drop SECTOR_SIZE ct) = (b', Inr ())" "inv b'"
    "\<And>t. addr t \<Longrightarrow> content b' t = (if unat (t - (s + 1)) < n
        then Some (take SECTOR_SIZE (drop (unat (t - (s + 1)) * SECTOR_SIZE) (drop SECTOR_SIZE ct)))
        else content b1 t)" by blast
  have "content b' t = (if unat (t - s) < Suc n
      then Some (take SECTOR_SIZE (drop (unat (t - s) * SECTOR_SIZE) ct)) else content b t)"
    if "addr t" for t
  proof (cases "t = s")
    case True
    have "unat (- 1 :: u64) = 2 ^ 64 - 1" by (simp add: unsigned_minus_1_eq_mask mask_eq_exp_minus_1)
    then have "\<not> unat (t - (s + 1)) < n" using True Suc.prems(3) by simp
    then show ?thesis using b'(3)[OF that] b1(3)[OF that] True by simp
  next
    case False
    then have "unat (t - (s + 1)) = unat (t - s) - 1" "0 < unat (t - s)"
      using unat_minus_one[of "t - s"] by (simp_all add: diff_diff_eq unat_gt_0)
    then have "unat (t - s) = Suc (unat (t - (s + 1)))" by linarith
    then show ?thesis using b'(3)[OF that] b1(3)[OF that] False by (simp add: add.commute)
  qed
  then show ?case using b1(1) b'(1,2) by auto
qed

lemma read_one:
  assumes "gate caller" "cv_cipher v = Some c" "inv (cv_backing v)" "addr g"
  shows "volume_read x bo gate v caller g SECTOR_SIZE =
    (case content (cv_backing v) g of None \<Rightarrow> Inl OutOfRange | Some d \<Rightarrow> Inr (xts_decrypt x c d g))"
  using assms
  by (simp add: volume_read_def volume_authorize_def read_content split: option.splits)

end

text \<open>Sector \<open>i\<close> of an encrypted area is the encryption of sector \<open>i\<close>.\<close>

lemma xts_sector:
  assumes "xts_correct x" "length a = n * SECTOR_SIZE" "i < n" "unat s + n \<le> 2 ^ 64"
  shows "take SECTOR_SIZE (drop (i * SECTOR_SIZE) (xt_enc x dk tk s a)) =
    xt_enc x dk tk (s + of_nat i) (take SECTOR_SIZE (drop (i * SECTOR_SIZE) a))"
  using assms(2-4)
proof (induction i arbitrary: a n s)
  case 0
  obtain m where m: "n = Suc m" using 0 by (cases n) auto
  define b c where "b = take SECTOR_SIZE a" and "c = drop SECTOR_SIZE a"
  have bc: "a = b @ c" "length b = SECTOR_SIZE" using 0 m by (simp_all add: b_def c_def)
  have lb: "length (xt_enc x dk tk s b) = SECTOR_SIZE"
    using xts_correctD(1)[OF assms(1) xts_area_sector] bc(2) by simp
  show ?case
  proof (cases "c = []")
    case False
    then show ?thesis using xts_correctD(4)[OF assms(1) xts_areaI[OF 0(1,3)] bc False] bc lb by simp
  qed (use bc lb in simp)
next
  case (Suc i)
  then obtain m where m: "n = Suc m" "0 < m" by (cases n) auto
  define b c where "b = take SECTOR_SIZE a" and "c = drop SECTOR_SIZE a"
  have bc: "a = b @ c" "length b = SECTOR_SIZE" "length c = m * SECTOR_SIZE" "c \<noteq> []"
    using Suc.prems(1) m by (simp_all add: b_def c_def flip: length_greater_0_conv)
  have "unat s + 1 < 2 ^ LENGTH(64)" using Suc.prems(3) m by simp
  then have s1: "unat (s + 1) = unat s + 1" by (rule word_Suc_unat)
  have lb: "length (xt_enc x dk tk s b) = SECTOR_SIZE"
    using xts_correctD(1)[OF assms(1) xts_area_sector] bc(2) by simp
  have "drop SECTOR_SIZE (xt_enc x dk tk s a) = xt_enc x dk tk (s + 1) c"
    using xts_correctD(4)[OF assms(1) xts_areaI[OF Suc.prems(1,3)] bc(1,2,4)] lb by simp
  then have "drop (Suc i * SECTOR_SIZE) (xt_enc x dk tk s a) = drop (i * SECTOR_SIZE) (xt_enc x dk tk (s + 1) c)"
    by (metis add.commute drop_drop mult_Suc)
  moreover have "drop (Suc i * SECTOR_SIZE) a = drop (i * SECTOR_SIZE) c" by (simp add: c_def add.commute)
  ultimately show ?case using Suc.IH[OF bc(3), of "s + 1"] Suc.prems m s1 by (simp add: algebra_simps)
qed

context backing_store
begin

lemma read_your_writes:
  assumes "xts_correct x" "gate caller" "cv_cipher v = Some c" "inv (cv_backing v)"
    and "length data = n * SECTOR_SIZE" "n \<le> 2 ^ 63" "unat f + n \<le> 2 ^ 64" "addr g"
    and "\<And>i. i < n \<Longrightarrow> addr (f + of_nat i) \<and> content (cv_backing v) (f + of_nat i) \<noteq> None"
  shows "\<exists>v'. volume_write x bo gate v caller f data = (v', Inr ()) \<and>
    volume_read x bo gate v' caller g SECTOR_SIZE =
      (if unat (g - f) < n then Inr (take SECTOR_SIZE (drop (unat (g - f) * SECTOR_SIZE) data))
       else volume_read x bo gate v caller g SECTOR_SIZE)"
proof -
  define ct where "ct = xts_encrypt x c data f"
  have lct: "length ct = n * SECTOR_SIZE"
    using xts_correctD(1)[OF assms(1) xts_areaI[OF assms(5,7)]] assms(5) by (simp add: ct_def xts_encrypt_def)
  obtain b' where b': "write_sectors bo (cv_backing v) f n ct = (b', Inr ())" "inv b'"
    "content b' g = (if unat (g - f) < n
        then Some (take SECTOR_SIZE (drop (unat (g - f) * SECTOR_SIZE) ct)) else content (cv_backing v) g)"
    using write_sectors_content[OF assms(4) lct assms(6,9)] assms(8) by blast
  have w: "volume_write x bo gate v caller f data = (v\<lparr>cv_backing := b'\<rparr>, Inr ())"
    using assms(2,3,5) lct b'(1)
    by (simp add: volume_write_def volume_authorize_def ct_def[symmetric])
  have "xts_decrypt x c (take SECTOR_SIZE (drop (unat (g - f) * SECTOR_SIZE) ct)) g =
      take SECTOR_SIZE (drop (unat (g - f) * SECTOR_SIZE) data)" if "unat (g - f) < n"
  proof -
    define blk where "blk = take SECTOR_SIZE (drop (unat (g - f) * SECTOR_SIZE) data)"
    have "(unat (g - f) + 1) * SECTOR_SIZE \<le> n * SECTOR_SIZE" using that by (intro mult_le_mono) simp_all
    then have "length blk = SECTOR_SIZE" using assms(5) by (simp add: blk_def)
    then have "xt_dec x dk tk s (xt_enc x dk tk s blk) = blk" for dk tk s
      using xts_correctD(3)[OF assms(1) xts_area_sector] by blast
    then show ?thesis using xts_sector[OF assms(1,5) that assms(7), of "xc_data c" "xc_tweak c"]
      by (simp add: ct_def xts_encrypt_def xts_decrypt_def blk_def)
  qed
  then have "volume_read x bo gate (v\<lparr>cv_backing := b'\<rparr>) caller g SECTOR_SIZE =
      (if unat (g - f) < n then Inr (take SECTOR_SIZE (drop (unat (g - f) * SECTOR_SIZE) data))
       else volume_read x bo gate v caller g SECTOR_SIZE)"
    using assms b'(2,3) by (simp add: read_one)
  with w show ?thesis by blast
qed

end

section \<open>The in-memory stores meet the contracts\<close>

definition mem_content :: "mem_backing \<Rightarrow> u64 \<Rightarrow> bytes option" where
  "mem_content b s =
     (if (unat s + 1) * SECTOR_SIZE \<le> length (mb_data b)
      then Some (take SECTOR_SIZE (drop (unat s * SECTOR_SIZE) (mb_data b))) else None)"

definition mem_addr :: "u64 \<Rightarrow> bool" where
  "mem_addr s = (unat s + 1 < 2 ^ 52)"

lemma mem_range_exact:
  assumes "mem_addr s"
  shows "mem_range s SECTOR_SIZE cap =
    (if (unat s + 1) * SECTOR_SIZE \<le> cap then Inr (unat s * SECTOR_SIZE, (unat s + 1) * SECTOR_SIZE)
     else Inl OutOfRange)"
proof -
  have o: "unat (s * 4096) = unat s * 4096"
    using assms by (simp add: mem_addr_def unat_word_ariths)
  have "unat (s * 4096 + 4096) = unat s * 4096 + 4096"
    using assms o by (simp add: mem_addr_def unat_word_ariths)
  with o show ?thesis by (simp add: mem_range_def Let_def SECTOR_SIZE_def)
qed

lemma block_before: "m + k \<le> n \<Longrightarrow> n \<le> length xs \<Longrightarrow> take k (drop m (take n xs @ ys)) = take k (drop m xs)"
  by (auto simp: drop_take min_def)

lemma block_other:
  assumes "length buf = k" "Suc s * k \<le> length xs" "Suc t * k \<le> length xs" "t \<noteq> s"
  shows "take k (drop (t * k) (take (s * k) xs @ buf @ drop (Suc s * k) xs)) = take k (drop (t * k) xs)"
proof (cases "t < s")
  case True
  then have "Suc t * k \<le> s * k" by (intro mult_le_mono) simp_all
  then have "t * k + k \<le> s * k" by simp
  moreover have "s * k \<le> length xs" using assms(2) by simp
  ultimately show ?thesis by (rule block_before)
next
  case False
  then have le: "Suc s * k \<le> t * k" using assms(4) by (intro mult_le_mono) simp_all
  have "length (take (s * k) xs @ buf) = Suc s * k" using assms(1,2) by simp
  then have "drop (t * k) ((take (s * k) xs @ buf) @ drop (Suc s * k) xs) = drop (t * k - Suc s * k) (drop (Suc s * k) xs)"
    using le unfolding drop_append by simp
  also have "\<dots> = drop (t * k) xs" using le by (simp only: drop_drop le_add_diff_inverse2)
  finally show ?thesis by (simp only: append_assoc)
qed

interpretation mb: backing_store mem_backing_ops mem_content mem_addr "\<lambda>_. True"
proof unfold_locales
  fix b :: mem_backing and s :: u64 and d :: bytes
  assume s: "mem_addr s"
  show "bo_read mem_backing_ops b s SECTOR_SIZE =
      (case mem_content b s of None \<Rightarrow> Inl OutOfRange | Some d \<Rightarrow> Inr d)"
    using mem_range_exact[OF s]
    by (simp add: mem_backing_ops_def mem_read_sector_def mem_content_def)
  show "length d = SECTOR_SIZE" if "mem_content b s = Some d"
    using that by (auto simp: mem_content_def split: if_splits)
  assume d: "length d = SECTOR_SIZE" and c: "mem_content b s \<noteq> None"
  then have cap: "Suc (unat s) * SECTOR_SIZE \<le> length (mb_data b)"
    by (auto simp: mem_content_def split: if_splits)
  define b' where "b' = b\<lparr>mb_data := take (unat s * SECTOR_SIZE) (mb_data b) @ d
      @ drop (Suc (unat s) * SECTOR_SIZE) (mb_data b)\<rparr>"
  have "bo_write mem_backing_ops b s d = Inr b'"
    using mem_range_exact[OF s] d cap by (simp add: mem_backing_ops_def mem_write_sector_def b'_def)
  moreover have len: "length (mb_data b') = length (mb_data b)" using cap d by (simp add: b'_def)
  have "mem_content b' t = (if t = s then Some d else mem_content b t)" if "mem_addr t" for t
  proof (cases "t = s")
    case True
    then show ?thesis using cap d len by (simp add: mem_content_def b'_def)
  next
    case False
    then have "unat t \<noteq> unat s" by (simp add: word_unat_eq_iff)
    then show ?thesis using False len block_other[OF d cap, of "unat t"]
      by (auto simp: mem_content_def b'_def)
  qed
  ultimately show "\<exists>b'. bo_write mem_backing_ops b s d = Inr b' \<and> True \<and>
      (\<forall>t. mem_addr t \<longrightarrow> mem_content b' t = (if t = s then Some d else mem_content b t))"
    by blast
qed (simp add: mem_backing_ops_def mem_set_wipe_marker_def mem_is_wiped_def)

interpretation mk: key_store "mem_keystore_ops kw" hm_wf for kw
  by unfold_locales (simp add: mem_keystore_ops_def mem_destroy_def mem_contains_def hmap_wf)

section \<open>Properties\<close>

text \<open>
  (C9) Read your writes. On an unlocked volume a supervised process' write that fits the container
  succeeds, and afterwards every sector reads back as the last data written to it: the sectors of
  the write as the corresponding part of the data, every other sector as before. What is written
  is encrypted with the sector's index; what is read is decrypted with it.
\<close>

theorem volume_read_your_writes:
  assumes "xts_correct x" "gate caller" "cv_cipher v = Some c"
    and "length data = n * SECTOR_SIZE"
    and "(unat f + n) * SECTOR_SIZE \<le> length (mb_data (cv_backing v))"
    and "length (mb_data (cv_backing v)) < 2 ^ 63" "unat g + 1 < 2 ^ 52"
  shows "\<exists>v'. volume_write x mem_backing_ops gate v caller f data = (v', Inr ()) \<and>
    volume_read x mem_backing_ops gate v' caller g SECTOR_SIZE =
      (if unat f \<le> unat g \<and> unat g < unat f + n
       then Inr (take SECTOR_SIZE (drop ((unat g - unat f) * SECTOR_SIZE) data))
       else volume_read x mem_backing_ops gate v caller g SECTOR_SIZE)"
proof -
  have bound: "unat f + n < 2 ^ 51" using assms(5,6) by (simp add: SECTOR_SIZE_def)
  have sec: "unat (f + of_nat i) = unat f + i" if "i < n" for i
    using bound that by (intro unat_add_of_nat) simp
  have ok: "mem_addr (f + of_nat i) \<and> mem_content (cv_backing v) (f + of_nat i) \<noteq> None" if "i < n" for i
  proof -
    have "(unat f + i + 1) * SECTOR_SIZE \<le> (unat f + n) * SECTOR_SIZE"
      using that by (intro mult_le_mono) simp_all
    then show ?thesis using sec[OF that] bound that assms(5)
      by (simp add: mem_addr_def mem_content_def)
  qed
  have pos: "(unat (g - f) < n) = (unat f \<le> unat g \<and> unat g < unat f + n)"
  proof (cases "f \<le> g")
    case True
    then show ?thesis by (auto simp: unat_sub word_le_nat_alt)
  next
    case False
    then have "unat g < unat f" by (simp add: word_le_nat_alt)
    moreover have "unat (g - f) = 2 ^ 64 + unat g - unat f"
      using False by (simp add: unat_sub_if' word_le_nat_alt)
    ultimately show ?thesis using bound by simp
  qed
  have eq: "unat (g - f) = unat g - unat f" if "unat f \<le> unat g"
    using that by (simp add: unat_sub word_le_nat_alt)
  show ?thesis
    using mb.read_your_writes[of x gate caller v c data n f g, OF assms(1-3) TrueI assms(4) _ _ _ ok]
      bound assms(7)
    unfolding pos by (auto simp: mem_addr_def eq)
qed

text \<open>
  The gate. A process outside the work zone can neither read nor write the volume, whatever
  its state, and a locked volume serves nobody; a refused request changes nothing.
\<close>

theorem volume_gate:
  assumes "\<not> gate caller \<or> cv_cipher v = None"
  shows "volume_read x bo gate v caller s n = Inl (if gate caller then Locked else AccessDenied) \<and>
    volume_write x bo gate v caller s data = (v, Inl (if gate caller then Locked else AccessDenied))"
  using assms by (auto simp: volume_read_def volume_write_def volume_authorize_def)

text \<open>A personal process asks for a sector of an unlocked volume.\<close>

theorem volume_gate_witness:
  "volume_read \<lparr>xt_enc = (\<lambda>_ _ _ a. a), xt_dec = (\<lambda>_ _ _ a. a)\<rparr> mem_backing_ops (is_supervised zone_new)
     \<lparr>cv_meta = container_meta_new (ContainerId 1), cv_keystore = (), cv_backing = mem_backing_zeroed 1,
      cv_cipher = Some (XtsCipher [] [])\<rparr> (Windows 7 1) 0 4096 = Inl AccessDenied"
  using volume_gate[of "is_supervised zone_new" "Windows 7 1"
      "\<lparr>cv_meta = container_meta_new (ContainerId 1), cv_keystore = (), cv_backing = mem_backing_zeroed 1,
      cv_cipher = Some (XtsCipher [] [])\<rparr>" "\<lparr>xt_enc = (\<lambda>_ _ _ a. a), xt_dec = (\<lambda>_ _ _ a. a)\<rparr>"
      mem_backing_ops 0 4096 "[]"]
  by simp

text \<open>Two sectors written to a container of four, the second read back.\<close>

theorem volume_read_your_writes_witness:
  "\<exists>v'. volume_write \<lparr>xt_enc = (\<lambda>_ _ _ a. a), xt_dec = (\<lambda>_ _ _ a. a)\<rparr> mem_backing_ops (\<lambda>_. True)
     \<lparr>cv_meta = container_meta_new (ContainerId 1), cv_keystore = (), cv_backing = mem_backing_zeroed 4,
      cv_cipher = Some (XtsCipher [] [])\<rparr> (Windows 7 1) 1
      (replicate SECTOR_SIZE 5 @ replicate SECTOR_SIZE 6) = (v', Inr ()) \<and>
    volume_read \<lparr>xt_enc = (\<lambda>_ _ _ a. a), xt_dec = (\<lambda>_ _ _ a. a)\<rparr> mem_backing_ops (\<lambda>_. True) v'
      (Windows 7 1) 2 SECTOR_SIZE = Inr (replicate SECTOR_SIZE 6)"
proof -
  have x: "xts_correct \<lparr>xt_enc = (\<lambda>_ _ _ a. a), xt_dec = (\<lambda>_ _ _ a. a)\<rparr>"
    by (simp add: xts_correct_def)
  have "length (mb_data (mem_backing_zeroed 4)) = 4 * SECTOR_SIZE" "4 * SECTOR_SIZE < 2 ^ 63"
    by (simp_all add: mem_backing_zeroed_def SECTOR_SIZE_def)
  then show ?thesis
    using volume_read_your_writes[OF x, of "\<lambda>_. True" "Windows 7 1"
        "\<lparr>cv_meta = container_meta_new (ContainerId 1), cv_keystore = (), cv_backing = mem_backing_zeroed 4,
        cv_cipher = Some (XtsCipher [] [])\<rparr>" "XtsCipher [] []"
        "replicate SECTOR_SIZE 5 @ replicate SECTOR_SIZE 6" 2 1 2]
    by simp
qed

section \<open>A wipe is final\<close>

datatype vol_op =
    VUnlock
  | VLock
  | VRead "proc_id \<Rightarrow> bool" proc_id u64 nat
  | VWrite "proc_id \<Rightarrow> bool" proc_id u64 bytes
  | VWipe

fun vol_step ::
  "'k keystore_ops \<Rightarrow> 'b backing_ops \<Rightarrow> xts \<Rightarrow> ('k, 'b) clave_volume \<Rightarrow> vol_op \<Rightarrow> ('k, 'b) clave_volume" where
  "vol_step ko bo x v VUnlock = fst (volume_unlock ko bo v)"
| "vol_step ko bo x v VLock = volume_lock v"
| "vol_step ko bo x v (VRead gate p s n) = v"
| "vol_step ko bo x v (VWrite gate p s d) = fst (volume_write x bo gate v p s d)"
| "vol_step ko bo x v VWipe = fst (volume_wipe ko bo v)"

locale volume_stores = backing_store bo content addr inv + key_store ko wfk
  for bo :: "'b backing_ops" and content addr inv and ko :: "'k keystore_ops" and wfk
begin

definition dead :: "('k, 'b) clave_volume \<Rightarrow> bool" where
  "dead v = (cv_cipher v = None \<and> bo_is_wiped bo (cv_backing v) \<and> wfk (cv_keystore v))"

lemma wipe_dead:
  assumes "wfk (cv_keystore v)"
  shows "snd (volume_wipe ko bo v) = Inr () \<and> dead (fst (volume_wipe ko bo v)) \<and>
    \<not> ko_contains ko (cv_keystore (fst (volume_wipe ko bo v))) (cm_id (cv_meta v))"
proof -
  obtain ks where "ko_destroy ko (cv_keystore v) (cm_id (cv_meta v)) = Inr ks" "wfk ks"
    "\<not> ko_contains ko ks (cm_id (cv_meta v))" using destroy_forgets[OF assms] by blast
  moreover obtain b where "bo_set_wipe_marker bo (cv_backing v) = Inr b" "bo_is_wiped bo b"
    using wipe_marks by blast
  ultimately show ?thesis by (simp add: volume_wipe_def Let_def dead_def)
qed

lemma dead_step: "dead v \<Longrightarrow> dead (vol_step ko bo x v op)"
  using wipe_dead[of v]
  by (cases op) (auto simp: dead_def volume_unlock_def volume_lock_def volume_write_def
      volume_authorize_def)

lemma dead_forever: "dead v \<Longrightarrow> dead (foldl (vol_step ko bo x) v ops)"
  by (induction ops arbitrary: v) (auto intro: dead_step)

lemma dead_refuses: "dead v \<Longrightarrow> snd (volume_unlock ko bo v) = Inl WipeMarkerSet"
  by (simp add: dead_def volume_unlock_def)

end

interpretation ms: volume_stores mem_backing_ops mem_content mem_addr "\<lambda>_. True"
  "mem_keystore_ops kw" hm_wf for kw
  by unfold_locales

text \<open>
  (C10) Remote wipe is final. Wiping a volume succeeds and destroys its wrapped key; whatever unlock,
  lock, read, write and wipe operations follow, the volume can never be unlocked again and never
  serves a byte.
\<close>

theorem volume_wipe_final:
  assumes "hm_wf (cv_keystore v)"
    and "v1 = fst (volume_wipe (mem_keystore_ops kw) mem_backing_ops v)"
    and "v2 = foldl (vol_step (mem_keystore_ops kw) mem_backing_ops x) v1 ops"
  shows "snd (volume_wipe (mem_keystore_ops kw) mem_backing_ops v) = Inr () \<and>
    \<not> mem_contains (cv_keystore v1) (cm_id (cv_meta v)) \<and>
    snd (volume_unlock (mem_keystore_ops kw) mem_backing_ops v2) = Inl WipeMarkerSet \<and>
    volume_read x mem_backing_ops gate v2 caller s n = Inl (if gate caller then Locked else AccessDenied)"
proof -
  note w = ms.wipe_dead[OF assms(1), of kw, folded assms(2)]
  have d: "ms.dead v2" using ms.dead_forever w unfolding assms(3) by blast
  then have "cv_cipher v2 = None" by (simp add: ms.dead_def)
  then show ?thesis using w ms.dead_refuses[OF d, of kw]
    by (simp add: mem_keystore_ops_def volume_read_def volume_authorize_def)
qed

text \<open>A provisioned volume, wiped, then two attempts to unlock it.\<close>

theorem volume_wipe_final_witness:
  "snd (volume_unlock (mem_keystore_ops \<lparr>kw_wrap = (\<lambda>k d. d), kw_unwrap = (\<lambda>k d. Some d)\<rparr>) mem_backing_ops
     (foldl (vol_step (mem_keystore_ops \<lparr>kw_wrap = (\<lambda>k d. d), kw_unwrap = (\<lambda>k d. Some d)\<rparr>) mem_backing_ops
         \<lparr>xt_enc = (\<lambda>_ _ _ a. a), xt_dec = (\<lambda>_ _ _ a. a)\<rparr>)
       (fst (volume_wipe (mem_keystore_ops \<lparr>kw_wrap = (\<lambda>k d. d), kw_unwrap = (\<lambda>k d. Some d)\<rparr>) mem_backing_ops
         (volume_new (container_meta_new (ContainerId 1))
           (mem_provision \<lparr>kw_wrap = (\<lambda>k d. d), kw_unwrap = (\<lambda>k d. Some d)\<rparr> [] (ContainerId 1) (Kek [1]) (Dek [2]))
           (mem_backing_zeroed 1))))
       [VUnlock, VLock])) = Inl WipeMarkerSet"
proof -
  have "hm_wf (cv_keystore (volume_new (container_meta_new (ContainerId 1))
      (mem_provision \<lparr>kw_wrap = (\<lambda>k d. d), kw_unwrap = (\<lambda>k d. Some d)\<rparr> [] (ContainerId 1) (Kek [1]) (Dek [2]))
      (mem_backing_zeroed 1)))"
    by (simp add: volume_new_def mem_provision_def hmap_wf)
  from volume_wipe_final[OF this refl refl] show ?thesis by blast
qed

text \<open>
  Sealing a volume key to a device. What the gateway seals to a device's public key opens on
  that device to the same key, through the Diffie-Hellman secret both derive.
\<close>

theorem seal_open_round_trip:
  assumes "x25519_correct x" "aes_kw_correct kw"
    and "sealing_key_from_secret x dsec = Inr device" "sealing_key_from_secret x esec = Inr ephemeral"
    and "seal_dek sha kw x ephemeral (ds_public device) d = Inr sealed"
  shows "open_dek sha kw x device sealed = Inr d"
proof -
  have p: "dh_public x (ds_secret device) = Some (ds_public device)"
    "dh_public x (ds_secret ephemeral) = Some (ds_public ephemeral)"
    using assms(3,4) by (auto simp: sealing_key_from_secret_def split: option.splits)
  obtain sh where sh: "dh_shared x (ds_public device) (ds_secret ephemeral) = Some sh"
    using assms(5) by (auto simp: seal_dek_def split: option.splits)
  moreover have "dh_shared x (ds_public ephemeral) (ds_secret device) = Some sh"
    using assms(1) p sh unfolding x25519_correct_def by metis
  ultimately show ?thesis
    using assms(5) by (auto simp: seal_dek_def open_dek_def Let_def kek_unwrap_wrap[OF assms(2)])
qed

text \<open>Addition of secrets as a commutative key agreement.\<close>

theorem seal_open_round_trip_witness:
  "open_dek id \<lparr>kw_wrap = (\<lambda>k d. d), kw_unwrap = (\<lambda>k d. Some d)\<rparr>
     \<lparr>dh_public = Some, dh_shared = (\<lambda>p s. Some [hd p + hd s])\<rparr> \<lparr>ds_secret = [3], ds_public = [3]\<rparr>
     \<lparr>sd_ephemeral_pub = [4], sd_wrapped = WrappedDek [9]\<rparr> = Inr (Dek [9])"
  by (rule seal_open_round_trip[of _ _ "[3]" _ "[4]" "\<lparr>ds_secret = [4], ds_public = [4]\<rparr>"])
    (simp_all add: x25519_correct_def aes_kw_correct_def sealing_key_from_secret_def seal_dek_def
      Let_def kek_wrap_def add.commute)

text \<open>
  Sector addresses wrap. In 64-bit arithmetic without overflow checks, sectors that differ by
  \<open>2\<^sup>5\<^sup>2\<close> have the same byte range, so a request far beyond the end of the container is served
  from its first sectors instead of being refused as out of range.
\<close>

theorem mem_range_aliases: "mem_range (s + 2 ^ 52) len cap = mem_range s len cap"
proof -
  have "(2 ^ 52 :: u64) * of_nat SECTOR_SIZE = 2 ^ 64" by (simp add: SECTOR_SIZE_def)
  also have "\<dots> = 0" by (subst exp_eq_zero_iff) simp
  finally show ?thesis by (simp add: mem_range_def distrib_right)
qed

end
