(* ===== verification/Identity.thy ===== *)
theory Identity
  imports Rust_Str
begin

text \<open>
  Crate \<open>clave-identity\<close>: e-mail addresses (\<open>lib.rs\<close>), workspaces and memberships (\<open>model.rs\<close>)
  and the authorization decisions (\<open>authz.rs\<close>). Roles are an instance of \<open>linorder\<close> with the order
  the code derives, so that \<open>can\<close> is a comparison.
\<close>

section \<open>Addresses\<close>

datatype workspace_id = WorkspaceId (workspace_num: u64)
datatype user_id = UserId (user_num: u64)
datatype email_addr = EmailAddr (email_str: string)

definition email_parse :: "string \<Rightarrow> email_addr option" where
  "email_parse raw =
     (let s = to_ascii_lowercase (trim raw)
      in if contains_whitespace s then None
         else case split_once s CHR ''@'' of
                None \<Rightarrow> None
              | Some (local, domain) \<Rightarrow>
                  (if local = [] \<or> domain = [] \<or> CHR ''@'' \<in> set domain \<or> CHR ''.'' \<notin> set domain
                   then None else Some (EmailAddr s)))"

definition email_domain :: "email_addr \<Rightarrow> string" where
  "email_domain e = (case split_once (email_str e) CHR ''@'' of Some (_, d) \<Rightarrow> d | None \<Rightarrow> [])"

section \<open>Workspaces and memberships\<close>

datatype role = Member | Admin | Owner

fun role_rank :: "role \<Rightarrow> nat" where
  "role_rank Member = 0"
| "role_rank Admin = 1"
| "role_rank Owner = 2"

instantiation role :: linorder
begin

definition less_eq_role_def: "(r :: role) \<le> s \<longleftrightarrow> role_rank r \<le> role_rank s"
definition less_role_def: "(r :: role) < s \<longleftrightarrow> role_rank r < role_rank s"

instance
proof
  fix r s t :: role
  show "(r < s) = (r \<le> s \<and> \<not> s \<le> r)" by (auto simp: less_eq_role_def less_role_def)
  show "r \<le> r" by (simp add: less_eq_role_def)
  show "r \<le> s \<Longrightarrow> s \<le> t \<Longrightarrow> r \<le> t" by (simp add: less_eq_role_def)
  show "r \<le> s \<Longrightarrow> s \<le> r \<Longrightarrow> r = s" by (cases r; cases s) (simp_all add: less_eq_role_def)
  show "r \<le> s \<or> s \<le> r" by (auto simp: less_eq_role_def)
qed

end

datatype membership_status = Invited | Active | MSuspended

datatype sso_mode = Optional | Required

datatype auth_method = EmailCode | Password | Sso bool

definition is_verified_sso :: "auth_method \<Rightarrow> bool" where
  "is_verified_sso m = (m = Sso True)"

record workspace =
  ws_id :: workspace_id
  ws_allowed_domains :: "string list"
  ws_sso :: sso_mode

definition domain_allowed :: "workspace \<Rightarrow> email_addr \<Rightarrow> bool" where
  "domain_allowed w email =
     (if ws_allowed_domains w = [] then True
      else let d = email_domain email
           in list_ex (\<lambda>allowed. eq_ignore_ascii_case (trim allowed) d) (ws_allowed_domains w))"

record membership =
  me_workspace :: workspace_id
  me_user :: user_id
  me_role :: role
  me_status :: membership_status

record invitation =
  iv_workspace :: workspace_id
  iv_email :: email_addr
  iv_role :: role
  iv_expires_at :: unix_time
  iv_accepted :: bool

section \<open>Authorization\<close>

datatype deny_reason = NotAMember | DSuspended | DomainNotAllowed | SsoRequired

fun deny_reason_display :: "deny_reason \<Rightarrow> string" where
  "deny_reason_display NotAMember = ''not an active member of this workspace''"
| "deny_reason_display DSuspended = ''membership is suspended''"
| "deny_reason_display DomainNotAllowed = ''email domain is not allowed for this workspace''"
| "deny_reason_display SsoRequired = ''this workspace requires SSO sign-in''"

datatype login_decision = LoginAllow role | LoginDeny deny_reason

datatype enrollment_decision = EnrollAllow workspace_id role | EnrollDeny deny_reason

fun login_is_allowed :: "login_decision \<Rightarrow> bool" where
  "login_is_allowed (LoginAllow _) = True"
| "login_is_allowed (LoginDeny _) = False"

fun enrollment_is_allowed :: "enrollment_decision \<Rightarrow> bool" where
  "enrollment_is_allowed (EnrollAllow _ _) = True"
| "enrollment_is_allowed (EnrollDeny _) = False"

definition active_member_role :: "workspace \<Rightarrow> membership option \<Rightarrow> deny_reason + role" where
  "active_member_role w m =
     (case m of
        Some m \<Rightarrow>
          (if me_workspace m = ws_id w
           then (case me_status m of
                   Active \<Rightarrow> Inr (me_role m)
                 | MSuspended \<Rightarrow> Inl DSuspended
                 | Invited \<Rightarrow> Inl NotAMember)
           else Inl NotAMember)
      | None \<Rightarrow> Inl NotAMember)"

definition authorize_login ::
  "email_addr \<Rightarrow> auth_method \<Rightarrow> workspace \<Rightarrow> membership option \<Rightarrow> login_decision" where
  "authorize_login email method w m =
     (if \<not> domain_allowed w email then LoginDeny DomainNotAllowed
      else if ws_sso w = Required \<and> \<not> is_verified_sso method then LoginDeny SsoRequired
      else case active_member_role w m of Inr r \<Rightarrow> LoginAllow r | Inl e \<Rightarrow> LoginDeny e)"

definition authorize_enrollment :: "workspace \<Rightarrow> membership option \<Rightarrow> enrollment_decision" where
  "authorize_enrollment w m =
     (case active_member_role w m of Inr r \<Rightarrow> EnrollAllow (ws_id w) r | Inl e \<Rightarrow> EnrollDeny e)"

datatype invite_error = EmailMismatch | AlreadyAccepted | InviteExpired | Rejected deny_reason

fun invite_error_display :: "invite_error \<Rightarrow> string" where
  "invite_error_display EmailMismatch = ''invitation is for a different email''"
| "invite_error_display AlreadyAccepted = ''invitation already accepted''"
| "invite_error_display InviteExpired = ''invitation has expired''"
| "invite_error_display (Rejected r) = ''invitation rejected: '' @ deny_reason_display r"

definition accept_invitation ::
  "user_id \<Rightarrow> email_addr \<Rightarrow> auth_method \<Rightarrow> workspace \<Rightarrow> invitation \<Rightarrow> unix_time
     \<Rightarrow> invite_error + membership" where
  "accept_invitation user email method w ivn now =
     (if iv_email ivn \<noteq> email then Inl EmailMismatch
      else if iv_accepted ivn then Inl AlreadyAccepted
      else if now > iv_expires_at ivn then Inl InviteExpired
      else if \<not> domain_allowed w email then Inl (Rejected DomainNotAllowed)
      else if ws_sso w = Required \<and> \<not> is_verified_sso method then Inl (Rejected SsoRequired)
      else Inr \<lparr>me_workspace = ws_id w, me_user = user, me_role = iv_role ivn, me_status = Active\<rparr>)"

datatype admin_action =
    EnrollDevice | ManageMembers | ChangeRoles | ManagePolicy | ManageSso | ControlDevice
  | ViewAudit | AdministerWorkspace

fun min_role :: "admin_action \<Rightarrow> role" where
  "min_role EnrollDevice = Member"
| "min_role ManageMembers = Admin"
| "min_role ChangeRoles = Admin"
| "min_role ManagePolicy = Admin"
| "min_role ManageSso = Admin"
| "min_role ControlDevice = Admin"
| "min_role ViewAudit = Admin"
| "min_role AdministerWorkspace = Owner"

definition can :: "role \<Rightarrow> admin_action \<Rightarrow> bool" where
  "can r a = (r \<ge> min_role a)"

section \<open>Lemmas\<close>

lemma at_not_letter: "\<not> upper_char CHR ''@''" "\<not> lower_char CHR ''@''"
  by (simp_all add: upper_char_def lower_char_def)

lemma email_parse_Some:
  assumes "email_parse raw = Some e"
  shows "email_str e = to_ascii_lowercase (trim raw)" "\<not> contains_whitespace (email_str e)"
    "\<exists>l d. email_str e = l @ CHR ''@'' # d \<and> l \<noteq> [] \<and> d \<noteq> [] \<and> CHR ''@'' \<notin> set l \<and>
       CHR ''@'' \<notin> set d \<and> CHR ''.'' \<in> set d \<and> email_domain e = d"
proof -
  let ?s = "to_ascii_lowercase (trim raw)"
  obtain l d where s: "\<not> contains_whitespace ?s" "split_once ?s CHR ''@'' = Some (l, d)" "l \<noteq> []" "d \<noteq> []"
    "CHR ''@'' \<notin> set d" "CHR ''.'' \<in> set d" "e = EmailAddr ?s"
    using assms by (auto simp: email_parse_def Let_def split: if_splits option.splits)
  then show "email_str e = ?s" "\<not> contains_whitespace (email_str e)" by simp_all
  show "\<exists>l d. email_str e = l @ CHR ''@'' # d \<and> l \<noteq> [] \<and> d \<noteq> [] \<and> CHR ''@'' \<notin> set l \<and>
       CHR ''@'' \<notin> set d \<and> CHR ''.'' \<in> set d \<and> email_domain e = d"
  proof (rule exI[of _ l], rule exI[of _ d])
    have "email_domain e = d" using s by (simp add: email_domain_def)
    moreover have "email_str e = l @ CHR ''@'' # d \<and> CHR ''@'' \<notin> set l" using s by (simp add: split_once_Some)
    ultimately show "email_str e = l @ CHR ''@'' # d \<and> l \<noteq> [] \<and> d \<noteq> [] \<and> CHR ''@'' \<notin> set l \<and>
       CHR ''@'' \<notin> set d \<and> CHR ''.'' \<in> set d \<and> email_domain e = d" using s by simp
  qed
qed

text \<open>
  E-mail addresses are normal forms. Whatever \<open>parse\<close> returns is lower case, has no white
  space, exactly one \<open>@\<close> with a non-empty local part and a domain with a dot, and parses to
  itself; so two spellings of an address that parse give equal values exactly when their trimmed
  lower-case forms are equal.
\<close>

theorem email_parse_normal_form:
  assumes "email_parse raw = Some e"
  shows "email_parse (email_str e) = Some e \<and> to_ascii_lowercase (email_str e) = email_str e \<and>
    (\<exists>l d. email_str e = l @ CHR ''@'' # d \<and> l \<noteq> [] \<and> CHR ''@'' \<notin> set l \<and> CHR ''@'' \<notin> set d \<and>
       CHR ''.'' \<in> set d \<and> email_domain e = d)"
proof -
  note p = email_parse_Some[OF assms]
  have low: "to_ascii_lowercase (email_str e) = email_str e" using p(1) by simp
  have "trim (email_str e) = email_str e" using p(2) by (rule trim_no_whitespace)
  then have "email_parse (email_str e) = email_parse raw"
    using low p(1) by (simp add: email_parse_def)
  then show ?thesis using assms low p(3) by auto
qed

text \<open>\<open>Bob@X.io\<close> parses to \<open>bob@x.io\<close>.\<close>

theorem email_parse_normal_form_witness:
  "email_parse ''bob@x.io'' = Some (EmailAddr ''bob@x.io'')"
proof -
  have "email_parse ''Bob@X.io'' = Some (EmailAddr ''bob@x.io'')"
    by code_simp
  from email_parse_normal_form[OF this] show ?thesis by simp
qed

text \<open>
  Access to a workspace. A login is allowed exactly for an active member of this workspace
  whose e-mail domain is allowed, by verified SSO where the workspace requires it, and grants the
  membership's role; enrollment needs the same active membership. An accepted invitation makes
  exactly such a membership, so whoever accepts one may then log in with the same address and
  method.
\<close>

theorem access_exact:
  "(authorize_login email method w m = LoginAllow r \<longleftrightarrow>
      domain_allowed w email \<and> (ws_sso w = Optional \<or> method = Sso True) \<and>
      (\<exists>u. m = Some \<lparr>me_workspace = ws_id w, me_user = u, me_role = r, me_status = Active\<rparr>)) \<and>
   (authorize_enrollment w m = EnrollAllow wid r \<longleftrightarrow> wid = ws_id w \<and>
      (\<exists>u. m = Some \<lparr>me_workspace = ws_id w, me_user = u, me_role = r, me_status = Active\<rparr>)) \<and>
   (\<forall>mm. accept_invitation user email method w ivn now = Inr mm \<longleftrightarrow>
      iv_email ivn = email \<and> \<not> iv_accepted ivn \<and> now \<le> iv_expires_at ivn \<and>
      authorize_login email method w (Some mm) = LoginAllow (iv_role ivn) \<and> me_user mm = user)"
proof -
  have sso: "\<not> (ws_sso w = Required \<and> \<not> is_verified_sso method) \<longleftrightarrow> ws_sso w = Optional \<or> method = Sso True"
    by (cases "ws_sso w") (auto simp: is_verified_sso_def)
  have act: "active_member_role w m = Inr r \<longleftrightarrow>
      (\<exists>u. m = Some \<lparr>me_workspace = ws_id w, me_user = u, me_role = r, me_status = Active\<rparr>)" for m r
  proof (cases m)
    case (Some a)
    then show ?thesis
      by (cases a) (auto simp: active_member_role_def split: membership_status.splits if_splits)
  qed (simp add: active_member_role_def)
  have login: "authorize_login email method w m = LoginAllow r \<longleftrightarrow>
      domain_allowed w email \<and> (ws_sso w = Optional \<or> method = Sso True) \<and>
      (\<exists>u. m = Some \<lparr>me_workspace = ws_id w, me_user = u, me_role = r, me_status = Active\<rparr>)" for m r
    unfolding authorize_login_def sso[symmetric] act[symmetric] by (auto split: sum.splits)
  have "authorize_enrollment w m = EnrollAllow wid r \<longleftrightarrow> wid = ws_id w \<and> active_member_role w m = Inr r"
    by (auto simp: authorize_enrollment_def split: sum.splits)
  moreover have "accept_invitation user email method w ivn now = Inr mm \<longleftrightarrow>
      iv_email ivn = email \<and> \<not> iv_accepted ivn \<and> now \<le> iv_expires_at ivn \<and>
      authorize_login email method w (Some mm) = LoginAllow (iv_role ivn) \<and> me_user mm = user" for mm
    unfolding accept_invitation_def login sso[symmetric] by auto
  ultimately show ?thesis using login act by simp
qed

text \<open>
  Roles. The role order is Member below Admin below Owner; what a role may do a higher role
  may do too, every role may enroll a device, and only an owner may administer the workspace.
\<close>

theorem roles_monotone:
  "(r \<le> s \<and> can r a \<longrightarrow> can s a) \<and> can r EnrollDevice \<and> (can r AdministerWorkspace \<longleftrightarrow> r = Owner) \<and>
   (can r ManagePolicy \<longleftrightarrow> r \<noteq> Member)"
  by (cases r) (auto simp: can_def less_eq_role_def)

text \<open>An admin may do what a member may.\<close>

theorem roles_monotone_witness: "Member \<le> Admin \<and> can Member EnrollDevice \<and> can Admin EnrollDevice"
  using roles_monotone[of Member Admin EnrollDevice] by (simp add: less_eq_role_def can_def)

end
