(* ===== verification/Rust_Num.thy ===== *)
theory Rust_Num
  imports Rust_Str
begin

text \<open>
  Decimal output and input of integers, as \<open>u64::to_string\<close> and \<open>str::parse\<close> do it, with their round
  trip; used by the persisted counter and the messages that carry numbers. Hexadecimal output is
  that of the gateway's \<open>hex\<close>.
\<close>

definition digit_char :: "nat \<Rightarrow> char" where
  "digit_char d = char_of (48 + d)"

fun dec_of_nat :: "nat \<Rightarrow> string" where
  "dec_of_nat n = (if n < 10 then [digit_char n] else dec_of_nat (n div 10) @ [digit_char (n mod 10)])"

declare dec_of_nat.simps [simp del]

definition is_digit :: "char \<Rightarrow> bool" where
  "is_digit c = (48 \<le> (of_char c :: nat) \<and> (of_char c :: nat) \<le> 57)"

definition parse_nat :: "string \<Rightarrow> nat option" where
  "parse_nat s =
     (if s = [] \<or> \<not> list_all is_digit s then None
      else Some (foldl (\<lambda>a c. a * 10 + ((of_char c :: nat) - 48)) 0 s))"

definition parse_u64 :: "string \<Rightarrow> u64 option" where
  "parse_u64 s =
     (let t = (case s of c # r \<Rightarrow> (if c = CHR ''+'' then r else s) | [] \<Rightarrow> s)
      in case parse_nat t of None \<Rightarrow> None | Some n \<Rightarrow> if n < 2 ^ 64 then Some (of_nat n) else None)"

definition dec_of_word :: "'a::len word \<Rightarrow> string" where
  "dec_of_word w = dec_of_nat (unat w)"

lemma of_char_digit: "d < 10 \<Longrightarrow> (of_char (digit_char d) :: nat) = 48 + d"
  by (simp add: digit_char_def)

lemma digit_is_digit: "d < 10 \<Longrightarrow> is_digit (digit_char d)"
  by (simp add: is_digit_def of_char_digit)

lemma dec_of_nat_digits: "dec_of_nat n \<noteq> [] \<and> list_all is_digit (dec_of_nat n)"
proof (induction n rule: dec_of_nat.induct)
  case (1 n)
  then show ?case by (subst (1 2) dec_of_nat.simps) (simp add: digit_is_digit)
qed

lemma dec_of_nat_value:
  "foldl (\<lambda>a c. a * 10 + ((of_char c :: nat) - 48)) 0 (dec_of_nat n) = n"
proof (induction n rule: dec_of_nat.induct)
  case (1 n)
  show ?case
  proof (cases "n < 10")
    case True
    then show ?thesis by (subst dec_of_nat.simps) (simp add: of_char_digit)
  next
    case False
    then show ?thesis using 1 by (subst dec_of_nat.simps) (simp add: of_char_digit)
  qed
qed

lemma parse_nat_dec: "parse_nat (dec_of_nat n) = Some n"
  using dec_of_nat_digits[of n] by (simp add: parse_nat_def dec_of_nat_value)

lemma digit_not_plus: "is_digit c \<Longrightarrow> c \<noteq> CHR ''+''"
  by (auto simp: is_digit_def)

lemma parse_u64_dec: "parse_u64 (dec_of_word (w :: u64)) = Some w"
proof -
  obtain c r where d: "dec_of_nat (unat w) = c # r" using dec_of_nat_digits by (cases "dec_of_nat (unat w)") auto
  then have "c \<noteq> CHR ''+''" using dec_of_nat_digits[of "unat w"] digit_not_plus by auto
  moreover have "unat w < 2 ^ 64" using unsigned_less[of w, where 'a = nat] by simp
  ultimately show ?thesis
    using parse_nat_dec[of "unat w"] by (simp add: parse_u64_def dec_of_word_def d)
qed

lemma ws_seqs_hd: "list_all (\<lambda>w. w \<noteq> [] \<and> \<not> is_digit (hd w)) ws_seqs"
  by (simp add: ws_seqs_def is_digit_def)

lemma digit_ws: "is_digit c \<Longrightarrow> ws_prefix (c # s) = None"
proof -
  assume c: "is_digit c"
  have "take (length w) (c # s) \<noteq> w" if "w \<in> set ws_seqs" for w
    using ws_seqs_hd that c by (cases w) (auto simp: list_all_iff)
  then show ?thesis by (simp add: ws_prefix_def find_None_all)
qed

lemma digits_no_whitespace: "list_all is_digit s \<Longrightarrow> \<not> contains_whitespace s"
  by (induction s) (auto simp: digit_ws)

lemma trim_dec: "trim (dec_of_word w) = dec_of_word w"
  using dec_of_nat_digits by (simp add: dec_of_word_def trim_no_whitespace digits_no_whitespace)

definition hex_digit :: "nat \<Rightarrow> char" where
  "hex_digit d = (if d < 10 then char_of (48 + d) else char_of (87 + d))"

definition hex :: "bytes \<Rightarrow> string" where
  "hex bs = concat (map (\<lambda>b. [hex_digit (unat (drop_bit 4 b)), hex_digit (unat (b AND 0x0F))]) bs)"

fun hex_of_nat :: "nat \<Rightarrow> string" where
  "hex_of_nat n = (if n < 16 then [hex_digit n] else hex_of_nat (n div 16) @ [hex_digit (n mod 16)])"

declare hex_of_nat.simps [simp del]

end
