(* ===== verification/Gateway_Store.thy ===== *)
theory Gateway_Store
  imports Identity Rust_Num
begin

text \<open>
  \<open>clave-gateway/src/store.rs\<close>, \<open>error.rs\<close>, \<open>session.rs\<close> and \<open>scim.rs\<close>: the directory of
  workspaces, users, memberships, invitations and devices. \<open>Store\<close> is a trait; it is modelled as a
  record of operations on a state, with the locale \<open>gateway_store\<close> as its contract and \<open>MemStore\<close>
  as the implementation it is interpreted on.
\<close>

section \<open>Errors, sessions and directory events\<close>

datatype gateway_error =
    Unauthorized deny_reason
  | Forbidden string
  | GNotFound string
  | GInvite invite_error
  | GIdp string
  | GStore string
  | NoSuchWorkspace
  | SessionInvalid
  | GCounter string

fun gateway_error_display :: "gateway_error \<Rightarrow> string" where
  "gateway_error_display (Unauthorized r) = ''unauthorized: '' @ deny_reason_display r"
| "gateway_error_display (Forbidden m) = ''forbidden: '' @ m"
| "gateway_error_display (GNotFound m) = ''not found: '' @ m"
| "gateway_error_display (GInvite e) = ''invitation: '' @ invite_error_display e"
| "gateway_error_display (GIdp m) = ''identity provider error: '' @ m"
| "gateway_error_display (GStore m) = ''store error: '' @ m"
| "gateway_error_display NoSuchWorkspace = ''no such workspace''"
| "gateway_error_display SessionInvalid = ''invalid or expired session''"
| "gateway_error_display (GCounter m) = ''command counter error: '' @ m"

record session =
  ss_user :: user_id
  ss_workspace :: workspace_id
  ss_role :: role
  ss_expires_at :: unix_time
  ss_refresh_token :: string

record request_context =
  rc_user :: user_id
  rc_workspace :: workspace_id
  rc_role :: role

datatype scim_event =
    UserActivated workspace_id email_addr
  | UserDeactivated workspace_id email_addr
  | UserDeleted workspace_id email_addr

fun scim_workspace :: "scim_event \<Rightarrow> workspace_id" where
  "scim_workspace (UserActivated w _) = w"
| "scim_workspace (UserDeactivated w _) = w"
| "scim_workspace (UserDeleted w _) = w"

fun scim_email :: "scim_event \<Rightarrow> email_addr" where
  "scim_email (UserActivated _ e) = e"
| "scim_email (UserDeactivated _ e) = e"
| "scim_email (UserDeleted _ e) = e"

fun scim_activates :: "scim_event \<Rightarrow> bool" where
  "scim_activates (UserActivated _ _) = True"
| "scim_activates _ = False"

datatype membership_delta = DeltaSuspended user_id | DeltaRestored user_id | DeltaUnchanged

section \<open>Records of the store\<close>

datatype device_id = DeviceId (device_num: u128)

datatype device_status = DPending | DActive | DLocked | DWiped

record device_record =
  dr_id :: device_id
  dr_enrolled_by :: user_id
  dr_status :: device_status
  dr_pubkey :: string

record member_record =
  mr_user :: user_id
  mr_email :: string
  mr_role :: role
  mr_status :: membership_status

record stored_device =
  sv_workspace :: workspace_id
  sv_enrolled_by :: user_id
  sv_pubkey :: bytes
  sv_status :: device_status

definition stored_device_record :: "stored_device \<Rightarrow> device_id \<Rightarrow> device_record" where
  "stored_device_record d i =
     \<lparr>dr_id = i, dr_enrolled_by = sv_enrolled_by d, dr_status = sv_status d,
      dr_pubkey = hex (sv_pubkey d)\<rparr>"

record mem_store =
  ms_next_user :: u64
  ms_next_device :: u128
  ms_workspaces :: "(workspace_id, workspace) hmap"
  ms_users :: "(string, user_id) hmap"
  ms_emails :: "(user_id, string) hmap"
  ms_memberships :: "(workspace_id \<times> user_id, membership) hmap"
  ms_invitations :: "(workspace_id \<times> string, invitation) hmap"
  ms_devices_by_key :: "(workspace_id \<times> bytes, device_id) hmap"
  ms_devices :: "(device_id, stored_device) hmap"
  ms_device_fingerprints :: "(bytes, device_id) hmap"

section \<open>The interface\<close>

record 's store_ops =
  so_workspace :: "'s \<Rightarrow> workspace_id \<Rightarrow> gateway_error + workspace option"
  so_upsert_user :: "'s \<Rightarrow> email_addr \<Rightarrow> string \<Rightarrow> 's \<times> (gateway_error + user_id)"
  so_membership :: "'s \<Rightarrow> workspace_id \<Rightarrow> user_id \<Rightarrow> gateway_error + membership option"
  so_put_membership :: "'s \<Rightarrow> membership \<Rightarrow> 's \<times> (gateway_error + unit)"
  so_list_members :: "'s \<Rightarrow> workspace_id \<Rightarrow> gateway_error + member_record list"
  so_invitation :: "'s \<Rightarrow> workspace_id \<Rightarrow> email_addr \<Rightarrow> gateway_error + invitation option"
  so_put_invitation :: "'s \<Rightarrow> invitation \<Rightarrow> 's \<times> (gateway_error + unit)"
  so_list_invitations :: "'s \<Rightarrow> workspace_id \<Rightarrow> gateway_error + invitation list"
  so_mark_invitation_accepted :: "'s \<Rightarrow> workspace_id \<Rightarrow> email_addr \<Rightarrow> 's \<times> (gateway_error + unit)"
  so_record_device :: "'s \<Rightarrow> workspace_id \<Rightarrow> user_id \<Rightarrow> bytes \<Rightarrow> 's \<times> (gateway_error + device_id)"
  so_list_devices :: "'s \<Rightarrow> workspace_id \<Rightarrow> gateway_error + device_record list"
  so_device :: "'s \<Rightarrow> workspace_id \<Rightarrow> device_id \<Rightarrow> gateway_error + device_record option"
  so_set_device_status :: "'s \<Rightarrow> workspace_id \<Rightarrow> device_id \<Rightarrow> device_status \<Rightarrow> 's \<times> (gateway_error + unit)"
  so_set_device_fingerprint :: "'s \<Rightarrow> device_id \<Rightarrow> bytes \<Rightarrow> 's \<times> (gateway_error + unit)"
  so_device_by_fingerprint :: "'s \<Rightarrow> bytes \<Rightarrow> gateway_error + device_id option"

section \<open>MemStore\<close>

definition mem_store_new :: mem_store where
  "mem_store_new =
     \<lparr>ms_next_user = 0, ms_next_device = 0, ms_workspaces = [], ms_users = [], ms_emails = [],
      ms_memberships = [], ms_invitations = [], ms_devices_by_key = [], ms_devices = [],
      ms_device_fingerprints = []\<rparr>"

definition seed_workspace :: "mem_store \<Rightarrow> workspace \<Rightarrow> mem_store" where
  "seed_workspace s w = s\<lparr>ms_workspaces := hm_insert (ms_workspaces s) (ws_id w) w\<rparr>"

definition seed_membership :: "mem_store \<Rightarrow> membership \<Rightarrow> mem_store" where
  "seed_membership s m =
     s\<lparr>ms_memberships := hm_insert (ms_memberships s) (me_workspace m, me_user m) m\<rparr>"

definition seed_invitation :: "mem_store \<Rightarrow> invitation \<Rightarrow> mem_store" where
  "seed_invitation s i =
     s\<lparr>ms_invitations := hm_insert (ms_invitations s) (iv_workspace i, email_str (iv_email i)) i\<rparr>"

definition ms_workspace :: "mem_store \<Rightarrow> workspace_id \<Rightarrow> gateway_error + workspace option" where
  "ms_workspace s i = Inr (hm_get (ms_workspaces s) i)"

definition ms_upsert_user :: "mem_store \<Rightarrow> email_addr \<Rightarrow> string \<Rightarrow> mem_store \<times> (gateway_error + user_id)" where
  "ms_upsert_user s email idp_user_id =
     (case hm_get (ms_users s) (email_str email) of
        Some i \<Rightarrow> (s, Inr i)
      | None \<Rightarrow>
          (let n = ms_next_user s + 1; i = UserId n
           in (s\<lparr>ms_next_user := n, ms_users := hm_insert (ms_users s) (email_str email) i,
                 ms_emails := hm_insert (ms_emails s) i (email_str email)\<rparr>, Inr i)))"

definition ms_membership :: "mem_store \<Rightarrow> workspace_id \<Rightarrow> user_id \<Rightarrow> gateway_error + membership option" where
  "ms_membership s w u = Inr (hm_get (ms_memberships s) (w, u))"

definition ms_put_membership :: "mem_store \<Rightarrow> membership \<Rightarrow> mem_store \<times> (gateway_error + unit)" where
  "ms_put_membership s m =
     (s\<lparr>ms_memberships := hm_insert (ms_memberships s) (me_workspace m, me_user m) m\<rparr>, Inr ())"

definition ms_list_members :: "mem_store \<Rightarrow> workspace_id \<Rightarrow> gateway_error + member_record list" where
  "ms_list_members s w =
     Inr (sort_key (\<lambda>m. user_num (mr_user m))
       (map (\<lambda>m. \<lparr>mr_user = me_user m,
                  mr_email = (case hm_get (ms_emails s) (me_user m) of Some e \<Rightarrow> e | None \<Rightarrow> []),
                  mr_role = me_role m, mr_status = me_status m\<rparr>)
         (filter (\<lambda>m. me_workspace m = w) (hm_values (ms_memberships s)))))"

definition ms_invitation :: "mem_store \<Rightarrow> workspace_id \<Rightarrow> email_addr \<Rightarrow> gateway_error + invitation option" where
  "ms_invitation s w e = Inr (hm_get (ms_invitations s) (w, email_str e))"

definition ms_put_invitation :: "mem_store \<Rightarrow> invitation \<Rightarrow> mem_store \<times> (gateway_error + unit)" where
  "ms_put_invitation s i =
     (s\<lparr>ms_invitations := hm_insert (ms_invitations s) (iv_workspace i, email_str (iv_email i)) i\<rparr>, Inr ())"

definition ms_list_invitations :: "mem_store \<Rightarrow> workspace_id \<Rightarrow> gateway_error + invitation list" where
  "ms_list_invitations s w =
     Inr (sort_key (\<lambda>i. email_str (iv_email i))
       (filter (\<lambda>i. iv_workspace i = w) (hm_values (ms_invitations s))))"

definition ms_mark_invitation_accepted ::
  "mem_store \<Rightarrow> workspace_id \<Rightarrow> email_addr \<Rightarrow> mem_store \<times> (gateway_error + unit)" where
  "ms_mark_invitation_accepted s w e =
     (case hm_get (ms_invitations s) (w, email_str e) of
        Some i \<Rightarrow> (s\<lparr>ms_invitations := hm_insert (ms_invitations s) (w, email_str e) (i\<lparr>iv_accepted := True\<rparr>)\<rparr>, Inr ())
      | None \<Rightarrow> (s, Inr ()))"

definition ms_record_device ::
  "mem_store \<Rightarrow> workspace_id \<Rightarrow> user_id \<Rightarrow> bytes \<Rightarrow> mem_store \<times> (gateway_error + device_id)" where
  "ms_record_device s w enrolled_by pubkey =
     (case hm_get (ms_devices_by_key s) (w, pubkey) of
        Some i \<Rightarrow>
          (case hm_get (ms_devices s) i of
             Some d \<Rightarrow> (s\<lparr>ms_devices := hm_insert (ms_devices s) i (d\<lparr>sv_status := DActive\<rparr>)\<rparr>, Inr i)
           | None \<Rightarrow> (s, Inr i))
      | None \<Rightarrow>
          (let n = ms_next_device s + 1; i = DeviceId n
           in (s\<lparr>ms_next_device := n,
                 ms_devices_by_key := hm_insert (ms_devices_by_key s) (w, pubkey) i,
                 ms_devices := hm_insert (ms_devices s) i
                   \<lparr>sv_workspace = w, sv_enrolled_by = enrolled_by, sv_pubkey = pubkey, sv_status = DActive\<rparr>\<rparr>,
               Inr i)))"

definition ms_list_devices :: "mem_store \<Rightarrow> workspace_id \<Rightarrow> gateway_error + device_record list" where
  "ms_list_devices s w =
     Inr (sort_key (\<lambda>d. device_num (dr_id d))
       (map (\<lambda>(i, d). stored_device_record d i)
         (filter (\<lambda>(_, d). sv_workspace d = w) (ms_devices s))))"

definition ms_device :: "mem_store \<Rightarrow> workspace_id \<Rightarrow> device_id \<Rightarrow> gateway_error + device_record option" where
  "ms_device s w i =
     Inr (case hm_get (ms_devices s) i of
            Some d \<Rightarrow> (if sv_workspace d = w then Some (stored_device_record d i) else None)
          | None \<Rightarrow> None)"

definition ms_set_device_status ::
  "mem_store \<Rightarrow> workspace_id \<Rightarrow> device_id \<Rightarrow> device_status \<Rightarrow> mem_store \<times> (gateway_error + unit)" where
  "ms_set_device_status s w i st =
     (case hm_get (ms_devices s) i of
        Some d \<Rightarrow>
          (if sv_workspace d = w
           then (s\<lparr>ms_devices := hm_insert (ms_devices s) i (d\<lparr>sv_status := st\<rparr>)\<rparr>, Inr ())
           else (s, Inl (GNotFound (''device '' @ dec_of_word (device_num i)))))
      | None \<Rightarrow> (s, Inl (GNotFound (''device '' @ dec_of_word (device_num i)))))"

definition ms_set_device_fingerprint ::
  "mem_store \<Rightarrow> device_id \<Rightarrow> bytes \<Rightarrow> mem_store \<times> (gateway_error + unit)" where
  "ms_set_device_fingerprint s i fp =
     (s\<lparr>ms_device_fingerprints := hm_insert (ms_device_fingerprints s) fp i\<rparr>, Inr ())"

definition ms_device_by_fingerprint :: "mem_store \<Rightarrow> bytes \<Rightarrow> gateway_error + device_id option" where
  "ms_device_by_fingerprint s fp = Inr (hm_get (ms_device_fingerprints s) fp)"

definition mem_store_ops :: "mem_store store_ops" where
  "mem_store_ops =
     \<lparr>so_workspace = ms_workspace, so_upsert_user = ms_upsert_user, so_membership = ms_membership,
      so_put_membership = ms_put_membership, so_list_members = ms_list_members,
      so_invitation = ms_invitation, so_put_invitation = ms_put_invitation,
      so_list_invitations = ms_list_invitations,
      so_mark_invitation_accepted = ms_mark_invitation_accepted, so_record_device = ms_record_device,
      so_list_devices = ms_list_devices, so_device = ms_device,
      so_set_device_status = ms_set_device_status,
      so_set_device_fingerprint = ms_set_device_fingerprint,
      so_device_by_fingerprint = ms_device_by_fingerprint\<rparr>"

section \<open>The contract\<close>

text \<open>
  What the gateway relies on: the memberships are a map that only \<open>put_membership\<close> changes, the
  invitations one that only \<open>put_invitation\<close> and accepting one change, and what is read is what is
  there. An operation may fail, and whether it then took effect is not known.
\<close>

locale gateway_store =
  fixes so :: "'s store_ops"
    and members :: "'s \<Rightarrow> workspace_id \<Rightarrow> user_id \<Rightarrow> membership option"
    and invites :: "'s \<Rightarrow> workspace_id \<Rightarrow> email_addr \<Rightarrow> invitation option"
  assumes membership_get: "so_membership so s w u = Inr found \<Longrightarrow> found = members s w u"
    and membership_put: "so_put_membership so s m = (s', r) \<Longrightarrow> invites s' = invites s \<and>
      (members s' = (\<lambda>w u. if w = me_workspace m \<and> u = me_user m then Some m else members s w u) \<or>
       isl r \<and> members s' = members s)"
    and upsert_frame: "members (fst (so_upsert_user so s e x)) = members s"
      "invites (fst (so_upsert_user so s e x)) = invites s"
    and mark_frame: "so_mark_invitation_accepted so s w e = (s', r) \<Longrightarrow> members s' = members s \<and>
      (invites s' = (\<lambda>w' e'. if w' = w \<and> email_str e' = email_str e
                      then map_option (iv_accepted_update (\<lambda>_. True)) (invites s w' e') else invites s w' e') \<or>
       isl r \<and> invites s' = invites s)"
    and put_invitation: "so_put_invitation so s i = (s', r) \<Longrightarrow> members s' = members s \<and>
      (invites s' = (\<lambda>w e. if w = iv_workspace i \<and> email_str e = email_str (iv_email i) then Some i else invites s w e) \<or>
       isl r \<and> invites s' = invites s)"
    and invitation_get: "so_invitation so s w e = Inr ivn \<Longrightarrow> ivn = invites s w e"
    and device_frame: "members (fst (so_set_device_status so s w d st)) = members s"
      "members (fst (so_record_device so s w u k)) = members s"
      "members (fst (so_set_device_fingerprint so s d fp)) = members s"
      "invites (fst (so_set_device_status so s w d st)) = invites s"
      "invites (fst (so_record_device so s w u k)) = invites s"
      "invites (fst (so_set_device_fingerprint so s d fp)) = invites s"

text \<open>
  A store whose rows are filed under their own keys, which every operation keeps.
\<close>

locale keyed_store = gateway_store so members invites
  for so :: "'s store_ops" and members invites +
  fixes keyed :: "'s \<Rightarrow> bool"
  assumes keyed_workspace: "keyed s \<Longrightarrow> so_workspace so s w = Inr (Some x) \<Longrightarrow> ws_id x = w"
    and keyed_member: "keyed s \<Longrightarrow> members s w u = Some m \<Longrightarrow> me_workspace m = w \<and> me_user m = u"
    and keyed_steps: "keyed s \<Longrightarrow> keyed (fst (so_upsert_user so s e idp))"
      "keyed s \<Longrightarrow> keyed (fst (so_put_membership so s m))"
      "keyed s \<Longrightarrow> keyed (fst (so_put_invitation so s i))"
      "keyed s \<Longrightarrow> keyed (fst (so_mark_invitation_accepted so s w e))"
      "keyed s \<Longrightarrow> keyed (fst (so_set_device_status so s w d st))"
      "keyed s \<Longrightarrow> keyed (fst (so_record_device so s w u k))"
      "keyed s \<Longrightarrow> keyed (fst (so_set_device_fingerprint so s d fp))"

text \<open>A store whose reads do not fail.\<close>

locale reliable_store = keyed_store so members invites keyed
  for so :: "'s store_ops" and members invites keyed +
  assumes membership_found: "so_membership so s w u = Inr (members s w u)"

definition ms_keyed :: "mem_store \<Rightarrow> bool" where
  "ms_keyed s =
     ((\<forall>w x. hm_get (ms_workspaces s) w = Some x \<longrightarrow> ws_id x = w) \<and>
      (\<forall>w u m. hm_get (ms_memberships s) (w, u) = Some m \<longrightarrow> me_workspace m = w \<and> me_user m = u))"

lemmas mem_store_defs = mem_store_ops_def ms_membership_def ms_put_membership_def ms_upsert_user_def
  ms_mark_invitation_accepted_def ms_put_invitation_def ms_invitation_def ms_set_device_status_def
  ms_record_device_def ms_set_device_fingerprint_def

interpretation mks: reliable_store mem_store_ops
  "\<lambda>s w u. hm_get (ms_memberships s) (w, u)" "\<lambda>s w e. hm_get (ms_invitations s) (w, email_str e)" ms_keyed
  by unfold_locales
    (auto simp: mem_store_defs ms_workspace_def ms_keyed_def Let_def fun_eq_iff split: option.splits)

section \<open>Invariants of MemStore\<close>

text \<open>
  Users and their addresses are in bijection, devices are known by their key, and every identifier
  handed out is at most the counter that made it.
\<close>

definition ms_wf :: "mem_store \<Rightarrow> bool" where
  "ms_wf s =
     ((\<forall>e i. hm_get (ms_users s) e = Some i \<longleftrightarrow> hm_get (ms_emails s) i = Some e) \<and>
      (\<forall>i e. hm_get (ms_emails s) i = Some e \<longrightarrow> user_num i \<le> ms_next_user s) \<and>
      (\<forall>i d. hm_get (ms_devices s) i = Some d \<longrightarrow> device_num i \<le> ms_next_device s \<and>
          hm_get (ms_devices_by_key s) (sv_workspace d, sv_pubkey d) = Some i) \<and>
      (\<forall>k i. hm_get (ms_devices_by_key s) k = Some i \<longrightarrow>
          (\<exists>d. hm_get (ms_devices s) i = Some d \<and> (sv_workspace d, sv_pubkey d) = k)))"

lemma ms_wf_new: "ms_wf mem_store_new"
  by (simp add: ms_wf_def mem_store_new_def)

lemma unat_succ: "n + 1 \<noteq> 0 \<Longrightarrow> unat (n + 1 :: 'a::len word) = Suc (unat n)"
  using unatSuc[of n] by (simp add: add.commute)

lemma word_succ_fresh: "x \<le> n \<Longrightarrow> n + 1 \<noteq> 0 \<Longrightarrow> x \<noteq> n + (1 :: 'a::len word)"
  using unat_succ[of n] by (auto simp: word_le_nat_alt)

lemma word_le_succ: "x \<le> n \<Longrightarrow> n + 1 \<noteq> 0 \<Longrightarrow> x \<le> n + (1 :: 'a::len word)"
  using unat_succ[of n] by (auto simp: word_le_nat_alt)

lemma user_fresh:
  assumes "ms_wf s" "ms_next_user s + 1 \<noteq> 0"
  shows "hm_get (ms_emails s) (UserId (ms_next_user s + 1)) = None"
proof (rule ccontr)
  assume "hm_get (ms_emails s) (UserId (ms_next_user s + 1)) \<noteq> None"
  then have "ms_next_user s + 1 \<le> ms_next_user s"
    using assms(1) by (force simp: ms_wf_def)
  then show False using word_succ_fresh[OF _ assms(2)] by blast
qed

lemma ms_wf_upsert:
  assumes "ms_wf s" "ms_next_user s + 1 \<noteq> 0"
  shows "ms_wf (fst (ms_upsert_user s e x))"
proof (cases "hm_get (ms_users s) (email_str e)")
  case None
  have fresh: "hm_get (ms_users s) k \<noteq> Some (UserId (ms_next_user s + 1))" for k
    using user_fresh[OF assms] assms(1) by (auto simp: ms_wf_def)
  have "hm_get (ms_emails s) i \<noteq> Some (email_str e)" for i
    using None assms(1) unfolding ms_wf_def by (metis option.distinct(1))
  then show ?thesis
    using assms(1) None fresh user_fresh[OF assms] word_le_succ[OF _ assms(2)]
    unfolding ms_wf_def ms_upsert_user_def Let_def by auto
next
  case (Some i)
  then show ?thesis using assms(1) by (simp add: ms_upsert_user_def)
qed

text \<open>
  Users are their addresses. Upserting an address returns a user whose address it is, returns
  the same user ever after, and never changes the user of another address; distinct addresses have
  distinct users.
\<close>

theorem upsert_user_identity:
  assumes "ms_wf s" "ms_next_user s + 1 \<noteq> 0"
  shows "\<exists>s' i. ms_upsert_user s e x = (s', Inr i) \<and> ms_wf s' \<and>
    hm_get (ms_emails s') i = Some (email_str e) \<and> ms_upsert_user s' e y = (s', Inr i) \<and>
    (\<forall>a. a \<noteq> email_str e \<longrightarrow> hm_get (ms_users s') a = hm_get (ms_users s) a \<and> hm_get (ms_users s') a \<noteq> Some i)"
proof -
  obtain s' i where u: "ms_upsert_user s e x = (s', Inr i)"
    by (cases "hm_get (ms_users s) (email_str e)") (auto simp: ms_upsert_user_def Let_def)
  have wf: "ms_wf s'" using ms_wf_upsert[OF assms, of e x] u by simp
  have i: "hm_get (ms_users s') (email_str e) = Some i"
    using u by (auto simp: ms_upsert_user_def Let_def split: option.splits)
  moreover have "hm_get (ms_users s') a = hm_get (ms_users s) a" if "a \<noteq> email_str e" for a
    using u that by (auto simp: ms_upsert_user_def Let_def split: option.splits)
  moreover have em: "hm_get (ms_emails s') i = Some (email_str e)" using wf i by (simp add: ms_wf_def)
  moreover have "hm_get (ms_users s') a \<noteq> Some i" if "a \<noteq> email_str e" for a
    using wf em that unfolding ms_wf_def by auto
  ultimately show ?thesis using u wf by (auto simp: ms_upsert_user_def)
qed

text \<open>Two addresses in a new store.\<close>

theorem upsert_user_identity_witness:
  "\<exists>s' i. ms_upsert_user mem_store_new (EmailAddr ''a@b.c'') [] = (s', Inr i) \<and>
     hm_get (ms_emails s') i = Some ''a@b.c''"
  using upsert_user_identity[OF ms_wf_new, of "EmailAddr ''a@b.c''" "[]" "[]"]
  by (auto simp: mem_store_new_def)

end
