(* ===== verification/Gateway_Policy.thy ===== *)
theory Gateway_Policy
  imports Proto Gateway_Store Volume
begin

text \<open>
  \<open>clave-gateway/src/policy.rs\<close> and \<open>volume.rs\<close>: the command counters, the policy issuer with its
  version history, and the services that hand a workspace's volume key to a device. The counter is
  an interface: the locale \<open>counter_store\<close> says that every number it gives is above all earlier
  ones, and it is interpreted on the in-memory counter and on the file counter, whose number
  survives a restart because it is printed and parsed back.
\<close>

section \<open>Counters\<close>

type_synonym mem_counter = u64

definition mem_counter_new :: "u64 \<Rightarrow> mem_counter" where
  "mem_counter_new start = start"

definition mc_next :: "mem_counter \<Rightarrow> mem_counter \<times> (gateway_error + u64)" where
  "mc_next c = (c + 1, Inr (c + 1))"

definition mc_current :: "mem_counter \<Rightarrow> u64" where
  "mc_current c = c"

text \<open>
  The file counter: what its file holds, if it can be read, and the error that writing and renaming
  the temporary file gives, if any.
\<close>

record file_counter =
  fc_content :: "string option"
  fc_write_err :: "string option"

definition fc_read_current :: "file_counter \<Rightarrow> u64" where
  "fc_read_current c =
     (case fc_content c of
        None \<Rightarrow> 0
      | Some s \<Rightarrow> (case parse_u64 (trim s) of None \<Rightarrow> 0 | Some n \<Rightarrow> n))"

definition fc_next :: "file_counter \<Rightarrow> file_counter \<times> (gateway_error + u64)" where
  "fc_next c =
     (let n = fc_read_current c + 1
      in case fc_write_err c of
           Some e \<Rightarrow> (c, Inl (GCounter (''persist counter: '' @ e)))
         | None \<Rightarrow> (c\<lparr>fc_content := Some (dec_of_word n)\<rparr>, Inr n))"

definition fc_current :: "file_counter \<Rightarrow> u64" where
  "fc_current c = fc_read_current c"

locale counter_store =
  fixes next_of :: "'c \<Rightarrow> 'c \<times> (gateway_error + u64)"
    and current_of :: "'c \<Rightarrow> u64"
  assumes next_value: "snd (next_of c) = Inr n \<Longrightarrow> n = current_of c + 1 \<and> current_of (fst (next_of c)) = n"
    and next_error: "snd (next_of c) = Inl e \<Longrightarrow> current_of (fst (next_of c)) = current_of c"
begin

fun take_numbers :: "'c \<Rightarrow> nat \<Rightarrow> 'c \<times> u64 list" where
  "take_numbers c 0 = (c, [])"
| "take_numbers c (Suc k) =
     (let (c1, r) = next_of c; (c2, ns) = take_numbers c1 k
      in (c2, (case r of Inl _ \<Rightarrow> [] | Inr n \<Rightarrow> [n]) @ ns))"

lemma take_numbers_increasing:
  assumes "unat (current_of c) + k < 2 ^ 64"
  shows "sorted_wrt (<) (current_of c # snd (take_numbers c k)) \<and>
    unat (current_of (fst (take_numbers c k))) \<le> unat (current_of c) + k"
  using assms
proof (induction k arbitrary: c)
  case (Suc k)
  obtain c1 r where c1: "next_of c = (c1, r)" by fastforce
  show ?case
  proof (cases r)
    case (Inl e)
    then have "current_of c1 = current_of c" using next_error[of c] c1 by simp
    then show ?thesis using Suc.IH[of c1] Suc.prems c1 Inl by (auto split: prod.splits)
  next
    case (Inr n)
    then have n: "n = current_of c + 1" "current_of c1 = n" using next_value[of c n] c1 by simp_all
    have lt: "unat n = unat (current_of c) + 1" using n Suc.prems word_Suc_unat[of "current_of c"] by simp
    then have "current_of c < n" by (simp add: word_less_nat_alt)
    moreover from this have "n < x \<Longrightarrow> current_of c < x" for x by simp
    ultimately show ?thesis using Suc.IH[of c1] Suc.prems lt n(2) c1 Inr
      by (auto split: prod.splits)
  qed
qed simp

end

interpretation mc: counter_store mc_next mc_current
  by unfold_locales (auto simp: mc_next_def mc_current_def)

lemma fc_read_written: "fc_content c = Some (dec_of_word n) \<Longrightarrow> fc_read_current c = n"
  by (simp add: fc_read_current_def trim_dec parse_u64_dec)

interpretation fc: counter_store fc_next fc_current
  by unfold_locales
    (auto simp: fc_next_def fc_current_def Let_def fc_read_written split: option.splits)

section \<open>The policy issuer\<close>

record 'c policy_issuer =
  pi_signer :: gateway_signing_key
  pi_policies :: "(workspace_id, policy_bundle list) hmap"
  pi_counter :: 'c

definition issuer_with_counter :: "gateway_signing_key \<Rightarrow> 'c \<Rightarrow> 'c policy_issuer" where
  "issuer_with_counter signer c = \<lparr>pi_signer = signer, pi_policies = [], pi_counter = c\<rparr>"

definition set_policy :: "'c policy_issuer \<Rightarrow> workspace_id \<Rightarrow> policy_bundle \<Rightarrow> 'c policy_issuer" where
  "set_policy i w b = i\<lparr>pi_policies := hm_insert (pi_policies i) w [b]\<rparr>"

definition issuer_current :: "'c policy_issuer \<Rightarrow> workspace_id \<Rightarrow> policy_bundle option" where
  "issuer_current i w =
     (case hm_get (pi_policies i) w of None \<Rightarrow> None | Some h \<Rightarrow> if h = [] then None else Some (last h))"

definition sign_current ::
  "ed25519 \<Rightarrow> envelope codec \<Rightarrow> ('c \<Rightarrow> 'c \<times> (gateway_error + u64)) \<Rightarrow> 'c policy_issuer \<Rightarrow> workspace_id
     \<Rightarrow> unix_time \<Rightarrow> 'c policy_issuer \<times> (gateway_error + signed_command option)" where
  "sign_current ed pc nxt i w now =
     (case issuer_current i w of
        None \<Rightarrow> (i, Inr None)
      | Some bundle \<Rightarrow>
          (case nxt (pi_counter i) of
             (c, Inl e) \<Rightarrow> (i\<lparr>pi_counter := c\<rparr>, Inl e)
           | (c, Inr counter) \<Rightarrow>
               (i\<lparr>pi_counter := c\<rparr>,
                Inr (Some (gk_sign ed pc (pi_signer i) counter now (UpdatePolicy bundle))))))"

definition issue_initial_policy where
  "issue_initial_policy ed pc nxt i w now = sign_current ed pc nxt i w now"

definition reissue_policy where
  "reissue_policy ed pc nxt i w now = sign_current ed pc nxt i w now"

definition current_policy :: "'c policy_issuer \<Rightarrow> workspace_id \<Rightarrow> gateway_error + policy_bundle option" where
  "current_policy i w = Inr (issuer_current i w)"

definition author_policy ::
  "'c policy_issuer \<Rightarrow> workspace_id \<Rightarrow> policy_bundle \<Rightarrow> 'c policy_issuer \<times> (gateway_error + policy_bundle)" where
  "author_policy i w bundle =
     (let history = (case hm_get (pi_policies i) w of None \<Rightarrow> [] | Some h \<Rightarrow> h);
          b = bundle\<lparr>pb_version := (if history = [] then 1 else pb_version (last history) + 1)\<rparr>
      in (i\<lparr>pi_policies := hm_insert (pi_policies i) w (history @ [b])\<rparr>, Inr b))"

definition policy_versions :: "'c policy_issuer \<Rightarrow> workspace_id \<Rightarrow> gateway_error + u64 list" where
  "policy_versions i w =
     Inr (case hm_get (pi_policies i) w of None \<Rightarrow> [] | Some h \<Rightarrow> map pb_version h)"

section \<open>Volume key services\<close>

type_synonym key_service = "(workspace_id, container_id \<times> bytes) hmap"

definition key_service_set_container ::
  "key_service \<Rightarrow> workspace_id \<Rightarrow> container_id \<Rightarrow> bytes \<Rightarrow> key_service" where
  "key_service_set_container ks w c dek = hm_insert ks w (c, dek)"

definition mem_issue_wrapped_volume_key ::
  "aes_kw \<Rightarrow> key_service \<Rightarrow> workspace_id \<Rightarrow> bytes \<Rightarrow> gateway_error + wrapped_volume_key option" where
  "mem_issue_wrapped_volume_key kw ks w device_kek =
     (case hm_get ks w of
        None \<Rightarrow> Inr None
      | Some (container, dek) \<Rightarrow>
          Inr (Some \<lparr>wk_container = container_num container,
                     wk_wrapped_dek = wrapped_bytes (kek_wrap kw (Kek device_kek) (Dek dek)),
                     wk_ephemeral_pub = None\<rparr>))"

definition sealed_issue_wrapped_volume_key ::
  "sha256 \<Rightarrow> aes_kw \<Rightarrow> x25519 \<Rightarrow> device_sealing_key \<Rightarrow> key_service \<Rightarrow> workspace_id \<Rightarrow> bytes
     \<Rightarrow> gateway_error + wrapped_volume_key option" where
  "sealed_issue_wrapped_volume_key sha kw x ephemeral ks w device_pub =
     (case hm_get ks w of
        None \<Rightarrow> Inr None
      | Some (container, dek) \<Rightarrow>
          rbind (map_err (\<lambda>e. GStore (volume_error_display e)) (seal_dek sha kw x ephemeral device_pub (Dek dek)))
            (\<lambda>sealed. Inr (Some \<lparr>wk_container = container_num container,
                     wk_wrapped_dek = wrapped_bytes (sd_wrapped sealed),
                     wk_ephemeral_pub = Some (sd_ephemeral_pub sealed)\<rparr>)))"

section \<open>Properties\<close>

text \<open>Versions in a workspace's history: each authored bundle is one above the one before it.\<close>

fun author_all :: "'c policy_issuer \<Rightarrow> workspace_id \<Rightarrow> policy_bundle list \<Rightarrow> 'c policy_issuer" where
  "author_all i w [] = i"
| "author_all i w (b # bs) = author_all (fst (author_policy i w b)) w bs"

fun count_from :: "u64 \<Rightarrow> nat \<Rightarrow> u64 list" where
  "count_from v 0 = []"
| "count_from v (Suc n) = (v + 1) # count_from (v + 1) n"

lemma author_all_versions:
  assumes "policy_versions i w = Inr vs"
  shows "policy_versions (author_all i w bs) w =
    Inr (vs @ count_from (if vs = [] then 0 else last vs) (length bs))"
  using assms
proof (induction bs arbitrary: i vs)
  case (Cons b bs)
  have h: "vs = (case hm_get (pi_policies i) w of None \<Rightarrow> [] | Some h \<Rightarrow> map pb_version h)"
    using Cons.prems by (simp add: policy_versions_def)
  have "policy_versions (fst (author_policy i w b)) w = Inr (vs @ [if vs = [] then 1 else last vs + 1])"
    unfolding h
    by (auto simp: policy_versions_def author_policy_def Let_def last_map split: option.splits)
  from Cons.IH[OF this] show ?case by (simp split: if_splits)
qed simp

lemma count_from_sorted:
  "unat v + n < 2 ^ 64 \<Longrightarrow> sorted_wrt (<) (v # count_from v n)"
proof (induction n arbitrary: v)
  case (Suc n)
  then have u: "unat (v + 1) = unat v + 1" by (intro word_Suc_unat) simp
  then have "v < v + 1" by (simp add: word_less_nat_alt)
  moreover from this have "v + 1 < x \<Longrightarrow> v < x" for x by simp
  ultimately show ?case using Suc.IH[of "v + 1"] Suc.prems u by auto
qed simp

text \<open>
  Policy versions only grow. Whatever bundles a workspace's administrators author, their
  version numbers are the consecutive numbers after the last version, so every authored bundle is
  newer than all before it and what the devices get last is the newest.
\<close>

theorem authored_versions_increase:
  assumes "policy_versions i w = Inr vs" "vs = [] \<or> unat (last vs) + length bs < 2 ^ 64"
    and "length bs < 2 ^ 64"
  shows "policy_versions (author_all i w bs) w = Inr (vs @ count_from (if vs = [] then 0 else last vs) (length bs)) \<and>
    sorted_wrt (<) ((if vs = [] then 0 else last vs) # count_from (if vs = [] then 0 else last vs) (length bs))"
  using author_all_versions[OF assms(1)] count_from_sorted assms(2,3) by auto

text \<open>Two bundles authored in a workspace without a policy get versions 1 and 2.\<close>

theorem authored_versions_increase_witness:
  "policy_versions (author_all (issuer_with_counter (signing_key_from_seed (TenantId 1) []) (0 :: u64))
     (WorkspaceId 4) [restrictive_default, restrictive_default]) (WorkspaceId 4) = Inr [1, 2]"
  using authored_versions_increase[of "issuer_with_counter (signing_key_from_seed (TenantId 1) []) (0 :: u64)"
      "WorkspaceId 4" "[]" "[restrictive_default, restrictive_default]"]
  by (simp add: policy_versions_def issuer_with_counter_def)

context counter_store
begin

lemma issued_verifies:
  assumes "ed25519_correct ed" "issuer_current i w = Some b"
    and "next_of (pi_counter i) = (c, Inr n)"
    and "codec_ok_on pc {envelope_new (gk_tenant (pi_signer i)) n issued (UpdatePolicy b)}"
    and "gv_key v = gk_public_key ed (pi_signer i)" "gv_tenant v = gk_tenant (pi_signer i)"
    and "gv_high_water v \<le> current_of (pi_counter i)" "current_of (pi_counter i) \<noteq> - 1"
    and "fresh_at (gv_max_age_secs v) issued now"
  shows "\<exists>sc. sign_current ed pc next_of i w issued = (i\<lparr>pi_counter := c\<rparr>, Inr (Some sc)) \<and>
    verify ed pc v sc now = (v\<lparr>gv_high_water := current_of c\<rparr>, Inr (UpdatePolicy b))"
proof -
  have n: "n = current_of (pi_counter i) + 1" "current_of c = n"
    using next_value[of "pi_counter i" n] assms(3) by simp_all
  have "current_of (pi_counter i) + 1 \<noteq> 0" using assms(8) by (metis add.commute eq_neg_iff_add_eq_0)
  then have "unat n = Suc (unat (current_of (pi_counter i)))" using n(1) unat_succ by blast
  then have "\<not> n \<le> gv_high_water v" using assms(7) by (simp add: word_le_nat_alt)
  then show ?thesis
    using verify_signed[OF assms(1,4,5,6), of now] assms(2,3,9) n
    by (simp add: sign_current_def)
qed

end

text \<open>
  From the console to the device. The policy command the gateway issues for a workspace is
  accepted by every device pinned to the gateway whose high-water mark is at most the gateway's
  counter: it delivers exactly the workspace's current bundle and moves the mark to the new
  counter. With the persisted counter this also holds across gateway restarts.
\<close>

theorem issued_policy_accepted:
  assumes "ed25519_correct ed" "issuer_current i w = Some b"
    and "fc_next (pi_counter i) = (c, Inr n)"
    and "codec_ok_on pc {envelope_new (gk_tenant (pi_signer i)) n issued (UpdatePolicy b)}"
    and "gv_key v = gk_public_key ed (pi_signer i)" "gv_tenant v = gk_tenant (pi_signer i)"
    and "gv_high_water v \<le> fc_current (pi_counter i)" "fc_current (pi_counter i) \<noteq> - 1"
    and "fresh_at (gv_max_age_secs v) issued now"
  shows "\<exists>sc. reissue_policy ed pc fc_next i w issued = (i\<lparr>pi_counter := c\<rparr>, Inr (Some sc)) \<and>
    verify ed pc v sc now = (v\<lparr>gv_high_water := fc_current c\<rparr>, Inr (UpdatePolicy b))"
  using fc.issued_verifies[OF assms] by (simp add: reissue_policy_def)

text \<open>The fifth command of a gateway restarted at counter 4, on a device at mark 3.\<close>

definition demo_issuer :: "file_counter policy_issuer" where
  "demo_issuer = \<lparr>pi_signer = signing_key_from_seed (TenantId 3) [9],
     pi_policies = [(WorkspaceId 1, [restrictive_default])],
     pi_counter = \<lparr>fc_content = Some (dec_of_word (4 :: u64)), fc_write_err = None\<rparr>\<rparr>"

definition demo_policy_codec :: "envelope codec" where
  "demo_policy_codec = \<lparr>cd_enc = (\<lambda>_. [1]),
     cd_dec = (\<lambda>_. Some (envelope_new (TenantId 3) 5 100 (UpdatePolicy restrictive_default)))\<rparr>"

theorem issued_policy_accepted_witness:
  "\<exists>i sc v'. reissue_policy ed_demo demo_policy_codec fc_next demo_issuer (WorkspaceId 1) 100 = (i, Inr (Some sc)) \<and>
    verify ed_demo demo_policy_codec
      \<lparr>gv_tenant = TenantId 3, gv_key = [9], gv_high_water = 3, gv_max_age_secs = 50\<rparr> sc 120
    = (v', Inr (UpdatePolicy restrictive_default))"
proof -
  have cur: "fc_current (pi_counter demo_issuer) = 4"
    by (simp add: demo_issuer_def fc_current_def fc_read_written)
  define c where "c = (pi_counter demo_issuer)\<lparr>fc_content := Some (dec_of_word (5 :: u64))\<rparr>"
  have nxt: "fc_next (pi_counter demo_issuer) = (c, Inr 5)"
    using cur by (simp add: fc_next_def fc_current_def c_def) (simp add: demo_issuer_def)
  have hyp: "issuer_current demo_issuer (WorkspaceId 1) = Some restrictive_default"
    "pi_signer demo_issuer = signing_key_from_seed (TenantId 3) [9]"
    "codec_ok_on demo_policy_codec {envelope_new (TenantId 3) 5 100 (UpdatePolicy restrictive_default)}"
    by (simp_all add: demo_issuer_def issuer_current_def hm_get_def codec_ok_on_def demo_policy_codec_def)
  show ?thesis
    using issued_policy_accepted[OF ed_demo_correct hyp(1) nxt, of demo_policy_codec 100
        "\<lparr>gv_tenant = TenantId 3, gv_key = [9], gv_high_water = 3, gv_max_age_secs = 50\<rparr>" 120] cur hyp(2,3)
    by (auto simp: signing_key_from_seed_def gk_public_key_def ed_demo_def fresh_at_def word_le_nat_alt)
qed

end
