(* ===== verification/Gateway_Audit.thy ===== *)
theory Gateway_Audit
  imports Audit_Spool Gateway_Store
begin

text \<open>
  \<open>clave-gateway/src/audit_ingest.rs\<close>: the ledger that verifies the audit batches of the devices,
  and the store it is persisted to. The ledger accepts a batch only as the continuation of the
  device's chain; the events it holds for a device are the events of the accepted batches, in
  order; a device that starts its chain anew is refused.
\<close>

section \<open>Definitions\<close>

record audit_alert =
  aa_device :: device_id
  aa_kind :: string
  aa_detail :: string

record audit_record =
  au_device :: device_id
  au_event :: audit_event

datatype ingest_error = UnknownDevice device_id | IngestRejected audit_error

fun audit_error_display :: "audit_error \<Rightarrow> string" where
  "audit_error_display (Tampered q) = ''audit entry '' @ dec_of_word q @ '' was tampered with''"
| "audit_error_display (BrokenChain q) = ''audit chain broke at entry '' @ dec_of_word q"
| "audit_error_display (Gap ex got) =
     ''audit sequence gap: expected '' @ dec_of_word ex @ '', got '' @ dec_of_word got"
| "audit_error_display AuditBadSignature = ''audit batch signature verification failed''"
| "audit_error_display AuditMalformed = ''malformed audit batch''"

fun ingest_error_display :: "ingest_error \<Rightarrow> string" where
  "ingest_error_display (UnknownDevice d) = ''unknown device '' @ hex_of_nat (unat (device_num d))"
| "ingest_error_display (IngestRejected e) = ''audit batch rejected: '' @ audit_error_display e"

record device_chain =
  dc_public_key :: bytes
  dc_next_seq :: u64
  dc_head :: chain_hash

record audit_ledger =
  al_chains :: "(device_id, device_chain) hmap"
  al_verified :: "(device_id \<times> audit_event) list"
  al_alerts :: "audit_alert list"

definition ledger_new :: audit_ledger where
  "ledger_new = \<lparr>al_chains = [], al_verified = [], al_alerts = []\<rparr>"

definition restore_device :: "audit_ledger \<Rightarrow> device_id \<Rightarrow> bytes \<Rightarrow> u64 \<Rightarrow> chain_hash \<Rightarrow> audit_ledger" where
  "restore_device l d pk n h =
     l\<lparr>al_chains := hm_insert (al_chains l) d \<lparr>dc_public_key = pk, dc_next_seq = n, dc_head = h\<rparr>\<rparr>"

definition register_device :: "audit_ledger \<Rightarrow> device_id \<Rightarrow> bytes \<Rightarrow> audit_ledger" where
  "register_device l d pk =
     l\<lparr>al_chains := hm_insert (al_chains l) d \<lparr>dc_public_key = pk, dc_next_seq = 1, dc_head = GENESIS\<rparr>\<rparr>"

definition ledger_record_alert :: "audit_ledger \<Rightarrow> device_id \<Rightarrow> audit_error \<Rightarrow> audit_ledger" where
  "ledger_record_alert l d e =
     (let (kind, detail) =
        (case e of
           Gap ex got \<Rightarrow> (''gap'', ''suppressed batch: expected seq '' @ dec_of_word ex @ '', got '' @ dec_of_word got)
         | Tampered q \<Rightarrow> (''tampered'', ''event '' @ dec_of_word q @ '' was rewritten'')
         | AuditBadSignature \<Rightarrow> (''bad_signature'', ''batch signature does not verify'')
         | _ \<Rightarrow> (''rejected'', audit_error_display e))
      in l\<lparr>al_alerts := al_alerts l @ [\<lparr>aa_device = d, aa_kind = kind, aa_detail = detail\<rparr>]\<rparr>)"

definition ingest ::
  "sha256 \<Rightarrow> ed25519 \<Rightarrow> audit_event codec \<Rightarrow> audit_ledger \<Rightarrow> device_id \<Rightarrow> signed_spool_batch
     \<Rightarrow> audit_ledger \<times> (ingest_error + audit_event list)" where
  "ingest sha ed pc l d batch =
     (case hm_get (al_chains l) d of
        None \<Rightarrow> (l, Inl (UnknownDevice d))
      | Some chain \<Rightarrow>
          (case verify_batch sha ed pc (dc_head chain) (dc_next_seq chain) batch (dc_public_key chain) of
             Inl e \<Rightarrow> (ledger_record_alert l d e, Inl (IngestRejected e))
           | Inr new_head \<Rightarrow>
               (let events = map se_event (sb_entries batch);
                    chain = chain\<lparr>dc_next_seq := dc_next_seq chain + of_nat (length events), dc_head := new_head\<rparr>
                in (l\<lparr>al_chains := hm_insert (al_chains l) d chain,
                      al_verified := al_verified l @ map (\<lambda>e. (d, e)) events\<rparr>, Inr events))))"

definition ledger_high_water :: "audit_ledger \<Rightarrow> device_id \<Rightarrow> u64 option" where
  "ledger_high_water l d = map_option dc_next_seq (hm_get (al_chains l) d)"

definition head_for :: "audit_ledger \<Rightarrow> device_id \<Rightarrow> chain_hash option" where
  "head_for l d = map_option dc_head (hm_get (al_chains l) d)"

definition events_for :: "audit_ledger \<Rightarrow> device_id \<Rightarrow> audit_event list" where
  "events_for l d = map snd (filter (\<lambda>(x, _). x = d) (al_verified l))"

section \<open>The persisted ledger\<close>

record persisted_chain =
  pc_device :: device_id
  pc_public_key :: bytes
  pc_next_seq :: u64
  pc_head :: chain_hash

record mem_audit_store =
  ma_chains :: "(device_id, persisted_chain) hmap"
  ma_events :: "(device_id \<times> u64 \<times> audit_event) list"
  ma_alerts :: "audit_alert list"

definition mem_audit_store_new :: mem_audit_store where
  "mem_audit_store_new = \<lparr>ma_chains = [], ma_events = [], ma_alerts = []\<rparr>"

definition ma_event_count :: "mem_audit_store \<Rightarrow> nat" where
  "ma_event_count s = length (ma_events s)"

definition ma_alert_count :: "mem_audit_store \<Rightarrow> nat" where
  "ma_alert_count s = length (ma_alerts s)"

definition ma_register :: "mem_audit_store \<Rightarrow> device_id \<Rightarrow> bytes \<Rightarrow> mem_audit_store \<times> (gateway_error + unit)" where
  "ma_register s d pk =
     (s\<lparr>ma_chains := hm_insert (ma_chains s) d
          \<lparr>pc_device = d, pc_public_key = pk, pc_next_seq = 1, pc_head = GENESIS\<rparr>\<rparr>, Inr ())"

definition ma_append ::
  "mem_audit_store \<Rightarrow> device_id \<Rightarrow> spool_entry list \<Rightarrow> u64 \<Rightarrow> chain_hash
     \<Rightarrow> mem_audit_store \<times> (gateway_error + unit)" where
  "ma_append s d entries next_seq head =
     (let s1 = (case hm_get (ma_chains s) d of
                  None \<Rightarrow> s
                | Some c \<Rightarrow> s\<lparr>ma_chains := hm_insert (ma_chains s) d (c\<lparr>pc_next_seq := next_seq, pc_head := head\<rparr>)\<rparr>)
      in (s1\<lparr>ma_events := ma_events s1 @ map (\<lambda>e. (d, se_seq e, se_event e)) entries\<rparr>, Inr ()))"

definition ma_record_alert :: "mem_audit_store \<Rightarrow> audit_alert \<Rightarrow> mem_audit_store \<times> (gateway_error + unit)" where
  "ma_record_alert s a = (s\<lparr>ma_alerts := ma_alerts s @ [a]\<rparr>, Inr ())"

definition ma_load_chains :: "mem_audit_store \<Rightarrow> gateway_error + persisted_chain list" where
  "ma_load_chains s = Inr (hm_values (ma_chains s))"

section \<open>The ledger's history\<close>

fun ingest_all ::
  "sha256 \<Rightarrow> ed25519 \<Rightarrow> audit_event codec \<Rightarrow> audit_ledger \<Rightarrow> (device_id \<times> signed_spool_batch) list
     \<Rightarrow> audit_ledger \<times> (device_id \<times> signed_spool_batch) list" where
  "ingest_all sha ed pc l [] = (l, [])"
| "ingest_all sha ed pc l ((d, b) # bs) =
     (case ingest sha ed pc l d b of
        (l1, Inl _) \<Rightarrow> ingest_all sha ed pc l1 bs
      | (l1, Inr _) \<Rightarrow> (let (l2, acc) = ingest_all sha ed pc l1 bs in (l2, (d, b) # acc)))"

definition accepted_entries :: "device_id \<Rightarrow> (device_id \<times> signed_spool_batch) list \<Rightarrow> spool_entry list" where
  "accepted_entries d acc = concat (map (sb_entries \<circ> snd) (filter (\<lambda>x. fst x = d) acc))"

text \<open>
  What the ledger knows of a device, relative to where its chain started: the entries accepted since
  then form a chain from that start to the head, and they are the events recorded.
\<close>

definition ledger_extends ::
  "sha256 \<Rightarrow> audit_event codec \<Rightarrow> audit_ledger \<Rightarrow> audit_ledger \<Rightarrow> device_id \<Rightarrow> spool_entry list \<Rightarrow> bool" where
  "ledger_extends sha pc l l' d es =
     (case hm_get (al_chains l) d of
        None \<Rightarrow> es = [] \<and> hm_get (al_chains l') d = None \<and> events_for l' d = events_for l d
      | Some c \<Rightarrow>
          (case hm_get (al_chains l') d of
             None \<Rightarrow> False
           | Some c' \<Rightarrow>
               chain_ok sha pc (dc_head c) (dc_next_seq c) es (dc_head c') \<and>
               dc_next_seq c' = dc_next_seq c + of_nat (length es) \<and>
               dc_public_key c' = dc_public_key c \<and>
               events_for l' d = events_for l d @ map se_event es))"

lemma record_alert_frame [simp]:
  "al_chains (ledger_record_alert l d e) = al_chains l"
  "events_for (ledger_record_alert l d e) x = events_for l x"
  by (auto simp: ledger_record_alert_def events_for_def split: prod.splits)

lemma ingest_extends:
  assumes "ingest sha ed pc l d b = (l', r)"
  shows "ledger_extends sha pc l l' x (if x = d \<and> (\<exists>ev. r = Inr ev) then sb_entries b else [])"
proof (cases "hm_get (al_chains l) d")
  case None
  then have "l' = l \<and> r = Inl (UnknownDevice d)" using assms by (simp add: ingest_def)
  then show ?thesis by (auto simp: ledger_extends_def split: option.splits)
next
  case (Some c)
  show ?thesis
  proof (cases "verify_batch sha ed pc (dc_head c) (dc_next_seq c) b (dc_public_key c)")
    case (Inl e)
    then have "l' = ledger_record_alert l d e \<and> r = Inl (IngestRejected e)"
      using assms Some by (simp add: ingest_def)
    then show ?thesis by (auto simp: ledger_extends_def split: option.splits)
  next
    case (Inr h)
    then have v: "chain_ok sha pc (dc_head c) (dc_next_seq c) (sb_entries b) h"
      by (auto simp: verify_batch_iff)
    have l': "l' = l\<lparr>al_chains := hm_insert (al_chains l) d (c\<lparr>dc_next_seq := dc_next_seq c + of_nat (length (sb_entries b)), dc_head := h\<rparr>),
        al_verified := al_verified l @ map (\<lambda>e. (d, e)) (map se_event (sb_entries b))\<rparr>"
      "r = Inr (map se_event (sb_entries b))"
      using assms Some Inr by (auto simp: ingest_def Let_def)
    have ev: "events_for l' x = events_for l x @ (if x = d then map se_event (sb_entries b) else [])"
      unfolding l'(1) by (auto simp: events_for_def filter_map comp_def)
    show ?thesis
      using v Some ev unfolding l' by (auto simp: ledger_extends_def split: option.splits)
  qed
qed

lemma ledger_extends_trans:
  assumes "ledger_extends sha pc l l1 d es" "ledger_extends sha pc l1 l2 d fs"
  shows "ledger_extends sha pc l l2 d (es @ fs)"
  using assms
  by (auto simp: ledger_extends_def chain_ok_append algebra_simps split: option.splits)

lemma ingest_all_extends:
  "ingest_all sha ed pc l bs = (l', acc) \<Longrightarrow> ledger_extends sha pc l l' x (accepted_entries x acc)"
proof (induction bs arbitrary: l acc)
  case Nil
  then show ?case by (auto simp: ledger_extends_def accepted_entries_def split: option.splits)
next
  case (Cons db bs)
  obtain d b where db: "db = (d, b)" by (cases db)
  obtain l1 r where l1: "ingest sha ed pc l d b = (l1, r)" by fastforce
  note one = ingest_extends[OF l1, of x]
  show ?case
  proof (cases r)
    case (Inl e)
    then have "ingest_all sha ed pc l1 bs = (l', acc)" using Cons.prems l1 by (simp add: db)
    from ledger_extends_trans[OF one Cons.IH[OF this]] Inl show ?thesis by simp
  next
    case (Inr ev)
    then obtain acc1 where a: "ingest_all sha ed pc l1 bs = (l', acc1)" "acc = (d, b) # acc1"
      using Cons.prems l1 by (auto simp: db split: prod.splits)
    from ledger_extends_trans[OF one Cons.IH[OF a(1)]] Inr a(2) show ?thesis
      by (auto simp: accepted_entries_def split: if_splits)
  qed
qed

text \<open>
  The ledger is one verified chain per device. Whatever batches arrive for whatever devices,
  in any order, the events the ledger holds for a registered device are exactly those of the
  accepted batches in order, the accepted entries form one unbroken hash chain with consecutive
  sequence numbers from where the device's chain was registered, and the ledger ends at its head.
\<close>

theorem ledger_chain_invariant:
  assumes "ingest_all sha ed pc (register_device ledger_new d pk) bs = (l', acc)"
  shows "events_for l' d = map se_event (accepted_entries d acc) \<and>
    (\<exists>h. head_for l' d = Some h \<and> chain_ok sha pc GENESIS 1 (accepted_entries d acc) h) \<and>
    ledger_high_water l' d = Some (1 + of_nat (length (accepted_entries d acc)))"
  using ingest_all_extends[OF assms, of d]
  by (auto simp: ledger_extends_def register_device_def ledger_new_def events_for_def head_for_def
      ledger_high_water_def split: option.splits)

text \<open>The one-event batch of a device, ingested twice: the second copy is refused.\<close>

theorem ledger_chain_invariant_witness:
  "\<exists>l'. ingest_all id ed_demo demo_event_codec (register_device ledger_new (DeviceId 1) [5])
       [(DeviceId 1, demo_batch), (DeviceId 1, demo_batch)] = (l', [(DeviceId 1, demo_batch)]) \<and>
     events_for l' (DeviceId 1) = [demo_event]"
proof -
  have ent: "sb_entries demo_batch = [\<lparr>se_seq = 1, se_prev = GENESIS, se_event = demo_event,
      se_hash = hash_input 1 GENESIS []\<rparr>]" "sb_head demo_batch = hash_input 1 GENESIS []"
    "sb_signature demo_batch = [5] @ sig_input (hash_input 1 GENESIS [])"
    by (simp_all add: demo_batch_def sign_batch_def spool_emit_def spool_new_def Let_def entry_hash_def
        demo_event_codec_def ed_demo_def device_key_from_seed_def)
  have "verify_batch id ed_demo demo_event_codec GENESIS 1 demo_batch [5] = Inr (hash_input 1 GENESIS [])"
    by (simp add: verify_batch_iff ent ed_demo_def demo_event_codec_def)
  moreover have "verify_batch id ed_demo demo_event_codec (hash_input 1 GENESIS []) 2 demo_batch [5] = Inl (Gap 2 1)"
    by (simp add: verify_batch_def ent)
  ultimately obtain l' where r: "ingest_all id ed_demo demo_event_codec (register_device ledger_new (DeviceId 1) [5])
       [(DeviceId 1, demo_batch), (DeviceId 1, demo_batch)] = (l', [(DeviceId 1, demo_batch)])"
    by (simp add: ingest_def register_device_def ledger_new_def ent Let_def)
  from ledger_chain_invariant[OF r] r show ?thesis by (simp add: accepted_entries_def ent)
qed

text \<open>
  (C40) A restarted chain is refused. Once the ledger has accepted an event of a device, every
  non-empty batch of a spool that starts again at sequence number 1 is rejected as a gap, with an
  alert, and its events never reach the ledger; this is what a device that does not restore its spool produces.
\<close>

theorem restarted_spool_rejected:
  assumes "hm_get (al_chains l) d = Some c" "dc_next_seq c \<noteq> 1" "evs \<noteq> []"
    and "s = foldl (spool_emit sha pc) spool_new evs"
  shows "ingest sha ed pc l d (sign_batch ed k (as_pending s) (as_head s)) =
    (ledger_record_alert l d (Gap (dc_next_seq c) 1), Inl (IngestRejected (Gap (dc_next_seq c) 1)))"
proof -
  obtain e es where "evs = e # es" using assms(3) by (cases evs) auto
  then have "\<exists>x xs. as_pending s = x # xs \<and> se_seq x = 1"
    unfolding assms(4) emit_all by (simp add: spool_new_def Let_def)
  then show ?thesis using assms(1,2)
    by (auto simp: ingest_def verify_batch_def sign_batch_def)
qed

text \<open>A device at sequence number 7 restarts and emits one event.\<close>

theorem restarted_spool_rejected_witness:
  "snd (ingest id ed_demo demo_event_codec (restore_device ledger_new (DeviceId 1) [5] 7 []) (DeviceId 1)
     (sign_batch ed_demo (device_key_from_seed [5])
       (as_pending (foldl (spool_emit id demo_event_codec) spool_new [demo_event]))
       (as_head (foldl (spool_emit id demo_event_codec) spool_new [demo_event]))))
   = Inl (IngestRejected (Gap 7 1))"
  using restarted_spool_rejected[of "restore_device ledger_new (DeviceId 1) [5] 7 []" "DeviceId 1"
      "\<lparr>dc_public_key = [5], dc_next_seq = 7, dc_head = []\<rparr>" "[demo_event]"
      "foldl (spool_emit id demo_event_codec) spool_new [demo_event]" id demo_event_codec ed_demo
      "device_key_from_seed [5]"]
  by (simp add: restore_device_def ledger_new_def)

end
