(* ===== verification/Gateway.thy ===== *)
theory Gateway
  imports Gateway_Policy Gateway_Audit
begin

text \<open>
  \<open>clave-gateway/src/gateway.rs\<close> with \<open>idp.rs\<close>, the issuer of \<open>cert.rs\<close> and \<open>device_link.rs\<close>: the
  control plane. A gateway owns a directory store, an optional policy issuer, volume-key service,
  audit store and device CA, and the audit ledger. Every operation takes the gateway and returns it
  updated beside its result, because an operation that fails half way keeps what it already wrote.
  An operation is one step: the source awaits the store between reading and writing, and what two
  requests at once could do to each other there is not modelled.
\<close>

section \<open>Identity provider and device certificates\<close>

record verified_user =
  vu_email :: email_addr
  vu_idp_user_id :: string
  vu_workspace :: workspace_id
  vu_method :: auth_method
  vu_access_token :: string
  vu_refresh_token :: string

record device_auth =
  da_user_code :: string
  da_verification_uri :: string
  da_device_code :: string

text \<open>The identity provider is a service: an operation of the gateway takes its answers.\<close>

record identity_provider =
  ip_exchange_console_code :: "string \<Rightarrow> gateway_error + verified_user"
  ip_begin_device_auth :: "workspace_id \<Rightarrow> gateway_error + device_auth"
  ip_poll_device_auth :: "string \<Rightarrow> gateway_error + verified_user option"
  ip_refresh_session :: "string \<Rightarrow> gateway_error + verified_user"

definition mock_identity_provider :: "verified_user \<Rightarrow> string \<Rightarrow> identity_provider" where
  "mock_identity_provider user approved =
     \<lparr>ip_exchange_console_code = (\<lambda>_. Inr user),
      ip_begin_device_auth =
        (\<lambda>_. Inr \<lparr>da_user_code = ''WXYZ-1234'', da_verification_uri = ''https://example.test/activate'',
                   da_device_code = approved\<rparr>),
      ip_poll_device_auth = (\<lambda>code. Inr (if code = approved then Some user else None)),
      ip_refresh_session = (\<lambda>t. if t = [] then Inl (GIdp ''no refresh token'') else Inr user)\<rparr>"

record issued_tls =
  it_ca_pem :: bytes
  it_cert_pem :: bytes
  it_key_pem :: bytes
  it_fingerprint :: bytes

record device_cert_issuer =
  ci_issue :: "u128 \<Rightarrow> gateway_error + issued_tls"
  ci_server_name :: string
  ci_gateway_addr :: string

section \<open>The gateway\<close>

record 'a audit_store_ops =
  ao_register :: "'a \<Rightarrow> device_id \<Rightarrow> bytes \<Rightarrow> 'a \<times> (gateway_error + unit)"
  ao_append :: "'a \<Rightarrow> device_id \<Rightarrow> spool_entry list \<Rightarrow> u64 \<Rightarrow> chain_hash \<Rightarrow> 'a \<times> (gateway_error + unit)"
  ao_record_alert :: "'a \<Rightarrow> audit_alert \<Rightarrow> 'a \<times> (gateway_error + unit)"
  ao_load_chains :: "'a \<Rightarrow> gateway_error + persisted_chain list"

definition mem_audit_ops :: "mem_audit_store audit_store_ops" where
  "mem_audit_ops = \<lparr>ao_register = ma_register, ao_append = ma_append,
     ao_record_alert = ma_record_alert, ao_load_chains = ma_load_chains\<rparr>"

text \<open>
  The implementations behind the gateway's trait objects, and the cryptographic parameters they
  share: \<open>'s\<close> is the state of the store, \<open>'c\<close> of the command counter, \<open>'a\<close> of the audit store.
\<close>

record ('s, 'c, 'a) gateway_env =
  ge_ed :: ed25519
  ge_sha :: sha256
  ge_envelope :: "envelope codec"
  ge_event :: "audit_event codec"
  ge_idp :: identity_provider
  ge_store :: "'s store_ops"
  ge_next :: "'c \<Rightarrow> 'c \<times> (gateway_error + u64)"
  ge_audit_store :: "'a audit_store_ops"

record ('s, 'c, 'a) gateway =
  gw_store :: 's
  gw_policy_issuer :: "'c policy_issuer option"
  gw_volume_keys :: "(workspace_id \<Rightarrow> bytes \<Rightarrow> gateway_error + wrapped_volume_key option) option"
  gw_audit :: audit_ledger
  gw_audit_store :: "'a option"
  gw_device_ca :: "device_cert_issuer option"

type_synonym ('s, 'c, 'a, 'r) gw_result = "('s, 'c, 'a) gateway \<times> (gateway_error + 'r)"

datatype enrollment_outcome = OutcomePending | OutcomeApproved user_id role

datatype enrollment_completion =
    CompletionPending
  | CompletionApproved device_id user_id role "signed_command option" "wrapped_volume_key option"
      "tls_credentials option"

definition gateway_new :: "'s \<Rightarrow> ('s, 'c, 'a) gateway" where
  "gateway_new store =
     \<lparr>gw_store = store, gw_policy_issuer = None, gw_volume_keys = None, gw_audit = ledger_new,
      gw_audit_store = None, gw_device_ca = None\<rparr>"

definition with_audit_store :: "('s, 'c, 'a) gateway \<Rightarrow> 'a \<Rightarrow> ('s, 'c, 'a) gateway" where
  "with_audit_store g st = g\<lparr>gw_audit_store := Some st\<rparr>"

definition with_device_ca :: "('s, 'c, 'a) gateway \<Rightarrow> device_cert_issuer \<Rightarrow> ('s, 'c, 'a) gateway" where
  "with_device_ca g ca = g\<lparr>gw_device_ca := Some ca\<rparr>"

definition with_policy_issuer :: "('s, 'c, 'a) gateway \<Rightarrow> 'c policy_issuer \<Rightarrow> ('s, 'c, 'a) gateway" where
  "with_policy_issuer g i = g\<lparr>gw_policy_issuer := Some i\<rparr>"

definition with_volume_key_service ::
  "('s, 'c, 'a) gateway \<Rightarrow> (workspace_id \<Rightarrow> bytes \<Rightarrow> gateway_error + wrapped_volume_key option)
     \<Rightarrow> ('s, 'c, 'a) gateway" where
  "with_volume_key_service g v = g\<lparr>gw_volume_keys := Some v\<rparr>"

text \<open>The \<open>?\<close> operator in a handler that has already written, and the ways its parts are called.\<close>

definition gbind :: "'g \<times> ('e + 'a) \<Rightarrow> ('g \<Rightarrow> 'a \<Rightarrow> 'g \<times> ('e + 'b)) \<Rightarrow> 'g \<times> ('e + 'b)" where
  "gbind x f = (case x of (g, Inl e) \<Rightarrow> (g, Inl e) | (g, Inr a) \<Rightarrow> f g a)"

definition on_store :: "('s, 'c, 'a) gateway \<Rightarrow> 's \<times> (gateway_error + 'r) \<Rightarrow> ('s, 'c, 'a, 'r) gw_result" where
  "on_store g x = (g\<lparr>gw_store := fst x\<rparr>, snd x)"

definition on_issuer ::
  "('s, 'c, 'a) gateway \<Rightarrow> 'c policy_issuer \<times> (gateway_error + 'r) \<Rightarrow> ('s, 'c, 'a, 'r) gw_result" where
  "on_issuer g x = (g\<lparr>gw_policy_issuer := Some (fst x)\<rparr>, snd x)"

section \<open>Device audit\<close>

definition device_for_fingerprint ::
  "('s, 'c, 'a) gateway_env \<Rightarrow> ('s, 'c, 'a) gateway \<Rightarrow> bytes \<Rightarrow> gateway_error + device_id option" where
  "device_for_fingerprint v g fp = so_device_by_fingerprint (ge_store v) (gw_store g) fp"

definition ingest_device_audit ::
  "('s, 'c, 'a) gateway_env \<Rightarrow> ('s, 'c, 'a) gateway \<Rightarrow> device_id \<Rightarrow> signed_spool_batch
     \<Rightarrow> ('s, 'c, 'a) gateway \<times> (ingest_error + audit_event list)" where
  "ingest_device_audit v g d batch =
     (let (l, result) = ingest (ge_sha v) (ge_ed v) (ge_event v) (gw_audit g) d batch;
          g = g\<lparr>gw_audit := l\<rparr>
      in case gw_audit_store g of
           None \<Rightarrow> (g, result)
         | Some st \<Rightarrow>
             (case result of
                Inr _ \<Rightarrow>
                  (let next_seq = (case ledger_high_water l d of Some n \<Rightarrow> n | None \<Rightarrow> 1);
                       head = (case head_for l d of Some h \<Rightarrow> h | None \<Rightarrow> GENESIS)
                   in (g\<lparr>gw_audit_store := Some (fst (ao_append (ge_audit_store v) st d (sb_entries batch) next_seq head))\<rparr>,
                       result))
              | Inl _ \<Rightarrow>
                  (case List.find (\<lambda>a. aa_device a = d) (rev (al_alerts l)) of
                     Some alert \<Rightarrow> (g\<lparr>gw_audit_store := Some (fst (ao_record_alert (ge_audit_store v) st alert))\<rparr>, result)
                   | None \<Rightarrow> (g, result))))"

definition restore_chains :: "audit_ledger \<Rightarrow> persisted_chain list \<Rightarrow> audit_ledger" where
  "restore_chains l cs =
     foldl (\<lambda>l c. restore_device l (pc_device c) (pc_public_key c) (pc_next_seq c) (pc_head c)) l cs"

definition hydrate_audit ::
  "('s, 'c, 'a) gateway_env \<Rightarrow> ('s, 'c, 'a) gateway \<Rightarrow> ('s, 'c, 'a, nat) gw_result" where
  "hydrate_audit v g =
     (case gw_audit_store g of
        None \<Rightarrow> (g, Inr 0)
      | Some st \<Rightarrow>
          (case ao_load_chains (ge_audit_store v) st of
             Inl e \<Rightarrow> (g, Inl e)
           | Inr cs \<Rightarrow> (g\<lparr>gw_audit := restore_chains (gw_audit g) cs\<rparr>, Inr (length cs))))"

text \<open>\<open>serve_device_audit\<close> receives until the link closes: the batches are those it yields.\<close>

fun serve_device_audit ::
  "('s, 'c, 'a) gateway_env \<Rightarrow> ('s, 'c, 'a) gateway \<Rightarrow> device_id \<Rightarrow> signed_spool_batch list
     \<Rightarrow> ('s, 'c, 'a) gateway \<times> nat" where
  "serve_device_audit v g d [] = (g, 0)"
| "serve_device_audit v g d (b # bs) =
     (let (g1, r) = ingest_device_audit v g d b; (g2, n) = serve_device_audit v g1 d bs
      in (g2, (case r of Inr events \<Rightarrow> length events | Inl _ \<Rightarrow> 0) + n))"

section \<open>Sessions\<close>

definition console_login ::
  "('s, 'c, 'a) gateway_env \<Rightarrow> ('s, 'c, 'a) gateway \<Rightarrow> string \<Rightarrow> unix_time \<Rightarrow> u64
     \<Rightarrow> ('s, 'c, 'a, session) gw_result" where
  "console_login v g code now ttl =
     gbind (g, ip_exchange_console_code (ge_idp v) code) (\<lambda>g vu.
     gbind (g, rbind (so_workspace (ge_store v) (gw_store g) (vu_workspace vu)) (\<lambda>w. ok_or w NoSuchWorkspace)) (\<lambda>g ws.
     gbind (on_store g (so_upsert_user (ge_store v) (gw_store g) (vu_email vu) (vu_idp_user_id vu))) (\<lambda>g user.
     gbind (g, so_membership (ge_store v) (gw_store g) (vu_workspace vu) user) (\<lambda>g found.
     gbind
       (case found of
          Some m \<Rightarrow> (g, Inr (Some m))
        | None \<Rightarrow>
            gbind (g, so_invitation (ge_store v) (gw_store g) (vu_workspace vu) (vu_email vu)) (\<lambda>g ivn.
              case ivn of
                None \<Rightarrow> (g, Inr None)
              | Some ivn \<Rightarrow>
                  gbind (g, map_err GInvite (accept_invitation user (vu_email vu) (vu_method vu) ws ivn now)) (\<lambda>g m.
                  gbind (on_store g (so_put_membership (ge_store v) (gw_store g) m)) (\<lambda>g _.
                  gbind (on_store g (so_mark_invitation_accepted (ge_store v) (gw_store g) (vu_workspace vu) (vu_email vu))) (\<lambda>g _.
                  (g, Inr (Some m)))))))
       (\<lambda>g membership.
          (g, case authorize_login (vu_email vu) (vu_method vu) ws membership of
                LoginAllow role \<Rightarrow>
                  Inr \<lparr>ss_user = user, ss_workspace = vu_workspace vu, ss_role = role,
                       ss_expires_at = saturating_add now ttl, ss_refresh_token = vu_refresh_token vu\<rparr>
              | LoginDeny r \<Rightarrow> Inl (Unauthorized r)))))))"

definition refresh_session ::
  "('s, 'c, 'a) gateway_env \<Rightarrow> ('s, 'c, 'a) gateway \<Rightarrow> session \<Rightarrow> unix_time \<Rightarrow> u64
     \<Rightarrow> ('s, 'c, 'a, session) gw_result" where
  "refresh_session v g s now ttl =
     gbind (g, ip_refresh_session (ge_idp v) (ss_refresh_token s)) (\<lambda>g vu.
     gbind (g, rbind (so_workspace (ge_store v) (gw_store g) (vu_workspace vu)) (\<lambda>w. ok_or w NoSuchWorkspace)) (\<lambda>g ws.
     gbind (on_store g (so_upsert_user (ge_store v) (gw_store g) (vu_email vu) (vu_idp_user_id vu))) (\<lambda>g user.
     gbind (g, so_membership (ge_store v) (gw_store g) (vu_workspace vu) user) (\<lambda>g membership.
       (g, case authorize_login (vu_email vu) (vu_method vu) ws membership of
             LoginAllow role \<Rightarrow>
               Inr \<lparr>ss_user = user, ss_workspace = vu_workspace vu, ss_role = role,
                    ss_expires_at = saturating_add now ttl, ss_refresh_token = vu_refresh_token vu\<rparr>
           | LoginDeny r \<Rightarrow> Inl (Unauthorized r))))))"

definition authorize_request ::
  "('s, 'c, 'a) gateway_env \<Rightarrow> ('s, 'c, 'a) gateway \<Rightarrow> session \<Rightarrow> unix_time \<Rightarrow> gateway_error + request_context" where
  "authorize_request v g s now =
     (if now > ss_expires_at s then Inl SessionInvalid
      else rbind (so_membership (ge_store v) (gw_store g) (ss_workspace s) (ss_user s)) (\<lambda>found.
        case found of
          Some m \<Rightarrow>
            (if me_status m = Active
             then Inr \<lparr>rc_user = ss_user s, rc_workspace = ss_workspace s, rc_role = me_role m\<rparr>
             else if me_status m = MSuspended then Inl (Unauthorized DSuspended)
             else Inl (Unauthorized NotAMember))
        | None \<Rightarrow> Inl (Unauthorized NotAMember)))"

section \<open>Enrollment\<close>

definition begin_enrollment ::
  "('s, 'c, 'a) gateway_env \<Rightarrow> workspace_id \<Rightarrow> gateway_error + device_auth" where
  "begin_enrollment v w = ip_begin_device_auth (ge_idp v) w"

definition authorize_enrollment_poll ::
  "('s, 'c, 'a) gateway_env \<Rightarrow> ('s, 'c, 'a) gateway \<Rightarrow> workspace_id \<Rightarrow> string
     \<Rightarrow> ('s, 'c, 'a, (user_id \<times> role) option) gw_result" where
  "authorize_enrollment_poll v g w device_code =
     gbind (g, ip_poll_device_auth (ge_idp v) device_code) (\<lambda>g polled.
       case polled of
         None \<Rightarrow> (g, Inr None)
       | Some vu \<Rightarrow>
           gbind (g, rbind (so_workspace (ge_store v) (gw_store g) w) (\<lambda>x. ok_or x NoSuchWorkspace)) (\<lambda>g ws.
           gbind (on_store g (so_upsert_user (ge_store v) (gw_store g) (vu_email vu) (vu_idp_user_id vu))) (\<lambda>g user.
           gbind (g, so_membership (ge_store v) (gw_store g) w user) (\<lambda>g membership.
             (g, case authorize_enrollment ws membership of
                   EnrollAllow _ role \<Rightarrow> Inr (Some (user, role))
                 | EnrollDeny r \<Rightarrow> Inl (Unauthorized r))))))"

definition poll_enrollment ::
  "('s, 'c, 'a) gateway_env \<Rightarrow> ('s, 'c, 'a) gateway \<Rightarrow> workspace_id \<Rightarrow> string
     \<Rightarrow> ('s, 'c, 'a, enrollment_outcome) gw_result" where
  "poll_enrollment v g w device_code =
     gbind (authorize_enrollment_poll v g w device_code) (\<lambda>g r.
       (g, Inr (case r of None \<Rightarrow> OutcomePending | Some (user, role) \<Rightarrow> OutcomeApproved user role)))"

definition issue_tls ::
  "('s, 'c, 'a) gateway_env \<Rightarrow> ('s, 'c, 'a) gateway \<Rightarrow> device_id \<Rightarrow> ('s, 'c, 'a, tls_credentials option) gw_result" where
  "issue_tls v g d =
     (case gw_device_ca g of
        None \<Rightarrow> (g, Inr None)
      | Some ca \<Rightarrow>
          (case ci_issue ca (device_num d) of
             Inl _ \<Rightarrow> (g, Inr None)
           | Inr t \<Rightarrow>
               gbind (on_store g (so_set_device_fingerprint (ge_store v) (gw_store g) d (it_fingerprint t))) (\<lambda>g _.
                 (g, Inr (Some \<lparr>tc_ca_pem = it_ca_pem t, tc_cert_pem = it_cert_pem t, tc_key_pem = it_key_pem t,
                                 tc_server_name = ci_server_name ca, tc_gateway_addr = ci_gateway_addr ca\<rparr>)))))"

definition register_audit_key ::
  "('s, 'c, 'a) gateway_env \<Rightarrow> ('s, 'c, 'a) gateway \<Rightarrow> device_id \<Rightarrow> bytes \<Rightarrow> ('s, 'c, 'a) gateway" where
  "register_audit_key v g d pubkey =
     g\<lparr>gw_audit := register_device (gw_audit g) d pubkey,
       gw_audit_store := map_option (\<lambda>st. fst (ao_register (ge_audit_store v) st d pubkey)) (gw_audit_store g)\<rparr>"

definition complete_enrollment ::
  "('s, 'c, 'a) gateway_env \<Rightarrow> ('s, 'c, 'a) gateway \<Rightarrow> workspace_id \<Rightarrow> string \<Rightarrow> bytes \<Rightarrow> bytes option
     \<Rightarrow> unix_time \<Rightarrow> ('s, 'c, 'a, enrollment_completion) gw_result" where
  "complete_enrollment v g w device_code device_pubkey device_wrapping_key now =
     gbind (authorize_enrollment_poll v g w device_code) (\<lambda>g r.
       case r of
         None \<Rightarrow> (g, Inr CompletionPending)
       | Some (user, role) \<Rightarrow>
           gbind (on_store g (so_record_device (ge_store v) (gw_store g) w user device_pubkey)) (\<lambda>g device.
           gbind
             (let g = register_audit_key v g device device_pubkey
              in case gw_policy_issuer g of
                   Some i \<Rightarrow> on_issuer g (issue_initial_policy (ge_ed v) (ge_envelope v) (ge_next v) i w now)
                 | None \<Rightarrow> (g, Inr None)) (\<lambda>g policy.
           gbind
             (case (gw_volume_keys g, device_wrapping_key) of
                (Some service, Some kek) \<Rightarrow> (g, service w kek)
              | _ \<Rightarrow> (g, Inr None)) (\<lambda>g volume_key.
           gbind (issue_tls v g device) (\<lambda>g tls.
             (g, Inr (CompletionApproved device user role policy volume_key tls)))))))"

section \<open>Administration\<close>

fun admin_action_debug :: "admin_action \<Rightarrow> string" where
  "admin_action_debug EnrollDevice = ''EnrollDevice''"
| "admin_action_debug ManageMembers = ''ManageMembers''"
| "admin_action_debug ChangeRoles = ''ChangeRoles''"
| "admin_action_debug ManagePolicy = ''ManagePolicy''"
| "admin_action_debug ManageSso = ''ManageSso''"
| "admin_action_debug ControlDevice = ''ControlDevice''"
| "admin_action_debug ViewAudit = ''ViewAudit''"
| "admin_action_debug AdministerWorkspace = ''AdministerWorkspace''"

fun role_debug :: "role \<Rightarrow> string" where
  "role_debug Member = ''Member''"
| "role_debug Admin = ''Admin''"
| "role_debug Owner = ''Owner''"

definition require :: "request_context \<Rightarrow> admin_action \<Rightarrow> gateway_error + unit" where
  "require ctx a =
     (if can (rc_role ctx) a then Inr ()
      else Inl (Forbidden (admin_action_debug a @ '' requires at least '' @ role_debug (min_role a))))"

definition target_membership ::
  "('s, 'c, 'a) gateway_env \<Rightarrow> ('s, 'c, 'a) gateway \<Rightarrow> request_context \<Rightarrow> user_id \<Rightarrow> gateway_error + membership" where
  "target_membership v g ctx user =
     rbind (so_membership (ge_store v) (gw_store g) (rc_workspace ctx) user)
       (\<lambda>m. ok_or m (GNotFound (''member '' @ dec_of_word (user_num user))))"

definition invite_member ::
  "('s, 'c, 'a) gateway_env \<Rightarrow> ('s, 'c, 'a) gateway \<Rightarrow> request_context \<Rightarrow> string \<Rightarrow> role \<Rightarrow> unix_time
     \<Rightarrow> ('s, 'c, 'a, invitation) gw_result" where
  "invite_member v g ctx email role expires_at =
     gbind (g, require ctx ManageMembers) (\<lambda>g _.
     if role > rc_role ctx then (g, Inl (Forbidden ''cannot invite above your own role''))
     else
       gbind (g, ok_or (email_parse email) (GStore ''invalid email'')) (\<lambda>g email.
         let ivn = \<lparr>iv_workspace = rc_workspace ctx, iv_email = email, iv_role = role,
                    iv_expires_at = expires_at, iv_accepted = False\<rparr>
         in gbind (on_store g (so_put_invitation (ge_store v) (gw_store g) ivn)) (\<lambda>g _. (g, Inr ivn))))"

definition gw_list_invitations ::
  "('s, 'c, 'a) gateway_env \<Rightarrow> ('s, 'c, 'a) gateway \<Rightarrow> request_context \<Rightarrow> gateway_error + invitation list" where
  "gw_list_invitations v g ctx =
     rbind (require ctx ManageMembers) (\<lambda>_. so_list_invitations (ge_store v) (gw_store g) (rc_workspace ctx))"

definition gw_list_members ::
  "('s, 'c, 'a) gateway_env \<Rightarrow> ('s, 'c, 'a) gateway \<Rightarrow> request_context \<Rightarrow> gateway_error + member_record list" where
  "gw_list_members v g ctx =
     rbind (require ctx ManageMembers) (\<lambda>_. so_list_members (ge_store v) (gw_store g) (rc_workspace ctx))"

definition change_role ::
  "('s, 'c, 'a) gateway_env \<Rightarrow> ('s, 'c, 'a) gateway \<Rightarrow> request_context \<Rightarrow> user_id \<Rightarrow> role
     \<Rightarrow> ('s, 'c, 'a, unit) gw_result" where
  "change_role v g ctx user role =
     gbind (g, require ctx ChangeRoles) (\<lambda>g _.
     if role > rc_role ctx then (g, Inl (Forbidden ''cannot grant a role above your own''))
     else
       gbind (g, target_membership v g ctx user) (\<lambda>g m.
         if me_role m > rc_role ctx then (g, Inl (Forbidden ''cannot modify a more senior member''))
         else on_store g (so_put_membership (ge_store v) (gw_store g) (m\<lparr>me_role := role\<rparr>))))"

definition set_member_status ::
  "('s, 'c, 'a) gateway_env \<Rightarrow> ('s, 'c, 'a) gateway \<Rightarrow> request_context \<Rightarrow> user_id \<Rightarrow> membership_status
     \<Rightarrow> ('s, 'c, 'a, unit) gw_result" where
  "set_member_status v g ctx user status =
     gbind (g, require ctx ManageMembers) (\<lambda>g _.
       gbind (g, target_membership v g ctx user) (\<lambda>g m.
         if me_role m > rc_role ctx then (g, Inl (Forbidden ''cannot modify a more senior member''))
         else on_store g (so_put_membership (ge_store v) (gw_store g) (m\<lparr>me_status := status\<rparr>))))"

definition suspend_member where
  "suspend_member v g ctx user = set_member_status v g ctx user MSuspended"

definition restore_member where
  "restore_member v g ctx user = set_member_status v g ctx user Active"

definition gw_list_devices ::
  "('s, 'c, 'a) gateway_env \<Rightarrow> ('s, 'c, 'a) gateway \<Rightarrow> request_context \<Rightarrow> gateway_error + device_record list" where
  "gw_list_devices v g ctx =
     rbind (require ctx ViewAudit) (\<lambda>_. so_list_devices (ge_store v) (gw_store g) (rc_workspace ctx))"

definition lock_device ::
  "('s, 'c, 'a) gateway_env \<Rightarrow> ('s, 'c, 'a) gateway \<Rightarrow> request_context \<Rightarrow> device_id \<Rightarrow> ('s, 'c, 'a, unit) gw_result" where
  "lock_device v g ctx d =
     gbind (g, require ctx ControlDevice) (\<lambda>g _.
       on_store g (so_set_device_status (ge_store v) (gw_store g) (rc_workspace ctx) d DLocked))"

definition wipe_device ::
  "('s, 'c, 'a) gateway_env \<Rightarrow> ('s, 'c, 'a) gateway \<Rightarrow> request_context \<Rightarrow> device_id \<Rightarrow> ('s, 'c, 'a, unit) gw_result" where
  "wipe_device v g ctx d =
     gbind (g, require ctx ControlDevice) (\<lambda>g _.
       on_store g (so_set_device_status (ge_store v) (gw_store g) (rc_workspace ctx) d DWiped))"

section \<open>Policy and audit queries\<close>

definition get_policy ::
  "('s, 'c, 'a) gateway \<Rightarrow> request_context \<Rightarrow> gateway_error + policy_bundle option" where
  "get_policy g ctx =
     rbind (require ctx ManagePolicy) (\<lambda>_.
       case gw_policy_issuer g of
         Some i \<Rightarrow> current_policy i (rc_workspace ctx)
       | None \<Rightarrow> Inr None)"

definition gw_author_policy ::
  "('s, 'c, 'a) gateway \<Rightarrow> request_context \<Rightarrow> policy_bundle \<Rightarrow> ('s, 'c, 'a, policy_bundle) gw_result" where
  "gw_author_policy g ctx bundle =
     gbind (g, require ctx ManagePolicy) (\<lambda>g _.
       case gw_policy_issuer g of
         None \<Rightarrow> (g, Inl (GNotFound ''policy issuer not configured''))
       | Some i \<Rightarrow> on_issuer g (author_policy i (rc_workspace ctx) bundle))"

definition gw_reissue_policy ::
  "('s, 'c, 'a) gateway_env \<Rightarrow> ('s, 'c, 'a) gateway \<Rightarrow> request_context \<Rightarrow> unix_time
     \<Rightarrow> ('s, 'c, 'a, signed_command) gw_result" where
  "gw_reissue_policy v g ctx now =
     gbind (g, require ctx ManagePolicy) (\<lambda>g _.
       case gw_policy_issuer g of
         None \<Rightarrow> (g, Inl (GNotFound ''policy issuer not configured''))
       | Some i \<Rightarrow>
           gbind (on_issuer g (reissue_policy (ge_ed v) (ge_envelope v) (ge_next v) i (rc_workspace ctx) now)) (\<lambda>g r.
             (g, ok_or r (GNotFound ''no policy to reissue''))))"

definition gw_policy_versions ::
  "('s, 'c, 'a) gateway \<Rightarrow> request_context \<Rightarrow> gateway_error + u64 list" where
  "gw_policy_versions g ctx =
     rbind (require ctx ManagePolicy) (\<lambda>_.
       case gw_policy_issuer g of
         Some i \<Rightarrow> policy_versions i (rc_workspace ctx)
       | None \<Rightarrow> Inr [])"

definition audit_events ::
  "('s, 'c, 'a) gateway_env \<Rightarrow> ('s, 'c, 'a) gateway \<Rightarrow> request_context \<Rightarrow> gateway_error + audit_record list" where
  "audit_events v g ctx =
     rbind (require ctx ViewAudit) (\<lambda>_.
     rbind (so_list_devices (ge_store v) (gw_store g) (rc_workspace ctx)) (\<lambda>devices.
       Inr (concat (map (\<lambda>d. map (\<lambda>e. \<lparr>au_device = dr_id d, au_event = e\<rparr>) (events_for (gw_audit g) (dr_id d)))
              devices))))"

definition audit_alerts ::
  "('s, 'c, 'a) gateway_env \<Rightarrow> ('s, 'c, 'a) gateway \<Rightarrow> request_context \<Rightarrow> gateway_error + audit_alert list" where
  "audit_alerts v g ctx =
     rbind (require ctx ViewAudit) (\<lambda>_.
     rbind (so_list_devices (ge_store v) (gw_store g) (rc_workspace ctx)) (\<lambda>devices.
       Inr (filter (\<lambda>a. aa_device a \<in> set (map dr_id devices)) (al_alerts (gw_audit g)))))"

section \<open>Directory events\<close>

definition apply_directory_event ::
  "('s, 'c, 'a) gateway_env \<Rightarrow> ('s, 'c, 'a) gateway \<Rightarrow> scim_event \<Rightarrow> ('s, 'c, 'a, membership_delta) gw_result" where
  "apply_directory_event v g event =
     (let w = scim_workspace event; email = scim_email event
      in gbind (g, so_list_members (ge_store v) (gw_store g) w) (\<lambda>g members.
           case List.find (\<lambda>m. eq_ignore_ascii_case (mr_email m) (email_str email)) members of
             None \<Rightarrow> (g, Inr DeltaUnchanged)
           | Some row \<Rightarrow>
               (let user = mr_user row
                in gbind (g, rbind (so_membership (ge_store v) (gw_store g) w user)
                              (\<lambda>m. ok_or m (GNotFound (''member '' @ dec_of_word (user_num user))))) (\<lambda>g m.
                     let target = (if scim_activates event then Active else MSuspended)
                     in if me_status m = target then (g, Inr DeltaUnchanged)
                        else gbind (on_store g (so_put_membership (ge_store v) (gw_store g) (m\<lparr>me_status := target\<rparr>))) (\<lambda>g _.
                               (g, Inr (if scim_activates event then DeltaRestored user else DeltaSuspended user)))))))"

end
