(* ===== verification/Gateway_Props.thy ===== *)
theory Gateway_Props
  imports Gateway "HOL-Library.Multiset"
begin

text \<open>
  What the control plane guarantees. The directory: requests, logins and enrollments in any order
  and from any sessions never raise anybody above the most senior of those who act, and never touch
  the members above them (proved once for every store that satisfies \<open>keyed_store\<close>). The audit
  view of a workspace is that of its devices. A gateway that restarts from its audit store
  continues every device's chain where it was.
\<close>

lemma gbind_simps [simp]: "gbind (g, Inl e) f = (g, Inl e)" "gbind (g, Inr a) f = f g a"
  by (simp_all add: gbind_def)

lemma on_store_simps [simp]:
  "gw_store (fst (on_store g x)) = fst x" "snd (on_store g x) = snd x"
  "gw_audit (fst (on_store g x)) = gw_audit g" "gw_audit_store (fst (on_store g x)) = gw_audit_store g"
  "on_store g (s, r) = (g\<lparr>gw_store := s\<rparr>, r)"
  by (simp_all add: on_store_def)

lemma on_issuer_simps [simp]:
  "gw_store (fst (on_issuer g x)) = gw_store g" "snd (on_issuer g x) = snd x"
  "gw_audit (fst (on_issuer g x)) = gw_audit g" "gw_audit_store (fst (on_issuer g x)) = gw_audit_store g"
  by (simp_all add: on_issuer_def)

text \<open>A property kept by both halves of a handler is kept by the handler.\<close>

lemma gbind_inv:
  assumes "P (fst x)" "\<And>g a. x = (g, Inr a) \<Longrightarrow> P g \<Longrightarrow> P (fst (f g a))"
  shows "P (fst (gbind x f))"
  using assms by (cases x) (auto simp: gbind_def split: sum.splits)

lemma fst_gbind_pure [simp]: "fst (gbind x (\<lambda>g a. (g, f a))) = fst x"
  by (cases x) (auto simp: gbind_def split: sum.splits)

section \<open>Runs of the control plane\<close>

datatype gateway_request =
    InviteMember string role unix_time
  | ChangeRole user_id role
  | SuspendMember user_id
  | RestoreMember user_id
  | LockDevice device_id
  | WipeDevice device_id
  | AuthorPolicy policy_bundle
  | ReissuePolicy unix_time

fun handle_request ::
  "('s, 'c, 'a) gateway_env \<Rightarrow> ('s, 'c, 'a) gateway \<Rightarrow> request_context \<Rightarrow> gateway_request \<Rightarrow> ('s, 'c, 'a) gateway" where
  "handle_request v g ctx (InviteMember e r t) = fst (invite_member v g ctx e r t)"
| "handle_request v g ctx (ChangeRole u r) = fst (change_role v g ctx u r)"
| "handle_request v g ctx (SuspendMember u) = fst (suspend_member v g ctx u)"
| "handle_request v g ctx (RestoreMember u) = fst (restore_member v g ctx u)"
| "handle_request v g ctx (LockDevice d) = fst (lock_device v g ctx d)"
| "handle_request v g ctx (WipeDevice d) = fst (wipe_device v g ctx d)"
| "handle_request v g ctx (AuthorPolicy b) = fst (gw_author_policy g ctx b)"
| "handle_request v g ctx (ReissuePolicy t) = fst (gw_reissue_policy v g ctx t)"

text \<open>The identity provider may answer differently each time, so an event brings its answers.\<close>

datatype gateway_event =
    Request session unix_time gateway_request
  | Login identity_provider string unix_time u64
  | Refresh identity_provider session unix_time u64
  | Enroll identity_provider workspace_id string bytes "bytes option" unix_time
  | DeviceBatch device_id signed_spool_batch

fun gw_apply ::
  "('s, 'c, 'a) gateway_env \<Rightarrow> ('s, 'c, 'a) gateway \<Rightarrow> gateway_event \<Rightarrow> ('s, 'c, 'a) gateway" where
  "gw_apply v g (Request s now req) =
     (case authorize_request v g s now of Inl _ \<Rightarrow> g | Inr ctx \<Rightarrow> handle_request v g ctx req)"
| "gw_apply v g (Login idp code now ttl) = fst (console_login (v\<lparr>ge_idp := idp\<rparr>) g code now ttl)"
| "gw_apply v g (Refresh idp s now ttl) = fst (refresh_session (v\<lparr>ge_idp := idp\<rparr>) g s now ttl)"
| "gw_apply v g (Enroll idp w code k kek now) =
     fst (complete_enrollment (v\<lparr>ge_idp := idp\<rparr>) g w code k kek now)"
| "gw_apply v g (DeviceBatch d b) = fst (ingest_device_audit v g d b)"

fun acts_in :: "workspace_id \<Rightarrow> gateway_event \<Rightarrow> user_id option" where
  "acts_in w (Request s now req) = (if ss_workspace s = w then Some (ss_user s) else None)"
| "acts_in w _ = None"

section \<open>No escalation\<close>

context keyed_store
begin

definition senior :: "role \<Rightarrow> workspace_id \<Rightarrow> 's \<Rightarrow> user_id \<Rightarrow> bool" where
  "senior r w s u = (case members s w u of None \<Rightarrow> False | Some m \<Rightarrow> r < me_role m)"

definition bounded :: "role \<Rightarrow> workspace_id \<Rightarrow> 's \<Rightarrow> 's \<Rightarrow> bool" where
  "bounded r w s0 s =
     (keyed s \<and> (\<forall>e i. invites s w e = Some i \<longrightarrow> iv_role i \<le> r) \<and>
      (\<forall>u. senior r w s0 u \<longrightarrow> members s w u = members s0 w u) \<and>
      (\<forall>u m. \<not> senior r w s0 u \<longrightarrow> members s w u = Some m \<longrightarrow> me_role m \<le> r))"

lemma bounded_refl:
  "keyed s \<Longrightarrow> (\<And>e i. invites s w e = Some i \<Longrightarrow> iv_role i \<le> r) \<Longrightarrow> bounded r w s s"
  by (auto simp: bounded_def senior_def not_less)

lemma bounded_frame:
  "bounded r w s0 s \<Longrightarrow> members s' = members s \<Longrightarrow> invites s' = invites s \<Longrightarrow> keyed s' \<Longrightarrow> bounded r w s0 s'"
  by (simp add: bounded_def)

lemma bounded_junior: "bounded r w s0 s \<Longrightarrow> members s w u = Some m \<Longrightarrow> me_role m \<le> r \<Longrightarrow> \<not> senior r w s0 u"
  by (auto simp: bounded_def senior_def split: option.splits)

lemma boundedD:
  assumes "bounded r w s0 s"
  shows "senior r w s0 u \<Longrightarrow> members s w u = members s0 w u"
    "\<not> senior r w s0 u \<Longrightarrow> members s w u = Some m \<Longrightarrow> me_role m \<le> r"
  using assms by (auto simp: bounded_def)

lemma reads:
  "so_membership so s w u = Inr found \<Longrightarrow> members s w u = found"
  "so_invitation so s w e = Inr ivn \<Longrightarrow> invites s w e = ivn"
  using membership_get invitation_get by simp_all

lemma authorize_request_ok:
  assumes "ge_store v = so" "authorize_request v g s now = Inr ctx"
  shows "rc_workspace ctx = ss_workspace s \<and> rc_user ctx = ss_user s \<and> now \<le> ss_expires_at s \<and>
    (\<exists>m. members (gw_store g) (ss_workspace s) (ss_user s) = Some m \<and> me_status m = Active \<and> rc_role ctx = me_role m)"
proof (cases "ss_expires_at s < now")
  case False
  show ?thesis
  proof (cases "so_membership so (gw_store g) (ss_workspace s) (ss_user s)")
    case (Inr found)
    then show ?thesis using assms False reads(1)[OF Inr]
      by (cases found) (auto simp: authorize_request_def not_less split: if_splits)
  qed (use assms False in \<open>simp add: authorize_request_def\<close>)
qed (use assms in \<open>simp add: authorize_request_def\<close>)

lemma bounded_put:
  assumes "bounded r w s0 s" "me_workspace m = w \<Longrightarrow> me_role m \<le> r \<and> \<not> senior r w s0 (me_user m)"
  shows "bounded r w s0 (fst (so_put_membership so s m))"
proof -
  obtain s' r' where s': "so_put_membership so s m = (s', r')" by fastforce
  have "keyed s'" using keyed_steps(2)[of s m] assms(1) s' by (simp add: bounded_def)
  then show ?thesis using assms s' membership_put[OF s'] by (elim conjE disjE) (auto simp: bounded_def)
qed

lemma bounded_upsert: "bounded r w s0 s \<Longrightarrow> bounded r w s0 (fst (so_upsert_user so s e x))"
  by (rule bounded_frame) (auto simp: upsert_frame keyed_steps bounded_def)

lemma bounded_device:
  "bounded r w s0 s \<Longrightarrow> bounded r w s0 (fst (so_set_device_status so s x d st))"
  "bounded r w s0 s \<Longrightarrow> bounded r w s0 (fst (so_record_device so s x u k))"
  "bounded r w s0 s \<Longrightarrow> bounded r w s0 (fst (so_set_device_fingerprint so s d fp))"
  by (auto intro!: bounded_frame[of r w s0 s] simp: device_frame keyed_steps bounded_def)

lemma bounded_mark:
  assumes "bounded r w s0 s" shows "bounded r w s0 (fst (so_mark_invitation_accepted so s x e))"
proof -
  obtain s' r' where s': "so_mark_invitation_accepted so s x e = (s', r')" by fastforce
  have "keyed s'" using keyed_steps(4)[of s x e] assms(1) s' by (simp add: bounded_def)
  then show ?thesis using assms s' mark_frame[OF s'] by (elim conjE disjE) (auto simp: bounded_def split: if_splits)
qed

lemma bounded_put_invitation:
  assumes "bounded r w s0 s" "iv_workspace i = w \<Longrightarrow> iv_role i \<le> r"
  shows "bounded r w s0 (fst (so_put_invitation so s i))"
proof -
  obtain s' r' where s': "so_put_invitation so s i = (s', r')" by fastforce
  have "keyed s'" using keyed_steps(3)[of s i] assms(1) s' by (simp add: bounded_def)
  then show ?thesis using assms s' put_invitation[OF s'] by (elim conjE disjE) (auto simp: bounded_def)
qed

lemma target_membership_Some:
  assumes "ge_store v = so" "target_membership v g ctx u = Inr m"
  shows "members (gw_store g) (rc_workspace ctx) u = Some m"
  using assms(2) unfolding target_membership_def assms(1) by (auto simp: result_eqs dest!: reads)

lemma change_member_bounded:
  assumes "bounded r w s0 (gw_store g)" "ge_store v = so" "target_membership v g ctx u = Inr m"
    "rc_workspace ctx = w \<Longrightarrow> rc_role ctx \<le> r" "me_role m \<le> rc_role ctx"
    "me_workspace m' = me_workspace m" "me_user m' = me_user m" "me_role m' \<le> rc_role ctx"
  shows "bounded r w s0 (fst (so_put_membership so (gw_store g) m'))"
proof (rule bounded_put[OF assms(1)])
  have m: "members (gw_store g) (rc_workspace ctx) u = Some m"
    using target_membership_Some[OF assms(2,3)] .
  then have k: "me_workspace m = rc_workspace ctx" "me_user m = u"
    using keyed_member[of "gw_store g"] assms(1) by (auto simp: bounded_def)
  assume "me_workspace m' = w"
  then have "rc_workspace ctx = w" using k assms(6) by simp
  then show "me_role m' \<le> r \<and> \<not> senior r w s0 (me_user m')"
    using bounded_junior[OF assms(1), of u m] m k assms(4,5,7,8) by auto
qed

lemma set_member_status_bounded:
  assumes b: "bounded r w s0 (gw_store g)" and so: "ge_store v = so"
    and ctx: "rc_workspace ctx = w \<Longrightarrow> rc_role ctx \<le> r"
  shows "bounded r w s0 (gw_store (fst (set_member_status v g ctx u x)))"
proof -
  have "bounded r w s0 (fst (so_put_membership so (gw_store g) (m\<lparr>me_status := x\<rparr>)))"
    if "target_membership v g ctx u = Inr m" "me_role m \<le> rc_role ctx" for m
    by (rule change_member_bounded[OF b so that(1) ctx that(2)]) (use that in simp_all)
  then show ?thesis using b so
    by (auto simp: set_member_status_def gbind_def not_less split: sum.splits)
qed

lemma handle_request_bounded:
  assumes b: "bounded r w s0 (gw_store g)" and so: "ge_store v = so"
    and ctx: "rc_workspace ctx = w \<Longrightarrow> rc_role ctx \<le> r"
  shows "bounded r w s0 (gw_store (handle_request v g ctx req))"
proof (cases req)
  case (InviteMember e rl t)
  have "bounded r w s0 (fst (so_put_invitation so (gw_store g)
     \<lparr>iv_workspace = rc_workspace ctx, iv_email = x, iv_role = rl, iv_expires_at = t, iv_accepted = False\<rparr>))"
    if "rl \<le> rc_role ctx" for x
    by (rule bounded_put_invitation[OF b]) (use that ctx in auto)
  then show ?thesis using b so
    by (cases "require ctx ManageMembers"; cases "email_parse e")
      (auto simp: InviteMember invite_member_def Let_def not_less)
next
  case (ChangeRole u rl)
  have "bounded r w s0 (fst (so_put_membership so (gw_store g) (m\<lparr>me_role := rl\<rparr>)))"
    if "target_membership v g ctx u = Inr m" "me_role m \<le> rc_role ctx" "rl \<le> rc_role ctx" for m
    by (rule change_member_bounded[OF b so that(1) ctx that(2)]) (use that in simp_all)
  then show ?thesis using b so
    by (auto simp: ChangeRole change_role_def gbind_def not_less split: sum.splits)
next
  case (SuspendMember u)
  then show ?thesis using set_member_status_bounded[OF assms] by (simp add: suspend_member_def)
next
  case (RestoreMember u)
  then show ?thesis using set_member_status_bounded[OF assms] by (simp add: restore_member_def)
qed (use b so in \<open>auto simp: lock_device_def wipe_device_def gw_author_policy_def gw_reissue_policy_def
      gbind_def bounded_device on_issuer_def split: sum.splits option.splits prod.splits\<close>)

lemma login_bounded:
  assumes b: "bounded r w s0 (gw_store g)" and so: "ge_store v = so"
  shows "bounded r w s0 (gw_store (fst (console_login v g code now ttl)))"
proof -
  let ?P = "\<lambda>g. bounded r w s0 (gw_store g)"
  have acc: "bounded r w s0 (fst (so_put_membership so s' m))"
    if "bounded r w s0 s'" "so_workspace so s'' x = Inr (Some ws)" "keyed s''"
      "invites s' x e = Some i" "members s' x u = None"
      "accept_invitation u e mt ws i now = Inr m" for s' s'' x ws e i u mt m
  proof (rule bounded_put[OF that(1)])
    have m: "me_workspace m = x" "me_user m = u" "me_role m = iv_role i"
      using that(6) keyed_workspace[OF that(3,2)] by (auto simp: accept_invitation_def split: if_splits)
    assume "me_workspace m = w"
    then show "me_role m \<le> r \<and> \<not> senior r w s0 (me_user m)"
      using m that(1,4,5) by (auto simp: bounded_def senior_def split: option.splits)
  qed
  show ?thesis unfolding console_login_def so
  proof (rule gbind_inv[where P = ?P], goal_cases)
    case 1 then show ?case using b by simp
  next
    case (2 g1 vu)
    show ?case
    proof (rule gbind_inv[where P = ?P], goal_cases)
      case 1 then show ?case using 2 by simp
    next
      case (2 g2 ws)
      then have g2: "so_workspace so (gw_store g2) (vu_workspace vu) = Inr (Some ws)" "keyed (gw_store g2)" "?P g2"
        by (auto simp: result_eqs bounded_def)
      show ?case
      proof (rule gbind_inv[where P = ?P], goal_cases)
        case 1 then show ?case using g2 by (simp add: bounded_upsert)
      next
        case (2 g3 user)
        then show ?case
          by (auto intro: acc[OF _ g2(1,2)] intro!: bounded_mark dest: reads simp: gbind_def map_err_def on_store_def
              split: option.splits sum.splits prod.splits)
      qed
    qed
  qed
qed

lemma refresh_bounded:
  assumes "bounded r w s0 (gw_store g)" and so: "ge_store v = so"
  shows "bounded r w s0 (gw_store (fst (refresh_session v g s now ttl)))"
  using assms(1) unfolding refresh_session_def so
  by (auto simp: gbind_def rbind_def ok_or_def on_store_def bounded_upsert
      split: sum.splits option.splits prod.splits)

lemma enroll_bounded:
  assumes "bounded r w s0 (gw_store g)" and so: "ge_store v = so"
  shows "bounded r w s0 (gw_store (fst (complete_enrollment v g x code k kek now)))"
proof -
  let ?P = "\<lambda>g. bounded r w s0 (gw_store g)"
  have poll: "?P (fst (authorize_enrollment_poll v g x code))"
    using assms(1) unfolding authorize_enrollment_poll_def so
    by (auto simp: gbind_def rbind_def ok_or_def on_store_def bounded_upsert
        split: sum.splits option.splits prod.splits)
  have tls: "?P g' \<Longrightarrow> ?P (fst (issue_tls v g' d))" for g' d
    by (auto simp: issue_tls_def so bounded_device split: option.splits sum.splits)
  show ?thesis unfolding complete_enrollment_def
    by (rule gbind_inv[where P = ?P], rule poll, auto simp: so Let_def register_audit_key_def
      split: option.splits intro!: gbind_inv[where P = ?P] bounded_device tls)
qed

lemma ingest_store [simp]: "gw_store (fst (ingest_device_audit v g d b)) = gw_store g"
  by (auto simp: ingest_device_audit_def Let_def split: prod.splits option.splits sum.splits)

lemma no_escalation_step:
  assumes so: "ge_store v = so" and b: "bounded r w s0 (gw_store g)"
    and act: "\<And>u. acts_in w ev = Some u \<Longrightarrow> \<not> senior r w s0 u"
  shows "bounded r w s0 (gw_store (gw_apply v g ev))"
proof (cases ev)
  case (Request s now req)
  have "rc_workspace ctx = w \<Longrightarrow> rc_role ctx \<le> r" if "authorize_request v g s now = Inr ctx" for ctx
    using authorize_request_ok[OF so that] boundedD(2)[OF b, of "ss_user s"] act Request by auto
  then show ?thesis using handle_request_bounded[OF b so] b by (auto simp: Request split: sum.splits)
qed (use b so in \<open>simp_all add: login_bounded refresh_bounded enroll_bounded\<close>)

lemma no_escalation_run:
  assumes "ge_store v = so" "bounded r w s0 (gw_store g)"
    "\<forall>ev \<in> set evs. \<forall>u. acts_in w ev = Some u \<longrightarrow> \<not> senior r w s0 u"
  shows "bounded r w s0 (gw_store (foldl (gw_apply v) g evs))"
  using assms(2,3) by (induction evs arbitrary: g) (simp_all add: no_escalation_step[OF assms(1)])

lemma bounded_cases:
  assumes "bounded r w s0 s"
  shows "case members s0 w u of
      Some m \<Rightarrow> if me_role m > r then members s w u = Some m else (\<forall>m'. members s w u = Some m' \<longrightarrow> me_role m' \<le> r)
    | None \<Rightarrow> \<forall>m'. members s w u = Some m' \<longrightarrow> me_role m' \<le> r"
  using boundedD[OF assms, of u] by (cases "members s0 w u") (simp_all add: senior_def)

end

text \<open>
  (C4) No privilege escalation. In a gateway over the directory store, take any sequence of admin
  requests (each authorised by its session at that time), logins, refreshes, enrollments and device
  batches, with any answers of the identity provider. If nobody who issues a request in a workspace is above role
  \<open>r\<close> there at the start, and no pending invitation is, then at the end every member who was above
  \<open>r\<close> is exactly as before (role and status), and nobody else is above \<open>r\<close>: admins can neither
  become owners nor suspend, demote or replace one, whatever they invite, grant or accept.
\<close>

theorem no_privilege_escalation:
  fixes v :: "(mem_store, 'c, 'a) gateway_env"
  assumes "ge_store v = mem_store_ops" "ms_keyed (gw_store g)"
    and "\<And>e i. hm_get (ms_invitations (gw_store g)) (w, e) = Some i \<Longrightarrow> iv_role i \<le> r"
    and "\<And>ev u m. ev \<in> set evs \<Longrightarrow> acts_in w ev = Some u \<Longrightarrow>
      hm_get (ms_memberships (gw_store g)) (w, u) = Some m \<Longrightarrow> me_role m \<le> r"
    and "g' = foldl (gw_apply v) g evs"
  shows "(case hm_get (ms_memberships (gw_store g)) (w, u) of
      Some m \<Rightarrow> if me_role m > r then hm_get (ms_memberships (gw_store g')) (w, u) = Some m
                else (\<forall>m'. hm_get (ms_memberships (gw_store g')) (w, u) = Some m' \<longrightarrow> me_role m' \<le> r)
    | None \<Rightarrow> \<forall>m'. hm_get (ms_memberships (gw_store g')) (w, u) = Some m' \<longrightarrow> me_role m' \<le> r)"
proof -
  have "mks.bounded r w (gw_store g) (gw_store g)"
    by (rule mks.bounded_refl) (use assms in auto)
  moreover have "\<forall>ev \<in> set evs. \<forall>u. acts_in w ev = Some u \<longrightarrow> \<not> mks.senior r w (gw_store g) u"
    using assms(4) by (auto simp: mks.senior_def not_less[symmetric] split: option.splits)
  ultimately have "mks.bounded r w (gw_store g) (gw_store g')"
    unfolding assms(5) by (rule mks.no_escalation_run[OF assms(1)])
  then show ?thesis by (rule mks.bounded_cases)
qed

text \<open>An admin tries to become owner, and to demote and suspend the owner.\<close>

definition demo_owner :: membership where
  "demo_owner = \<lparr>me_workspace = WorkspaceId 1, me_user = UserId 1, me_role = Owner, me_status = Active\<rparr>"

definition demo_admin :: membership where
  "demo_admin = \<lparr>me_workspace = WorkspaceId 1, me_user = UserId 2, me_role = Admin, me_status = Active\<rparr>"

definition demo_directory :: mem_store where
  "demo_directory =
     seed_membership (seed_membership (seed_workspace mem_store_new
       \<lparr>ws_id = WorkspaceId 1, ws_allowed_domains = [], ws_sso = Optional\<rparr>) demo_owner) demo_admin"

definition demo_user :: verified_user where
  "demo_user = \<lparr>vu_email = EmailAddr ''a@b.c'', vu_idp_user_id = ''x'', vu_workspace = WorkspaceId 1,
     vu_method = EmailCode, vu_access_token = [], vu_refresh_token = ''t''\<rparr>"

definition demo_env :: "(mem_store, mem_counter, mem_audit_store) gateway_env" where
  "demo_env = \<lparr>ge_ed = ed_demo, ge_sha = id, ge_envelope = demo_policy_codec, ge_event = demo_event_codec,
     ge_idp = mock_identity_provider demo_user ''code'', ge_store = mem_store_ops, ge_next = mc_next,
     ge_audit_store = mem_audit_ops\<rparr>"

definition demo_gateway :: "(mem_store, mem_counter, mem_audit_store) gateway" where
  "demo_gateway = with_audit_store (gateway_new demo_directory) mem_audit_store_new"

definition demo_session :: session where
  "demo_session = \<lparr>ss_user = UserId 2, ss_workspace = WorkspaceId 1, ss_role = Admin, ss_expires_at = 100,
     ss_refresh_token = ''t''\<rparr>"

lemmas demo_gateway_defs = demo_gateway_def demo_directory_def demo_owner_def demo_admin_def
  with_audit_store_def gateway_new_def seed_membership_def seed_workspace_def mem_store_new_def

theorem no_privilege_escalation_witness:
  "hm_get (ms_memberships (gw_store (foldl (gw_apply demo_env) demo_gateway
      [Request demo_session 5 (ChangeRole (UserId 2) Owner), Request demo_session 5 (ChangeRole (UserId 1) Member),
       Request demo_session 5 (SuspendMember (UserId 1)), Request demo_session 5 (InviteMember ''z@b.c'' Owner 9)])))
     (WorkspaceId 1, UserId 1) = Some demo_owner"
proof -
  define evs where "evs = [Request demo_session 5 (ChangeRole (UserId 2) Owner), Request demo_session 5 (ChangeRole (UserId 1) Member),
       Request demo_session 5 (SuspendMember (UserId 1)), Request demo_session 5 (InviteMember ''z@b.c'' Owner 9)]"
  have acts: "acts_in (WorkspaceId 1) ev = Some u \<Longrightarrow> u = UserId 2" if "ev \<in> set evs" for ev u
    using that by (auto simp: evs_def demo_session_def)
  have o: "hm_get (ms_memberships (gw_store demo_gateway)) (WorkspaceId 1, UserId 1) = Some demo_owner"
    "hm_get (ms_memberships (gw_store demo_gateway)) (WorkspaceId 1, UserId 2) = Some demo_admin"
    "hm_get (ms_invitations (gw_store demo_gateway)) k = None" "ms_keyed (gw_store demo_gateway)" for k
    by (simp_all add: demo_gateway_defs ms_keyed_def)
  have r: "ge_store demo_env = mem_store_ops" "me_role demo_admin \<le> Admin" "Admin < me_role demo_owner"
    by (simp_all add: demo_env_def demo_admin_def demo_owner_def less_role_def)
  have "m = demo_admin" if "ev \<in> set evs" "acts_in (WorkspaceId 1) ev = Some u"
    "hm_get (ms_memberships (gw_store demo_gateway)) (WorkspaceId 1, u) = Some m" for ev u m
    using acts[OF that(1,2)] that(3) o(2) by simp
  with o(3) r(2) have "me_role m \<le> Admin" if "ev \<in> set evs" "acts_in (WorkspaceId 1) ev = Some u"
    "hm_get (ms_memberships (gw_store demo_gateway)) (WorkspaceId 1, u) = Some m" for ev u m
    using that by blast
  then have "case hm_get (ms_memberships (gw_store demo_gateway)) (WorkspaceId 1, UserId 1) of
      Some m \<Rightarrow> if me_role m > Admin
        then hm_get (ms_memberships (gw_store (foldl (gw_apply demo_env) demo_gateway evs))) (WorkspaceId 1, UserId 1) = Some m
        else (\<forall>m'. hm_get (ms_memberships (gw_store (foldl (gw_apply demo_env) demo_gateway evs))) (WorkspaceId 1, UserId 1)
                = Some m' \<longrightarrow> me_role m' \<le> Admin)
    | None \<Rightarrow> \<forall>m'. hm_get (ms_memberships (gw_store (foldl (gw_apply demo_env) demo_gateway evs))) (WorkspaceId 1, UserId 1)
                = Some m' \<longrightarrow> me_role m' \<le> Admin"
    by (intro no_privilege_escalation[OF r(1) o(4) _ _ refl]) (simp_all add: o(3))
  then show ?thesis using o(1) r(3) by (simp add: evs_def del: foldl.simps)
qed

section \<open>Suspension\<close>

context keyed_store
begin

definition suspended :: "'s \<Rightarrow> workspace_id \<Rightarrow> user_id \<Rightarrow> bool" where
  "suspended s w u = (\<exists>m. members s w u = Some m \<and> me_status m = MSuspended)"

lemma suspended_refused:
  assumes "ge_store v = so" "suspended (gw_store g) (ss_workspace s) (ss_user s)"
  shows "isl (authorize_request v g s now)"
  using assms authorize_request_ok[OF assms(1), of g s now] unfolding suspended_def
  by (cases "authorize_request v g s now") auto

lemma put_suspended:
  assumes "keyed s" "members s w u = Some m" "snd (so_put_membership so s (m\<lparr>me_status := MSuspended\<rparr>)) = Inr ()"
  shows "suspended (fst (so_put_membership so s (m\<lparr>me_status := MSuspended\<rparr>))) w u"
  using membership_put[OF surjective_pairing, of s "m\<lparr>me_status := MSuspended\<rparr>"] keyed_member[OF assms(1,2)] assms(3)
  by (auto simp: suspended_def)

lemma suspend_effect:
  assumes "ge_store v = so" "keyed (gw_store g)" "suspend_member v g ctx u = (g', Inr ())"
  shows "suspended (gw_store g') (rc_workspace ctx) u"
  using assms(3) put_suspended[OF assms(2)] target_membership_Some[OF assms(1)]
  by (auto simp: suspend_member_def set_member_status_def gbind_def assms(1) on_store_def split: sum.splits if_splits)

lemma directory_effect:
  assumes "ge_store v = so" "keyed (gw_store g)" "apply_directory_event v g ev = (g', Inr (DeltaSuspended u))"
  shows "suspended (gw_store g') (scim_workspace ev) u"
  using assms(3) put_suspended[OF assms(2)] unfolding apply_directory_event_def assms(1)
  by (auto simp: gbind_def Let_def on_store_def result_eqs dest!: reads(1) split: sum.splits if_splits option.splits)

end

lemma authorize_suspended:
  assumes "ge_store v = mem_store_ops" "mks.suspended (gw_store g) (ss_workspace s) (ss_user s)"
  shows "authorize_request v g s now =
    Inl (if now > ss_expires_at s then SessionInvalid else Unauthorized DSuspended)"
  using assms by (auto simp: authorize_request_def mks.membership_found mks.suspended_def)

text \<open>
  Suspension is immediate. Once a member is suspended, by an admin or by a directory event,
  no session of that member, whatever its expiry, is authorised any more: the next request is
  answered with \<open>SessionInvalid\<close> if the session has expired and with \<open>Suspended\<close> otherwise.
\<close>

theorem suspension_immediate:
  assumes "ge_store v = mem_store_ops" "ms_keyed (gw_store g)"
    and "suspend_member v g ctx u = (g', Inr ()) \<and> w = rc_workspace ctx \<or>
         apply_directory_event v g ev = (g', Inr (DeltaSuspended u)) \<and> w = scim_workspace ev"
    and "ss_workspace s = w" "ss_user s = u"
  shows "authorize_request v g' s now =
    Inl (if now > ss_expires_at s then SessionInvalid else Unauthorized DSuspended)"
proof -
  have "mks.suspended (gw_store g') w u"
    using assms(3) mks.suspend_effect[OF assms(1,2)] mks.directory_effect[OF assms(1,2)] by blast
  then show ?thesis using authorize_suspended[OF assms(1), of g' s] assms(4,5) by auto
qed

text \<open>The owner suspends the admin, whose session has time left.\<close>

theorem suspension_immediate_witness:
  "authorize_request demo_env (fst (suspend_member demo_env demo_gateway
      \<lparr>rc_user = UserId 1, rc_workspace = WorkspaceId 1, rc_role = Owner\<rparr> (UserId 2))) demo_session 5
   = Inl (Unauthorized DSuspended)"
proof -
  have k: "ge_store demo_env = mem_store_ops" "ms_keyed (gw_store demo_gateway)"
    by (simp_all add: demo_env_def demo_gateway_defs ms_keyed_def)
  obtain g' where "suspend_member demo_env demo_gateway
      \<lparr>rc_user = UserId 1, rc_workspace = WorkspaceId 1, rc_role = Owner\<rparr> (UserId 2) = (g', Inr ())"
    by (simp add: suspend_member_def set_member_status_def require_def can_def target_membership_def k
        mem_store_defs demo_gateway_defs less_eq_role_def less_role_def)
  with suspension_immediate[OF k, of "\<lparr>rc_user = UserId 1, rc_workspace = WorkspaceId 1, rc_role = Owner\<rparr>"
      "UserId 2" g' "WorkspaceId 1" undefined demo_session 5]
  show ?thesis by (simp add: demo_session_def)
qed

section \<open>The audit view\<close>

definition in_workspace :: "mem_store \<Rightarrow> workspace_id \<Rightarrow> device_id \<Rightarrow> bool" where
  "in_workspace s w d = (case hm_get (ms_devices s) d of Some x \<Rightarrow> sv_workspace x = w | None \<Rightarrow> False)"

lemma list_devices_ids:
  assumes "hm_wf (ms_devices s)"
  shows "\<exists>ds. ms_list_devices s w = Inr ds \<and> distinct (map dr_id ds) \<and> set (map dr_id ds) = {d. in_workspace s w d}"
proof -
  let ?raw = "map (\<lambda>(i, d). stored_device_record d i) (filter (\<lambda>(_, d). sv_workspace d = w) (ms_devices s))"
  have ids: "map dr_id ?raw = map fst (filter (\<lambda>(_, d). sv_workspace d = w) (ms_devices s))"
    by (simp add: stored_device_record_def comp_def split_beta)
  have "distinct (map dr_id ?raw)"
    using assms unfolding ids hm_wf_def by (rule distinct_map_filter)
  moreover have "mset (map dr_id (sort_key (\<lambda>d. device_num (dr_id d)) ?raw)) = mset (map dr_id ?raw)"
    by (simp only: mset_map mset_sort)
  ultimately have "distinct (map dr_id (sort_key (\<lambda>d. device_num (dr_id d)) ?raw))"
    by (metis mset_eq_imp_distinct_iff)
  moreover have "in_workspace s w d \<longleftrightarrow> (\<exists>x. (d, x) \<in> set (ms_devices s) \<and> sv_workspace x = w)" for d
    unfolding hm_get_Some_iff[OF assms, symmetric] in_workspace_def by (cases "hm_get (ms_devices s) d") auto
  then have "set (map dr_id ?raw) = {d. in_workspace s w d}"
    unfolding ids by force
  then have "set (map dr_id (sort_key (\<lambda>d. device_num (dr_id d)) ?raw)) = {d. in_workspace s w d}"
    by (simp only: set_map set_sort)
  ultimately show ?thesis unfolding ms_list_devices_def by blast
qed

lemma concat_events_filter:
  assumes "distinct (map dr_id ds)"
  shows "map au_event (filter (\<lambda>r. au_device r = d)
      (concat (map (\<lambda>x. map (\<lambda>e. \<lparr>au_device = dr_id x, au_event = e\<rparr>) (f (dr_id x))) ds))) =
    (if d \<in> set (map dr_id ds) then f d else [])"
  using assms
proof (induction ds)
  case (Cons x ds)
  have "map au_event (filter (\<lambda>r. au_device r = d) (map (\<lambda>e. \<lparr>au_device = dr_id x, au_event = e\<rparr>) (f (dr_id x))))
    = (if dr_id x = d then f d else [])"
    by (simp add: filter_map comp_def)
  then show ?case using Cons by auto
qed simp

text \<open>
  Tenants see their own audit, all of it. A member below admin gets \<open>Forbidden\<close>. For an admin,
  the events listed for a device are exactly the events the ledger verified for it when the device
  belongs to the workspace of the request, and none otherwise; the alerts are exactly those about
  such devices.
\<close>

theorem audit_view_exact:
  assumes "ge_store v = mem_store_ops" "hm_wf (ms_devices (gw_store g))"
  shows "if can (rc_role ctx) ViewAudit then
      (\<exists>recs. audit_events v g ctx = Inr recs \<and>
        (\<forall>d. map au_event (filter (\<lambda>r. au_device r = d) recs) =
          (if in_workspace (gw_store g) (rc_workspace ctx) d then events_for (gw_audit g) d else []))) \<and>
      audit_alerts v g ctx =
        Inr (filter (\<lambda>a. in_workspace (gw_store g) (rc_workspace ctx) (aa_device a)) (al_alerts (gw_audit g)))
    else audit_events v g ctx = Inl (Forbidden ''ViewAudit requires at least Admin'') \<and>
         audit_alerts v g ctx = Inl (Forbidden ''ViewAudit requires at least Admin'')"
proof (cases "can (rc_role ctx) ViewAudit")
  case True
  obtain ds where ds: "ms_list_devices (gw_store g) (rc_workspace ctx) = Inr ds" "distinct (map dr_id ds)"
    "set (map dr_id ds) = {d. in_workspace (gw_store g) (rc_workspace ctx) d}"
    using list_devices_ids[OF assms(2)] by blast
  have so: "so_list_devices (ge_store v) = ms_list_devices" by (simp add: assms(1) mem_store_ops_def)
  show ?thesis
    using concat_events_filter[OF ds(2), of _ "events_for (gw_audit g)"] True ds(3)
    by (simp add: audit_events_def audit_alerts_def require_def so ds(1) del: set_map)
qed (simp add: audit_events_def audit_alerts_def require_def)

text \<open>A workspace with one device that sent one event.\<close>

definition demo_fleet :: "(mem_store, mem_counter, mem_audit_store) gateway" where
  "demo_fleet = demo_gateway\<lparr>gw_store := fst (ms_record_device demo_directory (WorkspaceId 1) (UserId 2) [5]),
     gw_audit := fst (ingest id ed_demo demo_event_codec (register_device ledger_new (DeviceId 1) [5]) (DeviceId 1) demo_batch)\<rparr>"

theorem audit_view_exact_witness:
  "\<exists>recs. audit_events demo_env demo_fleet \<lparr>rc_user = UserId 2, rc_workspace = WorkspaceId 1, rc_role = Admin\<rparr> = Inr recs \<and>
     map au_event (filter (\<lambda>r. au_device r = DeviceId 1) recs) = events_for (gw_audit demo_fleet) (DeviceId 1) \<and>
     map au_event (filter (\<lambda>r. au_device r = DeviceId 2) recs) = []"
proof -
  have "hm_get (ms_devices (gw_store demo_fleet)) (DeviceId 1) =
      Some \<lparr>sv_workspace = WorkspaceId 1, sv_enrolled_by = UserId 2, sv_pubkey = [5], sv_status = DActive\<rparr>"
    "hm_get (ms_devices (gw_store demo_fleet)) (DeviceId 2) = None" "hm_wf (ms_devices (gw_store demo_fleet))"
    by (simp_all add: demo_fleet_def ms_record_device_def demo_gateway_defs Let_def)
  then have ws: "in_workspace (gw_store demo_fleet) (WorkspaceId 1) (DeviceId 1)"
    "\<not> in_workspace (gw_store demo_fleet) (WorkspaceId 1) (DeviceId 2)" "hm_wf (ms_devices (gw_store demo_fleet))"
    "can Admin ViewAudit" "ge_store demo_env = mem_store_ops"
    by (simp_all add: in_workspace_def can_def demo_env_def)
  define ctx where "ctx = \<lparr>rc_user = UserId 2, rc_workspace = WorkspaceId 1, rc_role = Admin\<rparr>"
  have c: "rc_role ctx = Admin" "rc_workspace ctx = WorkspaceId 1" by (simp_all add: ctx_def)
  obtain recs where "audit_events demo_env demo_fleet ctx = Inr recs"
    "\<forall>d. map au_event (filter (\<lambda>r. au_device r = d) recs) =
      (if in_workspace (gw_store demo_fleet) (WorkspaceId 1) d then events_for (gw_audit demo_fleet) d else [])"
    using audit_view_exact[OF ws(5,3), of ctx] ws(4) unfolding c by auto
  then show ?thesis using ws(1,2) by (metis ctx_def)
qed

section \<open>Restart\<close>

definition persisted_of :: "device_id \<Rightarrow> device_chain \<Rightarrow> persisted_chain" where
  "persisted_of d c = \<lparr>pc_device = d, pc_public_key = dc_public_key c, pc_next_seq = dc_next_seq c, pc_head = dc_head c\<rparr>"

definition audit_persisted :: "('s, 'c, mem_audit_store) gateway \<Rightarrow> bool" where
  "audit_persisted g =
     (case gw_audit_store g of
        None \<Rightarrow> False
      | Some st \<Rightarrow> hm_wf (ma_chains st) \<and>
          (\<forall>d. hm_get (ma_chains st) d = map_option (persisted_of d) (hm_get (al_chains (gw_audit g)) d)))"

definition same_chains :: "audit_ledger \<Rightarrow> audit_ledger \<Rightarrow> bool" where
  "same_chains l l' = (\<forall>d. hm_get (al_chains l) d = hm_get (al_chains l') d)"

lemma ingest_chains:
  assumes "ingest sha ed pc l d b = (l', r)"
  shows "hm_get (al_chains l') x =
    (case r of
       Inr _ \<Rightarrow> if x = d then map_option (\<lambda>c. c\<lparr>dc_next_seq := dc_next_seq c + of_nat (length (sb_entries b)), dc_head := sb_head b\<rparr>)
                   (hm_get (al_chains l) d) else hm_get (al_chains l) x
     | Inl _ \<Rightarrow> hm_get (al_chains l) x)"
  using assms
  by (auto simp: ingest_def Let_def verify_batch_iff split: option.splits sum.splits)

lemma ingest_same_chains:
  assumes "same_chains l1 l2" "ingest sha ed pc l1 d b = (l1', r1)" "ingest sha ed pc l2 d b = (l2', r2)"
  shows "r1 = r2 \<and> same_chains l1' l2'"
proof -
  have "r1 = r2" using assms
    by (auto simp: same_chains_def ingest_def Let_def split: option.splits sum.splits)
  then show ?thesis
    using ingest_chains[OF assms(2)] ingest_chains[OF assms(3)] assms(1) by (simp add: same_chains_def split: sum.splits)
qed

lemma ingest_device_result:
  "snd (ingest_device_audit v g d b) = snd (ingest (ge_sha v) (ge_ed v) (ge_event v) (gw_audit g) d b)"
  "gw_audit (fst (ingest_device_audit v g d b)) = fst (ingest (ge_sha v) (ge_ed v) (ge_event v) (gw_audit g) d b)"
  by (auto simp: ingest_device_audit_def Let_def split: prod.splits option.splits sum.splits)

lemma serve_same_chains:
  assumes "same_chains (gw_audit g1) (gw_audit g2)"
  shows "snd (serve_device_audit v g1 d bs) = snd (serve_device_audit v g2 d bs) \<and>
    same_chains (gw_audit (fst (serve_device_audit v g1 d bs))) (gw_audit (fst (serve_device_audit v g2 d bs)))"
  using assms
proof (induction bs arbitrary: g1 g2)
  case (Cons b bs)
  have "snd (ingest_device_audit v g1 d b) = snd (ingest_device_audit v g2 d b) \<and>
    same_chains (gw_audit (fst (ingest_device_audit v g1 d b))) (gw_audit (fst (ingest_device_audit v g2 d b)))"
    unfolding ingest_device_result by (rule ingest_same_chains[OF Cons.prems]) simp_all
  with Cons.IH[of "fst (ingest_device_audit v g1 d b)" "fst (ingest_device_audit v g2 d b)"]
  show ?case by (simp add: Let_def split_beta)
qed simp

lemma persisted_ingest:
  assumes "ge_audit_store v = mem_audit_ops" "audit_persisted g"
  shows "audit_persisted (fst (ingest_device_audit v g d b))"
proof -
  obtain l r where i: "ingest (ge_sha v) (ge_ed v) (ge_event v) (gw_audit g) d b = (l, r)" by fastforce
  obtain st where st: "gw_audit_store g = Some st" using assms(2) by (auto simp: audit_persisted_def split: option.splits)
  show ?thesis
  proof (cases r)
    case (Inl e)
    then have "hm_get (al_chains l) x = hm_get (al_chains (gw_audit g)) x" for x
      using ingest_chains[OF i] by simp
    then show ?thesis using assms Inl st
      by (auto simp: ingest_device_audit_def i Let_def audit_persisted_def mem_audit_ops_def ma_record_alert_def
          split: option.splits)
  next
    case (Inr ev)
    then obtain c where c: "hm_get (al_chains (gw_audit g)) d = Some c"
      using i by (auto simp: ingest_def split: option.splits)
    show ?thesis using assms Inr st c ingest_chains[OF i]
      by (auto simp: ingest_device_audit_def i Let_def audit_persisted_def mem_audit_ops_def ma_append_def
          ledger_high_water_def head_for_def persisted_of_def)
  qed
qed

lemma persisted_frame:
  "audit_persisted g \<Longrightarrow> gw_audit g' = gw_audit g \<Longrightarrow> gw_audit_store g' = gw_audit_store g \<Longrightarrow> audit_persisted g'"
  by (auto simp: audit_persisted_def split: option.splits)

lemma persisted_register:
  assumes "ge_audit_store v = mem_audit_ops" "audit_persisted g"
  shows "audit_persisted (register_audit_key v g d k)"
  using assms
  by (auto simp: audit_persisted_def register_audit_key_def mem_audit_ops_def ma_register_def register_device_def
      persisted_of_def split: option.splits)

lemma persisted_parts:
  "audit_persisted g \<Longrightarrow> audit_persisted (fst (on_store g x))"
  "audit_persisted g \<Longrightarrow> audit_persisted (fst (on_issuer g y))"
  by (auto intro: persisted_frame)

lemma persisted_enroll:
  assumes m: "ge_audit_store v = mem_audit_ops" and g: "audit_persisted g"
  shows "audit_persisted (fst (complete_enrollment v g w code k kek now))"
proof -
  have poll: "audit_persisted (fst (authorize_enrollment_poll v g w code))"
    unfolding authorize_enrollment_poll_def using g
    by (auto split: option.splits intro!: gbind_inv[where P = audit_persisted] persisted_parts)
  have tls: "audit_persisted g' \<Longrightarrow> audit_persisted (fst (issue_tls v g' d))" for g' d
    by (auto simp: issue_tls_def persisted_parts split: option.splits sum.splits)
  show ?thesis unfolding complete_enrollment_def
    by (rule gbind_inv[where P = audit_persisted], rule poll)
      (auto simp: Let_def persisted_register[OF m] split: option.splits
        intro!: gbind_inv[where P = audit_persisted] persisted_parts tls)
qed

lemma persisted_request:
  assumes "audit_persisted g" shows "audit_persisted (handle_request v g ctx req)"
proof -
  have st: "audit_persisted (fst (set_member_status v g ctx u x))" for u x
    unfolding set_member_status_def using assms
    by (auto intro!: gbind_inv[where P = audit_persisted] persisted_parts)
  show ?thesis using assms
    by (cases req) (auto simp: invite_member_def change_role_def suspend_member_def restore_member_def st
      lock_device_def wipe_device_def gw_author_policy_def gw_reissue_policy_def Let_def split: option.splits
      intro!: gbind_inv[where P = audit_persisted] persisted_parts)
qed

lemma persisted_session:
  assumes "audit_persisted g"
  shows "audit_persisted (fst (console_login v g code now ttl))" "audit_persisted (fst (refresh_session v g s now ttl))"
  using assms unfolding console_login_def refresh_session_def
  by (auto split: option.splits intro!: gbind_inv[where P = audit_persisted] persisted_parts)

lemma persisted_run:
  assumes "ge_audit_store v = mem_audit_ops" "audit_persisted g"
  shows "audit_persisted (foldl (gw_apply v) g evs)"
  using assms(2)
proof (induction evs arbitrary: g)
  case (Cons ev evs)
  have "audit_persisted (gw_apply v g ev)"
    by (cases ev) (use Cons.prems assms(1) in \<open>auto simp: persisted_ingest persisted_enroll persisted_request
      persisted_session split: sum.splits\<close>)
  then show ?case using Cons.IH by simp
qed simp

lemma restore_chains_get:
  assumes "hm_wf m" "\<And>d c. hm_get m d = Some c \<Longrightarrow> pc_device c = d"
  shows "hm_get (al_chains (restore_chains l (hm_values m))) d =
    (case hm_get m d of
       None \<Rightarrow> hm_get (al_chains l) d
     | Some c \<Rightarrow> Some \<lparr>dc_public_key = pc_public_key c, dc_next_seq = pc_next_seq c, dc_head = pc_head c\<rparr>)"
  using assms
proof (induction m arbitrary: l)
  case (Cons kc m)
  obtain k c where kc: "kc = (k, c)" by (cases kc)
  have wf: "hm_wf m" and fresh: "hm_get m k = None" using Cons.prems(1)
    by (auto simp: kc hm_wf_def hm_get_def map_of_eq_None_iff)
  have dev: "pc_device c = k" using Cons.prems(2)[of k c] by (simp add: kc hm_get_def)
  have "pc_device y = x" if "hm_get m x = Some y" for x y
    using Cons.prems(2)[of x y] that fresh by (cases "x = k") (auto simp: kc hm_get_def)
  from Cons.IH[OF wf this] dev fresh show ?case
    by (auto simp: kc restore_chains_def hm_values_def restore_device_def hm_get_def[of "_ # _"] hm_get_def[symmetric]
        split: option.splits)
qed (simp add: restore_chains_def hm_values_def)

lemma hydrate_same_chains:
  assumes "ge_audit_store v = mem_audit_ops" "audit_persisted g"
  shows "\<exists>h n. hydrate_audit v (g\<lparr>gw_audit := ledger_new\<rparr>) = (h, Inr n) \<and> same_chains (gw_audit h) (gw_audit g)"
proof -
  obtain st where st: "gw_audit_store g = Some st" "hm_wf (ma_chains st)"
    "\<And>d. hm_get (ma_chains st) d = map_option (persisted_of d) (hm_get (al_chains (gw_audit g)) d)"
    using assms(2) by (auto simp: audit_persisted_def split: option.splits)
  have dev: "pc_device c = d" if "hm_get (ma_chains st) d = Some c" for d c
    using that by (auto simp: st(3) persisted_of_def)
  have "same_chains (restore_chains ledger_new (hm_values (ma_chains st))) (gw_audit g)"
    using restore_chains_get[OF st(2) dev, of ledger_new]
    by (auto simp: same_chains_def st(3) persisted_of_def ledger_new_def split: option.splits)
  then show ?thesis
    by (simp add: hydrate_audit_def assms(1) st(1) mem_audit_ops_def ma_load_chains_def)
qed

text \<open>
  A restart over the in-memory audit store loses no chain. Run a gateway with an audit store from its start through any
  events; stop it, losing the ledger, and start it again on the same stores: hydration succeeds, and
  from then on the gateway answers every sequence of batches of every device exactly as if it had
  not stopped. What is lost is the view: the restarted ledger lists no events.
\<close>

theorem mem_restart_continues_chains:
  fixes v :: "('s, 'c, mem_audit_store) gateway_env"
  assumes "ge_audit_store v = mem_audit_ops"
    and "g = foldl (gw_apply v) (with_audit_store (gateway_new s) mem_audit_store_new) evs"
  shows "\<exists>h n. hydrate_audit v (g\<lparr>gw_audit := ledger_new\<rparr>) = (h, Inr n) \<and>
    (\<forall>d bs. snd (serve_device_audit v h d bs) = snd (serve_device_audit v g d bs)) \<and>
    (\<forall>d b. snd (ingest_device_audit v h d b) = snd (ingest_device_audit v g d b)) \<and>
    (\<forall>d. events_for (gw_audit h) d = [])"
proof -
  have "audit_persisted g" unfolding assms(2)
    by (rule persisted_run[OF assms(1)])
      (simp add: audit_persisted_def with_audit_store_def gateway_new_def mem_audit_store_new_def ledger_new_def)
  then obtain h n where h: "hydrate_audit v (g\<lparr>gw_audit := ledger_new\<rparr>) = (h, Inr n)" "same_chains (gw_audit h) (gw_audit g)"
    using hydrate_same_chains[OF assms(1)] by blast
  have "al_verified (restore_chains l cs) = al_verified l" for l cs
    by (induction cs arbitrary: l) (simp_all add: restore_chains_def restore_device_def)
  then have "events_for (gw_audit h) d = []" for d
    using h(1) by (auto simp: hydrate_audit_def events_for_def ledger_new_def split: option.splits sum.splits)
  moreover have "snd (ingest_device_audit v h d b) = snd (ingest_device_audit v g d b)" for d b
    unfolding ingest_device_result using ingest_same_chains[OF h(2) prod.collapse[symmetric] prod.collapse[symmetric]] by blast
  ultimately show ?thesis using h serve_same_chains[OF h(2)] by blast
qed

text \<open>An enrolled device's first batch, before and after the restart.\<close>

theorem mem_restart_continues_chains_witness:
  "\<exists>h n. hydrate_audit demo_env ((foldl (gw_apply demo_env) demo_gateway
        [Enroll (mock_identity_provider demo_user ''code'') (WorkspaceId 1) ''code'' [5] None 3,
         DeviceBatch (DeviceId 1) demo_batch])\<lparr>gw_audit := ledger_new\<rparr>) = (h, Inr n) \<and>
     snd (ingest_device_audit demo_env h (DeviceId 1) demo_batch) =
     snd (ingest_device_audit demo_env (foldl (gw_apply demo_env) demo_gateway
        [Enroll (mock_identity_provider demo_user ''code'') (WorkspaceId 1) ''code'' [5] None 3,
         DeviceBatch (DeviceId 1) demo_batch]) (DeviceId 1) demo_batch)"
proof -
  have "ge_audit_store demo_env = mem_audit_ops" by (simp add: demo_env_def)
  from mem_restart_continues_chains[OF this refl, of demo_directory "[Enroll (mock_identity_provider demo_user ''code'')
      (WorkspaceId 1) ''code'' [5] None 3, DeviceBatch (DeviceId 1) demo_batch]"]
  show ?thesis unfolding demo_gateway_def by blast
qed

end
