(* ===== verification/Daemon.thy ===== *)
theory Daemon
  imports Ipc Path Volume_Props Split_Router Link
begin

text \<open>
  \<open>clave-daemon/src/lib.rs\<close>: the device daemon, which owns the zone registry, the policy, the audit
  spool, the split router, the volume and the verifier of gateway commands, and composes them into
  handlers. The state is one record; a handler returns it updated. The operating system behind the
  \<open>Platform\<close> trait answers through an argument, and the calls the daemon makes to it are logged.
\<close>

section \<open>State\<close>

datatype policy_error = Rollback u64 u64

datatype launch_error = NotLaunchable | Spawn string

fun launch_error_display :: "launch_error \<Rightarrow> string" where
  "launch_error_display NotLaunchable = ''app is unknown, not launchable, or the Clave Disk is not mounted''"
| "launch_error_display (Spawn e) = ''spawn failed: '' @ e"

record launched_app =
  ld_pid :: u32
  ld_proc :: proc_id

datatype daemon_error =
    CommandRejected proto_error
  | WrongContainer
  | PolicyRefused policy_error
  | VolumeFailed volume_error

text \<open>What the platform answers at the moment of a call, and what the daemon asks it to do.\<close>

record platform =
  pl_mount_point :: "string option"
  pl_route :: "proc_id \<Rightarrow> bool \<Rightarrow> route"
  pl_enforcement :: "capability \<Rightarrow> enforcement_status"
  pl_containment :: bool
  pl_user_var :: "string option"
  pl_home_var :: "string option"
  pl_spawn :: "launch_spec \<Rightarrow> string + u32"
  pl_macos :: bool

datatype platform_call =
    Track window_id rgba
  | ProtectWindow window_id
  | Untrack window_id
  | Contain u32
  | RequestWipe

record ('k, 'b, 't) daemon_env =
  dv_ed :: ed25519
  dv_sha :: sha256
  dv_envelope :: "envelope codec"
  dv_event :: "audit_event codec"
  dv_xts :: xts
  dv_keystore :: "'k keystore_ops"
  dv_backing :: "'b backing_ops"
  dv_tunnel :: "'t tunnel_ops"

text \<open>
  The policy observer is a callback; the model keeps the bundles it was called with, newest last,
  once one is set.
\<close>

record ('k, 'b, 't) daemon =
  dm_zones :: zone_registry
  dm_policy :: policy_bundle
  dm_audit :: audit_spool
  dm_router :: "'t split_router"
  dm_volume :: "('k, 'b) clave_volume"
  dm_gateway :: gateway_verifier
  dm_observer :: "policy_bundle list option"
  dm_last_audit :: "(audit_action \<times> unix_time) option"
  dm_calls :: "platform_call list"

definition AUDIT_COALESCE_SECS :: unix_time where
  "AUDIT_COALESCE_SECS = 2"

definition daemon_new ::
  "zone_registry \<Rightarrow> audit_spool \<Rightarrow> policy_bundle \<Rightarrow> 't \<Rightarrow> ('k, 'b) clave_volume \<Rightarrow> gateway_verifier
     \<Rightarrow> ('k, 'b, 't) daemon" where
  "daemon_new zones audit policy tnl volume gw =
     \<lparr>dm_zones = zones, dm_policy = policy, dm_audit = audit, dm_router = router_new tnl,
      dm_volume = volume, dm_gateway = gw, dm_observer = None, dm_last_audit = None, dm_calls = []\<rparr>"

definition set_policy_observer :: "('k, 'b, 't) daemon \<Rightarrow> ('k, 'b, 't) daemon" where
  "set_policy_observer d = d\<lparr>dm_observer := Some []\<rparr>"

definition policy_version :: "('k, 'b, 't) daemon \<Rightarrow> u64" where
  "policy_version d = pb_version (dm_policy d)"

definition emit :: "('k, 'b, 't) daemon_env \<Rightarrow> ('k, 'b, 't) daemon \<Rightarrow> audit_event \<Rightarrow> ('k, 'b, 't) daemon" where
  "emit v d ev = d\<lparr>dm_audit := spool_emit (dv_sha v) (dv_event v) (dm_audit d) ev\<rparr>"

definition call_platform :: "('k, 'b, 't) daemon \<Rightarrow> platform_call \<Rightarrow> ('k, 'b, 't) daemon" where
  "call_platform d c = d\<lparr>dm_calls := dm_calls d @ [c]\<rparr>"

section \<open>Zones and exec\<close>

definition on_zone_join ::
  "('k, 'b, 't) daemon_env \<Rightarrow> ('k, 'b, 't) daemon \<Rightarrow> proc_id \<Rightarrow> join_reason \<Rightarrow> unix_time \<Rightarrow> ('k, 'b, 't) daemon" where
  "on_zone_join v d p why now =
     emit v (d\<lparr>dm_zones := zone_join (dm_zones d) p why\<rparr>)
       (audit_event_new now ProcessJoinedZone (verdict_allow RDefault))"

definition on_zone_leave ::
  "('k, 'b, 't) daemon_env \<Rightarrow> ('k, 'b, 't) daemon \<Rightarrow> proc_id \<Rightarrow> unix_time \<Rightarrow> ('k, 'b, 't) daemon" where
  "on_zone_leave v d p now =
     emit v (d\<lparr>dm_zones := zone_leave (dm_zones d) p\<rparr>)
       (audit_event_new now ProcessLeftZone (verdict_allow RDefault))"

definition on_exec ::
  "('k, 'b, 't) daemon_env \<Rightarrow> ('k, 'b, 't) daemon \<Rightarrow> proc_id \<Rightarrow> proc_id option \<Rightarrow> binary_match \<Rightarrow> bool \<Rightarrow> unix_time
     \<Rightarrow> ('k, 'b, 't) daemon \<times> exec_verdict" where
  "on_exec v d p parent binary is_platform_binary now =
     (let parent_supervised = (case parent of Some q \<Rightarrow> is_supervised (dm_zones d) q | None \<Rightarrow> False);
          verdict = classify_exec binary is_platform_binary parent_supervised (pb_apps (dm_policy d))
      in if ev_joins_zone verdict then
           (let why = (case (ev_matched verdict, parent) of
                         (Some _, _) \<Rightarrow> AllowList
                       | (None, Some q) \<Rightarrow> Child q
                       | (None, None) \<Rightarrow> Launcher)
            in (emit v (d\<lparr>dm_zones := zone_join (dm_zones d) p why\<rparr>)
                  (audit_event_new now ProcessJoinedZone (verdict_allow RDefault)), verdict))
         else (d, verdict))"

section \<open>Launching\<close>

text \<open>\<open>Path::file_name\<close> of a Unix path: its last component, when that is not the parent directory.\<close>

definition path_file_name :: "string \<Rightarrow> string option" where
  "path_file_name p =
     (let cs = filter (\<lambda>c. c \<noteq> [] \<and> c \<noteq> ''.'') (split_on p CHR ''/'')
      in if cs = [] \<or> last cs = ''..'' then None else Some (last cs))"

definition contained_user :: "string option \<Rightarrow> string option \<Rightarrow> string" where
  "contained_user user home =
     (case map_option trim user of
        Some (c # cs) \<Rightarrow> c # cs
      | _ \<Rightarrow>
          (case home of
             None \<Rightarrow> ''user''
           | Some h \<Rightarrow> (case path_file_name h of Some (c # cs) \<Rightarrow> c # cs | _ \<Rightarrow> ''user'')))"

definition pl_user :: "platform \<Rightarrow> string" where
  "pl_user pl = contained_user (pl_user_var pl) (pl_home_var pl)"

definition resolve_launch :: "platform \<Rightarrow> ('k, 'b, 't) daemon \<Rightarrow> app_id \<Rightarrow> resolved_launch option" where
  "resolve_launch pl d app =
     (case pl_mount_point pl of
        None \<Rightarrow> None
      | Some mount \<Rightarrow>
          map_option (\<lambda>rule. resolve (ar_launch rule) app mount (pl_user pl))
            (app_policy_rule (pb_apps (dm_policy d)) app))"

definition daemon_classify_path :: "platform \<Rightarrow> ('k, 'b, 't) daemon \<Rightarrow> app_id \<Rightarrow> string \<Rightarrow> path_class option" where
  "daemon_classify_path pl d app path =
     (case pl_mount_point pl of
        None \<Rightarrow> None
      | Some mount \<Rightarrow>
          map_option (\<lambda>rule. classify_path path mount (lp_passthrough_paths (ar_launch rule)) (pb_files (dm_policy d)))
            (app_policy_rule (pb_apps (dm_policy d)) app))"

definition launchable_apps :: "('k, 'b, 't) daemon \<Rightarrow> launchable_app list" where
  "launchable_apps d =
     map (\<lambda>r. \<lparr>la_app_id = ar_app_id r, la_label = app_rule_label r\<rparr>)
       (filter is_launchable (ap_allow (pb_apps (dm_policy d))))"

definition prepare_launch :: "platform \<Rightarrow> ('k, 'b, 't) daemon \<Rightarrow> app_id \<Rightarrow> launch_spec option" where
  "prepare_launch pl d app =
     (case pl_mount_point pl of
        None \<Rightarrow> None
      | Some mount \<Rightarrow>
          (case app_policy_rule (pb_apps (dm_policy d)) app of
             None \<Rightarrow> None
           | Some rule \<Rightarrow>
               if \<not> is_launchable rule then None else Some (rule_launch_spec rule mount (pl_user pl))))"

definition proc_id_for_pid :: "bool \<Rightarrow> u32 \<Rightarrow> proc_id" where
  "proc_id_for_pid macos pid = (if macos then Macos 0 0 0 0 0 pid 0 0 else Windows pid 0)"

text \<open>Spawning is the operating system's; what comes back is a process id or an error.\<close>

definition spawn_contained :: "platform \<Rightarrow> launch_spec \<Rightarrow> string + launched_app" where
  "spawn_contained pl spec =
     rbind (pl_spawn pl spec) (\<lambda>pid. Inr \<lparr>ld_pid = pid, ld_proc = proc_id_for_pid (pl_macos pl) pid\<rparr>)"

definition daemon_launch ::
  "('k, 'b, 't) daemon_env \<Rightarrow> platform \<Rightarrow> ('k, 'b, 't) daemon \<Rightarrow> app_id \<Rightarrow> unix_time
     \<Rightarrow> ('k, 'b, 't) daemon \<times> (launch_error + launched_app)" where
  "daemon_launch v pl d app now =
     (case rbind (ok_or (prepare_launch pl d app) NotLaunchable) (\<lambda>spec. map_err Spawn (spawn_contained pl spec)) of
        Inl e \<Rightarrow> (d, Inl e)
      | Inr launched \<Rightarrow>
          (let d = on_zone_join v d (ld_proc launched) Launcher now
           in (if pl_containment pl then call_platform d (Contain (ld_pid launched)) else d, Inr launched)))"

definition web_apps :: "('k, 'b, 't) daemon \<Rightarrow> web_app_info list" where
  "web_apps d =
     (let web = pb_web (dm_policy d)
      in if \<not> web_is_launchable web then []
         else map (\<lambda>r. \<lparr>wi_app_id = wr_id r, wi_label = web_label r, wi_url = wr_url r\<rparr>) (wp_apps web))"

definition prepare_web_launch :: "platform \<Rightarrow> ('k, 'b, 't) daemon \<Rightarrow> app_id \<Rightarrow> launch_spec option" where
  "prepare_web_launch pl d app =
     (case pl_mount_point pl of
        None \<Rightarrow> None
      | Some mount \<Rightarrow>
          (let web = pb_web (dm_policy d)
           in if \<not> web_is_launchable web then None
              else map_option (\<lambda>rule. web_launch_spec rule (wp_browser web) mount (pl_user pl)) (web_rule web app)))"

definition launch_web ::
  "('k, 'b, 't) daemon_env \<Rightarrow> platform \<Rightarrow> ('k, 'b, 't) daemon \<Rightarrow> app_id \<Rightarrow> unix_time
     \<Rightarrow> ('k, 'b, 't) daemon \<times> (launch_error + launched_app)" where
  "launch_web v pl d app now =
     (case rbind (ok_or (prepare_web_launch pl d app) NotLaunchable) (\<lambda>spec. map_err Spawn (spawn_contained pl spec)) of
        Inl e \<Rightarrow> (d, Inl e)
      | Inr launched \<Rightarrow> (on_zone_join v d (ld_proc launched) Launcher now, Inr launched))"

section \<open>Decisions\<close>

fun audit_action_for :: "action \<Rightarrow> verdict \<Rightarrow> audit_action option" where
  "audit_action_for (ClipboardTransfer _ _ _) verdict = Some ClipboardBlocked"
| "audit_action_for (FileOpen _ _ _) verdict =
     Some (if vd_reason verdict = REnclaveIntrusion then EnclaveIntrusionBlocked else FileSaveDenied)"
| "audit_action_for (NetConnect _ _) verdict = Some NetworkBlocked"
| "audit_action_for (ScreenCapture _ _) verdict = Some ScreenCaptureOverWork"
| "audit_action_for (InputTap _ _) verdict = Some InputTapOverWork"

definition should_audit :: "('k, 'b, 't) daemon \<Rightarrow> audit_action \<Rightarrow> unix_time \<Rightarrow> ('k, 'b, 't) daemon \<times> bool" where
  "should_audit d a now =
     (if (case dm_last_audit d of
            Some (prev, ts) \<Rightarrow> prev = a \<and> saturating_sub now ts < AUDIT_COALESCE_SECS
          | None \<Rightarrow> False)
      then (d, False)
      else (d\<lparr>dm_last_audit := Some (a, now)\<rparr>, True))"

definition decide_action ::
  "('k, 'b, 't) daemon_env \<Rightarrow> ('k, 'b, 't) daemon \<Rightarrow> action \<Rightarrow> unix_time \<Rightarrow> ('k, 'b, 't) daemon \<times> verdict" where
  "decide_action v d act now =
     (let verdict = decide act (dm_zones d) (dm_policy d) now
      in if is_allow verdict then (d, verdict)
         else case audit_action_for act verdict of
                None \<Rightarrow> (d, verdict)
              | Some a \<Rightarrow>
                  (let (d, emits) = should_audit d a now
                   in (if emits then emit v d (audit_event_new now a verdict) else d, verdict)))"

section \<open>Windows and network\<close>

definition on_work_window_created :: "('k, 'b, 't) daemon \<Rightarrow> window_id \<Rightarrow> ('k, 'b, 't) daemon" where
  "on_work_window_created d w =
     call_platform (call_platform d (Track w (op_color (pb_overlay (dm_policy d))))) (ProtectWindow w)"

definition on_work_window_destroyed :: "('k, 'b, 't) daemon \<Rightarrow> window_id \<Rightarrow> ('k, 'b, 't) daemon" where
  "on_work_window_destroyed d w = call_platform d (Untrack w)"

definition overlay_cfg :: "('k, 'b, 't) daemon \<Rightarrow> border_cfg" where
  "overlay_cfg d = policy_border_cfg (pb_overlay (dm_policy d))"

definition route_flow :: "platform \<Rightarrow> ('k, 'b, 't) daemon \<Rightarrow> proc_id \<Rightarrow> string \<Rightarrow> route" where
  "route_flow pl d p host = pl_route pl p (is_blocked (pb_network (dm_policy d)) host)"

definition dns_decision_for :: "('k, 'b, 't) daemon \<Rightarrow> proc_id \<Rightarrow> string \<Rightarrow> dns_decision" where
  "dns_decision_for d p qname =
     (case policy_dns_steering (pb_network (dm_policy d)) of
        Some steering \<Rightarrow> decide_dns p qname (dm_zones d) steering
      | None \<Rightarrow> DnsPersonal)"

definition on_router :: "('k, 'b, 't) daemon \<Rightarrow> 't split_router \<times> 'r \<Rightarrow> ('k, 'b, 't) daemon \<times> 'r" where
  "on_router d x = (d\<lparr>dm_router := fst x\<rparr>, snd x)"

definition daemon_open_flow ::
  "('k, 'b, 't) daemon_env \<Rightarrow> ('k, 'b, 't) daemon \<Rightarrow> flow_id \<Rightarrow> proc_id \<Rightarrow> string \<Rightarrow> ('k, 'b, 't) daemon \<times> flow_disposition" where
  "daemon_open_flow v d i p host =
     (let blocked = is_blocked (pb_network (dm_policy d)) host
      in on_router d (open_flow (dv_tunnel v) (dm_router d) i p (dm_zones d) blocked))"

definition daemon_open_dns_flow ::
  "('k, 'b, 't) daemon_env \<Rightarrow> ('k, 'b, 't) daemon \<Rightarrow> flow_id \<Rightarrow> proc_id \<Rightarrow> string \<Rightarrow> ('k, 'b, 't) daemon \<times> flow_disposition" where
  "daemon_open_dns_flow v d i p qname =
     on_router d (open_dns_flow (dv_tunnel v) (dm_router d) i p (dm_zones d) qname
       (policy_dns_steering (pb_network (dm_policy d))))"

definition flow_outbound where
  "flow_outbound v d i pkt = on_router d (router_outbound (dv_tunnel v) (dm_router d) i pkt)"

definition flow_inbound where
  "flow_inbound v d dgram = on_router d (router_inbound (dv_tunnel v) (dm_router d) dgram)"

definition tunnel_poll_outgoing where
  "tunnel_poll_outgoing v d = on_router d (router_poll_outgoing (dv_tunnel v) (dm_router d))"

definition tunnel_tick where
  "tunnel_tick v d = on_router d (router_tick (dv_tunnel v) (dm_router d))"

definition daemon_close_flow :: "('k, 'b, 't) daemon \<Rightarrow> flow_id \<Rightarrow> ('k, 'b, 't) daemon" where
  "daemon_close_flow d i = d\<lparr>dm_router := close_flow (dm_router d) i\<rparr>"

definition network_link_is_up :: "('k, 'b, 't) daemon_env \<Rightarrow> ('k, 'b, 't) daemon \<Rightarrow> bool" where
  "network_link_is_up v d = link_is_up (dv_tunnel v) (dm_router d)"

section \<open>Policy and volume\<close>

text \<open>
  One step of the model. The source loads the policy and stores the next one without a lock between, so
  this describes calls one after the other; two at once could both pass the check.
\<close>

definition update_policy ::
  "('k, 'b, 't) daemon \<Rightarrow> policy_bundle \<Rightarrow> ('k, 'b, 't) daemon \<times> (policy_error + unit)" where
  "update_policy d next =
     (let current = pb_version (dm_policy d)
      in if pb_version next < current then (d, Inl (Rollback current (pb_version next)))
         else (d\<lparr>dm_policy := next, dm_observer := map_option (\<lambda>l. l @ [next]) (dm_observer d)\<rparr>, Inr ()))"

definition unlock_volume ::
  "('k, 'b, 't) daemon_env \<Rightarrow> ('k, 'b, 't) daemon \<Rightarrow> unix_time \<Rightarrow> ('k, 'b, 't) daemon \<times> (volume_error + unit)" where
  "unlock_volume v d now =
     (case volume_unlock (dv_keystore v) (dv_backing v) (dm_volume d) of
        (vol, Inl e) \<Rightarrow> (d\<lparr>dm_volume := vol\<rparr>, Inl e)
      | (vol, Inr _) \<Rightarrow>
          (emit v (d\<lparr>dm_volume := vol\<rparr>) (audit_event_new now VolumeMounted (verdict_allow RDefault)), Inr ()))"

definition lock_volume :: "('k, 'b, 't) daemon_env \<Rightarrow> ('k, 'b, 't) daemon \<Rightarrow> unix_time \<Rightarrow> ('k, 'b, 't) daemon" where
  "lock_volume v d now =
     emit v (d\<lparr>dm_volume := volume_lock (dm_volume d)\<rparr>)
       (audit_event_new now VolumeUnmounted (verdict_allow RDefault))"

text \<open>The volume's gate is the registry the daemon shares with it.\<close>

definition daemon_volume_read ::
  "('k, 'b, 't) daemon_env \<Rightarrow> ('k, 'b, 't) daemon \<Rightarrow> proc_id \<Rightarrow> u64 \<Rightarrow> nat \<Rightarrow> volume_error + bytes" where
  "daemon_volume_read v d caller s n =
     volume_read (dv_xts v) (dv_backing v) (is_supervised (dm_zones d)) (dm_volume d) caller s n"

definition daemon_volume_write ::
  "('k, 'b, 't) daemon_env \<Rightarrow> ('k, 'b, 't) daemon \<Rightarrow> proc_id \<Rightarrow> u64 \<Rightarrow> bytes
     \<Rightarrow> ('k, 'b, 't) daemon \<times> (volume_error + unit)" where
  "daemon_volume_write v d caller s data =
     (case volume_write (dv_xts v) (dv_backing v) (is_supervised (dm_zones d)) (dm_volume d) caller s data of
        (vol, r) \<Rightarrow> (d\<lparr>dm_volume := vol\<rparr>, r))"

definition daemon_wipe ::
  "('k, 'b, 't) daemon_env \<Rightarrow> ('k, 'b, 't) daemon \<Rightarrow> unix_time \<Rightarrow> ('k, 'b, 't) daemon \<times> (volume_error + unit)" where
  "daemon_wipe v d now =
     (case volume_wipe (dv_keystore v) (dv_backing v) (dm_volume d) of
        (vol, Inl e) \<Rightarrow> (d\<lparr>dm_volume := vol\<rparr>, Inl e)
      | (vol, Inr _) \<Rightarrow>
          (emit v (call_platform (d\<lparr>dm_volume := vol\<rparr>) RequestWipe)
             (audit_event_new now Wiped (verdict_allow RDefault)), Inr ()))"

section \<open>Gateway commands\<close>

definition apply_gateway_command ::
  "('k, 'b, 't) daemon_env \<Rightarrow> ('k, 'b, 't) daemon \<Rightarrow> signed_command \<Rightarrow> unix_time
     \<Rightarrow> ('k, 'b, 't) daemon \<times> (daemon_error + unit)" where
  "apply_gateway_command v d sc now =
     (let (gv, r) = verify (dv_ed v) (dv_envelope v) (dm_gateway d) sc now; d = d\<lparr>dm_gateway := gv\<rparr>
      in case r of
           Inl e \<Rightarrow> (d, Inl (CommandRejected e))
         | Inr (UpdatePolicy bundle) \<Rightarrow>
             (let (d, r) = update_policy d bundle in (d, map_err PolicyRefused r))
         | Inr (Lock _) \<Rightarrow> (lock_volume v d now, Inr ())
         | Inr (Wipe container _) \<Rightarrow>
             (if container \<noteq> container_num (volume_container_id (dm_volume d)) then (d, Inl WrongContainer)
              else let (d, r) = daemon_wipe v d now in (d, map_err VolumeFailed r)))"

section \<open>Requests of the shims and of the launcher\<close>

fun handle_shim_msg ::
  "('k, 'b, 't) daemon_env \<Rightarrow> ('k, 'b, 't) daemon \<Rightarrow> shim_msg \<Rightarrow> unix_time \<Rightarrow> ('k, 'b, 't) daemon \<times> daemon_msg option" where
  "handle_shim_msg v d (RequestDecision req act) now =
     (let (d, verdict) = decide_action v d act now in (d, Some (DDecision req verdict)))"
| "handle_shim_msg v d (WindowCreated w) now = (on_work_window_created d w, None)"
| "handle_shim_msg v d (WindowDestroyed w) now = (on_work_window_destroyed d w, None)"
| "handle_shim_msg v d Heartbeat now = (d, None)"
| "handle_shim_msg v d (ShimHello _ _) now = (d, None)"

definition daemon_launcher_status :: "platform \<Rightarrow> ('k, 'b, 't) daemon \<Rightarrow> launcher_status" where
  "daemon_launcher_status pl d =
     \<lparr>lst_tenant = (case gv_tenant (dm_gateway d) of TenantId t \<Rightarrow> t),
      lst_policy_version = policy_version d, lst_volume_unlocked = volume_is_unlocked (dm_volume d),
      lst_mount_point = pl_mount_point pl, lst_gateway_high_water = gv_high_water (dm_gateway d)\<rparr>"

definition launched_reply :: "launch_error + launched_app \<Rightarrow> launcher_reply" where
  "launched_reply r =
     (case r of Inr l \<Rightarrow> Launched (Some (ld_pid l)) | Inl e \<Rightarrow> LaunchFailed (launch_error_display e))"

fun handle_launcher_request ::
  "('k, 'b, 't) daemon_env \<Rightarrow> platform \<Rightarrow> ('k, 'b, 't) daemon \<Rightarrow> launcher_request \<Rightarrow> unix_time
     \<Rightarrow> ('k, 'b, 't) daemon \<times> launcher_reply" where
  "handle_launcher_request v pl d (LHello _) now = (d, LWelcome IPC_PROTO_VERSION)"
| "handle_launcher_request v pl d ListApps now = (d, Apps (launchable_apps d))"
| "handle_launcher_request v pl d (PrepareLaunch app) now = (d, ReplySpec (prepare_launch pl d app))"
| "handle_launcher_request v pl d (LLaunch app) now =
     (let (d, r) = daemon_launch v pl d app now in (d, launched_reply r))"
| "handle_launcher_request v pl d LEnforcement now =
     (d, ReplyEnforcement (map (\<lambda>(cap, status). (capability_name cap, enforcement_status_display status))
           (report_from_fn (pl_enforcement pl))))"
| "handle_launcher_request v pl d LStatus now = (d, ReplyStatus (daemon_launcher_status pl d))"
| "handle_launcher_request v pl d ListWebApps now = (d, WebApps (web_apps d))"
| "handle_launcher_request v pl d (LaunchWeb app) now =
     (let (d, r) = launch_web v pl d app now in (d, launched_reply r))"
| "handle_launcher_request v pl d PeekAudit now = (d, ReplyAudit (map se_event (fst (spool_peek (dm_audit d)))))"

section \<open>The event loop\<close>

datatype daemon_event =
    EvZoneJoin proc_id join_reason
  | EvZoneLeave proc_id
  | EvWorkWindowCreated window_id
  | EvWorkWindowDestroyed window_id
  | EvDecision action
  | EvPolicyUpdate policy_bundle
  | EvVolumeUnlock
  | EvVolumeLock
  | EvGatewayControl signed_command
  | EvWipe
  | EvShutdown

fun daemon_handle ::
  "('k, 'b, 't) daemon_env \<Rightarrow> ('k, 'b, 't) daemon \<Rightarrow> daemon_event \<Rightarrow> unix_time \<Rightarrow> ('k, 'b, 't) daemon \<times> verdict option" where
  "daemon_handle v d (EvZoneJoin p why) now = (on_zone_join v d p why now, None)"
| "daemon_handle v d (EvZoneLeave p) now = (on_zone_leave v d p now, None)"
| "daemon_handle v d (EvWorkWindowCreated w) now = (on_work_window_created d w, None)"
| "daemon_handle v d (EvWorkWindowDestroyed w) now = (on_work_window_destroyed d w, None)"
| "daemon_handle v d (EvDecision act) now = (let (d, r) = decide_action v d act now in (d, Some r))"
| "daemon_handle v d (EvPolicyUpdate p) now = (fst (update_policy d p), None)"
| "daemon_handle v d EvVolumeUnlock now = (fst (unlock_volume v d now), None)"
| "daemon_handle v d EvVolumeLock now = (lock_volume v d now, None)"
| "daemon_handle v d (EvGatewayControl sc) now = (fst (apply_gateway_command v d sc now), None)"
| "daemon_handle v d EvWipe now = (fst (daemon_wipe v d now), None)"
| "daemon_handle v d EvShutdown now = (d, None)"

text \<open>The loop takes the events of the channel, each at the time the clock shows, until it is closed or shut down.\<close>

fun daemon_run ::
  "('k, 'b, 't) daemon_env \<Rightarrow> ('k, 'b, 't) daemon \<Rightarrow> (daemon_event \<times> unix_time) list \<Rightarrow> ('k, 'b, 't) daemon \<times> verdict list" where
  "daemon_run v d [] = (d, [])"
| "daemon_run v d ((ev, now) # evs) =
     (if ev = EvShutdown then (d, [])
      else let (d1, r) = daemon_handle v d ev now; (d2, rs) = daemon_run v d1 evs
           in (d2, (case r of Some x \<Rightarrow> [x] | None \<Rightarrow> []) @ rs))"

section \<open>Checkpoints\<close>

record checkpoint =
  cp_gateway_high_water :: u64
  cp_audit_seq :: u64
  cp_audit_head :: chain_hash
  cp_audit_pending :: "spool_entry list"

definition daemon_checkpoint :: "('k, 'b, 't) daemon \<Rightarrow> checkpoint" where
  "daemon_checkpoint d =
     \<lparr>cp_gateway_high_water = gv_high_water (dm_gateway d), cp_audit_seq = as_seq (dm_audit d),
      cp_audit_head = as_head (dm_audit d), cp_audit_pending = fst (spool_peek (dm_audit d))\<rparr>"

record 'c checkpoint_ops =
  ck_load :: "'c \<Rightarrow> checkpoint option"
  ck_save :: "'c \<Rightarrow> checkpoint \<Rightarrow> 'c"

type_synonym mem_checkpoint_store = "checkpoint option"

definition mem_checkpoint_load :: "mem_checkpoint_store \<Rightarrow> checkpoint option" where
  "mem_checkpoint_load s = s"

definition mem_checkpoint_save :: "mem_checkpoint_store \<Rightarrow> checkpoint \<Rightarrow> mem_checkpoint_store" where
  "mem_checkpoint_save s c = Some c"

definition mem_checkpoint_ops :: "mem_checkpoint_store checkpoint_ops" where
  "mem_checkpoint_ops = \<lparr>ck_load = mem_checkpoint_load, ck_save = mem_checkpoint_save\<rparr>"

text \<open>
  The file store writes the encoding beside the file and renames it over the file. The state is the
  file's content and whether writing and renaming succeed.
\<close>

record file_checkpoint_store =
  fk_file :: "bytes option"
  fk_write_ok :: bool
  fk_rename_ok :: bool

definition file_checkpoint_load :: "checkpoint codec \<Rightarrow> file_checkpoint_store \<Rightarrow> checkpoint option" where
  "file_checkpoint_load pc s = (case fk_file s of None \<Rightarrow> None | Some b \<Rightarrow> cd_dec pc b)"

definition file_checkpoint_save :: "checkpoint codec \<Rightarrow> file_checkpoint_store \<Rightarrow> checkpoint \<Rightarrow> file_checkpoint_store" where
  "file_checkpoint_save pc s c =
     (if fk_write_ok s \<and> fk_rename_ok s then s\<lparr>fk_file := Some (cd_enc pc c)\<rparr> else s)"

definition file_checkpoint_ops :: "checkpoint codec \<Rightarrow> file_checkpoint_store checkpoint_ops" where
  "file_checkpoint_ops pc = \<lparr>ck_load = file_checkpoint_load pc, ck_save = file_checkpoint_save pc\<rparr>"

section \<open>Synchronisation with the gateway\<close>

record sync_report =
  sy_applied :: nat
  sy_rejected :: nat
  sy_audit_shipped :: nat
  sy_audit_retained :: nat

record 'l link_ops =
  lk_poll :: "'l \<Rightarrow> 'l \<times> signed_command list"
  lk_push :: "'l \<Rightarrow> signed_spool_batch \<Rightarrow> 'l \<times> (link_error + unit)"

definition loopback_link_ops :: "loopback_link link_ops" where
  "loopback_link_ops = \<lparr>lk_poll = lb_poll_commands, lk_push = lb_push_audit\<rparr>"

definition channel_link_ops :: "channel_link link_ops" where
  "channel_link_ops = \<lparr>lk_poll = ch_poll_commands, lk_push = ch_push_audit\<rparr>"

record ('l, 'c) gateway_sync =
  gs_link :: 'l
  gs_device_key :: device_signing_key
  gs_store :: 'c

fun apply_commands ::
  "('k, 'b, 't) daemon_env \<Rightarrow> ('k, 'b, 't) daemon \<Rightarrow> signed_command list \<Rightarrow> unix_time \<Rightarrow> ('k, 'b, 't) daemon \<times> nat \<times> nat" where
  "apply_commands v d [] now = (d, 0, 0)"
| "apply_commands v d (c # cs) now =
     (let (d1, r) = apply_gateway_command v d c now; (d2, ok, bad) = apply_commands v d1 cs now
      in case r of Inr _ \<Rightarrow> (d2, Suc ok, bad) | Inl _ \<Rightarrow> (d2, ok, Suc bad))"

definition sync_once ::
  "('k, 'b, 't) daemon_env \<Rightarrow> 'l link_ops \<Rightarrow> 'c checkpoint_ops \<Rightarrow> ('l, 'c) gateway_sync \<Rightarrow> ('k, 'b, 't) daemon \<Rightarrow> unix_time
     \<Rightarrow> ('l, 'c) gateway_sync \<times> ('k, 'b, 't) daemon \<times> sync_report" where
  "sync_once v lo co gs d now =
     (let (link, cmds) = lk_poll lo (gs_link gs);
          (d, ok, bad) = apply_commands v d cmds now;
          gs = gs\<lparr>gs_link := link, gs_store := ck_save co (gs_store gs) (daemon_checkpoint d)\<rparr>;
          rep = \<lparr>sy_applied = ok, sy_rejected = bad, sy_audit_shipped = 0, sy_audit_retained = 0\<rparr>;
          (entries, head) = spool_peek (dm_audit d)
      in if entries = [] then (gs, d, rep)
         else case lk_push lo (gs_link gs) (sign_batch (dv_ed v) (gs_device_key gs) entries head) of
                (link, Inr _) \<Rightarrow>
                  (let d = d\<lparr>dm_audit := confirm_through (dm_audit d) (se_seq (last entries))\<rparr>
                   in (gs\<lparr>gs_link := link, gs_store := ck_save co (gs_store gs) (daemon_checkpoint d)\<rparr>, d,
                       rep\<lparr>sy_audit_shipped := length entries\<rparr>))
              | (link, Inl LinkUnavailable) \<Rightarrow>
                  (gs\<lparr>gs_link := link\<rparr>, d, rep\<lparr>sy_audit_retained := length entries\<rparr>))"

end
