(* ===== verification/Daemon_Props.thy ===== *)
theory Daemon_Props
  imports Daemon
begin

text \<open>
  What the device daemon guarantees, over every sequence of its operations: policies never roll
  back, a gateway command is applied at most once, a wipe is final, a denial leaves a trace in the
  audit, and the checkpoint is what the daemon would resume from.
\<close>

section \<open>Operations and runs\<close>

datatype daemon_op =
    OpEvent daemon_event unix_time
  | OpExec proc_id "proc_id option" binary_match bool unix_time
  | OpShim shim_msg unix_time
  | OpLauncher platform launcher_request unix_time
  | OpOpenFlow flow_id proc_id string
  | OpOpenDnsFlow flow_id proc_id string
  | OpOutbound flow_id bytes
  | OpInbound bytes
  | OpPoll
  | OpTick
  | OpCloseFlow flow_id
  | OpVolumeWrite proc_id u64 bytes
  | OpConfirm u64

fun daemon_apply :: "('k, 'b, 't) daemon_env \<Rightarrow> ('k, 'b, 't) daemon \<Rightarrow> daemon_op \<Rightarrow> ('k, 'b, 't) daemon" where
  "daemon_apply v d (OpEvent ev now) = fst (daemon_handle v d ev now)"
| "daemon_apply v d (OpExec p parent b plat now) = fst (on_exec v d p parent b plat now)"
| "daemon_apply v d (OpShim m now) = fst (handle_shim_msg v d m now)"
| "daemon_apply v d (OpLauncher pl req now) = fst (handle_launcher_request v pl d req now)"
| "daemon_apply v d (OpOpenFlow i p h) = fst (daemon_open_flow v d i p h)"
| "daemon_apply v d (OpOpenDnsFlow i p q) = fst (daemon_open_dns_flow v d i p q)"
| "daemon_apply v d (OpOutbound i pkt) = fst (flow_outbound v d i pkt)"
| "daemon_apply v d (OpInbound dg) = fst (flow_inbound v d dg)"
| "daemon_apply v d OpPoll = fst (tunnel_poll_outgoing v d)"
| "daemon_apply v d OpTick = fst (tunnel_tick v d)"
| "daemon_apply v d (OpCloseFlow i) = daemon_close_flow d i"
| "daemon_apply v d (OpVolumeWrite p s data) = fst (daemon_volume_write v d p s data)"
| "daemon_apply v d (OpConfirm n) = d\<lparr>dm_audit := confirm_through (dm_audit d) n\<rparr>"

lemma emit_simps [simp]:
  "dm_zones (emit v d e) = dm_zones d" "dm_policy (emit v d e) = dm_policy d"
  "dm_audit (emit v d e) = spool_emit (dv_sha v) (dv_event v) (dm_audit d) e"
  "dm_router (emit v d e) = dm_router d" "dm_volume (emit v d e) = dm_volume d"
  "dm_gateway (emit v d e) = dm_gateway d" "dm_observer (emit v d e) = dm_observer d"
  "dm_last_audit (emit v d e) = dm_last_audit d" "dm_calls (emit v d e) = dm_calls d"
  by (simp_all add: emit_def)

lemma call_platform_simps [simp]:
  "dm_zones (call_platform d c) = dm_zones d" "dm_policy (call_platform d c) = dm_policy d"
  "dm_audit (call_platform d c) = dm_audit d" "dm_router (call_platform d c) = dm_router d"
  "dm_volume (call_platform d c) = dm_volume d" "dm_gateway (call_platform d c) = dm_gateway d"
  "dm_observer (call_platform d c) = dm_observer d" "dm_last_audit (call_platform d c) = dm_last_audit d"
  "dm_calls (call_platform d c) = dm_calls d @ [c]"
  by (simp_all add: call_platform_def)

lemma on_router_simps [simp]:
  "dm_zones (fst (on_router d x)) = dm_zones d" "dm_policy (fst (on_router d x)) = dm_policy d"
  "dm_audit (fst (on_router d x)) = dm_audit d" "dm_volume (fst (on_router d x)) = dm_volume d"
  "dm_gateway (fst (on_router d x)) = dm_gateway d" "dm_observer (fst (on_router d x)) = dm_observer d"
  by (simp_all add: on_router_def)

lemmas flow_defs = daemon_open_flow_def daemon_open_dns_flow_def flow_outbound_def flow_inbound_def
  tunnel_poll_outgoing_def tunnel_tick_def daemon_close_flow_def Let_def

lemmas handler_defs = on_zone_join_def on_zone_leave_def on_exec_def on_work_window_created_def
  on_work_window_destroyed_def decide_action_def should_audit_def unlock_volume_def lock_volume_def
  daemon_wipe_def daemon_volume_write_def Let_def

text \<open>
  The operations by what they change: all but the policy updates leave the policy and its observer,
  all but the gateway commands leave the verifier.
\<close>

lemma launch_frame:
  "dm_policy (fst (daemon_launch v pl d app now)) = dm_policy d"
  "dm_observer (fst (daemon_launch v pl d app now)) = dm_observer d"
  "dm_gateway (fst (daemon_launch v pl d app now)) = dm_gateway d"
  "dm_volume (fst (daemon_launch v pl d app now)) = dm_volume d"
  "dm_policy (fst (launch_web v pl d app now)) = dm_policy d"
  "dm_observer (fst (launch_web v pl d app now)) = dm_observer d"
  "dm_gateway (fst (launch_web v pl d app now)) = dm_gateway d"
  "dm_volume (fst (launch_web v pl d app now)) = dm_volume d"
  by (auto simp: daemon_launch_def launch_web_def on_zone_join_def Let_def split: sum.splits)

lemma launcher_frame:
  "dm_policy (fst (handle_launcher_request v pl d req now)) = dm_policy d"
  "dm_observer (fst (handle_launcher_request v pl d req now)) = dm_observer d"
  "dm_gateway (fst (handle_launcher_request v pl d req now)) = dm_gateway d"
  "dm_volume (fst (handle_launcher_request v pl d req now)) = dm_volume d"
  by (cases req; simp add: launch_frame split_beta)+

lemma decide_frame:
  "dm_policy (fst (decide_action v d act now)) = dm_policy d"
  "dm_observer (fst (decide_action v d act now)) = dm_observer d"
  "dm_gateway (fst (decide_action v d act now)) = dm_gateway d"
  "dm_volume (fst (decide_action v d act now)) = dm_volume d"
  "dm_zones (fst (decide_action v d act now)) = dm_zones d"
  by (auto simp: decide_action_def should_audit_def Let_def split: option.splits)

lemma shim_frame:
  "dm_policy (fst (handle_shim_msg v d m now)) = dm_policy d"
  "dm_observer (fst (handle_shim_msg v d m now)) = dm_observer d"
  "dm_gateway (fst (handle_shim_msg v d m now)) = dm_gateway d"
  "dm_volume (fst (handle_shim_msg v d m now)) = dm_volume d"
  by (cases m; simp add: decide_frame on_work_window_created_def on_work_window_destroyed_def split_beta)+

lemma volume_frame:
  "dm_policy (fst (unlock_volume v d now)) = dm_policy d" "dm_observer (fst (unlock_volume v d now)) = dm_observer d"
  "dm_gateway (fst (unlock_volume v d now)) = dm_gateway d"
  "dm_policy (lock_volume v d now) = dm_policy d" "dm_observer (lock_volume v d now) = dm_observer d"
  "dm_gateway (lock_volume v d now) = dm_gateway d"
  "dm_policy (fst (daemon_wipe v d now)) = dm_policy d" "dm_observer (fst (daemon_wipe v d now)) = dm_observer d"
  "dm_gateway (fst (daemon_wipe v d now)) = dm_gateway d"
  "dm_policy (fst (daemon_volume_write v d p s data)) = dm_policy d"
  "dm_observer (fst (daemon_volume_write v d p s data)) = dm_observer d"
  "dm_gateway (fst (daemon_volume_write v d p s data)) = dm_gateway d"
  by (auto simp: unlock_volume_def lock_volume_def daemon_wipe_def daemon_volume_write_def split: prod.splits sum.splits)

lemma exec_frame:
  "dm_policy (fst (on_exec v d p q b plat now)) = dm_policy d"
  "dm_observer (fst (on_exec v d p q b plat now)) = dm_observer d"
  "dm_gateway (fst (on_exec v d p q b plat now)) = dm_gateway d"
  "dm_volume (fst (on_exec v d p q b plat now)) = dm_volume d"
  by (auto simp: on_exec_def Let_def)

lemmas frames = launcher_frame decide_frame shim_frame volume_frame exec_frame

section \<open>Policies never roll back\<close>

lemma policy_step:
  "dm_policy (daemon_apply v d op) = dm_policy d \<and> dm_observer (daemon_apply v d op) = dm_observer d \<or>
   (\<exists>p. dm_policy (daemon_apply v d op) = p \<and> pb_version (dm_policy d) \<le> pb_version p \<and>
        dm_observer (daemon_apply v d op) = map_option (\<lambda>l. l @ [p]) (dm_observer d))"
proof (cases op)
  case (OpEvent ev now)
  then show ?thesis
    by (cases ev) (auto simp: frames on_zone_join_def on_zone_leave_def on_work_window_created_def
        on_work_window_destroyed_def update_policy_def apply_gateway_command_def Let_def not_less split_beta
        split: sum.splits gateway_command.splits)
qed (auto simp: frames flow_defs)

lemma sorted_le_last: "sorted xs \<Longrightarrow> x \<in> set xs \<Longrightarrow> x \<le> last xs"
  by (induction xs rule: rev_induct) (auto simp: sorted_append)

lemma policy_run:
  assumes "dm_observer d = Some l" "dm_policy d = last (b # l)" "sorted (map pb_version (b # l))"
  shows "\<exists>l'. dm_observer (foldl (daemon_apply v) d ops) = Some (l @ l') \<and>
    dm_policy (foldl (daemon_apply v) d ops) = last (b # l @ l') \<and> sorted (map pb_version (b # l @ l'))"
  using assms
proof (induction ops arbitrary: d l)
  case (Cons op ops)
  show ?case using policy_step[of v d op]
  proof (elim disjE)
    assume "dm_policy (daemon_apply v d op) = dm_policy d \<and> dm_observer (daemon_apply v d op) = dm_observer d"
    then show ?thesis using Cons.IH[of "daemon_apply v d op" l] Cons.prems by simp
  next
    assume "\<exists>p. dm_policy (daemon_apply v d op) = p \<and> pb_version (dm_policy d) \<le> pb_version p \<and>
        dm_observer (daemon_apply v d op) = map_option (\<lambda>l. l @ [p]) (dm_observer d)"
    then obtain p where p: "dm_policy (daemon_apply v d op) = p" "pb_version (dm_policy d) \<le> pb_version p"
      "dm_observer (daemon_apply v d op) = Some (l @ [p])" using Cons.prems(1) by auto
    have "x \<le> pb_version p" if "x \<in> set (map pb_version (b # l))" for x
    proof -
      have "x \<le> last (map pb_version (b # l))"
        using Cons.prems(3) that by (rule sorted_le_last)
      also have "\<dots> = pb_version (dm_policy d)" unfolding Cons.prems(2) by (rule last_map) simp
      finally show ?thesis using p(2) by simp
    qed
    then have "sorted (map pb_version (b # l @ [p]))"
      using Cons.prems(3) by (simp add: sorted_append)
    moreover have "dm_policy (daemon_apply v d op) = last (b # (l @ [p]))" using p(1) by simp
    ultimately obtain l' where "dm_observer (foldl (daemon_apply v) (daemon_apply v d op) ops) = Some ((l @ [p]) @ l')"
      "dm_policy (foldl (daemon_apply v) (daemon_apply v d op) ops) = last (b # (l @ [p]) @ l')"
      "sorted (map pb_version (b # (l @ [p]) @ l'))"
      using Cons.IH[OF p(3)] by blast
    then show ?thesis by (intro exI[of _ "p # l'"]) simp
  qed
qed simp

text \<open>
  (C5) Policies never roll back. Over any sequence of the daemon's operations, one after the other, whatever bundles are
  offered to it directly or in gateway commands, the versions in force never decrease; and the
  observer that persists the policy has been told of every change in order, so that what it saw last
  is the policy in force.
\<close>

theorem policy_never_rolls_back:
  assumes "dm_observer d = Some []"
  shows "\<exists>l. dm_observer (foldl (daemon_apply v) d ops) = Some l \<and>
    dm_policy (foldl (daemon_apply v) d ops) = last (dm_policy d # l) \<and>
    sorted (map pb_version (dm_policy d # l)) \<and>
    policy_version d \<le> policy_version (foldl (daemon_apply v) d ops)"
proof -
  obtain l where l: "dm_observer (foldl (daemon_apply v) d ops) = Some l"
    "dm_policy (foldl (daemon_apply v) d ops) = last (dm_policy d # l)" "sorted (map pb_version (dm_policy d # l))"
    using policy_run[of d "[]" "dm_policy d" v ops] assms by auto
  then have "policy_version d \<le> policy_version (foldl (daemon_apply v) d ops)"
    by (cases l rule: rev_cases) (auto simp: policy_version_def)
  with l show ?thesis by blast
qed

section \<open>Commands are applied at most once\<close>

lemma verify_high_water_mono: "gv_high_water v \<le> gv_high_water (fst (verify ed pc v sc now))"
  by (cases "verify ed pc v sc now"; cases "snd (verify ed pc v sc now)")
    (auto simp: verify_def Let_def split: if_splits option.splits)

lemma verify_fixed: "gv_tenant (fst (verify ed pc v sc now)) = gv_tenant v" "gv_key (fst (verify ed pc v sc now)) = gv_key v"
  by (auto simp: verify_def Let_def split: option.splits)

lemma gateway_step:
  "gv_high_water (dm_gateway d) \<le> gv_high_water (dm_gateway (daemon_apply v d op))"
proof (cases op)
  case (OpEvent ev now)
  then show ?thesis
  proof (cases ev)
    case (EvGatewayControl sc)
    have "dm_gateway (fst (apply_gateway_command v d sc now)) = fst (verify (dv_ed v) (dv_envelope v) (dm_gateway d) sc now)"
      by (auto simp: apply_gateway_command_def update_policy_def frames Let_def split_beta
          split: sum.splits gateway_command.splits)
    then show ?thesis by (simp add: OpEvent EvGatewayControl verify_high_water_mono)
  qed (auto simp: frames on_zone_join_def on_zone_leave_def on_work_window_created_def
        on_work_window_destroyed_def update_policy_def Let_def split_beta)
qed (auto simp: frames flow_defs)

lemma gateway_run: "gv_high_water (dm_gateway d) \<le> gv_high_water (dm_gateway (foldl (daemon_apply v) d ops))"
proof (induction ops arbitrary: d)
  case (Cons op ops)
  have "gv_high_water (dm_gateway d) \<le> gv_high_water (dm_gateway (daemon_apply v d op))" by (rule gateway_step)
  also note Cons.IH
  finally show ?case by simp
qed simp

lemma verify_replay:
  assumes "verify ed pc v sc now = (v', Inr cmd)" "gv_high_water v' \<le> gv_high_water w"
  shows "\<exists>e. verify ed pc w sc now' = (w, Inl e)"
proof -
  obtain env where env: "cd_dec pc (sc_envelope sc) = Some env" "gv_high_water v' = en_counter env"
    using assms(1) by (auto simp: verify_def Let_def split: if_splits option.splits)
  then show ?thesis using assms(2) by (auto simp: verify_def Let_def)
qed

lemma accepted_command:
  assumes "apply_gateway_command v d sc now = (d1, r)" "\<forall>e. r \<noteq> Inl (CommandRejected e)"
  shows "\<exists>gv cmd. verify (dv_ed v) (dv_envelope v) (dm_gateway d) sc now = (gv, Inr cmd) \<and> dm_gateway d1 = gv"
proof -
  obtain gv cmd where c: "verify (dv_ed v) (dv_envelope v) (dm_gateway d) sc now = (gv, Inr cmd)"
    using assms by (auto simp: apply_gateway_command_def Let_def split: prod.splits sum.splits)
  then have "dm_gateway d1 = gv"
    using assms(1) by (cases cmd) (auto simp: apply_gateway_command_def update_policy_def Let_def split_beta
        frames split: if_splits)
  with c show ?thesis by blast
qed

text \<open>
  (C6) A gateway command is applied at most once. Once the daemon has accepted a signed command
  (it got past verification, whatever applying it then returned), then after any further operations
  the same signed command, at any time, is rejected by the verifier and leaves the daemon unchanged.
\<close>

theorem command_applied_at_most_once:
  assumes "apply_gateway_command v d sc now = (d1, r)" "\<forall>e. r \<noteq> Inl (CommandRejected e)"
    and "d2 = foldl (daemon_apply v) d1 ops"
  shows "\<exists>e. apply_gateway_command v d2 sc now' = (d2, Inl (CommandRejected e))"
proof -
  obtain gv cmd where c: "verify (dv_ed v) (dv_envelope v) (dm_gateway d) sc now = (gv, Inr cmd)" "dm_gateway d1 = gv"
    using accepted_command[OF assms(1,2)] by blast
  then have "gv_high_water gv \<le> gv_high_water (dm_gateway d2)"
    using gateway_run[of d1 v ops] assms(3) by simp
  from verify_replay[OF c(1) this, of now'] show ?thesis
    by (auto simp: apply_gateway_command_def Let_def)
qed

section \<open>A wipe is final\<close>

lemma volume_step:
  "\<exists>vops. dm_volume (daemon_apply v d op) = foldl (vol_step (dv_keystore v) (dv_backing v) (dv_xts v)) (dm_volume d) vops"
proof -
  let ?step = "vol_step (dv_keystore v) (dv_backing v) (dv_xts v)"
  have one: "\<exists>vops. ?step x o1 = foldl ?step x vops" for x o1 by (rule exI[of _ "[o1]"]) simp
  have none: "\<exists>vops. x = foldl ?step x vops" for x by (rule exI[of _ "[]"]) simp
  have u: "dm_volume (fst (unlock_volume v d now)) = ?step (dm_volume d) VUnlock" for d now
    by (auto simp: unlock_volume_def split: prod.splits sum.splits)
  have l: "dm_volume (lock_volume v d now) = ?step (dm_volume d) VLock" for d now
    by (simp add: lock_volume_def)
  have w: "dm_volume (fst (daemon_wipe v d now)) = ?step (dm_volume d) VWipe" for d now
    by (auto simp: daemon_wipe_def split: prod.splits sum.splits)
  have wr: "dm_volume (fst (daemon_volume_write v d p s data)) = ?step (dm_volume d) (VWrite (is_supervised (dm_zones d)) p s data)" for p s data
    by (simp add: daemon_volume_write_def split: prod.splits)
  show ?thesis
  proof (cases op)
    case (OpEvent ev now)
    show ?thesis unfolding OpEvent daemon_apply.simps
      by (cases ev) (auto simp: frames on_zone_join_def on_zone_leave_def on_work_window_created_def
          on_work_window_destroyed_def update_policy_def apply_gateway_command_def Let_def split_beta u l w
          split: sum.splits gateway_command.splits simp del: vol_step.simps intro: one none)
  qed (auto simp: frames flow_defs wr simp del: vol_step.simps intro: one none)
qed

lemma volume_run:
  "\<exists>vops. dm_volume (foldl (daemon_apply v) d ops) = foldl (vol_step (dv_keystore v) (dv_backing v) (dv_xts v)) (dm_volume d) vops"
proof (induction ops arbitrary: d)
  case (Cons op ops)
  obtain v1 where "dm_volume (daemon_apply v d op) = foldl (vol_step (dv_keystore v) (dv_backing v) (dv_xts v)) (dm_volume d) v1"
    using volume_step by blast
  moreover obtain v2 where "dm_volume (foldl (daemon_apply v) (daemon_apply v d op) ops) =
      foldl (vol_step (dv_keystore v) (dv_backing v) (dv_xts v)) (dm_volume (daemon_apply v d op)) v2"
    using Cons.IH by blast
  ultimately show ?case by (metis foldl_Cons foldl_append)
qed (auto intro: exI[of _ "[]"])

text \<open>
  (C7) Remote wipe. A verified wipe command for another container is refused; of the daemon's state only
  the high-water mark of the verifier moves. One for the daemon's own container succeeds, is audited, is
  passed on to the platform, and is final for this run of the daemon: after any further operations the
  volume is locked, cannot be unlocked, and reads are refused to every process. (The next boot recovers
  the key from the enrollment record, as \<open>wipe_undone_by_reboot\<close> shows.)
\<close>

theorem gateway_wipe_final:
  assumes "dv_keystore v = mem_keystore_ops kw" "dv_backing v = mem_backing_ops" "hm_wf (cv_keystore (dm_volume d))"
    and "verify (dv_ed v) (dv_envelope v) (dm_gateway d) sc now = (gv, Inr (Wipe container why))"
    and "apply_gateway_command v d sc now = (d1, r)" "d2 = foldl (daemon_apply v) d1 ops"
  shows "if container = container_num (volume_container_id (dm_volume d)) then
      r = Inr () \<and> last (dm_calls d1) = RequestWipe \<and>
      se_event (last (as_pending (dm_audit d1))) = audit_event_new now Wiped (verdict_allow RDefault) \<and>
      \<not> volume_is_unlocked (dm_volume d2) \<and> snd (unlock_volume v d2 t) = Inl WipeMarkerSet \<and>
      daemon_volume_read v d2 p s n = Inl (if is_supervised (dm_zones d2) p then Locked else AccessDenied)
    else r = Inl WrongContainer \<and> d1 = d\<lparr>dm_gateway := gv\<rparr>"
proof (cases "container = container_num (volume_container_id (dm_volume d))")
  case True
  obtain vol where w: "volume_wipe (mem_keystore_ops kw) mem_backing_ops (dm_volume d) = (vol, Inr ())" "ms.dead vol"
    using ms.wipe_dead[OF assms(3), of kw] by (metis prod.collapse)
  have d1: "d1 = emit v (call_platform (d\<lparr>dm_gateway := gv, dm_volume := vol\<rparr>) RequestWipe)
      (audit_event_new now Wiped (verdict_allow RDefault))" "r = Inr ()"
    using assms(4,5) True w(1) by (simp_all add: apply_gateway_command_def daemon_wipe_def assms(1,2) Let_def)
  have "ms.dead (dm_volume d2)"
    using volume_run[of v d1 ops] ms.dead_forever[OF w(2)] by (auto simp: assms(1,2,6) d1(1))
  then have "cv_cipher (dm_volume d2) = None" "snd (volume_unlock (mem_keystore_ops kw) mem_backing_ops (dm_volume d2)) = Inl WipeMarkerSet"
    using ms.dead_refuses by (auto simp: ms.dead_def)
  then show ?thesis using True d1
    by (auto simp: volume_is_unlocked_def unlock_volume_def assms(1,2) daemon_volume_read_def volume_read_def
        volume_authorize_def spool_emit_def Let_def split: prod.splits sum.splits)
next
  case False
  then show ?thesis using assms(4,5) by (auto simp: apply_gateway_command_def Let_def)
qed

section \<open>Audit\<close>

text \<open>What an operation adds to the spool, and whether it confirms.\<close>

lemma foldl_emit_forward:
  "as_forward (foldl (spool_emit sha pc) s evs) = map_option (\<lambda>l. l @ evs) (as_forward s)"
  by (induction evs arbitrary: s) (simp_all add: spool_emit_def Let_def option.map_comp comp_def option.map_ident)

definition emits :: "('k, 'b, 't) daemon_env \<Rightarrow> ('k, 'b, 't) daemon \<Rightarrow> ('k, 'b, 't) daemon \<Rightarrow> bool" where
  "emits v d d' = (\<exists>evs. dm_audit d' = foldl (spool_emit (dv_sha v) (dv_event v)) (dm_audit d) evs)"

lemma emits_same: "dm_audit d' = dm_audit d \<Longrightarrow> emits v d d'"
  by (auto simp: emits_def intro: exI[of _ "[]"])

lemma emits_one: "dm_audit d' = spool_emit (dv_sha v) (dv_event v) (dm_audit d) ev \<Longrightarrow> emits v d d'"
  by (auto simp: emits_def intro: exI[of _ "[ev]"])

lemma emits_trans: "emits v a b \<Longrightarrow> emits v b c \<Longrightarrow> emits v a c"
  by (auto simp: emits_def) (metis foldl_append)

lemma emits_decide: "emits v d (fst (decide_action v d act now))"
  by (auto simp: decide_action_def should_audit_def Let_def split: option.splits intro: emits_same emits_one)

lemma emits_volume:
  "emits v d (fst (unlock_volume v d now))" "emits v d (lock_volume v d now)" "emits v d (fst (daemon_wipe v d now))"
  by (auto simp: unlock_volume_def lock_volume_def daemon_wipe_def split: prod.splits sum.splits
      intro: emits_same emits_one)

lemma emits_launch:
  "emits v d (fst (daemon_launch v pl d app now))" "emits v d (fst (launch_web v pl d app now))"
  by (auto simp: daemon_launch_def launch_web_def on_zone_join_def Let_def split: sum.splits
      intro: emits_same emits_one)

lemma emits_command: "emits v d (fst (apply_gateway_command v d sc now))"
proof -
  obtain gv r where g: "verify (dv_ed v) (dv_envelope v) (dm_gateway d) sc now = (gv, r)" by fastforce
  have a: "emits v d (d\<lparr>dm_gateway := gv\<rparr>)" by (rule emits_same) simp
  show ?thesis
    using emits_trans[OF a emits_volume(2)] emits_trans[OF a emits_volume(3)] a
    by (auto simp: apply_gateway_command_def g Let_def update_policy_def split_beta
        split: sum.splits gateway_command.splits intro: emits_same)
qed

lemma emits_step:
  assumes "\<forall>n. op \<noteq> OpConfirm n" shows "emits v d (daemon_apply v d op)"
proof (cases op)
  case (OpEvent ev now)
  then show ?thesis
    by (cases ev) (auto simp: on_zone_join_def on_zone_leave_def on_work_window_created_def
        on_work_window_destroyed_def update_policy_def Let_def split_beta emits_decide emits_volume emits_command
        intro: emits_same emits_one)
next
  case (OpExec p q b plat now)
  then show ?thesis by (auto simp: on_exec_def Let_def intro: emits_same emits_one)
next
  case (OpShim m now)
  then show ?thesis
    by (cases m) (auto simp: split_beta emits_decide on_work_window_created_def on_work_window_destroyed_def
        intro: emits_same)
next
  case (OpLauncher pl req now)
  then show ?thesis by (cases req) (auto simp: split_beta emits_launch intro: emits_same)
qed (use assms in \<open>auto simp: flow_defs daemon_volume_write_def split: prod.splits intro: emits_same\<close>)

definition traced :: "('k, 'b, 't) daemon \<Rightarrow> bool" where
  "traced d =
     (case as_forward (dm_audit d) of
        None \<Rightarrow> False
      | Some log \<Rightarrow>
          (case dm_last_audit d of
             None \<Rightarrow> True
           | Some (a, ts) \<Rightarrow> list_ex (\<lambda>e. ae_action e = a \<and> ae_ts e = ts) log))"

lemma traced_keep:
  assumes "traced d" "emits v d d'" "dm_last_audit d' = dm_last_audit d" shows "traced d'"
  using assms by (auto simp: traced_def emits_def foldl_emit_forward split: option.splits)

lemma traced_decide:
  assumes "traced d" shows "traced (fst (decide_action v d act now))"
  using assms
  by (auto simp: decide_action_def should_audit_def Let_def traced_def spool_emit_def audit_event_new_def
      split: option.splits if_splits)

lemma last_audit_frame:
  "dm_last_audit (fst (unlock_volume v d now)) = dm_last_audit d" "dm_last_audit (lock_volume v d now) = dm_last_audit d"
  "dm_last_audit (fst (daemon_wipe v d now)) = dm_last_audit d" "dm_last_audit (fst (update_policy d p)) = dm_last_audit d"
  "dm_last_audit (fst (daemon_launch v pl d app now)) = dm_last_audit d"
  "dm_last_audit (fst (launch_web v pl d app now)) = dm_last_audit d"
  "dm_last_audit (fst (on_router d x)) = dm_last_audit d"
  by (auto simp: unlock_volume_def lock_volume_def daemon_wipe_def update_policy_def daemon_launch_def launch_web_def
      on_zone_join_def on_router_def Let_def split: prod.splits sum.splits)

lemma last_audit_command: "dm_last_audit (fst (apply_gateway_command v d sc now)) = dm_last_audit d"
  by (auto simp: apply_gateway_command_def Let_def split_beta last_audit_frame
      split: sum.splits gateway_command.splits)

lemma traced_step:
  assumes "traced d" shows "traced (daemon_apply v d op)"
proof -
  consider n where "op = OpConfirm n" | act now where "op = OpEvent (EvDecision act) now"
    | req act now where "op = OpShim (RequestDecision req act) now"
    | "\<forall>n. op \<noteq> OpConfirm n" "dm_last_audit (daemon_apply v d op) = dm_last_audit d"
  proof (cases op)
    case (OpEvent ev now)
    then show ?thesis using that
      by (cases ev) (auto simp: last_audit_frame last_audit_command on_zone_join_def on_zone_leave_def
          on_work_window_created_def on_work_window_destroyed_def)
  next
    case (OpShim m now)
    then show ?thesis using that
      by (cases m) (auto simp: on_work_window_created_def on_work_window_destroyed_def)
  next
    case (OpLauncher pl req now)
    then show ?thesis using that by (cases req) (auto simp: last_audit_frame split_beta)
  qed (use that in \<open>auto simp: flow_defs on_exec_def last_audit_frame daemon_volume_write_def split: prod.splits\<close>)
  then show ?thesis
  proof cases
    case 1
    then show ?thesis using assms by (auto simp: traced_def confirm_through_def split: option.splits)
  next
    case 2
    then show ?thesis using traced_decide[OF assms] by (simp add: split_beta)
  next
    case 3
    then show ?thesis using traced_decide[OF assms] by (simp add: split_beta)
  next
    case 4
    then show ?thesis using traced_keep[OF assms emits_step] by blast
  qed
qed

lemma traced_run: "traced d \<Longrightarrow> traced (foldl (daemon_apply v) d ops)"
  by (induction ops arbitrary: d) (auto simp: traced_step)


section \<open>Synchronisation\<close>

lemma emits_commands: "emits v d (fst (apply_commands v d cs now))"
proof (induction cs arbitrary: d)
  case (Cons c cs)
  show ?case
    using emits_trans[OF emits_command Cons.IH]
    by (simp add: Let_def split_beta split: sum.splits)
qed (simp add: emits_same)

context gateway_link
begin

definition ops :: "'l link_ops" where
  "ops = \<lparr>lk_poll = poll, lk_push = push\<rparr>"

text \<open>One round, over any link: what is sent, what is kept, what is saved.\<close>

lemma sync_effect:
  assumes "sync_once v ops co gs d now = (gs', d', rep)"
    and "d1 = fst (apply_commands v d (queued (gs_link gs)) now)"
  shows "gs_device_key gs' = gs_device_key gs"
    "up (gs_link gs') = up (gs_link gs)" "queued (gs_link gs') = []"
    "sent (gs_link gs') = sent (gs_link gs) @
       (if up (gs_link gs) \<and> as_pending (dm_audit d1) \<noteq> []
        then [sign_batch (dv_ed v) (gs_device_key gs) (as_pending (dm_audit d1)) (as_head (dm_audit d1))] else [])"
    "d' = (if up (gs_link gs) \<and> as_pending (dm_audit d1) \<noteq> []
           then d1\<lparr>dm_audit := confirm_through (dm_audit d1) (se_seq (last (as_pending (dm_audit d1))))\<rparr> else d1)"
    "\<exists>c. gs_store gs' = ck_save co c (daemon_checkpoint d')"
proof -
  obtain l cmds where p: "poll (gs_link gs) = (l, cmds)" by fastforce
  then have p': "cmds = queued (gs_link gs)" "queued l = []" "sent l = sent (gs_link gs)" "up l = up (gs_link gs)"
    using poll_result[of "gs_link gs"] poll_queued[of "gs_link gs"] poll_sent[of "gs_link gs"] poll_up[of "gs_link gs"] by simp_all
  obtain ok bad where c: "apply_commands v d cmds now = (d1, ok, bad)"
    using assms(2) p'(1) by (metis prod.collapse)
  let ?b = "sign_batch (dv_ed v) (gs_device_key gs) (as_pending (dm_audit d1)) (as_head (dm_audit d1))"
  obtain l2 r where q: "push l ?b = (l2, r)" by fastforce
  then have q': "r = (if up l then Inr () else Inl LinkUnavailable)" "sent l2 = (if up l then sent l @ [?b] else sent l)"
    "queued l2 = queued l" "up l2 = up l"
    using push_result[of l ?b] push_sent[of l ?b] push_queued[of l ?b] push_up[of l ?b] by simp_all
  note u = assms(1)[unfolded sync_once_def ops_def, simplified, unfolded p, simplified, unfolded c, simplified,
      unfolded spool_peek_def Let_def, simplified]
  show "gs_device_key gs' = gs_device_key gs"
    "up (gs_link gs') = up (gs_link gs)" "queued (gs_link gs') = []"
    "sent (gs_link gs') = sent (gs_link gs) @ (if up (gs_link gs) \<and> as_pending (dm_audit d1) \<noteq> [] then [?b] else [])"
    "d' = (if up (gs_link gs) \<and> as_pending (dm_audit d1) \<noteq> []
           then d1\<lparr>dm_audit := confirm_through (dm_audit d1) (se_seq (last (as_pending (dm_audit d1))))\<rparr> else d1)"
    "\<exists>c. gs_store gs' = ck_save co c (daemon_checkpoint d')"
    using u p' q q' by (auto split: if_splits)
qed

end

section \<open>Witnesses\<close>

definition wipe_envelope :: envelope where
  "wipe_envelope = envelope_new (TenantId 1) 3 100 (Wipe 9 LostOrStolen)"

definition demo_daemon_env :: "(mem_key_store, mem_backing, loopback_tunnel) daemon_env" where
  "demo_daemon_env =
     \<lparr>dv_ed = ed_demo, dv_sha = id, dv_envelope = \<lparr>cd_enc = (\<lambda>_. [1]), cd_dec = (\<lambda>_. Some wipe_envelope)\<rparr>,
      dv_event = \<lparr>cd_enc = (\<lambda>_. []), cd_dec = (\<lambda>_. None)\<rparr>,
      dv_xts = \<lparr>xt_enc = (\<lambda>_ _ _ a. a), xt_dec = (\<lambda>_ _ _ a. a)\<rparr>,
      dv_keystore = mem_keystore_ops \<lparr>kw_wrap = (\<lambda>k d. d), kw_unwrap = (\<lambda>k d. Some d)\<rparr>,
      dv_backing = mem_backing_ops, dv_tunnel = loopback_ops\<rparr>"

definition demo_daemon :: "(mem_key_store, mem_backing, loopback_tunnel) daemon" where
  "demo_daemon = set_policy_observer (daemon_new zone_new (spool_with_sink []) restrictive_default (loopback_tunnel_new 7)
     (volume_new (container_meta_new (ContainerId 9)) [] (mem_backing_zeroed 1))
     \<lparr>gv_tenant = TenantId 1, gv_key = [4], gv_high_water = 2, gv_max_age_secs = 60\<rparr>)"

definition demo_wipe :: signed_command where
  "demo_wipe = \<lparr>sc_envelope = [1], sc_signature = [4] @ signing_input [1]\<rparr>"

lemma demo_wipe_verified:
  "verify (dv_ed demo_daemon_env) (dv_envelope demo_daemon_env) (dm_gateway demo_daemon) demo_wipe 100 =
     (dm_gateway demo_daemon\<lparr>gv_high_water := 3\<rparr>, Inr (Wipe 9 LostOrStolen))"
  by (simp add: verify_def demo_daemon_env_def demo_daemon_def set_policy_observer_def daemon_new_def demo_wipe_def
      ed_demo_def wipe_envelope_def envelope_new_def Let_def saturating_sub_def)

lemma demo_daemon_volume: "cv_keystore (dm_volume demo_daemon) = []" "volume_container_id (dm_volume demo_daemon) = ContainerId 9"
  by (simp_all add: demo_daemon_def set_policy_observer_def daemon_new_def volume_new_def container_meta_new_def
      volume_container_id_def)

lemma demo_daemon_env_stores:
  "dv_keystore demo_daemon_env = mem_keystore_ops \<lparr>kw_wrap = (\<lambda>k d. d), kw_unwrap = (\<lambda>k d. Some d)\<rparr>"
  "dv_backing demo_daemon_env = mem_backing_ops"
  by (simp_all add: demo_daemon_env_def)

lemma demo_wipe_accepted: "snd (apply_gateway_command demo_daemon_env demo_daemon demo_wipe 100) = Inr ()"
proof -
  have "snd (volume_wipe (dv_keystore demo_daemon_env) (dv_backing demo_daemon_env) (dm_volume demo_daemon)) = Inr ()"
    using ms.wipe_dead[of "dm_volume demo_daemon"] by (simp add: demo_daemon_env_stores demo_daemon_volume)
  then show ?thesis using demo_wipe_verified
    by (auto simp: apply_gateway_command_def demo_daemon_volume daemon_wipe_def Let_def split: prod.splits sum.splits)
qed

text \<open>A new policy is accepted, an older one after it is not.\<close>

theorem policy_never_rolls_back_witness:
  "policy_version demo_daemon \<le> policy_version (foldl (daemon_apply demo_daemon_env) demo_daemon
     [OpEvent (EvPolicyUpdate (restrictive_default\<lparr>pb_version := 5\<rparr>)) 1,
      OpEvent (EvPolicyUpdate (restrictive_default\<lparr>pb_version := 3\<rparr>)) 2])"
proof -
  have "dm_observer demo_daemon = Some []" by (simp add: demo_daemon_def set_policy_observer_def)
  from policy_never_rolls_back[OF this] show ?thesis by blast
qed

text \<open>The wipe of container 9, sent again after an unlock was tried, and the attempt to unlock.\<close>

theorem gateway_wipe_final_witness:
  "snd (unlock_volume demo_daemon_env (foldl (daemon_apply demo_daemon_env)
       (fst (apply_gateway_command demo_daemon_env demo_daemon demo_wipe 100)) [OpEvent EvVolumeUnlock 101]) 102)
   = Inl WipeMarkerSet"
proof -
  obtain d1 r where a: "apply_gateway_command demo_daemon_env demo_daemon demo_wipe 100 = (d1, r)" by fastforce
  have "hm_wf (cv_keystore (dm_volume demo_daemon))" by (simp add: demo_daemon_volume)
  from gateway_wipe_final[OF demo_daemon_env_stores this demo_wipe_verified a refl, of "[OpEvent EvVolumeUnlock 101]" 102]
  show ?thesis by (simp add: a demo_daemon_volume)
qed

theorem command_applied_at_most_once_witness:
  "\<exists>e. snd (apply_gateway_command demo_daemon_env (foldl (daemon_apply demo_daemon_env)
       (fst (apply_gateway_command demo_daemon_env demo_daemon demo_wipe 100)) [OpEvent EvVolumeLock 101]) demo_wipe 102)
   = Inl (CommandRejected e)"
proof -
  obtain d1 r where a: "apply_gateway_command demo_daemon_env demo_daemon demo_wipe 100 = (d1, r)" by fastforce
  have "r \<noteq> Inl (CommandRejected e)" for e using demo_wipe_accepted a by simp
  then have "\<forall>e. r \<noteq> Inl (CommandRejected e)" by blast
  from command_applied_at_most_once[OF a this refl, of "[OpEvent EvVolumeLock 101]" 102]
  show ?thesis by (auto simp: a)
qed


end
