(* ===== verification/Clave_End_To_End.thy ===== *)
theory Clave_End_To_End
  imports Daemon_Props Gateway_Props
begin

text \<open>
  The device and the gateway together: a daemon that runs any operations and synchronises over a
  link that goes up and down, and a gateway that ingests what the link carried.
\<close>

section \<open>The audit reaches the gateway\<close>

datatype device_event =
    DevOp daemon_op
  | DevCommand signed_command
  | DevOnline bool
  | DevSync unix_time

fun device_step ::
  "('k, 'b, 't) daemon_env \<Rightarrow> 'c checkpoint_ops \<Rightarrow> (loopback_link, 'c) gateway_sync \<times> ('k, 'b, 't) daemon \<Rightarrow> device_event
     \<Rightarrow> (loopback_link, 'c) gateway_sync \<times> ('k, 'b, 't) daemon" where
  "device_step v co (gs, d) (DevOp op) = (gs, daemon_apply v d op)"
| "device_step v co (gs, d) (DevCommand c) = (gs\<lparr>gs_link := lb_enqueue_command (gs_link gs) c\<rparr>, d)"
| "device_step v co (gs, d) (DevOnline b) = (gs\<lparr>gs_link := lb_set_online (gs_link gs) b\<rparr>, d)"
| "device_step v co (gs, d) (DevSync now) =
     (let (gs', d', _) = sync_once v loopback_link_ops co gs d now in (gs', d'))"

fun own_confirm :: "device_event \<Rightarrow> bool" where
  "own_confirm (DevOp (OpConfirm _)) = True"
| "own_confirm _ = False"

text \<open>The ledger and the spool meet: the pending entries continue the ledger's chain of the device.\<close>

definition meets :: "sha256 \<Rightarrow> audit_event codec \<Rightarrow> audit_ledger \<Rightarrow> device_id \<Rightarrow> bytes \<Rightarrow> audit_spool \<Rightarrow> bool" where
  "meets sha pc l dev pk s =
     (case hm_get (al_chains l) dev of
        None \<Rightarrow> False
      | Some c \<Rightarrow>
          dc_public_key c = pk \<and> dc_next_seq c = of_nat (length (events_for l dev)) + 1 \<and>
          chain_ok sha pc (dc_head c) (dc_next_seq c) (as_pending s) (as_head s) \<and>
          as_seq s = of_nat (length (events_for l dev) + length (as_pending s)) \<and>
          as_forward s = Some (events_for l dev @ map se_event (as_pending s)))"

lemma meetsE:
  assumes "meets sha pc l dev pk s"
  obtains c where "hm_get (al_chains l) dev = Some c" "dc_public_key c = pk"
    "dc_next_seq c = of_nat (length (events_for l dev)) + 1"
    "chain_ok sha pc (dc_head c) (dc_next_seq c) (as_pending s) (as_head s)"
    "as_seq s = of_nat (length (events_for l dev) + length (as_pending s))"
    "as_forward s = Some (events_for l dev @ map se_event (as_pending s))"
  using assms unfolding meets_def by (cases "hm_get (al_chains l) dev") auto

lemma emitted_events: "map se_event (emitted sha pc n h evs) = evs"
  by (induction evs arbitrary: n h) (auto simp: Let_def)

lemma meets_emit:
  assumes "meets sha pc l dev pk s" shows "meets sha pc l dev pk (foldl (spool_emit sha pc) s evs)"
  using assms
proof (rule meetsE)
  fix c
  assume m: "hm_get (al_chains l) dev = Some c" "dc_public_key c = pk"
    "dc_next_seq c = of_nat (length (events_for l dev)) + 1"
    "chain_ok sha pc (dc_head c) (dc_next_seq c) (as_pending s) (as_head s)"
    "as_seq s = of_nat (length (events_for l dev) + length (as_pending s))"
    "as_forward s = Some (events_for l dev @ map se_event (as_pending s))"
  have "dc_next_seq c + of_nat (length (as_pending s)) = as_seq s + 1"
    using m(3,5) by (simp add: algebra_simps)
  then have "chain_ok sha pc (dc_head c) (dc_next_seq c) (as_pending s @ emitted sha pc (as_seq s) (as_head s) evs)
      (chain_head sha pc (as_seq s) (as_head s) evs)"
    unfolding chain_ok_append using m(4) chain_ok_emitted by metis
  then show ?thesis unfolding meets_def emit_all
    using m by (simp add: emitted_events algebra_simps)
qed

lemma pending_confirmed:
  assumes "meets sha pc l dev pk s" "length (events_for l dev) + length (as_pending s) < 2 ^ 64" "as_pending s \<noteq> []"
  shows "filter (\<lambda>e. se_seq e > se_seq (last (as_pending s))) (as_pending s) = []"
  using assms(1)
proof (rule meetsE)
  fix c
  assume n: "dc_next_seq c = of_nat (length (events_for l dev)) + 1"
    and ok: "chain_ok sha pc (dc_head c) (dc_next_seq c) (as_pending s) (as_head s)"
  have seq: "unat (se_seq (as_pending s ! i)) = length (events_for l dev) + 1 + i" if "i < length (as_pending s)" for i
  proof -
    have "se_seq (as_pending s ! i) = 0 + of_nat (length (events_for l dev) + 1 + i)"
      using chain_ok_seq[OF ok that] n by (simp add: algebra_simps)
    moreover have "unat (0 + of_nat (length (events_for l dev) + 1 + i) :: u64) = unat (0 :: u64) + (length (events_for l dev) + 1 + i)"
      by (rule unat_add_of_nat) (use that assms(2) in simp)
    ultimately show ?thesis by (metis add_0 unat_0)
  qed
  have "\<not> se_seq (last (as_pending s)) < se_seq e" if e: "e \<in> set (as_pending s)" for e
  proof -
    obtain i where i: "i < length (as_pending s)" "e = as_pending s ! i" using e by (metis in_set_conv_nth)
    then show ?thesis using seq[of i] seq[of "length (as_pending s) - 1"] assms(3)
      by (simp add: last_conv_nth word_less_nat_alt)
  qed
  then show ?thesis by (simp add: filter_empty_conv)
qed

lemma ingest_pending:
  assumes "meets sha pc l dev (dk_public_key ed k) s" "ed25519_correct ed"
    "length (events_for l dev) + length (as_pending s) < 2 ^ 64" "as_pending s \<noteq> []"
  shows "\<exists>l' evs. ingest sha ed pc l dev (sign_batch ed k (as_pending s) (as_head s)) = (l', Inr evs) \<and>
    meets sha pc l' dev (dk_public_key ed k) (confirm_through s (se_seq (last (as_pending s))))"
  using assms(1)
proof (rule meetsE)
  fix c
  assume m: "hm_get (al_chains l) dev = Some c" "dc_public_key c = dk_public_key ed k"
    "dc_next_seq c = of_nat (length (events_for l dev)) + 1"
    "chain_ok sha pc (dc_head c) (dc_next_seq c) (as_pending s) (as_head s)"
    "as_seq s = of_nat (length (events_for l dev) + length (as_pending s))"
    "as_forward s = Some (events_for l dev @ map se_event (as_pending s))"
  let ?b = "sign_batch ed k (as_pending s) (as_head s)"
  have v: "verify_batch sha ed pc (dc_head c) (dc_next_seq c) ?b (dc_public_key c) = Inr (as_head s)"
    using m(2,4) ed25519_correctD[OF assms(2)] by (simp add: verify_batch_iff sign_batch_def dk_public_key_def)
  obtain l' r where i: "ingest sha ed pc l dev ?b = (l', r)" by fastforce
  have r: "r = Inr (map se_event (as_pending s))"
    using i m(1) v by (auto simp: ingest_def Let_def sign_batch_def)
  have ev: "events_for l' dev = events_for l dev @ map se_event (as_pending s)"
    using ingest_extends[OF i, of dev] m(1) r by (auto simp: ledger_extends_def sign_batch_def split: option.splits)
  have ch: "hm_get (al_chains l') dev = Some (c\<lparr>dc_next_seq := dc_next_seq c + of_nat (length (as_pending s)), dc_head := as_head s\<rparr>)"
    using ingest_chains[OF i, of dev] m(1) r by (simp add: sign_batch_def)
  have "meets sha pc l' dev (dk_public_key ed k) (confirm_through s (se_seq (last (as_pending s))))"
    using pending_confirmed[OF assms(1,3,4)] m(2,3,5,6)
    by (simp add: meets_def ch ev confirm_through_def algebra_simps)
  then show ?thesis using i r by blast
qed

lemma ingest_all_subset: "set (snd (ingest_all sha ed pc l bs)) \<subseteq> set bs"
proof (induction bs arbitrary: l)
  case (Cons x bs)
  obtain d b where x: "x = (d, b)" by (cases x)
  obtain l0 r where i: "ingest sha ed pc l d b = (l0, r)" by fastforce
  then show ?case using Cons.IH[of l0] by (cases r) (auto simp: x split: prod.splits)
qed simp

lemma ingest_all_length: "length (snd (ingest_all sha ed pc l bs)) \<le> length bs"
proof (induction bs arbitrary: l)
  case (Cons x bs)
  obtain d b where x: "x = (d, b)" by (cases x)
  obtain l0 r where i: "ingest sha ed pc l d b = (l0, r)" by fastforce
  then show ?case using Cons.IH[of l0] by (cases r) (auto simp: x split: prod.splits)
qed simp

lemma ingest_all_snoc:
  assumes "ingest_all sha ed pc l bs = (l1, bs)" "ingest sha ed pc l1 d b = (l2, Inr evs)"
  shows "ingest_all sha ed pc l (bs @ [(d, b)]) = (l2, bs @ [(d, b)])"
  using assms
proof (induction bs arbitrary: l)
  case (Cons x bs)
  obtain d0 b0 where x: "x = (d0, b0)" by (cases x)
  obtain l0 r where i: "ingest sha ed pc l d0 b0 = (l0, r)" by fastforce
  show ?case
  proof (cases r)
    case (Inl e)
    then have "ingest_all sha ed pc l0 bs = (l1, x # bs)" using Cons.prems(1) i by (simp add: x)
    then have "length (x # bs) \<le> length bs" using ingest_all_length[of sha ed pc l0 bs] by simp
    then show ?thesis by simp
  next
    case (Inr ev)
    then show ?thesis using Cons.prems i Cons.IH[of l0] by (auto simp: x split: prod.splits)
  qed
qed simp

text \<open>What holds between the two along a run: every batch sent was ingested, the rest is pending.\<close>

definition delivered ::
  "('k, 'b, 't) daemon_env \<Rightarrow> audit_ledger \<Rightarrow> device_id \<Rightarrow> device_signing_key \<Rightarrow>
     (loopback_link, 'c) gateway_sync \<times> ('k, 'b, 't) daemon \<Rightarrow> bool" where
  "delivered v l0 dev k st =
     (gs_device_key (fst st) = k \<and>
      (let bs = map (Pair dev) (lb_pushed (gs_link (fst st)));
           (l, acc) = ingest_all (dv_sha v) (dv_ed v) (dv_event v) l0 bs
       in acc = bs \<and> meets (dv_sha v) (dv_event v) l dev (dk_public_key (dv_ed v) k) (dm_audit (snd st))))"

lemma delivered_iff:
  "delivered v l0 dev k (gs, d) \<longleftrightarrow> gs_device_key gs = k \<and>
     (\<exists>l. ingest_all (dv_sha v) (dv_ed v) (dv_event v) l0 (map (Pair dev) (lb_pushed (gs_link gs))) =
            (l, map (Pair dev) (lb_pushed (gs_link gs))) \<and>
          meets (dv_sha v) (dv_event v) l dev (dk_public_key (dv_ed v) k) (dm_audit d))"
  by (cases "ingest_all (dv_sha v) (dv_ed v) (dv_event v) l0 (map (Pair dev) (lb_pushed (gs_link gs)))")
    (auto simp: delivered_def Let_def)

lemma delivered_emits:
  assumes "delivered v l0 dev k (gs, d)" "emits v d d'"
    "gs_device_key gs' = gs_device_key gs" "lb_pushed (gs_link gs') = lb_pushed (gs_link gs)"
  shows "delivered v l0 dev k (gs', d')"
  using assms unfolding delivered_iff emits_def by (metis meets_emit)

lemma lbk_ops: "lbk.ops = loopback_link_ops"
  by (simp add: lbk.ops_def loopback_link_ops_def)

definition sink_log :: "('k, 'b, 't) daemon \<Rightarrow> audit_event list" where
  "sink_log d = the (as_forward (dm_audit d))"

lemma meets_sink_log:
  "meets sha pc l dev pk (dm_audit d) \<Longrightarrow> sink_log d = events_for l dev @ map se_event (as_pending (dm_audit d))"
  by (erule meetsE) (simp add: sink_log_def)

lemma delivered_sync:
  assumes "delivered v l0 dev k (gs, d)" "sync_once v loopback_link_ops co gs d now = (gs', d', rep)"
    and "ed25519_correct (dv_ed v)" "length (sink_log d') < 2 ^ 64"
  shows "delivered v l0 dev k (gs', d')"
proof -
  define d1 where "d1 = fst (apply_commands v d (lb_inbound (gs_link gs)) now)"
  note eff = lbk.sync_effect[unfolded lbk_ops, OF assms(2) d1_def]
  have "delivered v l0 dev k (gs, d1)"
    unfolding d1_def by (rule delivered_emits[OF assms(1) emits_commands refl refl])
  then obtain l where l: "ingest_all (dv_sha v) (dv_ed v) (dv_event v) l0 (map (Pair dev) (lb_pushed (gs_link gs))) =
        (l, map (Pair dev) (lb_pushed (gs_link gs)))" and k: "gs_device_key gs = k"
    and m: "meets (dv_sha v) (dv_event v) l dev (dk_public_key (dv_ed v) k) (dm_audit d1)"
    unfolding delivered_iff by blast
  show ?thesis
  proof (cases "lb_online (gs_link gs) \<and> as_pending (dm_audit d1) \<noteq> []")
    case False
    have "lb_pushed (gs_link gs') = lb_pushed (gs_link gs)" "d' = d1" using eff(4,5) unfolding if_not_P[OF False] by simp_all
    with l m k eff(1) show ?thesis unfolding delivered_iff by auto
  next
    case True
    let ?b = "sign_batch (dv_ed v) k (as_pending (dm_audit d1)) (as_head (dm_audit d1))"
    have d': "dm_audit d' = confirm_through (dm_audit d1) (se_seq (last (as_pending (dm_audit d1))))"
      using eff(5) True by simp
    then have "sink_log d' = sink_log d1" by (simp add: sink_log_def confirm_through_def)
    then have "length (events_for l dev) + length (as_pending (dm_audit d1)) < 2 ^ 64"
      using assms(4) meets_sink_log[OF m] by simp
    then obtain l' evs where i: "ingest (dv_sha v) (dv_ed v) (dv_event v) l dev ?b = (l', Inr evs)"
      "meets (dv_sha v) (dv_event v) l' dev (dk_public_key (dv_ed v) k) (dm_audit d')"
      using ingest_pending[OF m assms(3)] True unfolding d' by blast
    moreover have "lb_pushed (gs_link gs') = lb_pushed (gs_link gs) @ [?b]" using eff(4) True k by simp
    ultimately show ?thesis using ingest_all_snoc[OF l i(1)] eff(1) k unfolding delivered_iff by auto
  qed
qed

text \<open>A round over a link that is up confirms everything that was pending.\<close>

lemma sync_flushes:
  assumes "delivered v l0 dev k (gs, d)" "lb_online (gs_link gs)"
    and "sync_once v loopback_link_ops co gs d now = (gs', d', rep)" "length (sink_log d') < 2 ^ 64"
  shows "as_pending (dm_audit d') = []"
proof -
  define d1 where "d1 = fst (apply_commands v d (lb_inbound (gs_link gs)) now)"
  note eff = lbk.sync_effect(5)[unfolded lbk_ops, OF assms(3) d1_def]
  obtain l where m: "meets (dv_sha v) (dv_event v) l dev (dk_public_key (dv_ed v) k) (dm_audit d1)"
    using delivered_emits[OF assms(1) emits_commands refl refl] unfolding d1_def delivered_iff by blast
  have "sink_log d' = sink_log d1" using eff by (simp add: sink_log_def confirm_through_def)
  then have "length (events_for l dev) + length (as_pending (dm_audit d1)) < 2 ^ 64"
    using assms(4) meets_sink_log[OF m] by simp
  from pending_confirmed[OF m this] show ?thesis
    using eff assms(2) by (cases "as_pending (dm_audit d1) = []") (simp_all add: confirm_through_def)
qed

lemma device_step_log:
  assumes "device_step v co (gs, d) ev = (gs', d')" "as_forward (dm_audit d) \<noteq> None" "\<not> own_confirm ev"
  shows "as_forward (dm_audit d') \<noteq> None \<and> length (sink_log d) \<le> length (sink_log d')"
proof -
  have e: "as_forward (dm_audit d2) \<noteq> None \<and> length (sink_log d) \<le> length (sink_log d2)" if "emits v d d2" for d2
    using that assms(2) by (auto simp: emits_def emit_all sink_log_def)
  show ?thesis
  proof (cases ev)
    case (DevOp op)
    then show ?thesis using assms(1,3) e[OF emits_step[of op v d]] by (cases op) auto
  next
    case (DevSync now)
    then obtain rep where "sync_once v loopback_link_ops co gs d now = (gs', d', rep)"
      using assms(1) by (auto split: prod.splits)
    from lbk.sync_effect(5)[unfolded lbk_ops, OF this refl] e[OF emits_commands]
    show ?thesis by (auto simp: sink_log_def confirm_through_def split: if_splits)
  qed (use assms e[OF emits_same] in auto)
qed

lemma delivered_step:
  assumes "delivered v l0 dev k (gs, d)" "device_step v co (gs, d) ev = (gs', d')" "\<not> own_confirm ev"
    and "ed25519_correct (dv_ed v)" "length (sink_log d') < 2 ^ 64"
  shows "delivered v l0 dev k (gs', d')"
proof (cases ev)
  case (DevOp op)
  then have "emits v d d'" using assms(2,3) emits_step[of op v d] by (cases op) auto
  then show ?thesis using delivered_emits[OF assms(1)] DevOp assms(2) by auto
next
  case (DevSync now)
  then obtain rep where "sync_once v loopback_link_ops co gs d now = (gs', d', rep)"
    using assms(2) by (auto split: prod.splits)
  then show ?thesis using delivered_sync assms by blast
next
  case (DevCommand c)
  then show ?thesis using assms(2) by (auto intro!: delivered_emits[OF assms(1) emits_same] simp: lb_enqueue_command_def)
next
  case (DevOnline b)
  then show ?thesis using assms(2) by (auto intro!: delivered_emits[OF assms(1) emits_same] simp: lb_set_online_def)
qed

lemma delivered_forward: "delivered v l0 dev k (gs, d) \<Longrightarrow> as_forward (dm_audit d) \<noteq> None"
  unfolding delivered_iff by (auto elim: meetsE)

lemma run_forward:
  assumes "as_forward (dm_audit (snd st)) \<noteq> None" "\<forall>ev \<in> set evs. \<not> own_confirm ev"
    "foldl (device_step v co) st evs = (gs, d)"
  shows "as_forward (dm_audit d) \<noteq> None"
  using assms(2,3)
proof (induction evs arbitrary: gs d rule: rev_induct)
  case Nil
  then show ?case using assms(1) by simp
next
  case (snoc e es)
  obtain g1 d1 where "foldl (device_step v co) st es = (g1, d1)" by fastforce
  then show ?case using snoc device_step_log[of v co g1 d1 e gs d] by auto
qed

lemma delivered_run:
  assumes "delivered v l0 dev k st" "\<forall>ev \<in> set evs. \<not> own_confirm ev" "ed25519_correct (dv_ed v)"
    and "foldl (device_step v co) st evs = (gs', d')" "length (sink_log d') < 2 ^ 64"
  shows "delivered v l0 dev k (gs', d')"
  using assms(2,4,5)
proof (induction evs arbitrary: gs' d' rule: rev_induct)
  case Nil
  then show ?case using assms(1) by simp
next
  case (snoc ev evs)
  obtain gs d where r: "foldl (device_step v co) st evs = (gs, d)" by fastforce
  have st: "device_step v co (gs, d) ev = (gs', d')" using snoc.prems(2) r by simp
  have fw: "as_forward (dm_audit d) \<noteq> None"
    using run_forward[OF _ _ r] snoc.prems(1) assms(1) delivered_forward[of v l0 dev k "fst st" "snd st"] by simp
  have "delivered v l0 dev k (gs, d)"
    using snoc.IH[OF _ r] snoc.prems(1,3) device_step_log[OF st fw] by simp
  then show ?case using delivered_step[OF _ st] snoc.prems(1,3) assms(3) by simp
qed

lemma delivered_start:
  assumes "dm_audit d = spool_with_sink []" "lb_pushed (gs_link gs) = []"
  shows "delivered v (register_device ledger_new dev (dk_public_key (dv_ed v) (gs_device_key gs))) dev (gs_device_key gs) (gs, d)"
  using assms by (simp add: delivered_iff meets_def register_device_def ledger_new_def events_for_def
      spool_with_sink_def spool_new_def)

text \<open>
  A link that loses, repeats or reorders batches: whatever of the batches is delivered, and however often,
  what the ledger takes is a first part of the whole chain, since it accepts only the next entry.
\<close>

lemma chain_drawn:
  assumes c: "chain_ok sha pc p 1 es h" "chain_ok sha pc p' 1 es' h'"
    and "set es' \<subseteq> set es" "length es < 2 ^ 64" "i < length es'"
  shows "i < length es \<and> es' ! i = es ! i"
  using assms(5)
proof (induction i)
  case i: 0
  then have "es' ! 0 \<in> set es" using assms(3) nth_mem by blast
  then obtain j where j: "j < length es" "es' ! 0 = es ! j" by (metis in_set_conv_nth)
  have "(1 :: u64) + of_nat j = 1 + of_nat 0"
    using chain_ok_seq[OF c(1) j(1)] chain_ok_seq[OF c(2) i] j(2) by simp
  then have "unat (of_nat j :: u64) = 0" by simp
  then have "j = 0" using j(1) assms(4) by (simp add: unat_of_nat)
  then show ?case using j by auto
next
  case (Suc i)
  then have "es' ! Suc i \<in> set es" using assms(3) nth_mem by blast
  then obtain j where j: "j < length es" "es' ! Suc i = es ! j" by (metis in_set_conv_nth)
  have "(1 :: u64) + of_nat j = 1 + of_nat (Suc i)"
    using chain_ok_seq[OF c(1) j(1)] chain_ok_seq[OF c(2) Suc.prems] j(2) by simp
  then have "(of_nat j :: u64) = of_nat (Suc i)" by (simp only: add_left_cancel)
  moreover have "i < length es" using Suc by simp
  ultimately have "unat (of_nat j :: u64) = unat (of_nat (Suc i) :: u64)" "Suc i \<le> length es"
    by (simp_all del: of_nat_Suc)
  then have "j = Suc i" using j(1) assms(4) by (simp add: unat_of_nat del: of_nat_Suc)
  then show ?case using j by auto
qed

lemma lossy_delivery:
  assumes "ingest_all sha ed pc (register_device ledger_new dev pk) bs = (l, bs)"
    and "ingest_all sha ed pc (register_device ledger_new dev pk) bs' = (l', acc)"
    and "set bs' \<subseteq> set bs" "length (events_for l dev) < 2 ^ 64"
  shows "\<exists>n. events_for l' dev = take n (events_for l dev)"
proof -
  define es es' where "es = accepted_entries dev bs" and "es' = accepted_entries dev acc"
  obtain h h' where c: "chain_ok sha pc GENESIS 1 es h" "events_for l dev = map se_event es"
    "chain_ok sha pc GENESIS 1 es' h'" "events_for l' dev = map se_event es'"
    using ledger_chain_invariant[OF assms(1)] ledger_chain_invariant[OF assms(2)] unfolding es_def es'_def by blast
  have "set acc \<subseteq> set bs'" using ingest_all_subset[of sha ed pc _ bs'] assms(2) by (metis snd_conv)
  then have sub: "set es' \<subseteq> set es" using assms(3) by (fastforce simp: es_def es'_def accepted_entries_def)
  have n: "length es < 2 ^ 64" using assms(4) c(2) by simp
  note D = chain_drawn[OF c(1,3) sub n]
  have le: "length es' \<le> length es" using D[of "length es"] by (meson linorder_not_less less_irrefl)
  then have "es' = take (length es') es" using D by (intro nth_equalityI) simp_all
  then show ?thesis using c(2,4) by (metis take_map)
qed

text \<open>
  (C2) Audit end to end, over the in-process \<open>LoopbackLink\<close>, where what is pushed has been handed over. A
  daemon with an empty spool runs any operations, is sent any commands, and synchronises at any moments
  over this link, which goes up and down; the gateway has registered the device's signing key. Then the
  gateway, given the pushed batches, accepts every one in the order sent, and its log of the device
  followed by what the spool still holds is exactly the sequence of events the daemon emitted: nothing is
  lost, duplicated or reordered. If a transport behind the link (as the pump of \<open>ChannelGatewayLink\<close>)
  loses, repeats or reorders batches after they were pushed, events can be missing, but only from some
  point on: the gateway's log is still a first part of what the daemon emitted.
\<close>

theorem audit_end_to_end:
  assumes "ed25519_correct (dv_ed v)"
    and "dm_audit d0 = spool_with_sink []" "lb_pushed (gs_link gs0) = []"
    and "\<forall>ev \<in> set evs. \<not> own_confirm ev" "foldl (device_step v co) (gs0, d0) evs = (gs, d)"
    and "length (sink_log d) < 2 ^ 64"
    and "l0 = register_device ledger_new dev (dk_public_key (dv_ed v) (gs_device_key gs0))"
    and "bs = map (Pair dev) (lb_pushed (gs_link gs))"
  shows "(\<exists>l. ingest_all (dv_sha v) (dv_ed v) (dv_event v) l0 bs = (l, bs) \<and>
      sink_log d = events_for l dev @ map se_event (as_pending (dm_audit d))) \<and>
    (\<forall>bs'. set bs' \<subseteq> set bs \<longrightarrow>
      (\<exists>n. events_for (fst (ingest_all (dv_sha v) (dv_ed v) (dv_event v) l0 bs')) dev = take n (sink_log d)))"
proof -
  have "delivered v l0 dev (gs_device_key gs0) (gs, d)"
    using delivered_run[OF delivered_start assms(4,1,5,6)] assms(2,3,7) by blast
  then obtain l where l: "ingest_all (dv_sha v) (dv_ed v) (dv_event v) l0 bs = (l, bs)"
    "sink_log d = events_for l dev @ map se_event (as_pending (dm_audit d))"
    unfolding delivered_iff assms(8) using meets_sink_log by blast
  have n: "length (events_for l dev) < 2 ^ 64" using assms(6) l(2) by simp
  have "\<exists>n. events_for (fst (ingest_all (dv_sha v) (dv_ed v) (dv_event v) l0 bs')) dev = take n (sink_log d)"
    if sub: "set bs' \<subseteq> set bs" for bs'
  proof -
    obtain l' acc where l': "ingest_all (dv_sha v) (dv_ed v) (dv_event v) l0 bs' = (l', acc)" by fastforce
    obtain n where "events_for l' dev = take n (events_for l dev)"
      using lossy_delivery[OF l(1)[unfolded assms(7)] l'[unfolded assms(7)] sub n] by blast
    then have "events_for l' dev = take (min n (length (events_for l dev))) (sink_log d)" using l(2) by (simp add: min_def)
    then show ?thesis using l' by (metis fst_conv)
  qed
  then show ?thesis using l by blast
qed

text \<open>
  A round over a link that is up empties the spool. After any such run, one more
  synchronisation while the link is up leaves nothing pending, and the gateway's log of the device
  is then the whole sequence of emitted events.
\<close>

theorem audit_sync_complete:
  assumes "ed25519_correct (dv_ed v)"
    and "dm_audit d0 = spool_with_sink []" "lb_pushed (gs_link gs0) = []"
    and "\<forall>ev \<in> set evs. \<not> own_confirm ev" "foldl (device_step v co) (gs0, d0) evs = (gs, d)"
    and "lb_online (gs_link gs)" "sync_once v loopback_link_ops co gs d now = (gs', d', rep)"
    and "length (sink_log d') < 2 ^ 64"
    and "l0 = register_device ledger_new dev (dk_public_key (dv_ed v) (gs_device_key gs0))"
    and "bs = map (Pair dev) (lb_pushed (gs_link gs'))"
  shows "as_pending (dm_audit d') = [] \<and>
    (\<exists>l. ingest_all (dv_sha v) (dv_ed v) (dv_event v) l0 bs = (l, bs) \<and> events_for l dev = sink_log d')"
proof -
  have "foldl (device_step v co) (gs0, d0) (evs @ [DevSync now]) = (gs', d')"
    using assms(5,7) by simp
  moreover have "\<forall>ev \<in> set (evs @ [DevSync now]). \<not> own_confirm ev" using assms(4) by simp
  ultimately have "delivered v l0 dev (gs_device_key gs0) (gs', d')"
    using delivered_run[OF delivered_start] assms(1,2,3,8,9) by blast
  then obtain l where l: "ingest_all (dv_sha v) (dv_ed v) (dv_event v) l0 bs = (l, bs)"
    "sink_log d' = events_for l dev @ map se_event (as_pending (dm_audit d'))"
    unfolding delivered_iff assms(10) using meets_sink_log by blast
  have "as_forward (dm_audit d) \<noteq> None"
    using run_forward[OF _ assms(4,5)] assms(2) by (simp add: spool_with_sink_def)
  then have "length (sink_log d) < 2 ^ 64"
    using device_step_log[of v co gs d "DevSync now" gs' d'] assms(7,8) by simp
  then have "as_pending (dm_audit d') = []"
    using sync_flushes[OF _ assms(6,7,8)] delivered_run[OF delivered_start assms(4,1,5)] assms(2,3) by blast
  with l show ?thesis by simp
qed

section \<open>Witnesses\<close>

definition demo_sync :: "(loopback_link, mem_checkpoint_store) gateway_sync" where
  "demo_sync = \<lparr>gs_link = \<lparr>lb_inbound = [], lb_pushed = [], lb_online = True\<rparr>,
     gs_device_key = device_key_from_seed [5], gs_store = None\<rparr>"

abbreviation "demo_copy \<equiv> ClipboardTransfer Work Personal PlainText"

definition denied :: "(mem_key_store, mem_backing, loopback_tunnel) daemon" where
  "denied = fst (decide_action demo_daemon_env demo_daemon demo_copy 100)"

lemma denied_verdict:
  "\<exists>e. sink_log denied = [e] \<and> ae_action e = ClipboardBlocked"
  by (simp add: denied_def decide_action_def demo_daemon_def set_policy_observer_def daemon_new_def decide_def
      restrictive_default_def work_to_personal_def is_allow_def verdict_deny_def verdict_of_def should_audit_def
      sink_log_def spool_emit_def spool_with_sink_def Let_def audit_event_new_def)

lemma demo_sync_log:
  assumes "sync_once demo_daemon_env loopback_link_ops mem_checkpoint_ops demo_sync denied now = (gs, d, rep)"
  shows "sink_log d = sink_log denied" "lb_online (gs_link gs)"
  using lbk.sync_effect(2,5)[unfolded lbk_ops, OF assms refl]
  by (auto simp: demo_sync_def sink_log_def confirm_through_def)

text \<open>One denied copy, then one round over a link that is up.\<close>

theorem audit_end_to_end_witness:
  "\<exists>l gs d. foldl (device_step demo_daemon_env mem_checkpoint_ops) (demo_sync, demo_daemon)
       [DevOp (OpEvent (EvDecision demo_copy) 100), DevSync 101] = (gs, d) \<and>
     length (sink_log d) = 1 \<and> sink_log d = events_for l (DeviceId 1) @ map se_event (as_pending (dm_audit d))"
proof -
  obtain gs d rep where s: "sync_once demo_daemon_env loopback_link_ops mem_checkpoint_ops demo_sync denied 101 = (gs, d, rep)"
    by (cases "sync_once demo_daemon_env loopback_link_ops mem_checkpoint_ops demo_sync denied 101") auto
  have r: "foldl (device_step demo_daemon_env mem_checkpoint_ops) (demo_sync, demo_daemon)
       [DevOp (OpEvent (EvDecision demo_copy) 100), DevSync 101] = (gs, d)"
    using s by (simp add: denied_def split_beta)
  have n: "length (sink_log d) = 1" using demo_sync_log(1)[OF s] denied_verdict by auto
  have "dm_audit demo_daemon = spool_with_sink []" "lb_pushed (gs_link demo_sync) = []"
    "ed25519_correct (dv_ed demo_daemon_env)"
    by (simp_all add: demo_daemon_def set_policy_observer_def daemon_new_def demo_sync_def demo_daemon_env_def ed_demo_correct)
  from audit_end_to_end[OF this(3,1,2) _ r _ refl refl, of "DeviceId 1"] n r show ?thesis by auto
qed

theorem audit_sync_complete_witness:
  "\<exists>l e gs d rep. sync_once demo_daemon_env loopback_link_ops mem_checkpoint_ops demo_sync denied 101 = (gs, d, rep) \<and>
     as_pending (dm_audit d) = [] \<and> events_for l (DeviceId 1) = [e] \<and> ae_action e = ClipboardBlocked"
proof -
  obtain gs d rep where s: "sync_once demo_daemon_env loopback_link_ops mem_checkpoint_ops demo_sync denied 101 = (gs, d, rep)"
    by (cases "sync_once demo_daemon_env loopback_link_ops mem_checkpoint_ops demo_sync denied 101") auto
  have r: "foldl (device_step demo_daemon_env mem_checkpoint_ops) (demo_sync, demo_daemon)
       [DevOp (OpEvent (EvDecision demo_copy) 100)] = (demo_sync, denied)"
    by (simp add: denied_def split_beta)
  obtain e where e: "sink_log d = [e]" "ae_action e = ClipboardBlocked"
    using demo_sync_log(1)[OF s] denied_verdict by auto
  have i: "dm_audit demo_daemon = spool_with_sink []" "lb_pushed (gs_link demo_sync) = []"
    "lb_online (gs_link demo_sync)" "ed25519_correct (dv_ed demo_daemon_env)"
    by (simp_all add: demo_daemon_def set_policy_observer_def daemon_new_def demo_sync_def demo_daemon_env_def ed_demo_correct)
  from audit_sync_complete[OF i(4,1,2) _ r i(3) s _ refl refl, of "DeviceId 1"] e s show ?thesis by auto
qed

end
