(* ===== verification/Rust_Hex.thy ===== *)
theory Rust_Hex
  imports Rust_Num
begin

text \<open>
  Hexadecimal keys as the command line and the HTTP interface read and write them:
  \<open>u8::from_str_radix\<close> on two-byte slices of a string. A slice \<open>&s[i..j]\<close> panics where \<open>s.get(i..j)\<close>
  gives \<open>None\<close>, at an index inside a multi-byte character, so the two readings differ there.
\<close>

datatype 'a outcome = Panicked | Returned 'a

section \<open>Slices\<close>

definition continuation_byte :: "char \<Rightarrow> bool" where
  "continuation_byte c = (128 \<le> (of_char c :: nat) \<and> (of_char c :: nat) < 192)"

definition is_char_boundary :: "string \<Rightarrow> nat \<Rightarrow> bool" where
  "is_char_boundary s i = (i = 0 \<or> i = length s \<or> i < length s \<and> \<not> continuation_byte (s ! i))"

definition str_get :: "string \<Rightarrow> nat \<Rightarrow> nat \<Rightarrow> string option" where
  "str_get s i j =
     (if i \<le> j \<and> j \<le> length s \<and> is_char_boundary s i \<and> is_char_boundary s j
      then Some (take (j - i) (drop i s)) else None)"

section \<open>Digits\<close>

definition hex_value :: "char \<Rightarrow> nat option" where
  "hex_value c =
     (let n = (of_char c :: nat)
      in if 48 \<le> n \<and> n \<le> 57 then Some (n - 48)
         else if 97 \<le> n \<and> n \<le> 102 then Some (n - 87)
         else if 65 \<le> n \<and> n \<le> 70 then Some (n - 55)
         else None)"

fun hex_digits :: "nat \<Rightarrow> string \<Rightarrow> nat option" where
  "hex_digits acc [] = Some acc"
| "hex_digits acc (c # cs) =
     (case hex_value c of None \<Rightarrow> None | Some d \<Rightarrow> hex_digits (acc * 16 + d) cs)"

text \<open>\<open>u8::from_str_radix(s, 16)\<close>: an optional plus sign, at least one digit, at most 255.\<close>

definition u8_from_hex :: "string \<Rightarrow> u8 option" where
  "u8_from_hex s =
     (let t = (case s of c # r \<Rightarrow> (if c = CHR ''+'' then r else s) | [] \<Rightarrow> s)
      in if t = [] then None
         else case hex_digits 0 t of None \<Rightarrow> None | Some n \<Rightarrow> if n < 256 then Some (of_nat n) else None)"

section \<open>Keys\<close>

text \<open>The loop over \<open>s.get(i * 2..i * 2 + 2)?\<close>, from byte \<open>i\<close> on for \<open>n\<close> bytes.\<close>

fun get_hex_bytes :: "string \<Rightarrow> nat \<Rightarrow> nat \<Rightarrow> bytes option" where
  "get_hex_bytes s i 0 = Some []"
| "get_hex_bytes s i (Suc n) =
     (case str_get s (i * 2) (i * 2 + 2) of
        None \<Rightarrow> None
      | Some t \<Rightarrow>
          (case u8_from_hex t of
             None \<Rightarrow> None
           | Some b \<Rightarrow> map_option ((#) b) (get_hex_bytes s (i + 1) n)))"

text \<open>The loop over \<open>&s[i * 2..i * 2 + 2]\<close>.\<close>

fun slice_hex_bytes :: "string \<Rightarrow> nat \<Rightarrow> nat \<Rightarrow> bytes option outcome" where
  "slice_hex_bytes s i 0 = Returned (Some [])"
| "slice_hex_bytes s i (Suc n) =
     (case str_get s (i * 2) (i * 2 + 2) of
        None \<Rightarrow> Panicked
      | Some t \<Rightarrow>
          (case u8_from_hex t of
             None \<Rightarrow> Returned None
           | Some b \<Rightarrow>
               (case slice_hex_bytes s (i + 1) n of
                  Returned r \<Rightarrow> Returned (map_option ((#) b) r)
                | Panicked \<Rightarrow> Panicked)))"

definition parse_pubkey :: "string \<Rightarrow> bytes option" where
  "parse_pubkey s = (if length s \<noteq> 64 then None else get_hex_bytes s 0 32)"

definition parse_key :: "string \<Rightarrow> bytes option outcome" where
  "parse_key s = (if length s \<noteq> 64 then Returned None else slice_hex_bytes s 0 32)"

definition parse_dek :: "nat \<Rightarrow> string \<Rightarrow> bytes option outcome" where
  "parse_dek dek_len s = (if length s \<noteq> dek_len * 2 then Returned None else slice_hex_bytes s 0 dek_len)"

definition parse_hex32 :: "string \<Rightarrow> bytes option outcome" where
  "parse_hex32 s =
     (let s = trim s in if length s \<noteq> 64 then Returned None else slice_hex_bytes s 0 32)"

definition nibble :: "u8 \<Rightarrow> char" where
  "nibble n = (if n \<le> 9 then char_of (48 + unat n) else char_of (97 + (unat n - 10)))"

definition hex32 :: "bytes \<Rightarrow> string" where
  "hex32 bs = concat (map (\<lambda>b. [nibble (drop_bit 4 b), nibble (b AND 0x0F)]) bs)"

section \<open>Round trip\<close>

lemma nibble_value: "n < 16 \<Longrightarrow> hex_value (nibble n) = Some (unat n)"
proof -
  assume "n < 16"
  then have u: "unat n < 16" by (simp add: word_less_nat_alt)
  show ?thesis
  proof (cases "n \<le> 9")
    case True
    then have "unat n \<le> 9" by (simp add: word_le_nat_alt)
    then show ?thesis using True by (simp add: nibble_def hex_value_def Let_def)
  next
    case False
    then have "9 < unat n" by (simp add: word_le_nat_alt)
    then show ?thesis using False u by (simp add: nibble_def hex_value_def Let_def)
  qed
qed

lemma high_nibble: "drop_bit 4 (b :: u8) < 16" "unat (drop_bit 4 (b :: u8)) = unat b div 16"
proof -
  show u: "unat (drop_bit 4 b) = unat b div 16" by (simp add: drop_bit_eq_div unat_div)
  have "unat b < 256" using unsigned_less[of b, where 'a = nat] by simp
  then show "drop_bit 4 b < 16" by (simp add: word_less_nat_alt u)
qed

lemma low_nibble: "(b :: u8) AND 0x0F < 16" "unat ((b :: u8) AND 0x0F) = unat b mod 16"
proof -
  have "b AND 0x0F = take_bit 4 b" by (simp add: take_bit_eq_mask mask_eq_exp_minus_1)
  then show u: "unat (b AND 0x0F) = unat b mod 16" by (simp add: take_bit_eq_mod unat_mod)
  show "b AND 0x0F < 16" by (simp add: word_less_nat_alt u)
qed

lemma nibble_not_plus: "n < 16 \<Longrightarrow> nibble n \<noteq> CHR ''+''"
  using nibble_value[of n] by (auto simp: hex_value_def)

lemma u8_from_hex_nibbles: "u8_from_hex [nibble (drop_bit 4 b), nibble (b AND 0x0F)] = Some b"
proof -
  have n: "unat b div 16 * 16 + unat b mod 16 = unat b" by simp
  have "unat b < 256" using unsigned_less[of b, where 'a = nat] by simp
  then show ?thesis
    using nibble_value[OF high_nibble(1)] nibble_value[OF low_nibble(1)] nibble_not_plus[OF high_nibble(1)]
    by (simp add: u8_from_hex_def high_nibble(2) low_nibble(2) n)
qed

lemma hex32_simps [simp]: "hex32 [] = []"
  "hex32 (b # bs) = nibble (drop_bit 4 b) # nibble (b AND 0x0F) # hex32 bs"
  by (simp_all add: hex32_def)

lemma hex32_length [simp]: "length (hex32 bs) = 2 * length bs"
  by (induction bs) auto

lemma hex_value_ascii: "hex_value c = Some n \<Longrightarrow> \<not> continuation_byte c"
  by (auto simp: hex_value_def continuation_byte_def Let_def split: if_splits)

lemma hex32_ascii: "c \<in> set (hex32 bs) \<Longrightarrow> \<not> continuation_byte c"
  using hex_value_ascii nibble_value[OF high_nibble(1)] nibble_value[OF low_nibble(1)]
  by (induction bs) auto

lemma hex32_boundary: "i \<le> length (hex32 bs) \<Longrightarrow> is_char_boundary (hex32 bs) i"
  using hex32_ascii[of "hex32 bs ! i" bs] by (cases "i = length (hex32 bs)") (auto simp: is_char_boundary_def)

lemma hex32_drop: "drop (i * 2) (hex32 bs) = hex32 (drop i bs)"
  by (induction bs arbitrary: i) (auto simp: drop_Cons split: nat.split)

lemma hex32_slice:
  assumes "i < length bs"
  shows "str_get (hex32 bs) (i * 2) (i * 2 + 2) = Some [nibble (drop_bit 4 (bs ! i)), nibble (bs ! i AND 0x0F)]"
proof -
  have "drop i bs = bs ! i # drop (Suc i) bs" using assms by (simp add: Cons_nth_drop_Suc)
  then have d: "drop (i * 2) (hex32 bs) = nibble (drop_bit 4 (bs ! i)) # nibble (bs ! i AND 0x0F) # hex32 (drop (Suc i) bs)"
    by (simp add: hex32_drop)
  have "i * 2 + 2 \<le> length (hex32 bs)" using assms by simp
  then show ?thesis using hex32_boundary[of "i * 2" bs] hex32_boundary[of "i * 2 + 2" bs]
    by (simp add: str_get_def d del: add_2_eq_Suc add_2_eq_Suc')
qed

lemma get_hex32: "i + n = length bs \<Longrightarrow> get_hex_bytes (hex32 bs) i n = Some (drop i bs)"
proof (induction n arbitrary: i)
  case (Suc n)
  then have i: "i < length bs" by simp
  then have "drop i bs = bs ! i # drop (i + 1) bs" by (simp add: Cons_nth_drop_Suc)
  then show ?case using Suc.IH[of "i + 1"] Suc.prems by (simp add: hex32_slice[OF i] u8_from_hex_nibbles del: add_2_eq_Suc add_2_eq_Suc')
qed simp

lemma slice_get:
  "slice_hex_bytes s i n = Returned r \<Longrightarrow> get_hex_bytes s i n = r"
  by (induction n arbitrary: i r) (auto split: option.splits outcome.splits)

lemma slice_hex32: "i + n = length bs \<Longrightarrow> slice_hex_bytes (hex32 bs) i n = Returned (Some (drop i bs))"
proof (induction n arbitrary: i)
  case (Suc n)
  then have i: "i < length bs" by simp
  then have "drop i bs = bs ! i # drop (i + 1) bs" by (simp add: Cons_nth_drop_Suc)
  then show ?case using Suc.IH[of "i + 1"] Suc.prems by (simp add: hex32_slice[OF i] u8_from_hex_nibbles del: add_2_eq_Suc add_2_eq_Suc')
qed simp

lemma parse_pubkey_hex32: "length k = 32 \<Longrightarrow> parse_pubkey (hex32 k) = Some k"
  using get_hex32[of 0 32 k] by (simp add: parse_pubkey_def)

lemma parse_key_hex32: "length k = 32 \<Longrightarrow> parse_key (hex32 k) = Returned (Some k)"
  using slice_hex32[of 0 32 k] by (simp add: parse_key_def)

end
