(* ===== verification/Enrollment.thy ===== *)
theory Enrollment
  imports Daemon Rust_Hex
begin

text \<open>
  Enrollment of a device (\<open>clave-daemon\<close>: \<open>enroll.rs\<close>, \<open>enrollment_store.rs\<close>, \<open>enroll_client.rs\<close>): a grant
  of the gateway is checked against the pinned key of the tenant and its volume key opened, the
  client polls for approval and completes, the record is stored in a file, and the daemon boots from
  it. Signatures, key wrapping, key agreement and the codecs are the arguments of \<open>enroll_env\<close>; the
  transport to the gateway is a state with the three requests as operations.
\<close>

section \<open>Accepting a grant (enroll.rs)\<close>

record enroll_env =
  ne_ed :: ed25519
  ne_envelope :: "envelope codec"
  ne_sha :: sha256
  ne_kw :: aes_kw
  ne_x :: x25519

datatype device_volume_key = Symmetric bytes | Sealed device_sealing_key

record device_enrollment =
  de_tenant :: tenant_id
  de_pinned_tenant_key :: bytes
  de_volume_key :: device_volume_key

record accepted_enrollment =
  ac_verifier :: gateway_verifier
  ac_policy :: "policy_bundle option"
  ac_volume :: "(container_id \<times> dek) option"

datatype enroll_error =
    BadTenantKey
  | PolicyRejected proto_error
  | NotAPolicyCommand
  | MalformedVolumeKey
  | VolumeKeyUnwrap
  | UnexpectedSealedKey
  | UnexpectedSymmetricKey

definition open_volume_key ::
  "enroll_env \<Rightarrow> device_enrollment \<Rightarrow> wrapped_volume_key \<Rightarrow> enroll_error + container_id \<times> dek" where
  "open_volume_key v de vk =
     (if length (wk_wrapped_dek vk) \<noteq> WRAPPED_DEK_LEN then Inl MalformedVolumeKey
      else
        let wrapped = WrappedDek (wk_wrapped_dek vk)
        in rbind
          (case (de_volume_key de, wk_ephemeral_pub vk) of
             (Sealed sealing, Some ephemeral_pub) \<Rightarrow>
               map_err (\<lambda>_. VolumeKeyUnwrap)
                 (open_dek (ne_sha v) (ne_kw v) (ne_x v) sealing
                    \<lparr>sd_ephemeral_pub = ephemeral_pub, sd_wrapped = wrapped\<rparr>)
           | (Symmetric k, None) \<Rightarrow> map_err (\<lambda>_. VolumeKeyUnwrap) (kek_unwrap (ne_kw v) (Kek k) wrapped)
           | (Symmetric _, Some _) \<Rightarrow> Inl UnexpectedSealedKey
           | (Sealed _, None) \<Rightarrow> Inl UnexpectedSymmetricKey)
          (\<lambda>d. Inr (ContainerId (wk_container vk), d)))"

definition enrollment_accept ::
  "enroll_env \<Rightarrow> device_enrollment \<Rightarrow> enrollment_grant \<Rightarrow> unix_time \<Rightarrow> enroll_error + accepted_enrollment" where
  "enrollment_accept v de grant now =
     rbind (map_err (\<lambda>_. BadTenantKey) (verifier_new (ne_ed v) (de_tenant de) (de_pinned_tenant_key de))) (\<lambda>gv.
     rbind
       (case eg_policy grant of
          Some sc \<Rightarrow>
            (case verify (ne_ed v) (ne_envelope v) gv sc now of
               (_, Inl e) \<Rightarrow> Inl (PolicyRejected e)
             | (gv', Inr (UpdatePolicy bundle)) \<Rightarrow> Inr (gv', Some bundle)
             | (_, Inr _) \<Rightarrow> Inl NotAPolicyCommand)
        | None \<Rightarrow> Inr (gv, None)) (\<lambda>(gv, policy).
     rbind
       (case eg_volume_key grant of
          Some vk \<Rightarrow> rbind (open_volume_key v de vk) (\<lambda>x. Inr (Some x))
        | None \<Rightarrow> Inr None) (\<lambda>volume.
       Inr \<lparr>ac_verifier = gv, ac_policy = policy, ac_volume = volume\<rparr>)))"

section \<open>The enrollment record (enrollment_store.rs)\<close>

record enrollment_record =
  er_tenant :: tenant_id
  er_pinned_tenant_key :: bytes
  er_policy :: policy_bundle
  er_volume_key :: "wrapped_volume_key option"
  er_device_signing_seed :: bytes
  er_device_kek :: "bytes option"
  er_tls :: "tls_credentials option"

definition record_open_volume ::
  "enroll_env \<Rightarrow> enrollment_record \<Rightarrow> device_sealing_key option \<Rightarrow> unix_time \<Rightarrow> enroll_error + container_id \<times> dek" where
  "record_open_volume v rec sealing now =
     rbind
       (case (er_device_kek rec, sealing) of
          (Some k, _) \<Rightarrow> Inr (Symmetric k)
        | (None, Some s) \<Rightarrow> Inr (Sealed s)
        | (None, None) \<Rightarrow> Inl UnexpectedSymmetricKey) (\<lambda>device_key.
     rbind
       (enrollment_accept v
          \<lparr>de_tenant = er_tenant rec, de_pinned_tenant_key = er_pinned_tenant_key rec, de_volume_key = device_key\<rparr>
          \<lparr>eg_policy = None, eg_volume_key = er_volume_key rec\<rparr> now) (\<lambda>acc.
       ok_or (ac_volume acc) MalformedVolumeKey))"

definition DEV_TENANT_SEED :: bytes where "DEV_TENANT_SEED = replicate 32 0x6A"
definition DEV_DEVICE_KEK :: bytes where "DEV_DEVICE_KEK = replicate 32 0x4B"
definition DEV_DEK :: bytes where "DEV_DEK = replicate DEK_LEN 0xDE"
definition DEV_DEVICE_SIGNING_SEED :: bytes where "DEV_DEVICE_SIGNING_SEED = replicate 32 0xD5"

text \<open>\<open>expect\<close> on the grant the function issued to itself: \<open>Inl\<close> is the panic.\<close>

definition bootstrap_dev_enrollment ::
  "enroll_env \<Rightarrow> policy_bundle \<Rightarrow> u128 \<Rightarrow> unix_time \<Rightarrow> enroll_error + enrollment_record" where
  "bootstrap_dev_enrollment v policy container now =
     (let signer = signing_key_from_seed (TenantId 1) DEV_TENANT_SEED;
          sc = gk_sign (ne_ed v) (ne_envelope v) signer 1 now (UpdatePolicy policy);
          wrapped = kek_wrap (ne_kw v) (Kek DEV_DEVICE_KEK) (Dek DEV_DEK);
          volume_key = \<lparr>wk_container = container, wk_wrapped_dek = wrapped_bytes wrapped, wk_ephemeral_pub = None\<rparr>
      in rbind
        (enrollment_accept v
           \<lparr>de_tenant = TenantId 1, de_pinned_tenant_key = gk_public_key (ne_ed v) signer,
            de_volume_key = Symmetric DEV_DEVICE_KEK\<rparr>
           \<lparr>eg_policy = Some sc, eg_volume_key = Some volume_key\<rparr> now) (\<lambda>acc.
        Inr \<lparr>er_tenant = TenantId 1, er_pinned_tenant_key = gk_public_key (ne_ed v) signer,
             er_policy = (case ac_policy acc of Some p \<Rightarrow> p | None \<Rightarrow> policy),
             er_volume_key = Some volume_key, er_device_signing_seed = DEV_DEVICE_SIGNING_SEED,
             er_device_kek = Some DEV_DEVICE_KEK, er_tls = None\<rparr>))"

text \<open>The file, and whether writing the temporary file and renaming it succeed.\<close>

record file_enrollment_store =
  fe_file :: "bytes option"
  fe_write_ok :: bool
  fe_rename_ok :: bool

definition enrollment_load :: "enrollment_record codec \<Rightarrow> file_enrollment_store \<Rightarrow> enrollment_record option" where
  "enrollment_load rc s = (case fe_file s of None \<Rightarrow> None | Some b \<Rightarrow> cd_dec rc b)"

definition enrollment_save ::
  "enrollment_record codec \<Rightarrow> file_enrollment_store \<Rightarrow> enrollment_record \<Rightarrow> file_enrollment_store" where
  "enrollment_save rc s rec =
     (if fe_write_ok s \<and> fe_rename_ok s then s\<lparr>fe_file := Some (cd_enc rc rec)\<rparr> else s)"

record booted_enrollment =
  bt_record :: enrollment_record
  bt_store :: file_enrollment_store
  bt_policy :: policy_bundle
  bt_container :: container_id
  bt_dek :: dek
  bt_gateway :: gateway_verifier
  bt_device_signer :: device_signing_key
  bt_checkpoint_store :: file_checkpoint_store
  bt_bootstrapped :: bool

text \<open>
  The two files of the state directory are arguments; \<open>demo\<close> is the policy that the bootstrap closure
  would give. A failed \<open>expect\<close> is \<open>Inl\<close> with its message.
\<close>

definition boot_enrollment ::
  "enroll_env \<Rightarrow> enrollment_record codec \<Rightarrow> checkpoint codec \<Rightarrow> file_enrollment_store \<Rightarrow> file_checkpoint_store
     \<Rightarrow> u128 \<Rightarrow> policy_bundle \<Rightarrow> unix_time \<Rightarrow> string + booted_enrollment" where
  "boot_enrollment v rc cc store checkpoint_store container demo now =
     rbind
       (case enrollment_load rc store of
          Some rec \<Rightarrow> Inr (rec, store, False)
        | None \<Rightarrow>
            (case bootstrap_dev_enrollment v demo container now of
               Inl _ \<Rightarrow> Inl ''locally issued dev grant must accept''
             | Inr rec \<Rightarrow> Inr (rec, enrollment_save rc store rec, True))) (\<lambda>(rec, store, bootstrapped).
     rbind (map_err (\<lambda>_. ''open enrolled Clave Disk key'') (record_open_volume v rec None now)) (\<lambda>(container, d).
       let high_water = (case file_checkpoint_load cc checkpoint_store of
             Some c \<Rightarrow> cp_gateway_high_water c | None \<Rightarrow> 0)
       in rbind (map_err (\<lambda>_. ''valid pinned tenant key'')
              (verifier_new (ne_ed v) (er_tenant rec) (er_pinned_tenant_key rec))) (\<lambda>gateway.
            Inr \<lparr>bt_record = rec, bt_store = store, bt_policy = er_policy rec, bt_container = container, bt_dek = d,
                 bt_gateway = with_high_water gateway high_water,
                 bt_device_signer = device_key_from_seed (er_device_signing_seed rec),
                 bt_checkpoint_store = checkpoint_store, bt_bootstrapped = bootstrapped\<rparr>)))"

section \<open>The enrollment client (enroll_client.rs)\<close>

record client_device_auth =
  dx_user_code :: string
  dx_verification_uri :: string
  dx_device_code :: string

datatype poll_status = PollPending | PollApproved

datatype completion_status =
    CompletionStatusPending
  | CompletionStatusApproved "signed_command option" "wrapped_volume_key option" "tls_credentials option"

record complete_request =
  cr_workspace :: u64
  cr_device_code :: string
  cr_device_pubkey :: string
  cr_device_wrapping_key :: "string option"

record enrollment_config =
  ec_workspace :: u64
  ec_tenant :: tenant_id
  ec_pinned_tenant_key :: bytes
  ec_device_identity_pubkey :: bytes
  ec_device_wrapping_key :: bytes
  ec_device_signing_seed :: bytes
  ec_max_polls :: nat

datatype enroll_client_error =
    Transport string
  | TimedOut
  | NotApproved
  | NoPolicy
  | Accept enroll_error

record 't enrollment_transport =
  et_start :: "'t \<Rightarrow> u64 \<Rightarrow> 't \<times> (enroll_client_error + client_device_auth)"
  et_poll :: "'t \<Rightarrow> u64 \<Rightarrow> string \<Rightarrow> 't \<times> (enroll_client_error + poll_status)"
  et_complete :: "'t \<Rightarrow> complete_request \<Rightarrow> 't \<times> (enroll_client_error + completion_status)"

text \<open>The calls of \<open>on_prompt\<close> and \<open>wait\<close>, in order.\<close>

datatype enroll_effect = Prompt client_device_auth | Wait

function poll_loop ::
  "'t enrollment_transport \<Rightarrow> enrollment_config \<Rightarrow> string \<Rightarrow> 't \<Rightarrow> nat
     \<Rightarrow> 't \<times> enroll_effect list \<times> (enroll_client_error + unit)" where
  "poll_loop tr cfg code t polls =
     (case et_poll tr t (ec_workspace cfg) code of
        (t, Inl e) \<Rightarrow> (t, [], Inl e)
      | (t, Inr PollApproved) \<Rightarrow> (t, [], Inr ())
      | (t, Inr PollPending) \<Rightarrow>
          (if ec_max_polls cfg \<le> polls + 1 then (t, [], Inl TimedOut)
           else let (t, eff, r) = poll_loop tr cfg code t (polls + 1) in (t, Wait # eff, r)))"
  by pat_completeness auto
termination by (relation "measure (\<lambda>(tr, cfg, code, t, polls). ec_max_polls cfg - polls)") auto

declare poll_loop.simps [simp del]

definition client_accept ::
  "enroll_env \<Rightarrow> enrollment_config \<Rightarrow> completion_status \<Rightarrow> unix_time \<Rightarrow> enroll_client_error + enrollment_record" where
  "client_accept v cfg completion now =
     (case completion of
        CompletionStatusPending \<Rightarrow> Inl NotApproved
      | CompletionStatusApproved policy volume_key tls \<Rightarrow>
          rbind (map_err Accept
            (enrollment_accept v
               \<lparr>de_tenant = ec_tenant cfg, de_pinned_tenant_key = ec_pinned_tenant_key cfg,
                de_volume_key = Symmetric (ec_device_wrapping_key cfg)\<rparr>
               \<lparr>eg_policy = policy, eg_volume_key = volume_key\<rparr> now)) (\<lambda>acc.
          rbind (ok_or (ac_policy acc) NoPolicy) (\<lambda>policy.
            Inr \<lparr>er_tenant = ec_tenant cfg, er_pinned_tenant_key = ec_pinned_tenant_key cfg, er_policy = policy,
                 er_volume_key = volume_key, er_device_signing_seed = ec_device_signing_seed cfg,
                 er_device_kek = Some (ec_device_wrapping_key cfg), er_tls = tls\<rparr>)))"

definition enroll ::
  "enroll_env \<Rightarrow> 't enrollment_transport \<Rightarrow> 't \<Rightarrow> enrollment_config \<Rightarrow> unix_time
     \<Rightarrow> 't \<times> enroll_effect list \<times> (enroll_client_error + enrollment_record)" where
  "enroll v tr t cfg now =
     (case et_start tr t (ec_workspace cfg) of
        (t, Inl e) \<Rightarrow> (t, [], Inl e)
      | (t, Inr auth) \<Rightarrow>
          (case poll_loop tr cfg (dx_device_code auth) t 0 of
             (t, eff, Inl e) \<Rightarrow> (t, Prompt auth # eff, Inl e)
           | (t, eff, Inr _) \<Rightarrow>
               (case et_complete tr t
                    \<lparr>cr_workspace = ec_workspace cfg, cr_device_code = dx_device_code auth,
                     cr_device_pubkey = hex32 (ec_device_identity_pubkey cfg),
                     cr_device_wrapping_key = Some (hex32 (ec_device_wrapping_key cfg))\<rparr> of
                  (t, Inl e) \<Rightarrow> (t, Prompt auth # eff, Inl e)
                | (t, Inr completion) \<Rightarrow> (t, Prompt auth # eff, client_accept v cfg completion now))))"

section \<open>The command line\<close>

text \<open>\<open>{:?}\<close> of the errors, as \<open>derive(Debug)\<close> prints them.\<close>

fun proto_error_debug :: "proto_error \<Rightarrow> string" where
  "proto_error_debug BadSignature = ''BadSignature''"
| "proto_error_debug (Replay l g) = ''Replay { last: '' @ dec_of_word l @ '', got: '' @ dec_of_word g @ '' }''"
| "proto_error_debug (Stale i n) = ''Stale { issued_at: '' @ dec_of_word i @ '', now: '' @ dec_of_word n @ '' }''"
| "proto_error_debug (WrongTenant (TenantId p) (TenantId g)) =
     ''WrongTenant { pinned: TenantId('' @ dec_of_word p @ ''), got: TenantId('' @ dec_of_word g @ '') }''"
| "proto_error_debug (UnsupportedProto g) = ''UnsupportedProto { got: '' @ dec_of_word g @ '' }''"
| "proto_error_debug Malformed = ''Malformed''"

fun enroll_error_debug :: "enroll_error \<Rightarrow> string" where
  "enroll_error_debug BadTenantKey = ''BadTenantKey''"
| "enroll_error_debug (PolicyRejected e) = ''PolicyRejected('' @ proto_error_debug e @ '')''"
| "enroll_error_debug NotAPolicyCommand = ''NotAPolicyCommand''"
| "enroll_error_debug MalformedVolumeKey = ''MalformedVolumeKey''"
| "enroll_error_debug VolumeKeyUnwrap = ''VolumeKeyUnwrap''"
| "enroll_error_debug UnexpectedSealedKey = ''UnexpectedSealedKey''"
| "enroll_error_debug UnexpectedSymmetricKey = ''UnexpectedSymmetricKey''"

fun client_error_display :: "enroll_client_error \<Rightarrow> string" where
  "client_error_display (Transport e) = ''enrollment transport error: '' @ e"
| "client_error_display TimedOut = ''enrollment timed out waiting for approval''"
| "client_error_display NotApproved = ''enrollment was not approved''"
| "client_error_display NoPolicy = ''enrollment grant carried no policy''"
| "client_error_display (Accept e) = ''enrollment grant rejected: '' @ enroll_error_debug e"

record enroll_args =
  ea_gateway :: "string option"
  ea_workspace :: "u64 option"
  ea_tenant :: "u64 option"
  ea_tenant_key_hex :: "string option"
  ea_state_dir :: "string option"
  ea_tag :: string

definition enroll_args_default :: enroll_args where
  "enroll_args_default = \<lparr>ea_gateway = None, ea_workspace = None, ea_tenant = None, ea_tenant_key_hex = None,
     ea_state_dir = None, ea_tag = ''dev''\<rparr>"

text \<open>\<open>it.next()\<close>, and what is left.\<close>

fun next_arg :: "string list \<Rightarrow> string option" where
  "next_arg [] = None"
| "next_arg (a # _) = Some a"

function parse_enroll_args :: "enroll_args \<Rightarrow> string list \<Rightarrow> string + enroll_args" where
  "parse_enroll_args ea [] = Inr ea"
| "parse_enroll_args ea (a # rest) =
     (if a = ''--gateway'' then parse_enroll_args (ea\<lparr>ea_gateway := next_arg rest\<rparr>) (tl rest)
      else if a = ''--workspace'' then
        parse_enroll_args (ea\<lparr>ea_workspace := Option.bind (next_arg rest) parse_u64\<rparr>) (tl rest)
      else if a = ''--tenant'' then
        parse_enroll_args (ea\<lparr>ea_tenant := Option.bind (next_arg rest) parse_u64\<rparr>) (tl rest)
      else if a = ''--tenant-key'' then parse_enroll_args (ea\<lparr>ea_tenant_key_hex := next_arg rest\<rparr>) (tl rest)
      else if a = ''--state-dir'' then parse_enroll_args (ea\<lparr>ea_state_dir := next_arg rest\<rparr>) (tl rest)
      else if a = ''--tag'' then
        parse_enroll_args (case next_arg rest of Some t \<Rightarrow> ea\<lparr>ea_tag := t\<rparr> | None \<Rightarrow> ea) (tl rest)
      else Inl (''unknown flag: '' @ a))"
  by pat_completeness auto
termination by (relation "measure (\<lambda>(ea, args). length args)") auto

text \<open>\<open>state_dir.join(format!("enrollment-{tag}.bin"))\<close> on a Unix path.\<close>

definition path_join :: "string \<Rightarrow> string \<Rightarrow> string" where
  "path_join dir name =
     (if dir = [] then name else if last dir = CHR ''/'' then dir @ name else dir @ ''/'' @ name)"

definition enrollment_path :: "string \<Rightarrow> string \<Rightarrow> string" where
  "enrollment_path state_dir tag = path_join state_dir (''enrollment-'' @ tag @ ''.bin'')"

definition enroll_config_of ::
  "enroll_args \<Rightarrow> bytes \<Rightarrow> bytes \<Rightarrow> bytes \<Rightarrow> (string + string \<times> enrollment_config \<times> string) outcome" where
  "enroll_config_of ea wrapping_key signing_seed identity_pubkey =
     (case (ea_gateway ea, ea_workspace ea, ea_tenant ea, ea_tenant_key_hex ea) of
        (None, _, _, _) \<Rightarrow> Returned (Inl ''--gateway <url> is required'')
      | (Some _, None, _, _) \<Rightarrow> Returned (Inl ''--workspace <id> is required'')
      | (Some _, Some _, None, _) \<Rightarrow> Returned (Inl ''--tenant <id> is required'')
      | (Some _, Some _, Some _, None) \<Rightarrow> Returned (Inl ''--tenant-key <64 hex> is required'')
      | (Some gateway, Some workspace, Some tenant, Some key) \<Rightarrow>
          (case parse_hex32 key of
             Panicked \<Rightarrow> Panicked
           | Returned None \<Rightarrow> Returned (Inl ''--tenant-key must be 64 hex chars'')
           | Returned (Some pinned) \<Rightarrow>
               (case ea_state_dir ea of
                  None \<Rightarrow> Returned (Inl ''--state-dir <path> is required'')
                | Some dir \<Rightarrow>
                    Returned (Inr (gateway,
                      \<lparr>ec_workspace = workspace, ec_tenant = TenantId tenant, ec_pinned_tenant_key = pinned,
                       ec_device_identity_pubkey = identity_pubkey, ec_device_wrapping_key = wrapping_key,
                       ec_device_signing_seed = signing_seed, ec_max_polls = 150\<rparr>, dir)))))"

text \<open>
  The files of the machine are a function from paths; connecting gives the transport's first state.
  The three random keys and the clock are arguments.
\<close>

definition run_enroll_cli ::
  "enroll_env \<Rightarrow> enrollment_record codec \<Rightarrow> 't enrollment_transport \<Rightarrow> (string \<Rightarrow> enroll_client_error + 't)
     \<Rightarrow> (string \<Rightarrow> file_enrollment_store) \<Rightarrow> string list \<Rightarrow> bytes \<Rightarrow> bytes \<Rightarrow> bytes \<Rightarrow> unix_time
     \<Rightarrow> ((string \<Rightarrow> file_enrollment_store) \<times> (string + unit)) outcome" where
  "run_enroll_cli v rc tr connect files args wrapping_key signing_seed identity_pubkey now =
     (case parse_enroll_args enroll_args_default args of
        Inl e \<Rightarrow> Returned (files, Inl e)
      | Inr ea \<Rightarrow>
          (case enroll_config_of ea wrapping_key signing_seed identity_pubkey of
             Panicked \<Rightarrow> Panicked
           | Returned (Inl e) \<Rightarrow> Returned (files, Inl e)
           | Returned (Inr (gateway, cfg, dir)) \<Rightarrow>
               (case connect gateway of
                  Inl e \<Rightarrow> Returned (files, Inl (client_error_display e))
                | Inr t \<Rightarrow>
                    (case enroll v tr t cfg now of
                       (_, _, Inl e) \<Rightarrow> Returned (files, Inl (client_error_display e))
                     | (_, _, Inr rec) \<Rightarrow>
                         (let path = enrollment_path dir (ea_tag ea)
                          in Returned (files(path := enrollment_save rc (files path) rec), Inr ()))))))"

end
