(* ===== verification/Mac_Volume.thy ===== *)
theory Mac_Volume
  imports Volume Rust_Hex
begin

text \<open>
  The Clave Disk on macOS (\<open>clave-mac\<close>: \<open>volume.rs\<close>, \<open>se_seal.rs\<close>): the passphrase of an encrypted
  sparse bundle, sealed to a Secure Enclave key and kept in the Keychain, and the mount that creates,
  attaches, detaches and wipes the bundle. The Keychain, the Security framework, the file system and
  the \<open>hdiutil\<close> and \<open>diskutil\<close> programs are the functions of \<open>mac_env\<close> on a state of the host. Each
  \<open>io::Error::other\<close> is a constructor of \<open>mac_error\<close>; a panic is \<open>MacPanic\<close>.
\<close>

section \<open>The host\<close>

datatype mac_error =
    OsError string
  | KeychainSetFailed string
  | EmptyBlob
  | SealedWrongLength
  | PlainWrongLength
  | UnknownCustodyTag u8
  | NoSeKey
  | RngFailed string
  | PassphraseMissing
  | MustBeSealed mac_error
  | HdiutilFailed "string list" string
  | DetachFailed string
  | SecErr string string
  | NoPublicHalf
  | ExportFailed
  | P256Length nat
  | EphemeralExportFailed
  | UnwrapFailed
  | MacPanic

datatype 'k se_search = SeResults "'k option list" | SeItemNotFound | SeSearchFailed string

record ('h, 'k, 'p) mac_env =
  os_var :: "'h \<Rightarrow> string \<Rightarrow> string option"
  os_random :: "'h \<Rightarrow> 'h \<times> (string + bytes)"
  os_exists :: "'h \<Rightarrow> string \<Rightarrow> bool"
  os_create_dir_all :: "'h \<Rightarrow> string \<Rightarrow> 'h \<times> (string + unit)"
  os_remove_dir_all :: "'h \<Rightarrow> string \<Rightarrow> 'h \<times> (string + unit)"
  os_hdiutil :: "'h \<Rightarrow> string list \<Rightarrow> bytes \<Rightarrow> 'h \<times> (string + bool \<times> string)"
  os_diskutil_info :: "'h \<Rightarrow> string \<Rightarrow> string + bool"
  kc_get :: "'h \<Rightarrow> string \<Rightarrow> bytes option"
  kc_set :: "'h \<Rightarrow> string \<Rightarrow> bytes \<Rightarrow> 'h \<times> (string + unit)"
  kc_delete :: "'h \<Rightarrow> string \<Rightarrow> 'h"
  sk_search :: "'h \<Rightarrow> 'k se_search"
  sk_generate :: "'h \<Rightarrow> 'h \<times> (string + 'k)"
  sk_ephemeral :: "'h \<Rightarrow> 'h \<times> (string + 'k)"
  sk_public_key :: "'k \<Rightarrow> 'p option"
  sk_external :: "'p \<Rightarrow> bytes option"
  sk_import :: "bytes \<Rightarrow> string + 'p"
  sk_exchange :: "'k \<Rightarrow> 'p \<Rightarrow> string + bytes"
  me_sha :: sha256
  me_kw :: aes_kw

text \<open>\<open>Path::parent\<close> on a Unix path.\<close>

fun trim_rev :: "string \<Rightarrow> string" where
  "trim_rev [] = []"
| "trim_rev [c] = (if c = CHR ''/'' then [] else [c])"
| "trim_rev (c # d # r) =
     (if c = CHR ''/'' then trim_rev (d # r)
      else if c = CHR ''.'' \<and> d = CHR ''/'' then trim_rev r else c # d # r)"

definition path_parent :: "string \<Rightarrow> string option" where
  "path_parent s =
     (let root = (if s \<noteq> [] \<and> hd s = CHR ''/'' then ''/'' else []); r = trim_rev (rev s)
      in if r = [] then None
         else let rest = trim_rev (dropWhile (\<lambda>c. c \<noteq> CHR ''/'') r)
              in if rest = [] then Some root else Some (rev rest))"

section \<open>Sealing to the Secure Enclave (se\_seal.rs)\<close>

definition SE_KDF_CONTEXT :: bytes where
  "SE_KDF_CONTEXT = map (\<lambda>c. of_nat (of_char c)) ''clave-mac/se-seal/v1''"

definition P256_PUBLIC_LEN :: nat where "P256_PUBLIC_LEN = 65"
definition SE_WRAPPED_LEN :: nat where "SE_WRAPPED_LEN = 64 + 8"
definition SEALED_LEN :: nat where "SEALED_LEN = P256_PUBLIC_LEN + SE_WRAPPED_LEN"

definition se_load :: "('h, 'k, 'p) mac_env \<Rightarrow> 'h \<Rightarrow> mac_error + 'k option" where
  "se_load v h =
     (case sk_search v h of
        SeResults rs \<Rightarrow> Inr (if rs = [] then None else last rs)
      | SeItemNotFound \<Rightarrow> Inr None
      | SeSearchFailed e \<Rightarrow> Inl (SecErr ''search for SE key'' e))"

definition se_load_or_generate :: "('h, 'k, 'p) mac_env \<Rightarrow> 'h \<Rightarrow> 'h \<times> (mac_error + 'k)" where
  "se_load_or_generate v h =
     (case se_load v h of
        Inl e \<Rightarrow> (h, Inl e)
      | Inr (Some k) \<Rightarrow> (h, Inr k)
      | Inr None \<Rightarrow> (let (h, r) = sk_generate v h in (h, map_err (SecErr ''generate SE key'') r)))"

definition se_public_key_bytes :: "('h, 'k, 'p) mac_env \<Rightarrow> 'k \<Rightarrow> mac_error + bytes" where
  "se_public_key_bytes v k =
     rbind (ok_or (sk_public_key v k) NoPublicHalf) (\<lambda>p. ok_or (sk_external v p) ExportFailed)"

definition import_p256_public_key :: "('h, 'k, 'p) mac_env \<Rightarrow> bytes \<Rightarrow> mac_error + 'p" where
  "import_p256_public_key v raw =
     (if length raw \<noteq> P256_PUBLIC_LEN then Inl (P256Length (length raw))
      else map_err (SecErr ''import peer public key'') (sk_import v raw))"

definition se_key_exchange :: "('h, 'k, 'p) mac_env \<Rightarrow> 'k \<Rightarrow> bytes \<Rightarrow> mac_error + bytes" where
  "se_key_exchange v k peer_pub =
     rbind (import_p256_public_key v peer_pub) (\<lambda>peer. map_err (SecErr ''SE key exchange'') (sk_exchange v k peer))"

definition se_derive_kek :: "('h, 'k, 'p) mac_env \<Rightarrow> bytes \<Rightarrow> bytes \<Rightarrow> bytes \<Rightarrow> bytes" where
  "se_derive_kek v shared ephemeral_pub se_pub = me_sha v (SE_KDF_CONTEXT @ ephemeral_pub @ se_pub @ shared)"

definition aes_kw_unwrap :: "('h, 'k, 'p) mac_env \<Rightarrow> bytes \<Rightarrow> bytes \<Rightarrow> mac_error + bytes" where
  "aes_kw_unwrap v k wrapped = ok_or (kw_unwrap (me_kw v) k wrapped) UnwrapFailed"

definition se_seal :: "('h, 'k, 'p) mac_env \<Rightarrow> 'h \<Rightarrow> bytes \<Rightarrow> bytes \<Rightarrow> 'h \<times> (mac_error + bytes)" where
  "se_seal v h se_pub secret =
     (let (h, r) = sk_ephemeral v h
      in (h,
          rbind (map_err (SecErr ''generate ephemeral key'') r) (\<lambda>ephemeral.
          rbind (ok_or (Option.bind (sk_public_key v ephemeral) (sk_external v)) EphemeralExportFailed) (\<lambda>ephemeral_pub.
          rbind (import_p256_public_key v se_pub) (\<lambda>se_peer.
          rbind (map_err (SecErr ''ephemeral key exchange'') (sk_exchange v ephemeral se_peer)) (\<lambda>shared.
            let wrapped = kw_wrap (me_kw v) (se_derive_kek v shared ephemeral_pub se_pub) secret
            in if length ephemeral_pub = P256_PUBLIC_LEN \<and> length wrapped = SE_WRAPPED_LEN
               then Inr (ephemeral_pub @ wrapped) else Inl MacPanic))))))"

definition se_open :: "('h, 'k, 'p) mac_env \<Rightarrow> 'k \<Rightarrow> bytes \<Rightarrow> mac_error + bytes" where
  "se_open v se_key sealed =
     (let ephemeral_pub = take P256_PUBLIC_LEN sealed; wrapped = drop P256_PUBLIC_LEN sealed
      in rbind (se_key_exchange v se_key ephemeral_pub) (\<lambda>shared.
         rbind (se_public_key_bytes v se_key) (\<lambda>se_pub.
           aes_kw_unwrap v (se_derive_kek v shared ephemeral_pub se_pub) wrapped)))"

section \<open>The passphrase (volume.rs)\<close>

definition DEFAULT_SIZE_MB :: u64 where "DEFAULT_SIZE_MB = 65536"
definition MIN_SIZE_MB :: u64 where "MIN_SIZE_MB = 512"

definition configured_size_mb :: "('h, 'k, 'p) mac_env \<Rightarrow> 'h \<Rightarrow> u64" where
  "configured_size_mb v h =
     max (case Option.bind (os_var v h ''CLAVE_DISK_SIZE_MB'') (\<lambda>s. parse_u64 (trim s)) of
            None \<Rightarrow> DEFAULT_SIZE_MB | Some n \<Rightarrow> n) MIN_SIZE_MB"

definition key_account :: "u128 \<Rightarrow> string" where
  "key_account container =
     ''sparsebundle-key-'' @ map (\<lambda>i. nibble (ucast (drop_bit (4 * (31 - i)) container AND 0xF))) [0..<32]"

datatype stored_key = StoredSealed bytes | StoredPlain bytes

definition TAG_SEALED :: u8 where "TAG_SEALED = 1"
definition TAG_PLAIN :: u8 where "TAG_PLAIN = 2"

definition load_stored :: "('h, 'k, 'p) mac_env \<Rightarrow> 'h \<Rightarrow> u128 \<Rightarrow> mac_error + stored_key option" where
  "load_stored v h container =
     (case kc_get v h (key_account container) of
        None \<Rightarrow> Inr None
      | Some [] \<Rightarrow> Inl EmptyBlob
      | Some (tag # payload) \<Rightarrow>
          if tag = TAG_SEALED
          then (if length payload = SEALED_LEN then Inr (Some (StoredSealed payload)) else Inl SealedWrongLength)
          else if tag = TAG_PLAIN
          then (if length payload = 64 then Inr (Some (StoredPlain payload)) else Inl PlainWrongLength)
          else Inl (UnknownCustodyTag tag))"

fun stored_blob :: "stored_key \<Rightarrow> bytes" where
  "stored_blob (StoredSealed sealed) = TAG_SEALED # sealed"
| "stored_blob (StoredPlain plain) = TAG_PLAIN # plain"

definition store_key :: "('h, 'k, 'p) mac_env \<Rightarrow> 'h \<Rightarrow> u128 \<Rightarrow> stored_key \<Rightarrow> 'h \<times> (mac_error + unit)" where
  "store_key v h container key =
     (let (h, r) = kc_set v h (key_account container) (stored_blob key) in (h, map_err KeychainSetFailed r))"

fun unwrap_stored :: "('h, 'k, 'p) mac_env \<Rightarrow> 'h \<Rightarrow> stored_key \<Rightarrow> mac_error + bytes" where
  "unwrap_stored v h (StoredPlain p) = Inr p"
| "unwrap_stored v h (StoredSealed sealed) =
     rbind (se_load v h) (\<lambda>k. rbind (ok_or k NoSeKey) (\<lambda>se_key. se_open v se_key sealed))"

definition passphrase_digit :: "u8 \<Rightarrow> u8" where
  "passphrase_digit n = of_nat (of_char (nibble n))"

definition mint_passphrase :: "('h, 'k, 'p) mac_env \<Rightarrow> 'h \<Rightarrow> 'h \<times> (mac_error + bytes)" where
  "mint_passphrase v h =
     (let (h, r) = os_random v h
      in (h, rbind (map_err RngFailed r) (\<lambda>entropy.
           Inr (concat (map (\<lambda>b. [passphrase_digit (drop_bit 4 b), passphrase_digit (b AND 0x0F)]) entropy)))))"

definition passphrase_for_existing :: "('h, 'k, 'p) mac_env \<Rightarrow> 'h \<Rightarrow> u128 \<Rightarrow> mac_error + bytes" where
  "passphrase_for_existing v h container =
     rbind (load_stored v h container) (\<lambda>k.
       case k of Some key \<Rightarrow> unwrap_stored v h key | None \<Rightarrow> Inl PassphraseMissing)"

datatype custody = RequireHardware | AllowPlainFallback

definition seal_or_plain ::
  "('h, 'k, 'p) mac_env \<Rightarrow> 'h \<Rightarrow> custody \<Rightarrow> bytes \<Rightarrow> 'h \<times> (mac_error + stored_key)" where
  "seal_or_plain v h custody passphrase =
     (case se_load_or_generate v h of
        (h, Inr se_key) \<Rightarrow>
          (case se_public_key_bytes v se_key of
             Inl e \<Rightarrow> (h, Inl e)
           | Inr se_pub \<Rightarrow> (let (h, r) = se_seal v h se_pub passphrase in (h, rbind r (\<lambda>s. Inr (StoredSealed s)))))
      | (h, Inl e) \<Rightarrow>
          (case custody of
             RequireHardware \<Rightarrow> (h, Inl (MustBeSealed e))
           | AllowPlainFallback \<Rightarrow> (h, Inr (StoredPlain passphrase))))"

definition passphrase_for_new ::
  "('h, 'k, 'p) mac_env \<Rightarrow> 'h \<Rightarrow> u128 \<Rightarrow> custody \<Rightarrow> 'h \<times> (mac_error + bytes)" where
  "passphrase_for_new v h container custody =
     (case load_stored v h container of
        Inl e \<Rightarrow> (h, Inl e)
      | Inr (Some key) \<Rightarrow> (h, unwrap_stored v h key)
      | Inr None \<Rightarrow>
          (case mint_passphrase v h of
             (h, Inl e) \<Rightarrow> (h, Inl e)
           | (h, Inr passphrase) \<Rightarrow>
               (case seal_or_plain v h custody passphrase of
                  (h, Inl e) \<Rightarrow> (h, Inl e)
                | (h, Inr stored) \<Rightarrow>
                    (case store_key v h container stored of
                       (h, Inl e) \<Rightarrow> (h, Inl e)
                     | (h, Inr _) \<Rightarrow> (h, Inr passphrase)))))"

section \<open>The mount\<close>

definition run_hdiutil_with_passphrase ::
  "('h, 'k, 'p) mac_env \<Rightarrow> 'h \<Rightarrow> string list \<Rightarrow> string \<Rightarrow> bytes \<Rightarrow> 'h \<times> (mac_error + unit)" where
  "run_hdiutil_with_passphrase v h args target passphrase =
     (case os_hdiutil v h (args @ [target]) passphrase of
        (h, Inl e) \<Rightarrow> (h, Inl (OsError e))
      | (h, Inr (ok, stderr)) \<Rightarrow> (h, if ok then Inr () else Inl (HdiutilFailed args (trim stderr))))"

definition create_args :: "u64 \<Rightarrow> string list" where
  "create_args size_mb =
     [''create'', ''-size'', dec_of_nat (unat size_mb) @ ''m'', ''-fs'', ''APFS'', ''-encryption'', ''AES-256'',
      ''-type'', ''SPARSEBUNDLE'', ''-volname'', ''ClaveDisk'', ''-nospotlight'', ''-stdinpass'']"

definition disk_bundle_create ::
  "('h, 'k, 'p) mac_env \<Rightarrow> 'h \<Rightarrow> string \<Rightarrow> u64 \<Rightarrow> bytes \<Rightarrow> 'h \<times> (mac_error + unit)" where
  "disk_bundle_create v h bundle_path size_mb passphrase =
     (case (case path_parent bundle_path of
              None \<Rightarrow> (h, Inr ()) | Some parent \<Rightarrow> os_create_dir_all v h parent) of
        (h, Inl e) \<Rightarrow> (h, Inl (OsError e))
      | (h, Inr _) \<Rightarrow> run_hdiutil_with_passphrase v h (create_args size_mb) bundle_path passphrase)"

definition attach_args :: "string \<Rightarrow> string list" where
  "attach_args mount_point = [''attach'', ''-nobrowse'', ''-mountpoint'', mount_point, ''-stdinpass'']"

definition disk_bundle_attach ::
  "('h, 'k, 'p) mac_env \<Rightarrow> 'h \<Rightarrow> string \<Rightarrow> string \<Rightarrow> bytes \<Rightarrow> 'h \<times> (mac_error + unit)" where
  "disk_bundle_attach v h bundle_path mount_point passphrase =
     run_hdiutil_with_passphrase v h (attach_args mount_point) bundle_path passphrase"

definition disk_bundle_detach :: "('h, 'k, 'p) mac_env \<Rightarrow> 'h \<Rightarrow> string \<Rightarrow> 'h \<times> (mac_error + unit)" where
  "disk_bundle_detach v h mount_point =
     (case os_hdiutil v h [''detach'', mount_point] [] of
        (h, Inl e) \<Rightarrow> (h, Inl (OsError e))
      | (h, Inr (ok, stderr)) \<Rightarrow> (h, if ok then Inr () else Inl (DetachFailed (trim stderr))))"

definition is_attached :: "('h, 'k, 'p) mac_env \<Rightarrow> 'h \<Rightarrow> string \<Rightarrow> bool" where
  "is_attached v h mount_point = (case os_diskutil_info v h mount_point of Inl _ \<Rightarrow> False | Inr ok \<Rightarrow> ok)"

record mac_volume_mount =
  mm_container :: u128
  mm_bundle_path :: string
  mm_custody :: custody
  mm_mount_point :: "string option"

definition mac_volume_new :: "u128 \<Rightarrow> string \<Rightarrow> custody \<Rightarrow> mac_volume_mount" where
  "mac_volume_new container bundle_path custody =
     \<lparr>mm_container = container, mm_bundle_path = bundle_path, mm_custody = custody, mm_mount_point = None\<rparr>"

definition bundle_passphrase ::
  "('h, 'k, 'p) mac_env \<Rightarrow> 'h \<Rightarrow> mac_volume_mount \<Rightarrow> 'h \<times> (mac_error + bytes)" where
  "bundle_passphrase v h m =
     (if os_exists v h (mm_bundle_path m) then (h, passphrase_for_existing v h (mm_container m))
      else case passphrase_for_new v h (mm_container m) (mm_custody m) of
             (h, Inl e) \<Rightarrow> (h, Inl e)
           | (h, Inr passphrase) \<Rightarrow>
               (case disk_bundle_create v h (mm_bundle_path m) (configured_size_mb v h) passphrase of
                  (h, Inl e) \<Rightarrow> (h, Inl e)
                | (h, Inr _) \<Rightarrow> (h, Inr passphrase)))"

text \<open>\<open>PlatformError::Io\<close> carries the text of the error; here it is the error itself.\<close>

definition mac_attach ::
  "('h, 'k, 'p) mac_env \<Rightarrow> 'h \<Rightarrow> mac_volume_mount \<Rightarrow> string \<Rightarrow> 'h \<times> mac_volume_mount \<times> (mac_error + unit)" where
  "mac_attach v h m mount_point =
     (if is_attached v h mount_point then (h, m\<lparr>mm_mount_point := Some mount_point\<rparr>, Inr ())
      else case bundle_passphrase v h m of
             (h, Inl e) \<Rightarrow> (h, m, Inl e)
           | (h, Inr passphrase) \<Rightarrow>
               (case disk_bundle_attach v h (mm_bundle_path m) mount_point passphrase of
                  (h, Inl e) \<Rightarrow> (h, m, Inl e)
                | (h, Inr _) \<Rightarrow> (h, m\<lparr>mm_mount_point := Some mount_point\<rparr>, Inr ())))"

definition mac_detach :: "('h, 'k, 'p) mac_env \<Rightarrow> 'h \<Rightarrow> mac_volume_mount \<Rightarrow> 'h \<times> mac_volume_mount \<times> (mac_error + unit)" where
  "mac_detach v h m =
     (case mm_mount_point m of
        None \<Rightarrow> (h, m, Inr ())
      | Some mp \<Rightarrow> (let (h, r) = disk_bundle_detach v h mp in (h, m\<lparr>mm_mount_point := None\<rparr>, r)))"

definition mac_is_mounted :: "('h, 'k, 'p) mac_env \<Rightarrow> 'h \<Rightarrow> mac_volume_mount \<Rightarrow> bool" where
  "mac_is_mounted v h m = (case mm_mount_point m of Some mp \<Rightarrow> is_attached v h mp | None \<Rightarrow> False)"

definition mac_request_wipe ::
  "('h, 'k, 'p) mac_env \<Rightarrow> 'h \<Rightarrow> mac_volume_mount \<Rightarrow> 'h \<times> mac_volume_mount \<times> (mac_error + unit)" where
  "mac_request_wipe v h m =
     (case mac_detach v h m of
        (h, m, Inl e) \<Rightarrow> (h, m, Inl e)
      | (h, m, Inr _) \<Rightarrow>
          (let h = kc_delete v h (key_account (mm_container m))
           in if os_exists v h (mm_bundle_path m)
              then let (h, r) = os_remove_dir_all v h (mm_bundle_path m) in (h, m, map_err OsError r)
              else (h, m, Inr ())))"

end
