(* ===== verification/Boot.thy ===== *)
theory Boot
  imports Enrollment Daemon_Props Mac_Volume
begin

text \<open>
  Starting the daemon (\<open>clave-daemon\<close>: \<open>mac_main.rs\<close>, \<open>win_main.rs\<close>): the profiles and paths, the daemon
  assembled from the booted enrollment, the observer that persists accepted policies, the Windows
  supervisor that keeps the zone in step with the job, and the built-in demonstration policies. What
  survives a restart is proved from them. Threads, sockets and the user interface are not modelled;
  the environment variables are a function from names.
\<close>

section \<open>Profiles and paths\<close>

datatype profile = Dev | SignedHost

fun profile_container :: "profile \<Rightarrow> u128" where
  "profile_container Dev = 0xC1A5DE11"
| "profile_container SignedHost = 0xC1A5ED15"

fun profile_custody :: "profile \<Rightarrow> custody" where
  "profile_custody Dev = AllowPlainFallback"
| "profile_custody SignedHost = RequireHardware"

fun profile_bundle_name :: "profile \<Rightarrow> string" where
  "profile_bundle_name Dev = ''ClaveDisk-dev.sparsebundle''"
| "profile_bundle_name SignedHost = ''ClaveDisk.sparsebundle''"

fun profile_tag :: "profile \<Rightarrow> string" where
  "profile_tag Dev = ''dev''"
| "profile_tag SignedHost = ''signed''"

fun default_mount_point :: "profile \<Rightarrow> string" where
  "default_mount_point Dev = ''/Volumes/ClaveDisk-dev''"
| "default_mount_point SignedHost = ''/Volumes/ClaveDisk''"

type_synonym environment = "string \<Rightarrow> string option"

definition env_or :: "environment \<Rightarrow> string \<Rightarrow> string \<Rightarrow> string" where
  "env_or env name dflt = (case env name of Some x \<Rightarrow> x | None \<Rightarrow> dflt)"

definition launcher_socket_path :: "environment \<Rightarrow> string \<Rightarrow> string" where
  "launcher_socket_path env tmp = env_or env ''CLAVE_LAUNCHER_SOCK'' (path_join tmp ''clave-launcher.sock'')"

definition mount_point :: "environment \<Rightarrow> profile \<Rightarrow> string" where
  "mount_point env p = env_or env ''CLAVE_DEV_MOUNT'' (default_mount_point p)"

definition clave_support_dir :: "environment \<Rightarrow> string \<Rightarrow> string" where
  "clave_support_dir env tmp = path_join (env_or env ''HOME'' tmp) ''Library/Application Support/Clave''"

definition disk_bundle_path :: "environment \<Rightarrow> string \<Rightarrow> profile \<Rightarrow> string" where
  "disk_bundle_path env tmp p =
     env_or env ''CLAVE_DISK_BUNDLE'' (path_join (clave_support_dir env tmp) (profile_bundle_name p))"

definition mac_state_dir :: "environment \<Rightarrow> string \<Rightarrow> string" where
  "mac_state_dir env tmp = env_or env ''CLAVE_STATE_DIR'' (clave_support_dir env tmp)"

section \<open>Assembling the daemon\<close>

definition VOLUME_KEYSTORE_KEK :: bytes where
  "VOLUME_KEYSTORE_KEK = replicate 32 0x4B"

definition boot_daemon ::
  "aes_kw \<Rightarrow> zone_registry \<Rightarrow> booted_enrollment \<Rightarrow> (mem_key_store, mem_backing, loopback_tunnel) daemon" where
  "boot_daemon kw zones b =
     (let keystore = mem_provision kw [] (bt_container b) (Kek VOLUME_KEYSTORE_KEK) (bt_dek b);
          volume = volume_new (container_meta_new (bt_container b)) keystore (mem_backing_zeroed 64)
      in set_policy_observer
           (daemon_new zones spool_new (bt_policy b) (loopback_tunnel_new 0x5A) volume (bt_gateway b)))"

text \<open>The policy observer: it updates the record in memory and saves it.\<close>

definition persist_policy ::
  "enrollment_record codec \<Rightarrow> file_enrollment_store \<times> enrollment_record \<Rightarrow> policy_bundle
     \<Rightarrow> file_enrollment_store \<times> enrollment_record" where
  "persist_policy rc sr bundle =
     (let rec = (snd sr)\<lparr>er_policy := bundle\<rparr> in (enrollment_save rc (fst sr) rec, rec))"

definition boot_sync :: "'l \<Rightarrow> booted_enrollment \<Rightarrow> ('l, file_checkpoint_store) gateway_sync" where
  "boot_sync link b = \<lparr>gs_link = link, gs_device_key = bt_device_signer b, gs_store = bt_checkpoint_store b\<rparr>"

section \<open>The zone supervisor of Windows\<close>

definition supervise_round :: "zone_registry \<Rightarrow> u32 list \<Rightarrow> zone_registry" where
  "supervise_round z pids =
     (let z = foldl (\<lambda>z pid. zone_join z (proc_id_for_pid False pid) Launcher) z (remdups pids)
      in foldl (\<lambda>z pid. if pid \<in> set pids then z else zone_leave z (proc_id_for_pid False pid)) z (supervised_pids z))"

section \<open>Demonstration policies\<close>

definition mac_app :: "string \<Rightarrow> string \<Rightarrow> string \<Rightarrow> string \<Rightarrow> app_rule" where
  "mac_app i signing name exec =
     with_executable (with_display_name (app_rule_new (AppId i) (BMacos ''DEMO000000'' signing)) name) exec"

definition mac_apple_app :: "string \<Rightarrow> string \<Rightarrow> string \<Rightarrow> string \<Rightarrow> app_rule" where
  "mac_apple_app i signing name exec =
     with_executable (with_display_name (app_rule_new (AppId i) (BMacos [] signing)) name) exec"

definition mac_chromium_app :: "string \<Rightarrow> string \<Rightarrow> string \<Rightarrow> string \<Rightarrow> app_rule" where
  "mac_chromium_app i signing name exec = with_launch (mac_app i signing name exec) launch_profile_chromium"

definition mac_editor_app :: "string \<Rightarrow> string \<Rightarrow> string \<Rightarrow> string \<Rightarrow> app_rule" where
  "mac_editor_app i signing name exec =
     with_launch (mac_app i signing name exec)
       (with_seed_home launch_profile_chromium
          [''.zshenv'', ''.zprofile'', ''.zshrc'', ''.bashrc'', ''.bash_profile'', ''.profile'', ''.gitconfig'',
           ''.local'', ''.cargo'', ''.nvm'', ''.bun''])"

definition mac_demo_policy :: policy_bundle where
  "mac_demo_policy = restrictive_default\<lparr>pb_version := 1, pb_apps := \<lparr>ap_allow =
        [
         mac_chromium_app ''chrome-work'' ''com.google.Chrome'' ''Google Chrome'' ''/Applications/Google Chrome.app'',
         mac_app ''excel-work'' ''com.microsoft.Excel'' ''Excel'' ''/Applications/Microsoft Excel.app'',
         mac_app ''word-work'' ''com.microsoft.Word'' ''Word'' ''/Applications/Microsoft Word.app'',
         mac_app ''outlook-work'' ''com.microsoft.Outlook'' ''Outlook'' ''/Applications/Microsoft Outlook.app'',
         mac_apple_app ''files-work'' ''com.apple.finder'' ''Files'' ''/System/Library/CoreServices/Finder.app'',
         mac_app ''powerpoint-work'' ''com.microsoft.Powerpoint'' ''PowerPoint'' ''/Applications/Microsoft PowerPoint.app'',
         mac_chromium_app ''edge-work'' ''com.microsoft.edgemac'' ''Edge'' ''/Applications/Microsoft Edge.app'',
         mac_app ''academy-work'' ''com.clave.academy'' ''Clave Academy'' ''/Applications/Clave Academy.app'',
         mac_app ''acrobat-work'' ''com.adobe.Acrobat.Pro'' ''Adobe Acrobat'' ''/Applications/Adobe Acrobat.app'',
         mac_app ''clavework-work'' ''com.clave.work'' ''Clave Work'' ''/Applications/Clave Work.app'',
         mac_chromium_app ''teams-work'' ''com.microsoft.teams2'' ''Teams'' ''/Applications/Microsoft Teams.app'',
         mac_chromium_app ''slack-work'' ''com.tinyspeck.slackmacgap'' ''Slack'' ''/Applications/Slack.app'',
         mac_editor_app ''vscode-work'' ''com.microsoft.VSCode'' ''Visual Studio Code'' ''/Applications/Visual Studio Code.app'',
         mac_editor_app ''cursor-work'' ''com.todesktop.230313mzl4w4u92'' ''Cursor'' ''/Applications/Cursor.app'',
         mac_apple_app ''calculator-work'' ''com.apple.calculator'' ''Calculator'' ''/System/Applications/Calculator.app'',
         mac_apple_app ''textedit-work'' ''com.apple.TextEdit'' ''TextEdit'' ''/System/Applications/TextEdit.app'']\<rparr>\<rparr>"

definition win_app :: "string \<Rightarrow> string \<Rightarrow> string \<Rightarrow> string \<Rightarrow> string \<Rightarrow> app_rule" where
  "win_app i publisher product name exec =
     with_executable (with_display_name (app_rule_new (AppId i) (BWindows publisher product)) name) exec"

definition win_chromium_app :: "string \<Rightarrow> string \<Rightarrow> string \<Rightarrow> string \<Rightarrow> string \<Rightarrow> app_rule" where
  "win_chromium_app i publisher product name exec =
     with_launch (win_app i publisher product name exec) launch_profile_chromium"

definition win_demo_policy :: "environment \<Rightarrow> policy_bundle" where
  "win_demo_policy env =
     (let bs = [CHR 0x5C];
          program_files = env_or env ''ProgramFiles'' (''C:'' @ bs @ ''Program Files'');
          program_files_x86 = env_or env ''ProgramFiles(x86)'' (''C:'' @ bs @ ''Program Files (x86)'');
          local_appdata = env_or env ''LOCALAPPDATA'' (''C:'' @ bs @ ''Users'' @ bs @ ''Public'' @ bs @ ''AppData'' @ bs @ ''Local'');
          p = restrictive_default
      in p\<lparr>pb_version := 1, pb_network := (pb_network p)\<lparr>np_blocked_hosts := [''192.0.2.1'']\<rparr>,
          pb_apps := \<lparr>ap_allow =
        [
         win_chromium_app ''chrome-work'' ''CN=Google LLC'' ''Google Chrome'' ''Google Chrome'' (program_files @ bs @ ''Google'' @ bs @ ''Chrome'' @ bs @ ''Application'' @ bs @ ''chrome.exe''),
         win_chromium_app ''edge-work'' ''CN=Microsoft Corporation'' ''Microsoft Edge'' ''Microsoft Edge'' (program_files_x86 @ bs @ ''Microsoft'' @ bs @ ''Edge'' @ bs @ ''Application'' @ bs @ ''msedge.exe''),
         win_app ''excel-work'' ''CN=Microsoft Corporation'' ''Microsoft Excel'' ''Excel'' (program_files @ bs @ ''Microsoft Office'' @ bs @ ''root'' @ bs @ ''Office16'' @ bs @ ''EXCEL.EXE''),
         win_app ''word-work'' ''CN=Microsoft Corporation'' ''Microsoft Word'' ''Word'' (program_files @ bs @ ''Microsoft Office'' @ bs @ ''root'' @ bs @ ''Office16'' @ bs @ ''WINWORD.EXE''),
         win_app ''outlook-work'' ''CN=Microsoft Corporation'' ''Microsoft Outlook'' ''Outlook'' (program_files @ bs @ ''Microsoft Office'' @ bs @ ''root'' @ bs @ ''Office16'' @ bs @ ''OUTLOOK.EXE''),
         win_app ''powerpoint-work'' ''CN=Microsoft Corporation'' ''Microsoft PowerPoint'' ''PowerPoint'' (program_files @ bs @ ''Microsoft Office'' @ bs @ ''root'' @ bs @ ''Office16'' @ bs @ ''POWERPNT.EXE''),
         win_chromium_app ''teams-work'' ''CN=Microsoft Corporation'' ''Microsoft Teams'' ''Teams'' (local_appdata @ bs @ ''Microsoft'' @ bs @ ''Teams'' @ bs @ ''current'' @ bs @ ''Teams.exe''),
         win_chromium_app ''slack-work'' ''CN=Slack Technologies, LLC'' ''Slack'' ''Slack'' (local_appdata @ bs @ ''slack'' @ bs @ ''slack.exe''),
         win_app ''vscode-work'' ''CN=Microsoft Corporation'' ''Visual Studio Code'' ''Visual Studio Code'' (local_appdata @ bs @ ''Programs'' @ bs @ ''Microsoft VS Code'' @ bs @ ''Code.exe''),
         win_app ''cursor-work'' ''CN=Anysphere, Inc.'' ''Cursor'' ''Cursor'' (program_files @ bs @ ''cursor'' @ bs @ ''Cursor.exe''),
         win_app ''notepad-work'' ''CN=Microsoft Windows'' ''Microsoft Windows Operating System'' ''Notepad'' (''C:'' @ bs @ ''Windows'' @ bs @ ''System32'' @ bs @ ''notepad.exe''),
         win_app ''explorer-work'' ''CN=Microsoft Windows'' ''Microsoft Windows Operating System'' ''File Explorer'' (''C:'' @ bs @ ''Windows'' @ bs @ ''explorer.exe'')]\<rparr>\<rparr>)"

section \<open>The supervisor keeps the zone in step\<close>

lemma joins_supervised:
  "is_supervised (foldl (\<lambda>z pid. zone_join z (f pid) r) z pids) p \<longleftrightarrow> p \<in> f ` set pids \<or> is_supervised z p"
  by (induction pids arbitrary: z) auto

lemma leaves_supervised:
  "is_supervised (foldl (\<lambda>z pid. if Q pid then z else zone_leave z (f pid)) z pids) p \<longleftrightarrow>
     is_supervised z p \<and> \<not> (\<exists>pid \<in> set pids. \<not> Q pid \<and> p = f pid)"
  by (induction pids arbitrary: z) auto

lemma launcher_pid [simp]: "proc_pid (proc_id_for_pid m pid) = pid"
  by (simp add: proc_id_for_pid_def)

lemma launcher_pid_eq_iff [simp]: "proc_id_for_pid m pid = proc_id_for_pid m pid' \<longleftrightarrow> pid = pid'"
  by (metis launcher_pid)

text \<open>
  One round of the Windows supervisor. Afterwards a process launched by the daemon (identified by
  its pid alone) is in the work zone exactly when the job still holds its pid, so a pid that left the
  job cannot be inherited; processes identified with a creation time are left as they were.
\<close>

theorem supervise_round_exact:
  "is_supervised (supervise_round z pids) p =
     (if p = proc_id_for_pid False (proc_pid p) then proc_pid p \<in> set pids else is_supervised z p)"
proof -
  define z1 where "z1 = foldl (\<lambda>z pid. zone_join z (proc_id_for_pid False pid) Launcher) z (remdups pids)"
  have z1: "is_supervised z1 q \<longleftrightarrow> q \<in> proc_id_for_pid False ` set pids \<or> is_supervised z q" for q
    by (simp add: z1_def joins_supervised)
  have pids: "pid \<in> set (supervised_pids z1) \<longleftrightarrow> (\<exists>q. is_supervised z1 q \<and> proc_pid q = pid)" for pid
    by (auto simp: set_supervised_pids zone_set_def)
  have "is_supervised (supervise_round z pids) p \<longleftrightarrow>
      is_supervised z1 p \<and> \<not> (\<exists>pid \<in> set (supervised_pids z1). pid \<notin> set pids \<and> p = proc_id_for_pid False pid)"
    by (simp add: supervise_round_def z1_def[symmetric] Let_def leaves_supervised)
  then show ?thesis using pids z1 by (auto intro: launcher_pid)
qed

end
