(* ===== verification/Boot_Props.thy ===== *)
theory Boot_Props
  imports Boot Volume_Props Clave_End_To_End
begin

text \<open>
  What survives a restart of the daemon: the accepted policies, the replay protection, and the key
  of the container, also after a wipe.
\<close>

section \<open>Accepting a grant\<close>

text \<open>A grant with a policy signed by the pinned key: it is accepted when its volume key opens.\<close>

lemma accept_issued:
  assumes "ed25519_correct (ne_ed ev)" "codec_ok_on (ne_envelope ev) {envelope_new (gk_tenant k) n issued (UpdatePolicy b)}"
    and "fresh_at DEFAULT_MAX_AGE_SECS issued now" "n \<noteq> 0"
    and "de_tenant de = gk_tenant k" "de_pinned_tenant_key de = gk_public_key (ne_ed ev) k"
  shows "enrollment_accept ev de
      \<lparr>eg_policy = Some (gk_sign (ne_ed ev) (ne_envelope ev) k n issued (UpdatePolicy b)), eg_volume_key = vk\<rparr> now =
    rbind (case vk of Some x \<Rightarrow> rbind (open_volume_key ev de x) (\<lambda>x. Inr (Some x)) | None \<Rightarrow> Inr None) (\<lambda>volume.
      Inr \<lparr>ac_verifier = \<lparr>gv_tenant = gk_tenant k, gv_key = gk_public_key (ne_ed ev) k, gv_high_water = n,
              gv_max_age_secs = DEFAULT_MAX_AGE_SECS\<rparr>, ac_policy = Some b, ac_volume = volume\<rparr>)"
proof -
  have "verify (ne_ed ev) (ne_envelope ev) \<lparr>gv_tenant = gk_tenant k, gv_key = gk_public_key (ne_ed ev) k, gv_high_water = 0,
        gv_max_age_secs = DEFAULT_MAX_AGE_SECS\<rparr> (gk_sign (ne_ed ev) (ne_envelope ev) k n issued (UpdatePolicy b)) now =
      (\<lparr>gv_tenant = gk_tenant k, gv_key = gk_public_key (ne_ed ev) k, gv_high_water = n,
        gv_max_age_secs = DEFAULT_MAX_AGE_SECS\<rparr>, Inr (UpdatePolicy b))"
    using verify_signed[OF assms(1,2)] assms(3,4) by simp
  moreover have "ed_key_ok (ne_ed ev) (gk_public_key (ne_ed ev) k)"
    using ed25519_correctD(1)[OF assms(1)] by (simp add: gk_public_key_def)
  ultimately show ?thesis
    using assms(5,6) by (simp add: enrollment_accept_def verifier_new_def)
qed

lemma open_wrapped:
  assumes "aes_kw_correct (ne_kw ev)" "length (wrapped_bytes (kek_wrap (ne_kw ev) (Kek wk) d)) = WRAPPED_DEK_LEN"
    and "de_volume_key de = Symmetric wk"
  shows "open_volume_key ev de \<lparr>wk_container = c, wk_wrapped_dek = wrapped_bytes (kek_wrap (ne_kw ev) (Kek wk) d), wk_ephemeral_pub = None\<rparr>
    = Inr (ContainerId c, d)"
  using assms kek_unwrap_wrap[OF assms(1)] by (simp add: open_volume_key_def Let_def)

lemma bootstrap_accepts:
  assumes "ed25519_correct (ne_ed v)" "aes_kw_correct (ne_kw v)"
    and "length (kw_wrap (ne_kw v) DEV_DEVICE_KEK DEV_DEK) = WRAPPED_DEK_LEN"
    and "codec_ok_on (ne_envelope v) {envelope_new (TenantId 1) 1 now (UpdatePolicy policy)}"
  shows "\<exists>rec. bootstrap_dev_enrollment v policy cont now = Inr rec \<and> er_policy rec = policy \<and>
    record_open_volume v rec None now = Inr (ContainerId cont, Dek DEV_DEK) \<and>
    ed_key_ok (ne_ed v) (er_pinned_tenant_key rec)"
proof -
  let ?k = "signing_key_from_seed (TenantId 1) DEV_TENANT_SEED"
  let ?vk = "\<lparr>wk_container = cont, wk_wrapped_dek = wrapped_bytes (kek_wrap (ne_kw v) (Kek DEV_DEVICE_KEK) (Dek DEV_DEK)),
    wk_ephemeral_pub = None\<rparr>"
  let ?de = "\<lparr>de_tenant = TenantId 1, de_pinned_tenant_key = gk_public_key (ne_ed v) ?k, de_volume_key = Symmetric DEV_DEVICE_KEK\<rparr>"
  have k: "gk_tenant ?k = TenantId 1" by (simp add: signing_key_from_seed_def)
  have key: "ed_key_ok (ne_ed v) (gk_public_key (ne_ed v) ?k)"
    using ed25519_correctD(1)[OF assms(1)] by (simp add: gk_public_key_def)
  have o: "open_volume_key v ?de ?vk = Inr (ContainerId cont, Dek DEV_DEK)"
    using open_wrapped[OF assms(2), of DEV_DEVICE_KEK "Dek DEV_DEK" ?de cont] assms(3) by (simp add: kek_wrap_def)
  have "fresh_at DEFAULT_MAX_AGE_SECS now now" by (simp add: fresh_at_def)
  then have "enrollment_accept v ?de \<lparr>eg_policy = Some (gk_sign (ne_ed v) (ne_envelope v) ?k 1 now (UpdatePolicy policy)),
      eg_volume_key = Some ?vk\<rparr> now =
    Inr \<lparr>ac_verifier = \<lparr>gv_tenant = TenantId 1, gv_key = gk_public_key (ne_ed v) ?k, gv_high_water = 1,
       gv_max_age_secs = DEFAULT_MAX_AGE_SECS\<rparr>, ac_policy = Some policy, ac_volume = Some (ContainerId cont, Dek DEV_DEK)\<rparr>"
    using accept_issued[of v ?k 1 now policy now ?de "Some ?vk"] assms(1,4) k o by simp
  then show ?thesis using o key
    by (simp add: bootstrap_dev_enrollment_def record_open_volume_def enrollment_accept_def verifier_new_def Let_def)
qed

text \<open>
  The first boot succeeds. On a machine with no enrollment the daemon bootstraps a development
  enrollment and boots from it: none of its \<open>expect\<close>s fails, the policy is the one it was given, and
  the container opens with the development key.
\<close>

theorem first_boot_succeeds:
  assumes "ed25519_correct (ne_ed v)" "aes_kw_correct (ne_kw v)"
    and "length (kw_wrap (ne_kw v) DEV_DEVICE_KEK DEV_DEK) = WRAPPED_DEK_LEN"
    and "codec_ok_on (ne_envelope v) {envelope_new (TenantId 1) 1 now (UpdatePolicy demo)}"
    and "enrollment_load rc st = None"
  shows "\<exists>b. boot_enrollment v rc cc st ck cont demo now = Inr b \<and> bt_bootstrapped b \<and> bt_policy b = demo \<and>
    bt_container b = ContainerId cont \<and> bt_dek b = Dek DEV_DEK"
proof -
  obtain rec where r: "bootstrap_dev_enrollment v demo cont now = Inr rec" "er_policy rec = demo"
    "record_open_volume v rec None now = Inr (ContainerId cont, Dek DEV_DEK)"
    "ed_key_ok (ne_ed v) (er_pinned_tenant_key rec)"
    using bootstrap_accepts[OF assms(1-4)] by blast
  then show ?thesis using assms(5) by (simp add: boot_enrollment_def verifier_new_def Let_def)
qed

section \<open>The demonstration policies\<close>

lemma mac_demo_policy_ok:
  "validate mac_demo_policy = [] \<and> list_all (\<lambda>r. is_launchable r \<and>
     match_app (pb_apps mac_demo_policy) (ar_binary r) True = Some (ar_app_id r)) (ap_allow (pb_apps mac_demo_policy))"
  by code_simp

lemma win_demo_policy_launchable: "list_all is_launchable (ap_allow (pb_apps (win_demo_policy env)))"
  by (simp add: win_demo_policy_def Let_def win_app_def win_chromium_app_def with_launch_def with_executable_def
      with_display_name_def app_rule_new_def is_launchable_def)

lemma win_demo_policy_ok: "validate (win_demo_policy env) = []"
  by code_simp

lemma win_demo_policy_shadowed:
  "map ar_app_id (filter (\<lambda>r. match_app (pb_apps (win_demo_policy env)) (ar_binary r) plat \<noteq> Some (ar_app_id r))
     (ap_allow (pb_apps (win_demo_policy env)))) = [AppId ''explorer-work'']"
  by code_simp

text \<open>
  The built-in policies. Both pass the lint and list only applications that can be launched. On
  macOS every rule is the one its own binary is matched to; on Windows, in any environment, exactly
  one rule is shadowed: the file explorer's, whose binary is matched to the rule of the notepad.
\<close>

theorem demo_policies_checked:
  "validate mac_demo_policy = [] \<and> validate (win_demo_policy env) = [] \<and>
   list_all (\<lambda>r. is_launchable r \<and> match_app (pb_apps mac_demo_policy) (ar_binary r) True = Some (ar_app_id r))
     (ap_allow (pb_apps mac_demo_policy)) \<and>
   list_all is_launchable (ap_allow (pb_apps (win_demo_policy env))) \<and>
   map ar_app_id (filter (\<lambda>r. match_app (pb_apps (win_demo_policy env)) (ar_binary r) plat \<noteq> Some (ar_app_id r))
     (ap_allow (pb_apps (win_demo_policy env)))) = [AppId ''explorer-work'']"
  using mac_demo_policy_ok win_demo_policy_ok win_demo_policy_launchable win_demo_policy_shadowed by blast

section \<open>Durable stores\<close>

text \<open>What the daemon relies on of a store: a value saved while the file can be written is the one loaded.\<close>

locale durable_store =
  fixes load :: "'s \<Rightarrow> 'a option"
    and save :: "'s \<Rightarrow> 'a \<Rightarrow> 's"
    and ok :: "'s \<Rightarrow> bool"
    and storable :: "'a \<Rightarrow> bool"
  assumes load_save: "storable x \<Longrightarrow> ok s \<Longrightarrow> load (save s x) = Some x"
    and ok_save: "ok (save s x) = ok s"
begin

lemma ok_saves: "ok (foldl save s xs) = ok s"
  by (induction xs arbitrary: s) (simp_all add: ok_save)

lemma load_saves:
  assumes "ok s" "xs \<noteq> []" "storable (last xs)"
  shows "load (foldl save s xs) = Some (last xs)"
  using assms by (cases xs rule: rev_cases) (simp_all add: load_save ok_saves)

end

interpretation fes: durable_store "enrollment_load rc" "enrollment_save rc" "\<lambda>s. fe_write_ok s \<and> fe_rename_ok s"
  "\<lambda>x. cd_dec rc (cd_enc rc x) = Some x" for rc
  by unfold_locales (auto simp: enrollment_load_def enrollment_save_def)

interpretation fcs: durable_store "file_checkpoint_load cc" "file_checkpoint_save cc" "\<lambda>s. fk_write_ok s \<and> fk_rename_ok s"
  "\<lambda>x. cd_dec cc (cd_enc cc x) = Some x" for cc
  by unfold_locales (auto simp: file_checkpoint_load_def file_checkpoint_save_def)

interpretation mcs: durable_store mem_checkpoint_load mem_checkpoint_save "\<lambda>_. True" "\<lambda>_. True"
  by unfold_locales (auto simp: mem_checkpoint_load_def mem_checkpoint_save_def)

section \<open>What survives a restart\<close>

lemma persist_policies:
  "foldl (persist_policy rc) (st, rec) log =
     (foldl (enrollment_save rc) st (map (\<lambda>p. rec\<lparr>er_policy := p\<rparr>) log), rec\<lparr>er_policy := last (er_policy rec # log)\<rparr>)"
proof (induction log arbitrary: st rec)
  case (Cons p log)
  then show ?case by (simp add: persist_policy_def Let_def)
qed simp

text \<open>The enrollment file when the daemon stops: what the observer made of the accepted policies.\<close>

definition persisted ::
  "enrollment_record codec \<Rightarrow> booted_enrollment \<Rightarrow> ('k, 'b, 't) daemon \<Rightarrow> file_enrollment_store" where
  "persisted rc b d =
     fst (foldl (persist_policy rc) (bt_store b, bt_record b) (case dm_observer d of Some l \<Rightarrow> l | None \<Rightarrow> []))"

lemma record_open_volume_same:
  "record_open_volume v (rec\<lparr>er_policy := p\<rparr>) None now' = record_open_volume v rec None now"
  by (simp add: record_open_volume_def enrollment_accept_def)

lemma boot_facts:
  assumes "boot_enrollment v rc cc st ck cont demo now = Inr b"
  shows "enrollment_load rc st = Some (bt_record b) \<and> bt_store b = st \<or>
     enrollment_load rc st = None \<and> bt_store b = enrollment_save rc st (bt_record b)"
    "bt_policy b = er_policy (bt_record b)"
    "record_open_volume v (bt_record b) None now = Inr (bt_container b, bt_dek b)"
    "ed_key_ok (ne_ed v) (er_pinned_tenant_key (bt_record b))"
    "gv_high_water (bt_gateway b) = (case file_checkpoint_load cc ck of Some c \<Rightarrow> cp_gateway_high_water c | None \<Rightarrow> 0)"
proof -
  let ?load = "case enrollment_load rc st of
          Some rec \<Rightarrow> Inr (rec, st, False)
        | None \<Rightarrow> (case bootstrap_dev_enrollment v demo cont now of
               Inl _ \<Rightarrow> Inl ''locally issued dev grant must accept''
             | Inr rec \<Rightarrow> Inr (rec, enrollment_save rc st rec, True))"
  obtain rec st' bs where l: "?load = Inr (rec, st', bs)"
    using assms unfolding boot_enrollment_def rbind_eq_Inr by (metis prod_cases3)
  obtain c k where o: "record_open_volume v rec None now = Inr (c, k)"
    using assms unfolding boot_enrollment_def l by (cases "record_open_volume v rec None now") auto
  have kv: "ed_key_ok (ne_ed v) (er_pinned_tenant_key rec)"
    using assms unfolding boot_enrollment_def l
    by (cases "ed_key_ok (ne_ed v) (er_pinned_tenant_key rec)") (simp_all add: o verifier_new_def Let_def)
  have b: "bt_record b = rec" "bt_store b = st'" "bt_policy b = er_policy rec" "bt_container b = c" "bt_dek b = k"
    "gv_high_water (bt_gateway b) = (case file_checkpoint_load cc ck of Some c \<Rightarrow> cp_gateway_high_water c | None \<Rightarrow> 0)"
    using assms unfolding boot_enrollment_def l by (auto simp: o kv verifier_new_def with_high_water_def Let_def)
  show "enrollment_load rc st = Some (bt_record b) \<and> bt_store b = st \<or>
     enrollment_load rc st = None \<and> bt_store b = enrollment_save rc st (bt_record b)"
    using l unfolding b by (auto split: option.splits sum.splits)
  show "bt_policy b = er_policy (bt_record b)" "record_open_volume v (bt_record b) None now = Inr (bt_container b, bt_dek b)"
    "ed_key_ok (ne_ed v) (er_pinned_tenant_key (bt_record b))"
    "gv_high_water (bt_gateway b) = (case file_checkpoint_load cc ck of Some c \<Rightarrow> cp_gateway_high_water c | None \<Rightarrow> 0)"
    unfolding b(1,3,4,5) using o kv b(6) by simp_all
qed

lemma boot_from_record:
  assumes "enrollment_load rc st = Some rec" "record_open_volume v rec None now = Inr (c, k)"
    "ed_key_ok (ne_ed v) (er_pinned_tenant_key rec)"
  shows "\<exists>b. boot_enrollment v rc cc st ck cont demo now = Inr b \<and> bt_policy b = er_policy rec \<and>
    bt_container b = c \<and> bt_dek b = k \<and> \<not> bt_bootstrapped b"
  using assms by (simp add: boot_enrollment_def Let_def verifier_new_def)

lemma boot_daemon_simps [simp]:
  "dm_observer (boot_daemon kw z b) = Some []" "dm_policy (boot_daemon kw z b) = bt_policy b"
  "dm_gateway (boot_daemon kw z b) = bt_gateway b"
  by (simp_all add: boot_daemon_def set_policy_observer_def daemon_new_def Let_def)

text \<open>The enrollment file holds the record with the policy in force, however the daemon ran.\<close>

lemma persisted_record:
  assumes "boot_enrollment v rc cc st ck cont demo now = Inr b" "fe_write_ok st" "fe_rename_ok st"
    and "codec_ok_on rc {bt_record b, (bt_record b)\<lparr>er_policy := dm_policy d\<rparr>}"
    and "d = foldl (daemon_apply dv) (boot_daemon kw z b) ops"
  shows "enrollment_load rc (persisted rc b d) = Some ((bt_record b)\<lparr>er_policy := dm_policy d\<rparr>)"
proof -
  let ?r = "\<lambda>p. (bt_record b)\<lparr>er_policy := p\<rparr>"
  obtain l where l: "dm_observer d = Some l" "dm_policy d = last (bt_policy b # l)"
    using policy_run[of "boot_daemon kw z b" "[]" "bt_policy b" dv ops] assms(5) by auto
  have st: "fe_write_ok (bt_store b) \<and> fe_rename_ok (bt_store b)"
    using boot_facts(1)[OF assms(1)] assms(2,3) by (auto simp: enrollment_save_def)
  have codec: "cd_dec rc (cd_enc rc (bt_record b)) = Some (bt_record b)"
    "cd_dec rc (cd_enc rc (?r (dm_policy d))) = Some (?r (dm_policy d))"
    using codec_ok_onD[OF assms(4)] by blast+
  have "enrollment_load rc (bt_store b) = Some (bt_record b)"
    using boot_facts(1)[OF assms(1)] fes.load_save[of rc "bt_record b" st] codec(1) assms(2,3)
    by auto
  moreover have "enrollment_load rc (foldl (enrollment_save rc) (bt_store b) (map ?r l)) = Some (?r (last l))" if "l \<noteq> []"
    using fes.load_saves[of "bt_store b" "map ?r l" rc] st that codec(2) l(2) by (simp add: last_map)
  ultimately show ?thesis
    using boot_facts(2)[OF assms(1)] by (simp add: persisted_def l persist_policies)
qed

text \<open>
  A restart resumes where the daemon stopped. After any operations, if the enrollment file could
  be written, booting again succeeds and finds the enrollment: the policy is the one that was in
  force when the daemon stopped, of a version no older than the one it started with, and the
  container and its key are the same.
\<close>

theorem reboot_keeps_policy:
  assumes "boot_enrollment v rc cc st ck cont demo now = Inr b" "fe_write_ok st" "fe_rename_ok st"
    and "codec_ok_on rc {bt_record b, (bt_record b)\<lparr>er_policy := dm_policy d\<rparr>}"
    and "d = foldl (daemon_apply dv) (boot_daemon kw z b) ops"
  shows "\<exists>b2. boot_enrollment v rc cc (persisted rc b d) ck' cont' demo' now' = Inr b2 \<and>
    bt_policy b2 = dm_policy d \<and> pb_version (bt_policy b) \<le> pb_version (bt_policy b2) \<and>
    bt_container b2 = bt_container b \<and> bt_dek b2 = bt_dek b \<and> \<not> bt_bootstrapped b2"
proof -
  let ?rec = "(bt_record b)\<lparr>er_policy := dm_policy d\<rparr>"
  have "record_open_volume v ?rec None now' = Inr (bt_container b, bt_dek b)"
    unfolding record_open_volume_same[of v _ _ now' now] by (rule boot_facts(3)[OF assms(1)])
  from boot_from_record[OF persisted_record[OF assms] this, of cc ck' cont' demo'] boot_facts(4)[OF assms(1)]
  obtain b2 where b2: "boot_enrollment v rc cc (persisted rc b d) ck' cont' demo' now' = Inr b2"
    "bt_policy b2 = dm_policy d" "bt_container b2 = bt_container b" "bt_dek b2 = bt_dek b" "\<not> bt_bootstrapped b2"
    by auto
  obtain l where "dm_policy d = last (bt_policy b # l)" "sorted (map pb_version (bt_policy b # l))"
    using policy_run[of "boot_daemon kw z b" "[]" "bt_policy b" dv ops] assms(5) by auto
  then have "pb_version (bt_policy b) \<le> pb_version (dm_policy d)" by (cases l rule: rev_cases) auto
  with b2 show ?thesis by auto
qed

text \<open>The key of the rebooted volume: it unlocks whatever became of the volume before.\<close>

lemma boot_daemon_unlocks:
  assumes "dv_keystore dv = mem_keystore_ops kw" "dv_backing dv = mem_backing_ops" "aes_kw_correct kw"
  shows "snd (unlock_volume dv (boot_daemon kw z b) now) = Inr () \<and>
    cv_cipher (dm_volume (fst (unlock_volume dv (boot_daemon kw z b) now))) = Some (xts_new (bt_dek b))"
  using kek_unwrap_wrap[OF assms(3)]
  by (simp add: unlock_volume_def volume_unlock_def assms(1,2) boot_daemon_def set_policy_observer_def daemon_new_def
      volume_new_def container_meta_new_def mem_keystore_ops_def mem_backing_ops_def mem_backing_zeroed_def
      mem_is_wiped_def mem_provision_def mem_contains_def mem_unwrap_dek_def Let_def)

text \<open>
  (C38) A wipe does not survive a restart. The wipe destroys the key in the daemon's memory, but the
  enrollment file keeps the wrapped container key and the key that opens it: whatever the daemon did,
  a wipe included, booting again recovers the same container key and the volume unlocks with it.
\<close>

theorem wipe_undone_by_reboot:
  assumes "dv_keystore dv = mem_keystore_ops kw" "dv_backing dv = mem_backing_ops" "aes_kw_correct kw"
    and "boot_enrollment v rc cc st ck cont demo now = Inr b" "fe_write_ok st" "fe_rename_ok st"
    and "codec_ok_on rc {bt_record b, (bt_record b)\<lparr>er_policy := dm_policy d\<rparr>}"
    and "d = foldl (daemon_apply dv) (boot_daemon kw z b) ops"
  shows "\<exists>b2 d2. boot_enrollment v rc cc (persisted rc b d) ck' cont' demo' now' = Inr b2 \<and>
    unlock_volume dv (boot_daemon kw z' b2) now' = (d2, Inr ()) \<and>
    cv_cipher (dm_volume d2) = Some (xts_new (bt_dek b))"
proof -
  let ?rec = "(bt_record b)\<lparr>er_policy := dm_policy d\<rparr>"
  have "record_open_volume v ?rec None now' = Inr (bt_container b, bt_dek b)"
    unfolding record_open_volume_same[of v _ _ now' now] by (rule boot_facts(3)[OF assms(4)])
  from boot_from_record[OF persisted_record[OF assms(4-8)] this, of cc ck' cont' demo'] boot_facts(4)[OF assms(4)]
  obtain b2 where "boot_enrollment v rc cc (persisted rc b d) ck' cont' demo' now' = Inr b2" "bt_dek b2 = bt_dek b"
    by auto
  then show ?thesis using boot_daemon_unlocks[OF assms(1-3), of z' b2 now'] by (metis prod.collapse)
qed

section \<open>Replay protection survives a restart\<close>

text \<open>A round saves at most twice, and the last save is of the daemon it returns.\<close>

lemma sync_store:
  assumes "sync_once v loopback_link_ops (file_checkpoint_ops cc) gs d now = (gs', d', rep)"
  shows "\<exists>s. gs_store gs' = file_checkpoint_save cc s (daemon_checkpoint d') \<and>
    fk_write_ok s = fk_write_ok (gs_store gs) \<and> fk_rename_ok s = fk_rename_ok (gs_store gs)"
proof -
  have ok: "fk_write_ok (file_checkpoint_save cc s c) = fk_write_ok s"
    "fk_rename_ok (file_checkpoint_save cc s c) = fk_rename_ok s" for s c
    by (simp_all add: file_checkpoint_save_def)
  show ?thesis using assms
    by (auto simp: sync_once_def file_checkpoint_ops_def Let_def ok split: prod.splits if_splits sum.splits link_error.splits)
qed

lemma commands_high_water: "gv_high_water (dm_gateway d) \<le> gv_high_water (dm_gateway (fst (apply_commands v d cs now)))"
proof (induction cs arbitrary: d)
  case (Cons c cs)
  have "gv_high_water (dm_gateway d) \<le> gv_high_water (dm_gateway (fst (apply_gateway_command v d c now)))"
    using gateway_step[of d v "OpEvent (EvGatewayControl c) now"] by simp
  also note Cons.IH
  finally show ?case by (simp add: Let_def split_beta split: sum.splits)
qed simp

text \<open>
  (C33) Replay protection survives a restart. A daemon accepted a command, ran on, and completed a
  synchronisation round whose checkpoint could be written. Whenever the machine is restarted from
  that checkpoint, whatever the enrollment file then holds, the daemon rejects the command again.
\<close>

theorem reboot_rejects_replay:
  assumes "apply_gateway_command v d sc t1 = (d1, r)" "\<forall>e. r \<noteq> Inl (CommandRejected e)"
    and "d2 = foldl (daemon_apply v) d1 ops"
    and "sync_once v loopback_link_ops (file_checkpoint_ops cc) gs d2 t2 = (gs', d3, rep)"
    and "fk_write_ok (gs_store gs)" "fk_rename_ok (gs_store gs)" "codec_ok_on cc {daemon_checkpoint d3}"
    and "boot_enrollment ev rc cc st (gs_store gs') cont demo t3 = Inr b"
  shows "\<exists>e. apply_gateway_command v (boot_daemon kw z b) sc t3 = (boot_daemon kw z b, Inl (CommandRejected e))"
proof -
  obtain gv cmd where c: "verify (dv_ed v) (dv_envelope v) (dm_gateway d) sc t1 = (gv, Inr cmd)" "dm_gateway d1 = gv"
    using accepted_command[OF assms(1,2)] by blast
  have "gv_high_water gv \<le> gv_high_water (dm_gateway d2)"
    using gateway_run[of d1 v ops] assms(3) c(2) by simp
  also have "\<dots> \<le> gv_high_water (dm_gateway d3)"
    using commands_high_water[of d2 v "lb_inbound (gs_link gs)" t2]
      lbk.sync_effect(5)[unfolded lbk_ops, OF assms(4) refl] by (auto split: if_splits)
  also have "\<dots> = gv_high_water (bt_gateway b)"
  proof -
    obtain s where "gs_store gs' = file_checkpoint_save cc s (daemon_checkpoint d3)" "fk_write_ok s \<and> fk_rename_ok s"
      using sync_store[OF assms(4)] assms(5,6) by (auto simp: file_checkpoint_ops_def)
    then have "file_checkpoint_load cc (gs_store gs') = Some (daemon_checkpoint d3)"
      using fcs.load_save[of cc "daemon_checkpoint d3" s] codec_ok_onD[OF assms(7)] by simp
    then show ?thesis using boot_facts(5)[OF assms(8)] by (simp add: daemon_checkpoint_def)
  qed
  finally have "gv_high_water gv \<le> gv_high_water (dm_gateway (boot_daemon kw z b))" by simp
  from verify_replay[OF c(1) this, of t3] show ?thesis by (auto simp: apply_gateway_command_def Let_def)
qed

section \<open>Witnesses\<close>

definition pad_kw :: aes_kw where
  "pad_kw = \<lparr>kw_wrap = (\<lambda>k d. d @ replicate 8 0), kw_unwrap = (\<lambda>k w. Some (take (length w - 8) w))\<rparr>"

definition demo_enroll_env :: enroll_env where
  "demo_enroll_env = \<lparr>ne_ed = ed_demo,
     ne_envelope = \<lparr>cd_enc = (\<lambda>_. [1]), cd_dec = (\<lambda>_. Some (envelope_new (TenantId 1) 1 100 (UpdatePolicy restrictive_default)))\<rparr>,
     ne_sha = id, ne_kw = pad_kw, ne_x = \<lparr>dh_public = Some, dh_shared = (\<lambda>p s. Some [hd p + hd s])\<rparr>\<rparr>"

lemma pad_kw_correct: "aes_kw_correct pad_kw"
  by (simp add: aes_kw_correct_def pad_kw_def)

lemma pad_kw_length: "length d = DEK_LEN \<Longrightarrow> length (kw_wrap pad_kw k d) = WRAPPED_DEK_LEN"
  by (simp add: pad_kw_def WRAPPED_DEK_LEN_def)

lemma demo_enroll_hyps:
  "ed25519_correct (ne_ed demo_enroll_env)" "aes_kw_correct (ne_kw demo_enroll_env)"
  "length (kw_wrap (ne_kw demo_enroll_env) DEV_DEVICE_KEK DEV_DEK) = WRAPPED_DEK_LEN"
  "codec_ok_on (ne_envelope demo_enroll_env) {envelope_new (TenantId 1) 1 100 (UpdatePolicy restrictive_default)}"
  by (simp_all add: demo_enroll_env_def ed_demo_correct pad_kw_correct pad_kw_length codec_ok_on_def DEV_DEK_def)

definition demo_record :: enrollment_record where
  "demo_record = (case bootstrap_dev_enrollment demo_enroll_env restrictive_default 9 100 of Inr r \<Rightarrow> r | Inl _ \<Rightarrow> undefined)"

definition demo_record_codec :: "enrollment_record codec" where
  "demo_record_codec = \<lparr>cd_enc = (\<lambda>_. []), cd_dec = (\<lambda>_. Some demo_record)\<rparr>"

abbreviation "no_enrollment \<equiv> \<lparr>fe_file = None, fe_write_ok = True, fe_rename_ok = True\<rparr>"
abbreviation "no_checkpoint \<equiv> \<lparr>fk_file = None, fk_write_ok = True, fk_rename_ok = True\<rparr>"

definition demo_checkpoint_codec :: "checkpoint \<Rightarrow> checkpoint codec" where
  "demo_checkpoint_codec c = \<lparr>cd_enc = (\<lambda>_. []), cd_dec = (\<lambda>_. Some c)\<rparr>"

lemma no_enrollment_load: "enrollment_load rc no_enrollment = None"
  by (simp add: enrollment_load_def)

lemma demo_boot:
  assumes "boot_enrollment demo_enroll_env demo_record_codec cc no_enrollment ck 9 restrictive_default 100 = Inr b"
  shows "bt_record b = demo_record" "bt_policy b = restrictive_default"
proof -
  have "bootstrap_dev_enrollment demo_enroll_env restrictive_default 9 100 = Inr demo_record"
    "er_policy demo_record = restrictive_default"
    using bootstrap_accepts[OF demo_enroll_hyps, of 9] by (auto simp: demo_record_def)
  then show "bt_record b = demo_record" "bt_policy b = restrictive_default"
    using assms by (auto simp: boot_enrollment_def no_enrollment_load result_eqs Let_def split: option.splits)
qed

lemma no_enrollment_ok: "fe_write_ok no_enrollment" "fe_rename_ok no_enrollment"
  by simp_all

lemma demo_boots: "\<exists>b. boot_enrollment demo_enroll_env demo_record_codec cc no_enrollment ck 9 restrictive_default 100 = Inr b"
  using bootstrap_accepts[OF demo_enroll_hyps, of 9]
  by (auto simp: boot_enrollment_def no_enrollment_load verifier_new_def Let_def)

theorem first_boot_succeeds_witness:
  "\<exists>b. boot_enrollment demo_enroll_env demo_record_codec (demo_checkpoint_codec undefined) no_enrollment no_checkpoint 9
       restrictive_default 100 = Inr b \<and> bt_dek b = Dek DEV_DEK"
  using first_boot_succeeds[OF demo_enroll_hyps no_enrollment_load, of demo_record_codec] by blast

text \<open>A boot, an unlock, a wipe of container 9, and the next boot.\<close>

definition boot_env :: "(mem_key_store, mem_backing, loopback_tunnel) daemon_env" where
  "boot_env = demo_daemon_env\<lparr>dv_keystore := mem_keystore_ops pad_kw\<rparr>"

abbreviation "boot_ops \<equiv>
  [OpEvent EvVolumeUnlock 101,
   OpEvent (EvGatewayControl \<lparr>sc_envelope = [1], sc_signature = DEV_TENANT_SEED @ signing_input [1]\<rparr>) 102]"

lemma boot_ops_policy: "dm_policy (foldl (daemon_apply boot_env) d boot_ops) = dm_policy d"
  by (auto simp: frames apply_gateway_command_def boot_env_def demo_daemon_env_def wipe_envelope_def envelope_new_def verify_def Let_def
      split_beta split: sum.splits gateway_command.splits if_splits)

lemma boot_env_stores: "dv_keystore boot_env = mem_keystore_ops pad_kw" "dv_backing boot_env = mem_backing_ops"
  by (simp_all add: boot_env_def demo_daemon_env_def)

lemma demo_codec_ok:
  assumes "boot_enrollment demo_enroll_env demo_record_codec cc no_enrollment ck 9 restrictive_default 100 = Inr b"
  shows "codec_ok_on demo_record_codec
    {bt_record b, (bt_record b)\<lparr>er_policy := dm_policy (foldl (daemon_apply boot_env) (boot_daemon pad_kw zone_new b) boot_ops)\<rparr>}"
proof -
  have "er_policy (bt_record b) = restrictive_default"
    using boot_facts(2)[OF assms] demo_boot(2)[OF assms] by simp
  then have "(bt_record b)\<lparr>er_policy := restrictive_default\<rparr> = bt_record b" by simp
  then show ?thesis
    unfolding boot_ops_policy boot_daemon_simps demo_boot[OF assms] by (simp add: codec_ok_on_def demo_record_codec_def)
qed

theorem reboot_keeps_policy_witness:
  "\<exists>b b2. boot_enrollment demo_enroll_env demo_record_codec (demo_checkpoint_codec undefined)
      (persisted demo_record_codec b (foldl (daemon_apply boot_env) (boot_daemon pad_kw zone_new b) boot_ops))
      no_checkpoint 9 restrictive_default 200 = Inr b2 \<and> \<not> bt_bootstrapped b2"
proof -
  obtain b where b: "boot_enrollment demo_enroll_env demo_record_codec (demo_checkpoint_codec undefined) no_enrollment no_checkpoint 9
      restrictive_default 100 = Inr b"
    using demo_boots by blast
  from reboot_keeps_policy[where ck' = no_checkpoint and cont' = 9 and demo' = restrictive_default and now' = 200,
      OF b no_enrollment_ok demo_codec_ok[OF b] refl]
  show ?thesis by blast
qed

theorem wipe_undone_by_reboot_witness:
  "\<exists>b b2 d2. boot_enrollment demo_enroll_env demo_record_codec (demo_checkpoint_codec undefined)
      (persisted demo_record_codec b (foldl (daemon_apply boot_env) (boot_daemon pad_kw zone_new b) boot_ops))
      no_checkpoint 9 restrictive_default 200 = Inr b2 \<and>
      unlock_volume boot_env (boot_daemon pad_kw zone_new b2) 200 = (d2, Inr ())"
proof -
  obtain b where b: "boot_enrollment demo_enroll_env demo_record_codec (demo_checkpoint_codec undefined) no_enrollment no_checkpoint 9
      restrictive_default 100 = Inr b"
    using demo_boots by blast
  from wipe_undone_by_reboot[where ck' = no_checkpoint and cont' = 9 and demo' = restrictive_default and now' = 200 and z' = zone_new,
      OF boot_env_stores pad_kw_correct b no_enrollment_ok demo_codec_ok[OF b] refl]
  show ?thesis by blast
qed

text \<open>The wipe of container 9, a round with the link down, a restart, and the same command again.\<close>

theorem reboot_rejects_replay_witness:
  "\<exists>b e. apply_gateway_command demo_daemon_env (boot_daemon pad_kw zone_new b) demo_wipe 100 =
     (boot_daemon pad_kw zone_new b, Inl (CommandRejected e))"
proof -
  obtain d1 r where a: "apply_gateway_command demo_daemon_env demo_daemon demo_wipe 100 = (d1, r)" by fastforce
  have acc: "\<forall>e. r \<noteq> Inl (CommandRejected e)"
    using demo_wipe_accepted a by simp
  define gs where "gs = \<lparr>gs_link = \<lparr>lb_inbound = [], lb_pushed = [], lb_online = False\<rparr>,
     gs_device_key = device_key_from_seed [5], gs_store = no_checkpoint\<rparr>"
  let ?cc = "demo_checkpoint_codec (daemon_checkpoint d1)"
  obtain gs' d3 rep where s: "sync_once demo_daemon_env loopback_link_ops (file_checkpoint_ops ?cc) gs d1 101 = (gs', d3, rep)"
    using prod_cases3 by blast
  have "d3 = d1"
    using lbk.sync_effect(5)[unfolded lbk_ops, OF s refl] by (simp add: gs_def)
  then have ok: "fk_write_ok (gs_store gs)" "fk_rename_ok (gs_store gs)" "codec_ok_on ?cc {daemon_checkpoint d3}"
    by (simp_all add: gs_def codec_ok_on_def demo_checkpoint_codec_def)
  obtain b where "boot_enrollment demo_enroll_env demo_record_codec ?cc no_enrollment (gs_store gs') 9 restrictive_default 100 = Inr b"
    using demo_boots by blast
  moreover have "d1 = foldl (daemon_apply demo_daemon_env) d1 []" by simp
  ultimately show ?thesis using reboot_rejects_replay[OF a acc _ s ok, of _ demo_enroll_env] by blast
qed

end
