(* ===== verification/Http.thy ===== *)
theory Http
  imports Gateway Rust_Hex
begin

text \<open>
  The HTTP interface of the gateway (\<open>clave-gateway/src/http.rs\<close>): sealed session cookies, the
  handlers of the console, enrollment, administration, audit and directory routes, and the mapping of
  errors to status codes. Bodies are the typed values behind their JSON. The cipher, base64, JSON of
  the session, cookie parsing and rendering and the check of header text are the arguments of
  \<open>http_env\<close>; a request reads the clock at most twice (\<open>clock 0\<close> and \<open>clock 1\<close>) and the nonce of a
  sealed cookie is an argument.
\<close>

section \<open>Sealed sessions\<close>

definition SESSION_COOKIE :: string where
  "SESSION_COOKIE = ''clave_session''"

definition SESSION_TTL_SECS :: u64 where
  "SESSION_TTL_SECS = 8 * 60 * 60"

datatype same_site = Lax | Strict | NoneSite

record set_cookie =
  sk_name :: string
  sk_value :: string
  sk_http_only :: bool
  sk_secure :: bool
  sk_same_site :: same_site
  sk_path :: string
  sk_max_age :: "u64 option"

record http_env =
  hx_to_json :: "session \<Rightarrow> string + bytes"
  hx_from_json :: "bytes \<Rightarrow> session option"
  hx_encrypt :: "bytes \<Rightarrow> bytes \<Rightarrow> bytes \<Rightarrow> bytes option"
  hx_decrypt :: "bytes \<Rightarrow> bytes \<Rightarrow> bytes \<Rightarrow> bytes option"
  hx_b64 :: "bytes \<Rightarrow> string"
  hx_unb64 :: "string \<Rightarrow> bytes option"
  hx_parse_cookies :: "string \<Rightarrow> (string \<times> string) list"
  hx_render_cookie :: "set_cookie \<Rightarrow> string"
  hx_header_text :: "string \<Rightarrow> bool"

record session_sealer =
  sl_key :: bytes

definition sealer_seal :: "http_env \<Rightarrow> session_sealer \<Rightarrow> bytes \<Rightarrow> session \<Rightarrow> gateway_error + string" where
  "sealer_seal h sl nonce s =
     rbind (map_err GStore (hx_to_json h s)) (\<lambda>plaintext.
     rbind (ok_or (hx_encrypt h (sl_key sl) nonce plaintext) (GStore ''seal failed'')) (\<lambda>ct.
       Inr (hx_b64 h (nonce @ ct))))"

definition sealer_unseal :: "http_env \<Rightarrow> session_sealer \<Rightarrow> string \<Rightarrow> session option" where
  "sealer_unseal h sl token =
     (case hx_unb64 h token of
        None \<Rightarrow> None
      | Some blob \<Rightarrow>
          (if length blob < 12 then None
           else case hx_decrypt h (sl_key sl) (take 12 blob) (drop 12 blob) of
                  None \<Rightarrow> None
                | Some pt \<Rightarrow> hx_from_json h pt))"

section \<open>Requests and responses\<close>

record ('s, 'c, 'a) app_state =
  st_gateway :: "('s, 'c, 'a) gateway"
  st_sealer :: session_sealer
  st_scim_token :: "string option"

definition app_state_new :: "('s, 'c, 'a) gateway \<Rightarrow> session_sealer \<Rightarrow> ('s, 'c, 'a) app_state" where
  "app_state_new g sl = \<lparr>st_gateway = g, st_sealer = sl, st_scim_token = None\<rparr>"

definition with_scim_token :: "('s, 'c, 'a) app_state \<Rightarrow> string \<Rightarrow> ('s, 'c, 'a) app_state" where
  "with_scim_token st token = st\<lparr>st_scim_token := Some token\<rparr>"

text \<open>The raw values of the two headers the handlers read.\<close>

record headers =
  hd_cookie :: "string option"
  hd_authorization :: "string option"

datatype http_request =
    ConsoleCallback string
  | AuthMe
  | Logout
  | EnrollStart u64
  | EnrollPoll u64 string
  | EnrollComplete u64 string string "string option"
  | AdminListMembers
  | AdminInvite string role "u64 option"
  | AdminChangeRole u64 role
  | AdminSuspend u64
  | AdminRestore u64
  | AdminListInvitations
  | AdminListDevices
  | AdminLockDevice string
  | AdminWipeDevice string
  | AdminGetPolicy
  | AdminAuthorPolicy policy_bundle
  | AdminPolicyVersions
  | AdminReissuePolicy
  | AdminAuditEvents
  | AdminAuditAlerts
  | AuditIngest string signed_spool_batch
  | ScimEvents scim_event

datatype body =
    Empty
  | Text string
  | JDelta membership_delta
  | JAdmitted nat
  | JEvents "audit_record list"
  | JAlerts "audit_alert list"
  | JMembers "member_record list"
  | JInvitation invitation
  | JInvitations "invitation list"
  | JDevices "device_record list"
  | JPolicy "policy_bundle option"
  | JBundle policy_bundle
  | JVersions "u64 list"
  | JSigned signed_command
  | JSessionInfo u64 role
  | JMe u64 u64 role
  | JDeviceAuth device_auth
  | JOutcome enrollment_outcome
  | JCompletion enrollment_completion

record response =
  rs_status :: nat
  rs_body :: body
  rs_set_cookie :: "string option"

definition reply :: "nat \<Rightarrow> body \<Rightarrow> response" where
  "reply code b = \<lparr>rs_status = code, rs_body = b, rs_set_cookie = None\<rparr>"

abbreviation "no_content \<equiv> reply 204 Empty"

fun error_status :: "gateway_error \<Rightarrow> nat" where
  "error_status (Unauthorized _) = 403"
| "error_status (GInvite _) = 403"
| "error_status (Forbidden _) = 403"
| "error_status SessionInvalid = 401"
| "error_status NoSuchWorkspace = 404"
| "error_status (GNotFound _) = 404"
| "error_status (GIdp _) = 502"
| "error_status (GStore _) = 500"
| "error_status (GCounter _) = 500"

definition err_response :: "gateway_error \<Rightarrow> response" where
  "err_response e = reply (error_status e) (Text (gateway_error_display e))"

definition audit_err_response :: "ingest_error \<Rightarrow> response" where
  "audit_err_response e =
     reply (case e of UnknownDevice _ \<Rightarrow> 404 | IngestRejected _ \<Rightarrow> 409) (Text (ingest_error_display e))"

text \<open>\<open>str::parse::<u128>\<close>.\<close>

definition parse_u128 :: "string \<Rightarrow> u128 option" where
  "parse_u128 s =
     (let t = (case s of c # r \<Rightarrow> (if c = CHR ''+'' then r else s) | [] \<Rightarrow> s)
      in case parse_nat t of None \<Rightarrow> None | Some n \<Rightarrow> if n < 2 ^ 128 then Some (of_nat n) else None)"

section \<open>Cookies\<close>

definition session_set_cookie :: "string \<Rightarrow> set_cookie" where
  "session_set_cookie value =
     \<lparr>sk_name = SESSION_COOKIE, sk_value = value, sk_http_only = True, sk_secure = True, sk_same_site = Lax,
      sk_path = ''/'', sk_max_age = None\<rparr>"

definition clear_cookie :: set_cookie where
  "clear_cookie =
     \<lparr>sk_name = SESSION_COOKIE, sk_value = [], sk_http_only = True, sk_secure = True, sk_same_site = Lax,
      sk_path = ''/'', sk_max_age = Some 0\<rparr>"

definition with_cookie :: "http_env \<Rightarrow> response \<Rightarrow> set_cookie \<Rightarrow> response" where
  "with_cookie h r c =
     (let s = hx_render_cookie h c in if hx_header_text h s then r\<lparr>rs_set_cookie := Some s\<rparr> else r)"

definition header_str :: "http_env \<Rightarrow> string option \<Rightarrow> string option" where
  "header_str h x = (case x of None \<Rightarrow> None | Some s \<Rightarrow> if hx_header_text h s then Some s else None)"

definition read_session :: "http_env \<Rightarrow> headers \<Rightarrow> session_sealer \<Rightarrow> session option" where
  "read_session h hdr sl =
     (case header_str h (hd_cookie hdr) of
        None \<Rightarrow> None
      | Some raw \<Rightarrow>
          (case List.find (\<lambda>(n, _). n = SESSION_COOKIE) (hx_parse_cookies h raw) of
             None \<Rightarrow> None
           | Some (_, value) \<Rightarrow> sealer_unseal h sl value))"

definition scim_authorized :: "http_env \<Rightarrow> ('s, 'c, 'a) app_state \<Rightarrow> headers \<Rightarrow> bool" where
  "scim_authorized h st hdr =
     (case st_scim_token st of
        None \<Rightarrow> False
      | Some expected \<Rightarrow>
          (case Option.bind (header_str h (hd_authorization hdr)) (\<lambda>v. strip_prefix v ''Bearer '') of
             None \<Rightarrow> False
           | Some token \<Rightarrow> token = expected))"

section \<open>Handlers\<close>

text \<open>The tail of a handler: the updated gateway and the answer of a result.\<close>

definition answer ::
  "('s, 'c, 'a) app_state \<Rightarrow> ('s, 'c, 'a) gateway \<times> (gateway_error + 'r) \<Rightarrow> ('r \<Rightarrow> response)
     \<Rightarrow> ('s, 'c, 'a) app_state \<times> response" where
  "answer st x f =
     (st\<lparr>st_gateway := fst x\<rparr>, case snd x of Inr a \<Rightarrow> f a | Inl e \<Rightarrow> err_response e)"

definition admin_ctx ::
  "('s, 'c, 'a) gateway_env \<Rightarrow> http_env \<Rightarrow> ('s, 'c, 'a) app_state \<Rightarrow> headers \<Rightarrow> unix_time \<Rightarrow> response + request_context" where
  "admin_ctx v h st hdr now =
     rbind (ok_or (read_session h hdr (st_sealer st)) (reply 401 (Text ''no session''))) (\<lambda>session.
       map_err err_response (authorize_request v (st_gateway st) session now))"

text \<open>\<open>let ctx = match admin_ctx(...).await { Ok(c) => c, Err(r) => return r }\<close>, then the handler's body.\<close>

definition as_admin ::
  "('s, 'c, 'a) gateway_env \<Rightarrow> http_env \<Rightarrow> ('s, 'c, 'a) app_state \<Rightarrow> headers \<Rightarrow> unix_time
     \<Rightarrow> (request_context \<Rightarrow> ('s, 'c, 'a) app_state \<times> response) \<Rightarrow> ('s, 'c, 'a) app_state \<times> response" where
  "as_admin v h st hdr now f = (case admin_ctx v h st hdr now of Inl r \<Rightarrow> (st, r) | Inr ctx \<Rightarrow> f ctx)"

definition scim_events where
  "scim_events v h st hdr event =
     (if \<not> scim_authorized h st hdr then (st, reply 401 (Text ''invalid or missing SCIM token''))
      else answer st (apply_directory_event v (st_gateway st) event) (\<lambda>delta. reply 200 (JDelta delta)))"

definition audit_ingest ::
  "('s, 'c, 'a) gateway_env \<Rightarrow> ('s, 'c, 'a) app_state \<Rightarrow> string \<Rightarrow> signed_spool_batch
     \<Rightarrow> ('s, 'c, 'a) app_state \<times> response" where
  "audit_ingest v st device batch =
     (case parse_u128 device of
        None \<Rightarrow> (st, reply 400 (Text ''device must be a decimal u128''))
      | Some i \<Rightarrow>
          (case ingest_device_audit v (st_gateway st) (DeviceId i) batch of
             (g, Inr events) \<Rightarrow> (st\<lparr>st_gateway := g\<rparr>, reply 200 (JAdmitted (length events)))
           | (g, Inl e) \<Rightarrow> (st\<lparr>st_gateway := g\<rparr>, audit_err_response e)))"

definition console_callback where
  "console_callback v h st nonce code now =
     (case console_login v (st_gateway st) code now SESSION_TTL_SECS of
        (g, Inl e) \<Rightarrow> (st\<lparr>st_gateway := g\<rparr>, err_response e)
      | (g, Inr session) \<Rightarrow>
          (st\<lparr>st_gateway := g\<rparr>,
           (case sealer_seal h (st_sealer st) nonce session of
              Inl e \<Rightarrow> err_response e
            | Inr cookie \<Rightarrow>
                with_cookie h (reply 200 (JSessionInfo (workspace_num (ss_workspace session)) (ss_role session)))
                  (session_set_cookie cookie))))"

definition refresh_and_reply where
  "refresh_and_reply v h st nonce session now =
     (case refresh_session v (st_gateway st) session now SESSION_TTL_SECS of
        (g, Inl e) \<Rightarrow> (st\<lparr>st_gateway := g\<rparr>, err_response e)
      | (g, Inr refreshed) \<Rightarrow>
          (st\<lparr>st_gateway := g\<rparr>,
           (case sealer_seal h (st_sealer st) nonce refreshed of
              Inl e \<Rightarrow> err_response e
            | Inr cookie \<Rightarrow>
                with_cookie h
                  (reply 200 (JMe (user_num (ss_user refreshed)) (workspace_num (ss_workspace refreshed)) (ss_role refreshed)))
                  (session_set_cookie cookie))))"

definition auth_me where
  "auth_me v h st hdr nonce clock =
     (case read_session h hdr (st_sealer st) of
        None \<Rightarrow> (st, reply 401 (Text ''no session''))
      | Some session \<Rightarrow>
          (case authorize_request v (st_gateway st) session (clock 0) of
             Inr ctx \<Rightarrow> (st, reply 200 (JMe (user_num (rc_user ctx)) (workspace_num (rc_workspace ctx)) (rc_role ctx)))
           | Inl SessionInvalid \<Rightarrow> refresh_and_reply v h st nonce session (clock (1 :: nat))
           | Inl e \<Rightarrow> (st, err_response e)))"

definition logout :: "http_env \<Rightarrow> response" where
  "logout h = with_cookie h no_content clear_cookie"

definition enroll_complete where
  "enroll_complete v st workspace device_code device_pubkey device_wrapping_key now =
     (case parse_pubkey device_pubkey of
        None \<Rightarrow> (st, reply 400 (Text ''device_pubkey must be 64 hex chars (32 bytes)''))
      | Some pubkey \<Rightarrow>
          (case map_option parse_pubkey device_wrapping_key of
             Some None \<Rightarrow> (st, reply 400 (Text ''device_wrapping_key must be 64 hex chars (32 bytes)''))
           | None \<Rightarrow>
               answer st (complete_enrollment v (st_gateway st) (WorkspaceId workspace) device_code pubkey None now)
                 (\<lambda>outcome. reply 200 (JCompletion outcome))
           | Some (Some k) \<Rightarrow>
               answer st (complete_enrollment v (st_gateway st) (WorkspaceId workspace) device_code pubkey (Some k) now)
                 (\<lambda>outcome. reply 200 (JCompletion outcome))))"

definition on_device ::
  "('s, 'c, 'a) app_state \<Rightarrow> string \<Rightarrow> (device_id \<Rightarrow> ('s, 'c, 'a, unit) gw_result) \<Rightarrow> ('s, 'c, 'a) app_state \<times> response" where
  "on_device st device f =
     (case parse_u128 device of
        None \<Rightarrow> (st, reply 400 (Text ''device must be a decimal u128''))
      | Some i \<Rightarrow> answer st (f (DeviceId i)) (\<lambda>_. no_content))"

definition enroll_start where
  "enroll_start v st w =
     answer st (st_gateway st, begin_enrollment v (WorkspaceId w)) (\<lambda>a. reply 200 (JDeviceAuth a))"

definition enroll_poll where
  "enroll_poll v st w code =
     answer st (poll_enrollment v (st_gateway st) (WorkspaceId w) code) (\<lambda>o1. reply 200 (JOutcome o1))"

text \<open>The administrative handlers: the clock is read for the session, and again where \<open>later\<close> is.\<close>

definition admin_list_members where
  "admin_list_members v h st hdr now =
     as_admin v h st hdr now (\<lambda>ctx.
       answer st (st_gateway st, gw_list_members v (st_gateway st) ctx) (\<lambda>ms. reply 200 (JMembers ms)))"

definition admin_invite where
  "admin_invite v h st hdr now later email role expires_at =
     as_admin v h st hdr now (\<lambda>ctx.
       answer st (invite_member v (st_gateway st) ctx email role
           (case expires_at of Some t \<Rightarrow> t | None \<Rightarrow> later + 7 * 24 * 3600)) (\<lambda>ivn. reply 200 (JInvitation ivn)))"

definition admin_change_role where
  "admin_change_role v h st hdr now user role =
     as_admin v h st hdr now (\<lambda>ctx.
       answer st (change_role v (st_gateway st) ctx (UserId user) role) (\<lambda>_. no_content))"

definition admin_suspend where
  "admin_suspend v h st hdr now user =
     as_admin v h st hdr now (\<lambda>ctx. answer st (suspend_member v (st_gateway st) ctx (UserId user)) (\<lambda>_. no_content))"

definition admin_restore where
  "admin_restore v h st hdr now user =
     as_admin v h st hdr now (\<lambda>ctx. answer st (restore_member v (st_gateway st) ctx (UserId user)) (\<lambda>_. no_content))"

definition admin_list_invitations where
  "admin_list_invitations v h st hdr now =
     as_admin v h st hdr now (\<lambda>ctx.
       answer st (st_gateway st, gw_list_invitations v (st_gateway st) ctx) (\<lambda>is. reply 200 (JInvitations is)))"

definition admin_list_devices where
  "admin_list_devices v h st hdr now =
     as_admin v h st hdr now (\<lambda>ctx.
       answer st (st_gateway st, gw_list_devices v (st_gateway st) ctx) (\<lambda>ds. reply 200 (JDevices ds)))"

definition admin_lock_device where
  "admin_lock_device v h st hdr now device =
     as_admin v h st hdr now (\<lambda>ctx. on_device st device (lock_device v (st_gateway st) ctx))"

definition admin_wipe_device where
  "admin_wipe_device v h st hdr now device =
     as_admin v h st hdr now (\<lambda>ctx. on_device st device (wipe_device v (st_gateway st) ctx))"

definition admin_get_policy where
  "admin_get_policy v h st hdr now =
     as_admin v h st hdr now (\<lambda>ctx.
       answer st (st_gateway st, get_policy (st_gateway st) ctx) (\<lambda>p. reply 200 (JPolicy p)))"

definition admin_author_policy where
  "admin_author_policy v h st hdr now bundle =
     as_admin v h st hdr now (\<lambda>ctx.
       answer st (gw_author_policy (st_gateway st) ctx bundle) (\<lambda>b. reply 200 (JBundle b)))"

definition admin_policy_versions where
  "admin_policy_versions v h st hdr now =
     as_admin v h st hdr now (\<lambda>ctx.
       answer st (st_gateway st, gw_policy_versions (st_gateway st) ctx) (\<lambda>vs. reply 200 (JVersions vs)))"

definition admin_reissue_policy where
  "admin_reissue_policy v h st hdr now later =
     as_admin v h st hdr now (\<lambda>ctx.
       answer st (gw_reissue_policy v (st_gateway st) ctx later) (\<lambda>sc. reply 200 (JSigned sc)))"

definition admin_audit_events where
  "admin_audit_events v h st hdr now =
     as_admin v h st hdr now (\<lambda>ctx.
       answer st (st_gateway st, audit_events v (st_gateway st) ctx) (\<lambda>es. reply 200 (JEvents es)))"

definition admin_audit_alerts where
  "admin_audit_alerts v h st hdr now =
     as_admin v h st hdr now (\<lambda>ctx.
       answer st (st_gateway st, audit_alerts v (st_gateway st) ctx) (\<lambda>al. reply 200 (JAlerts al)))"

text \<open>The router.\<close>

fun build_router ::
  "('s, 'c, 'a) gateway_env \<Rightarrow> http_env \<Rightarrow> ('s, 'c, 'a) app_state \<Rightarrow> headers \<Rightarrow> bytes \<Rightarrow> (nat \<Rightarrow> unix_time)
     \<Rightarrow> http_request \<Rightarrow> ('s, 'c, 'a) app_state \<times> response" where
  "build_router v h st hdr nonce clock (ConsoleCallback code) = console_callback v h st nonce code (clock 0)"
| "build_router v h st hdr nonce clock AuthMe = auth_me v h st hdr nonce clock"
| "build_router v h st hdr nonce clock Logout = (st, logout h)"
| "build_router v h st hdr nonce clock (EnrollStart w) = enroll_start v st w"
| "build_router v h st hdr nonce clock (EnrollPoll w code) = enroll_poll v st w code"
| "build_router v h st hdr nonce clock (EnrollComplete w code pk wk) = enroll_complete v st w code pk wk (clock 0)"
| "build_router v h st hdr nonce clock AdminListMembers = admin_list_members v h st hdr (clock 0)"
| "build_router v h st hdr nonce clock (AdminInvite email role expires_at) = admin_invite v h st hdr (clock 0) (clock 1) email role expires_at"
| "build_router v h st hdr nonce clock (AdminChangeRole user role) = admin_change_role v h st hdr (clock 0) user role"
| "build_router v h st hdr nonce clock (AdminSuspend user) = admin_suspend v h st hdr (clock 0) user"
| "build_router v h st hdr nonce clock (AdminRestore user) = admin_restore v h st hdr (clock 0) user"
| "build_router v h st hdr nonce clock AdminListInvitations = admin_list_invitations v h st hdr (clock 0)"
| "build_router v h st hdr nonce clock AdminListDevices = admin_list_devices v h st hdr (clock 0)"
| "build_router v h st hdr nonce clock (AdminLockDevice device) = admin_lock_device v h st hdr (clock 0) device"
| "build_router v h st hdr nonce clock (AdminWipeDevice device) = admin_wipe_device v h st hdr (clock 0) device"
| "build_router v h st hdr nonce clock AdminGetPolicy = admin_get_policy v h st hdr (clock 0)"
| "build_router v h st hdr nonce clock (AdminAuthorPolicy bundle) = admin_author_policy v h st hdr (clock 0) bundle"
| "build_router v h st hdr nonce clock AdminPolicyVersions = admin_policy_versions v h st hdr (clock 0)"
| "build_router v h st hdr nonce clock AdminReissuePolicy = admin_reissue_policy v h st hdr (clock 0) (clock 1)"
| "build_router v h st hdr nonce clock AdminAuditEvents = admin_audit_events v h st hdr (clock 0)"
| "build_router v h st hdr nonce clock AdminAuditAlerts = admin_audit_alerts v h st hdr (clock 0)"
| "build_router v h st hdr nonce clock (AuditIngest device batch) = audit_ingest v st device batch"
| "build_router v h st hdr nonce clock (ScimEvents event) = scim_events v h st hdr event"

end
