(* ===== verification/Http_Props.thy ===== *)
theory Http_Props
  imports Http Gateway_Props
begin

text \<open>
  What the HTTP interface guarantees: administrative routes act only for a sealed session of an
  active member whose role allows the action, directory events only for the configured token, and
  the cookie of a login is the session the next request is authorised with.
\<close>

section \<open>Access control\<close>

text \<open>The action a route needs, for the routes of the console.\<close>

fun required_action :: "http_request \<Rightarrow> admin_action option" where
  "required_action AdminListMembers = Some ManageMembers"
| "required_action (AdminInvite _ _ _) = Some ManageMembers"
| "required_action (AdminChangeRole _ _) = Some ChangeRoles"
| "required_action (AdminSuspend _) = Some ManageMembers"
| "required_action (AdminRestore _) = Some ManageMembers"
| "required_action AdminListInvitations = Some ManageMembers"
| "required_action AdminListDevices = Some ViewAudit"
| "required_action (AdminLockDevice _) = Some ControlDevice"
| "required_action (AdminWipeDevice _) = Some ControlDevice"
| "required_action AdminGetPolicy = Some ManagePolicy"
| "required_action (AdminAuthorPolicy _) = Some ManagePolicy"
| "required_action AdminPolicyVersions = Some ManagePolicy"
| "required_action AdminReissuePolicy = Some ManagePolicy"
| "required_action AdminAuditEvents = Some ViewAudit"
| "required_action AdminAuditAlerts = Some ViewAudit"
| "required_action _ = None"

lemmas admin_handlers = admin_list_members_def admin_invite_def admin_change_role_def admin_suspend_def
  admin_restore_def admin_list_invitations_def admin_list_devices_def admin_lock_device_def
  admin_wipe_device_def admin_get_policy_def admin_author_policy_def admin_policy_versions_def
  admin_reissue_policy_def admin_audit_events_def admin_audit_alerts_def

lemmas guarded = gw_list_members_def invite_member_def change_role_def suspend_member_def restore_member_def
  set_member_status_def gw_list_invitations_def gw_list_devices_def lock_device_def wipe_device_def
  get_policy_def gw_author_policy_def gw_policy_versions_def gw_reissue_policy_def audit_events_def audit_alerts_def

lemma answer_refused: "answer st (st_gateway st, Inl e) f = (st, err_response e)"
  by (simp add: answer_def)

lemma answer_not_found: "answer st (st_gateway st, Inl (Forbidden m)) f = (st, reply 403 (Text (''forbidden: '' @ m)))"
  by (simp add: answer_refused err_response_def)

text \<open>Every administrative route is its body behind the session check.\<close>

lemma route_as_admin:
  assumes "required_action req = Some a"
  shows "\<exists>f. build_router v h st hdr nonce clock req = as_admin v h st hdr (clock 0) f \<and>
    (\<forall>ctx. \<not> can (rc_role ctx) a \<longrightarrow> fst (f ctx) = st \<and> rs_status (snd (f ctx)) \<in> {400, 403})"
  using assms
  by (cases req)
    (auto simp: admin_handlers on_device_def guarded require_def answer_not_found reply_def split: option.splits)

text \<open>
  (C13) Access control of the console. Every administrative route, for any cookie and any body, does
  one of three things when it is not entitled: without a cookie that unseals it answers 401, with a
  session that is expired or whose member is not active it answers 401 or 403, and for a role that
  does not allow the route's action 403 (or 400 for a malformed device number). In each case the
  gateway is unchanged.
\<close>

theorem http_admin_gate:
  assumes "required_action req = Some a" "build_router v h st hdr nonce clock req = (st', resp)"
  shows "case read_session h hdr (st_sealer st) of
      None \<Rightarrow> st' = st \<and> rs_status resp = 401
    | Some s \<Rightarrow>
        (case authorize_request v (st_gateway st) s (clock 0) of
           Inl e \<Rightarrow> st' = st \<and> resp = err_response e
         | Inr ctx \<Rightarrow> if can (rc_role ctx) a then True else st' = st \<and> rs_status resp \<in> {400, 403})"
proof -
  obtain f where "build_router v h st hdr nonce clock req = as_admin v h st hdr (clock 0) f"
    "\<forall>ctx. \<not> can (rc_role ctx) a \<longrightarrow> fst (f ctx) = st \<and> rs_status (snd (f ctx)) \<in> {400, 403}"
    using route_as_admin[OF assms(1)] by blast
  note f = this
  show ?thesis
  proof (cases "read_session h hdr (st_sealer st)")
    case None
    then show ?thesis using f(1) assms(2) by (simp add: as_admin_def admin_ctx_def reply_def)
  next
    case (Some s)
    show ?thesis
    proof (cases "authorize_request v (st_gateway st) s (clock 0)")
      case (Inl e)
      then show ?thesis using f(1) assms(2) Some by (simp add: as_admin_def admin_ctx_def)
    next
      case (Inr ctx)
      then have "f ctx = (st', resp)" using f(1) assms(2) Some by (simp add: as_admin_def admin_ctx_def)
      then show ?thesis using f(2)[rule_format, of ctx] Inr Some by simp
    qed
  qed
qed

lemma scim_authorized_iff:
  "scim_authorized h st hdr \<longleftrightarrow>
     (\<exists>t. st_scim_token st = Some t \<and> hd_authorization hdr = Some (''Bearer '' @ t) \<and> hx_header_text h (''Bearer '' @ t))"
proof (cases "st_scim_token st")
  case (Some t)
  have "scim_authorized h st hdr \<longleftrightarrow> Option.bind (header_str h (hd_authorization hdr)) (\<lambda>v. strip_prefix v ''Bearer '') = Some t"
    using Some by (auto simp: scim_authorized_def split: option.splits)
  also have "\<dots> \<longleftrightarrow> header_str h (hd_authorization hdr) = Some (''Bearer '' @ t)"
    unfolding Option.bind_eq_Some_conv strip_prefix_Some by blast
  finally show ?thesis using Some by (auto simp: header_str_def split: option.splits if_splits)
qed (simp add: scim_authorized_def)

text \<open>
  Directory events need the token. A SCIM event is applied exactly when a token is configured and
  the request carries it as a bearer token; any other request is answered 401 and changes nothing.
\<close>

theorem http_scim_gate:
  "build_router v h st hdr nonce clock (ScimEvents ev) =
     (if list_ex (\<lambda>t. hd_authorization hdr = Some (''Bearer '' @ t) \<and> hx_header_text h (''Bearer '' @ t))
           (case st_scim_token st of Some t \<Rightarrow> [t] | None \<Rightarrow> [])
      then answer st (apply_directory_event v (st_gateway st) ev) (\<lambda>delta. reply 200 (JDelta delta))
      else (st, reply 401 (Text ''invalid or missing SCIM token'')))"
  by (cases "st_scim_token st") (auto simp: scim_events_def scim_authorized_iff)

section \<open>Logins\<close>

lemma gbind_InrE:
  assumes "gbind x f = (g', Inr b)"
  obtains g a where "x = (g, Inr a)" "f g a = (g', Inr b)"
  using assms by (cases x; cases "snd x") (auto simp: gbind_def)

lemma authorize_login_Allow:
  assumes "authorize_login e mt ws m = LoginAllow r"
  shows "\<exists>x. m = Some x \<and> me_workspace x = ws_id ws \<and> me_status x = Active \<and> me_role x = r"
  using assms by (auto simp: authorize_login_def active_member_role_def split: if_splits sum.splits option.splits
      membership_status.splits)

context keyed_store
begin

text \<open>The member behind a session that a login made.\<close>

definition backs :: "'s \<Rightarrow> session \<Rightarrow> bool" where
  "backs st s = (case members st (ss_workspace s) (ss_user s) of
     None \<Rightarrow> False | Some m \<Rightarrow> me_status m = Active \<and> me_role m = ss_role s)"

lemma login_backed:
  assumes "ge_store v = so" "keyed (gw_store g)" "console_login v g code now ttl = (g', Inr s)"
  shows "backs (gw_store g') s \<and> ss_expires_at s = saturating_add now ttl"
  using assms(3) unfolding console_login_def assms(1)
proof (elim gbind_InrE, goal_cases)
  case (1 g1 vu g2 ws g3 user g4 found g5 membership)
  obtain st where st: "so_upsert_user so (gw_store g) (vu_email vu) (vu_idp_user_id vu) = (st, Inr user)" "g3 = g\<lparr>gw_store := st\<rparr>"
    using 1(1,2,3) by (cases "so_upsert_user so (gw_store g) (vu_email vu) (vu_idp_user_id vu)") (auto simp: on_store_def)
  have g4: "g4 = g3" "found = members st (vu_workspace vu) user"
    using 1(4) st reads(1)[of st "vu_workspace vu" user found] by auto
  have ws: "ws_id ws = vu_workspace vu"
    using 1(1,2) assms(2) keyed_workspace by (auto simp: rbind_eq_Inr ok_or_eq_Inr)
  obtain x where x: "membership = Some x" "me_workspace x = ws_id ws" "me_status x = Active"
    "s = \<lparr>ss_user = user, ss_workspace = vu_workspace vu, ss_role = me_role x, ss_expires_at = saturating_add now ttl,
          ss_refresh_token = vu_refresh_token vu\<rparr>" "g' = g5"
    using 1(6) by (auto split: login_decision.splits dest!: authorize_login_Allow)
  have "members (gw_store g') (vu_workspace vu) user = Some x"
  proof (cases found)
    case (Some m)
    then show ?thesis using 1(5) x g4 st by auto
  next
    case None
    obtain ivn where ivn: "so_invitation so st (vu_workspace vu) (vu_email vu) = Inr (Some ivn)"
      using 1(5) x(1) None g4 st
      by (cases "so_invitation so st (vu_workspace vu) (vu_email vu)") (auto simp: gbind_def split: option.splits)
    obtain m where m: "accept_invitation user (vu_email vu) (vu_method vu) ws ivn now = Inr m"
      using 1(5) None g4 st ivn by (cases "accept_invitation user (vu_email vu) (vu_method vu) ws ivn now") auto
    obtain s2 r2 where p2: "so_put_membership so st m = (s2, r2)" by fastforce
    then have r2: "\<not> isl r2" using 1(5) None g4 st ivn m by (cases r2) auto
    have s2: "members s2 = (\<lambda>w u. if w = me_workspace m \<and> u = me_user m then Some m else members st w u)"
      using membership_put[OF p2] r2 by simp
    obtain s3 r where s3: "so_mark_invitation_accepted so s2 (vu_workspace vu) (vu_email vu) = (s3, r)" by fastforce
    then have "members s3 = members s2" using mark_frame[OF s3] by simp
    moreover have "me_workspace m = vu_workspace vu" "me_user m = user"
      using m ws by (auto simp: accept_invitation_def split: if_splits)
    moreover have "membership = Some m" "gw_store g5 = s3"
      using 1(5) None g4 st ivn m p2 r2 s3 by (cases r2; cases r; auto)+
    ultimately show ?thesis using s2 x(1,5) by simp
  qed
  then show ?case using x by (simp add: backs_def)
qed

end

context reliable_store
begin

lemma authorize_backed:
  assumes "ge_store v = so" "backs (gw_store g) s" "now \<le> ss_expires_at s"
  shows "authorize_request v g s now = Inr \<lparr>rc_user = ss_user s, rc_workspace = ss_workspace s, rc_role = ss_role s\<rparr>"
  using assms by (auto simp: authorize_request_def backs_def membership_found split: option.splits)

end

text \<open>
  What the interface relies on of the libraries behind it, for one key: base64 and the cipher can be
  undone, the JSON of a session reads back, and the cookie header a browser sends for one cookie
  parses to it.
\<close>

definition http_env_correct :: "http_env \<Rightarrow> bytes \<Rightarrow> bool" where
  "http_env_correct h key =
     ((\<forall>b. hx_unb64 h (hx_b64 h b) = Some b) \<and>
      (\<forall>nonce pt ct. hx_encrypt h key nonce pt = Some ct \<longrightarrow> hx_decrypt h key nonce ct = Some pt) \<and>
      (\<forall>s b. hx_to_json h s = Inr b \<longrightarrow> hx_from_json h b = Some s) \<and>
      (\<forall>b. hx_header_text h (SESSION_COOKIE @ ''='' @ hx_b64 h b) \<and>
           hx_parse_cookies h (SESSION_COOKIE @ ''='' @ hx_b64 h b) = [(SESSION_COOKIE, hx_b64 h b)]))"

lemma seal_unseal:
  assumes "http_env_correct h (sl_key sl)" "length nonce = 12" "sealer_seal h sl nonce s = Inr tok"
  shows "sealer_unseal h sl tok = Some s"
    "hd_cookie hdr = Some (SESSION_COOKIE @ ''='' @ tok) \<Longrightarrow> read_session h hdr sl = Some s"
proof -
  obtain pt ct where c: "hx_to_json h s = Inr pt" "hx_encrypt h (sl_key sl) nonce pt = Some ct" "tok = hx_b64 h (nonce @ ct)"
    using assms(3) by (auto simp: sealer_seal_def result_eqs)
  show u: "sealer_unseal h sl tok = Some s"
    using assms(1,2) c by (simp add: http_env_correct_def sealer_unseal_def)
  show "read_session h hdr sl = Some s" if "hd_cookie hdr = Some (SESSION_COOKIE @ ''='' @ tok)"
    using assms(1) c(3) u that by (simp add: http_env_correct_def read_session_def header_str_def)
qed

lemma error_status_bad: "error_status e \<noteq> 200"
  by (cases e) auto

text \<open>What a live session of a user in a workspace is answered, by the membership stored at that moment.\<close>

definition me_answer :: "user_id \<Rightarrow> workspace_id \<Rightarrow> membership option \<Rightarrow> response" where
  "me_answer u w found =
     (case found of
        None \<Rightarrow> reply 403 (Text (gateway_error_display (Unauthorized NotAMember)))
      | Some m \<Rightarrow>
          if me_status m = Active then reply 200 (JMe (user_num u) (workspace_num w) (me_role m))
          else reply 403 (Text (gateway_error_display (Unauthorized (if me_status m = MSuspended then DSuspended else NotAMember)))))"

text \<open>
  (C34) A login and the requests after it, over the in-memory store. When the console callback answers 200,
  the response sets the session cookie (if the rendered cookie is a valid header), and the user is then an
  active member of the workspace with the role the login reported. Whatever happens to the gateway and its
  directory afterwards, as long as the sealing key stays: a request that sends this cookie back before the
  session expires is answered from the membership stored at that moment, namely with the same user and
  workspace and the present role while the membership is active, and with 403 once it is suspended,
  removed or not active; it changes nothing. After the session has expired the request is what a refresh of
  the session gives.
\<close>

theorem login_then_me:
  assumes "ge_store v = mem_store_ops" "ms_keyed (gw_store (st_gateway st))"
    and "http_env_correct h (sl_key (st_sealer st))" "length nonce = 12"
    and "build_router v h st hdr nonce clock (ConsoleCallback code) = (st', resp)" "rs_status resp = 200"
  shows "\<exists>tok s m. rs_body resp = JSessionInfo (workspace_num (ss_workspace s)) (ss_role s) \<and>
    rs_set_cookie resp = (let c = hx_render_cookie h (session_set_cookie tok) in if hx_header_text h c then Some c else None) \<and>
    hm_get (ms_memberships (gw_store (st_gateway st'))) (ss_workspace s, ss_user s) = Some m \<and>
    me_status m = Active \<and> me_role m = ss_role s \<and> st_sealer st' = st_sealer st \<and>
    (\<forall>later hdr' nonce' clock'. st_sealer later = st_sealer st \<longrightarrow> hd_cookie hdr' = Some (SESSION_COOKIE @ ''='' @ tok) \<longrightarrow>
       build_router v h later hdr' nonce' clock' AuthMe =
         (if clock' 0 \<le> saturating_add (clock 0) SESSION_TTL_SECS
          then (later, me_answer (ss_user s) (ss_workspace s)
                  (hm_get (ms_memberships (gw_store (st_gateway later))) (ss_workspace s, ss_user s)))
          else refresh_and_reply v h later nonce' s (clock' 1)))"
proof -
  obtain g' x where l: "console_login v (st_gateway st) code (clock 0) SESSION_TTL_SECS = (g', x)" by fastforce
  obtain s where s: "x = Inr s"
    using assms(5,6) l by (cases x) (auto simp: console_callback_def err_response_def reply_def error_status_bad)
  obtain tok where tok: "sealer_seal h (st_sealer st) nonce s = Inr tok"
    using assms(5,6) l s by (cases "sealer_seal h (st_sealer st) nonce s")
      (auto simp: console_callback_def err_response_def reply_def error_status_bad)
  have st': "st' = st\<lparr>st_gateway := g'\<rparr>"
    "resp = with_cookie h (reply 200 (JSessionInfo (workspace_num (ss_workspace s)) (ss_role s))) (session_set_cookie tok)"
    using assms(5) l s tok by (auto simp: console_callback_def)
  have b: "mks.backs (gw_store g') s" "ss_expires_at s = saturating_add (clock 0) SESSION_TTL_SECS"
    using mks.login_backed[OF assms(1,2) l[unfolded s]] by simp_all
  obtain m where m: "hm_get (ms_memberships (gw_store g')) (ss_workspace s, ss_user s) = Some m" "me_status m = Active" "me_role m = ss_role s"
    using b(1) by (auto simp: mks.backs_def split: option.splits)
  have me: "build_router v h later hdr' nonce' clock' AuthMe =
      (if clock' 0 \<le> saturating_add (clock 0) SESSION_TTL_SECS
       then (later, me_answer (ss_user s) (ss_workspace s)
               (hm_get (ms_memberships (gw_store (st_gateway later))) (ss_workspace s, ss_user s)))
       else refresh_and_reply v h later nonce' s (clock' 1))"
    if "st_sealer later = st_sealer st" "hd_cookie hdr' = Some (SESSION_COOKIE @ ''='' @ tok)" for later hdr' nonce' clock'
  proof -
    have "read_session h hdr' (st_sealer later) = Some s"
      using seal_unseal(2)[OF assms(3,4) tok that(2)] that(1) by simp
    moreover have "authorize_request v (st_gateway later) s (clock' 0) =
        (if clock' 0 > saturating_add (clock 0) SESSION_TTL_SECS then Inl SessionInvalid
         else case hm_get (ms_memberships (gw_store (st_gateway later))) (ss_workspace s, ss_user s) of
           None \<Rightarrow> Inl (Unauthorized NotAMember)
         | Some m \<Rightarrow> if me_status m = Active then Inr \<lparr>rc_user = ss_user s, rc_workspace = ss_workspace s, rc_role = me_role m\<rparr>
             else Inl (Unauthorized (if me_status m = MSuspended then DSuspended else NotAMember)))"
      by (simp add: authorize_request_def assms(1) b(2) mem_store_ops_def ms_membership_def split: option.splits)
    ultimately show ?thesis
      by (auto simp: auth_me_def me_answer_def err_response_def split: option.splits)
  qed
  have "rs_body resp = JSessionInfo (workspace_num (ss_workspace s)) (ss_role s)"
    "rs_set_cookie resp = (let c = hx_render_cookie h (session_set_cookie tok) in if hx_header_text h c then Some c else None)"
    using st'(2) by (simp_all add: with_cookie_def reply_def Let_def)
  with me m st'(1) show ?thesis by (intro exI[of _ tok] exI[of _ s] exI[of _ m]) simp
qed

section \<open>Witnesses\<close>

definition owner_session :: session where
  "owner_session = \<lparr>ss_user = UserId 1, ss_workspace = WorkspaceId 1, ss_role = Owner, ss_expires_at = 28805,
     ss_refresh_token = ''t''\<rparr>"

definition demo_http :: http_env where
  "demo_http = \<lparr>hx_to_json = (\<lambda>s. if s = owner_session then Inr [1] else Inl []), hx_from_json = (\<lambda>_. Some owner_session),
     hx_encrypt = (\<lambda>_ _ pt. Some pt), hx_decrypt = (\<lambda>_ _ ct. Some ct),
     hx_b64 = map (\<lambda>b. char_of (unat b)), hx_unb64 = (\<lambda>s. Some (map (\<lambda>c. of_nat (of_char c)) s)),
     hx_parse_cookies = (\<lambda>raw. case strip_prefix raw (SESSION_COOKIE @ ''='') of None \<Rightarrow> [] | Some t \<Rightarrow> [(SESSION_COOKIE, t)]),
     hx_render_cookie = sk_value, hx_header_text = (\<lambda>_. True)\<rparr>"

lemma demo_http_correct: "http_env_correct demo_http key"
proof -
  have "strip_prefix (SESSION_COOKIE @ CHR ''='' # t) (SESSION_COOKIE @ ''='') = Some t" for t
    by (simp add: strip_prefix_Some)
  moreover have "unat (b :: u8) < 256" for b using unsigned_less[of b, where 'a = nat] by simp
  ultimately show ?thesis by (auto simp: http_env_correct_def demo_http_def o_def split: if_splits)
qed

definition demo_app :: "(mem_store, mem_counter, mem_audit_store) app_state" where
  "demo_app = app_state_new demo_gateway \<lparr>sl_key = [7]\<rparr>"

lemma demo_login:
  "\<exists>g. console_login demo_env demo_gateway ''code'' 5 SESSION_TTL_SECS = (g, Inr owner_session)"
  by (simp add: console_login_def demo_env_def mock_identity_provider_def demo_user_def demo_gateway_defs mem_store_defs
      ms_workspace_def authorize_login_def domain_allowed_def active_member_role_def owner_session_def
      saturating_add_def SESSION_TTL_SECS_def Let_def)

text \<open>The owner logs in through the mock provider and asks who they are a hundred seconds later.\<close>

theorem login_then_me_witness:
  "\<exists>st' resp. build_router demo_env demo_http demo_app \<lparr>hd_cookie = None, hd_authorization = None\<rparr> (replicate 12 0) (\<lambda>_. 5)
       (ConsoleCallback ''code'') = (st', resp) \<and> rs_status resp = 200 \<and>
     (\<exists>hdr u w r. build_router demo_env demo_http st' hdr [] (\<lambda>_. 105) AuthMe = (st', reply 200 (JMe u w r)))"
proof -
  obtain st' resp where r: "build_router demo_env demo_http demo_app \<lparr>hd_cookie = None, hd_authorization = None\<rparr> (replicate 12 0)
      (\<lambda>_. 5) (ConsoleCallback ''code'') = (st', resp)" by fastforce
  have k: "ge_store demo_env = mem_store_ops" "ms_keyed (gw_store (st_gateway demo_app))"
    by (simp_all add: demo_env_def demo_app_def app_state_new_def demo_gateway_defs ms_keyed_def)
  have ok: "rs_status resp = 200"
    using r demo_login by (auto simp: console_callback_def demo_app_def app_state_new_def sealer_seal_def demo_http_def
        with_cookie_def reply_def)
  obtain tok s m where c: "hm_get (ms_memberships (gw_store (st_gateway st'))) (ss_workspace s, ss_user s) = Some m"
    "me_status m = Active" "st_sealer st' = st_sealer demo_app"
    "\<And>later hdr' nonce' clock'. st_sealer later = st_sealer demo_app \<Longrightarrow> hd_cookie hdr' = Some (SESSION_COOKIE @ ''='' @ tok) \<Longrightarrow>
       build_router demo_env demo_http later hdr' nonce' clock' AuthMe =
         (if clock' 0 \<le> saturating_add 5 SESSION_TTL_SECS
          then (later, me_answer (ss_user s) (ss_workspace s)
                  (hm_get (ms_memberships (gw_store (st_gateway later))) (ss_workspace s, ss_user s)))
          else refresh_and_reply demo_env demo_http later nonce' s (clock' 1))"
    using login_then_me[OF k demo_http_correct length_replicate r ok] by blast
  have "build_router demo_env demo_http st' \<lparr>hd_cookie = Some (SESSION_COOKIE @ ''='' @ tok), hd_authorization = None\<rparr> [] (\<lambda>_. 105) AuthMe
      = (st', reply 200 (JMe (user_num (ss_user s)) (workspace_num (ss_workspace s)) (me_role m)))"
    using c(1,2) by (subst c(4)) (simp_all add: c(3) saturating_add_def SESSION_TTL_SECS_def me_answer_def)
  then show ?thesis using r ok by blast
qed

text \<open>A request to wipe a device without a cookie.\<close>

theorem http_admin_gate_witness:
  "\<exists>resp. build_router demo_env demo_http demo_app \<lparr>hd_cookie = None, hd_authorization = None\<rparr> [] (\<lambda>_. 5) (AdminWipeDevice ''1'') =
     (demo_app, resp) \<and> rs_status resp = 401"
proof -
  obtain st' resp where r: "build_router demo_env demo_http demo_app \<lparr>hd_cookie = None, hd_authorization = None\<rparr> [] (\<lambda>_. 5)
      (AdminWipeDevice ''1'') = (st', resp)" by fastforce
  have "required_action (AdminWipeDevice ''1'') = Some ControlDevice" by simp
  from http_admin_gate[OF this r] r show ?thesis by (simp add: read_session_def header_str_def)
qed

end
