(* ===== verification/Enrollment_Props.thy ===== *)
theory Enrollment_Props
  imports Boot_Props Http_Props
begin

text \<open>
  Enrollment of a device against the gateway: the client's HTTP transport over the gateway's own
  routes, the bound on its polling, and what the enrollment record then holds.
\<close>

section \<open>The HTTP transport (enroll_client.rs)\<close>

definition http_base_url :: "string \<Rightarrow> string" where
  "http_base_url url = trim_end_matches url (CHR ''/'')"

text \<open>
  The response of a request and what the client makes of it: a status outside 200-299 or a body that
  does not decode is a transport error.
\<close>

definition http_post ::
  "string \<Rightarrow> string \<Rightarrow> (body \<Rightarrow> 'r option) \<Rightarrow> 'st \<times> response \<Rightarrow> 'st \<times> (enroll_client_error + 'r)" where
  "http_post decode_error path dec x =
     (fst x,
      if rs_status (snd x) < 200 \<or> 300 \<le> rs_status (snd x)
      then Inl (Transport (path @ '' returned HTTP '' @ dec_of_nat (rs_status (snd x))))
      else case dec (rs_body (snd x)) of None \<Rightarrow> Inl (Transport decode_error) | Some r \<Rightarrow> Inr r)"

fun start_of_body :: "body \<Rightarrow> client_device_auth option" where
  "start_of_body (JDeviceAuth a) =
     Some \<lparr>dx_user_code = da_user_code a, dx_verification_uri = da_verification_uri a, dx_device_code = da_device_code a\<rparr>"
| "start_of_body _ = None"

fun poll_of_body :: "body \<Rightarrow> poll_status option" where
  "poll_of_body (JOutcome OutcomePending) = Some PollPending"
| "poll_of_body (JOutcome (OutcomeApproved _ _)) = Some PollApproved"
| "poll_of_body _ = None"

fun completion_of_body :: "body \<Rightarrow> completion_status option" where
  "completion_of_body (JCompletion CompletionPending) = Some CompletionStatusPending"
| "completion_of_body (JCompletion (CompletionApproved _ _ _ policy volume_key tls)) =
     Some (CompletionStatusApproved policy volume_key tls)"
| "completion_of_body _ = None"

text \<open>The transport with the gateway's router at the other end of the connection.\<close>

definition http_transport ::
  "('s, 'c, 'a) gateway_env \<Rightarrow> http_env \<Rightarrow> string \<Rightarrow> bytes \<Rightarrow> (nat \<Rightarrow> unix_time) \<Rightarrow> ('s, 'c, 'a) app_state enrollment_transport" where
  "http_transport v h decode_error nonce clock =
     (let send = (\<lambda>st req. build_router v h st \<lparr>hd_cookie = None, hd_authorization = None\<rparr> nonce clock req)
      in \<lparr>et_start = (\<lambda>st w. http_post decode_error ''/enroll/start'' start_of_body (send st (EnrollStart w))),
          et_poll = (\<lambda>st w code. http_post decode_error ''/enroll/poll'' poll_of_body (send st (EnrollPoll w code))),
          et_complete = (\<lambda>st req. http_post decode_error ''/enroll/complete'' completion_of_body
             (send st (EnrollComplete (cr_workspace req) (cr_device_code req) (cr_device_pubkey req)
                (cr_device_wrapping_key req))))\<rparr>)"

section \<open>Polling is bounded\<close>

text \<open>The state a transport is in after \<open>i\<close> polls, and its answer to the next one.\<close>

fun polled :: "'t enrollment_transport \<Rightarrow> enrollment_config \<Rightarrow> string \<Rightarrow> 't \<Rightarrow> nat \<Rightarrow> 't" where
  "polled tr cfg code t 0 = t"
| "polled tr cfg code t (Suc i) = polled tr cfg code (fst (et_poll tr t (ec_workspace cfg) code)) i"

definition poll_answer ::
  "'t enrollment_transport \<Rightarrow> enrollment_config \<Rightarrow> string \<Rightarrow> 't \<Rightarrow> nat \<Rightarrow> enroll_client_error + poll_status" where
  "poll_answer tr cfg code t i = snd (et_poll tr (polled tr cfg code t i) (ec_workspace cfg) code)"

definition poll_result :: "enroll_client_error + poll_status \<Rightarrow> enroll_client_error + unit" where
  "poll_result a = (case a of Inl e \<Rightarrow> Inl e | Inr PollApproved \<Rightarrow> Inr () | Inr PollPending \<Rightarrow> Inl TimedOut)"

lemma polled_snoc:
  "polled tr cfg code t (Suc i) = fst (et_poll tr (polled tr cfg code t i) (ec_workspace cfg) code)"
  by (induction i arbitrary: t) simp_all

lemma poll_loop_from:
  "\<exists>n < max 1 (ec_max_polls cfg - polls).
     poll_loop tr cfg code t polls = (polled tr cfg code t (n + 1), replicate n Wait, poll_result (poll_answer tr cfg code t n)) \<and>
     (\<forall>i < n. poll_answer tr cfg code t i = Inr PollPending) \<and>
     (poll_answer tr cfg code t n = Inr PollPending \<longrightarrow> n + 1 = max 1 (ec_max_polls cfg - polls))"
proof (induction tr cfg code t polls rule: poll_loop.induct)
  case (1 tr cfg code t polls)
  obtain t1 a where a: "et_poll tr t (ec_workspace cfg) code = (t1, a)" by fastforce
  have first: "poll_answer tr cfg code t 0 = a" "polled tr cfg code t 1 = t1" by (simp_all add: poll_answer_def a)
  show ?case
  proof (cases "a = Inr PollPending \<and> \<not> ec_max_polls cfg \<le> polls + 1")
    case False
    then have "poll_loop tr cfg code t polls = (t1, [], poll_result a)"
      by (subst poll_loop.simps) (auto simp: a poll_result_def split: sum.splits poll_status.splits)
    then show ?thesis using first False by (intro exI[of _ 0]) auto
  next
    case True
    then obtain n where n: "n < max 1 (ec_max_polls cfg - (polls + 1))"
      "poll_loop tr cfg code t1 (polls + 1) = (polled tr cfg code t1 (n + 1), replicate n Wait, poll_result (poll_answer tr cfg code t1 n))"
      "\<forall>i < n. poll_answer tr cfg code t1 i = Inr PollPending"
      "poll_answer tr cfg code t1 n = Inr PollPending \<longrightarrow> n + 1 = max 1 (ec_max_polls cfg - (polls + 1))"
      using 1[OF a[symmetric]] by fastforce
    have later: "poll_answer tr cfg code t (Suc i) = poll_answer tr cfg code t1 i" for i
      by (simp add: poll_answer_def a)
    have "poll_loop tr cfg code t polls =
        (polled tr cfg code t (Suc n + 1), replicate (Suc n) Wait, poll_result (poll_answer tr cfg code t (Suc n)))"
      using True n(2) by (subst poll_loop.simps) (simp add: a later)
    moreover have "\<forall>i < Suc n. poll_answer tr cfg code t i = Inr PollPending"
      using n(3) first(1) True later by (metis less_Suc_eq_0_disj)
    ultimately show ?thesis using n(1,4) True later by (intro exI[of _ "Suc n"]) auto
  qed
qed

text \<open>
  (C37) The client stops polling, whatever the transport answers. The loop makes at least one poll and at
  most as many as the limit, waits once between two polls, and ends at the first answer that is not
  \<open>Pending\<close>: with success when it is the approval, with the error of the transport when it is one. When
  every answer up to the limit is \<open>Pending\<close>, as from a gateway that never approves, it ends with
  \<open>TimedOut\<close> after the last poll the limit allows.
\<close>

theorem enroll_polls_bounded:
  "\<exists>n < max 1 (ec_max_polls cfg).
     poll_loop tr cfg code t 0 = (polled tr cfg code t (n + 1), replicate n Wait, poll_result (poll_answer tr cfg code t n)) \<and>
     (\<forall>i < n. poll_answer tr cfg code t i = Inr PollPending) \<and>
     (poll_answer tr cfg code t n = Inr PollPending \<longrightarrow> n + 1 = max 1 (ec_max_polls cfg))"
  using poll_loop_from[of cfg 0] by simp

section \<open>Enrollment over HTTP\<close>

text \<open>The gateway of an enrollment: who approves it and what it hands out.\<close>

definition approves ::
  "('s, 'c, 'a) gateway_env \<Rightarrow> ('s, 'c, 'a) gateway \<Rightarrow> u64 \<Rightarrow> device_auth \<Rightarrow> user_id \<Rightarrow> role \<Rightarrow> bytes \<Rightarrow> device_id \<Rightarrow> bool" where
  "approves v g w auth user role pk dev =
     (begin_enrollment v (WorkspaceId w) = Inr auth \<and>
      authorize_enrollment_poll v g (WorkspaceId w) (da_device_code auth) = (g, Inr (Some (user, role))) \<and>
      snd (so_record_device (ge_store v) (gw_store g) (WorkspaceId w) user pk) = Inr dev \<and>
      gw_device_ca g = None)"

definition issues ::
  "('s, 'c, 'a) gateway_env \<Rightarrow> ('s, 'c, 'a) gateway \<Rightarrow> u64 \<Rightarrow> unix_time \<Rightarrow> gateway_signing_key \<Rightarrow> policy_bundle \<Rightarrow> u64 \<Rightarrow> bool" where
  "issues v g w now k b n =
     (case gw_policy_issuer g of
        None \<Rightarrow> False
      | Some i \<Rightarrow> pi_signer i = k \<and> issuer_current i (WorkspaceId w) = Some b \<and> snd (ge_next v (pi_counter i)) = Inr n)"

lemma complete_enrollment_approved:
  assumes "approves v g w auth user role pk dev" "issues v g w now k b n"
    and "gw_volume_keys g = Some service" "service (WorkspaceId w) wk = Inr vk"
  shows "\<exists>g'. complete_enrollment v g (WorkspaceId w) (da_device_code auth) pk (Some wk) now =
    (g', Inr (CompletionApproved dev user role (Some (gk_sign (ge_ed v) (ge_envelope v) k n now (UpdatePolicy b))) vk None)) \<and>
    gw_audit g' = register_device (gw_audit g) dev pk"
proof -
  obtain s2 where r: "so_record_device (ge_store v) (gw_store g) (WorkspaceId w) user pk = (s2, Inr dev)"
    using assms(1) by (cases "so_record_device (ge_store v) (gw_store g) (WorkspaceId w) user pk") (auto simp: approves_def)
  obtain i c where i: "gw_policy_issuer g = Some i" "pi_signer i = k" "issuer_current i (WorkspaceId w) = Some b"
    "ge_next v (pi_counter i) = (c, Inr n)"
    using assms(2) by (cases "gw_policy_issuer g"; cases "ge_next v (pi_counter (the (gw_policy_issuer g)))") (auto simp: issues_def)
  show ?thesis using assms(1,3,4) r i
    by (simp add: complete_enrollment_def approves_def register_audit_key_def issue_initial_policy_def sign_current_def
        on_issuer_def issue_tls_def Let_def)
qed

lemma enroll_http:
  assumes "approves v (st_gateway st) (ec_workspace cfg) auth user role (ec_device_identity_pubkey cfg) dev"
    and "issues v (st_gateway st) (ec_workspace cfg) (clock 0) k b n"
    and "gw_volume_keys (st_gateway st) = Some service"
    and "service (WorkspaceId (ec_workspace cfg)) (ec_device_wrapping_key cfg) = Inr vk"
    and "length (ec_device_identity_pubkey cfg) = 32" "length (ec_device_wrapping_key cfg) = 32"
  shows "\<exists>st' eff. enroll ev (http_transport v h derr nonce clock) st cfg now =
    (st', eff, client_accept ev cfg (CompletionStatusApproved
       (Some (gk_sign (ge_ed v) (ge_envelope v) k n (clock 0) (UpdatePolicy b))) vk None) now) \<and>
    gw_audit (st_gateway st') = register_device (gw_audit (st_gateway st)) dev (ec_device_identity_pubkey cfg)"
proof -
  let ?tr = "http_transport v h derr nonce clock"
  let ?code = "da_device_code auth"
  have start: "et_start ?tr st (ec_workspace cfg) = (st, Inr \<lparr>dx_user_code = da_user_code auth,
      dx_verification_uri = da_verification_uri auth, dx_device_code = ?code\<rparr>)"
    using assms(1) by (simp add: http_transport_def enroll_start_def answer_def approves_def http_post_def reply_def)
  have "et_poll ?tr st (ec_workspace cfg) ?code = (st, Inr PollApproved)"
    using assms(1) by (simp add: http_transport_def enroll_poll_def answer_def approves_def http_post_def reply_def
        poll_enrollment_def)
  then have poll: "poll_loop ?tr cfg ?code st 0 = (st, [], Inr ())" by (subst poll_loop.simps) simp
  obtain g' where g': "complete_enrollment v (st_gateway st) (WorkspaceId (ec_workspace cfg)) ?code
      (ec_device_identity_pubkey cfg) (Some (ec_device_wrapping_key cfg)) (clock 0) =
    (g', Inr (CompletionApproved dev user role (Some (gk_sign (ge_ed v) (ge_envelope v) k n (clock 0) (UpdatePolicy b))) vk None))"
    "gw_audit g' = register_device (gw_audit (st_gateway st)) dev (ec_device_identity_pubkey cfg)"
    using complete_enrollment_approved[OF assms(1-4)] by blast
  have "et_complete ?tr st \<lparr>cr_workspace = ec_workspace cfg, cr_device_code = ?code,
      cr_device_pubkey = hex32 (ec_device_identity_pubkey cfg),
      cr_device_wrapping_key = Some (hex32 (ec_device_wrapping_key cfg))\<rparr> =
    (st\<lparr>st_gateway := g'\<rparr>, Inr (CompletionStatusApproved (Some (gk_sign (ge_ed v) (ge_envelope v) k n (clock 0) (UpdatePolicy b))) vk None))"
    using g'(1) by (simp add: http_transport_def enroll_complete_def parse_pubkey_hex32 assms(5,6) answer_def
        http_post_def reply_def)
  then show ?thesis using g'(2) by (simp add: enroll_def start poll)
qed

text \<open>A device pinned to the key that signs, enrolling at a time the signature is fresh.\<close>

definition pinned_to :: "enroll_env \<Rightarrow> enrollment_config \<Rightarrow> gateway_signing_key \<Rightarrow> bool" where
  "pinned_to ev cfg k =
     (ed25519_correct (ne_ed ev) \<and> ec_pinned_tenant_key cfg = gk_public_key (ne_ed ev) k \<and> ec_tenant cfg = gk_tenant k)"

text \<open>
  With the in-memory key service of the library, which delivers symmetrically: the client ends with a
  record that holds exactly the gateway's policy and opens to exactly the escrowed container and key at any
  later time.
\<close>

lemma symmetric_delivery_opens:
  assumes "approves v (st_gateway st) (ec_workspace cfg) auth user role (ec_device_identity_pubkey cfg) dev"
    and "issues v (st_gateway st) (ec_workspace cfg) (clock 0) k b n" "n \<noteq> 0"
    and "gw_volume_keys (st_gateway st) = Some (mem_issue_wrapped_volume_key (ne_kw ev) ks)"
    and "hm_get ks (WorkspaceId (ec_workspace cfg)) = Some (cont, d)" "aes_kw_correct (ne_kw ev)"
    and "length (kw_wrap (ne_kw ev) (ec_device_wrapping_key cfg) d) = WRAPPED_DEK_LEN"
    and "length (ec_device_identity_pubkey cfg) = 32" "length (ec_device_wrapping_key cfg) = 32"
    and "pinned_to ev cfg k" "ne_ed ev = ge_ed v" "ne_envelope ev = ge_envelope v"
    and "codec_ok_on (ge_envelope v) {envelope_new (gk_tenant k) n (clock 0) (UpdatePolicy b)}"
    and "fresh_at DEFAULT_MAX_AGE_SECS (clock 0) now"
  shows "\<exists>st' eff rec chain. enroll ev (http_transport v h derr nonce clock) st cfg now = (st', eff, Inr rec) \<and>
    er_policy rec = b \<and> record_open_volume ev rec None later = Inr (cont, Dek d) \<and>
    er_device_signing_seed rec = ec_device_signing_seed cfg \<and>
    hm_get (al_chains (gw_audit (st_gateway st'))) dev = Some chain \<and> dc_public_key chain = ec_device_identity_pubkey cfg"
proof -
  let ?vk = "\<lparr>wk_container = container_num cont,
     wk_wrapped_dek = wrapped_bytes (kek_wrap (ne_kw ev) (Kek (ec_device_wrapping_key cfg)) (Dek d)), wk_ephemeral_pub = None\<rparr>"
  let ?de = "\<lparr>de_tenant = ec_tenant cfg, de_pinned_tenant_key = ec_pinned_tenant_key cfg,
     de_volume_key = Symmetric (ec_device_wrapping_key cfg)\<rparr>"
  have svc: "mem_issue_wrapped_volume_key (ne_kw ev) ks (WorkspaceId (ec_workspace cfg)) (ec_device_wrapping_key cfg) = Inr (Some ?vk)"
    using assms(5) by (simp add: mem_issue_wrapped_volume_key_def)
  have open_vk: "open_volume_key ev ?de ?vk = Inr (cont, Dek d)"
    using open_wrapped[of ev "ec_device_wrapping_key cfg" "Dek d" ?de "container_num cont"] assms(6,7)
    by (simp add: kek_wrap_def)
  define rec where "rec = \<lparr>er_tenant = ec_tenant cfg, er_pinned_tenant_key = ec_pinned_tenant_key cfg, er_policy = b,
     er_volume_key = Some ?vk, er_device_signing_seed = ec_device_signing_seed cfg,
     er_device_kek = Some (ec_device_wrapping_key cfg), er_tls = None\<rparr>"
  obtain st' eff where e: "enroll ev (http_transport v h derr nonce clock) st cfg now =
      (st', eff, client_accept ev cfg (CompletionStatusApproved
         (Some (gk_sign (ge_ed v) (ge_envelope v) k n (clock 0) (UpdatePolicy b))) (Some ?vk) None) now)"
    "gw_audit (st_gateway st') = register_device (gw_audit (st_gateway st)) dev (ec_device_identity_pubkey cfg)"
    using enroll_http[where clock = clock, OF assms(1,2,4) svc assms(8,9)] by blast
  have "client_accept ev cfg (CompletionStatusApproved
         (Some (gk_sign (ge_ed v) (ge_envelope v) k n (clock 0) (UpdatePolicy b))) (Some ?vk) None) now = Inr rec"
    using accept_issued[of ev k n "clock 0" b now ?de "Some ?vk"] assms(3,10-14) open_vk
    by (simp add: client_accept_def rec_def pinned_to_def)
  moreover have "ed_key_ok (ne_ed ev) (ec_pinned_tenant_key cfg)"
    using assms(10) ed25519_correctD(1) by (auto simp: pinned_to_def gk_public_key_def)
  then have "record_open_volume ev rec None later = Inr (cont, Dek d)"
    using open_vk by (simp add: record_open_volume_def enrollment_accept_def verifier_new_def rec_def)
  ultimately show ?thesis using e by (auto simp: rec_def register_device_def)
qed

text \<open>
  The client cannot enroll with a gateway that seals. The server's volume-key service seals the
  container key to the wrapping key the client sent, as if it were a public key; the client accepts
  only a symmetric delivery. Every such enrollment is approved by the gateway, which records the
  device, and then fails on the device with \<open>UnexpectedSealedKey\<close>.
\<close>

lemma sealed_delivery_refused:
  assumes "approves v (st_gateway st) (ec_workspace cfg) auth user role (ec_device_identity_pubkey cfg) dev"
    and "issues v (st_gateway st) (ec_workspace cfg) (clock 0) k b n" "n \<noteq> 0"
    and "gw_volume_keys (st_gateway st) = Some (sealed_issue_wrapped_volume_key sha (ne_kw ev) x ephemeral ks)"
    and "sealed_issue_wrapped_volume_key sha (ne_kw ev) x ephemeral ks (WorkspaceId (ec_workspace cfg))
          (ec_device_wrapping_key cfg) = Inr (Some vk)" "length (wk_wrapped_dek vk) = WRAPPED_DEK_LEN"
    and "length (ec_device_identity_pubkey cfg) = 32" "length (ec_device_wrapping_key cfg) = 32"
    and "pinned_to ev cfg k" "ne_ed ev = ge_ed v" "ne_envelope ev = ge_envelope v"
    and "codec_ok_on (ge_envelope v) {envelope_new (gk_tenant k) n (clock 0) (UpdatePolicy b)}"
    and "fresh_at DEFAULT_MAX_AGE_SECS (clock 0) now"
  shows "\<exists>st' eff. enroll ev (http_transport v h derr nonce clock) st cfg now = (st', eff, Inl (Accept UnexpectedSealedKey)) \<and>
    gw_audit (st_gateway st') = register_device (gw_audit (st_gateway st)) dev (ec_device_identity_pubkey cfg)"
proof -
  let ?de = "\<lparr>de_tenant = ec_tenant cfg, de_pinned_tenant_key = ec_pinned_tenant_key cfg,
     de_volume_key = Symmetric (ec_device_wrapping_key cfg)\<rparr>"
  obtain p where "wk_ephemeral_pub vk = Some p"
    using assms(5) by (auto simp: sealed_issue_wrapped_volume_key_def rbind_eq_Inr split: option.splits)
  then have "open_volume_key ev ?de vk = Inl UnexpectedSealedKey"
    using assms(6) by (simp add: open_volume_key_def Let_def)
  then have "client_accept ev cfg (CompletionStatusApproved
         (Some (gk_sign (ge_ed v) (ge_envelope v) k n (clock 0) (UpdatePolicy b))) (Some vk) None) now
       = Inl (Accept UnexpectedSealedKey)"
    using accept_issued[of ev k n "clock 0" b now ?de "Some vk"] assms(3,9-13)
    by (simp add: client_accept_def pinned_to_def)
  then show ?thesis using enroll_http[where clock = clock and ev = ev and h = h and derr = derr and nonce = nonce and now = now, OF assms(1,2,4,5,7,8)] by simp
qed

text \<open>
  (C3) Enrollment end to end, and which key service it works with. The client pins the gateway's signing
  key; over the gateway's own HTTP routes, whose state nothing else changes meanwhile, it is approved at
  its first poll by a gateway that signs its current policy, issues no device certificate and answers in
  time. Then the gateway's ledger registers the identity key the client sent, and: if the container key
  is delivered by the library's in-memory service (symmetric), the client ends with a record that
  holds exactly the gateway's policy and opens to exactly the escrowed container and key at any later
  time; if it is delivered by the sealing service, which is the one \<open>server_main\<close> installs, the client
  fails with \<open>UnexpectedSealedKey\<close> although the gateway has recorded the device.
\<close>

theorem enrollment_end_to_end:
  assumes "approves v (st_gateway st) (ec_workspace cfg) auth user role (ec_device_identity_pubkey cfg) dev"
    and "issues v (st_gateway st) (ec_workspace cfg) (clock 0) k b n" "n \<noteq> 0"
    and "gw_volume_keys (st_gateway st) = Some service"
    and "length (ec_device_identity_pubkey cfg) = 32" "length (ec_device_wrapping_key cfg) = 32"
    and "pinned_to ev cfg k" "ne_ed ev = ge_ed v" "ne_envelope ev = ge_envelope v"
    and "codec_ok_on (ge_envelope v) {envelope_new (gk_tenant k) n (clock 0) (UpdatePolicy b)}"
    and "fresh_at DEFAULT_MAX_AGE_SECS (clock 0) now"
    and "aes_kw_correct (ne_kw ev)" "length (kw_wrap (ne_kw ev) (ec_device_wrapping_key cfg) d) = WRAPPED_DEK_LEN"
    and "hm_get ks (WorkspaceId (ec_workspace cfg)) = Some (cont, d)"
  shows "(service = mem_issue_wrapped_volume_key (ne_kw ev) ks \<longrightarrow>
      (\<exists>st' eff rec chain. enroll ev (http_transport v h derr nonce clock) st cfg now = (st', eff, Inr rec) \<and>
        er_policy rec = b \<and> record_open_volume ev rec None later = Inr (cont, Dek d) \<and>
        er_device_signing_seed rec = ec_device_signing_seed cfg \<and>
        hm_get (al_chains (gw_audit (st_gateway st'))) dev = Some chain \<and>
        dc_public_key chain = ec_device_identity_pubkey cfg)) \<and>
    (\<forall>sha x ephemeral vk. service = sealed_issue_wrapped_volume_key sha (ne_kw ev) x ephemeral ks \<longrightarrow>
      service (WorkspaceId (ec_workspace cfg)) (ec_device_wrapping_key cfg) = Inr (Some vk) \<longrightarrow>
      length (wk_wrapped_dek vk) = WRAPPED_DEK_LEN \<longrightarrow>
      (\<exists>st' eff. enroll ev (http_transport v h derr nonce clock) st cfg now = (st', eff, Inl (Accept UnexpectedSealedKey)) \<and>
        gw_audit (st_gateway st') = register_device (gw_audit (st_gateway st)) dev (ec_device_identity_pubkey cfg)))"
proof (intro conjI allI impI)
  assume s: "service = mem_issue_wrapped_volume_key (ne_kw ev) ks"
  show "\<exists>st' eff rec chain. enroll ev (http_transport v h derr nonce clock) st cfg now = (st', eff, Inr rec) \<and>
        er_policy rec = b \<and> record_open_volume ev rec None later = Inr (cont, Dek d) \<and>
        er_device_signing_seed rec = ec_device_signing_seed cfg \<and>
        hm_get (al_chains (gw_audit (st_gateway st'))) dev = Some chain \<and>
        dc_public_key chain = ec_device_identity_pubkey cfg"
    using symmetric_delivery_opens[where clock = clock, OF assms(1-3) assms(4)[unfolded s] assms(14,12,13,5-11)] .
next
  fix sha x ephemeral vk
  assume s: "service = sealed_issue_wrapped_volume_key sha (ne_kw ev) x ephemeral ks"
    and vk: "service (WorkspaceId (ec_workspace cfg)) (ec_device_wrapping_key cfg) = Inr (Some vk)"
      "length (wk_wrapped_dek vk) = WRAPPED_DEK_LEN"
  show "\<exists>st' eff. enroll ev (http_transport v h derr nonce clock) st cfg now = (st', eff, Inl (Accept UnexpectedSealedKey)) \<and>
      gw_audit (st_gateway st') = register_device (gw_audit (st_gateway st)) dev (ec_device_identity_pubkey cfg)"
    using sealed_delivery_refused[where clock = clock, OF assms(1-3) assms(4)[unfolded s] vk(1)[unfolded s] vk(2) assms(5-11)] .
qed

section \<open>Enrolling a key twice\<close>

lemma poll_frame:
  assumes "ge_store v = mem_store_ops" "authorize_enrollment_poll v g w code = (g', r)"
  shows "ms_devices_by_key (gw_store g') = ms_devices_by_key (gw_store g)" "gw_audit g' = gw_audit g"
  using assms
  by (auto simp: authorize_enrollment_poll_def gbind_def on_store_def mem_store_defs Let_def
      split: sum.splits option.splits enrollment_decision.splits)

lemma issue_tls_audit: "gw_audit (fst (issue_tls v g d)) = gw_audit g"
  by (auto simp: issue_tls_def gbind_def on_store_def split: option.splits sum.splits)

lemma complete_enrollment_registers:
  assumes "ge_store v = mem_store_ops" "hm_get (ms_devices_by_key (gw_store g)) (w, pk) = Some dev"
    and "complete_enrollment v g w code pk wk now = (g', Inr (CompletionApproved dev' user role policy vk tls))"
  shows "dev' = dev \<and> gw_audit g' = register_device (gw_audit g) dev pk"
proof -
  obtain g1 u r where p: "authorize_enrollment_poll v g w code = (g1, Inr (Some (u, r)))"
    using assms(3) unfolding complete_enrollment_def by (elim gbind_InrE) (auto split: option.splits)
  note f = poll_frame[OF assms(1) p]
  have rd: "snd (so_record_device (ge_store v) (gw_store g1) w u pk) = Inr dev"
    using assms(1,2) f(1) by (auto simp: mem_store_defs split: option.splits)
  obtain s2 where s2: "so_record_device (ge_store v) (gw_store g1) w u pk = (s2, Inr dev)"
    using rd by (cases "so_record_device (ge_store v) (gw_store g1) w u pk") auto
  define g2 where "g2 = register_audit_key v (g1\<lparr>gw_store := s2\<rparr>) dev pk"
  have g2: "gw_audit g2 = register_device (gw_audit g) dev pk" by (simp add: g2_def register_audit_key_def f(2))
  have pol: "gw_audit (fst (case gw_policy_issuer g2 of
      Some i \<Rightarrow> on_issuer g2 (issue_initial_policy (ge_ed v) (ge_envelope v) (ge_next v) i w now) | None \<Rightarrow> (g2, Inr None))) = gw_audit g2"
    by (auto simp: on_issuer_def split: option.splits)
  have "dev' = dev \<and> gw_audit g' = gw_audit g2"
    using assms(3) unfolding complete_enrollment_def p gbind_simps option.case prod.case s2 on_store_simps(5) Let_def
      g2_def[symmetric]
  proof (elim gbind_InrE, goal_cases)
    case (1 g3 a g4 b g5 c)
    then have "gw_audit g3 = gw_audit g2" using pol by simp
    moreover have "gw_audit g4 = gw_audit g3" using 1(2) by (auto split: option.splits)
    moreover have "gw_audit g5 = gw_audit g4" using issue_tls_audit[of v g4 dev] 1(3) by simp
    ultimately show ?case using 1(4) by simp
  qed
  with g2 show ?thesis by simp
qed

text \<open>
  Enrolling a known key again. A completed enrollment proves no possession of the key: whoever is
  approved in a workspace and sends the public key of a device that is already enrolled there gets
  that device's identity, and the ledger starts its chain again. The next genuine batch of the device
  itself, which continues its chain, is then refused as a gap.
\<close>

theorem reenrolled_key_resets_chain:
  assumes "ge_store v = mem_store_ops" "hm_get (ms_devices_by_key (gw_store g)) (w, pk) = Some dev"
    and "complete_enrollment v g w code pk wk now = (g', Inr (CompletionApproved dev' user role policy vk tls))"
    and "hm_get (al_chains (gw_audit g)) dev = Some c" "dc_next_seq c \<noteq> 1"
    and "sb_entries batch = e # es" "se_seq e = dc_next_seq c"
  shows "dev' = dev \<and> snd (ingest_device_audit v g' dev batch) = Inl (IngestRejected (Gap 1 (dc_next_seq c)))"
proof -
  have r: "dev' = dev" "gw_audit g' = register_device (gw_audit g) dev pk"
    using complete_enrollment_registers[OF assms(1-3)] by simp_all
  have "verify_batch (ge_sha v) (ge_ed v) (ge_event v) GENESIS 1 batch pk = Inl (Gap 1 (dc_next_seq c))"
    using assms(5,6,7) by (simp add: verify_batch_def)
  then have "snd (ingest (ge_sha v) (ge_ed v) (ge_event v) (gw_audit g') dev batch) = Inl (IngestRejected (Gap 1 (dc_next_seq c)))"
    by (simp add: ingest_def r(2) register_device_def)
  then show ?thesis using r(1)
    by (auto simp: ingest_device_audit_def Let_def split: prod.splits option.splits sum.splits)
qed

section \<open>Witnesses\<close>

definition counting_transport :: "nat enrollment_transport" where
  "counting_transport = \<lparr>et_start = (\<lambda>t w. (t, Inl TimedOut)),
     et_poll = (\<lambda>t w code. (t + 1, Inr (if t < 2 then PollPending else PollApproved))),
     et_complete = (\<lambda>t req. (t, Inl TimedOut))\<rparr>"

definition demo_config :: enrollment_config where
  "demo_config = \<lparr>ec_workspace = 1, ec_tenant = TenantId 1, ec_pinned_tenant_key = [9],
     ec_device_identity_pubkey = replicate 32 5, ec_device_wrapping_key = replicate 32 6, ec_device_signing_seed = [5],
     ec_max_polls = 10\<rparr>"

text \<open>Approved at the third poll; and a gateway that never approves.\<close>

definition silent_transport :: "nat enrollment_transport" where
  "silent_transport = counting_transport\<lparr>et_poll := (\<lambda>t w code. (t + 1, Inr PollPending))\<rparr>"

lemma polled_counting: "polled counting_transport cfg code t n = t + n" "polled silent_transport cfg code t n = t + n"
  by (induction n arbitrary: t) (simp_all add: silent_transport_def counting_transport_def)

lemma counting_answers:
  "poll_answer counting_transport cfg code 0 n = Inr (if n < 2 then PollPending else PollApproved)"
  "poll_answer silent_transport cfg code 0 n = Inr PollPending"
  by (simp_all add: poll_answer_def polled_counting) (simp_all add: silent_transport_def counting_transport_def)

theorem enroll_polls_bounded_witness:
  "poll_loop counting_transport demo_config [] 0 0 = (3, [Wait, Wait], Inr ()) \<and>
   poll_loop silent_transport demo_config [] 0 0 = (10, replicate 9 Wait, Inl TimedOut)"
proof
  have m: "max 1 (ec_max_polls demo_config) = 10" by (simp add: demo_config_def)
  obtain n where n: "n < 10" "poll_loop counting_transport demo_config [] 0 0 =
      (n + 1, replicate n Wait, poll_result (poll_answer counting_transport demo_config [] 0 n))"
    "\<forall>i < n. poll_answer counting_transport demo_config [] 0 i = Inr PollPending"
    "poll_answer counting_transport demo_config [] 0 n = Inr PollPending \<longrightarrow> n + 1 = 10"
    using enroll_polls_bounded[of demo_config counting_transport "[]" 0, unfolded m polled_counting add_0] by blast
  have "\<not> n < 2" using n(1,4) by (auto simp: counting_answers)
  moreover have "\<not> 2 < n" using n(3) by (auto simp: counting_answers)
  ultimately have "n = 2" by simp
  then show "poll_loop counting_transport demo_config [] 0 0 = (3, [Wait, Wait], Inr ())"
    using n(2) by (simp add: counting_answers poll_result_def numeral_2_eq_2)
  obtain m where "poll_loop silent_transport demo_config [] 0 0 =
      (m + 1, replicate m Wait, poll_result (poll_answer silent_transport demo_config [] 0 m))" "m + 1 = (10 :: nat)"
    using enroll_polls_bounded[of demo_config silent_transport "[]" 0, unfolded m polled_counting add_0] counting_answers(2)
    by blast
  moreover from this have "m = 9" by simp
  ultimately show "poll_loop silent_transport demo_config [] 0 0 = (10, replicate 9 Wait, Inl TimedOut)"
    by (simp add: counting_answers poll_result_def)
qed

definition enroll_gateway_env :: "(mem_store, mem_counter, mem_audit_store) gateway_env" where
  "enroll_gateway_env = demo_env\<lparr>ge_envelope := ne_envelope demo_enroll_env\<rparr>"

definition enroll_app ::
  "(workspace_id \<Rightarrow> bytes \<Rightarrow> gateway_error + wrapped_volume_key option) \<Rightarrow> (mem_store, mem_counter, mem_audit_store) app_state" where
  "enroll_app service = app_state_new
     (with_volume_key_service (with_policy_issuer (gateway_new (fst (ms_upsert_user demo_directory (EmailAddr ''a@b.c'') ''x'')))
        (set_policy (issuer_with_counter (signing_key_from_seed (TenantId 1) [9]) 0) (WorkspaceId 1) restrictive_default)) service)
     \<lparr>sl_key = [7]\<rparr>"

lemmas enroll_app_defs = enroll_app_def app_state_new_def with_volume_key_service_def with_policy_issuer_def gateway_new_def
  set_policy_def issuer_with_counter_def enroll_gateway_env_def demo_env_def demo_config_def

lemma enroll_app_approves:
  "\<exists>auth user role dev. approves enroll_gateway_env (st_gateway (enroll_app service)) (ec_workspace demo_config) auth user role
     (ec_device_identity_pubkey demo_config) dev"
  by (simp add: approves_def enroll_app_defs begin_enrollment_def mock_identity_provider_def authorize_enrollment_poll_def
      demo_user_def mem_store_defs ms_workspace_def demo_directory_def demo_owner_def demo_admin_def seed_membership_def
      seed_workspace_def mem_store_new_def authorize_enrollment_def active_member_role_def Let_def)

lemma enroll_app_issues:
  "issues enroll_gateway_env (st_gateway (enroll_app service)) (ec_workspace demo_config) 100
     (signing_key_from_seed (TenantId 1) [9]) restrictive_default 1"
  by (simp add: issues_def enroll_app_defs issuer_current_def mc_next_def)

lemma demo_config_facts:
  "length (ec_device_identity_pubkey demo_config) = 32" "length (ec_device_wrapping_key demo_config) = 32"
  "pinned_to demo_enroll_env demo_config (signing_key_from_seed (TenantId 1) [9])"
  "ne_ed demo_enroll_env = ge_ed enroll_gateway_env" "ne_envelope demo_enroll_env = ge_envelope enroll_gateway_env"
  "codec_ok_on (ge_envelope enroll_gateway_env)
     {envelope_new (gk_tenant (signing_key_from_seed (TenantId 1) [9])) 1 100 (UpdatePolicy restrictive_default)}"
  "fresh_at DEFAULT_MAX_AGE_SECS 100 100"
  by (simp_all add: demo_config_def pinned_to_def demo_enroll_env_def ed_demo_correct gk_public_key_def ed_demo_def
      signing_key_from_seed_def enroll_gateway_env_def demo_env_def codec_ok_on_def fresh_at_def ed25519_correct_def)

definition demo_keys :: key_service where
  "demo_keys = [(WorkspaceId 1, (ContainerId 9, replicate DEK_LEN 3))]"

lemma demo_keys_get: "hm_get demo_keys (WorkspaceId (ec_workspace demo_config)) = Some (ContainerId 9, replicate DEK_LEN 3)"
  by (simp add: demo_keys_def demo_config_def hm_get_def)

text \<open>The demonstration directory's owner enrolls a device; the key is delivered wrapped.\<close>

theorem enrollment_end_to_end_witness:
  "\<exists>st' eff rec. enroll demo_enroll_env (http_transport enroll_gateway_env demo_http [] [] (\<lambda>_. 100))
       (enroll_app (mem_issue_wrapped_volume_key pad_kw demo_keys)) demo_config 100 = (st', eff, Inr rec) \<and>
     record_open_volume demo_enroll_env rec None 500 = Inr (ContainerId 9, Dek (replicate DEK_LEN 3))"
proof -
  let ?svc = "mem_issue_wrapped_volume_key pad_kw demo_keys"
  obtain auth user role dev where a: "approves enroll_gateway_env (st_gateway (enroll_app ?svc)) (ec_workspace demo_config) auth user role
     (ec_device_identity_pubkey demo_config) dev" using enroll_app_approves by blast
  have kw: "ne_kw demo_enroll_env = pad_kw" by (simp add: demo_enroll_env_def)
  have s: "gw_volume_keys (st_gateway (enroll_app ?svc)) = Some (mem_issue_wrapped_volume_key (ne_kw demo_enroll_env) demo_keys)"
    by (simp add: enroll_app_defs kw)
  have l: "length (kw_wrap (ne_kw demo_enroll_env) (ec_device_wrapping_key demo_config) (replicate DEK_LEN 3)) = WRAPPED_DEK_LEN"
    unfolding kw by (rule pad_kw_length) simp
  have n: "(1 :: u64) \<noteq> 0" by simp
  show ?thesis
    using enrollment_end_to_end[where clock = "\<lambda>_. 100" and later = 500 and h = demo_http and derr = "[]" and nonce = "[]",
        OF a enroll_app_issues n s demo_config_facts(1,2,3,4,5,6,7) _ l demo_keys_get] pad_kw_correct
    unfolding kw by blast
qed

text \<open>The same with the sealing service.\<close>

theorem sealed_delivery_refused_witness:
  "\<exists>st' eff. enroll demo_enroll_env (http_transport enroll_gateway_env demo_http [] [] (\<lambda>_. 100))
       (enroll_app (sealed_issue_wrapped_volume_key id pad_kw \<lparr>dh_public = Some, dh_shared = (\<lambda>p s. Some [])\<rparr>
          \<lparr>ds_secret = [4], ds_public = [4]\<rparr> demo_keys)) demo_config 100 = (st', eff, Inl (Accept UnexpectedSealedKey))"
proof -
  let ?svc = "sealed_issue_wrapped_volume_key id pad_kw \<lparr>dh_public = Some, dh_shared = (\<lambda>p s. Some [])\<rparr>
          \<lparr>ds_secret = [4], ds_public = [4]\<rparr> demo_keys"
  obtain auth user role dev where a: "approves enroll_gateway_env (st_gateway (enroll_app ?svc)) (ec_workspace demo_config) auth user role
     (ec_device_identity_pubkey demo_config) dev" using enroll_app_approves by blast
  have kw: "ne_kw demo_enroll_env = pad_kw" by (simp add: demo_enroll_env_def)
  have s: "gw_volume_keys (st_gateway (enroll_app ?svc)) = Some (sealed_issue_wrapped_volume_key id (ne_kw demo_enroll_env)
      \<lparr>dh_public = Some, dh_shared = (\<lambda>p s. Some [])\<rparr> \<lparr>ds_secret = [4], ds_public = [4]\<rparr> demo_keys)"
    by (simp add: enroll_app_defs kw)
  obtain vk where vk: "sealed_issue_wrapped_volume_key id (ne_kw demo_enroll_env) \<lparr>dh_public = Some, dh_shared = (\<lambda>p s. Some [])\<rparr>
      \<lparr>ds_secret = [4], ds_public = [4]\<rparr> demo_keys (WorkspaceId (ec_workspace demo_config)) (ec_device_wrapping_key demo_config)
      = Inr (Some vk)" "length (wk_wrapped_dek vk) = WRAPPED_DEK_LEN"
    using pad_kw_length[of "replicate DEK_LEN 3"] unfolding sealed_issue_wrapped_volume_key_def demo_keys_get kw
    by (simp add: seal_dek_def kek_wrap_def Let_def)
  have n: "(1 :: u64) \<noteq> 0" by simp
  show ?thesis
    using sealed_delivery_refused[where clock = "\<lambda>_. 100" and h = demo_http and derr = "[]" and nonce = "[]",
        OF a enroll_app_issues n s vk demo_config_facts(1,2,3,4,5,6,7)] by blast
qed

text \<open>Another member enrolls with the public key of a device whose chain is at sequence number 7.\<close>

definition victim_gateway :: "(mem_store, mem_counter, mem_audit_store) gateway" where
  "victim_gateway = (gateway_new ((fst (ms_upsert_user demo_directory (EmailAddr ''a@b.c'') ''x''))
     \<lparr>ms_devices_by_key := hm_insert [] (WorkspaceId 1, [5]) (DeviceId 3)\<rparr>))\<lparr>gw_audit := restore_device ledger_new (DeviceId 3) [5] 7 []\<rparr>"

theorem reenrolled_key_resets_chain_witness:
  "\<exists>g'. snd (ingest_device_audit enroll_gateway_env g' (DeviceId 3)
       \<lparr>sb_entries = [\<lparr>se_seq = 7, se_prev = [], se_event = demo_event, se_hash = []\<rparr>], sb_head = [], sb_signature = []\<rparr>)
     = Inl (IngestRejected (Gap 1 7))"
proof -
  have s: "ge_store enroll_gateway_env = mem_store_ops"
    "hm_get (ms_devices_by_key (gw_store victim_gateway)) (WorkspaceId 1, [5]) = Some (DeviceId 3)"
    "hm_get (al_chains (gw_audit victim_gateway)) (DeviceId 3) = Some \<lparr>dc_public_key = [5], dc_next_seq = 7, dc_head = []\<rparr>"
    by (simp_all add: enroll_gateway_env_def demo_env_def victim_gateway_def gateway_new_def restore_device_def ledger_new_def)
  obtain g' dev' user role policy vk tls where c: "complete_enrollment enroll_gateway_env victim_gateway (WorkspaceId 1) ''code'' [5] None 100 =
      (g', Inr (CompletionApproved dev' user role policy vk tls))"
    by (simp add: complete_enrollment_def victim_gateway_def gateway_new_def enroll_gateway_env_def demo_env_def
        mock_identity_provider_def authorize_enrollment_poll_def demo_user_def mem_store_defs ms_workspace_def
        demo_directory_def demo_owner_def demo_admin_def seed_membership_def seed_workspace_def mem_store_new_def
        authorize_enrollment_def active_member_role_def Let_def register_audit_key_def issue_tls_def)
  let ?b = "\<lparr>sb_entries = [\<lparr>se_seq = 7, se_prev = [], se_event = demo_event, se_hash = []\<rparr>], sb_head = [], sb_signature = []\<rparr>"
  have "snd (ingest_device_audit enroll_gateway_env g' (DeviceId 3) ?b) = Inl (IngestRejected (Gap 1 7))"
    using reenrolled_key_resets_chain[OF s(1,2) c s(3), of ?b] by simp
  then show ?thesis by blast
qed

end
