(* ===== verification/Postgres.thy ===== *)
theory Postgres
  imports Gateway
begin

text \<open>
  \<open>clave-gateway/src/postgres.rs\<close>: the directory and the audit store over PostgreSQL. The tables of
  the schema (\<open>clave-gateway/migrations\<close>) are lists of rows with their keys and references, and each
  statement of the source acts on them as SQL defines it. A \<open>bigint\<close> holds the bits of a \<open>u64\<close>; where
  the database orders by one it compares signed. What is not determined by the statements is a
  parameter: which statements fail, and whether a failed one was carried out, the clock, fresh UUIDs, the
  collation, the texts of errors, and the \<open>Debug\<close> output of an event.
\<close>

section \<open>Tables\<close>

record workspace_row =
  wsr_id :: u64
  wsr_allowed_domains :: "string list"
  wsr_sso_mode :: string

record user_row =
  ur_id :: u64
  ur_email :: string
  ur_idp_user_id :: string

record membership_row =
  br_workspace_id :: u64
  br_user_id :: u64
  br_role :: string
  br_status :: string

record invitation_row =
  nr_workspace_id :: u64
  nr_email :: string
  nr_role :: string
  nr_expires_at :: u64
  nr_accepted :: bool

record device_row =
  vr_id :: u128
  vr_workspace_id :: u64
  vr_enrolled_by :: u64
  vr_device_pubkey :: bytes
  vr_status :: string
  vr_enrolled_at :: int
  vr_cert_fingerprint :: "bytes option"

record chain_row =
  cr_device_id :: u128
  cr_next_seq :: u64
  cr_head :: bytes

record event_row =
  evr_device_id :: u128
  evr_seq :: u64
  evr_ts :: u64
  evr_texts :: "string \<times> string \<times> string"
  evr_app_id :: "string option"

record alert_row =
  lr_device_id :: u128
  lr_kind :: string
  lr_detail :: string

text \<open>\<open>pg_user_seq\<close> is the last value of the sequence behind \<open>app_user.id\<close>; \<open>pg_clock\<close> counts the statements that write.\<close>

record pg_state =
  pg_workspace :: "workspace_row list"
  pg_app_user :: "user_row list"
  pg_membership :: "membership_row list"
  pg_invitation :: "invitation_row list"
  pg_device :: "device_row list"
  pg_audit_chain :: "chain_row list"
  pg_audit_event :: "event_row list"
  pg_audit_alert :: "alert_row list"
  pg_user_seq :: nat
  pg_clock :: nat

text \<open>
  \<open>pe_fail\<close> says for a statement at a point of time whether it fails, with which text, and whether it
  was carried out although the caller saw the failure.
\<close>

record pg_env =
  pe_fail :: "nat \<Rightarrow> string \<Rightarrow> (string \<times> bool) option"
  pe_violation :: "string \<Rightarrow> string"
  pe_uuid :: "nat \<Rightarrow> u128"
  pe_now :: "nat \<Rightarrow> int"
  pe_collate :: "string \<Rightarrow> string"
  pe_debug :: "audit_event \<Rightarrow> string \<times> string \<times> string"

section \<open>Statements\<close>

definition pg_query :: "pg_env \<Rightarrow> pg_state \<Rightarrow> string \<Rightarrow> 'a \<Rightarrow> gateway_error + 'a" where
  "pg_query v s sql rows =
     (case pe_fail v (pg_clock s) sql of Some (e, _) \<Rightarrow> Inl (GStore e) | None \<Rightarrow> Inr rows)"

text \<open>A statement gives the changed tables with its result, or the constraint it violates.\<close>

definition pg_execute ::
  "pg_env \<Rightarrow> pg_state \<Rightarrow> string \<Rightarrow> (pg_state \<Rightarrow> string + pg_state \<times> 'a) \<Rightarrow> pg_state \<times> (gateway_error + 'a)" where
  "pg_execute v s sql stmt =
     (let s1 = s\<lparr>pg_clock := Suc (pg_clock s)\<rparr>
      in case pe_fail v (pg_clock s) sql of
           Some (e, applied) \<Rightarrow>
             (if applied then (case stmt s1 of Inl _ \<Rightarrow> s1 | Inr (s2, _) \<Rightarrow> s2) else s1, Inl (GStore e))
         | None \<Rightarrow>
             (case stmt s1 of
                Inl c \<Rightarrow> (s1, Inl (GStore (pe_violation v c)))
              | Inr (s2, x) \<Rightarrow> (s2, Inr x)))"

text \<open>\<open>INSERT ... ON CONFLICT DO UPDATE\<close>: the conflicting row is changed, otherwise the new one added.\<close>

definition upsert_row :: "('r \<Rightarrow> bool) \<Rightarrow> ('r \<Rightarrow> 'r) \<Rightarrow> 'r \<Rightarrow> 'r list \<Rightarrow> 'r list" where
  "upsert_row conflict upd row rows =
     (if list_ex conflict rows then map (\<lambda>x. if conflict x then upd x else x) rows else rows @ [row])"

text \<open>\<open>Iterator::collect\<close> into a \<open>Result\<close>: the first error, or all values.\<close>

fun collect_results :: "('e + 'a) list \<Rightarrow> 'e + 'a list" where
  "collect_results [] = Inr []"
| "collect_results (Inl e # xs) = Inl e"
| "collect_results (Inr x # xs) = rbind (collect_results xs) (\<lambda>ys. Inr (x # ys))"

section \<open>Columns\<close>

fun role_to :: "role \<Rightarrow> string" where
  "role_to Owner = ''owner''"
| "role_to Admin = ''admin''"
| "role_to Member = ''member''"

definition role_from :: "string \<Rightarrow> role" where
  "role_from s = (if s = ''owner'' then Owner else if s = ''admin'' then Admin else Member)"

fun status_to :: "membership_status \<Rightarrow> string" where
  "status_to Active = ''active''"
| "status_to MSuspended = ''suspended''"
| "status_to Invited = ''invited''"

definition status_from :: "string \<Rightarrow> membership_status" where
  "status_from s = (if s = ''active'' then Active else if s = ''suspended'' then MSuspended else Invited)"

fun sso_to :: "sso_mode \<Rightarrow> string" where
  "sso_to Required = ''required''"
| "sso_to Optional = ''optional''"

definition sso_from :: "string \<Rightarrow> sso_mode" where
  "sso_from s = (if s = ''required'' then Required else Optional)"

fun device_status_to :: "device_status \<Rightarrow> string" where
  "device_status_to DPending = ''pending''"
| "device_status_to DActive = ''active''"
| "device_status_to DLocked = ''locked''"
| "device_status_to DWiped = ''wiped''"

definition device_status_from :: "string \<Rightarrow> device_status" where
  "device_status_from s =
     (if s = ''pending'' then DPending else if s = ''locked'' then DLocked else if s = ''wiped'' then DWiped else DActive)"

definition row_device_record :: "device_row \<Rightarrow> device_record" where
  "row_device_record r =
     \<lparr>dr_id = DeviceId (vr_id r), dr_enrolled_by = UserId (vr_enrolled_by r),
      dr_status = device_status_from (vr_status r), dr_pubkey = hex (vr_device_pubkey r)\<rparr>"

section \<open>The directory\<close>

definition has_workspace :: "pg_state \<Rightarrow> u64 \<Rightarrow> bool" where
  "has_workspace s w = list_ex (\<lambda>r. wsr_id r = w) (pg_workspace s)"

definition has_user :: "pg_state \<Rightarrow> u64 \<Rightarrow> bool" where
  "has_user s u = list_ex (\<lambda>r. ur_id r = u) (pg_app_user s)"

definition has_device :: "pg_state \<Rightarrow> u128 \<Rightarrow> bool" where
  "has_device s d = list_ex (\<lambda>r. vr_id r = d) (pg_device s)"

definition pg_upsert_workspace :: "pg_env \<Rightarrow> pg_state \<Rightarrow> workspace \<Rightarrow> pg_state \<times> (gateway_error + unit)" where
  "pg_upsert_workspace v s ws =
     pg_execute v s ''INSERT INTO workspace'' (\<lambda>s.
       let row = \<lparr>wsr_id = workspace_num (ws_id ws), wsr_allowed_domains = ws_allowed_domains ws, wsr_sso_mode = sso_to (ws_sso ws)\<rparr>
       in Inr (s\<lparr>pg_workspace := upsert_row (\<lambda>r. wsr_id r = wsr_id row) (\<lambda>_. row) row (pg_workspace s)\<rparr>, ()))"

definition pg_upsert_invitation :: "pg_env \<Rightarrow> pg_state \<Rightarrow> invitation \<Rightarrow> pg_state \<times> (gateway_error + unit)" where
  "pg_upsert_invitation v s ivn =
     pg_execute v s ''INSERT INTO invitation'' (\<lambda>s.
       let row = \<lparr>nr_workspace_id = workspace_num (iv_workspace ivn), nr_email = email_str (iv_email ivn),
                  nr_role = role_to (iv_role ivn), nr_expires_at = iv_expires_at ivn, nr_accepted = iv_accepted ivn\<rparr>
       in if \<not> has_workspace s (nr_workspace_id row) then Inl ''invitation_workspace_id_fkey''
          else Inr (s\<lparr>pg_invitation := upsert_row (\<lambda>r. nr_workspace_id r = nr_workspace_id row \<and> nr_email r = nr_email row)
                        (\<lambda>_. row) row (pg_invitation s)\<rparr>, ()))"

definition pg_workspace_by_id :: "pg_env \<Rightarrow> pg_state \<Rightarrow> workspace_id \<Rightarrow> gateway_error + workspace option" where
  "pg_workspace_by_id v s i =
     pg_query v s ''SELECT allowed_domains, sso_mode FROM workspace''
       (map_option (\<lambda>r. \<lparr>ws_id = i, ws_allowed_domains = wsr_allowed_domains r, ws_sso = sso_from (wsr_sso_mode r)\<rparr>)
         (List.find (\<lambda>r. wsr_id r = workspace_num i) (pg_workspace s)))"

text \<open>The default of the id is taken from the sequence before the conflict is looked for.\<close>

definition pg_upsert_user :: "pg_env \<Rightarrow> pg_state \<Rightarrow> email_addr \<Rightarrow> string \<Rightarrow> pg_state \<times> (gateway_error + user_id)" where
  "pg_upsert_user v s email idp_user_id =
     pg_execute v s ''INSERT INTO app_user'' (\<lambda>s.
       let n = Suc (pg_user_seq s)
       in if n \<ge> 2 ^ 63 then Inl ''app_user_id_seq''
          else let row = \<lparr>ur_id = of_nat n, ur_email = email_str email, ur_idp_user_id = idp_user_id\<rparr>;
                   users = upsert_row (\<lambda>r. ur_email r = ur_email row) (ur_idp_user_id_update (\<lambda>_. idp_user_id)) row (pg_app_user s)
               in Inr (s\<lparr>pg_user_seq := n, pg_app_user := users\<rparr>,
                       UserId (case List.find (\<lambda>r. ur_email r = ur_email row) users of Some r \<Rightarrow> ur_id r | None \<Rightarrow> ur_id row)))"

definition find_member :: "pg_state \<Rightarrow> workspace_id \<Rightarrow> user_id \<Rightarrow> membership option" where
  "find_member s w u =
     map_option (\<lambda>r. \<lparr>me_workspace = w, me_user = u, me_role = role_from (br_role r), me_status = status_from (br_status r)\<rparr>)
       (List.find (\<lambda>r. br_workspace_id r = workspace_num w \<and> br_user_id r = user_num u) (pg_membership s))"

definition pg_membership_of :: "pg_env \<Rightarrow> pg_state \<Rightarrow> workspace_id \<Rightarrow> user_id \<Rightarrow> gateway_error + membership option" where
  "pg_membership_of v s w u = pg_query v s ''SELECT role, status FROM membership'' (find_member s w u)"

definition pg_put_membership :: "pg_env \<Rightarrow> pg_state \<Rightarrow> membership \<Rightarrow> pg_state \<times> (gateway_error + unit)" where
  "pg_put_membership v s m =
     pg_execute v s ''INSERT INTO membership'' (\<lambda>s.
       let row = \<lparr>br_workspace_id = workspace_num (me_workspace m), br_user_id = user_num (me_user m),
                  br_role = role_to (me_role m), br_status = status_to (me_status m)\<rparr>
       in if \<not> has_workspace s (br_workspace_id row) then Inl ''membership_workspace_id_fkey''
          else if \<not> has_user s (br_user_id row) then Inl ''membership_user_id_fkey''
          else Inr (s\<lparr>pg_membership := upsert_row (\<lambda>r. br_workspace_id r = br_workspace_id row \<and> br_user_id r = br_user_id row)
                        (\<lambda>_. row) row (pg_membership s)\<rparr>, ()))"

definition find_invitation :: "pg_state \<Rightarrow> workspace_id \<Rightarrow> email_addr \<Rightarrow> invitation option" where
  "find_invitation s w e =
     map_option (\<lambda>r. \<lparr>iv_workspace = w, iv_email = e, iv_role = role_from (nr_role r),
                      iv_expires_at = nr_expires_at r, iv_accepted = nr_accepted r\<rparr>)
       (List.find (\<lambda>r. nr_workspace_id r = workspace_num w \<and> nr_email r = email_str e) (pg_invitation s))"

definition pg_invitation_of :: "pg_env \<Rightarrow> pg_state \<Rightarrow> workspace_id \<Rightarrow> email_addr \<Rightarrow> gateway_error + invitation option" where
  "pg_invitation_of v s w e = pg_query v s ''SELECT role, expires_at, accepted FROM invitation'' (find_invitation s w e)"

definition pg_mark_invitation_accepted ::
  "pg_env \<Rightarrow> pg_state \<Rightarrow> workspace_id \<Rightarrow> email_addr \<Rightarrow> pg_state \<times> (gateway_error + unit)" where
  "pg_mark_invitation_accepted v s w e =
     pg_execute v s ''UPDATE invitation'' (\<lambda>s.
       Inr (s\<lparr>pg_invitation := map (\<lambda>r. if nr_workspace_id r = workspace_num w \<and> nr_email r = email_str e
                                         then r\<lparr>nr_accepted := True\<rparr> else r) (pg_invitation s)\<rparr>, ()))"

definition pg_record_device ::
  "pg_env \<Rightarrow> pg_state \<Rightarrow> workspace_id \<Rightarrow> user_id \<Rightarrow> bytes \<Rightarrow> pg_state \<times> (gateway_error + device_id)" where
  "pg_record_device v s w enrolled_by pubkey =
     (let new_id = pe_uuid v (pg_clock s); at = pe_now v (pg_clock s)
      in pg_execute v s ''INSERT INTO device'' (\<lambda>s.
           let same = (\<lambda>r. vr_workspace_id r = workspace_num w \<and> vr_device_pubkey r = pubkey)
           in case List.find same (pg_device s) of
                Some r \<Rightarrow>
                  Inr (s\<lparr>pg_device := map (\<lambda>r. if same r then r\<lparr>vr_status := ''active''\<rparr> else r) (pg_device s)\<rparr>, DeviceId (vr_id r))
              | None \<Rightarrow>
                  if has_device s new_id then Inl ''device_pkey''
                  else if \<not> has_workspace s (workspace_num w) then Inl ''device_workspace_id_fkey''
                  else if \<not> has_user s (user_num enrolled_by) then Inl ''device_enrolled_by_fkey''
                  else Inr (s\<lparr>pg_device := pg_device s @
                                [\<lparr>vr_id = new_id, vr_workspace_id = workspace_num w, vr_enrolled_by = user_num enrolled_by,
                                  vr_device_pubkey = pubkey, vr_status = ''active'', vr_enrolled_at = at, vr_cert_fingerprint = None\<rparr>]\<rparr>,
                            DeviceId new_id)))"

definition pg_list_members :: "pg_env \<Rightarrow> pg_state \<Rightarrow> workspace_id \<Rightarrow> gateway_error + member_record list" where
  "pg_list_members v s w =
     pg_query v s ''SELECT m.user_id, u.email, m.role, m.status FROM membership m JOIN app_user u''
       (map (\<lambda>(m, u). \<lparr>mr_user = UserId (br_user_id m), mr_email = ur_email u, mr_role = role_from (br_role m),
                       mr_status = status_from (br_status m)\<rparr>)
         (sort_key (\<lambda>(m, u). sint (br_user_id m))
           [(m, u). m \<leftarrow> pg_membership s, br_workspace_id m = workspace_num w, u \<leftarrow> pg_app_user s, ur_id u = br_user_id m]))"

definition row_invitation :: "workspace_id \<Rightarrow> invitation_row \<Rightarrow> gateway_error + invitation" where
  "row_invitation w r =
     rbind (ok_or (email_parse (nr_email r)) (GStore ''stored email is invalid''))
       (\<lambda>e. Inr \<lparr>iv_workspace = w, iv_email = e, iv_role = role_from (nr_role r),
                 iv_expires_at = nr_expires_at r, iv_accepted = nr_accepted r\<rparr>)"

definition pg_list_invitations :: "pg_env \<Rightarrow> pg_state \<Rightarrow> workspace_id \<Rightarrow> gateway_error + invitation list" where
  "pg_list_invitations v s w =
     rbind (pg_query v s ''SELECT email, role, expires_at, accepted FROM invitation''
         (sort_key (\<lambda>r. pe_collate v (nr_email r)) (filter (\<lambda>r. nr_workspace_id r = workspace_num w) (pg_invitation s))))
       (\<lambda>rows. collect_results (map (row_invitation w) rows))"

definition pg_list_devices :: "pg_env \<Rightarrow> pg_state \<Rightarrow> workspace_id \<Rightarrow> gateway_error + device_record list" where
  "pg_list_devices v s w =
     pg_query v s ''SELECT id, enrolled_by, device_pubkey, status FROM device ORDER BY enrolled_at''
       (map row_device_record (sort_key vr_enrolled_at (filter (\<lambda>r. vr_workspace_id r = workspace_num w) (pg_device s))))"

definition pg_device_by_id :: "pg_env \<Rightarrow> pg_state \<Rightarrow> workspace_id \<Rightarrow> device_id \<Rightarrow> gateway_error + device_record option" where
  "pg_device_by_id v s w d =
     pg_query v s ''SELECT id, enrolled_by, device_pubkey, status FROM device''
       (map_option row_device_record
         (List.find (\<lambda>r. vr_workspace_id r = workspace_num w \<and> vr_id r = device_num d) (pg_device s)))"

definition pg_set_device_status ::
  "pg_env \<Rightarrow> pg_state \<Rightarrow> workspace_id \<Rightarrow> device_id \<Rightarrow> device_status \<Rightarrow> pg_state \<times> (gateway_error + unit)" where
  "pg_set_device_status v s w d status =
     (let hit = (\<lambda>r. vr_workspace_id r = workspace_num w \<and> vr_id r = device_num d)
      in gbind (pg_execute v s ''UPDATE device SET status'' (\<lambda>s.
             Inr (s\<lparr>pg_device := map (\<lambda>r. if hit r then r\<lparr>vr_status := device_status_to status\<rparr> else r) (pg_device s)\<rparr>,
                  length (filter hit (pg_device s)))))
           (\<lambda>s rows_affected. if rows_affected = 0 then (s, Inl (GNotFound (''device '' @ dec_of_word (device_num d)))) else (s, Inr ())))"

definition pg_set_device_fingerprint ::
  "pg_env \<Rightarrow> pg_state \<Rightarrow> device_id \<Rightarrow> bytes \<Rightarrow> pg_state \<times> (gateway_error + unit)" where
  "pg_set_device_fingerprint v s d fingerprint =
     pg_execute v s ''UPDATE device SET cert_fingerprint'' (\<lambda>s.
       if has_device s (device_num d) \<and> list_ex (\<lambda>r. vr_id r \<noteq> device_num d \<and> vr_cert_fingerprint r = Some fingerprint) (pg_device s)
       then Inl ''device_cert_fingerprint_idx''
       else Inr (s\<lparr>pg_device := map (\<lambda>r. if vr_id r = device_num d then r\<lparr>vr_cert_fingerprint := Some fingerprint\<rparr> else r)
                                 (pg_device s)\<rparr>, ()))"

definition pg_device_by_fingerprint :: "pg_env \<Rightarrow> pg_state \<Rightarrow> bytes \<Rightarrow> gateway_error + device_id option" where
  "pg_device_by_fingerprint v s fingerprint =
     pg_query v s ''SELECT id FROM device''
       (map_option (\<lambda>r. DeviceId (vr_id r)) (List.find (\<lambda>r. vr_cert_fingerprint r = Some fingerprint) (pg_device s)))"

definition pg_store_ops :: "pg_env \<Rightarrow> pg_state store_ops" where
  "pg_store_ops v =
     \<lparr>so_workspace = pg_workspace_by_id v, so_upsert_user = pg_upsert_user v, so_membership = pg_membership_of v,
      so_put_membership = pg_put_membership v, so_list_members = pg_list_members v,
      so_invitation = pg_invitation_of v, so_put_invitation = pg_upsert_invitation v,
      so_list_invitations = pg_list_invitations v,
      so_mark_invitation_accepted = pg_mark_invitation_accepted v, so_record_device = pg_record_device v,
      so_list_devices = pg_list_devices v, so_device = pg_device_by_id v,
      so_set_device_status = pg_set_device_status v,
      so_set_device_fingerprint = pg_set_device_fingerprint v,
      so_device_by_fingerprint = pg_device_by_fingerprint v\<rparr>"

section \<open>The audit store\<close>

definition chain_hash_from :: "bytes \<Rightarrow> chain_hash" where
  "chain_hash_from bs = (let n = min (length bs) (length GENESIS) in take n bs @ drop n GENESIS)"

definition pga_register :: "pg_env \<Rightarrow> pg_state \<Rightarrow> device_id \<Rightarrow> bytes \<Rightarrow> pg_state \<times> (gateway_error + unit)" where
  "pga_register v s d public_key =
     pg_execute v s ''INSERT INTO audit_chain'' (\<lambda>s.
       if \<not> has_device s (device_num d) then Inl ''audit_chain_device_id_fkey''
       else Inr (s\<lparr>pg_audit_chain := upsert_row (\<lambda>r. cr_device_id r = device_num d)
                     (\<lambda>r. r\<lparr>cr_next_seq := 1, cr_head := GENESIS\<rparr>)
                     \<lparr>cr_device_id = device_num d, cr_next_seq = 1, cr_head = GENESIS\<rparr> (pg_audit_chain s)\<rparr>, ()))"

definition event_row_of :: "pg_env \<Rightarrow> device_id \<Rightarrow> spool_entry \<Rightarrow> event_row" where
  "event_row_of v d e =
     \<lparr>evr_device_id = device_num d, evr_seq = se_seq e, evr_ts = ae_ts (se_event e), evr_texts = pe_debug v (se_event e),
      evr_app_id = map_option app_id_str (ae_app_id (se_event e))\<rparr>"

text \<open>\<open>ON CONFLICT (device_id, seq) DO NOTHING\<close>.\<close>

definition insert_event :: "pg_env \<Rightarrow> device_id \<Rightarrow> pg_state \<Rightarrow> spool_entry \<Rightarrow> pg_state \<times> (gateway_error + unit)" where
  "insert_event v d s e =
     pg_execute v s ''INSERT INTO audit_event'' (\<lambda>s.
       if list_ex (\<lambda>r. evr_device_id r = device_num d \<and> evr_seq r = se_seq e) (pg_audit_event s) then Inr (s, ())
       else if \<not> has_device s (device_num d) then Inl ''audit_event_device_id_fkey''
       else Inr (s\<lparr>pg_audit_event := pg_audit_event s @ [event_row_of v d e]\<rparr>, ()))"

fun insert_events :: "pg_env \<Rightarrow> device_id \<Rightarrow> pg_state \<Rightarrow> spool_entry list \<Rightarrow> pg_state \<times> (gateway_error + unit)" where
  "insert_events v d s [] = (s, Inr ())"
| "insert_events v d s (e # es) = gbind (insert_event v d s e) (\<lambda>s _. insert_events v d s es)"

text \<open>
  A transaction of the pool: \<open>begin\<close>, the statements with \<open>?\<close> after each, \<open>commit\<close>. A statement that fails
  returns early and drops the transaction, which rolls it back: the tables are those of the beginning. A
  commit that fails may have taken effect.
\<close>

definition pg_transaction ::
  "pg_env \<Rightarrow> pg_state \<Rightarrow> (pg_state \<Rightarrow> pg_state \<times> (gateway_error + unit)) \<Rightarrow> pg_state \<times> (gateway_error + unit)" where
  "pg_transaction v s body =
     gbind (pg_execute v s ''BEGIN'' (\<lambda>s. Inr (s, ()))) (\<lambda>s0 _.
       case body s0 of
         (s1, Inl e) \<Rightarrow> (s0\<lparr>pg_clock := pg_clock s1\<rparr>, Inl e)
       | (s1, Inr _) \<Rightarrow>
           (case pe_fail v (pg_clock s1) ''COMMIT'' of
              None \<Rightarrow> (s1\<lparr>pg_clock := Suc (pg_clock s1)\<rparr>, Inr ())
            | Some (e, applied) \<Rightarrow>
                ((if applied then s1 else s0)\<lparr>pg_clock := Suc (pg_clock s1)\<rparr>, Inl (GStore e))))"

definition pga_append ::
  "pg_env \<Rightarrow> pg_state \<Rightarrow> device_id \<Rightarrow> spool_entry list \<Rightarrow> u64 \<Rightarrow> chain_hash \<Rightarrow> pg_state \<times> (gateway_error + unit)" where
  "pga_append v s d entries next_seq head =
     pg_transaction v s (\<lambda>s.
       gbind (pg_execute v s ''UPDATE audit_chain'' (\<lambda>s.
                Inr (s\<lparr>pg_audit_chain := map (\<lambda>r. if cr_device_id r = device_num d
                                                  then r\<lparr>cr_next_seq := next_seq, cr_head := head\<rparr> else r) (pg_audit_chain s)\<rparr>, ())))
         (\<lambda>s _. insert_events v d s entries))"

definition pga_record_alert :: "pg_env \<Rightarrow> pg_state \<Rightarrow> audit_alert \<Rightarrow> pg_state \<times> (gateway_error + unit)" where
  "pga_record_alert v s a =
     pg_execute v s ''INSERT INTO audit_alert'' (\<lambda>s.
       if \<not> has_device s (device_num (aa_device a)) then Inl ''audit_alert_device_id_fkey''
       else Inr (s\<lparr>pg_audit_alert := pg_audit_alert s @
                     [\<lparr>lr_device_id = device_num (aa_device a), lr_kind = aa_kind a, lr_detail = aa_detail a\<rparr>]\<rparr>, ()))"

definition pad32 :: "bytes \<Rightarrow> bytes" where
  "pad32 pubkey = (let n = min (length pubkey) 32 in take n pubkey @ replicate (32 - n) 0)"

definition pga_load_chains :: "pg_env \<Rightarrow> pg_state \<Rightarrow> gateway_error + persisted_chain list" where
  "pga_load_chains v s =
     pg_query v s ''SELECT c.device_id, d.device_pubkey, c.next_seq, c.head FROM audit_chain c JOIN device d''
       (map (\<lambda>(c, d). \<lparr>pc_device = DeviceId (cr_device_id c), pc_public_key = pad32 (vr_device_pubkey d),
                       pc_next_seq = cr_next_seq c, pc_head = chain_hash_from (cr_head c)\<rparr>)
         [(c, d). c \<leftarrow> pg_audit_chain s, d \<leftarrow> pg_device s, vr_id d = cr_device_id c])"

definition pg_audit_ops :: "pg_env \<Rightarrow> pg_state audit_store_ops" where
  "pg_audit_ops v = \<lparr>ao_register = pga_register v, ao_append = pga_append v,
     ao_record_alert = pga_record_alert v, ao_load_chains = pga_load_chains v\<rparr>"

end
