(* ===== verification/Postgres_Props.thy ===== *)
theory Postgres_Props
  imports Postgres Gateway_Props
begin

text \<open>
  What holds of the gateway over PostgreSQL, whichever statements fail: the directory satisfies the
  contract \<open>keyed_store\<close>, so nobody escalates; appending to the audit store is atomic; without failures
  the audit store keeps the same chains as the one in memory, but not the events of a chain that
  started again.
\<close>

section \<open>Statements\<close>

lemma pg_execute_cases:
  assumes "pg_execute v s sql stmt = (s', r)"
  obtains "s' = s\<lparr>pg_clock := Suc (pg_clock s)\<rparr>" "isl r"
  | x where "stmt (s\<lparr>pg_clock := Suc (pg_clock s)\<rparr>) = Inr (s', x)" "r = Inr x \<or> isl r"
  using assms that unfolding pg_execute_def Let_def
  by (auto split: option.splits prod.splits sum.splits if_splits)

lemma pg_query_Inr: "pg_query v s sql x = Inr y \<Longrightarrow> y = x"
  by (auto simp: pg_query_def split: option.splits prod.splits)

lemma find_upsert_same: "conflict row \<Longrightarrow> List.find conflict (upsert_row conflict (\<lambda>_. row) row rows) = Some row"
proof -
  assume c: "conflict row"
  have "list_ex conflict xs \<Longrightarrow> List.find conflict (map (\<lambda>x. if conflict x then row else x) xs) = Some row" for xs
    using c by (induction xs) auto
  moreover have "\<not> list_ex conflict xs \<Longrightarrow> List.find conflict (xs @ [row]) = Some row" for xs
    using c by (induction xs) auto
  ultimately show ?thesis by (simp add: upsert_row_def)
qed

lemma find_upsert_other:
  assumes "\<And>x. conflict x \<Longrightarrow> \<not> Q x" "\<not> Q row"
  shows "List.find Q (upsert_row conflict (\<lambda>_. row) row rows) = List.find Q rows"
proof -
  have "List.find Q (map (\<lambda>x. if conflict x then row else x) xs) = List.find Q xs" for xs
    using assms by (induction xs) auto
  moreover have "List.find Q (xs @ [row]) = List.find Q xs" for xs using assms(2) by (induction xs) auto
  ultimately show ?thesis by (simp add: upsert_row_def)
qed

lemma find_map_key:
  assumes "\<And>x. Q (f x) = Q x"
  shows "List.find Q (map f xs) = map_option f (List.find Q xs)"
  using assms by (induction xs) auto

section \<open>The directory keeps its contract\<close>

lemma role_round_trip [simp]: "role_from (role_to r) = r"
  by (cases r) (simp_all add: role_from_def)

lemma status_round_trip [simp]: "status_from (status_to st) = st"
  by (cases st) (simp_all add: status_from_def)

lemma pg_tables_clock [simp]:
  "find_member (s\<lparr>pg_clock := n\<rparr>) = find_member s" "find_invitation (s\<lparr>pg_clock := n\<rparr>) = find_invitation s"
  by (simp_all add: find_member_def find_invitation_def fun_eq_iff)

lemma pg_put_membership_effect:
  assumes "pg_put_membership v s m = (s', r)"
  shows "find_invitation s' = find_invitation s \<and>
    (find_member s' = (\<lambda>w u. if w = me_workspace m \<and> u = me_user m then Some m else find_member s w u) \<or>
     isl r \<and> find_member s' = find_member s)"
  using assms unfolding pg_put_membership_def
proof (cases rule: pg_execute_cases)
  case (2 x)
  let ?row = "\<lparr>br_workspace_id = workspace_num (me_workspace m), br_user_id = user_num (me_user m),
                  br_role = role_to (me_role m), br_status = status_to (me_status m)\<rparr>"
  let ?conflict = "\<lambda>r. br_workspace_id r = br_workspace_id ?row \<and> br_user_id r = br_user_id ?row"
  have s': "s' = s\<lparr>pg_clock := Suc (pg_clock s), pg_membership := upsert_row ?conflict (\<lambda>_. ?row) ?row (pg_membership s)\<rparr>"
    using 2(1) by (auto simp: Let_def split: if_splits)
  have "find_member s' w u = (if w = me_workspace m \<and> u = me_user m then Some m else find_member s w u)" for w u
  proof (cases "w = me_workspace m \<and> u = me_user m")
    case True
    then show ?thesis using find_upsert_same[of ?conflict ?row] by (simp add: s' find_member_def)
  next
    case False
    have "List.find (\<lambda>r. br_workspace_id r = workspace_num w \<and> br_user_id r = user_num u)
        (upsert_row ?conflict (\<lambda>_. ?row) ?row (pg_membership s)) =
      List.find (\<lambda>r. br_workspace_id r = workspace_num w \<and> br_user_id r = user_num u) (pg_membership s)"
      using False by (intro find_upsert_other) (auto simp: workspace_id.expand user_id.expand)
    then show ?thesis using False by (auto simp: s' find_member_def)
  qed
  then show ?thesis by (auto simp: s' find_invitation_def fun_eq_iff)
qed simp

lemma pg_upsert_invitation_effect:
  assumes "pg_upsert_invitation v s i = (s', r)"
  shows "find_member s' = find_member s \<and>
    (find_invitation s' =
       (\<lambda>w e. if w = iv_workspace i \<and> email_str e = email_str (iv_email i) then Some i else find_invitation s w e) \<or>
     isl r \<and> find_invitation s' = find_invitation s)"
  using assms unfolding pg_upsert_invitation_def
proof (cases rule: pg_execute_cases)
  case (2 x)
  let ?row = "\<lparr>nr_workspace_id = workspace_num (iv_workspace i), nr_email = email_str (iv_email i),
                  nr_role = role_to (iv_role i), nr_expires_at = iv_expires_at i, nr_accepted = iv_accepted i\<rparr>"
  let ?conflict = "\<lambda>r. nr_workspace_id r = nr_workspace_id ?row \<and> nr_email r = nr_email ?row"
  have s': "s' = s\<lparr>pg_clock := Suc (pg_clock s), pg_invitation := upsert_row ?conflict (\<lambda>_. ?row) ?row (pg_invitation s)\<rparr>"
    using 2(1) by (auto simp: Let_def split: if_splits)
  have "find_invitation s' w e =
      (if w = iv_workspace i \<and> email_str e = email_str (iv_email i) then Some i else find_invitation s w e)" for w e
  proof (cases "w = iv_workspace i \<and> email_str e = email_str (iv_email i)")
    case True
    then have "e = iv_email i" by (simp add: email_addr.expand)
    then show ?thesis using True find_upsert_same[of ?conflict ?row] by (simp add: s' find_invitation_def)
  next
    case False
    have "List.find (\<lambda>r. nr_workspace_id r = workspace_num w \<and> nr_email r = email_str e)
        (upsert_row ?conflict (\<lambda>_. ?row) ?row (pg_invitation s)) =
      List.find (\<lambda>r. nr_workspace_id r = workspace_num w \<and> nr_email r = email_str e) (pg_invitation s)"
      using False by (intro find_upsert_other) (auto simp: workspace_id.expand)
    then show ?thesis using False by (auto simp: s' find_invitation_def)
  qed
  then show ?thesis by (auto simp: s' find_member_def fun_eq_iff)
qed simp

lemma pg_mark_effect:
  assumes "pg_mark_invitation_accepted v s w e = (s', r)"
  shows "find_member s' = find_member s \<and>
    (find_invitation s' = (\<lambda>w' e'. if w' = w \<and> email_str e' = email_str e
                      then map_option (iv_accepted_update (\<lambda>_. True)) (find_invitation s w' e') else find_invitation s w' e') \<or>
     isl r \<and> find_invitation s' = find_invitation s)"
  using assms unfolding pg_mark_invitation_accepted_def
proof (cases rule: pg_execute_cases)
  case (2 x)
  let ?mark = "\<lambda>r. if nr_workspace_id r = workspace_num w \<and> nr_email r = email_str e then r\<lparr>nr_accepted := True\<rparr> else r"
  have s': "s' = s\<lparr>pg_clock := Suc (pg_clock s), pg_invitation := map ?mark (pg_invitation s)\<rparr>"
    using 2(1) by auto
  have "find_invitation s' w' e' = (if w' = w \<and> email_str e' = email_str e
      then map_option (iv_accepted_update (\<lambda>_. True)) (find_invitation s w' e') else find_invitation s w' e')" for w' e'
  proof -
    let ?Q = "\<lambda>r. nr_workspace_id r = workspace_num w' \<and> nr_email r = email_str e'"
    have m: "List.find ?Q (map ?mark (pg_invitation s)) = map_option ?mark (List.find ?Q (pg_invitation s))"
      by (rule find_map_key) simp
    show ?thesis
    proof (cases "List.find ?Q (pg_invitation s)")
      case None
      then show ?thesis using m by (auto simp: s' find_invitation_def)
    next
      case (Some a)
      then have "nr_workspace_id a = workspace_num w'" "nr_email a = email_str e'" by (auto dest: find_SomeD)
      then show ?thesis using m Some by (auto simp: s' find_invitation_def workspace_id.expand)
    qed
  qed
  then show ?thesis by (auto simp: s' find_member_def fun_eq_iff)
qed simp

text \<open>The other statements leave memberships and invitations alone.\<close>

lemma pg_execute_frame:
  assumes "\<And>s s' x. stmt s = Inr (s', x) \<Longrightarrow> pg_membership s' = pg_membership s \<and> pg_invitation s' = pg_invitation s"
  shows "find_member (fst (pg_execute v s sql stmt)) = find_member s"
    "find_invitation (fst (pg_execute v s sql stmt)) = find_invitation s"
proof -
  obtain s' r where e: "pg_execute v s sql stmt = (s', r)" by fastforce
  then have "pg_membership s' = pg_membership s \<and> pg_invitation s' = pg_invitation s"
    by (cases rule: pg_execute_cases) (auto dest: assms)
  then show "find_member (fst (pg_execute v s sql stmt)) = find_member s"
    "find_invitation (fst (pg_execute v s sql stmt)) = find_invitation s"
    by (simp_all add: e find_member_def find_invitation_def fun_eq_iff)
qed

lemma pg_set_status_fst:
  "fst (pg_set_device_status v s w d st) = fst (pg_execute v s ''UPDATE device SET status'' (\<lambda>s.
     Inr (s\<lparr>pg_device := map (\<lambda>r. if vr_workspace_id r = workspace_num w \<and> vr_id r = device_num d
                               then r\<lparr>vr_status := device_status_to st\<rparr> else r) (pg_device s)\<rparr>,
          length (filter (\<lambda>r. vr_workspace_id r = workspace_num w \<and> vr_id r = device_num d) (pg_device s)))))"
  by (auto simp: pg_set_device_status_def gbind_def Let_def split: prod.splits sum.splits)

lemma pg_workspace_keyed: "pg_workspace_by_id v s w = Inr (Some x) \<Longrightarrow> ws_id x = w"
  by (auto simp: pg_workspace_by_id_def pg_query_def split: option.splits prod.splits)

interpretation pgs: keyed_store "pg_store_ops v" find_member find_invitation "\<lambda>_. True" for v
proof (unfold_locales, goal_cases)
  case (1 s w u found)
  then show ?case by (simp add: pg_store_ops_def pg_membership_of_def pg_query_Inr)
next
  case (2 s m s' r)
  then show ?case using pg_put_membership_effect[of v s m s' r] by (simp add: pg_store_ops_def)
next
  case (5 s w e s' r)
  then show ?case using pg_mark_effect[of v s w e s' r] by (simp add: pg_store_ops_def)
next
  case (6 s i s' r)
  then show ?case using pg_upsert_invitation_effect[of v s i s' r] by (simp add: pg_store_ops_def)
next
  case (7 s w e ivn)
  then show ?case by (simp add: pg_store_ops_def pg_invitation_of_def pg_query_Inr)
next
  case (14 s w x)
  then show ?case by (simp add: pg_store_ops_def pg_workspace_keyed)
next
  case (15 s w u m)
  then show ?case by (auto simp: find_member_def)
qed (auto simp: pg_store_ops_def pg_upsert_user_def pg_record_device_def pg_set_device_fingerprint_def pg_set_status_fst
       Let_def intro!: pg_execute_frame split: if_splits option.splits)

text \<open>One event at the gateway, with the failures and the answers of the database while it is handled.\<close>

definition pg_apply ::
  "(pg_state, 'c, 'a) gateway_env \<Rightarrow> (pg_state, 'c, 'a) gateway \<Rightarrow> pg_env \<times> gateway_event \<Rightarrow> (pg_state, 'c, 'a) gateway" where
  "pg_apply v g x = gw_apply (v\<lparr>ge_store := pg_store_ops (fst x)\<rparr>) g (snd x)"

text \<open>
  (C14) No privilege escalation over PostgreSQL. Take any sequence of admin requests, logins, refreshes,
  enrollments and device batches, where any statement may fail at any time, carried out or not. If
  nobody who issues a request in a workspace is above role \<open>r\<close> there at the start, and no pending
  invitation is, then at the end every member who was above \<open>r\<close> is exactly as before, and nobody else is
  above \<open>r\<close>.
\<close>

theorem pg_no_privilege_escalation:
  fixes v :: "(pg_state, 'c, 'a) gateway_env"
  assumes "\<And>e i. find_invitation (gw_store g) w e = Some i \<Longrightarrow> iv_role i \<le> r"
    and "\<And>x u m. x \<in> set evs \<Longrightarrow> acts_in w (snd x) = Some u \<Longrightarrow> find_member (gw_store g) w u = Some m \<Longrightarrow> me_role m \<le> r"
    and "g' = foldl (pg_apply v) g evs"
  shows "case find_member (gw_store g) w u of
      Some m \<Rightarrow> if me_role m > r then find_member (gw_store g') w u = Some m
                else (\<forall>m'. find_member (gw_store g') w u = Some m' \<longrightarrow> me_role m' \<le> r)
    | None \<Rightarrow> \<forall>m'. find_member (gw_store g') w u = Some m' \<longrightarrow> me_role m' \<le> r"
proof -
  have "pgs.bounded r w (gw_store g) (gw_store (foldl (pg_apply v) k evs))"
    if "pgs.bounded r w (gw_store g) (gw_store k)"
      "\<forall>x \<in> set evs. \<forall>u. acts_in w (snd x) = Some u \<longrightarrow> \<not> pgs.senior r w (gw_store g) u" for k
    using that by (induction evs arbitrary: k) (simp_all add: pg_apply_def pgs.no_escalation_step)
  moreover have "pgs.bounded r w (gw_store g) (gw_store g)" using assms(1) by (rule pgs.bounded_refl[OF TrueI])
  moreover have "\<forall>x \<in> set evs. \<forall>u. acts_in w (snd x) = Some u \<longrightarrow> \<not> pgs.senior r w (gw_store g) u"
    using assms(2) by (auto simp: pgs.senior_def not_less[symmetric] split: option.splits)
  ultimately show ?thesis unfolding assms(3) by (intro pgs.bounded_cases) blast
qed

text \<open>An admin tries to become owner and to demote and suspend the owner, over a database that fails in between.\<close>

definition demo_pg :: pg_state where
  "demo_pg = \<lparr>pg_workspace = [\<lparr>wsr_id = 1, wsr_allowed_domains = [], wsr_sso_mode = ''optional''\<rparr>],
     pg_app_user = [\<lparr>ur_id = 1, ur_email = ''o@b.c'', ur_idp_user_id = []\<rparr>, \<lparr>ur_id = 2, ur_email = ''a@b.c'', ur_idp_user_id = []\<rparr>],
     pg_membership = [\<lparr>br_workspace_id = 1, br_user_id = 1, br_role = ''owner'', br_status = ''active''\<rparr>,
       \<lparr>br_workspace_id = 1, br_user_id = 2, br_role = ''admin'', br_status = ''active''\<rparr>],
     pg_invitation = [], pg_device = [], pg_audit_chain = [], pg_audit_event = [], pg_audit_alert = [],
     pg_user_seq = 2, pg_clock = 0\<rparr>"

definition demo_pg_env :: "(nat \<Rightarrow> string \<Rightarrow> (string \<times> bool) option) \<Rightarrow> pg_env" where
  "demo_pg_env fail = \<lparr>pe_fail = fail, pe_violation = id, pe_uuid = of_nat, pe_now = int, pe_collate = id, pe_debug = \<lambda>_. ([], [], [])\<rparr>"

definition demo_pg_gateway :: "(pg_state, mem_counter, mem_audit_store) gateway" where
  "demo_pg_gateway = gateway_new demo_pg"

definition demo_pg_events :: "(pg_env \<times> gateway_event) list" where
  "demo_pg_events =
     [(demo_pg_env (\<lambda>_ _. None), Request demo_session 5 (ChangeRole (UserId 2) Owner)),
      (demo_pg_env (\<lambda>_ _. Some (''connection reset'', True)), Request demo_session 5 (ChangeRole (UserId 1) Member)),
      (demo_pg_env (\<lambda>_ _. None), Request demo_session 5 (SuspendMember (UserId 1)))]"

definition demo_pg_gateway_env :: "(pg_state, mem_counter, mem_audit_store) gateway_env" where
  "demo_pg_gateway_env = \<lparr>ge_ed = ed_demo, ge_sha = id, ge_envelope = demo_policy_codec, ge_event = demo_event_codec,
     ge_idp = mock_identity_provider demo_user ''code'', ge_store = pg_store_ops (demo_pg_env (\<lambda>_ _. None)), ge_next = mc_next,
     ge_audit_store = mem_audit_ops\<rparr>"

theorem pg_no_privilege_escalation_witness:
  "find_member (gw_store (foldl (pg_apply demo_pg_gateway_env) demo_pg_gateway demo_pg_events)) (WorkspaceId 1) (UserId 1) = Some demo_owner"
proof -
  have m: "find_member (gw_store demo_pg_gateway) (WorkspaceId 1) (UserId 1) = Some demo_owner"
    "find_member (gw_store demo_pg_gateway) (WorkspaceId 1) (UserId 2) = Some demo_admin"
    "find_invitation (gw_store demo_pg_gateway) w e = None" for w e
    by (simp_all add: find_member_def find_invitation_def demo_pg_gateway_def gateway_new_def demo_pg_def demo_owner_def
        demo_admin_def role_from_def status_from_def)
  have "case find_member (gw_store demo_pg_gateway) (WorkspaceId 1) (UserId 1) of
      Some m \<Rightarrow> if me_role m > Admin
        then find_member (gw_store (foldl (pg_apply demo_pg_gateway_env) demo_pg_gateway demo_pg_events)) (WorkspaceId 1) (UserId 1) = Some m
        else (\<forall>m'. find_member (gw_store (foldl (pg_apply demo_pg_gateway_env) demo_pg_gateway demo_pg_events)) (WorkspaceId 1) (UserId 1) = Some m'
                \<longrightarrow> me_role m' \<le> Admin)
    | None \<Rightarrow> \<forall>m'. find_member (gw_store (foldl (pg_apply demo_pg_gateway_env) demo_pg_gateway demo_pg_events)) (WorkspaceId 1) (UserId 1) = Some m'
                \<longrightarrow> me_role m' \<le> Admin"
  proof (rule pg_no_privilege_escalation[OF _ _ refl])
    fix x u m' assume "x \<in> set demo_pg_events" "acts_in (WorkspaceId 1) (snd x) = Some u"
      "find_member (gw_store demo_pg_gateway) (WorkspaceId 1) u = Some m'"
    then show "me_role m' \<le> Admin"
      using m(2) by (auto simp: demo_pg_events_def demo_session_def demo_admin_def split: if_splits)
  qed (simp add: m(3))
  moreover have "Admin < me_role demo_owner" by (simp add: demo_owner_def less_role_def)
  ultimately show ?thesis using m(1) by simp
qed

section \<open>The audit store\<close>

definition pg_up :: "pg_env \<Rightarrow> bool" where
  "pg_up v = (\<forall>n sql. pe_fail v n sql = None)"

lemma pg_execute_up:
  "pg_up v \<Longrightarrow> pg_execute v s sql stmt =
     (case stmt (s\<lparr>pg_clock := Suc (pg_clock s)\<rparr>) of
        Inl c \<Rightarrow> (s\<lparr>pg_clock := Suc (pg_clock s)\<rparr>, Inl (GStore (pe_violation v c)))
      | Inr (s', x) \<Rightarrow> (s', Inr x))"
  by (simp add: pg_execute_def pg_up_def Let_def)

text \<open>A row is kept unless there is one for its device and sequence number.\<close>

definition keep_first :: "event_row list \<Rightarrow> event_row \<Rightarrow> event_row list" where
  "keep_first rows r =
     (if list_ex (\<lambda>x. evr_device_id x = evr_device_id r \<and> evr_seq x = evr_seq r) rows then rows else rows @ [r])"

definition chain_moved :: "device_id \<Rightarrow> u64 \<Rightarrow> chain_hash \<Rightarrow> chain_row list \<Rightarrow> chain_row list" where
  "chain_moved d next_seq head =
     map (\<lambda>r. if cr_device_id r = device_num d then r\<lparr>cr_next_seq := next_seq, cr_head := head\<rparr> else r)"

text \<open>The tables when a batch has been appended.\<close>

definition appended :: "pg_env \<Rightarrow> pg_state \<Rightarrow> device_id \<Rightarrow> spool_entry list \<Rightarrow> u64 \<Rightarrow> chain_hash \<Rightarrow> pg_state" where
  "appended v s d entries next_seq head =
     s\<lparr>pg_audit_chain := chain_moved d next_seq head (pg_audit_chain s),
       pg_audit_event := foldl keep_first (pg_audit_event s) (map (event_row_of v d) entries)\<rparr>"

lemma insert_event_ok:
  assumes "insert_event v d s e = (s', Inr x)"
  shows "s' = s\<lparr>pg_audit_event := keep_first (pg_audit_event s) (event_row_of v d e), pg_clock := Suc (pg_clock s)\<rparr>"
  using assms unfolding insert_event_def
proof (cases rule: pg_execute_cases)
  case (2 y)
  then show ?thesis by (auto simp: keep_first_def event_row_of_def split: if_splits)
qed simp

lemma insert_events_ok:
  assumes "insert_events v d s es = (s', Inr x)"
  shows "\<exists>n. s' = s\<lparr>pg_audit_event := foldl keep_first (pg_audit_event s) (map (event_row_of v d) es), pg_clock := n\<rparr>"
  using assms
proof (induction es arbitrary: s)
  case Nil
  then show ?case by (auto intro: exI[of _ "pg_clock s"])
next
  case (Cons e es)
  obtain s1 r where s1: "insert_event v d s e = (s1, r)" by fastforce
  then obtain y where r: "r = Inr y" using Cons.prems by (cases r) auto
  then obtain n where "s' = s1\<lparr>pg_audit_event := foldl keep_first (pg_audit_event s1) (map (event_row_of v d) es), pg_clock := n\<rparr>"
    using Cons s1 by auto
  then show ?case using insert_event_ok[OF s1[unfolded r]] by (auto intro: exI[of _ n])
qed

text \<open>The outcomes of a transaction: nothing, or all of it, then with an error only from the commit.\<close>

definition commit_lost :: "pg_env \<Rightarrow> (gateway_error + unit) \<Rightarrow> bool" where
  "commit_lost v r = (\<exists>c e. pe_fail v c ''COMMIT'' = Some (e, True) \<and> r = Inl (GStore e))"

lemma pg_transaction_cases:
  assumes "pg_transaction v s body = (s', r)"
  shows "\<exists>n. (s' = s\<lparr>pg_clock := n\<rparr> \<and> isl r) \<or>
    (\<exists>s1. body (s\<lparr>pg_clock := Suc (pg_clock s)\<rparr>) = (s1, Inr ()) \<and> s' = s1\<lparr>pg_clock := n\<rparr> \<and> (r = Inr () \<or> commit_lost v r))"
proof -
  obtain s0 r0 where b: "pg_execute v s ''BEGIN'' (\<lambda>s. Inr (s, ())) = (s0, r0)" by fastforce
  then have s0: "s0 = s\<lparr>pg_clock := Suc (pg_clock s)\<rparr>" by (cases rule: pg_execute_cases) auto
  show ?thesis
  proof (cases r0)
    case (Inl e)
    then show ?thesis using assms b s0 by (auto simp: pg_transaction_def)
  next
    case (Inr u)
    obtain s1 r1 where t: "body s0 = (s1, r1)" by fastforce
    show ?thesis
      using assms b Inr t s0
      by (cases r1; cases "pe_fail v (pg_clock s1) ''COMMIT''")
        (force simp: pg_transaction_def commit_lost_def split: if_splits)+
  qed
qed

lemma pga_append_cases:
  assumes "pga_append v s d entries next_seq head = (s', r)"
  shows "\<exists>n. (s' = s\<lparr>pg_clock := n\<rparr> \<and> isl r) \<or>
    (s' = (appended v s d entries next_seq head)\<lparr>pg_clock := n\<rparr> \<and> (r = Inr () \<or> commit_lost v r))"
proof -
  let ?upd = "\<lambda>s. Inr (s\<lparr>pg_audit_chain := map (\<lambda>r. if cr_device_id r = device_num d
      then r\<lparr>cr_next_seq := next_seq, cr_head := head\<rparr> else r) (pg_audit_chain s)\<rparr>, ())"
  have body: "\<exists>n. s1 = (appended v s0 d entries next_seq head)\<lparr>pg_clock := n\<rparr>"
    if t: "gbind (pg_execute v s0 ''UPDATE audit_chain'' ?upd) (\<lambda>s _. insert_events v d s entries) = (s1, Inr y)" for s0 s1 y
  proof -
    obtain s2 r2 where u: "pg_execute v s0 ''UPDATE audit_chain'' ?upd = (s2, r2)" by fastforce
    then obtain z where r2: "r2 = Inr z" using t by (cases r2) auto
    have "s2 = s0\<lparr>pg_clock := Suc (pg_clock s0), pg_audit_chain := chain_moved d next_seq head (pg_audit_chain s0)\<rparr>"
      using u r2 by (cases rule: pg_execute_cases) (auto simp: chain_moved_def)
    moreover have "insert_events v d s2 entries = (s1, Inr y)" using t u r2 by simp
    ultimately show ?thesis using insert_events_ok[of v d s2 entries s1 y] by (auto simp: appended_def)
  qed
  obtain n where "(s' = s\<lparr>pg_clock := n\<rparr> \<and> isl r) \<or>
    (\<exists>s1. gbind (pg_execute v (s\<lparr>pg_clock := Suc (pg_clock s)\<rparr>) ''UPDATE audit_chain'' ?upd) (\<lambda>s _. insert_events v d s entries)
        = (s1, Inr ()) \<and> s' = s1\<lparr>pg_clock := n\<rparr> \<and> (r = Inr () \<or> commit_lost v r))"
    using pg_transaction_cases[OF assms[unfolded pga_append_def]] by blast
  then show ?thesis using body by (fastforce simp: appended_def)
qed

text \<open>The row of a device for a sequence number.\<close>

definition row_of :: "event_row list \<Rightarrow> u128 \<Rightarrow> u64 \<Rightarrow> event_row option" where
  "row_of rows i q = List.find (\<lambda>r. evr_device_id r = i \<and> evr_seq r = q) rows"

lemma row_of_keep_first:
  "row_of (keep_first rows x) i q =
     (case row_of rows i q of Some r \<Rightarrow> Some r | None \<Rightarrow> if evr_device_id x = i \<and> evr_seq x = q then Some x else None)"
proof (cases "row_of rows i q")
  case None
  then have n: "\<not> list_ex (\<lambda>r. evr_device_id r = i \<and> evr_seq r = q) rows"
    by (simp add: row_of_def find_None_iff list_ex_iff)
  have "List.find P (xs @ [x]) = (case List.find P xs of Some r \<Rightarrow> Some r | None \<Rightarrow> if P x then Some x else None)" for P xs
    by (induction xs) auto
  then show ?thesis using None n by (auto simp: keep_first_def row_of_def)
next
  case (Some r)
  have "List.find P (xs @ [x]) = (case List.find P xs of Some r \<Rightarrow> Some r | None \<Rightarrow> if P x then Some x else None)" for P xs
    by (induction xs) auto
  then show ?thesis using Some by (simp add: keep_first_def row_of_def)
qed

lemma row_of_keep_firsts:
  "row_of (foldl keep_first rows (map (event_row_of v d) es)) i q =
     (case row_of rows i q of
        Some r \<Rightarrow> Some r
      | None \<Rightarrow> if i = device_num d then map_option (event_row_of v d) (List.find (\<lambda>e. se_seq e = q) es) else None)"
  by (induction es arbitrary: rows) (auto simp: row_of_keep_first event_row_of_def split: option.splits)

lemma keep_firsts_prefix: "\<exists>new. foldl keep_first rows xs = rows @ new"
proof (induction xs arbitrary: rows)
  case (Cons x xs)
  obtain new where "foldl keep_first (keep_first rows x) xs = keep_first rows x @ new" using Cons by blast
  moreover have "\<exists>y. keep_first rows x = rows @ y" by (simp add: keep_first_def)
  ultimately show ?case by auto
qed simp

text \<open>
  (C15) Appending to the audit store is all or nothing, and what \<open>all\<close> is. Whichever statement of the
  transaction fails, the beginning and the commit included, one of two things has happened. Either the
  tables are exactly as before and the caller has an error. Or the chain row of the device, if there is
  one, has moved to the new number and head; the rows of events are the old ones, unchanged and first,
  with a row for the first event of the batch under each number the device had no row for, and for no
  other: an event under a number already used is dropped without an error. The caller is then told of
  success, unless the commit failed after it had taken effect.
\<close>

theorem pg_append_atomic:
  assumes "pga_append v s d entries next_seq head = (s', r)"
  shows "\<exists>n. (s' = s\<lparr>pg_clock := n\<rparr> \<and> isl r) \<or>
    (\<exists>new. s' = s\<lparr>pg_clock := n,
         pg_audit_chain := map (\<lambda>c. if cr_device_id c = device_num d then c\<lparr>cr_next_seq := next_seq, cr_head := head\<rparr> else c) (pg_audit_chain s),
         pg_audit_event := pg_audit_event s @ new\<rparr> \<and>
       (\<forall>i q. row_of (pg_audit_event s') i q =
         (case row_of (pg_audit_event s) i q of
            Some x \<Rightarrow> Some x
          | None \<Rightarrow> if i = device_num d then map_option (event_row_of v d) (List.find (\<lambda>e. se_seq e = q) entries) else None)) \<and>
       (r = Inr () \<or> commit_lost v r))"
proof -
  obtain n where n: "(s' = s\<lparr>pg_clock := n\<rparr> \<and> isl r) \<or>
    (s' = (appended v s d entries next_seq head)\<lparr>pg_clock := n\<rparr> \<and> (r = Inr () \<or> commit_lost v r))"
    using pga_append_cases[OF assms] by blast
  obtain new where "foldl keep_first (pg_audit_event s) (map (event_row_of v d) entries) = pg_audit_event s @ new"
    using keep_firsts_prefix by blast
  then show ?thesis using n row_of_keep_firsts[of "pg_audit_event s" v d entries]
    by (intro exI[of _ n]) (auto simp: appended_def chain_moved_def intro!: exI[of _ new])
qed

section \<open>The audit store against the one in memory\<close>

datatype audit_op =
    ARegister device_id bytes
  | AAppend device_id "spool_entry list" u64 chain_hash
  | AAlert audit_alert

fun audit_step :: "'a audit_store_ops \<Rightarrow> 'a \<Rightarrow> audit_op \<Rightarrow> 'a" where
  "audit_step ao a (ARegister d k) = fst (ao_register ao a d k)"
| "audit_step ao a (AAppend d es n h) = fst (ao_append ao a d es n h)"
| "audit_step ao a (AAlert x) = fst (ao_record_alert ao a x)"

text \<open>What the gateway does: it registers a recorded device under its own key, and chain heads are hashes.\<close>

fun audit_op_ok :: "pg_state \<Rightarrow> audit_op \<Rightarrow> bool" where
  "audit_op_ok s (ARegister d k) = (length k = 32 \<and> list_ex (\<lambda>r. vr_id r = device_num d \<and> vr_device_pubkey r = k) (pg_device s))"
| "audit_op_ok s (AAppend d es n h) = (length h = HASH_LEN \<and> has_device s (device_num d))"
| "audit_op_ok s (AAlert a) = has_device s (device_num (aa_device a))"

definition mem_row :: "pg_env \<Rightarrow> device_id \<times> u64 \<times> audit_event \<Rightarrow> event_row" where
  "mem_row v x = (case x of (d, q, ev) \<Rightarrow>
     \<lparr>evr_device_id = device_num d, evr_seq = q, evr_ts = ae_ts ev, evr_texts = pe_debug v ev,
      evr_app_id = map_option app_id_str (ae_app_id ev)\<rparr>)"

definition mem_alert :: "audit_alert \<Rightarrow> alert_row" where
  "mem_alert a = \<lparr>lr_device_id = device_num (aa_device a), lr_kind = aa_kind a, lr_detail = aa_detail a\<rparr>"

definition loaded_chain :: "chain_row \<Rightarrow> device_row \<Rightarrow> persisted_chain" where
  "loaded_chain c d = \<lparr>pc_device = DeviceId (cr_device_id c), pc_public_key = pad32 (vr_device_pubkey d),
     pc_next_seq = cr_next_seq c, pc_head = chain_hash_from (cr_head c)\<rparr>"

definition chain_rows :: "chain_row list \<Rightarrow> device_id \<Rightarrow> chain_row set" where
  "chain_rows rows d = {c \<in> set rows. cr_device_id c = device_num d}"

definition device_rows :: "pg_state \<Rightarrow> device_id \<Rightarrow> device_row set" where
  "device_rows s d = {r \<in> set (pg_device s). vr_id r = device_num d}"

definition audit_rel :: "pg_env \<Rightarrow> pg_state \<Rightarrow> mem_audit_store \<Rightarrow> bool" where
  "audit_rel v s m \<longleftrightarrow>
     distinct (map cr_device_id (pg_audit_chain s)) \<and>
     (\<forall>d p. hm_get (ma_chains m) d = Some p \<longleftrightarrow>
        (\<exists>c \<in> chain_rows (pg_audit_chain s) d. \<exists>r \<in> device_rows s d. p = loaded_chain c r)) \<and>
     pg_audit_event s = foldl keep_first [] (map (mem_row v) (ma_events m)) \<and>
     pg_audit_alert s = map mem_alert (ma_alerts m)"

abbreviation registered :: "device_id \<Rightarrow> chain_row list \<Rightarrow> chain_row list" where
  "registered d \<equiv> upsert_row (\<lambda>r. cr_device_id r = device_num d) (\<lambda>r. r\<lparr>cr_next_seq := 1, cr_head := GENESIS\<rparr>)
     \<lparr>cr_device_id = device_num d, cr_next_seq = 1, cr_head = GENESIS\<rparr>"

lemma chain_row_reset: "c\<lparr>cr_next_seq := n, cr_head := h\<rparr> = \<lparr>cr_device_id = cr_device_id c, cr_next_seq = n, cr_head = h\<rparr>"
  by (cases c) simp

lemma chain_rows_registered:
  "chain_rows (registered d rows) d' =
     (if d' = d then {\<lparr>cr_device_id = device_num d, cr_next_seq = 1, cr_head = GENESIS\<rparr>} else chain_rows rows d')"
  by (cases d; cases d') (auto simp: chain_rows_def upsert_row_def list_ex_iff chain_row_reset image_iff split: if_splits)

lemma chain_rows_moved:
  "chain_rows (chain_moved d n h rows) d' =
     (if d' = d then (\<lambda>c. c\<lparr>cr_next_seq := n, cr_head := h\<rparr>) ` chain_rows rows d else chain_rows rows d')"
  by (cases d; cases d') (auto simp: chain_rows_def chain_moved_def image_iff split: if_splits)

lemma distinct_registered:
  "distinct (map cr_device_id rows) \<Longrightarrow> distinct (map cr_device_id (registered d rows))"
proof -
  have "map cr_device_id (map (\<lambda>x. if cr_device_id x = device_num d then x\<lparr>cr_next_seq := 1, cr_head := GENESIS\<rparr> else x) rows) = map cr_device_id rows"
    by simp
  then show "distinct (map cr_device_id rows) \<Longrightarrow> ?thesis"
    unfolding upsert_row_def by (auto simp: list_ex_iff simp del: map_map)
qed

lemma distinct_moved [simp]: "map cr_device_id (chain_moved d n h rows) = map cr_device_id rows"
  by (simp add: chain_moved_def)

lemma chain_hash_from_32 [simp]: "length h = HASH_LEN \<Longrightarrow> chain_hash_from h = h"
  by (simp add: chain_hash_from_def GENESIS_def)

lemma pad32_32 [simp]: "length k = 32 \<Longrightarrow> pad32 k = k"
  by (simp add: pad32_def)

lemma pga_register_up:
  "pg_up v \<Longrightarrow> has_device s (device_num d) \<Longrightarrow> pga_register v s d k =
     (s\<lparr>pg_clock := Suc (pg_clock s), pg_audit_chain := registered d (pg_audit_chain s)\<rparr>, Inr ())"
  by (simp add: pga_register_def pg_execute_up has_device_def)

lemma insert_events_up:
  "pg_up v \<Longrightarrow> has_device s (device_num d) \<Longrightarrow> snd (insert_events v d s es) = Inr ()"
proof (induction es arbitrary: s)
  case (Cons e es)
  obtain s1 where s1: "insert_event v d s e = (s1, Inr ())"
    using Cons.prems
    by (cases "list_ex (\<lambda>r. evr_device_id r = device_num d \<and> evr_seq r = se_seq e) (pg_audit_event s)")
      (simp_all add: insert_event_def pg_execute_up has_device_def)
  then show ?case using Cons insert_event_ok[OF s1] by (simp add: has_device_def)
qed simp

lemma pga_append_up:
  assumes "pg_up v" "has_device s (device_num d)"
  shows "\<exists>n. pga_append v s d es q h = ((appended v s d es q h)\<lparr>pg_clock := n\<rparr>, Inr ())"
proof -
  obtain s' r where a: "pga_append v s d es q h = (s', r)" by fastforce
  let ?s = "s\<lparr>pg_clock := Suc (Suc (pg_clock s)), pg_audit_chain := chain_moved d q h (pg_audit_chain s)\<rparr>"
  have "snd (insert_events v d ?s es) = Inr ()" using assms by (intro insert_events_up) (simp_all add: has_device_def)
  then have "r = Inr ()"
    using a assms(1) unfolding pga_append_def pg_transaction_def
    by (auto simp: pg_execute_up chain_moved_def pg_up_def split: prod.splits)
  then show ?thesis using pga_append_cases[OF a] a by auto
qed

lemma device_rows_registered:
  assumes "distinct (map vr_id (pg_device s))" "audit_op_ok s (ARegister d k)"
  shows "\<exists>r. device_rows s d = {r} \<and> vr_device_pubkey r = k" "has_device s (device_num d)"
proof -
  obtain r where r: "r \<in> set (pg_device s)" "vr_id r = device_num d" "vr_device_pubkey r = k"
    using assms(2) by (auto simp: list_ex_iff)
  then have "device_rows s d = {r}" using assms(1) by (force simp: device_rows_def distinct_map inj_on_def)
  then show "\<exists>r. device_rows s d = {r} \<and> vr_device_pubkey r = k" using r(3) by blast
  show "has_device s (device_num d)" using r by (auto simp: has_device_def list_ex_iff)
qed

lemma event_row_of_mem: "event_row_of v d = (\<lambda>e. mem_row v (d, se_seq e, se_event e))"
  by (simp add: event_row_of_def mem_row_def fun_eq_iff)

lemma audit_rel_register:
  assumes "audit_rel v s m" "distinct (map vr_id (pg_device s))" "audit_op_ok s (ARegister d k)"
  shows "audit_rel v (s\<lparr>pg_clock := n, pg_audit_chain := registered d (pg_audit_chain s)\<rparr>) (fst (ma_register m d k))"
proof -
  obtain r where r: "device_rows s d = {r}" "vr_device_pubkey r = k" using device_rows_registered[OF assms(2,3)] by blast
  have k: "length k = 32" using assms(3) by simp
  have "loaded_chain \<lparr>cr_device_id = device_num d, cr_next_seq = 1, cr_head = GENESIS\<rparr> r =
      \<lparr>pc_device = d, pc_public_key = k, pc_next_seq = 1, pc_head = GENESIS\<rparr>"
    using r(2) k by (simp add: loaded_chain_def GENESIS_def)
  then show ?thesis
    using assms(1) r(1) distinct_registered
    by (auto simp: audit_rel_def ma_register_def chain_rows_registered device_rows_def[of "s\<lparr>pg_clock := n, pg_audit_chain := registered d (pg_audit_chain s)\<rparr>"]
        device_rows_def[of s, symmetric])
qed

lemma audit_rel_append:
  assumes "audit_rel v s m" "length h = HASH_LEN"
  shows "audit_rel v ((appended v s d es q h)\<lparr>pg_clock := n\<rparr>) (fst (ma_append m d es q h))"
proof -
  have l: "loaded_chain (c\<lparr>cr_next_seq := q, cr_head := h\<rparr>) r = (loaded_chain c r)\<lparr>pc_next_seq := q, pc_head := h\<rparr>" for c r
    using assms(2) by (simp add: loaded_chain_def)
  have c: "hm_get (ma_chains (fst (ma_append m d es q h))) d' =
      (if d' = d then map_option (\<lambda>p. p\<lparr>pc_next_seq := q, pc_head := h\<rparr>) (hm_get (ma_chains m) d) else hm_get (ma_chains m) d')" for d'
    by (auto simp: ma_append_def Let_def split: option.splits)
  have "hm_get (ma_chains (fst (ma_append m d es q h))) d' = Some p \<longleftrightarrow>
      (\<exists>c \<in> chain_rows (chain_moved d q h (pg_audit_chain s)) d'. \<exists>r \<in> device_rows s d'. p = loaded_chain c r)" for d' p
    using assms(1) unfolding c chain_rows_moved audit_rel_def by (auto simp: l)
  moreover have "ma_events (fst (ma_append m d es q h)) = ma_events m @ map (\<lambda>e. (d, se_seq e, se_event e)) es"
    "ma_alerts (fst (ma_append m d es q h)) = ma_alerts m"
    by (auto simp: ma_append_def Let_def split: option.splits)
  moreover have "device_rows ((appended v s d es q h)\<lparr>pg_clock := n\<rparr>) = device_rows s"
    by (simp add: device_rows_def appended_def fun_eq_iff)
  ultimately show ?thesis
    using assms(1) by (simp add: audit_rel_def appended_def event_row_of_mem comp_def)
qed

lemma audit_step_ok:
  assumes "pg_up v" "audit_rel v s m" "distinct (map vr_id (pg_device s))" "audit_op_ok s op"
  shows "audit_rel v (audit_step (pg_audit_ops v) s op) (audit_step mem_audit_ops m op) \<and>
    pg_device (audit_step (pg_audit_ops v) s op) = pg_device s"
proof (cases op)
  case (ARegister d k)
  then show ?thesis
    using audit_rel_register[OF assms(2,3)] device_rows_registered(2)[OF assms(3)] assms(1,4)
    by (simp add: pg_audit_ops_def mem_audit_ops_def pga_register_up)
next
  case (AAppend d es q h)
  obtain n where "pga_append v s d es q h = ((appended v s d es q h)\<lparr>pg_clock := n\<rparr>, Inr ())"
    using pga_append_up[OF assms(1), of s d es q h] assms(4) AAppend by auto
  then show ?thesis using audit_rel_append[OF assms(2)] assms(4) AAppend
    by (simp add: pg_audit_ops_def mem_audit_ops_def appended_def)
next
  case (AAlert a)
  then show ?thesis using assms
    by (simp add: pg_audit_ops_def mem_audit_ops_def pga_record_alert_def pg_execute_up has_device_def ma_record_alert_def
        audit_rel_def device_rows_def mem_alert_def)
qed

lemma audit_op_ok_devices: "pg_device s' = pg_device s \<Longrightarrow> audit_op_ok s' op = audit_op_ok s op"
  by (cases op) (simp_all add: has_device_def)

lemma audit_run_ok:
  assumes "pg_up v"
  shows "audit_rel v s m \<Longrightarrow> distinct (map vr_id (pg_device s)) \<Longrightarrow> list_all (audit_op_ok s) ops \<Longrightarrow>
    audit_rel v (foldl (audit_step (pg_audit_ops v)) s ops) (foldl (audit_step mem_audit_ops) m ops) \<and>
    pg_device (foldl (audit_step (pg_audit_ops v)) s ops) = pg_device s"
proof (induction ops arbitrary: s m)
  case (Cons op ops)
  let ?s = "audit_step (pg_audit_ops v) s op"
  have st: "audit_rel v ?s (audit_step mem_audit_ops m op)" "pg_device ?s = pg_device s"
    using audit_step_ok[OF assms Cons.prems(1,2)] Cons.prems(3) by simp_all
  have "list_all (audit_op_ok ?s) ops" using Cons.prems(3) audit_op_ok_devices[OF st(2)] by (simp add: list_all_iff)
  then show ?case using Cons.IH[OF st(1)] Cons.prems(2) st(2) by simp
qed simp

text \<open>What a restart reads: one chain for each device that has one.\<close>

lemma loaded_chains:
  assumes "pg_up v" "audit_rel v s m"
  shows "\<exists>cs. pga_load_chains v s = Inr cs \<and> (\<forall>c. c \<in> set cs \<longleftrightarrow> hm_get (ma_chains m) (pc_device c) = Some c)"
proof -
  define cs where "cs = map (\<lambda>(c, d). loaded_chain c d) [(c, d). c \<leftarrow> pg_audit_chain s, d \<leftarrow> pg_device s, vr_id d = cr_device_id c]"
  have "pga_load_chains v s = Inr cs"
    using assms(1) by (simp add: pga_load_chains_def pg_query_def pg_up_def cs_def loaded_chain_def)
  moreover have "c \<in> set cs \<longleftrightarrow>
      (\<exists>x \<in> chain_rows (pg_audit_chain s) (pc_device c). \<exists>r \<in> device_rows s (pc_device c). c = loaded_chain x r)" for c
  proof -
    have "c \<in> set cs \<longleftrightarrow> (\<exists>x \<in> set (pg_audit_chain s). \<exists>r \<in> set (pg_device s). vr_id r = cr_device_id x \<and> c = loaded_chain x r)"
      by (auto simp: cs_def)
    moreover have "device_num (pc_device c) = cr_device_id x" if "c = loaded_chain x r" for x r
      using that by (simp add: loaded_chain_def)
    ultimately show ?thesis unfolding chain_rows_def device_rows_def mem_Collect_eq bex_simps Bex_def by metis
  qed
  ultimately show ?thesis using assms(2) unfolding audit_rel_def by auto
qed

text \<open>
  (C16) The audit store over PostgreSQL against the one in memory. Over any sequence of registrations,
  batches and alerts for recorded devices, while the database does not fail, both hold the same chains,
  so a gateway that restarts from either continues the same way, and the same alerts. Of the events the
  database holds only the first for each device and sequence number.
\<close>

theorem pg_audit_refines_mem:
  assumes "pg_up v" "distinct (map vr_id (pg_device s))"
    and "pg_audit_chain s = []" "pg_audit_event s = []" "pg_audit_alert s = []" "list_all (audit_op_ok s) ops"
    and "s' = foldl (audit_step (pg_audit_ops v)) s ops" "m' = foldl (audit_step mem_audit_ops) mem_audit_store_new ops"
  shows "(\<exists>cs. pga_load_chains v s' = Inr cs \<and> (\<forall>c. c \<in> set cs \<longleftrightarrow> hm_get (ma_chains m') (pc_device c) = Some c)) \<and>
    pg_audit_event s' = foldl keep_first [] (map (mem_row v) (ma_events m')) \<and>
    pg_audit_alert s' = map mem_alert (ma_alerts m')"
proof -
  have "audit_rel v s mem_audit_store_new" using assms(3-5) by (simp add: audit_rel_def mem_audit_store_new_def chain_rows_def)
  then have rel: "audit_rel v s' m'" using audit_run_ok[OF assms(1) _ assms(2,6)] assms(7,8) by blast
  show ?thesis using loaded_chains[OF assms(1) rel] rel unfolding audit_rel_def by auto
qed

text \<open>
  A chain that starts again loses its events. When a device that has sent events is enrolled again,
  its chain is registered anew at sequence number 1. As long as its new events carry numbers that were
  used before, appending them succeeds and moves the chain, but none of them gets a row.
\<close>

theorem pg_restarted_chain_loses_events:
  assumes "pg_up v" "has_device s (device_num d)" "list_ex (\<lambda>c. cr_device_id c = device_num d) (pg_audit_chain s)"
    and "\<forall>e \<in> set entries. \<exists>r \<in> set (pg_audit_event s). evr_device_id r = device_num d \<and> evr_seq r = se_seq e"
  shows "\<exists>s1 s2. pga_register v s d k = (s1, Inr ()) \<and> pga_append v s1 d entries q h = (s2, Inr ()) \<and>
    chain_rows (pg_audit_chain s2) d = {\<lparr>cr_device_id = device_num d, cr_next_seq = q, cr_head = h\<rparr>} \<and>
    pg_audit_event s2 = pg_audit_event s"
proof -
  obtain s1 where s1: "pga_register v s d k = (s1, Inr ())" "s1 = s\<lparr>pg_clock := Suc (pg_clock s), pg_audit_chain := registered d (pg_audit_chain s)\<rparr>"
    using pga_register_up[OF assms(1,2)] by blast
  then obtain n where s2: "pga_append v s1 d entries q h = ((appended v s1 d entries q h)\<lparr>pg_clock := n\<rparr>, Inr ())"
    using pga_append_up[OF assms(1), of s1 d entries q h] assms(2) by (auto simp: has_device_def)
  have "foldl keep_first (pg_audit_event s) (map (event_row_of v d) es) = pg_audit_event s" if "set es \<subseteq> set entries" for es
    using that
  proof (induction es)
    case (Cons e es)
    have "keep_first (pg_audit_event s) (event_row_of v d e) = pg_audit_event s"
      using assms(4) Cons.prems by (auto simp: keep_first_def event_row_of_def list_ex_iff)
    then show ?case using Cons by simp
  qed simp
  then have "pg_audit_event ((appended v s1 d entries q h)\<lparr>pg_clock := n\<rparr>) = pg_audit_event s"
    by (simp add: appended_def s1(2))
  moreover have "chain_rows (pg_audit_chain ((appended v s1 d entries q h)\<lparr>pg_clock := n\<rparr>)) d =
      {\<lparr>cr_device_id = device_num d, cr_next_seq = q, cr_head = h\<rparr>}"
    by (simp add: appended_def s1(2) chain_rows_moved chain_rows_registered)
  ultimately show ?thesis using s1(1) s2 by blast
qed

section \<open>Concrete stores\<close>

definition pg_device_1 :: device_row where
  "pg_device_1 = \<lparr>vr_id = 7, vr_workspace_id = 1, vr_enrolled_by = 2, vr_device_pubkey = replicate 32 5, vr_status = ''active'',
     vr_enrolled_at = 0, vr_cert_fingerprint = None\<rparr>"

definition pg_entry :: "u64 \<Rightarrow> spool_entry" where
  "pg_entry q = \<lparr>se_seq = q, se_prev = GENESIS, se_event = demo_event, se_hash = GENESIS\<rparr>"

definition pg_ops_1 :: "audit_op list" where
  "pg_ops_1 = [ARegister (DeviceId 7) (replicate 32 5), AAppend (DeviceId 7) [pg_entry 1] 2 GENESIS]"

theorem pg_audit_refines_mem_witness:
  "pg_audit_event (foldl (audit_step (pg_audit_ops (demo_pg_env (\<lambda>_ _. None)))) (demo_pg\<lparr>pg_device := [pg_device_1]\<rparr>) pg_ops_1) =
     foldl keep_first [] (map (mem_row (demo_pg_env (\<lambda>_ _. None)))
       (ma_events (foldl (audit_step mem_audit_ops) mem_audit_store_new pg_ops_1)))"
proof -
  have "pg_up (demo_pg_env (\<lambda>_ _. None))" by (simp add: pg_up_def demo_pg_env_def)
  from pg_audit_refines_mem[OF this _ _ _ _ _ refl refl, of "demo_pg\<lparr>pg_device := [pg_device_1]\<rparr>" pg_ops_1]
  show ?thesis by (simp add: demo_pg_def pg_device_1_def pg_ops_1_def has_device_def GENESIS_def del: foldl.simps)
qed

text \<open>A batch of two events, the first under a number that was used: only the second gets a row.\<close>

theorem pg_append_atomic_witness:
  "row_of (pg_audit_event (fst (pga_append (demo_pg_env (\<lambda>_ _. None))
     (demo_pg\<lparr>pg_device := [pg_device_1], pg_audit_event := [event_row_of (demo_pg_env (\<lambda>_ _. None)) (DeviceId 7) (pg_entry 1)]\<rparr>)
     (DeviceId 7) [pg_entry 1, pg_entry 2] 3 GENESIS))) 7 2
   = Some (event_row_of (demo_pg_env (\<lambda>_ _. None)) (DeviceId 7) (pg_entry 2))"
proof -
  let ?v = "demo_pg_env (\<lambda>_ _. None)"
  let ?s = "demo_pg\<lparr>pg_device := [pg_device_1], pg_audit_event := [event_row_of ?v (DeviceId 7) (pg_entry 1)]\<rparr>"
  have up: "pg_up ?v" by (simp add: pg_up_def demo_pg_env_def)
  obtain s' where s': "pga_append ?v ?s (DeviceId 7) [pg_entry 1, pg_entry 2] 3 GENESIS = (s', Inr ())"
    using pga_append_up[OF up, of ?s "DeviceId 7"] by (fastforce simp: has_device_def pg_device_1_def)
  have "row_of (pg_audit_event s') 7 2 = (case row_of (pg_audit_event ?s) 7 2 of Some x \<Rightarrow> Some x
      | None \<Rightarrow> if 7 = device_num (DeviceId 7) then map_option (event_row_of ?v (DeviceId 7))
          (List.find (\<lambda>e. se_seq e = 2) [pg_entry 1, pg_entry 2]) else None)"
    using pg_append_atomic[OF s'] by auto
  moreover have "row_of (pg_audit_event ?s) 7 2 = None" by (simp add: row_of_def event_row_of_def pg_entry_def)
  ultimately have "row_of (pg_audit_event s') 7 2 = Some (event_row_of ?v (DeviceId 7) (pg_entry 2))" by (simp add: pg_entry_def)
  then show ?thesis by (simp only: s' fst_conv)
qed

text \<open>Enrolled again after one event: the next one is lost.\<close>

theorem pg_restarted_chain_loses_events_witness:
  "\<exists>s1 s2. pga_register (demo_pg_env (\<lambda>_ _. None))
       (demo_pg\<lparr>pg_device := [pg_device_1], pg_audit_chain := [\<lparr>cr_device_id = 7, cr_next_seq = 2, cr_head = GENESIS\<rparr>],
                pg_audit_event := [event_row_of (demo_pg_env (\<lambda>_ _. None)) (DeviceId 7) (pg_entry 1)]\<rparr>)
       (DeviceId 7) (replicate 32 5) = (s1, Inr ()) \<and>
     pga_append (demo_pg_env (\<lambda>_ _. None)) s1 (DeviceId 7) [pg_entry 1] 2 GENESIS = (s2, Inr ()) \<and>
     length (pg_audit_event s2) = 1"
proof -
  let ?v = "demo_pg_env (\<lambda>_ _. None)"
  let ?s = "demo_pg\<lparr>pg_device := [pg_device_1], pg_audit_chain := [\<lparr>cr_device_id = 7, cr_next_seq = 2, cr_head = GENESIS\<rparr>],
                pg_audit_event := [event_row_of ?v (DeviceId 7) (pg_entry 1)]\<rparr>"
  have "\<exists>s1 s2. pga_register ?v ?s (DeviceId 7) (replicate 32 5) = (s1, Inr ()) \<and>
      pga_append ?v s1 (DeviceId 7) [pg_entry 1] 2 GENESIS = (s2, Inr ()) \<and>
      chain_rows (pg_audit_chain s2) (DeviceId 7) = {\<lparr>cr_device_id = device_num (DeviceId 7), cr_next_seq = 2, cr_head = GENESIS\<rparr>} \<and>
      pg_audit_event s2 = pg_audit_event ?s"
    by (rule pg_restarted_chain_loses_events)
      (simp_all add: pg_up_def demo_pg_env_def has_device_def pg_device_1_def event_row_of_def)
  then show ?thesis by fastforce
qed

end
