(* ===== verification/Gateway_Restart.thy ===== *)
theory Gateway_Restart
  imports Postgres_Props
begin

text \<open>
  Restarting the gateway over the PostgreSQL audit store: while the database does not fail, the stored
  chains follow the ledger, so the ledger restored from them continues every chain where it was.
\<close>

section \<open>What touches the chains\<close>

text \<open>
  The operations of the gateway that change its ledger or its audit store: enrolling a device registers
  its key, and a batch is ingested.
\<close>

datatype chain_event = ChainRegister device_id bytes | ChainBatch device_id signed_spool_batch

fun chain_step :: "('s, 'c, 'a) gateway_env \<Rightarrow> ('s, 'c, 'a) gateway \<Rightarrow> chain_event \<Rightarrow> ('s, 'c, 'a) gateway" where
  "chain_step v g (ChainRegister d k) = register_audit_key v g d k"
| "chain_step v g (ChainBatch d b) = fst (ingest_device_audit v g d b)"

text \<open>A registered device has its row, with its key of 32 bytes; batches come from devices with a row.\<close>

fun chain_event_ok :: "pg_state \<Rightarrow> chain_event \<Rightarrow> bool" where
  "chain_event_ok s (ChainRegister d k) = audit_op_ok s (ARegister d k)"
| "chain_event_ok s (ChainBatch d b) = has_device s (device_num d)"

section \<open>The stored chains follow the ledger\<close>

definition heads_ok :: "audit_ledger \<Rightarrow> bool" where
  "heads_ok l = (\<forall>d c. hm_get (al_chains l) d = Some c \<longrightarrow> length (dc_head c) = HASH_LEN)"

text \<open>The tables stand for an in-memory store whose chains are those of the ledger.\<close>

definition pg_persisted :: "pg_env \<Rightarrow> device_row list \<Rightarrow> ('s, 'c, pg_state) gateway \<Rightarrow> bool" where
  "pg_persisted pv devs g \<longleftrightarrow>
     heads_ok (gw_audit g) \<and>
     (\<exists>s m. gw_audit_store g = Some s \<and> pg_device s = devs \<and> audit_rel pv s m \<and>
        (\<forall>d. hm_get (ma_chains m) d = map_option (persisted_of d) (hm_get (al_chains (gw_audit g)) d)))"

lemma chain_head_length:
  "chain_ok sha pc prev n es head \<Longrightarrow> (\<forall>x. length (sha x) = HASH_LEN) \<Longrightarrow> length prev = HASH_LEN \<Longrightarrow> length head = HASH_LEN"
  by (induction es arbitrary: prev n) auto

lemma heads_ok_ingest:
  assumes "\<forall>x. length (sha x) = HASH_LEN" "heads_ok l" "ingest sha ed pc l d b = (l', r)"
  shows "heads_ok l'"
proof (cases r)
  case (Inl e)
  then show ?thesis using ingest_chains[OF assms(3)] assms(2) by (simp add: heads_ok_def)
next
  case (Inr evs)
  then obtain c where c: "hm_get (al_chains l) d = Some c"
    "verify_batch sha ed pc (dc_head c) (dc_next_seq c) b (dc_public_key c) = Inr (sb_head b)"
    using assms(3) by (auto simp: ingest_def Let_def verify_batch_iff split: option.splits sum.splits)
  then have "length (sb_head b) = HASH_LEN"
    using chain_head_length[OF _ assms(1)] assms(2) by (auto simp: verify_batch_iff heads_ok_def)
  then show ?thesis using ingest_chains[OF assms(3)] assms(2) Inr by (auto simp: heads_ok_def)
qed

lemma chain_step_persisted:
  assumes pv: "pg_up pv" "ge_audit_store v = pg_audit_ops pv" "distinct (map vr_id devs)" "\<forall>x. length (ge_sha v x) = HASH_LEN"
    and g: "pg_persisted pv devs g" and ok: "chain_event_ok (s0\<lparr>pg_device := devs\<rparr>) ev"
  shows "pg_persisted pv devs (chain_step v g ev)"
proof -
  obtain s m where s: "gw_audit_store g = Some s" "pg_device s = devs" "audit_rel pv s m"
    "\<And>d. hm_get (ma_chains m) d = map_option (persisted_of d) (hm_get (al_chains (gw_audit g)) d)"
    using g by (auto simp: pg_persisted_def)
  have step: "audit_rel pv (audit_step (pg_audit_ops pv) s op) (audit_step mem_audit_ops m op)"
    "pg_device (audit_step (pg_audit_ops pv) s op) = devs" if "audit_op_ok s op" for op
    using audit_step_ok[OF pv(1) s(3) _ that] pv(3) s(2) by auto
  show ?thesis
  proof (cases ev)
    case (ChainRegister d k)
    then have "audit_op_ok s (ARegister d k)" using ok s(2) by simp
    note st = step[OF this]
    show ?thesis unfolding pg_persisted_def
    proof (intro conjI exI)
      show "heads_ok (gw_audit (chain_step v g ev))"
        using g ChainRegister by (auto simp: pg_persisted_def heads_ok_def register_audit_key_def register_device_def GENESIS_def)
      show "gw_audit_store (chain_step v g ev) = Some (audit_step (pg_audit_ops pv) s (ARegister d k))"
        using ChainRegister s(1) pv(2) by (simp add: register_audit_key_def)
      show "\<forall>x. hm_get (ma_chains (audit_step mem_audit_ops m (ARegister d k))) x =
          map_option (persisted_of x) (hm_get (al_chains (gw_audit (chain_step v g ev))) x)"
        using ChainRegister s(4)
        by (simp add: mem_audit_ops_def ma_register_def register_audit_key_def register_device_def persisted_of_def)
    qed (use st in simp_all)
  next
    case (ChainBatch d b)
    have dev: "has_device s (device_num d)" using ok ChainBatch s(2) by (simp add: has_device_def)
    obtain l r where i: "ingest (ge_sha v) (ge_ed v) (ge_event v) (gw_audit g) d b = (l, r)" by fastforce
    have h: "heads_ok l" using heads_ok_ingest[OF pv(4) _ i] g by (simp add: pg_persisted_def)
    have au: "gw_audit (chain_step v g ev) = l" using ChainBatch i ingest_device_result(2)[of v g d b] by simp
    show ?thesis
    proof (cases r)
      case (Inr evs)
      then obtain c where c: "hm_get (al_chains (gw_audit g)) d = Some c"
        using i by (auto simp: ingest_def split: option.splits)
      define c' where "c' = c\<lparr>dc_next_seq := dc_next_seq c + of_nat (length (sb_entries b)), dc_head := sb_head b\<rparr>"
      have l: "hm_get (al_chains l) x = (if x = d then Some c' else hm_get (al_chains (gw_audit g)) x)" for x
        using ingest_chains[OF i] Inr c by (simp add: c'_def)
      let ?op = "AAppend d (sb_entries b) (dc_next_seq c') (dc_head c')"
      have "length (dc_head c') = HASH_LEN" using h l[of d] unfolding heads_ok_def by simp
      note st = step[of ?op, simplified audit_op_ok.simps, OF conjI, OF this dev]
      show ?thesis unfolding pg_persisted_def au
      proof (intro conjI exI)
        show "gw_audit_store (chain_step v g ev) = Some (audit_step (pg_audit_ops pv) s ?op)"
          using ChainBatch s(1) pv(2) i Inr l
          by (simp add: ingest_device_audit_def Let_def ledger_high_water_def head_for_def)
        show "\<forall>x. hm_get (ma_chains (audit_step mem_audit_ops m ?op)) x = map_option (persisted_of x) (hm_get (al_chains l) x)"
          using s(4) c by (simp add: mem_audit_ops_def ma_append_def l persisted_of_def Let_def) (simp add: c'_def)
      qed (use st h in simp_all)
    next
      case (Inl e)
      have l: "hm_get (al_chains l) x = hm_get (al_chains (gw_audit g)) x" for x using ingest_chains[OF i] Inl by simp
      show ?thesis
      proof (cases "List.find (\<lambda>a. aa_device a = d) (rev (al_alerts l))")
        case None
        then have "gw_audit_store (chain_step v g ev) = Some s"
          using ChainBatch s(1) i Inl by (simp add: ingest_device_audit_def Let_def)
        then show ?thesis unfolding pg_persisted_def au using s h l by auto
      next
        case (Some a)
        then have "aa_device a = d" by (metis (mono_tags, lifting) find_Some_iff)
        then have "audit_op_ok s (AAlert a)" using dev by simp
        note st = step[OF this]
        show ?thesis unfolding pg_persisted_def au
        proof (intro conjI exI)
          show "gw_audit_store (chain_step v g ev) = Some (audit_step (pg_audit_ops pv) s (AAlert a))"
            using ChainBatch s(1) pv(2) i Inl Some by (simp add: ingest_device_audit_def Let_def)
          show "\<forall>x. hm_get (ma_chains (audit_step mem_audit_ops m (AAlert a))) x = map_option (persisted_of x) (hm_get (al_chains l) x)"
            using s(4) l by (simp add: mem_audit_ops_def ma_record_alert_def)
        qed (use st h in simp_all)
      qed
    qed
  qed
qed

lemma chain_run_persisted:
  assumes "pg_up pv" "ge_audit_store v = pg_audit_ops pv" "distinct (map vr_id devs)" "\<forall>x. length (ge_sha v x) = HASH_LEN"
  shows "pg_persisted pv devs g \<Longrightarrow> list_all (chain_event_ok (s0\<lparr>pg_device := devs\<rparr>)) evs \<Longrightarrow>
    pg_persisted pv devs (foldl (chain_step v) g evs)"
proof (induction evs arbitrary: g)
  case (Cons ev evs)
  then show ?case using chain_step_persisted[OF assms Cons.prems(1), of s0 ev] by simp
qed simp

section \<open>Restoring\<close>

text \<open>The rows may come in any order, as long as a device has one chain.\<close>

lemma restore_chains_rows:
  assumes "\<forall>c \<in> set cs. f (pc_device c) = Some c"
  shows "hm_get (al_chains (restore_chains l cs)) d =
    (if d \<in> pc_device ` set cs
     then map_option (\<lambda>c. \<lparr>dc_public_key = pc_public_key c, dc_next_seq = pc_next_seq c, dc_head = pc_head c\<rparr>) (f d)
     else hm_get (al_chains l) d)"
  using assms
proof (induction cs arbitrary: l)
  case (Cons c cs)
  have "restore_chains l (c # cs) = restore_chains (restore_device l (pc_device c) (pc_public_key c) (pc_next_seq c) (pc_head c)) cs"
    by (simp add: restore_chains_def)
  then show ?case using Cons.IH Cons.prems by (auto simp: restore_device_def)
qed (simp add: restore_chains_def)

lemma pg_hydrate_same_chains:
  assumes "pg_up pv" "ge_audit_store v = pg_audit_ops pv" "pg_persisted pv devs g"
  shows "\<exists>h n. hydrate_audit v (g\<lparr>gw_audit := ledger_new\<rparr>) = (h, Inr n) \<and> same_chains (gw_audit h) (gw_audit g)"
proof -
  obtain s m where s: "gw_audit_store g = Some s" "audit_rel pv s m"
    "\<And>d. hm_get (ma_chains m) d = map_option (persisted_of d) (hm_get (al_chains (gw_audit g)) d)"
    using assms(3) by (auto simp: pg_persisted_def)
  obtain cs where cs: "pga_load_chains pv s = Inr cs" "\<And>c. c \<in> set cs \<longleftrightarrow> hm_get (ma_chains m) (pc_device c) = Some c"
    using loaded_chains[OF assms(1) s(2)] by blast
  have get: "hm_get (al_chains (restore_chains ledger_new cs)) d = hm_get (al_chains (gw_audit g)) d" for d
  proof (cases "hm_get (al_chains (gw_audit g)) d")
    case (Some c)
    then have p: "hm_get (ma_chains m) d = Some (persisted_of d c)" using s(3) by simp
    then have "persisted_of d c \<in> set cs" using cs(2) by (simp add: persisted_of_def)
    then have "d \<in> pc_device ` set cs" by (force simp: persisted_of_def)
    then show ?thesis
      using restore_chains_rows[of cs "hm_get (ma_chains m)" ledger_new d] cs(2) p Some by (simp add: persisted_of_def)
  next
    case None
    then have "d \<notin> pc_device ` set cs" using cs(2) s(3) by (metis image_iff map_option_is_None option.distinct(1))
    then show ?thesis
      using restore_chains_rows[of cs "hm_get (ma_chains m)" ledger_new d] cs(2) None by (simp add: ledger_new_def)
  qed
  then show ?thesis by (simp add: hydrate_audit_def assms(2) s(1) pg_audit_ops_def cs(1) same_chains_def)
qed

text \<open>
  (C35) A restart over PostgreSQL loses no chain, while the database does not fail. A gateway starts on empty audit
  tables beside the rows of its devices; it registers keys of recorded devices and is sent any batches, good or bad, for
  recorded devices, in any order. It stops, losing the ledger, and starts again: it loads the chains from the
  tables, and from then on answers every sequence of batches of every device exactly as if it had not
  stopped. What is lost is the view: the restarted ledger lists no events. (The gateway ignores an error
  of the audit store, so a statement that fails can leave the stored chain behind; nothing is claimed
  then.)
\<close>

theorem restart_continues_chains:
  fixes v :: "('s, 'c, pg_state) gateway_env"
  assumes "ge_audit_store v = pg_audit_ops pv" "pg_up pv" "\<forall>x. length (ge_sha v x) = HASH_LEN"
    and "distinct (map vr_id (pg_device s))" "pg_audit_chain s = []" "pg_audit_event s = []" "pg_audit_alert s = []"
    and "list_all (chain_event_ok s) evs"
    and "g = foldl (chain_step v) (with_audit_store (gateway_new st) s) evs"
  shows "\<exists>h n. hydrate_audit v (g\<lparr>gw_audit := ledger_new\<rparr>) = (h, Inr n) \<and>
    (\<forall>d bs. snd (serve_device_audit v h d bs) = snd (serve_device_audit v g d bs)) \<and>
    (\<forall>d b. snd (ingest_device_audit v h d b) = snd (ingest_device_audit v g d b)) \<and>
    (\<forall>d. events_for (gw_audit h) d = [])"
proof -
  have "audit_rel pv s mem_audit_store_new" using assms(5-7) by (simp add: audit_rel_def mem_audit_store_new_def chain_rows_def)
  then have "pg_persisted pv (pg_device s) (with_audit_store (gateway_new st) s)"
    by (auto simp: pg_persisted_def with_audit_store_def gateway_new_def ledger_new_def heads_ok_def mem_audit_store_new_def)
  then have "pg_persisted pv (pg_device s) g"
    unfolding assms(9) using chain_run_persisted[OF assms(2,1,4,3), of "with_audit_store (gateway_new st) s" s evs] assms(8) by simp
  then obtain h n where h: "hydrate_audit v (g\<lparr>gw_audit := ledger_new\<rparr>) = (h, Inr n)" "same_chains (gw_audit h) (gw_audit g)"
    using pg_hydrate_same_chains[OF assms(2,1)] by blast
  have "al_verified (restore_chains l cs) = al_verified l" for l cs
    by (induction cs arbitrary: l) (simp_all add: restore_chains_def restore_device_def)
  then have "events_for (gw_audit h) d = []" for d
    using h(1) by (auto simp: hydrate_audit_def events_for_def ledger_new_def split: option.splits sum.splits)
  moreover have "snd (ingest_device_audit v h d b) = snd (ingest_device_audit v g d b)" for d b
    unfolding ingest_device_result using ingest_same_chains[OF h(2) prod.collapse[symmetric] prod.collapse[symmetric]] by blast
  ultimately show ?thesis using h serve_same_chains[OF h(2)] by blast
qed

section \<open>A concrete restart\<close>

text \<open>A device enrolls and sends a first batch; the gateway restarts and is sent the batch again.\<close>

definition restart_env :: "(mem_store, mem_counter, pg_state) gateway_env" where
  "restart_env = \<lparr>ge_ed = ed_demo, ge_sha = (\<lambda>x. replicate HASH_LEN 7), ge_envelope = ge_envelope demo_env,
     ge_event = demo_event_codec, ge_idp = ge_idp demo_env, ge_store = mem_store_ops, ge_next = ge_next demo_env,
     ge_audit_store = pg_audit_ops (demo_pg_env (\<lambda>_ _. None))\<rparr>"

definition restart_events :: "chain_event list" where
  "restart_events = [ChainRegister (DeviceId 7) (replicate 32 5), ChainBatch (DeviceId 7) demo_batch]"

definition restart_gateway :: "(mem_store, mem_counter, pg_state) gateway" where
  "restart_gateway = foldl (chain_step restart_env)
     (with_audit_store (gateway_new demo_directory) (demo_pg\<lparr>pg_device := [pg_device_1]\<rparr>)) restart_events"

theorem restart_continues_chains_witness:
  "\<exists>h n. hydrate_audit restart_env (restart_gateway\<lparr>gw_audit := ledger_new\<rparr>) = (h, Inr n) \<and>
     snd (ingest_device_audit restart_env h (DeviceId 7) demo_batch) =
     snd (ingest_device_audit restart_env restart_gateway (DeviceId 7) demo_batch)"
proof -
  have "ge_audit_store restart_env = pg_audit_ops (demo_pg_env (\<lambda>_ _. None))" "\<forall>x. length (ge_sha restart_env x) = HASH_LEN"
    by (simp_all add: restart_env_def)
  moreover have "pg_up (demo_pg_env (\<lambda>_ _. None))" by (simp add: pg_up_def demo_pg_env_def)
  moreover have "list_all (chain_event_ok (demo_pg\<lparr>pg_device := [pg_device_1]\<rparr>)) restart_events"
    by (simp add: restart_events_def pg_device_1_def has_device_def)
  ultimately show ?thesis
    using restart_continues_chains[of restart_env "demo_pg_env (\<lambda>_ _. None)" "demo_pg\<lparr>pg_device := [pg_device_1]\<rparr>"
        restart_events restart_gateway demo_directory] restart_gateway_def
    by (fastforce simp: demo_pg_def)
qed

end
