(* ===== verification/Clave_Disk.thy ===== *)
theory Clave_Disk
  imports Volume Rust_Hex
begin

text \<open>
  The Clave Disk on Windows (\<open>clave-win/src/mount.rs\<close>): the in-memory file system handed to WinFsp,
  whose files are held as XTS ciphertext. Names are lists of Unicode scalar values; the UTF-8 length of
  a name matters where the code slices by bytes. The sector cipher, the upper-case mapping of a
  character (the Unicode tables) and the flag test and directory buffer of the \<open>winfsp\<close> crate are
  arguments. Each callback holds the lock of the table for the whole call and is one function of the
  table; a panic, which ends the process, is the outcome \<open>Panicked\<close>.
\<close>

section \<open>Names\<close>

type_synonym ustring = "u32 list"
type_synonym ntstatus = u32

definition SEP :: u32 where "SEP = 0x5C"

record fs_env =
  fv_xts :: xts
  fv_upper :: "u32 \<Rightarrow> ustring"
  fv_cleanup_delete :: "u32 \<Rightarrow> bool"

definition to_uppercase :: "fs_env \<Rightarrow> ustring \<Rightarrow> ustring" where
  "to_uppercase v s = concat (map (fv_upper v) s)"

definition FILE_ATTRIBUTE_DIRECTORY :: u32 where "FILE_ATTRIBUTE_DIRECTORY = 0x10"
definition FILE_ATTRIBUTE_ARCHIVE :: u32 where "FILE_ATTRIBUTE_ARCHIVE = 0x20"
definition FILE_ATTRIBUTE_NORMAL :: u32 where "FILE_ATTRIBUTE_NORMAL = 0x80"
definition INVALID_FILE_ATTRIBUTES :: u32 where "INVALID_FILE_ATTRIBUTES = 0xFFFFFFFF"
definition FILE_DIRECTORY_FILE :: u32 where "FILE_DIRECTORY_FILE = 1"

definition STATUS_OBJECT_NAME_NOT_FOUND :: ntstatus where "STATUS_OBJECT_NAME_NOT_FOUND = 0xC0000034"
definition STATUS_OBJECT_NAME_COLLISION :: ntstatus where "STATUS_OBJECT_NAME_COLLISION = 0xC0000035"
definition STATUS_OBJECT_PATH_NOT_FOUND :: ntstatus where "STATUS_OBJECT_PATH_NOT_FOUND = 0xC000003A"
definition STATUS_OBJECT_NAME_INVALID :: ntstatus where "STATUS_OBJECT_NAME_INVALID = 0xC0000033"
definition STATUS_NOT_A_DIRECTORY :: ntstatus where "STATUS_NOT_A_DIRECTORY = 0xC0000103"
definition STATUS_DIRECTORY_NOT_EMPTY :: ntstatus where "STATUS_DIRECTORY_NOT_EMPTY = 0xC0000101"
definition STATUS_END_OF_FILE :: ntstatus where "STATUS_END_OF_FILE = 0xC0000011"
definition STATUS_DISK_FULL :: ntstatus where "STATUS_DISK_FULL = 0xC000007F"

definition round_up :: "nat \<Rightarrow> nat \<Rightarrow> nat" where
  "round_up n unit = (n + unit - 1) div unit * unit"

fun pop_seps :: "ustring \<Rightarrow> ustring" where
  "pop_seps p = (if length p > 1 \<and> last p = SEP then pop_seps (butlast p) else p)"

declare pop_seps.simps [simp del]

definition canon :: "fs_env \<Rightarrow> ustring \<Rightarrow> ustring" where
  "canon v path = to_uppercase v (pop_seps (if path = [] then [SEP] else path))"

definition rfind_sep :: "ustring \<Rightarrow> nat option" where
  "rfind_sep p =
     (let tail = takeWhile (\<lambda>c. c \<noteq> SEP) (rev p)
      in if length tail = length p then None else Some (length p - length tail - 1))"

definition parent_canon :: "ustring \<Rightarrow> ustring option" where
  "parent_canon canon_path =
     (if canon_path = [SEP] then None
      else case rfind_sep canon_path of
             None \<Rightarrow> None
           | Some i \<Rightarrow> if i = 0 then Some [SEP] else Some (take i canon_path))"

definition basename :: "ustring \<Rightarrow> ustring" where
  "basename path = (case rfind_sep path of None \<Rightarrow> path | Some i \<Rightarrow> drop (i + 1) path)"

text \<open>UTF-8 lengths, the byte slice \<open>&s[n..]\<close> (\<open>None\<close> where it panics) and UTF-16.\<close>

definition utf8_len :: "u32 \<Rightarrow> nat" where
  "utf8_len c = (if c < 0x80 then 1 else if c < 0x800 then 2 else if c < 0x10000 then 3 else 4)"

definition str_len :: "ustring \<Rightarrow> nat" where
  "str_len s = sum_list (map utf8_len s)"

fun drop_bytes :: "nat \<Rightarrow> ustring \<Rightarrow> ustring option" where
  "drop_bytes n [] = (if n = 0 then Some [] else None)"
| "drop_bytes n (c # s) =
     (if n = 0 then Some (c # s) else if utf8_len c \<le> n then drop_bytes (n - utf8_len c) s else None)"

definition encode_utf16 :: "ustring \<Rightarrow> u16 list" where
  "encode_utf16 s = concat (map (\<lambda>c.
     if c < 0x10000 then [ucast c]
     else [0xD800 + ucast (drop_bit 10 (c - 0x10000)), 0xDC00 + ucast ((c - 0x10000) AND 0x3FF)]) s)"

section \<open>Nodes and the table\<close>

record file_info =
  fi_file_attributes :: u32
  fi_reparse_tag :: u32
  fi_allocation_size :: u64
  fi_file_size :: u64
  fi_creation_time :: u64
  fi_last_access_time :: u64
  fi_last_write_time :: u64
  fi_change_time :: u64
  fi_index_number :: u64
  fi_hard_links :: u32
  fi_ea_size :: u32

record node =
  nd_name :: ustring
  nd_is_dir :: bool
  nd_attributes :: u32
  nd_creation_time :: u64
  nd_last_access_time :: u64
  nd_last_write_time :: u64
  nd_change_time :: u64
  nd_index_number :: u64
  nd_data :: bytes
  nd_size :: u64

definition node_file_info :: "node \<Rightarrow> file_info" where
  "node_file_info n =
     \<lparr>fi_file_attributes = nd_attributes n, fi_reparse_tag = 0,
      fi_allocation_size = of_nat (round_up (unat (nd_size n)) SECTOR_SIZE), fi_file_size = nd_size n,
      fi_creation_time = nd_creation_time n, fi_last_access_time = nd_last_access_time n,
      fi_last_write_time = nd_last_write_time n, fi_change_time = nd_change_time n,
      fi_index_number = nd_index_number n, fi_hard_links = 0, fi_ea_size = 0\<rparr>"

record fs_state =
  fs_nodes :: "(u64, node) hmap"
  fs_by_path :: "(ustring, u64) hmap"
  fs_next_id :: u64
  fs_next_index :: u64
  fs_label :: "u16 list"

definition id_of :: "fs_state \<Rightarrow> ustring \<Rightarrow> u64 option" where
  "id_of st canon_path = hm_get (fs_by_path st) canon_path"

text \<open>\<open>State::get\<close> and \<open>get_mut\<close> panic on a dead handle.\<close>

definition with_node :: "fs_state \<Rightarrow> u64 \<Rightarrow> (node \<Rightarrow> 'a outcome) \<Rightarrow> 'a outcome" where
  "with_node st i f = (case hm_get (fs_nodes st) i of None \<Rightarrow> Panicked | Some n \<Rightarrow> f n)"

definition put_node :: "fs_state \<Rightarrow> u64 \<Rightarrow> node \<Rightarrow> fs_state" where
  "put_node st i n = st\<lparr>fs_nodes := hm_insert (fs_nodes st) i n\<rparr>"

definition is_child :: "fs_env \<Rightarrow> ustring \<Rightarrow> node \<Rightarrow> bool" where
  "is_child v dir_canon n =
     (let c = canon v (nd_name n) in c \<noteq> dir_canon \<and> parent_canon c = Some dir_canon)"

definition has_children :: "fs_env \<Rightarrow> fs_state \<Rightarrow> ustring \<Rightarrow> bool" where
  "has_children v st dir_canon = list_ex (is_child v dir_canon) (hm_values (fs_nodes st))"

record clave_disk =
  cd_state :: fs_state
  cd_cipher :: xts_cipher
  cd_capacity :: u64
  cd_max_file_size :: u64

definition node_new :: "ustring \<Rightarrow> bool \<Rightarrow> u32 \<Rightarrow> u64 \<Rightarrow> u64 \<Rightarrow> node" where
  "node_new name is_dir attributes index now =
     \<lparr>nd_name = name, nd_is_dir = is_dir, nd_attributes = attributes, nd_creation_time = now,
      nd_last_access_time = now, nd_last_write_time = now, nd_change_time = now, nd_index_number = index,
      nd_data = [], nd_size = 0\<rparr>"

definition disk_new :: "dek \<Rightarrow> u64 \<Rightarrow> u64 \<Rightarrow> clave_disk" where
  "disk_new d capacity now =
     \<lparr>cd_state =
        \<lparr>fs_nodes = hm_insert [] 1 (node_new [SEP] True FILE_ATTRIBUTE_DIRECTORY 1 now),
         fs_by_path = hm_insert [] [SEP] 1, fs_next_id = 2, fs_next_index = 2,
         fs_label = [0x43, 0x6C, 0x61, 0x76, 0x65, 0x44, 0x69, 0x73, 0x6B]\<rparr>,
      cd_cipher = xts_new d, cd_capacity = capacity, cd_max_file_size = capacity\<rparr>"

definition disk_decrypt :: "fs_env \<Rightarrow> clave_disk \<Rightarrow> node \<Rightarrow> bytes" where
  "disk_decrypt v d n =
     take (unat (nd_size n))
       (if nd_data n \<noteq> [] then xts_decrypt (fv_xts v) (cd_cipher d) (nd_data n) 0 else nd_data n)"

text \<open>\<open>Vec::resize\<close> with zeros.\<close>

definition resize :: "bytes \<Rightarrow> nat \<Rightarrow> bytes" where
  "resize b n = take n b @ replicate (n - length b) 0"

definition disk_store :: "fs_env \<Rightarrow> clave_disk \<Rightarrow> node \<Rightarrow> bytes \<Rightarrow> u64 \<Rightarrow> node" where
  "disk_store v d n plain now =
     (let ct = resize plain (round_up (length plain) SECTOR_SIZE);
          ct = (if ct \<noteq> [] then xts_encrypt (fv_xts v) (cd_cipher d) ct 0 else ct)
      in n\<lparr>nd_data := ct, nd_size := of_nat (length plain), nd_last_write_time := now, nd_change_time := now\<rparr>)"

section \<open>Callbacks: lookup, creation and deletion\<close>

type_synonym 'a fs_result = "(clave_disk \<times> (ntstatus + 'a)) outcome"

record file_security =
  fs_reparse :: bool
  fs_sz_security_descriptor :: u64
  fs_attributes :: u32

definition get_security_by_name :: "fs_env \<Rightarrow> clave_disk \<Rightarrow> ustring \<Rightarrow> file_security fs_result" where
  "get_security_by_name v d file_name =
     (case id_of (cd_state d) (canon v file_name) of
        None \<Rightarrow> Returned (d, Inl STATUS_OBJECT_NAME_NOT_FOUND)
      | Some i \<Rightarrow> with_node (cd_state d) i (\<lambda>n.
          Returned (d, Inr \<lparr>fs_reparse = False, fs_sz_security_descriptor = 0, fs_attributes = nd_attributes n\<rparr>)))"

definition disk_open :: "fs_env \<Rightarrow> clave_disk \<Rightarrow> ustring \<Rightarrow> (u64 \<times> file_info) fs_result" where
  "disk_open v d file_name =
     (case id_of (cd_state d) (canon v file_name) of
        None \<Rightarrow> Returned (d, Inl STATUS_OBJECT_NAME_NOT_FOUND)
      | Some i \<Rightarrow> with_node (cd_state d) i (\<lambda>n. Returned (d, Inr (i, node_file_info n))))"

definition create_attributes :: "bool \<Rightarrow> u32 \<Rightarrow> u32" where
  "create_attributes is_dir file_attributes =
     (if is_dir then file_attributes OR FILE_ATTRIBUTE_DIRECTORY
      else let a = (file_attributes OR FILE_ATTRIBUTE_ARCHIVE) AND NOT FILE_ATTRIBUTE_DIRECTORY
           in if a = FILE_ATTRIBUTE_ARCHIVE then a OR FILE_ATTRIBUTE_NORMAL else a)"

definition disk_create ::
  "fs_env \<Rightarrow> clave_disk \<Rightarrow> ustring \<Rightarrow> u32 \<Rightarrow> u32 \<Rightarrow> u64 \<Rightarrow> (u64 \<times> file_info) fs_result" where
  "disk_create v d file_name create_options file_attributes now =
     (let st = cd_state d; key = canon v file_name
      in if id_of st key \<noteq> None then Returned (d, Inl STATUS_OBJECT_NAME_COLLISION)
         else case parent_canon key of
                None \<Rightarrow> Returned (d, Inl STATUS_OBJECT_NAME_INVALID)
              | Some parent \<Rightarrow>
                  (case id_of st parent of
                     None \<Rightarrow> Returned (d, Inl STATUS_OBJECT_PATH_NOT_FOUND)
                   | Some pid \<Rightarrow> with_node st pid (\<lambda>pn.
                       if \<not> nd_is_dir pn then Returned (d, Inl STATUS_NOT_A_DIRECTORY)
                       else let is_dir = (create_options AND FILE_DIRECTORY_FILE \<noteq> 0);
                                i = fs_next_id st;
                                n = node_new file_name is_dir (create_attributes is_dir file_attributes)
                                      (fs_next_index st) now;
                                st = st\<lparr>fs_next_id := i + 1, fs_next_index := fs_next_index st + 1,
                                        fs_nodes := hm_insert (fs_nodes st) i n,
                                        fs_by_path := hm_insert (fs_by_path st) key i\<rparr>
                            in Returned (d\<lparr>cd_state := st\<rparr>, Inr (i, node_file_info n)))))"

definition disk_close :: "clave_disk \<Rightarrow> u64 \<Rightarrow> clave_disk" where
  "disk_close d context = d"

definition disk_cleanup :: "fs_env \<Rightarrow> clave_disk \<Rightarrow> u64 \<Rightarrow> u32 \<Rightarrow> clave_disk" where
  "disk_cleanup v d context flags =
     (let st = cd_state d
      in if \<not> fv_cleanup_delete v flags then d
         else case hm_get (fs_nodes st) context of
                None \<Rightarrow> d
              | Some n \<Rightarrow>
                  (let key = canon v (nd_name n)
                   in if nd_is_dir n \<and> has_children v st key then d
                      else d\<lparr>cd_state := st\<lparr>fs_by_path := hm_remove (fs_by_path st) key,
                                           fs_nodes := hm_remove (fs_nodes st) context\<rparr>\<rparr>))"

definition set_delete :: "fs_env \<Rightarrow> clave_disk \<Rightarrow> u64 \<Rightarrow> bool \<Rightarrow> unit fs_result" where
  "set_delete v d context delete_file =
     (if \<not> delete_file then Returned (d, Inr ())
      else with_node (cd_state d) context (\<lambda>n.
        if nd_is_dir n \<and> has_children v (cd_state d) (canon v (nd_name n))
        then Returned (d, Inl STATUS_DIRECTORY_NOT_EMPTY)
        else Returned (d, Inr ())))"

section \<open>Callbacks: contents and attributes\<close>

text \<open>The result of a read is the buffer with its first bytes replaced, and their number.\<close>

definition disk_read :: "fs_env \<Rightarrow> clave_disk \<Rightarrow> u64 \<Rightarrow> bytes \<Rightarrow> u64 \<Rightarrow> (bytes \<times> u32) fs_result" where
  "disk_read v d context buffer offset =
     with_node (cd_state d) context (\<lambda>n.
       if offset \<ge> nd_size n then Returned (d, Inl STATUS_END_OF_FILE)
       else let plain = disk_decrypt v d n;
                e = min (offset + of_nat (length buffer)) (nd_size n);
                len = unat (e - offset)
            in if len \<le> length buffer \<and> unat offset + len \<le> length plain
               then Returned (d, Inr (take len (drop (unat offset) plain) @ drop len buffer, of_nat len))
               else Panicked)"

definition splice :: "bytes \<Rightarrow> nat \<Rightarrow> bytes \<Rightarrow> bytes" where
  "splice b start w = take start b @ w @ drop (start + length w) b"

definition disk_write ::
  "fs_env \<Rightarrow> clave_disk \<Rightarrow> u64 \<Rightarrow> bytes \<Rightarrow> u64 \<Rightarrow> bool \<Rightarrow> bool \<Rightarrow> u64 \<Rightarrow> (u32 \<times> file_info) fs_result" where
  "disk_write v d context buffer offset write_to_eof constrained_io now =
     with_node (cd_state d) context (\<lambda>n.
       let plain = disk_decrypt v d n; size = of_nat (length plain);
           start = (if write_to_eof then size else offset);
           finish = (\<lambda>plain written.
             let n = disk_store v d n plain now
             in Returned (d\<lparr>cd_state := put_node (cd_state d) context n\<rparr>, Inr (of_nat written, node_file_info n)))
       in if constrained_io
          then if start \<ge> size then Returned (d, Inr (0, node_file_info n))
               else let e = min (start + of_nat (length buffer)) size; len = unat (e - start)
                    in if len \<le> length buffer \<and> unat start + len \<le> length plain
                       then finish (splice plain (unat start) (take len buffer)) len
                       else Panicked
          else let e = start + of_nat (length buffer)
               in if e > cd_max_file_size d then Returned (d, Inl STATUS_DISK_FULL)
                  else let plain = (if unat e > length plain then resize plain (unat e) else plain)
                       in if start \<le> e \<and> unat e \<le> length plain
                          then finish (splice plain (unat start) buffer) (length buffer)
                          else Panicked)"

definition disk_flush :: "clave_disk \<Rightarrow> u64 option \<Rightarrow> file_info option fs_result" where
  "disk_flush d context =
     (case context of
        None \<Rightarrow> Returned (d, Inr None)
      | Some i \<Rightarrow> with_node (cd_state d) i (\<lambda>n. Returned (d, Inr (Some (node_file_info n)))))"

definition get_file_info :: "clave_disk \<Rightarrow> u64 \<Rightarrow> file_info fs_result" where
  "get_file_info d context = with_node (cd_state d) context (\<lambda>n. Returned (d, Inr (node_file_info n)))"

definition get_security :: "clave_disk \<Rightarrow> u64 \<Rightarrow> u64 fs_result" where
  "get_security d context = Returned (d, Inr 0)"

definition set_basic_info ::
  "clave_disk \<Rightarrow> u64 \<Rightarrow> u32 \<Rightarrow> u64 \<Rightarrow> u64 \<Rightarrow> u64 \<Rightarrow> u64 \<Rightarrow> file_info fs_result" where
  "set_basic_info d context file_attributes creation_time last_access_time last_write_time last_change_time =
     with_node (cd_state d) context (\<lambda>n.
       let n = (if file_attributes \<noteq> INVALID_FILE_ATTRIBUTES \<and> file_attributes \<noteq> 0
                then n\<lparr>nd_attributes := file_attributes\<rparr> else n);
           n = (if creation_time \<noteq> 0 then n\<lparr>nd_creation_time := creation_time\<rparr> else n);
           n = (if last_access_time \<noteq> 0 then n\<lparr>nd_last_access_time := last_access_time\<rparr> else n);
           n = (if last_write_time \<noteq> 0 then n\<lparr>nd_last_write_time := last_write_time\<rparr> else n);
           n = (if last_change_time \<noteq> 0 then n\<lparr>nd_change_time := last_change_time\<rparr> else n)
       in Returned (d\<lparr>cd_state := put_node (cd_state d) context n\<rparr>, Inr (node_file_info n)))"

definition set_file_size :: "fs_env \<Rightarrow> clave_disk \<Rightarrow> u64 \<Rightarrow> u64 \<Rightarrow> bool \<Rightarrow> u64 \<Rightarrow> file_info fs_result" where
  "set_file_size v d context new_size set_allocation_size now =
     (if new_size > cd_max_file_size d then Returned (d, Inl STATUS_DISK_FULL)
      else with_node (cd_state d) context (\<lambda>n.
        let current = nd_size n;
            n' = (if set_allocation_size
                  then if new_size < current
                       then disk_store v d n (take (unat new_size) (disk_decrypt v d n)) now else n
                  else if new_size \<noteq> current
                  then disk_store v d n (resize (disk_decrypt v d n) (unat new_size)) now else n)
        in Returned (d\<lparr>cd_state := put_node (cd_state d) context n'\<rparr>, Inr (node_file_info n'))))"

definition disk_overwrite :: "clave_disk \<Rightarrow> u64 \<Rightarrow> u32 \<Rightarrow> bool \<Rightarrow> u64 \<Rightarrow> file_info fs_result" where
  "disk_overwrite d context file_attributes replace_file_attributes now =
     with_node (cd_state d) context (\<lambda>n.
       let attrs = (if replace_file_attributes then file_attributes OR FILE_ATTRIBUTE_ARCHIVE
                    else nd_attributes n OR (file_attributes OR FILE_ATTRIBUTE_ARCHIVE));
           n = n\<lparr>nd_data := [], nd_size := 0, nd_attributes := attrs,
                 nd_last_write_time := now, nd_change_time := now\<rparr>
       in Returned (d\<lparr>cd_state := put_node (cd_state d) context n\<rparr>, Inr (node_file_info n)))"

section \<open>Callbacks: renaming, listing and the volume\<close>

fun move_all :: "fs_env \<Rightarrow> ustring \<Rightarrow> nat \<Rightarrow> (u64 \<times> ustring) list \<Rightarrow> fs_state \<Rightarrow> fs_state outcome" where
  "move_all v new_original old_len [] st = Returned st"
| "move_all v new_original old_len ((nid, original) # rest) st =
     (case drop_bytes old_len original of
        None \<Rightarrow> Panicked
      | Some sfx \<Rightarrow>
          (let moved = new_original @ sfx;
               by = hm_insert (hm_remove (fs_by_path st) (canon v original)) (canon v moved) nid
           in with_node st nid (\<lambda>n.
                move_all v new_original old_len rest
                  (put_node (st\<lparr>fs_by_path := by\<rparr>) nid (n\<lparr>nd_name := moved\<rparr>)))))"

definition affected_by :: "fs_env \<Rightarrow> fs_state \<Rightarrow> ustring \<Rightarrow> (u64 \<times> ustring) list" where
  "affected_by v st old_key =
     map (\<lambda>(nid, n). (nid, nd_name n))
       (filter (\<lambda>(_, n). let c = canon v (nd_name n) in c = old_key \<or> prefix (old_key @ [SEP]) c) (fs_nodes st))"

definition disk_rename :: "fs_env \<Rightarrow> clave_disk \<Rightarrow> u64 \<Rightarrow> ustring \<Rightarrow> bool \<Rightarrow> unit fs_result" where
  "disk_rename v d context new_original replace_if_exists =
     (let st = cd_state d; new_key = canon v new_original; other = id_of st new_key;
          taken = (other \<noteq> None \<and> other \<noteq> Some context)
      in if taken \<and> \<not> replace_if_exists then Returned (d, Inl STATUS_OBJECT_NAME_COLLISION)
         else let st = (if taken
                        then st\<lparr>fs_by_path := hm_remove (fs_by_path st) new_key,
                                fs_nodes := hm_remove (fs_nodes st) (the other)\<rparr> else st)
              in with_node st context (\<lambda>n.
                   let old_original = nd_name n; old_key = canon v old_original
                   in case move_all v new_original (str_len old_original) (affected_by v st old_key) st of
                        Panicked \<Rightarrow> Panicked
                      | Returned st \<Rightarrow> Returned (d\<lparr>cd_state := st\<rparr>, Inr ())))"

text \<open>
  The directory buffer of \<open>winfsp\<close>: setting the name of an entry may fail, appending it may find the
  buffer full (\<open>None\<close>).
\<close>

record 'b dir_ops =
  di_set_name :: "u16 list \<Rightarrow> ntstatus option"
  di_append :: "'b \<Rightarrow> u16 list \<Rightarrow> file_info \<Rightarrow> 'b option"
  di_finalize :: "'b \<Rightarrow> 'b"

fun pack_entries :: "'b dir_ops \<Rightarrow> (u16 list \<times> file_info) list \<Rightarrow> 'b \<Rightarrow> ntstatus + 'b" where
  "pack_entries dops [] buffer = Inr (di_finalize dops buffer)"
| "pack_entries dops ((name, info) # rest) buffer =
     (case di_set_name dops name of
        Some e \<Rightarrow> Inl e
      | None \<Rightarrow>
          (case di_append dops buffer name info of
             None \<Rightarrow> Inr buffer
           | Some buffer \<Rightarrow> pack_entries dops rest buffer))"

definition dir_kids :: "fs_env \<Rightarrow> fs_state \<Rightarrow> ustring \<Rightarrow> (ustring \<times> u64) list" where
  "dir_kids v st dir_key =
     sort_key (\<lambda>k. to_uppercase v (fst k))
       (map (\<lambda>(nid, n). (basename (nd_name n), nid)) (filter (\<lambda>(_, n). is_child v dir_key n) (fs_nodes st)))"

definition dir_dots :: "fs_state \<Rightarrow> ustring \<Rightarrow> node \<Rightarrow> (u16 list \<times> file_info) list outcome" where
  "dir_dots st dir_key n =
     (case parent_canon dir_key of
        None \<Rightarrow> Returned []
      | Some parent_key \<Rightarrow>
          (case id_of st parent_key of
             None \<Rightarrow> Returned [([0x2E], node_file_info n)]
           | Some pid \<Rightarrow> with_node st pid (\<lambda>pn.
               Returned [([0x2E], node_file_info n), ([0x2E, 0x2E], node_file_info pn)])))"

definition after_marker :: "u16 list option \<Rightarrow> (u16 list \<times> 'a) list \<Rightarrow> (u16 list \<times> 'a) list" where
  "after_marker marker entries =
     (case marker of
        None \<Rightarrow> entries
      | Some m \<Rightarrow>
          (let before = takeWhile (\<lambda>(n, _). n \<noteq> m) entries
           in if length before = length entries then entries else drop (length before + 1) entries))"

definition read_directory ::
  "fs_env \<Rightarrow> 'b dir_ops \<Rightarrow> clave_disk \<Rightarrow> u64 \<Rightarrow> u16 list option \<Rightarrow> 'b \<Rightarrow> 'b fs_result" where
  "read_directory v dops d context marker buffer =
     (let st = cd_state d
      in with_node st context (\<lambda>n.
           let dir_key = canon v (nd_name n)
           in if \<not> nd_is_dir n then Returned (d, Inl STATUS_NOT_A_DIRECTORY)
              else case dir_dots st dir_key n of
                     Panicked \<Rightarrow> Panicked
                   | Returned dots \<Rightarrow>
                       (let kids = dir_kids v st dir_key
                        in if list_ex (\<lambda>(_, nid). hm_get (fs_nodes st) nid = None) kids then Panicked
                           else let entries = dots @ map (\<lambda>(name, nid).
                                      (encode_utf16 name, node_file_info (the (hm_get (fs_nodes st) nid)))) kids
                                in Returned (d, pack_entries dops (after_marker marker entries) buffer))))"

record volume_info =
  vi_total_size :: u64
  vi_free_size :: u64
  vi_label :: "u16 list"

definition get_volume_info :: "clave_disk \<Rightarrow> volume_info" where
  "get_volume_info d =
     (let used = sum_list (map (\<lambda>n. of_nat (round_up (unat (nd_size n)) SECTOR_SIZE)) (hm_values (fs_nodes (cd_state d))))
      in \<lparr>vi_total_size = cd_capacity d, vi_free_size = saturating_sub (cd_capacity d) used,
          vi_label = fs_label (cd_state d)\<rparr>)"

end
