(* ===== verification/Clave_Disk_Props.thy ===== *)
theory Clave_Disk_Props
  imports Clave_Disk
begin

text \<open>
  What the Clave Disk guarantees: the table of nodes and its index of paths agree and form a tree under
  every sequence of callbacks that keeps to the contract of WinFsp, no such sequence panics, the
  callbacks on contents implement plain files, and a rename moves a whole subtree. Two ways in which a
  rename goes wrong are shown on concrete tables.
\<close>

section \<open>Names\<close>

text \<open>What is used of the Unicode tables: the separator is its own upper case and comes from nothing else.\<close>

definition upper_ok :: "fs_env \<Rightarrow> bool" where
  "upper_ok v = (\<forall>c. if c = SEP then fv_upper v c = [SEP] else fv_upper v c \<noteq> [] \<and> SEP \<notin> set (fv_upper v c))"

definition name_ok :: "ustring \<Rightarrow> bool" where
  "name_ok s = (s \<noteq> [] \<and> (s = [SEP] \<or> last s \<noteq> SEP))"

lemma upper_SEP: "upper_ok v \<Longrightarrow> fv_upper v SEP = [SEP]"
  unfolding upper_ok_def by metis

lemma upper_nonsep: "upper_ok v \<Longrightarrow> c \<noteq> SEP \<Longrightarrow> fv_upper v c \<noteq> [] \<and> SEP \<notin> set (fv_upper v c)"
  unfolding upper_ok_def by metis

lemma to_uppercase_append: "to_uppercase v (a @ b) = to_uppercase v a @ to_uppercase v b"
  by (simp add: to_uppercase_def)

lemma to_uppercase_Nil_iff: "upper_ok v \<Longrightarrow> to_uppercase v s = [] \<longleftrightarrow> s = []"
  using upper_SEP upper_nonsep by (cases s) (force simp: to_uppercase_def)+

lemma to_uppercase_sep: "upper_ok v \<Longrightarrow> to_uppercase v s = SEP # r \<Longrightarrow> \<exists>s'. s = SEP # s' \<and> to_uppercase v s' = r"
proof (cases s)
  case (Cons c s')
  assume u: "upper_ok v" and e: "to_uppercase v s = SEP # r"
  show ?thesis
  proof (cases "c = SEP")
    case True
    then show ?thesis using u e Cons by (simp add: to_uppercase_def upper_SEP)
  next
    case False
    then obtain x xs where x: "fv_upper v c = x # xs" using upper_nonsep[OF u] by (cases "fv_upper v c") blast+
    then have "x = SEP" using e Cons by (simp add: to_uppercase_def)
    then show ?thesis using upper_nonsep[OF u False] x by simp
  qed
qed (simp add: to_uppercase_def)

lemma canon_name_ok: "name_ok s \<Longrightarrow> canon v s = to_uppercase v s"
proof -
  assume "name_ok s"
  then have "\<not> (length s > 1 \<and> last s = SEP)" "s \<noteq> []" by (auto simp: name_ok_def)
  then show ?thesis by (auto simp: canon_def pop_seps.simps[of s])
qed

lemma canon_root: "upper_ok v \<Longrightarrow> canon v [SEP] = [SEP]"
  by (simp add: canon_name_ok name_ok_def to_uppercase_def upper_SEP)

lemma rfind_sep_SomeD:
  assumes "rfind_sep p = Some i"
  shows "p = take i p @ SEP # drop (i + 1) p \<and> SEP \<notin> set (drop (i + 1) p)"
proof -
  define t where "t = takeWhile (\<lambda>c. c \<noteq> SEP) (rev p)"
  have d: "rev p = t @ dropWhile (\<lambda>c. c \<noteq> SEP) (rev p)" by (simp add: t_def)
  have ne: "length t \<noteq> length p" and i: "i = length p - length t - 1"
    using assms by (auto simp: rfind_sep_def Let_def t_def split: if_splits)
  have "dropWhile (\<lambda>c. c \<noteq> SEP) (rev p) \<noteq> []"
    using ne d by (metis append_Nil2 length_rev)
  then obtain r where r: "dropWhile (\<lambda>c. c \<noteq> SEP) (rev p) = SEP # r"
    using hd_dropWhile[of "\<lambda>c. c \<noteq> SEP" "rev p"] by (metis list.collapse)
  then have p: "p = rev r @ SEP # rev t" using d by (metis append.assoc append_Cons append_Nil rev.simps(2) rev_append rev_rev_ident)
  then have "i = length r" using i by simp
  moreover have "SEP \<notin> set t" unfolding t_def by (metis (mono_tags) set_takeWhileD)
  ultimately show ?thesis using p by simp
qed

lemma rfind_sep_append: "SEP \<notin> set b \<Longrightarrow> rfind_sep (a @ SEP # b) = Some (length a)"
proof -
  assume "SEP \<notin> set b"
  then have "takeWhile (\<lambda>c. c \<noteq> SEP) (rev (a @ SEP # b)) = rev b"
    using takeWhile_append2[of "rev b" "\<lambda>c. c \<noteq> SEP" "SEP # rev a"] by auto
  then show ?thesis by (simp add: rfind_sep_def)
qed

lemma parent_canonD:
  "parent_canon c = Some p \<Longrightarrow> \<exists>r. SEP \<notin> set r \<and> (if p = [SEP] then c = SEP # r \<and> r \<noteq> [] \<or> c = p @ SEP # r else c = p @ SEP # r)"
proof -
  assume p: "parent_canon c = Some p"
  then obtain i where i: "rfind_sep c = Some i" "c \<noteq> [SEP]" and pi: "p = (if i = 0 then [SEP] else take i c)"
    by (auto simp: parent_canon_def split: option.splits if_splits)
  note c = rfind_sep_SomeD[OF i(1)]
  show ?thesis
  proof (cases "i = 0")
    case True
    then have "c = SEP # drop 1 c" using c by simp
    moreover from this have "drop 1 c \<noteq> []" using i(2) by (metis)
    ultimately show ?thesis using c True pi by (intro exI[of _ "drop 1 c"]) simp
  next
    case False
    then show ?thesis using c pi by (intro exI[of _ "drop (i + 1) c"]) auto
  qed
qed

lemma parent_canon_append:
  assumes "SEP \<notin> set r" "a \<noteq> []"
  shows "parent_canon (a @ SEP # r) = Some a"
proof -
  have "a @ SEP # r \<noteq> [SEP]" using assms(2) by (cases a) auto
  then show ?thesis using assms by (simp add: parent_canon_def rfind_sep_append)
qed

section \<open>The invariant\<close>

definition index_ok :: "fs_env \<Rightarrow> fs_state \<Rightarrow> bool" where
  "index_ok v st = (\<forall>k i. id_of st k = Some i \<longleftrightarrow> (\<exists>n. hm_get (fs_nodes st) i = Some n \<and> canon v (nd_name n) = k))"

definition dir_at :: "fs_state \<Rightarrow> ustring \<Rightarrow> bool" where
  "dir_at st k = (\<exists>i n. id_of st k = Some i \<and> hm_get (fs_nodes st) i = Some n \<and> nd_is_dir n)"

definition in_tree :: "fs_state \<Rightarrow> ustring \<Rightarrow> bool" where
  "in_tree st k = (k = [SEP] \<or> (\<exists>p. parent_canon k = Some p \<and> dir_at st p))"

text \<open>Ciphertext in whole sectors, and no file above the limit.\<close>

definition node_fits :: "u64 \<Rightarrow> node \<Rightarrow> bool" where
  "node_fits lim n = (length (nd_data n) = round_up (unat (nd_size n)) SECTOR_SIZE \<and> nd_size n \<le> lim)"

definition node_ok :: "fs_env \<Rightarrow> u64 \<Rightarrow> fs_state \<Rightarrow> u64 \<Rightarrow> node \<Rightarrow> bool" where
  "node_ok v lim st i n =
     (i < fs_next_id st \<and> name_ok (nd_name n) \<and> node_fits lim n \<and> in_tree st (canon v (nd_name n)))"

definition disk_ok :: "fs_env \<Rightarrow> clave_disk \<Rightarrow> bool" where
  "disk_ok v d =
     (let st = cd_state d
      in hm_wf (fs_nodes st) \<and> index_ok v st \<and> dir_at st [SEP] \<and>
         (\<forall>i n. hm_get (fs_nodes st) i = Some n \<longrightarrow> node_ok v (cd_max_file_size d) st i n))"

lemma disk_okD:
  assumes "disk_ok v d"
  shows "hm_wf (fs_nodes (cd_state d))" "index_ok v (cd_state d)" "dir_at (cd_state d) [SEP]"
    "hm_get (fs_nodes (cd_state d)) i = Some n \<Longrightarrow> node_ok v (cd_max_file_size d) (cd_state d) i n"
  using assms by (auto simp: disk_ok_def Let_def)

lemma disk_okI:
  assumes "hm_wf (fs_nodes (cd_state d))" "index_ok v (cd_state d)" "dir_at (cd_state d) [SEP]"
    and "\<And>i n. hm_get (fs_nodes (cd_state d)) i = Some n \<Longrightarrow> node_ok v (cd_max_file_size d) (cd_state d) i n"
  shows "disk_ok v d"
  using assms by (auto simp: disk_ok_def Let_def)

lemma index_okD:
  assumes "index_ok v st"
  shows "hm_get (fs_nodes st) i = Some n \<Longrightarrow> id_of st (canon v (nd_name n)) = Some i"
    and "id_of st k = Some i \<Longrightarrow> \<exists>n. hm_get (fs_nodes st) i = Some n \<and> canon v (nd_name n) = k"
  using assms unfolding index_ok_def by blast+

lemma round_up_ge: "n \<le> round_up n SECTOR_SIZE"
proof -
  have "n + 4096 - 1 = (n + 4096 - 1) div 4096 * 4096 + (n + 4096 - 1) mod 4096" by simp
  moreover have "(n + 4096 - 1) mod 4096 < 4096" by simp
  ultimately show ?thesis unfolding round_up_def SECTOR_SIZE_def by linarith
qed

lemma length_resize [simp]: "length (resize b n) = n"
  by (simp add: resize_def)

lemma resize_Nil_iff [simp]: "resize b n = [] \<longleftrightarrow> n = 0"
  by (simp add: length_0_conv[symmetric] del: length_0_conv)

text \<open>What the disk hands to the cipher: whole sectors from sector 0, fewer than 2^64 of them.\<close>

lemma file_area: "length b = round_up n SECTOR_SIZE \<Longrightarrow> n < 2 ^ 64 \<Longrightarrow> xts_area 0 b"
  unfolding xts_area_def round_up_def by (intro exI[of _ "(n + SECTOR_SIZE - 1) div SECTOR_SIZE"]) (simp add: SECTOR_SIZE_def)

lemma xts_decrypt_length: "xts_correct x \<Longrightarrow> xts_area s b \<Longrightarrow> length (xts_decrypt x c b s) = length b"
  by (simp add: xts_correct_def xts_decrypt_def)

lemma xts_encrypt_length: "xts_correct x \<Longrightarrow> xts_area s b \<Longrightarrow> length (xts_encrypt x c b s) = length b"
  by (simp add: xts_correct_def xts_encrypt_def)

lemma xts_decrypt_encrypt: "xts_correct x \<Longrightarrow> xts_area s b \<Longrightarrow> xts_decrypt x c (xts_encrypt x c b s) s = b"
  by (simp add: xts_correct_def xts_encrypt_def xts_decrypt_def)

lemma store_simps [simp]:
  "nd_name (disk_store v d n plain now) = nd_name n" "nd_is_dir (disk_store v d n plain now) = nd_is_dir n"
  "nd_size (disk_store v d n plain now) = of_nat (length plain)"
  by (simp_all add: disk_store_def Let_def)

lemma store_fits:
  assumes "xts_correct (fv_xts v)" "length plain \<le> unat lim"
  shows "node_fits lim (disk_store v d n plain now)"
proof -
  have "length plain < 2 ^ 64" using assms(2) unsigned_less[of lim, where 'a = nat] by simp
  then have "unat (of_nat (length plain) :: u64) = length plain" by (simp add: unat_of_nat)
  moreover have "xts_area 0 (resize plain (round_up (length plain) SECTOR_SIZE))"
    using \<open>length plain < 2 ^ 64\<close> by (intro file_area) simp_all
  ultimately show ?thesis using assms
    by (simp add: node_fits_def disk_store_def Let_def xts_encrypt_length word_le_nat_alt)
qed

lemma decrypt_store:
  assumes "xts_correct (fv_xts v)" "length plain < 2 ^ 64"
  shows "disk_decrypt v d (disk_store v d n plain now) = plain"
proof -
  have l: "unat (of_nat (length plain) :: u64) = length plain" using assms(2) by (simp add: unat_of_nat)
  define ct where "ct = resize plain (round_up (length plain) SECTOR_SIZE)"
  have "take (length plain) ct = plain" using round_up_ge[of "length plain"] by (simp add: ct_def resize_def)
  moreover have area: "xts_area 0 ct" using assms(2) by (intro file_area) (simp_all add: ct_def)
  moreover have "xts_encrypt (fv_xts v) (cd_cipher d) ct 0 \<noteq> []" if "ct \<noteq> []"
    using that xts_encrypt_length[OF assms(1) area, of "cd_cipher d"] by auto
  ultimately show ?thesis using assms(1) l
    by (auto simp: disk_decrypt_def disk_store_def Let_def ct_def[symmetric] xts_decrypt_encrypt)
qed

lemma decrypt_length:
  assumes "xts_correct (fv_xts v)" "node_fits lim n"
  shows "length (disk_decrypt v d n) = unat (nd_size n)"
proof -
  have "unat (nd_size n) < 2 ^ 64" using unsigned_less[of "nd_size n", where 'a = nat] by simp
  then have "xts_area 0 (nd_data n)" using assms(2) by (intro file_area) (simp_all add: node_fits_def)
  then show ?thesis
    using assms round_up_ge[of "unat (nd_size n)"] by (auto simp: disk_decrypt_def node_fits_def xts_decrypt_length)
qed

text \<open>Replacing a node by one of the same name and kind keeps everything.\<close>

lemma disk_ok_put:
  assumes ok: "disk_ok v d" and n: "hm_get (fs_nodes (cd_state d)) i = Some n"
    and n': "nd_name n' = nd_name n" "nd_is_dir n' = nd_is_dir n" "node_fits (cd_max_file_size d) n'"
  shows "disk_ok v (d\<lparr>cd_state := put_node (cd_state d) i n'\<rparr>)"
proof -
  define st where "st = cd_state d"
  define st' where "st' = put_node st i n'"
  have g: "hm_get (fs_nodes st') j = (if j = i then Some n' else hm_get (fs_nodes st) j)" for j
    by (simp add: st'_def put_node_def)
  have id: "id_of st' k = id_of st k" for k by (simp add: st'_def put_node_def id_of_def)
  have nx: "fs_next_id st' = fs_next_id st" by (simp add: st'_def put_node_def)
  note okD = disk_okD[OF ok, folded st_def]
  have dir: "dir_at st' k = dir_at st k" for k
    using n n'(2) unfolding dir_at_def id g st_def[symmetric] by (metis option.inject)
  have tree: "in_tree st' k = in_tree st k" for k by (simp add: in_tree_def dir)
  show ?thesis
  proof (rule disk_okI)
    show "hm_wf (fs_nodes (cd_state (d\<lparr>cd_state := put_node (cd_state d) i n'\<rparr>)))"
      using okD(1) by (simp add: put_node_def st_def hmap_wf)
    show "index_ok v (cd_state (d\<lparr>cd_state := put_node (cd_state d) i n'\<rparr>))"
      using okD(2) n n'(1) unfolding index_ok_def st_def[symmetric]
      by (simp add: st'_def[symmetric] id g)
    show "dir_at (cd_state (d\<lparr>cd_state := put_node (cd_state d) i n'\<rparr>)) [SEP]"
      using okD(3) dir by (simp add: st'_def st_def)
    fix j m
    assume "hm_get (fs_nodes (cd_state (d\<lparr>cd_state := put_node (cd_state d) i n'\<rparr>))) j = Some m"
    then have m: "(if j = i then Some n' else hm_get (fs_nodes st) j) = Some m" by (simp add: g[symmetric] st'_def st_def)
    have "node_ok v (cd_max_file_size d) st' j m"
    proof (cases "j = i")
      case True
      then show ?thesis using okD(4)[of i n] n n' m unfolding st_def[symmetric]
        by (simp add: node_ok_def nx tree)
    next
      case False
      then show ?thesis using okD(4)[of j m] m by (simp add: node_ok_def nx tree)
    qed
    then show "node_ok v (cd_max_file_size (d\<lparr>cd_state := put_node (cd_state d) i n'\<rparr>))
        (cd_state (d\<lparr>cd_state := put_node (cd_state d) i n'\<rparr>)) j m"
      by (simp add: st'_def st_def)
  qed
qed

section \<open>Contents\<close>

definition disk_content :: "fs_env \<Rightarrow> clave_disk \<Rightarrow> u64 \<Rightarrow> bytes option" where
  "disk_content v d i = map_option (disk_decrypt v d) (hm_get (fs_nodes (cd_state d)) i)"

text \<open>Plain files: a write fills a gap with zeros; a constrained write stays within the file.\<close>

definition file_write :: "bytes \<Rightarrow> nat \<Rightarrow> bytes \<Rightarrow> bytes" where
  "file_write c start w = splice (resize c (max (length c) (start + length w))) start w"

definition file_write_within :: "bytes \<Rightarrow> nat \<Rightarrow> bytes \<Rightarrow> bytes" where
  "file_write_within c start w = splice c start (take (length c - start) w)"

lemma disk_decrypt_state [simp]: "disk_decrypt v (d\<lparr>cd_state := st\<rparr>) = disk_decrypt v d"
  by (simp add: disk_decrypt_def fun_eq_iff)

lemma content_put:
  "disk_content v (d\<lparr>cd_state := put_node (cd_state d) i n\<rparr>) j =
     (if j = i then Some (disk_decrypt v d n) else disk_content v d j)"
  by (simp add: disk_content_def put_node_def)

lemma resize_self: "resize c (length c) = c"
  by (simp add: resize_def)

lemma length_splice: "start + length w \<le> length b \<Longrightarrow> length (splice b start w) = length b"
  by (simp add: splice_def)

lemma length_file_write: "length (file_write c start w) = max (length c) (start + length w)"
  by (simp add: file_write_def length_splice)

lemma length_file_write_within: "start < length c \<Longrightarrow> length (file_write_within c start w) = length c"
  by (simp add: file_write_within_def length_splice)

lemma disk_write_free:
  assumes n: "hm_get (fs_nodes (cd_state d)) i = Some n" and c: "c = disk_decrypt v d n"
    and s: "s = (if eof then length c else unat offset)" and fits: "s + length w < 2 ^ 64"
    and lim: "length c \<le> unat (cd_max_file_size d)"
  shows "disk_write v d i w offset eof False now =
    (if unat (cd_max_file_size d) < s + length w then Returned (d, Inl STATUS_DISK_FULL)
     else let n' = disk_store v d n (file_write c s w) now
          in Returned (d\<lparr>cd_state := put_node (cd_state d) i n'\<rparr>, Inr (of_nat (length w), node_file_info n')))"
proof -
  have lc: "length c < 2 ^ 64" using lim unsigned_less[of "cd_max_file_size d", where 'a = nat] by simp
  define start :: u64 where "start = (if eof then of_nat (length c) else offset)"
  have st: "unat start = s" using s lc by (simp add: start_def unat_of_nat)
  define e where "e = start + of_nat (length w)"
  have e: "unat e = s + length w" using fits st by (simp add: e_def unat_add_of_nat)
  have le: "start \<le> e" by (simp add: word_le_nat_alt st e)
  have full: "e > cd_max_file_size d \<longleftrightarrow> unat (cd_max_file_size d) < s + length w"
    by (simp add: word_less_nat_alt e)
  have rs: "(if unat e > length c then resize c (unat e) else c) = resize c (max (length c) (s + length w))"
    by (simp add: e max_def resize_self)
  have len: "unat e \<le> length (resize c (max (length c) (s + length w)))" by (simp add: e)
  show ?thesis
    unfolding disk_write_def with_node_def n option.case c[symmetric] start_def[symmetric] Let_def
      e_def[symmetric] full rs file_write_def st
    using le len by (simp add: e)
qed

lemma disk_write_constrained:
  assumes n: "hm_get (fs_nodes (cd_state d)) i = Some n" and c: "c = disk_decrypt v d n"
    and s: "s = (if eof then length c else unat offset)" and fits: "s + length w < 2 ^ 64"
    and lim: "length c \<le> unat (cd_max_file_size d)"
  shows "disk_write v d i w offset eof True now =
    (if length c \<le> s then Returned (d, Inr (0, node_file_info n))
     else let n' = disk_store v d n (file_write_within c s w) now
          in Returned (d\<lparr>cd_state := put_node (cd_state d) i n'\<rparr>,
               Inr (of_nat (min (length w) (length c - s)), node_file_info n')))"
proof -
  have lc: "length c < 2 ^ 64" using lim unsigned_less[of "cd_max_file_size d", where 'a = nat] by simp
  define size :: u64 where "size = of_nat (length c)"
  have sz: "unat size = length c" using lc by (simp add: size_def unat_of_nat)
  define start where "start = (if eof then size else offset)"
  have st: "unat start = s" using s by (simp add: start_def sz)
  have ge: "start \<ge> size \<longleftrightarrow> length c \<le> s" by (simp add: word_le_nat_alt st sz)
  define e where "e = min (start + of_nat (length w)) size"
  have se: "unat (start + of_nat (length w)) = s + length w" using fits st by (simp add: unat_add_of_nat)
  then have e: "unat e = min (s + length w) (length c)" by (auto simp: e_def min_def word_le_nat_alt sz)
  have len: "unat (e - start) = min (length w) (length c - s)" if "\<not> length c \<le> s"
  proof -
    have "start \<le> e" using that by (simp add: word_le_nat_alt st e)
    then show ?thesis using that by (auto simp: unat_sub e st min_def)
  qed
  have w: "take (min (length w) (length c - s)) w = take (length c - s) w" by (simp add: min_def)
  have b: "s + min (length w) (length c - s) \<le> length c" if "\<not> length c \<le> s" using that by simp
  show ?thesis
    unfolding disk_write_def with_node_def n option.case c[symmetric] Let_def
      size_def[symmetric] start_def[symmetric] e_def[symmetric] ge file_write_within_def st
    using len w b by simp
qed

lemma disk_read_eq:
  assumes n: "hm_get (fs_nodes (cd_state d)) i = Some n" and c: "c = disk_decrypt v d n"
    and lc: "length c = unat (nd_size n)" and fits: "unat offset + length buf < 2 ^ 64"
  shows "disk_read v d i buf offset =
    (if length c \<le> unat offset then Returned (d, Inl STATUS_END_OF_FILE)
     else let out = take (length buf) (drop (unat offset) c)
          in Returned (d, Inr (out @ drop (length out) buf, of_nat (length out))))"
proof -
  have ge: "offset \<ge> nd_size n \<longleftrightarrow> length c \<le> unat offset" by (simp add: word_le_nat_alt lc)
  define e where "e = min (offset + of_nat (length buf)) (nd_size n)"
  have "unat (offset + of_nat (length buf)) = unat offset + length buf" using fits by (simp add: unat_add_of_nat)
  then have e: "unat e = min (unat offset + length buf) (length c)"
    by (auto simp: e_def min_def word_le_nat_alt lc)
  have len: "unat (e - offset) = min (length buf) (length c - unat offset)" if "\<not> length c \<le> unat offset"
  proof -
    have "offset \<le> e" using that by (simp add: word_le_nat_alt e)
    then show ?thesis using that by (auto simp: unat_sub e min_def)
  qed
  have t: "take (min (length buf) (length c - unat offset)) (drop (unat offset) c) = take (length buf) (drop (unat offset) c)"
    by (simp add: min_def)
  show ?thesis
    unfolding disk_read_def with_node_def n option.case c[symmetric] Let_def e_def[symmetric] ge
    using len t by (auto simp: min.commute)
qed

section \<open>Calls and the contract of WinFsp\<close>

text \<open>
  The callbacks that change the table. The contract: handles are live, a name has no trailing separator,
  the root is not deleted, offsets do not reach the end of the 64-bit range. For a rename WinFsp
  guarantees that neither the target nor anything below the renamed directory is open; what the file
  system itself would have to check is listed in \<open>rename_ok\<close>: the node is not the root, the names
  below it are spelled with the same prefix, and the target is outside the subtree, in an existing
  directory, and free or without children.
\<close>

datatype fs_call =
    CCreate ustring u32 u32 u64
  | CCleanup u64 u32
  | CWrite u64 bytes u64 bool bool u64
  | CSetBasic u64 u32 u64 u64 u64 u64
  | CSetSize u64 u64 bool u64
  | COverwrite u64 u32 bool u64
  | CRename u64 ustring bool

definition after :: "'a fs_result \<Rightarrow> clave_disk outcome" where
  "after r = (case r of Panicked \<Rightarrow> Panicked | Returned x \<Rightarrow> Returned (fst x))"

fun fs_apply :: "fs_env \<Rightarrow> clave_disk \<Rightarrow> fs_call \<Rightarrow> clave_disk outcome" where
  "fs_apply v d (CCreate name options attributes now) = after (disk_create v d name options attributes now)"
| "fs_apply v d (CCleanup i flags) = Returned (disk_cleanup v d i flags)"
| "fs_apply v d (CWrite i w offset eof constrained now) = after (disk_write v d i w offset eof constrained now)"
| "fs_apply v d (CSetBasic i a c la lw lc) = after (set_basic_info d i a c la lw lc)"
| "fs_apply v d (CSetSize i sz alloc now) = after (set_file_size v d i sz alloc now)"
| "fs_apply v d (COverwrite i a replace now) = after (disk_overwrite d i a replace now)"
| "fs_apply v d (CRename i name replace) = after (disk_rename v d i name replace)"

definition under_key :: "ustring \<Rightarrow> ustring \<Rightarrow> bool" where
  "under_key k c = (c = k \<or> prefix (k @ [SEP]) c)"

text \<open>
  What \<open>disk_rename\<close> relies on without checking it: the nodes below the old path spell its part of
  their name with upper-case equal and as many bytes (as they do when spellings differ in the case of
  ASCII letters), and the new path is the old one in another spelling, or lies outside the old path, in
  a directory, and has no children. \<open>rename_unchecked\<close> shows what happens otherwise.
\<close>

definition spelled_like :: "fs_env \<Rightarrow> ustring \<Rightarrow> ustring \<Rightarrow> bool" where
  "spelled_like v old name =
     (case drop_bytes (str_len old) name of
        None \<Rightarrow> False
      | Some rest \<Rightarrow> to_uppercase v name = to_uppercase v old @ to_uppercase v rest)"

definition orderly_rename :: "fs_env \<Rightarrow> fs_state \<Rightarrow> node \<Rightarrow> ustring \<Rightarrow> bool" where
  "orderly_rename v st n new =
     (let old_key = canon v (nd_name n); new_key = canon v new
      in list_all (\<lambda>m. if under_key old_key (canon v (nd_name m)) then spelled_like v (nd_name n) (nd_name m) else True)
           (hm_values (fs_nodes st)) \<and>
         (if new_key = old_key then True
          else \<not> under_key old_key new_key \<and> \<not> has_children v st new_key \<and>
               (case parent_canon new_key of
                  None \<Rightarrow> False
                | Some p \<Rightarrow> p \<noteq> new_key \<and>
                    (case id_of st p of
                       None \<Rightarrow> False
                     | Some j \<Rightarrow> (case hm_get (fs_nodes st) j of None \<Rightarrow> False | Some m \<Rightarrow> nd_is_dir m)))))"

definition no_wrap :: "u64 \<Rightarrow> bytes \<Rightarrow> bool" where
  "no_wrap start w = (uint start + int (length w) < 2 ^ 64)"

text \<open>
  The contract of WinFsp: handles are of nodes, names are absolute paths without a closing separator,
  offsets do not run over 64 bits, and the root is neither deleted nor renamed nor the target of a rename.
\<close>

fun lawful :: "fs_env \<Rightarrow> clave_disk \<Rightarrow> fs_call \<Rightarrow> bool" where
  "lawful v d (CCreate name options attributes now) = (name_ok name \<and> fs_next_id (cd_state d) \<noteq> -1)"
| "lawful v d (CCleanup i flags) =
     (case hm_get (fs_nodes (cd_state d)) i of None \<Rightarrow> True | Some n \<Rightarrow> canon v (nd_name n) \<noteq> [SEP])"
| "lawful v d (CWrite i w offset eof constrained now) =
     (case hm_get (fs_nodes (cd_state d)) i of
        None \<Rightarrow> False
      | Some n \<Rightarrow> no_wrap (if eof then nd_size n else offset) w)"
| "lawful v d (CSetBasic i a c la lw lc) = hm_contains (fs_nodes (cd_state d)) i"
| "lawful v d (CSetSize i sz alloc now) = hm_contains (fs_nodes (cd_state d)) i"
| "lawful v d (COverwrite i a replace now) = hm_contains (fs_nodes (cd_state d)) i"
| "lawful v d (CRename i name replace) =
     (case hm_get (fs_nodes (cd_state d)) i of
        None \<Rightarrow> False
      | Some n \<Rightarrow> canon v (nd_name n) \<noteq> [SEP] \<and> name_ok name \<and> canon v name \<noteq> [SEP])"

definition orderly :: "fs_env \<Rightarrow> clave_disk \<Rightarrow> fs_call \<Rightarrow> bool" where
  "orderly v d c =
     (case c of
        CRename i name replace \<Rightarrow>
          (case hm_get (fs_nodes (cd_state d)) i of None \<Rightarrow> True | Some n \<Rightarrow> orderly_rename v (cd_state d) n name)
      | _ \<Rightarrow> True)"

fun fs_run :: "fs_env \<Rightarrow> clave_disk \<Rightarrow> fs_call list \<Rightarrow> clave_disk outcome" where
  "fs_run v d [] = Returned d"
| "fs_run v d (c # cs) = (case fs_apply v d c of Panicked \<Rightarrow> Panicked | Returned d \<Rightarrow> fs_run v d cs)"

fun lawful_run :: "fs_env \<Rightarrow> clave_disk \<Rightarrow> fs_call list \<Rightarrow> bool" where
  "lawful_run v d [] = True"
| "lawful_run v d (c # cs) =
     (lawful v d c \<and> (case fs_apply v d c of Panicked \<Rightarrow> True | Returned d \<Rightarrow> lawful_run v d cs))"

fun orderly_run :: "fs_env \<Rightarrow> clave_disk \<Rightarrow> fs_call list \<Rightarrow> bool" where
  "orderly_run v d [] = True"
| "orderly_run v d (c # cs) =
     (orderly v d c \<and> (case fs_apply v d c of Panicked \<Rightarrow> True | Returned d \<Rightarrow> orderly_run v d cs))"

lemma after_simps [simp]: "after Panicked = Panicked" "after (Returned (d, r)) = Returned d"
  by (simp_all add: after_def)

lemma no_wrap_unat: "no_wrap start w \<longleftrightarrow> unat start + length w < 2 ^ 64"
proof -
  have "uint start + int (length w) = int (unat start + length w)" by simp
  then show ?thesis unfolding no_wrap_def by (simp only: of_nat_less_iff[where 'a = int, symmetric]) simp
qed

lemma disk_ok_new: "upper_ok v \<Longrightarrow> disk_ok v (disk_new dek cap now)"
  by (rule disk_okI) (auto simp: disk_new_def node_new_def index_ok_def id_of_def dir_at_def node_ok_def
      name_ok_def node_fits_def in_tree_def canon_root round_up_def SECTOR_SIZE_def hmap_wf split: if_splits)

lemma put_call_ok:
  assumes "disk_ok v d" "hm_get (fs_nodes (cd_state d)) i = Some n" "r = Returned (d\<lparr>cd_state := put_node (cd_state d) i n'\<rparr>, x)"
    "nd_name n' = nd_name n" "nd_is_dir n' = nd_is_dir n" "node_fits (cd_max_file_size d) n'"
  shows "\<exists>d'. after r = Returned d' \<and> disk_ok v d'"
  using disk_ok_put[OF assms(1,2,4-6)] assms(3) by simp

lemma node_fitsD:
  assumes "disk_ok v d" "hm_get (fs_nodes (cd_state d)) i = Some n"
  shows "node_fits (cd_max_file_size d) n"
  using disk_okD(4)[OF assms] by (simp add: node_ok_def)

lemma content_length:
  assumes "disk_ok v d" "xts_correct (fv_xts v)" "hm_get (fs_nodes (cd_state d)) i = Some n"
  shows "length (disk_decrypt v d n) = unat (nd_size n)" "unat (nd_size n) \<le> unat (cd_max_file_size d)"
  using decrypt_length[OF assms(2) node_fitsD[OF assms(1,3)]] node_fitsD[OF assms(1,3)]
  by (simp_all add: node_fits_def word_le_nat_alt)

lemma write_call_ok:
  assumes ok: "disk_ok v d" and x: "xts_correct (fv_xts v)" and l: "lawful v d (CWrite i w offset eof constrained now)"
  shows "\<exists>d'. fs_apply v d (CWrite i w offset eof constrained now) = Returned d' \<and> disk_ok v d'"
proof -
  obtain n where n: "hm_get (fs_nodes (cd_state d)) i = Some n"
    and f: "unat (if eof then nd_size n else offset) + length w < 2 ^ 64"
    using l by (auto simp: no_wrap_unat split: option.splits)
  define c where "c = disk_decrypt v d n"
  define s where "s = (if eof then length c else unat offset)"
  note cl = content_length[OF ok x n, folded c_def]
  have fits: "s + length w < 2 ^ 64" using f cl by (simp add: s_def split: if_splits)
  have lim: "length c \<le> unat (cd_max_file_size d)" using cl by simp
  show ?thesis
  proof (cases constrained)
    case True
    have "node_fits (cd_max_file_size d) (disk_store v d n (file_write_within c s w) now)" if "s < length c"
      using store_fits[OF x] lim that by (simp add: length_file_write_within)
    then show ?thesis using ok True disk_ok_put[OF ok n]
      by (simp add: disk_write_constrained[OF n c_def s_def fits lim] Let_def not_le)
  next
    case False
    have "node_fits (cd_max_file_size d) (disk_store v d n (file_write c s w) now)"
      if "s + length w \<le> unat (cd_max_file_size d)"
      using store_fits[OF x] lim that by (simp add: length_file_write)
    then show ?thesis using ok False disk_ok_put[OF ok n]
      by (simp add: disk_write_free[OF n c_def s_def fits lim] Let_def not_less)
  qed
qed

lemma set_size_call_ok:
  assumes ok: "disk_ok v d" and x: "xts_correct (fv_xts v)" and l: "lawful v d (CSetSize i sz alloc now)"
  shows "\<exists>d'. fs_apply v d (CSetSize i sz alloc now) = Returned d' \<and> disk_ok v d'"
proof (cases "sz > cd_max_file_size d")
  case False
  obtain n where n: "hm_get (fs_nodes (cd_state d)) i = Some n" using l by (auto simp: hm_contains_def)
  have le: "unat sz \<le> unat (cd_max_file_size d)" using False by (simp add: word_le_nat_alt word_less_nat_alt)
  then have "node_fits (cd_max_file_size d) (disk_store v d n (take (unat sz) b) now)"
    "node_fits (cd_max_file_size d) (disk_store v d n (resize b (unat sz)) now)" for b
    using store_fits[OF x] by (simp_all add: min_def)
  then show ?thesis using False n disk_ok_put[OF ok n] node_fitsD[OF ok n]
    by (auto simp: set_file_size_def with_node_def Let_def)
qed (simp add: set_file_size_def ok)

definition basic_info :: "node \<Rightarrow> u32 \<Rightarrow> u64 \<Rightarrow> u64 \<Rightarrow> u64 \<Rightarrow> u64 \<Rightarrow> node" where
  "basic_info n a c la lw lc =
     n\<lparr>nd_attributes := if a \<noteq> INVALID_FILE_ATTRIBUTES \<and> a \<noteq> 0 then a else nd_attributes n,
       nd_creation_time := if c \<noteq> 0 then c else nd_creation_time n,
       nd_last_access_time := if la \<noteq> 0 then la else nd_last_access_time n,
       nd_last_write_time := if lw \<noteq> 0 then lw else nd_last_write_time n,
       nd_change_time := if lc \<noteq> 0 then lc else nd_change_time n\<rparr>"

lemma basic_info_simps [simp]:
  "nd_name (basic_info n a c la lw lc) = nd_name n" "nd_is_dir (basic_info n a c la lw lc) = nd_is_dir n"
  "nd_data (basic_info n a c la lw lc) = nd_data n" "nd_size (basic_info n a c la lw lc) = nd_size n"
  by (simp_all add: basic_info_def)

lemma set_basic_info_eq:
  assumes "hm_get (fs_nodes (cd_state d)) i = Some n"
  shows "set_basic_info d i a c la lw lc =
    Returned (d\<lparr>cd_state := put_node (cd_state d) i (basic_info n a c la lw lc)\<rparr>, Inr (node_file_info (basic_info n a c la lw lc)))"
  by (simp add: set_basic_info_def with_node_def assms Let_def basic_info_def)

lemma set_basic_call_ok:
  assumes ok: "disk_ok v d" and l: "lawful v d (CSetBasic i a c la lw lc)"
  shows "\<exists>d'. fs_apply v d (CSetBasic i a c la lw lc) = Returned d' \<and> disk_ok v d'"
proof -
  obtain n where n: "hm_get (fs_nodes (cd_state d)) i = Some n" using l by (auto simp: hm_contains_def)
  have "node_fits (cd_max_file_size d) (basic_info n a c la lw lc)"
    using node_fitsD[OF ok n] by (simp add: node_fits_def)
  then show ?thesis using put_call_ok[OF ok n set_basic_info_eq[OF n]] by simp
qed

lemma overwrite_call_ok:
  assumes ok: "disk_ok v d" and l: "lawful v d (COverwrite i a replace now)"
  shows "\<exists>d'. fs_apply v d (COverwrite i a replace now) = Returned d' \<and> disk_ok v d'"
proof -
  obtain n where n: "hm_get (fs_nodes (cd_state d)) i = Some n" using l by (auto simp: hm_contains_def)
  have f: "node_fits (cd_max_file_size d) (n\<lparr>nd_data := [], nd_size := 0, nd_attributes := b, nd_last_write_time := now, nd_change_time := now\<rparr>)" for b
    by (simp add: node_fits_def round_up_def SECTOR_SIZE_def)
  show ?thesis using disk_ok_put[OF ok n _ _ f] by (simp add: disk_overwrite_def with_node_def n Let_def)
qed

lemma word_succ_less: "i \<noteq> -1 \<Longrightarrow> i < i + 1" for i :: "'a::len word"
proof -
  assume "i \<noteq> -1"
  then have "1 + i \<noteq> 0" using max_word_wrap[of i] by (auto simp: add.commute)
  then show ?thesis using unatSuc[of i] by (simp add: word_less_nat_alt add.commute)
qed

lemma create_call_ok:
  assumes ok: "disk_ok v d" and l: "lawful v d (CCreate name options attributes now)"
  shows "\<exists>d'. fs_apply v d (CCreate name options attributes now) = Returned d' \<and> disk_ok v d'"
proof -
  define st where "st = cd_state d"
  define key where "key = canon v name"
  note D = disk_okD[OF ok, folded st_def]
  consider "id_of st key \<noteq> None \<or> parent_canon key = None \<or> (\<exists>p. parent_canon key = Some p \<and> \<not> dir_at st p)"
    | p where "id_of st key = None" "parent_canon key = Some p" "dir_at st p"
    by (cases "parent_canon key") auto
  then show ?thesis
  proof cases
    case 1
    have live: "id_of st p \<noteq> Some j" if "hm_get (fs_nodes st) j = None" for p j
      using index_okD(2)[OF D(2), of p j] that by auto
    have "\<exists>e. disk_create v d name options attributes now = Returned (d, Inl e)"
      using 1 live by (auto simp: disk_create_def Let_def with_node_def dir_at_def st_def[symmetric] key_def[symmetric]
          split: option.splits)
    then show ?thesis using ok by auto
  next
    case (2 p)
    obtain j m where j: "id_of st p = Some j" "hm_get (fs_nodes st) j = Some m" "nd_is_dir m"
      using 2(3) by (auto simp: dir_at_def)
    define i where "i = fs_next_id st"
    have top: "i \<noteq> -1" and nm: "name_ok name" using l by (simp_all add: i_def st_def)
    then have up: "i < i + 1" by (simp add: word_succ_less)
    define n where "n = node_new name (options AND FILE_DIRECTORY_FILE \<noteq> 0)
      (create_attributes (options AND FILE_DIRECTORY_FILE \<noteq> 0) attributes) (fs_next_index st) now"
    define st' where "st' = st\<lparr>fs_next_id := i + 1, fs_next_index := fs_next_index st + 1,
      fs_nodes := hm_insert (fs_nodes st) i n, fs_by_path := hm_insert (fs_by_path st) key i\<rparr>"
    have e: "disk_create v d name options attributes now = Returned (d\<lparr>cd_state := st'\<rparr>, Inr (i, node_file_info n))"
      using 2 j by (simp add: disk_create_def Let_def with_node_def st_def[symmetric] key_def[symmetric] n_def st'_def i_def)
    have fresh: "hm_get (fs_nodes st) i = None"
      using D(4)[of i] by (cases "hm_get (fs_nodes st) i") (auto simp: node_ok_def i_def)
    have g: "hm_get (fs_nodes st') x = (if x = i then Some n else hm_get (fs_nodes st) x)" for x by (simp add: st'_def)
    have id: "id_of st' k = (if k = key then Some i else id_of st k)" for k by (simp add: st'_def id_of_def)
    have nn: "nd_name n = name" "node_fits lim n" for lim
      by (simp_all add: n_def node_new_def node_fits_def round_up_def SECTOR_SIZE_def)
    have dir: "dir_at st' k" if "dir_at st k" for k
      using that 2(1) fresh unfolding dir_at_def id g by force
    have tree: "in_tree st' k" if "in_tree st k" for k using that dir by (auto simp: in_tree_def)
    have "disk_ok v (d\<lparr>cd_state := st'\<rparr>)"
    proof (rule disk_okI)
      show "hm_wf (fs_nodes (cd_state (d\<lparr>cd_state := st'\<rparr>)))" using D(1) by (simp add: st'_def hmap_wf)
      show "index_ok v (cd_state (d\<lparr>cd_state := st'\<rparr>))"
        unfolding index_ok_def
      proof (intro allI)
        fix k x
        have "id_of st k = Some x \<longleftrightarrow> (\<exists>m. hm_get (fs_nodes st) x = Some m \<and> canon v (nd_name m) = k)"
          using D(2) by (simp add: index_ok_def)
        then show "id_of (cd_state (d\<lparr>cd_state := st'\<rparr>)) k = Some x \<longleftrightarrow>
            (\<exists>m. hm_get (fs_nodes (cd_state (d\<lparr>cd_state := st'\<rparr>))) x = Some m \<and> canon v (nd_name m) = k)"
          using 2(1) fresh by (auto simp: id g nn key_def split: if_splits)
      qed
      show "dir_at (cd_state (d\<lparr>cd_state := st'\<rparr>)) [SEP]" using dir D(3) by simp
      fix x m
      assume "hm_get (fs_nodes (cd_state (d\<lparr>cd_state := st'\<rparr>))) x = Some m"
      then have m: "(if x = i then Some n else hm_get (fs_nodes st) x) = Some m" by (simp add: g)
      have "fs_next_id st' = i + 1" by (simp add: st'_def)
      show "node_ok v (cd_max_file_size (d\<lparr>cd_state := st'\<rparr>)) (cd_state (d\<lparr>cd_state := st'\<rparr>)) x m"
      proof (cases "x = i")
        case True
        then show ?thesis using m nm nn up 2 dir[OF 2(3)]
          by (auto simp: node_ok_def in_tree_def st'_def key_def)
      next
        case False
        then have "node_ok v (cd_max_file_size d) st x m" using m D(4) by simp
        then show ?thesis using up tree by (auto simp: node_ok_def st'_def i_def)
      qed
    qed
    then show ?thesis using e by simp
  qed
qed

lemma parent_ne: "parent_canon c = Some p \<Longrightarrow> p \<noteq> [SEP] \<Longrightarrow> length p < length c"
  using parent_canonD[of c p] by auto

lemma cleanup_call_ok:
  assumes ok: "disk_ok v d" and l: "lawful v d (CCleanup i flags)"
  shows "disk_ok v (disk_cleanup v d i flags)"
proof -
  define st where "st = cd_state d"
  note D = disk_okD[OF ok, folded st_def]
  show ?thesis
  proof (cases "disk_cleanup v d i flags = d")
    case False
    then obtain n where n: "hm_get (fs_nodes st) i = Some n" and ch: "\<not> (nd_is_dir n \<and> has_children v st (canon v (nd_name n)))"
      by (auto simp: disk_cleanup_def Let_def st_def split: option.splits if_splits)
    define key where "key = canon v (nd_name n)"
    define st' where "st' = st\<lparr>fs_by_path := hm_remove (fs_by_path st) key, fs_nodes := hm_remove (fs_nodes st) i\<rparr>"
    have e: "disk_cleanup v d i flags = d\<lparr>cd_state := st'\<rparr>"
      using False n by (auto simp: disk_cleanup_def Let_def st_def st'_def key_def split: if_splits)
    have root: "key \<noteq> [SEP]" using l n by (simp add: st_def key_def)
    have kid: "id_of st key = Some i" using index_okD(1)[OF D(2) n] by (simp add: key_def)
    have g: "hm_get (fs_nodes st') x = (if x = i then None else hm_get (fs_nodes st) x)" for x by (simp add: st'_def)
    have id: "id_of st' k = (if k = key then None else id_of st k)" for k by (simp add: st'_def id_of_def)
    have other: "x \<noteq> i" if "id_of st k = Some x" "k \<noteq> key" for k x
      using index_okD(2)[OF D(2) that(1)] n that(2) by (auto simp: key_def)
    have childless: "parent_canon (canon v (nd_name m)) \<noteq> Some key" if "hm_get (fs_nodes st) x = Some m" for x m
    proof
      assume p: "parent_canon (canon v (nd_name m)) = Some key"
      have "nd_is_dir n" using D(4)[OF that] p kid n root
        by (auto simp: node_ok_def in_tree_def dir_at_def parent_canon_def)
      moreover have "is_child v key m" using parent_ne[OF p root] p by (auto simp: is_child_def Let_def)
      then have "has_children v st key"
        using hm_get_eq_SomeD[OF that] by (force simp: has_children_def list_ex_iff hm_values_def)
      ultimately show False using ch by (simp add: key_def)
    qed
    have dir: "dir_at st' k" if "dir_at st k" "k \<noteq> key" for k
      using that other unfolding dir_at_def id g by force
    show ?thesis unfolding e
    proof (rule disk_okI)
      show "hm_wf (fs_nodes (cd_state (d\<lparr>cd_state := st'\<rparr>)))" using D(1) by (simp add: st'_def hmap_wf)
      show "index_ok v (cd_state (d\<lparr>cd_state := st'\<rparr>))"
        unfolding index_ok_def
      proof (intro allI)
        fix k x
        have "id_of st k = Some x \<longleftrightarrow> (\<exists>m. hm_get (fs_nodes st) x = Some m \<and> canon v (nd_name m) = k)"
          using D(2) by (simp add: index_ok_def)
        then show "id_of (cd_state (d\<lparr>cd_state := st'\<rparr>)) k = Some x \<longleftrightarrow>
            (\<exists>m. hm_get (fs_nodes (cd_state (d\<lparr>cd_state := st'\<rparr>))) x = Some m \<and> canon v (nd_name m) = k)"
          using kid n by (auto simp: id g key_def)
      qed
      show "dir_at (cd_state (d\<lparr>cd_state := st'\<rparr>)) [SEP]" using dir[OF D(3)] root by simp
      fix x m
      assume "hm_get (fs_nodes (cd_state (d\<lparr>cd_state := st'\<rparr>))) x = Some m"
      then have m: "hm_get (fs_nodes st) x = Some m" by (simp add: g split: if_splits)
      have "in_tree st' (canon v (nd_name m))"
        using D(4)[OF m] dir childless[OF m] by (force simp: node_ok_def in_tree_def)
      then show "node_ok v (cd_max_file_size (d\<lparr>cd_state := st'\<rparr>)) (cd_state (d\<lparr>cd_state := st'\<rparr>)) x m"
        using D(4)[OF m] by (simp add: node_ok_def st'_def)
    qed
  qed (simp add: ok)
qed

end
