(* ===== verification/Clave_Disk_Rename.thy ===== *)
theory Clave_Disk_Rename
  imports Clave_Disk_Props
begin

text \<open>
  Renaming on the Clave Disk: what the loop over the affected nodes does to the table and to the index
  of paths, and that a lawful and orderly rename moves exactly the subtree and keeps the invariant.
\<close>

section \<open>The loop\<close>

lemma utf8_len_pos: "utf8_len c > 0"
  by (simp add: utf8_len_def)

lemma drop_bytes_append: "drop_bytes (str_len a) (a @ b) = Some b"
proof (induction a)
  case Nil
  then show ?case by (cases b) (simp_all add: str_len_def)
next
  case (Cons c a)
  then show ?case using utf8_len_pos[of c] by (simp add: str_len_def)
qed

lemma drop_bytes_suffix: "drop_bytes n s = Some r \<Longrightarrow> \<exists>p. s = p @ r"
proof (induction n s rule: drop_bytes.induct)
  case (2 n c s)
  then show ?case by (auto split: if_splits)
qed (auto split: if_splits)

definition moved_name :: "ustring \<Rightarrow> ustring \<Rightarrow> ustring \<Rightarrow> ustring" where
  "moved_name new old name = (case drop_bytes (str_len old) name of None \<Rightarrow> name | Some rest \<Rightarrow> new @ rest)"

lemma move_all_spec:
  assumes "\<And>x. x \<in> set L \<Longrightarrow> drop_bytes (str_len old) (snd x) \<noteq> None" "distinct (map fst L)"
    and "\<And>x. x \<in> set L \<Longrightarrow> hm_contains (fs_nodes st) (fst x)"
    and "\<And>x y. x \<in> set L \<Longrightarrow> y \<in> set L \<Longrightarrow> x \<noteq> y \<Longrightarrow>
      canon v (moved_name new old (snd x)) \<noteq> canon v (moved_name new old (snd y)) \<and>
      canon v (moved_name new old (snd x)) \<noteq> canon v (snd y)"
  shows "\<exists>st'. move_all v new (str_len old) L st = Returned st' \<and>
    (\<forall>x \<in> set L. id_of st' (canon v (moved_name new old (snd x))) = Some (fst x)) \<and>
    (\<forall>k. k \<notin> (\<lambda>x. canon v (moved_name new old (snd x))) ` set L \<longrightarrow>
       id_of st' k = (if k \<in> (\<lambda>x. canon v (snd x)) ` set L then None else id_of st k)) \<and>
    (\<forall>i. hm_get (fs_nodes st') i = (case map_of L i of None \<Rightarrow> hm_get (fs_nodes st) i
       | Some nm \<Rightarrow> map_option (\<lambda>n. n\<lparr>nd_name := moved_name new old nm\<rparr>) (hm_get (fs_nodes st) i))) \<and>
    fs_next_id st' = fs_next_id st \<and> (hm_wf (fs_nodes st) \<longrightarrow> hm_wf (fs_nodes st'))"
  using assms
proof (induction L arbitrary: st)
  case Nil
  then show ?case by simp
next
  case (Cons x L)
  obtain nid orig where x: "x = (nid, orig)" by (cases x)
  obtain sfx where sfx: "drop_bytes (str_len old) orig = Some sfx" using Cons.prems(1)[of x] x by auto
  have mv: "moved_name new old orig = new @ sfx" by (simp add: moved_name_def sfx)
  obtain n where n: "hm_get (fs_nodes st) nid = Some n" using Cons.prems(3)[of x] x by (auto simp: hm_contains_def)
  define st1 where "st1 = put_node (st\<lparr>fs_by_path := hm_insert (hm_remove (fs_by_path st) (canon v orig)) (canon v (new @ sfx)) nid\<rparr>)
    nid (n\<lparr>nd_name := new @ sfx\<rparr>)"
  have step: "move_all v new (str_len old) (x # L) st = move_all v new (str_len old) L st1"
    using n by (simp add: x sfx Let_def with_node_def st1_def)
  have id1: "id_of st1 k = (if k = canon v (new @ sfx) then Some nid else if k = canon v orig then None else id_of st k)" for k
    by (simp add: st1_def put_node_def id_of_def)
  have g1: "hm_get (fs_nodes st1) i = (if i = nid then Some (n\<lparr>nd_name := new @ sfx\<rparr>) else hm_get (fs_nodes st) i)" for i
    by (simp add: st1_def put_node_def)
  have live: "hm_contains (fs_nodes st1) (fst y)" if "y \<in> set L" for y
    using Cons.prems(3)[of y] that by (simp add: hm_contains_def g1)
  obtain st' where st': "move_all v new (str_len old) L st1 = Returned st'"
    "\<forall>y \<in> set L. id_of st' (canon v (moved_name new old (snd y))) = Some (fst y)"
    "\<forall>k. k \<notin> (\<lambda>y. canon v (moved_name new old (snd y))) ` set L \<longrightarrow>
       id_of st' k = (if k \<in> (\<lambda>y. canon v (snd y)) ` set L then None else id_of st1 k)"
    "\<forall>i. hm_get (fs_nodes st') i = (case map_of L i of None \<Rightarrow> hm_get (fs_nodes st1) i
       | Some nm \<Rightarrow> map_option (\<lambda>n. n\<lparr>nd_name := moved_name new old nm\<rparr>) (hm_get (fs_nodes st1) i))"
    "fs_next_id st' = fs_next_id st1" "hm_wf (fs_nodes st1) \<longrightarrow> hm_wf (fs_nodes st')"
    using Cons.IH[of st1] Cons.prems(1,2,4) live by (auto simp: x)
  have notin: "nid \<notin> fst ` set L" using Cons.prems(2) by (simp add: x)
  then have xL: "x \<notin> set L" by (force simp: x)
  have fresh: "canon v (new @ sfx) \<notin> (\<lambda>y. canon v (moved_name new old (snd y))) ` set L"
    "canon v (new @ sfx) \<notin> (\<lambda>y. canon v (snd y)) ` set L"
    using Cons.prems(4)[of x] xL by (force simp: x mv)+
  have head: "id_of st' (canon v (new @ sfx)) = Some nid" using st'(3) fresh id1 by simp
  have "map_of L nid = None" using notin by (simp add: map_of_eq_None_iff)
  then have nodes: "hm_get (fs_nodes st') i = (case map_of (x # L) i of None \<Rightarrow> hm_get (fs_nodes st) i
       | Some nm \<Rightarrow> map_option (\<lambda>n. n\<lparr>nd_name := moved_name new old nm\<rparr>) (hm_get (fs_nodes st) i))" for i
    using st'(4)[rule_format, of i] by (auto simp: x g1 n mv split: option.splits)
  have rest: "id_of st' k = (if k \<in> (\<lambda>y. canon v (snd y)) ` set (x # L) then None else id_of st k)"
    if "k \<notin> (\<lambda>y. canon v (moved_name new old (snd y))) ` set (x # L)" for k
    using that st'(3)[rule_format, of k] by (auto simp: x mv id1)
  show ?case
    using step st'(1,2,5,6) head nodes rest
    by (intro exI[of _ st']) (auto simp: x mv st1_def put_node_def hmap_wf)
qed

section \<open>Keys under a key\<close>

lemma under_keyE:
  assumes "under_key k c"
  obtains u where "c = k @ u" "u = [] \<or> (\<exists>r. u = SEP # r)"
  using assms unfolding under_key_def by (auto elim!: prefixE)

lemma under_keyI: "u = [] \<or> (\<exists>r. u = SEP # r) \<Longrightarrow> under_key k (k @ u)"
  by (auto simp: under_key_def)

lemma under_append:
  assumes "a @ u = b @ w" "u = [] \<or> (\<exists>r. u = SEP # r)" "w = [] \<or> (\<exists>r. w = SEP # r)"
  shows "under_key a b \<or> under_key b a"
proof -
  consider x where "a = b @ x" "x @ u = w" | x where "b = a @ x" "x @ w = u"
    using assms(1) by (auto simp: append_eq_append_conv2)
  then show ?thesis
  proof cases
    case (1 x)
    then have "x = [] \<or> (\<exists>r. x = SEP # r)" using assms(3) by (cases x) auto
    then show ?thesis using 1 under_keyI by auto
  next
    case (2 x)
    then have "x = [] \<or> (\<exists>r. x = SEP # r)" using assms(2) by (cases x) auto
    then show ?thesis using 2 under_keyI by auto
  qed
qed

text \<open>In a tree, nothing lies under a key that has no children.\<close>

lemma no_keys_under:
  assumes ok: "disk_ok v d" and k: "k \<noteq> []" "\<not> has_children v (cd_state d) k"
  shows "id_of (cd_state d) q = Some i \<Longrightarrow> \<not> prefix (k @ [SEP]) q"
proof (induction "length q" arbitrary: q i rule: less_induct)
  case less
  define st where "st = cd_state d"
  show ?case
  proof
    assume "prefix (k @ [SEP]) q"
    then obtain r where q: "q = k @ SEP # r" by (auto elim: prefixE)
    obtain m where m: "hm_get (fs_nodes st) i = Some m" "canon v (nd_name m) = q"
      using index_okD(2)[OF disk_okD(2)[OF ok] less.prems] by (auto simp: st_def)
    have "q \<noteq> [SEP]" using k(1) q by (cases k) auto
    then obtain p where p: "parent_canon q = Some p" "dir_at st p"
      using disk_okD(4)[OF ok m(1)[unfolded st_def]] m(2) by (auto simp: node_ok_def in_tree_def st_def)
    show False
    proof (cases "SEP \<in> set r")
      case False
      then have "is_child v k m" using m(2) q parent_canon_append[OF False k(1)] by (simp add: is_child_def)
      then have "has_children v st k"
        using hm_get_eq_SomeD[OF m(1)] by (force simp: has_children_def list_ex_iff hm_values_def)
      then show False using k(2) by (simp add: st_def)
    next
      case True
      then obtain r1 r2 where r: "r = r1 @ SEP # r2" "SEP \<notin> set r2" by (meson split_list_last)
      then have "p = k @ SEP # r1" using p(1) q parent_canon_append[OF r(2), of "k @ SEP # r1"] by simp
      moreover obtain j where "id_of st p = Some j" using p(2) by (auto simp: dir_at_def)
      ultimately show False using less.hyps[of p j] q r by (simp add: st_def)
    qed
  qed
qed

section \<open>What a lawful rename does\<close>

lemma affected_by_def':
  "affected_by v st old_key = map (\<lambda>(nid, n). (nid, nd_name n))
     (filter (\<lambda>(_, n). under_key old_key (canon v (nd_name n))) (fs_nodes st))"
  by (simp add: affected_by_def under_key_def Let_def)

lemma map_of_affected_aux:
  "distinct (map fst ns) \<Longrightarrow>
   map_of (map (\<lambda>(nid, n). (nid, nd_name n)) (filter (\<lambda>(_, n). P n) ns)) j =
     (case map_of ns j of None \<Rightarrow> None | Some m \<Rightarrow> if P m then Some (nd_name m) else None)"
proof (induction ns)
  case (Cons x ns)
  then show ?case
    by (cases x) (auto simp: map_of_eq_None_iff image_iff split: option.splits)
qed simp

lemma map_of_affected:
  assumes "hm_wf (fs_nodes st)"
  shows "map_of (affected_by v st ok) j =
    (case hm_get (fs_nodes st) j of None \<Rightarrow> None
     | Some m \<Rightarrow> if under_key ok (canon v (nd_name m)) then Some (nd_name m) else None)"
  using map_of_affected_aux[of "fs_nodes st"] assms unfolding affected_by_def' hm_get_def hm_wf_def by blast

lemma set_affected:
  "hm_wf (fs_nodes st) \<Longrightarrow> x \<in> set (affected_by v st ok) \<longleftrightarrow>
     (\<exists>m. hm_get (fs_nodes st) (fst x) = Some m \<and> snd x = nd_name m \<and> under_key ok (canon v (nd_name m)))"
  by (cases x) (auto simp: affected_by_def' hm_get_Some_iff)

lemma distinct_affected: "hm_wf (fs_nodes st) \<Longrightarrow> distinct (map fst (affected_by v st ok))"
  unfolding affected_by_def' hm_wf_def
  by (simp add: comp_def case_prod_beta distinct_map_filter)

lemma canon_nonempty: "upper_ok v \<Longrightarrow> name_ok s \<Longrightarrow> canon v s \<noteq> []"
  by (simp add: canon_name_ok to_uppercase_Nil_iff) (simp add: name_ok_def)

lemma moved_canon:
  assumes u: "upper_ok v" and names: "name_ok name" "name_ok old" "name_ok new" "spelled_like v old name"
    and un: "under_key (canon v old) (canon v name)"
  shows "\<exists>w. (w = [] \<or> (\<exists>r. w = SEP # r)) \<and> canon v name = canon v old @ w \<and>
    canon v (moved_name new old name) = canon v new @ w \<and> name_ok (moved_name new old name)"
proof -
  obtain sfx where sfx: "drop_bytes (str_len old) name = Some sfx"
    "to_uppercase v name = to_uppercase v old @ to_uppercase v sfx"
    using names(4) by (auto simp: spelled_like_def split: option.splits)
  obtain pre where pre: "name = pre @ sfx" using drop_bytes_suffix[OF sfx(1)] by blast
  have ok: "name_ok (new @ sfx)"
  proof (cases "sfx = []")
    case False
    have "name \<noteq> [SEP]"
    proof
      assume "name = [SEP]"
      then have "length (to_uppercase v old) + length (to_uppercase v sfx) = 1"
        using sfx(2) upper_SEP[OF u] by (metis length_append list.size(3,4) One_nat_def to_uppercase_def
            concat.simps list.map append_Nil2 add_0)
      moreover have "to_uppercase v old \<noteq> []" "to_uppercase v sfx \<noteq> []"
        using False names(2) to_uppercase_Nil_iff[OF u] by (auto simp: name_ok_def)
      ultimately show False by (cases "to_uppercase v old"; cases "to_uppercase v sfx") auto
    qed
    then have "last name \<noteq> SEP" using names(1) by (simp add: name_ok_def)
    then show ?thesis using False pre names(3) by (simp add: name_ok_def)
  qed (simp add: names)
  have c: "canon v name = canon v old @ to_uppercase v sfx" "canon v (new @ sfx) = canon v new @ to_uppercase v sfx"
    using canon_name_ok[OF ok] canon_name_ok[OF names(1)] canon_name_ok[OF names(2)] canon_name_ok[OF names(3)] sfx(2)
    by (simp_all add: to_uppercase_append)
  obtain w where "canon v name = canon v old @ w" "w = [] \<or> (\<exists>r. w = SEP # r)" using under_keyE[OF un] .
  then show ?thesis using c ok by (simp add: moved_name_def sfx)
qed

text \<open>Both conditions on a rename.\<close>

definition rename_ok :: "fs_env \<Rightarrow> fs_state \<Rightarrow> node \<Rightarrow> ustring \<Rightarrow> bool" where
  "rename_ok v st n new = (canon v (nd_name n) \<noteq> [SEP] \<and> name_ok new \<and> canon v new \<noteq> [SEP] \<and> orderly_rename v st n new)"

lemma rename_okI:
  "hm_get (fs_nodes (cd_state d)) i = Some n \<Longrightarrow> lawful v d (CRename i new replace) \<Longrightarrow>
   orderly v d (CRename i new replace) \<Longrightarrow> rename_ok v (cd_state d) n new"
  by (simp add: rename_ok_def orderly_def)

lemma rename_okD:
  assumes "rename_ok v st n new" "old_key = canon v (nd_name n)" "new_key = canon v new"
  shows "old_key \<noteq> [SEP]" "name_ok new" "new_key \<noteq> [SEP]"
    "hm_get (fs_nodes st) j = Some m \<Longrightarrow> under_key old_key (canon v (nd_name m)) \<Longrightarrow> spelled_like v (nd_name n) (nd_name m)"
    "new_key \<noteq> old_key \<Longrightarrow> \<not> under_key old_key new_key \<and> \<not> has_children v st new_key \<and>
      (\<exists>p. parent_canon new_key = Some p \<and> p \<noteq> new_key \<and> dir_at st p)"
proof -
  show "old_key \<noteq> [SEP]" "name_ok new" "new_key \<noteq> [SEP]" using assms by (simp_all add: rename_ok_def orderly_rename_def Let_def)
  show "spelled_like v (nd_name n) (nd_name m)"
    if "hm_get (fs_nodes st) j = Some m" "under_key old_key (canon v (nd_name m))"
  proof -
    have "m \<in> set (hm_values (fs_nodes st))" using hm_get_eq_SomeD[OF that(1)] by (force simp: hm_values_def)
    then show ?thesis using assms that(2) by (auto simp: rename_ok_def orderly_rename_def Let_def list_all_iff)
  qed
  show "\<not> under_key old_key new_key \<and> \<not> has_children v st new_key \<and>
      (\<exists>p. parent_canon new_key = Some p \<and> p \<noteq> new_key \<and> dir_at st p)" if "new_key \<noteq> old_key"
    using assms that by (auto simp: rename_ok_def orderly_rename_def Let_def dir_at_def split: option.splits)
qed

text \<open>Nothing in the table lies under the new key, unless it is the old one; and the two are apart.\<close>

lemma rename_apart:
  assumes u: "upper_ok v" and ok: "disk_ok v d" and n: "hm_get (fs_nodes (cd_state d)) i = Some n"
    and r: "rename_ok v (cd_state d) n new" and keys: "old_key = canon v (nd_name n)" "new_key = canon v new"
    and ne: "new_key \<noteq> old_key"
  shows "id_of (cd_state d) k = Some j \<Longrightarrow> under_key new_key k \<Longrightarrow> k = new_key"
    and "\<not> (under_key old_key k \<and> under_key new_key k)"
proof -
  note R = rename_okD[OF r keys]
  have nk: "new_key \<noteq> []" using canon_nonempty[OF u R(2)] keys by simp
  note none = no_keys_under[OF ok nk conjunct1[OF conjunct2[OF R(5)[OF ne]]]]
  show "k = new_key" if "id_of (cd_state d) k = Some j" "under_key new_key k"
    using none[OF that(1)] that(2) by (simp add: under_key_def)
  have old: "id_of (cd_state d) old_key = Some i" using index_okD(1)[OF disk_okD(2)[OF ok] n] keys by simp
  show "\<not> (under_key old_key k \<and> under_key new_key k)"
  proof
    assume "under_key old_key k \<and> under_key new_key k"
    then obtain w1 w2 where w: "k = old_key @ w1" "w1 = [] \<or> (\<exists>r. w1 = SEP # r)"
      "k = new_key @ w2" "w2 = [] \<or> (\<exists>r. w2 = SEP # r)" by (metis under_keyE)
    then have "under_key old_key new_key \<or> under_key new_key old_key"
      using under_append[of old_key w1 new_key w2] by metis
    then show False using R(5)[OF ne] none[OF old] ne by (auto simp: under_key_def)
  qed
qed

definition is_target :: "fs_state \<Rightarrow> ustring \<Rightarrow> u64 \<Rightarrow> u64 \<Rightarrow> bool" where
  "is_target st new_key i j = (id_of st new_key = Some j \<and> j \<noteq> i)"

definition moved_key :: "ustring \<Rightarrow> ustring \<Rightarrow> fs_state \<Rightarrow> ustring \<Rightarrow> u64 option" where
  "moved_key old_key new_key st k =
     (if under_key new_key k then id_of st (old_key @ drop (length new_key) k)
      else if under_key old_key k then None else id_of st k)"

definition moved_node :: "fs_env \<Rightarrow> ustring \<Rightarrow> node \<Rightarrow> node \<Rightarrow> node" where
  "moved_node v new n m =
     (if under_key (canon v (nd_name n)) (canon v (nd_name m))
      then m\<lparr>nd_name := moved_name new (nd_name n) (nd_name m)\<rparr> else m)"

definition drop_target :: "fs_state \<Rightarrow> ustring \<Rightarrow> u64 \<Rightarrow> fs_state" where
  "drop_target st new_key i =
     (if id_of st new_key \<noteq> None \<and> id_of st new_key \<noteq> Some i
      then st\<lparr>fs_by_path := hm_remove (fs_by_path st) new_key, fs_nodes := hm_remove (fs_nodes st) (the (id_of st new_key))\<rparr>
      else st)"

lemma drop_target_simps:
  "hm_get (fs_nodes (drop_target st k i)) j = (if is_target st k i j then None else hm_get (fs_nodes st) j)"
  "id_of (drop_target st k i) c = (if c = k \<and> (\<exists>j. is_target st k i j) then None else id_of st c)"
  "fs_next_id (drop_target st k i) = fs_next_id st"
  "hm_wf (fs_nodes st) \<Longrightarrow> hm_wf (fs_nodes (drop_target st k i))"
  by (auto simp: drop_target_def is_target_def id_of_def hmap_wf)

lemma rename_suffix:
  assumes u: "upper_ok v" and ok: "disk_ok v d" and n: "hm_get (fs_nodes (cd_state d)) i = Some n"
    and r: "rename_ok v (cd_state d) n new" and keys: "old_key = canon v (nd_name n)" "new_key = canon v new"
    and m: "hm_get (fs_nodes (cd_state d)) j = Some m" "under_key old_key (canon v (nd_name m))"
  shows "\<exists>w. (w = [] \<or> (\<exists>r. w = SEP # r)) \<and> canon v (nd_name m) = old_key @ w \<and>
      canon v (moved_name new (nd_name n) (nd_name m)) = new_key @ w \<and> name_ok (moved_name new (nd_name n) (nd_name m))"
proof -
  have "name_ok (nd_name m)" "name_ok (nd_name n)"
    using disk_okD(4)[OF ok m(1)] disk_okD(4)[OF ok n] by (simp_all add: node_ok_def)
  then show ?thesis using moved_canon[OF u _ _ rename_okD(2)[OF r keys] rename_okD(4)[OF r keys m]] m(2) keys by simp
qed

lemma index_inj:
  assumes "disk_ok v d" "hm_get (fs_nodes (cd_state d)) j = Some m" "hm_get (fs_nodes (cd_state d)) j' = Some m'"
    "canon v (nd_name m) = canon v (nd_name m')"
  shows "j = j'"
  using index_okD(1)[OF disk_okD(2)[OF assms(1)] assms(2)] index_okD(1)[OF disk_okD(2)[OF assms(1)] assms(3)] assms(4)
  by simp

lemma rename_sep:
  assumes u: "upper_ok v" and ok: "disk_ok v d" and n: "hm_get (fs_nodes (cd_state d)) i = Some n"
    and r: "rename_ok v (cd_state d) n new" and keys: "old_key = canon v (nd_name n)" "new_key = canon v new"
    and m: "hm_get (fs_nodes (cd_state d)) j = Some m" "under_key old_key (canon v (nd_name m))"
    and m': "hm_get (fs_nodes (cd_state d)) j' = Some m'" "under_key old_key (canon v (nd_name m'))" and ne: "j \<noteq> j'"
  shows "canon v (moved_name new (nd_name n) (nd_name m)) \<noteq> canon v (moved_name new (nd_name n) (nd_name m')) \<and>
      canon v (moved_name new (nd_name n) (nd_name m)) \<noteq> canon v (nd_name m')"
proof -
  obtain w w' where w: "canon v (nd_name m) = old_key @ w" "canon v (moved_name new (nd_name n) (nd_name m)) = new_key @ w"
    "w = [] \<or> (\<exists>r. w = SEP # r)" "canon v (nd_name m') = old_key @ w'" "canon v (moved_name new (nd_name n) (nd_name m')) = new_key @ w'"
    using rename_suffix[OF u ok n r keys m] rename_suffix[OF u ok n r keys m'] by blast
  have c: "canon v (nd_name m) \<noteq> canon v (nd_name m')" using index_inj[OF ok m(1) m'(1)] ne by blast
  have "new_key @ w \<noteq> old_key @ w'"
  proof (cases "new_key = old_key")
    case True
    then show ?thesis using c w by simp
  next
    case False
    then show ?thesis
      using rename_apart(2)[OF u ok n r keys False, of "new_key @ w"] under_keyI[OF w(3)] m'(2) w(4) by metis
  qed
  then show ?thesis using w c by simp
qed

lemma rename_loop:
  assumes u: "upper_ok v" and ok: "disk_ok v d" and n: "hm_get (fs_nodes (cd_state d)) i = Some n"
    and r: "rename_ok v (cd_state d) n new" and keys: "old_key = canon v (nd_name n)" "new_key = canon v new"
    and st1: "st1 = drop_target (cd_state d) new_key i" and L: "L = affected_by v st1 old_key"
  shows "\<exists>st'. move_all v new (str_len (nd_name n)) L st1 = Returned st' \<and>
    (\<forall>x \<in> set L. id_of st' (canon v (moved_name new (nd_name n) (snd x))) = Some (fst x)) \<and>
    (\<forall>k. k \<notin> (\<lambda>x. canon v (moved_name new (nd_name n) (snd x))) ` set L \<longrightarrow>
       id_of st' k = (if k \<in> (\<lambda>x. canon v (snd x)) ` set L then None else id_of st1 k)) \<and>
    (\<forall>j. hm_get (fs_nodes st') j = (case map_of L j of None \<Rightarrow> hm_get (fs_nodes st1) j
       | Some nm \<Rightarrow> map_option (\<lambda>m. m\<lparr>nd_name := moved_name new (nd_name n) nm\<rparr>) (hm_get (fs_nodes st1) j))) \<and>
    fs_next_id st' = fs_next_id st1 \<and> (hm_wf (fs_nodes st1) \<longrightarrow> hm_wf (fs_nodes st'))"
proof (rule move_all_spec)
  have wf: "hm_wf (fs_nodes st1)" using disk_okD(1)[OF ok] by (simp add: st1 drop_target_simps)
  then show "distinct (map fst L)" by (simp add: L distinct_affected)
  have inL: "\<exists>m. hm_get (fs_nodes (cd_state d)) (fst x) = Some m \<and> hm_get (fs_nodes st1) (fst x) = Some m \<and>
      snd x = nd_name m \<and> under_key old_key (canon v (nd_name m))" if "x \<in> set L" for x
    using that set_affected[OF wf] by (auto simp: L st1 drop_target_simps split: if_splits)
  show "drop_bytes (str_len (nd_name n)) (snd x) \<noteq> None" if "x \<in> set L" for x
    using inL[OF that] rename_okD(4)[OF r keys] by (fastforce simp: spelled_like_def split: option.splits)
  show "hm_contains (fs_nodes st1) (fst x)" if "x \<in> set L" for x
    using inL[OF that] by (auto simp: hm_contains_def)
  show "canon v (moved_name new (nd_name n) (snd x)) \<noteq> canon v (moved_name new (nd_name n) (snd y)) \<and>
      canon v (moved_name new (nd_name n) (snd x)) \<noteq> canon v (snd y)"
    if x: "x \<in> set L" and y: "y \<in> set L" and xy: "x \<noteq> y" for x y
  proof -
    obtain m m' where m: "hm_get (fs_nodes (cd_state d)) (fst x) = Some m" "snd x = nd_name m" "under_key old_key (canon v (nd_name m))"
      "hm_get (fs_nodes (cd_state d)) (fst y) = Some m'" "snd y = nd_name m'" "under_key old_key (canon v (nd_name m'))"
      using inL[OF x] inL[OF y] by blast
    then have "fst x \<noteq> fst y" using xy by (metis option.inject prod_eqI)
    then show ?thesis using rename_sep[OF u ok n r keys m(1,3) m(4,6)] m(2,5) by simp
  qed
qed

lemma target_key:
  assumes ok: "disk_ok v d" and n: "hm_get (fs_nodes (cd_state d)) i = Some n"
    and r: "rename_ok v (cd_state d) n new" and keys: "old_key = canon v (nd_name n)" "new_key = canon v new"
    and t: "is_target (cd_state d) new_key i j" "id_of (cd_state d) k = Some j"
  shows "k = new_key" "\<not> under_key old_key k" "new_key \<noteq> old_key"
proof -
  have nk: "id_of (cd_state d) new_key = Some j" "j \<noteq> i" using t(1) by (simp_all add: is_target_def)
  show k: "k = new_key"
    using index_okD(2)[OF disk_okD(2)[OF ok] nk(1)] index_okD(2)[OF disk_okD(2)[OF ok] t(2)] by auto
  show ne: "new_key \<noteq> old_key" using index_okD(1)[OF disk_okD(2)[OF ok] n] nk keys by auto
  show "\<not> under_key old_key k" using rename_okD(5)[OF r keys ne] k by simp
qed

lemma rename_table:
  assumes u: "upper_ok v" and ok: "disk_ok v d" and n: "hm_get (fs_nodes (cd_state d)) i = Some n"
    and r: "rename_ok v (cd_state d) n new" and keys: "old_key = canon v (nd_name n)" "new_key = canon v new"
    and free: "replace \<or> (\<forall>j. \<not> is_target (cd_state d) new_key i j)"
  obtains st' where "disk_rename v d i new replace = Returned (d\<lparr>cd_state := st'\<rparr>, Inr ())"
    and "\<And>k. id_of st' k = moved_key old_key new_key (cd_state d) k"
    and "\<And>j. hm_get (fs_nodes st') j = (if is_target (cd_state d) new_key i j then None
      else map_option (moved_node v new n) (hm_get (fs_nodes (cd_state d)) j))"
    and "fs_next_id st' = fs_next_id (cd_state d)" "hm_wf (fs_nodes st')"
proof -
  define st where "st = cd_state d"
  define st1 where "st1 = drop_target st new_key i"
  define L where "L = affected_by v st1 old_key"
  obtain st' where st': "move_all v new (str_len (nd_name n)) L st1 = Returned st'"
    "\<forall>x \<in> set L. id_of st' (canon v (moved_name new (nd_name n) (snd x))) = Some (fst x)"
    "\<forall>k. k \<notin> (\<lambda>x. canon v (moved_name new (nd_name n) (snd x))) ` set L \<longrightarrow>
       id_of st' k = (if k \<in> (\<lambda>x. canon v (snd x)) ` set L then None else id_of st1 k)"
    "\<forall>j. hm_get (fs_nodes st') j = (case map_of L j of None \<Rightarrow> hm_get (fs_nodes st1) j
       | Some nm \<Rightarrow> map_option (\<lambda>m. m\<lparr>nd_name := moved_name new (nd_name n) nm\<rparr>) (hm_get (fs_nodes st1) j))"
    "fs_next_id st' = fs_next_id st1" "hm_wf (fs_nodes st1) \<longrightarrow> hm_wf (fs_nodes st')"
    using rename_loop[OF u ok n r keys st1_def[unfolded st_def] L_def] by (auto simp: st_def)
  have wf1: "hm_wf (fs_nodes st1)" using disk_okD(1)[OF ok] by (simp add: st1_def st_def drop_target_simps)
  have inL: "x \<in> set L \<longleftrightarrow> (\<exists>m. hm_get (fs_nodes st) (fst x) = Some m \<and> \<not> is_target st new_key i (fst x) \<and>
      snd x = nd_name m \<and> under_key old_key (canon v (nd_name m)))" for x
    unfolding L_def set_affected[OF wf1] by (auto simp: st1_def drop_target_simps)
  note suf = rename_suffix[OF u ok n r keys, folded st_def]
  note idx = index_okD[OF disk_okD(2)[OF ok], folded st_def]
  note tgt = target_key[OF ok n r keys, folded st_def]
  have id1: "id_of st1 k = (if k = new_key \<and> (\<exists>j. is_target st new_key i j) then None else id_of st k)" for k
    by (simp add: st1_def drop_target_simps)
  have cm: "\<exists>w. canon v (moved_name new (nd_name n) (snd x)) = new_key @ w \<and> id_of st (old_key @ w) = Some (fst x) \<and>
      (w = [] \<or> (\<exists>r. w = SEP # r)) \<and> canon v (snd x) = old_key @ w" if "x \<in> set L" for x
    using that suf idx(1) unfolding inL by metis
  have Lkey: "\<exists>x \<in> set L. fst x = j \<and> canon v (snd x) = k"
    if a: "id_of st k = Some j" and b: "under_key old_key k" for k j
  proof -
    obtain m where "hm_get (fs_nodes st) j = Some m" "canon v (nd_name m) = k" using idx(2)[OF a] by blast
    then have "(j, nd_name m) \<in> set L" using tgt(2)[OF _ a] b by (auto simp: inL)
    then show ?thesis using \<open>canon v (nd_name m) = k\<close> by force
  qed
  have key: "id_of st' k = moved_key old_key new_key st k" for k
  proof (cases "under_key new_key k")
    case True
    then obtain w where w: "k = new_key @ w" "w = [] \<or> (\<exists>r. w = SEP # r)" by (rule under_keyE)
    show ?thesis
    proof (cases "id_of st (old_key @ w)")
      case None
      then have "k \<notin> (\<lambda>x. canon v (moved_name new (nd_name n) (snd x))) ` set L" using cm w by fastforce
      moreover have "id_of st1 k = None"
      proof (cases "id_of st k")
        case (Some j)
        show ?thesis
        proof (cases "new_key = old_key")
          case False
          then have "k = new_key" using rename_apart(1)[OF u ok n r keys False] Some True by (simp add: st_def)
          moreover have "j \<noteq> i" using idx(1)[of i n] n Some calculation False idx(2)[OF Some] by (auto simp: st_def keys)
          ultimately show ?thesis using Some by (auto simp: id1 is_target_def)
        qed (use None Some w in simp)
      qed (simp add: id1)
      ultimately show ?thesis using st'(3) None True w by (simp add: moved_key_def)
    next
      case (Some j)
      then obtain x where x: "x \<in> set L" "fst x = j" "canon v (snd x) = old_key @ w"
        using Lkey[OF Some under_keyI[OF w(2)]] by blast
      then have "canon v (moved_name new (nd_name n) (snd x)) = k" using cm[OF x(1)] w by auto
      then show ?thesis using st'(2) x Some True w by (auto simp: moved_key_def)
    qed
  next
    case False
    then have out: "k \<notin> (\<lambda>x. canon v (moved_name new (nd_name n) (snd x))) ` set L" "k \<noteq> new_key"
      using cm under_keyI by (fastforce simp: under_key_def)+
    show ?thesis
    proof (cases "under_key old_key k")
      case True
      then show ?thesis using st'(3) out Lkey[OF _ True] False
        by (cases "id_of st k") (auto simp: moved_key_def id1)
    next
      case F: False
      then have "k \<notin> (\<lambda>x. canon v (snd x)) ` set L" by (auto simp: inL)
      then show ?thesis using st'(3) out F False by (simp add: moved_key_def id1)
    qed
  qed
  show ?thesis
  proof (rule that[of st'])
    have live: "hm_get (fs_nodes st1) i = Some n" using n by (simp add: st1_def st_def drop_target_simps is_target_def)
    have taken: "\<not> ((id_of st new_key \<noteq> None \<and> id_of st new_key \<noteq> Some i) \<and> \<not> replace)"
      using free by (auto simp: is_target_def st_def[symmetric])
    show "disk_rename v d i new replace = Returned (d\<lparr>cd_state := st'\<rparr>, Inr ())"
      unfolding disk_rename_def st_def[symmetric] Let_def keys(2)[symmetric] drop_target_def[symmetric] st1_def[symmetric]
        with_node_def live option.case
      using taken st'(1) by (simp add: keys(1)[symmetric] L_def[symmetric])
    show "hm_get (fs_nodes st') j = (if is_target (cd_state d) new_key i j then None
      else map_option (moved_node v new n) (hm_get (fs_nodes (cd_state d)) j))" for j
      using st'(4)[rule_format, of j] map_of_affected[OF wf1, of v old_key j]
      by (auto simp: L_def st1_def drop_target_simps st_def moved_node_def keys split: option.splits if_splits)
    show "fs_next_id st' = fs_next_id (cd_state d)" using st'(5) by (simp add: st1_def st_def drop_target_simps)
    show "hm_wf (fs_nodes st')" using st'(6) wf1 by simp
    show "id_of st' k = moved_key old_key new_key (cd_state d) k" for k using key by (simp add: st_def)
  qed
qed

section \<open>The invariant under renaming\<close>

lemma moved_node_simps [simp]:
  "nd_is_dir (moved_node v new n m) = nd_is_dir m" "node_fits lim (moved_node v new n m) = node_fits lim m"
  "nd_data (moved_node v new n m) = nd_data m" "nd_size (moved_node v new n m) = nd_size m"
  by (simp_all add: moved_node_def node_fits_def)

lemma not_under_root: "upper_ok v \<Longrightarrow> name_ok s \<Longrightarrow> canon v s \<noteq> [SEP] \<Longrightarrow> \<not> under_key (canon v s) [SEP]"
  using canon_nonempty[of v s] by (cases "canon v s") (auto simp: under_key_def prefix_def)

lemma under_child:
  assumes "parent_canon c = Some p" "under_key k p" "\<not> under_key k [SEP]"
  shows "under_key k c"
proof -
  obtain r where "c = p @ SEP # r" using parent_canonD[OF assms(1)] assms(2,3) by (auto split: if_splits)
  moreover obtain w where "p = k @ w" "w = [] \<or> (\<exists>r. w = SEP # r)" using under_keyE[OF assms(2)] .
  ultimately show ?thesis using under_keyI[of "w @ SEP # r" k] by auto
qed

lemma parent_suffix:
  assumes "parent_canon (a @ w) = Some p" "w = SEP # r" "a \<noteq> []" "b \<noteq> []"
  shows "\<exists>w'. (w' = [] \<or> (\<exists>r. w' = SEP # r)) \<and> p = a @ w' \<and> parent_canon (b @ w) = Some (b @ w')"
proof -
  obtain w1 w2 where w: "w = w1 @ SEP # w2" "SEP \<notin> set w2" using split_list_last[of SEP w] assms(2) by auto
  then have "w1 = [] \<or> (\<exists>r. w1 = SEP # r)" using assms(2) by (cases w1) auto
  moreover have "parent_canon ((x @ w1) @ SEP # w2) = Some (x @ w1)" if "x \<noteq> []" for x
    using parent_canon_append[OF w(2), of "x @ w1"] that by simp
  ultimately show ?thesis using assms(1,3,4) w by (intro exI[of _ w1]) simp
qed

lemma rename_tree:
  assumes u: "upper_ok v" and ok: "disk_ok v d" and n: "hm_get (fs_nodes (cd_state d)) i = Some n"
    and r: "rename_ok v (cd_state d) n new" and keys: "old_key = canon v (nd_name n)" "new_key = canon v new"
    and id': "\<And>k. id_of st' k = moved_key old_key new_key (cd_state d) k"
    and g': "\<And>j. hm_get (fs_nodes st') j = (if is_target (cd_state d) new_key i j then None
      else map_option (moved_node v new n) (hm_get (fs_nodes (cd_state d)) j))"
  shows "dir_at (cd_state d) k \<Longrightarrow> \<not> under_key old_key k \<Longrightarrow> \<not> under_key new_key k \<Longrightarrow> dir_at st' k"
    and "dir_at (cd_state d) (old_key @ w) \<Longrightarrow> w = [] \<or> (\<exists>r. w = SEP # r) \<Longrightarrow> dir_at st' (new_key @ w)"
proof -
  note tgt = target_key[OF ok n r keys]
  show "dir_at st' k" if dk: "dir_at (cd_state d) k" and a: "\<not> under_key old_key k" "\<not> under_key new_key k"
  proof -
    obtain j m where j: "id_of (cd_state d) k = Some j" "hm_get (fs_nodes (cd_state d)) j = Some m" "nd_is_dir m"
      using dk by (auto simp: dir_at_def)
    have "\<not> is_target (cd_state d) new_key i j" using tgt(1)[OF _ j(1)] a(2) by (auto simp: under_key_def)
    then show ?thesis using j a by (auto simp: dir_at_def id' g' moved_key_def)
  qed
  show "dir_at st' (new_key @ w)" if dk: "dir_at (cd_state d) (old_key @ w)" and w: "w = [] \<or> (\<exists>r. w = SEP # r)"
  proof -
    obtain j m where j: "id_of (cd_state d) (old_key @ w) = Some j" "hm_get (fs_nodes (cd_state d)) j = Some m" "nd_is_dir m"
      using dk by (auto simp: dir_at_def)
    have "\<not> is_target (cd_state d) new_key i j" using tgt(2)[OF _ j(1)] under_keyI[OF w] by blast
    then show ?thesis using j under_keyI[OF w] by (auto simp: dir_at_def id' g' moved_key_def)
  qed
qed

lemma rename_index:
  assumes u: "upper_ok v" and ok: "disk_ok v d" and n: "hm_get (fs_nodes (cd_state d)) i = Some n"
    and r: "rename_ok v (cd_state d) n new" and keys: "old_key = canon v (nd_name n)" "new_key = canon v new"
    and id': "\<And>k. id_of st' k = moved_key old_key new_key (cd_state d) k"
    and g': "\<And>j. hm_get (fs_nodes st') j = (if is_target (cd_state d) new_key i j then None
      else map_option (moved_node v new n) (hm_get (fs_nodes (cd_state d)) j))"
  shows "index_ok v st'"
  unfolding index_ok_def
proof (intro allI iffI)
  note idx = index_okD[OF disk_okD(2)[OF ok]]
  note suf = rename_suffix[OF u ok n r keys]
  note tgt = target_key[OF ok n r keys]
  fix k j
  show "\<exists>m. hm_get (fs_nodes st') j = Some m \<and> canon v (nd_name m) = k" if a: "id_of st' k = Some j"
  proof (cases "under_key new_key k")
    case True
    then obtain w where w: "k = new_key @ w" "w = [] \<or> (\<exists>r. w = SEP # r)" by (rule under_keyE)
    then have b: "id_of (cd_state d) (old_key @ w) = Some j" using a True by (simp add: id' moved_key_def)
    then obtain m where m: "hm_get (fs_nodes (cd_state d)) j = Some m" "canon v (nd_name m) = old_key @ w" using idx(2) by blast
    then have un: "under_key old_key (canon v (nd_name m))" using under_keyI[OF w(2)] by simp
    then have "\<not> is_target (cd_state d) new_key i j" using tgt(2)[OF _ b] m(2) by auto
    then show ?thesis using m un suf[OF m(1) un] w keys by (auto simp: g' moved_node_def)
  next
    case False
    then have b: "id_of (cd_state d) k = Some j" "\<not> under_key old_key k"
      using a by (auto simp: id' moved_key_def split: if_splits)
    then obtain m where m: "hm_get (fs_nodes (cd_state d)) j = Some m" "canon v (nd_name m) = k" using idx(2) by blast
    moreover have "\<not> is_target (cd_state d) new_key i j" using tgt(1)[OF _ b(1)] False by (auto simp: under_key_def)
    ultimately show ?thesis using b(2) keys by (auto simp: g' moved_node_def)
  qed
  show "id_of st' k = Some j" if a: "\<exists>m. hm_get (fs_nodes st') j = Some m \<and> canon v (nd_name m) = k"
  proof -
    obtain m where m: "hm_get (fs_nodes (cd_state d)) j = Some m" "\<not> is_target (cd_state d) new_key i j"
      "canon v (nd_name (moved_node v new n m)) = k" using a by (auto simp: g' split: if_splits)
    note j = idx(1)[OF m(1)]
    show ?thesis
    proof (cases "under_key old_key (canon v (nd_name m))")
      case True
      then obtain w where w: "w = [] \<or> (\<exists>r. w = SEP # r)" "canon v (nd_name m) = old_key @ w" "k = new_key @ w"
        using suf[OF m(1) True] m(3) keys by (auto simp: moved_node_def)
      then show ?thesis using j under_keyI[OF w(1)] by (simp add: id' moved_key_def)
    next
      case False
      then have k: "canon v (nd_name m) = k" using m(3) keys by (simp add: moved_node_def)
      have "\<not> under_key new_key k"
      proof
        assume un: "under_key new_key k"
        show False
        proof (cases "new_key = old_key")
          case ne: False
          then have "k = new_key" using rename_apart(1)[OF u ok n r keys ne j] k un by simp
          moreover from this have "j = i" using m(2) j k by (auto simp: is_target_def)
          ultimately show False using m(1) n k ne keys by simp
        qed (use un False k in simp)
      qed
      then show ?thesis using j k False by (simp add: id' moved_key_def)
    qed
  qed
qed

lemma rename_in_tree:
  assumes u: "upper_ok v" and ok: "disk_ok v d" and n: "hm_get (fs_nodes (cd_state d)) i = Some n"
    and r: "rename_ok v (cd_state d) n new" and keys: "old_key = canon v (nd_name n)" "new_key = canon v new"
    and id': "\<And>k. id_of st' k = moved_key old_key new_key (cd_state d) k"
    and g': "\<And>j. hm_get (fs_nodes st') j = (if is_target (cd_state d) new_key i j then None
      else map_option (moved_node v new n) (hm_get (fs_nodes (cd_state d)) j))"
    and m: "hm_get (fs_nodes (cd_state d)) j = Some m" "\<not> is_target (cd_state d) new_key i j"
  shows "in_tree st' (canon v (nd_name (moved_node v new n m)))"
proof -
  note dirs = rename_tree[OF u ok n r keys id' g']
  note R = rename_okD[OF r keys]
  have nm: "name_ok (nd_name n)" using disk_okD(4)[OF ok n] by (simp add: node_ok_def)
  have roots: "\<not> under_key old_key [SEP]" "\<not> under_key new_key [SEP]"
    using not_under_root[OF u nm] not_under_root[OF u R(2)] R(1,3) keys by simp_all
  have ne: "old_key \<noteq> []" "new_key \<noteq> []" using canon_nonempty[OF u] nm R(2) keys by simp_all
  have tree: "in_tree (cd_state d) (canon v (nd_name m))" using disk_okD(4)[OF ok m(1)] by (simp add: node_ok_def)
  show ?thesis
  proof (cases "under_key old_key (canon v (nd_name m))")
    case True
    then have mv: "nd_name (moved_node v new n m) = moved_name new (nd_name n) (nd_name m)"
      using keys by (simp add: moved_node_def)
    obtain w where w: "w = [] \<or> (\<exists>r. w = SEP # r)" "canon v (nd_name m) = old_key @ w"
      "canon v (nd_name (moved_node v new n m)) = new_key @ w"
      using rename_suffix[OF u ok n r keys m(1) True] unfolding mv by blast
    have "old_key @ w \<noteq> [SEP]" using roots(1) under_keyI[OF w(1), of old_key] by metis
    then obtain p where p: "parent_canon (old_key @ w) = Some p" "dir_at (cd_state d) p"
      using tree w(2) by (auto simp: in_tree_def)
    consider "w = []" "new_key = old_key" | "w = []" "new_key \<noteq> old_key" | r where "w = SEP # r" using w(1) by blast
    then show ?thesis
    proof cases
      case 1
      have "\<not> under_key old_key p"
        using parent_ne[of old_key p] p(1) 1 roots(1) by (cases "p = [SEP]") (auto simp: under_key_def prefix_def)
      then show ?thesis using dirs(1)[OF p(2)] p 1 w by (auto simp: in_tree_def)
    next
      case 2
      then obtain q where q: "parent_canon new_key = Some q" "q \<noteq> new_key" "dir_at (cd_state d) q" "\<not> under_key old_key new_key"
        using R(5) by blast
      have "\<not> under_key old_key q" using under_child[OF q(1) _ roots(1)] q(4) by blast
      moreover have "\<not> under_key new_key q"
        using parent_ne[OF q(1)] roots(2) by (cases "q = [SEP]") (auto simp: under_key_def prefix_def)
      ultimately show ?thesis using dirs(1)[OF q(3)] q(1) 2 w by (auto simp: in_tree_def)
    next
      case (3 r)
      then obtain w' where "w' = [] \<or> (\<exists>r. w' = SEP # r)" "p = old_key @ w'" "parent_canon (new_key @ w) = Some (new_key @ w')"
        using parent_suffix[OF p(1) 3 ne] by blast
      then show ?thesis using dirs(2)[of w'] p(2) w by (auto simp: in_tree_def)
    qed
  next
    case False
    then have same: "canon v (nd_name (moved_node v new n m)) = canon v (nd_name m)" using keys by (simp add: moved_node_def)
    have "in_tree st' (canon v (nd_name m))" if p: "parent_canon (canon v (nd_name m)) = Some p" "dir_at (cd_state d) p" for p
    proof -
      have old: "\<not> under_key old_key p" using under_child[OF p(1) _ roots(1)] False by blast
      have "\<not> under_key new_key p"
      proof
        assume un: "under_key new_key p"
        show False
        proof (cases "new_key = old_key")
          case F: False
          obtain j' where "id_of (cd_state d) p = Some j'" using p(2) by (auto simp: dir_at_def)
          then have "p = new_key" using rename_apart(1)[OF u ok n r keys F] un by blast
          moreover have "canon v (nd_name m) \<noteq> new_key" using parent_ne[OF p(1)] R(3) calculation by auto
          ultimately have "is_child v new_key m" using p(1) by (simp add: is_child_def Let_def)
          then have "has_children v (cd_state d) new_key"
            using hm_get_eq_SomeD[OF m(1)] by (force simp: has_children_def list_ex_iff hm_values_def)
          then show False using R(5)[OF F] by simp
        qed (use un old in simp)
      qed
      then show ?thesis using dirs(1)[OF p(2) old] p by (auto simp: in_tree_def)
    qed
    then show ?thesis using tree same by (auto simp: in_tree_def)
  qed
qed

lemma rename_call_ok:
  assumes u: "upper_ok v" and ok: "disk_ok v d" and l: "lawful v d (CRename i new replace)"
    and o: "orderly v d (CRename i new replace)"
  shows "\<exists>d'. fs_apply v d (CRename i new replace) = Returned d' \<and> disk_ok v d'"
proof -
  obtain n where n: "hm_get (fs_nodes (cd_state d)) i = Some n" using l by (auto split: option.splits)
  note r = rename_okI[OF n l o]
  define old_key new_key where "old_key = canon v (nd_name n)" and "new_key = canon v new"
  note keys = old_key_def new_key_def
  show ?thesis
  proof (cases "replace \<or> (\<forall>j. \<not> is_target (cd_state d) new_key i j)")
    case False
    then have "disk_rename v d i new replace = Returned (d, Inl STATUS_OBJECT_NAME_COLLISION)"
      by (auto simp: disk_rename_def Let_def is_target_def new_key_def[symmetric])
    then show ?thesis using ok by simp
  next
    case True
    obtain st' where st': "disk_rename v d i new replace = Returned (d\<lparr>cd_state := st'\<rparr>, Inr ())"
      "\<And>k. id_of st' k = moved_key old_key new_key (cd_state d) k"
      "\<And>j. hm_get (fs_nodes st') j = (if is_target (cd_state d) new_key i j then None
        else map_option (moved_node v new n) (hm_get (fs_nodes (cd_state d)) j))"
      "fs_next_id st' = fs_next_id (cd_state d)" "hm_wf (fs_nodes st')"
      using rename_table[OF u ok n r keys True] by metis
    note D = disk_okD[OF ok]
    have "disk_ok v (d\<lparr>cd_state := st'\<rparr>)"
    proof (rule disk_okI)
      show "hm_wf (fs_nodes (cd_state (d\<lparr>cd_state := st'\<rparr>)))" using st'(5) by simp
      show "index_ok v (cd_state (d\<lparr>cd_state := st'\<rparr>))" using rename_index[OF u ok n r keys st'(2,3)] by simp
      have "name_ok (nd_name n)" using D(4)[OF n] by (simp add: node_ok_def)
      then have "\<not> under_key old_key [SEP]" "\<not> under_key new_key [SEP]"
        using not_under_root[OF u] rename_okD(1-3)[OF r keys] keys by simp_all
      then show "dir_at (cd_state (d\<lparr>cd_state := st'\<rparr>)) [SEP]"
        using rename_tree(1)[OF u ok n r keys st'(2,3) D(3)] by simp
      fix j m'
      assume "hm_get (fs_nodes (cd_state (d\<lparr>cd_state := st'\<rparr>))) j = Some m'"
      then obtain m where m: "hm_get (fs_nodes (cd_state d)) j = Some m" "\<not> is_target (cd_state d) new_key i j"
        "m' = moved_node v new n m" by (auto simp: st'(3) split: if_splits)
      have "name_ok (nd_name m')"
        using D(4)[OF m(1)] rename_suffix[OF u ok n r keys m(1)] m(3) keys by (auto simp: moved_node_def node_ok_def)
      then show "node_ok v (cd_max_file_size (d\<lparr>cd_state := st'\<rparr>)) (cd_state (d\<lparr>cd_state := st'\<rparr>)) j m'"
        using D(4)[OF m(1)] rename_in_tree[OF u ok n r keys st'(2,3) m(1,2)] m(3) st'(4)
        by (simp add: node_ok_def)
    qed
    then show ?thesis using st'(1) by simp
  qed
qed

end
