(* ===== verification/Clave_Disk_Runs.thy ===== *)
theory Clave_Disk_Runs
  imports Clave_Disk_Rename
begin

text \<open>
  Runs of the Clave Disk: every lawful sequence of callbacks whose renames are orderly succeeds without a
  panic and keeps the table a tree, callbacks on contents implement plain files, and an orderly rename
  moves a subtree. Two tables show what a rename does when it is not orderly: the code checks no such thing.
\<close>

section \<open>Plain files\<close>

definition content_call :: "fs_call \<Rightarrow> bool" where
  "content_call c = (case c of CWrite _ _ _ _ _ _ \<Rightarrow> True | CSetBasic _ _ _ _ _ _ \<Rightarrow> True | CSetSize _ _ _ _ \<Rightarrow> True
     | COverwrite _ _ _ _ \<Rightarrow> True | _ \<Rightarrow> False)"

text \<open>The specification of these calls on a map from handles to plain contents.\<close>

fun file_step :: "nat \<Rightarrow> (u64 \<Rightarrow> bytes option) \<Rightarrow> fs_call \<Rightarrow> (u64 \<Rightarrow> bytes option)" where
  "file_step lim f (CWrite i w offset eof constrained now) =
     (case f i of
        None \<Rightarrow> f
      | Some c \<Rightarrow>
          (let s = (if eof then length c else unat offset)
           in if constrained then (if length c \<le> s then f else f(i \<mapsto> file_write_within c s w))
              else if lim < s + length w then f else f(i \<mapsto> file_write c s w)))"
| "file_step lim f (CSetSize i sz alloc now) =
     (case f i of
        None \<Rightarrow> f
      | Some c \<Rightarrow> if lim < unat sz then f else f(i \<mapsto> (if alloc then take (unat sz) c else resize c (unat sz))))"
| "file_step lim f (COverwrite i a replace now) = (case f i of None \<Rightarrow> f | Some c \<Rightarrow> f(i \<mapsto> []))"
| "file_step lim f _ = f"

lemma put_content:
  "disk_content v (d\<lparr>cd_state := put_node (cd_state d) i n\<rparr>) = (disk_content v d)(i \<mapsto> disk_decrypt v d n)"
  by (auto simp: content_put)

lemma max_size_lt: "unat (cd_max_file_size d) < 2 ^ 64"
  using unsigned_less[of "cd_max_file_size d", where 'a = nat] by simp

lemma file_step_write:
  assumes ok: "disk_ok v d" and x: "xts_correct (fv_xts v)" and l: "lawful v d (CWrite i w offset eof constrained now)"
    and a: "fs_apply v d (CWrite i w offset eof constrained now) = Returned d'"
  shows "disk_content v d' = file_step (unat (cd_max_file_size d)) (disk_content v d) (CWrite i w offset eof constrained now)"
proof -
  obtain n where n: "hm_get (fs_nodes (cd_state d)) i = Some n"
    and f: "unat (if eof then nd_size n else offset) + length w < 2 ^ 64"
    using l by (auto simp: no_wrap_unat split: option.splits)
  define c where "c = disk_decrypt v d n"
  define s where "s = (if eof then length c else unat offset)"
  note cl = content_length[OF ok x n, folded c_def]
  have fits: "s + length w < 2 ^ 64" using f cl by (simp add: s_def split: if_splits)
  have lim: "length c \<le> unat (cd_max_file_size d)" using cl by simp
  have ci: "disk_content v d i = Some c" by (simp add: disk_content_def n c_def)
  show ?thesis
  proof (cases constrained)
    case True
    have "disk_decrypt v d (disk_store v d n (file_write_within c s w) now) = file_write_within c s w" if "\<not> length c \<le> s"
      using that lim max_size_lt[of d] by (intro decrypt_store[OF x]) (simp add: length_file_write_within)
    then show ?thesis using a ci True
      by (auto simp: disk_write_constrained[OF n c_def s_def fits lim] Let_def s_def[symmetric] put_content split: if_splits)
  next
    case False
    have "disk_decrypt v d (disk_store v d n (file_write c s w) now) = file_write c s w"
      if "\<not> unat (cd_max_file_size d) < s + length w"
      using that lim max_size_lt[of d] by (intro decrypt_store[OF x]) (simp add: length_file_write)
    then show ?thesis using a ci False
      by (auto simp: disk_write_free[OF n c_def s_def fits lim] Let_def s_def[symmetric] put_content split: if_splits)
  qed
qed

lemma file_step_set_size:
  assumes ok: "disk_ok v d" and x: "xts_correct (fv_xts v)" and l: "lawful v d (CSetSize i sz alloc now)"
    and a: "fs_apply v d (CSetSize i sz alloc now) = Returned d'"
  shows "disk_content v d' = file_step (unat (cd_max_file_size d)) (disk_content v d) (CSetSize i sz alloc now)"
proof -
  obtain n where n: "hm_get (fs_nodes (cd_state d)) i = Some n" using l by (auto simp: hm_contains_def)
  define c where "c = disk_decrypt v d n"
  note cl = content_length[OF ok x n, folded c_def]
  have ci: "disk_content v d i = Some c" by (simp add: disk_content_def n c_def)
  have big: "sz > cd_max_file_size d \<longleftrightarrow> unat (cd_max_file_size d) < unat sz" by (simp add: word_less_nat_alt)
  have st: "disk_decrypt v d (disk_store v d n b now) = b" if "length b \<le> unat sz" for b
    using that unsigned_less[of sz, where 'a = nat] by (intro decrypt_store[OF x]) simp
  have keep: "(disk_content v d)(i \<mapsto> c) = disk_content v d" using ci by auto
  have "\<not> sz < nd_size n \<Longrightarrow> take (unat sz) c = c" using cl by (simp add: word_less_nat_alt)
  moreover have "sz = nd_size n \<Longrightarrow> resize c (unat sz) = c" using cl resize_self[of c] by simp
  ultimately show ?thesis using a ci keep
    by (auto simp: set_file_size_def with_node_def n Let_def big put_content c_def[symmetric] st)
qed

lemma file_step_ok:
  assumes ok: "disk_ok v d" and x: "xts_correct (fv_xts v)" and c: "content_call c" and l: "lawful v d c"
    and a: "fs_apply v d c = Returned d'"
  shows "disk_content v d' = file_step (unat (cd_max_file_size d)) (disk_content v d) c"
proof (cases c)
  case (CWrite i w off eof con now)
  then show ?thesis using file_step_write[OF ok x] l a by simp
next
  case (CSetSize i sz al now)
  then show ?thesis using file_step_set_size[OF ok x] l a by simp
next
  case (COverwrite i at re now)
  then show ?thesis using a
    by (auto simp: disk_overwrite_def with_node_def Let_def put_content disk_decrypt_def split: option.splits)
      (auto simp: disk_content_def)
next
  case (CSetBasic i at c la lw lc)
  then obtain n where n: "hm_get (fs_nodes (cd_state d)) i = Some n" using l by (auto simp: hm_contains_def)
  have "disk_decrypt v d (basic_info n at c la lw lc) = disk_decrypt v d n" by (simp add: disk_decrypt_def)
  then show ?thesis using a n CSetBasic by (auto simp: set_basic_info_eq[OF n] put_content disk_content_def)
qed (use c in \<open>simp_all add: content_call_def\<close>)

section \<open>Runs\<close>

lemma call_ok:
  assumes "upper_ok v" "xts_correct (fv_xts v)" "disk_ok v d" "lawful v d c" "orderly v d c"
  shows "\<exists>d'. fs_apply v d c = Returned d' \<and> disk_ok v d'"
proof (cases c)
  case (CCleanup i flags)
  then show ?thesis using cleanup_call_ok[of v d i flags] assms by simp
next
  case (CCreate name options attributes now)
  then show ?thesis using create_call_ok[OF assms(3)] assms(4) by metis
next
  case (CWrite i w offset eof constrained now)
  then show ?thesis using write_call_ok[OF assms(3,2)] assms(4) by metis
next
  case (CSetBasic i a c la lw lc)
  then show ?thesis using set_basic_call_ok[OF assms(3)] assms(4) by metis
next
  case (CSetSize i sz alloc now)
  then show ?thesis using set_size_call_ok[OF assms(3,2)] assms(4) by metis
next
  case (COverwrite i a replace now)
  then show ?thesis using overwrite_call_ok[OF assms(3)] assms(4) by metis
next
  case (CRename i name replace)
  then show ?thesis using rename_call_ok[OF assms(1,3)] assms(4,5) by metis
qed

lemma run_ok:
  assumes "upper_ok v" "xts_correct (fv_xts v)" "disk_ok v d" "lawful_run v d cs" "orderly_run v d cs"
  shows "\<exists>d'. fs_run v d cs = Returned d' \<and> disk_ok v d'"
  using assms(3,4,5)
proof (induction cs arbitrary: d)
  case (Cons c cs)
  then obtain d' where "fs_apply v d c = Returned d'" "disk_ok v d'" using call_ok[OF assms(1,2)] by force
  then show ?case using Cons by simp
qed simp

lemma content_orderly: "content_call c \<Longrightarrow> orderly v d c"
  by (cases c) (simp_all add: content_call_def orderly_def)

lemma max_size_kept: "fs_apply v d c = Returned d' \<Longrightarrow> content_call c \<Longrightarrow> cd_max_file_size d' = cd_max_file_size d"
  by (cases c) (auto simp: content_call_def disk_write_def set_basic_info_def set_file_size_def disk_overwrite_def
      with_node_def Let_def after_def split: option.splits if_splits)



text \<open>
  (C23) The Clave Disk implements plain files. Over any lawful sequence of writes, resizes, overwrites
  and attribute changes the decrypted contents develop as the plain files of the specification, and a
  read then returns the bytes of the file at that place, or the end of the file.
\<close>

theorem disk_implements_files:
  assumes "upper_ok v" "xts_correct (fv_xts v)" "disk_ok v d" "list_all content_call cs" "lawful_run v d cs"
  shows "\<exists>d'. fs_run v d cs = Returned d' \<and>
    disk_content v d' = foldl (file_step (unat (cd_max_file_size d))) (disk_content v d) cs \<and>
    (\<forall>i c buf offset. disk_content v d' i = Some c \<longrightarrow> unat offset + length buf < 2 ^ 64 \<longrightarrow>
       disk_read v d' i buf offset =
         (let out = take (length buf) (drop (unat offset) c)
          in Returned (d', if length c \<le> unat offset then Inl STATUS_END_OF_FILE
               else Inr (out @ drop (length out) buf, of_nat (length out)))))"
proof -
  have run: "\<exists>d'. fs_run v d cs = Returned d' \<and> disk_ok v d' \<and>
      disk_content v d' = foldl (file_step (unat (cd_max_file_size d))) (disk_content v d) cs"
    using assms(3-5)
  proof (induction cs arbitrary: d)
    case (Cons c cs)
    then obtain d1 where d1: "fs_apply v d c = Returned d1" "disk_ok v d1" using call_ok[OF assms(1,2)] content_orderly by force
    then show ?case
      using Cons.IH[of d1] Cons.prems file_step_ok[OF Cons.prems(1) assms(2) _ _ d1(1)] max_size_kept[OF d1(1)] by simp
  qed simp
  then obtain d' where d': "fs_run v d cs = Returned d'" "disk_ok v d'"
    "disk_content v d' = foldl (file_step (unat (cd_max_file_size d))) (disk_content v d) cs" by blast
  have "disk_read v d' i buf offset = (let out = take (length buf) (drop (unat offset) c)
      in Returned (d', if length c \<le> unat offset then Inl STATUS_END_OF_FILE
           else Inr (out @ drop (length out) buf, of_nat (length out))))"
    if c: "disk_content v d' i = Some c" and o: "unat offset + length buf < 2 ^ 64" for i c buf offset
  proof -
    obtain n where n: "hm_get (fs_nodes (cd_state d')) i = Some n" "c = disk_decrypt v d' n"
      using c by (auto simp: disk_content_def)
    then show ?thesis
      using disk_read_eq[OF n] content_length(1)[OF d'(2) assms(2) n(1)] o by (simp add: Let_def)
  qed
  then show ?thesis using d' by blast
qed

text \<open>
  (C25) An orderly rename moves a subtree. A rename that keeps to WinFsp's contract, that is orderly (the
  new path outside the old one, in a directory and childless, the nodes below spelled in as many bytes
  as the old path), and whose target is free or may be replaced, succeeds. The new path and everything
  below it is then what the old path and everything below it was, the old path is gone, every other path
  is as before, and no file other than a replaced target loses its contents. The code does not check
  that a rename is orderly: \<open>rename_unchecked\<close> below shows two that are not.
\<close>

theorem rename_moves_subtree:
  assumes "upper_ok v" "disk_ok v d" "hm_get (fs_nodes (cd_state d)) i = Some n" "lawful v d (CRename i new replace)"
    and "orderly v d (CRename i new replace)"
    and "old_key = canon v (nd_name n)" "new_key = canon v new"
    and "replace \<or> id_of (cd_state d) new_key \<in> {None, Some i}"
  shows "\<exists>d'. disk_rename v d i new replace = Returned (d', Inr ()) \<and>
    (\<forall>k. id_of (cd_state d') k =
       (if under_key new_key k then id_of (cd_state d) (old_key @ drop (length new_key) k)
        else if under_key old_key k then None else id_of (cd_state d) k)) \<and>
    (\<forall>j. disk_content v d' j =
       (if id_of (cd_state d) new_key = Some j \<and> j \<noteq> i then None else disk_content v d j))"
proof -
  have free: "replace \<or> (\<forall>j. \<not> is_target (cd_state d) new_key i j)" using assms(8) by (auto simp: is_target_def)
  obtain st' where st': "disk_rename v d i new replace = Returned (d\<lparr>cd_state := st'\<rparr>, Inr ())"
    "\<And>k. id_of st' k = moved_key old_key new_key (cd_state d) k"
    "\<And>j. hm_get (fs_nodes st') j = (if is_target (cd_state d) new_key i j then None
      else map_option (moved_node v new n) (hm_get (fs_nodes (cd_state d)) j))"
    using rename_table[OF assms(1-3) rename_okI[OF assms(3-5)] assms(6,7) free] by metis
  have "disk_decrypt v d (moved_node v new n m) = disk_decrypt v d m" for m by (simp add: disk_decrypt_def)
  then have "disk_content v (d\<lparr>cd_state := st'\<rparr>) j =
      (if id_of (cd_state d) new_key = Some j \<and> j \<noteq> i then None else disk_content v d j)" for j
    by (cases "hm_get (fs_nodes (cd_state d)) j") (auto simp: disk_content_def st'(3) is_target_def)
  then show ?thesis using st'(1,2) by (auto simp: moved_key_def)
qed

section \<open>Concrete disks\<close>

text \<open>
  Upper case of the ASCII letters and of the dotless i (two bytes in UTF-8, its upper case one); a mask in
  place of the cipher.
\<close>

definition demo_fs_env :: fs_env where
  "demo_fs_env =
     \<lparr>fv_xts = \<lparr>xt_enc = (\<lambda>_ _ _ a. map (\<lambda>b. b XOR 0x5A) a), xt_dec = (\<lambda>_ _ _ a. map (\<lambda>b. b XOR 0x5A) a)\<rparr>,
      fv_upper = (\<lambda>c. if 0x61 \<le> c \<and> c \<le> 0x7A then [c - 0x20] else if c = 0x131 then [0x49] else [c]),
      fv_cleanup_delete = (\<lambda>flags. flags AND 1 \<noteq> 0)\<rparr>"

lemma demo_fs_env_ok: "upper_ok demo_fs_env" "xts_correct (fv_xts demo_fs_env)"
proof -
  have "c - 0x20 \<noteq> (0x5C :: u32)" if "c \<le> 0x7A" for c
  proof
    assume "c - 0x20 = (0x5C :: u32)"
    then have "c = 0x5C + 0x20" by (metis diff_add_cancel)
    then show False using that by simp
  qed
  then show "upper_ok demo_fs_env" by (auto simp: upper_ok_def demo_fs_env_def SEP_def)
  show "xts_correct (fv_xts demo_fs_env)"
    by (simp add: xts_correct_def demo_fs_env_def comp_def xor.assoc)
qed

abbreviation "demo_disk_new \<equiv> disk_new (Dek []) 100 0"

text \<open>A directory a with a file b, a move of the directory to c, and the deletion of the file.\<close>

definition demo_calls :: "fs_call list" where
  "demo_calls =
     [CCreate [SEP, 0x61] 1 0 1, CCreate [SEP, 0x61, SEP, 0x62] 0 0 2, CRename 2 [SEP, 0x63] False, CCleanup 3 1]"


definition demo_file_disk :: clave_disk where
  "demo_file_disk = demo_disk_new\<lparr>cd_state := (cd_state demo_disk_new)
     \<lparr>fs_nodes := [(1, node_new [SEP] True FILE_ATTRIBUTE_DIRECTORY 1 0), (2, node_new [SEP, 0x62] False 0xA0 2 2)],
      fs_by_path := [([SEP], 1), ([SEP, 0x42], 2)], fs_next_id := 3, fs_next_index := 3\<rparr>\<rparr>"

lemma demo_file_disk_ok: "disk_ok demo_fs_env demo_file_disk"
proof -
  have "fs_run demo_fs_env demo_disk_new [CCreate [SEP, 0x62] 0 0 2] = Returned demo_file_disk" by code_simp
  moreover have "lawful demo_fs_env demo_disk_new (CCreate [SEP, 0x62] 0 0 2)" by code_simp
  then have "lawful_run demo_fs_env demo_disk_new [CCreate [SEP, 0x62] 0 0 2]" by (simp split: outcome.splits)
  moreover have "orderly_run demo_fs_env demo_disk_new [CCreate [SEP, 0x62] 0 0 2]"
    by (simp add: orderly_def split: outcome.splits)
  ultimately show ?thesis using run_ok[OF demo_fs_env_ok disk_ok_new[OF demo_fs_env_ok(1)]] by fastforce
qed

lemma disk_implements_files_witness:
  "\<exists>d. fs_run demo_fs_env demo_file_disk [CWrite 2 [1, 2, 3] 2 False False 9] = Returned d \<and>
     disk_content demo_fs_env d 2 = Some [0, 0, 1, 2, 3] \<and> disk_read demo_fs_env d 2 [7, 7] 3 = Returned (d, Inr ([2, 3], 2))"
proof -
  have c: "disk_content demo_fs_env demo_file_disk 2 = Some []" "cd_max_file_size demo_file_disk = 100" by code_simp+
  have l: "lawful demo_fs_env demo_file_disk (CWrite 2 [1, 2, 3] 2 False False 9)" by code_simp
  then have "lawful_run demo_fs_env demo_file_disk [CWrite 2 [1, 2, 3] 2 False False 9]" by (simp split: outcome.splits)
  then obtain d where d: "fs_run demo_fs_env demo_file_disk [CWrite 2 [1, 2, 3] 2 False False 9] = Returned d"
    "disk_content demo_fs_env d = foldl (file_step 100) (disk_content demo_fs_env demo_file_disk) [CWrite 2 [1, 2, 3] 2 False False 9]"
    "\<And>i c buf offset. disk_content demo_fs_env d i = Some c \<Longrightarrow> unat offset + length buf < 2 ^ 64 \<Longrightarrow>
       disk_read demo_fs_env d i buf offset =
         (let out = take (length buf) (drop (unat offset) c)
          in Returned (d, if length c \<le> unat offset then Inl STATUS_END_OF_FILE
               else Inr (out @ drop (length out) buf, of_nat (length out))))"
    using disk_implements_files[OF demo_fs_env_ok demo_file_disk_ok, of "[CWrite 2 [1, 2, 3] 2 False False 9]"]
    by (auto simp: content_call_def c)
  have "file_write [] 2 [1, 2, 3] = [0, 0, 1, 2, 3]" by code_simp
  then have w: "disk_content demo_fs_env d 2 = Some [0, 0, 1, 2, 3]" using d(2) c by (simp add: Let_def)
  show ?thesis using d(1) w d(3)[OF w, of 3 "[7, 7]"] by auto
qed

text \<open>A directory a, and in it a file b, created under the spelling A of its directory.\<close>

definition demo_tree_calls :: "fs_call list" where
  "demo_tree_calls = [CCreate [SEP, 0x61] 1 0 1, CCreate [SEP, 0x41, SEP, 0x62] 0 0 2]"

definition demo_tree_disk :: clave_disk where
  "demo_tree_disk =
     (case fs_run demo_fs_env demo_disk_new demo_tree_calls of Panicked \<Rightarrow> demo_disk_new | Returned d \<Rightarrow> d)"

lemma demo_tree_disk_ok: "disk_ok demo_fs_env demo_tree_disk"
proof -
  have "lawful_run demo_fs_env demo_disk_new demo_tree_calls" "orderly_run demo_fs_env demo_disk_new demo_tree_calls"
    by code_simp+
  then show ?thesis
    using run_ok[OF demo_fs_env_ok disk_ok_new[OF demo_fs_env_ok(1)]] by (force simp: demo_tree_disk_def)
qed

lemma rename_moves_subtree_witness:
  "\<exists>d. disk_rename demo_fs_env demo_tree_disk 2 [SEP, 0x63] False = Returned (d, Inr ()) \<and>
     id_of (cd_state d) [SEP, 0x43] = Some 2 \<and> id_of (cd_state d) [SEP, 0x43, SEP, 0x42] = Some 3 \<and>
     id_of (cd_state d) [SEP, 0x41, SEP, 0x42] = None \<and> disk_content demo_fs_env d 3 = Some []"
proof -
  define n where "n = the (hm_get (fs_nodes (cd_state demo_tree_disk)) 2)"
  have n: "hm_get (fs_nodes (cd_state demo_tree_disk)) 2 = Some n" "canon demo_fs_env (nd_name n) = [SEP, 0x41]"
    unfolding n_def by code_simp+
  have l: "lawful demo_fs_env demo_tree_disk (CRename 2 [SEP, 0x63] False)"
    "orderly demo_fs_env demo_tree_disk (CRename 2 [SEP, 0x63] False)" by code_simp+
  have k: "canon demo_fs_env [SEP, 0x63] = [SEP, 0x43]" "id_of (cd_state demo_tree_disk) [SEP, 0x43] = None"
    "id_of (cd_state demo_tree_disk) [SEP, 0x41] = Some 2" "id_of (cd_state demo_tree_disk) [SEP, 0x41, SEP, 0x42] = Some 3"
    "disk_content demo_fs_env demo_tree_disk 3 = Some []" by code_simp+
  show ?thesis
    using rename_moves_subtree[OF demo_fs_env_ok(1) demo_tree_disk_ok n(1) l refl refl] n(2) k
    by (auto simp: under_key_def)
qed

lemma rename_misplaces_child_eval:
  "case fs_run demo_fs_env demo_disk_new [CCreate [SEP, 0x131] 1 0 1, CCreate [SEP, 0x49, SEP, 0x78] 0 0 2] of
     Panicked \<Rightarrow> False
   | Returned d \<Rightarrow>
       has_children demo_fs_env (cd_state d) (canon demo_fs_env [SEP, 0x131]) \<and>
       (case disk_rename demo_fs_env d 2 [SEP, 0x6E] False of
          Panicked \<Rightarrow> False
        | Returned (d', r) \<Rightarrow> r = Inr () \<and>
            map (\<lambda>(i, n). (i, nd_name n)) (fs_nodes (cd_state d')) = [(1, [SEP]), (2, [SEP, 0x6E]), (3, [SEP, 0x6E, 0x78])] \<and>
            \<not> has_children demo_fs_env (cd_state d') (canon demo_fs_env [SEP, 0x6E]))"
  by code_simp

lemma rename_over_directory_eval:
  "case fs_run demo_fs_env demo_disk_new
     [CCreate [SEP, 0x61] 0 0 1, CCreate [SEP, 0x62] 1 0 2, CCreate [SEP, 0x62, SEP, 0x78] 0 0 3] of
     Panicked \<Rightarrow> False
   | Returned d \<Rightarrow>
       (case disk_rename demo_fs_env d 2 [SEP, 0x62] True of
          Panicked \<Rightarrow> False
        | Returned (d', r) \<Rightarrow> r = Inr () \<and>
            map (\<lambda>(i, n). (i, nd_name n, nd_is_dir n)) (fs_nodes (cd_state d')) =
              [(1, [SEP], True), (2, [SEP, 0x62], False), (4, [SEP, 0x62, SEP, 0x78], False)])"
  by code_simp

text \<open>
  What a rename does not check. The children of a directory are found by their upper-case names, but
  their own part is cut off by the byte length of the directory's name. In the first run the directory
  is created with a dotless i and the file in it under the same name spelled I, which is shorter:
  renaming the directory to n turns the file into nx next to it. In the second run a file replaces a
  directory that has a child: the child stays in the table, below a file.
\<close>

theorem rename_unchecked:
  "(\<exists>d d'. fs_run demo_fs_env demo_disk_new [CCreate [SEP, 0x131] 1 0 1, CCreate [SEP, 0x49, SEP, 0x78] 0 0 2] = Returned d \<and>
     has_children demo_fs_env (cd_state d) (canon demo_fs_env [SEP, 0x131]) \<and>
     disk_rename demo_fs_env d 2 [SEP, 0x6E] False = Returned (d', Inr ()) \<and>
     map (\<lambda>(i, n). (i, nd_name n)) (fs_nodes (cd_state d')) = [(1, [SEP]), (2, [SEP, 0x6E]), (3, [SEP, 0x6E, 0x78])] \<and>
     \<not> has_children demo_fs_env (cd_state d') (canon demo_fs_env [SEP, 0x6E])) \<and>
   (\<exists>d d'. fs_run demo_fs_env demo_disk_new
       [CCreate [SEP, 0x61] 0 0 1, CCreate [SEP, 0x62] 1 0 2, CCreate [SEP, 0x62, SEP, 0x78] 0 0 3] = Returned d \<and>
     disk_rename demo_fs_env d 2 [SEP, 0x62] True = Returned (d', Inr ()) \<and>
     map (\<lambda>(i, n). (i, nd_name n, nd_is_dir n)) (fs_nodes (cd_state d')) =
       [(1, [SEP], True), (2, [SEP, 0x62], False), (4, [SEP, 0x62, SEP, 0x78], False)])"
proof
  show "\<exists>d d'. fs_run demo_fs_env demo_disk_new [CCreate [SEP, 0x131] 1 0 1, CCreate [SEP, 0x49, SEP, 0x78] 0 0 2] = Returned d \<and>
     has_children demo_fs_env (cd_state d) (canon demo_fs_env [SEP, 0x131]) \<and>
     disk_rename demo_fs_env d 2 [SEP, 0x6E] False = Returned (d', Inr ()) \<and>
     map (\<lambda>(i, n). (i, nd_name n)) (fs_nodes (cd_state d')) = [(1, [SEP]), (2, [SEP, 0x6E]), (3, [SEP, 0x6E, 0x78])] \<and>
     \<not> has_children demo_fs_env (cd_state d') (canon demo_fs_env [SEP, 0x6E])"
    using rename_misplaces_child_eval by (fastforce split: outcome.splits simp del: fs_run.simps)
  show "\<exists>d d'. fs_run demo_fs_env demo_disk_new
       [CCreate [SEP, 0x61] 0 0 1, CCreate [SEP, 0x62] 1 0 2, CCreate [SEP, 0x62, SEP, 0x78] 0 0 3] = Returned d \<and>
     disk_rename demo_fs_env d 2 [SEP, 0x62] True = Returned (d', Inr ()) \<and>
     map (\<lambda>(i, n). (i, nd_name n, nd_is_dir n)) (fs_nodes (cd_state d')) =
       [(1, [SEP], True), (2, [SEP, 0x62], False), (4, [SEP, 0x62, SEP, 0x78], False)]"
    using rename_over_directory_eval by (fastforce split: outcome.splits simp del: fs_run.simps)
qed

end
