(* ===== verification/Mac_Volume_Props.thy ===== *)
theory Mac_Volume_Props
  imports Mac_Volume
begin

text \<open>
  What the macOS Clave Disk guarantees, for a host that behaves as documented (\<open>mac_host_ok\<close>): the
  passphrase the code finds for a bundle is always the one the bundle was created with, a disk that must
  be hardware-sealed never gets a plain passphrase, and a wipe destroys both, unless detaching fails
  first.
\<close>

section \<open>The host\<close>

text \<open>
  \<open>disk h path\<close> is the passphrase the bundle at a path was created with. What is documented of the
  host: the Keychain is a map, creating a bundle encrypts it with the given passphrase, attaching
  succeeds only with it, a generated Secure Enclave key is found again, key agreement is symmetric and an
  exported public key is imported as itself; nothing else changes what these functions answer.
\<close>

definition same_host :: "('h, 'k, 'p) mac_env \<Rightarrow> ('h \<Rightarrow> string \<Rightarrow> bytes option) \<Rightarrow> 'h \<Rightarrow> 'h \<Rightarrow> bool" where
  "same_host v disk h h' = (kc_get v h' = kc_get v h \<and> sk_search v h' = sk_search v h \<and> disk h' = disk h)"

definition host_files_ok :: "('h, 'k, 'p) mac_env \<Rightarrow> ('h \<Rightarrow> string \<Rightarrow> bytes option) \<Rightarrow> bool" where
  "host_files_ok v disk =
     (\<forall>h p h' e. os_exists v h p = (disk h p \<noteq> None) \<and> same_host v disk h (fst (os_create_dir_all v h p)) \<and>
        (os_remove_dir_all v h p = (h', Inl e) \<longrightarrow> same_host v disk h h') \<and>
        (os_remove_dir_all v h p = (h', Inr ()) \<longrightarrow>
           kc_get v h' = kc_get v h \<and> sk_search v h' = sk_search v h \<and> disk h' = (disk h)(p := None)))"

definition hdiutil_ok :: "('h, 'k, 'p) mac_env \<Rightarrow> ('h \<Rightarrow> string \<Rightarrow> bytes option) \<Rightarrow> bool" where
  "hdiutil_ok v disk =
     (\<forall>h cmd args p pass h' r. os_hdiutil v h (cmd # args @ [p]) pass = (h', r) \<longrightarrow>
        kc_get v h' = kc_get v h \<and> sk_search v h' = sk_search v h \<and>
        disk h' = (if cmd = ''create'' \<and> (\<exists>e. r = Inr (True, e)) then (disk h)(p := Some pass) else disk h) \<and>
        (cmd = ''attach'' \<and> (\<exists>e. r = Inr (True, e)) \<longrightarrow> disk h p = Some pass))"

definition keychain_ok :: "('h, 'k, 'p) mac_env \<Rightarrow> ('h \<Rightarrow> string \<Rightarrow> bytes option) \<Rightarrow> bool" where
  "keychain_ok v disk =
     (\<forall>h a s h' e.
        (kc_set v h a s = (h', Inl e) \<longrightarrow> same_host v disk h h') \<and>
        (kc_set v h a s = (h', Inr ()) \<longrightarrow>
           kc_get v h' = (kc_get v h)(a := Some s) \<and> sk_search v h' = sk_search v h \<and> disk h' = disk h) \<and>
        kc_get v (kc_delete v h a) = (kc_get v h)(a := None) \<and>
        sk_search v (kc_delete v h a) = sk_search v h \<and> disk (kc_delete v h a) = disk h)"

definition randomness_ok :: "('h, 'k, 'p) mac_env \<Rightarrow> ('h \<Rightarrow> string \<Rightarrow> bytes option) \<Rightarrow> bool" where
  "randomness_ok v disk =
     (\<forall>h h' x k e.
        (os_random v h = (h', x) \<longrightarrow> same_host v disk h h' \<and> (\<forall>b. x = Inr b \<longrightarrow> length b = 32)) \<and>
        (sk_ephemeral v h = (h', k) \<longrightarrow> same_host v disk h h') \<and>
        (sk_generate v h = (h', Inl e) \<longrightarrow> same_host v disk h h') \<and>
        (\<forall>k. sk_generate v h = (h', Inr k) \<longrightarrow>
           kc_get v h' = kc_get v h \<and> sk_search v h' = SeResults [Some k] \<and> disk h' = disk h))"

definition agreement_ok :: "('h, 'k, 'p) mac_env \<Rightarrow> bool" where
  "agreement_ok v =
     ((\<forall>p b. sk_external v p = Some b \<longrightarrow> sk_import v b = Inr p) \<and>
      (\<forall>a b pa pb s. sk_public_key v a = Some pa \<longrightarrow> sk_public_key v b = Some pb \<longrightarrow>
         sk_exchange v a pb = Inr s \<longrightarrow> sk_exchange v b pa = Inr s) \<and>
      aes_kw_correct (me_kw v))"

definition mac_host_ok :: "('h, 'k, 'p) mac_env \<Rightarrow> ('h \<Rightarrow> string \<Rightarrow> bytes option) \<Rightarrow> bool" where
  "mac_host_ok v disk = (host_files_ok v disk \<and> hdiutil_ok v disk \<and> keychain_ok v disk \<and> randomness_ok v disk \<and> agreement_ok v)"

lemma same_hostD: "same_host v disk h h' \<Longrightarrow> kc_get v h' = kc_get v h \<and> sk_search v h' = sk_search v h \<and> disk h' = disk h"
  by (simp add: same_host_def)

lemma same_host_trans: "same_host v disk h h1 \<Longrightarrow> same_host v disk h1 h2 \<Longrightarrow> same_host v disk h h2"
  by (simp add: same_host_def)

lemma generateD:
  assumes "randomness_ok v disk"
  shows "sk_generate v h = (h', Inl e) \<Longrightarrow> same_host v disk h h'"
    and "sk_generate v h = (h', Inr k) \<Longrightarrow> kc_get v h' = kc_get v h \<and> sk_search v h' = SeResults [Some k] \<and> disk h' = disk h"
  using assms unfolding randomness_ok_def by blast+

section \<open>Sealing\<close>

lemma seal_open:
  assumes a: "agreement_ok v" and pub: "se_public_key_bytes v key = Inr se_pub"
    and s: "se_seal v h se_pub secret = (h', Inr sealed)"
  shows "se_open v key sealed = Inr secret \<and> length sealed = SEALED_LEN \<and> (\<exists>r. sk_ephemeral v h = (h', r))"
proof -
  obtain pk where pk: "sk_public_key v key = Some pk" "sk_external v pk = Some se_pub"
    using pub by (auto simp: se_public_key_bytes_def result_eqs)
  obtain r where r: "sk_ephemeral v h = (h', r)" using s by (auto simp: se_seal_def Let_def split: prod.splits)
  obtain e pe epub peer shared where e: "r = Inr e" "sk_public_key v e = Some pe" "sk_external v pe = Some epub"
    "import_p256_public_key v se_pub = Inr peer" "sk_exchange v e peer = Inr shared" "length epub = P256_PUBLIC_LEN"
    and out: "sealed = epub @ kw_wrap (me_kw v) (se_derive_kek v shared epub se_pub) secret"
      "length (kw_wrap (me_kw v) (se_derive_kek v shared epub se_pub) secret) = SE_WRAPPED_LEN"
    using s r by (auto simp: se_seal_def result_eqs Let_def Option.bind_eq_Some_conv split: if_splits)
  have imp: "sk_import v b = Inr p" if "sk_external v p = Some b" for p b
    using a that unfolding agreement_ok_def by blast
  have "peer = pk" using e(4) imp[OF pk(2)] by (auto simp: import_p256_public_key_def split: if_splits)
  then have x: "sk_exchange v key pe = Inr shared" using a e(2,5) pk(1) unfolding agreement_ok_def by blast
  have "se_key_exchange v key epub = Inr shared" using x e(6) imp[OF e(3)]
    by (simp add: se_key_exchange_def import_p256_public_key_def)
  then show ?thesis using out e(6) pub a r
    by (simp add: se_open_def Let_def aes_kw_unwrap_def agreement_ok_def aes_kw_correct_def SEALED_LEN_def)
qed

lemma load_or_generate_found:
  assumes k: "randomness_ok v disk" and g: "se_load_or_generate v h = (h', Inr key)"
  shows "se_load v h' = Inr (Some key) \<and> kc_get v h' = kc_get v h \<and> disk h' = disk h"
proof -
  consider "se_load v h = Inr (Some key)" "h' = h" | "sk_generate v h = (h', Inr key)"
    using g by (auto simp: se_load_or_generate_def Let_def map_err_eq_Inr split: prod.splits sum.splits option.splits)
  then show ?thesis
  proof cases
    case 2
    then show ?thesis using generateD(2)[OF k 2] by (simp add: se_load_def)
  qed simp
qed

lemma load_or_generate_failed:
  assumes k: "randomness_ok v disk" and g: "se_load_or_generate v h = (h', Inl e)"
  shows "same_host v disk h h'"
proof -
  have "h' = h \<or> (\<exists>e. sk_generate v h = (h', Inl e))" using g
    by (auto simp: se_load_or_generate_def Let_def map_err_def split: prod.splits sum.splits option.splits)
  then show ?thesis using generateD(1)[OF k] by (auto simp: same_host_def)
qed

lemma mint_length:
  assumes k: "randomness_ok v disk" and m: "mint_passphrase v h = (h', r)"
  shows "same_host v disk h h'" "r = Inr pass \<Longrightarrow> length pass = 64"
proof -
  obtain x where x: "os_random v h = (h', x)" using m by (auto simp: mint_passphrase_def Let_def split: prod.splits)
  have h: "same_host v disk h h'" "\<And>e. x = Inr e \<Longrightarrow> length e = 32" using k x unfolding randomness_ok_def by blast+
  show "same_host v disk h h'" by (rule h(1))
  have "length (concat (map (\<lambda>b. [passphrase_digit (drop_bit 4 b), passphrase_digit (b AND 0x0F)]) e)) = 2 * length e" for e
    by (induction e) auto
  then show "length pass = 64" if "r = Inr pass" using m x h(2) that by (auto simp: mint_passphrase_def result_eqs)
qed

section \<open>The passphrase is the bundle's\<close>

lemma unwrap_same_host: "sk_search v h' = sk_search v h \<Longrightarrow> unwrap_stored v h' k = unwrap_stored v h k"
  by (cases k) (simp_all add: se_load_def)

lemma passphrase_same_host:
  assumes "kc_get v h' = kc_get v h" "sk_search v h' = sk_search v h"
  shows "passphrase_for_existing v h' c = passphrase_for_existing v h c"
proof -
  have l: "load_stored v h' c = load_stored v h c" by (simp add: load_stored_def assms(1))
  have u: "unwrap_stored v h' = unwrap_stored v h" using unwrap_same_host[OF assms(2)] by auto
  show ?thesis unfolding passphrase_for_existing_def l u ..
qed

lemma store_keyD:
  assumes "keychain_ok v disk" "store_key v h c k = (h', r)"
  shows "disk h' = disk h" "sk_search v h' = sk_search v h" "r = Inr () \<Longrightarrow> kc_get v h' = (kc_get v h)(key_account c := Some (stored_blob k))"
    "r \<noteq> Inr () \<Longrightarrow> kc_get v h' = kc_get v h"
proof -
  obtain x where x: "kc_set v h (key_account c) (stored_blob k) = (h', x)" "r = map_err KeychainSetFailed x"
    using assms(2) by (auto simp: store_key_def split: prod.splits)
  show "disk h' = disk h" "sk_search v h' = sk_search v h"
    "r = Inr () \<Longrightarrow> kc_get v h' = (kc_get v h)(key_account c := Some (stored_blob k))" "r \<noteq> Inr () \<Longrightarrow> kc_get v h' = kc_get v h"
    using assms(1) x unfolding keychain_ok_def same_host_def by (cases x; simp; blast)+
qed

lemma seal_or_plainD:
  assumes host: "randomness_ok v disk" "agreement_ok v" and s: "seal_or_plain v h custody pass = (h', r)"
  shows "disk h' = disk h" "kc_get v h' = kc_get v h"
    "r = Inr k \<Longrightarrow> length pass = 64 \<Longrightarrow>
      unwrap_stored v h' k = Inr pass \<and> (k = StoredPlain pass \<and> custody = AllowPlainFallback \<or> (\<exists>b. k = StoredSealed b \<and> length b = SEALED_LEN))"
proof -
  obtain h1 g where g: "se_load_or_generate v h = (h1, g)" by (cases "se_load_or_generate v h")
  have "disk h' = disk h \<and> kc_get v h' = kc_get v h \<and> (r = Inr k \<longrightarrow> length pass = 64 \<longrightarrow>
      unwrap_stored v h' k = Inr pass \<and> (k = StoredPlain pass \<and> custody = AllowPlainFallback \<or> (\<exists>b. k = StoredSealed b \<and> length b = SEALED_LEN)))"
  proof (cases g)
    case (Inl e)
    then have "same_host v disk h h1" using load_or_generate_failed[OF host(1)] g by blast
    then show ?thesis using s g Inl by (auto simp: seal_or_plain_def same_host_def split: custody.splits)
  next
    case (Inr key)
    note f = load_or_generate_found[OF host(1) g[unfolded Inr]]
    show ?thesis
    proof (cases "se_public_key_bytes v key")
      case (Inl e)
      then show ?thesis using s g Inr f by (auto simp: seal_or_plain_def)
    next
      case pub: (Inr se_pub)
      obtain h2 x where x: "se_seal v h1 se_pub pass = (h2, x)" by (cases "se_seal v h1 se_pub pass")
      then obtain y where "sk_ephemeral v h1 = (h2, y)" by (auto simp: se_seal_def Let_def split: prod.splits)
      then have sh: "same_host v disk h1 h2" using host(1) unfolding randomness_ok_def by blast
      have r: "h' = h2" "r = rbind x (\<lambda>s. Inr (StoredSealed s))" using s g Inr pub x by (simp_all add: seal_or_plain_def)
      have "se_load v h2 = se_load v h1" using sh by (simp add: se_load_def same_host_def)
      then show ?thesis using r f sh seal_open[OF host(2) pub] x by (auto simp: same_host_def result_eqs)
    qed
  qed
  then show "disk h' = disk h" "kc_get v h' = kc_get v h" "r = Inr k \<Longrightarrow> length pass = 64 \<Longrightarrow>
      unwrap_stored v h' k = Inr pass \<and> (k = StoredPlain pass \<and> custody = AllowPlainFallback \<or> (\<exists>b. k = StoredSealed b \<and> length b = SEALED_LEN))"
    by blast+
qed

lemma load_stored_blob:
  "kc_get v h (key_account c) = Some (stored_blob k) \<Longrightarrow>
   k = StoredPlain p \<and> length p = 64 \<or> (\<exists>b. k = StoredSealed b \<and> length b = SEALED_LEN) \<Longrightarrow> load_stored v h c = Inr (Some k)"
  by (auto simp: load_stored_def TAG_SEALED_def TAG_PLAIN_def)

lemma passphrase_for_newD:
  assumes host: "keychain_ok v disk" "randomness_ok v disk" "agreement_ok v"
    and p: "passphrase_for_new v h c custody = (h', r)"
  shows "disk h' = disk h" "r = Inr pass \<Longrightarrow> passphrase_for_existing v h' c = Inr pass"
    "kc_get v h' = kc_get v h \<or> (\<exists>k. kc_get v h' = (kc_get v h)(key_account c := Some (stored_blob k)) \<and>
       (custody = RequireHardware \<longrightarrow> (\<exists>b. k = StoredSealed b)))"
proof -
  consider (kept) "h' = h" "r = Inr pass \<Longrightarrow> passphrase_for_existing v h c = Inr pass"
    | (mint) h1 m where "mint_passphrase v h = (h1, Inl m)" "h' = h1" "\<exists>e. r = Inl e"
    | (sealed) h1 pw h2 s where "mint_passphrase v h = (h1, Inr pw)" "seal_or_plain v h1 custody pw = (h2, Inl s)" "h' = h2" "\<exists>e. r = Inl e"
    | (stored) h1 pw h2 k x where "mint_passphrase v h = (h1, Inr pw)" "seal_or_plain v h1 custody pw = (h2, Inr k)"
        "store_key v h2 c k = (h', x)" "r = (case x of Inl e \<Rightarrow> Inl e | Inr _ \<Rightarrow> Inr pw)"
    using p by (auto simp: passphrase_for_new_def passphrase_for_existing_def split: prod.splits sum.splits option.splits)
  then have "disk h' = disk h \<and> (r = Inr pass \<longrightarrow> passphrase_for_existing v h' c = Inr pass) \<and>
    (kc_get v h' = kc_get v h \<or> (\<exists>k. kc_get v h' = (kc_get v h)(key_account c := Some (stored_blob k)) \<and>
       (custody = RequireHardware \<longrightarrow> (\<exists>b. k = StoredSealed b))))"
  proof cases
    case kept
    then show ?thesis by auto
  next
    case mint
    then show ?thesis using mint_length(1)[OF host(2) mint(1)] by (auto simp: same_host_def)
  next
    case sealed
    then show ?thesis using mint_length(1)[OF host(2) sealed(1)] seal_or_plainD(1,2)[OF host(2,3) sealed(2)]
      by (auto simp: same_host_def)
  next
    case stored
    note m = mint_length[OF host(2) stored(1)]
    note sp = seal_or_plainD[OF host(2,3) stored(2)]
    note sk = store_keyD[OF host(1) stored(3)]
    have k: "unwrap_stored v h2 k = Inr pw" "k = StoredPlain pw \<and> custody = AllowPlainFallback \<or> (\<exists>b. k = StoredSealed b \<and> length b = SEALED_LEN)"
      using sp(3)[of k] m(2)[of pw] by simp_all
    have "passphrase_for_existing v h' c = Inr pw" if "x = Inr ()"
    proof -
      have "load_stored v h' c = Inr (Some k)"
        using load_stored_blob[of v h' c k pw] sk(3)[OF that] k(2) m(2)[of pw] by auto
      then show ?thesis using k(1) unwrap_same_host[OF sk(2)] by (simp add: passphrase_for_existing_def)
    qed
    moreover have "x = Inr () \<or> (\<exists>e. x = Inl e)" by (cases x) auto
    ultimately show ?thesis using m(1) sp(1,2) sk(1,3,4) k(2) stored(4) by (auto simp: same_host_def)
  qed
  then show "disk h' = disk h" "r = Inr pass \<Longrightarrow> passphrase_for_existing v h' c = Inr pass"
    "kc_get v h' = kc_get v h \<or> (\<exists>k. kc_get v h' = (kc_get v h)(key_account c := Some (stored_blob k)) \<and>
       (custody = RequireHardware \<longrightarrow> (\<exists>b. k = StoredSealed b)))" by blast+
qed

section \<open>The mount\<close>

datatype mac_op = MacAttach string | MacDetach | MacWipe

fun mac_apply :: "('h, 'k, 'p) mac_env \<Rightarrow> 'h \<times> mac_volume_mount \<Rightarrow> mac_op \<Rightarrow> 'h \<times> mac_volume_mount" where
  "mac_apply v (h, m) (MacAttach mp) = (let (h, m, _) = mac_attach v h m mp in (h, m))"
| "mac_apply v (h, m) MacDetach = (let (h, m, _) = mac_detach v h m in (h, m))"
| "mac_apply v (h, m) MacWipe = (let (h, m, _) = mac_request_wipe v h m in (h, m))"

text \<open>
  The passphrase the code finds for an existing bundle is the bundle's own, or there is none left; and
  the Keychain item of a disk that requires hardware is not a plain one.
\<close>

definition disk_opens :: "('h, 'k, 'p) mac_env \<Rightarrow> ('h \<Rightarrow> string \<Rightarrow> bytes option) \<Rightarrow> 'h \<Rightarrow> mac_volume_mount \<Rightarrow> bool" where
  "disk_opens v disk h m =
     (\<forall>pass. disk h (mm_bundle_path m) = Some pass \<longrightarrow>
        passphrase_for_existing v h (mm_container m) \<in> {Inr pass, Inl PassphraseMissing})"

definition never_plain :: "('h, 'k, 'p) mac_env \<Rightarrow> 'h \<Rightarrow> mac_volume_mount \<Rightarrow> bool" where
  "never_plain v h m =
     (mm_custody m = RequireHardware \<longrightarrow> (\<forall>b. kc_get v h (key_account (mm_container m)) \<noteq> Some (TAG_PLAIN # b)))"

lemma mac_host_okD:
  "mac_host_ok v disk \<Longrightarrow> host_files_ok v disk" "mac_host_ok v disk \<Longrightarrow> hdiutil_ok v disk"
  "mac_host_ok v disk \<Longrightarrow> keychain_ok v disk" "mac_host_ok v disk \<Longrightarrow> randomness_ok v disk" "mac_host_ok v disk \<Longrightarrow> agreement_ok v"
  by (simp_all add: mac_host_ok_def)

lemma run_hdiutilD:
  assumes "hdiutil_ok v disk" "run_hdiutil_with_passphrase v h (cmd # args) p pass = (h', r)"
  shows "kc_get v h' = kc_get v h" "sk_search v h' = sk_search v h"
    "disk h' = (if cmd = ''create'' \<and> r = Inr () then (disk h)(p := Some pass) else disk h)"
    "cmd = ''attach'' \<Longrightarrow> r = Inr () \<Longrightarrow> disk h p = Some pass"
proof -
  obtain x where x: "os_hdiutil v h (cmd # args @ [p]) pass = (h', x)" and r: "r = Inr () \<longleftrightarrow> (\<exists>e. x = Inr (True, e))"
    using assms(2) by (auto simp: run_hdiutil_with_passphrase_def split: prod.splits sum.splits if_splits)
  show "kc_get v h' = kc_get v h" "sk_search v h' = sk_search v h"
    "disk h' = (if cmd = ''create'' \<and> r = Inr () then (disk h)(p := Some pass) else disk h)"
    "cmd = ''attach'' \<Longrightarrow> r = Inr () \<Longrightarrow> disk h p = Some pass"
    using assms(1) x unfolding hdiutil_ok_def r by blast+
qed

lemma createD:
  assumes host: "host_files_ok v disk" "hdiutil_ok v disk" and c: "disk_bundle_create v h p sz pass = (h', r)"
  shows "kc_get v h' = kc_get v h" "sk_search v h' = sk_search v h"
    "disk h' = (if r = Inr () then (disk h)(p := Some pass) else disk h)"
proof -
  obtain h1 x where x: "(case path_parent p of None \<Rightarrow> (h, Inr ()) | Some parent \<Rightarrow> os_create_dir_all v h parent) = (h1, x)"
    by (cases "case path_parent p of None \<Rightarrow> (h, Inr ()) | Some parent \<Rightarrow> os_create_dir_all v h parent")
  have dir: "same_host v disk h (fst (os_create_dir_all v h q))" for q using host(1) unfolding host_files_ok_def by blast
  have h1: "same_host v disk h h1" using x dir[of "the (path_parent p)"] by (auto simp: same_host_def split: option.splits)
  consider "h' = h1" "\<exists>e. r = Inl e" | "run_hdiutil_with_passphrase v h1 (create_args sz) p pass = (h', r)"
    using c x by (cases x) (auto simp: disk_bundle_create_def)
  then show "kc_get v h' = kc_get v h" "sk_search v h' = sk_search v h"
    "disk h' = (if r = Inr () then (disk h)(p := Some pass) else disk h)"
  proof (atomize (full), cases)
    case 1
    then show "kc_get v h' = kc_get v h \<and> sk_search v h' = sk_search v h \<and>
        disk h' = (if r = Inr () then (disk h)(p := Some pass) else disk h)" using h1 by (auto simp: same_host_def)
  next
    case 2
    then show "kc_get v h' = kc_get v h \<and> sk_search v h' = sk_search v h \<and>
        disk h' = (if r = Inr () then (disk h)(p := Some pass) else disk h)"
      using run_hdiutilD(1-3)[OF host(2), of h1 "''create''" _ p pass h' r] h1 by (simp add: create_args_def same_host_def)
  qed
qed

lemma bundle_passphraseD:
  assumes host: "mac_host_ok v disk" and b: "bundle_passphrase v h m = (h', r)"
    and ok: "disk_opens v disk h m" "never_plain v h m"
  shows "disk_opens v disk h' m" "never_plain v h' m"
    "r = Inr pass \<Longrightarrow> disk h' (mm_bundle_path m) = Some pass \<and> passphrase_for_existing v h' (mm_container m) = Inr pass"
proof -
  note H = mac_host_okD[OF host]
  let ?p = "mm_bundle_path m" and ?c = "mm_container m"
  have ex: "os_exists v h ?p = (disk h ?p \<noteq> None)" using H(1) unfolding host_files_ok_def by blast
  have "disk_opens v disk h' m \<and> never_plain v h' m \<and>
    (r = Inr pass \<longrightarrow> disk h' ?p = Some pass \<and> passphrase_for_existing v h' ?c = Inr pass)"
  proof (cases "os_exists v h ?p")
    case True
    then show ?thesis using b ok ex by (auto simp: bundle_passphrase_def disk_opens_def)
  next
    case False
    then have none: "disk h ?p = None" using ex by simp
    obtain h1 x where x: "passphrase_for_new v h ?c (mm_custody m) = (h1, x)" by (cases "passphrase_for_new v h ?c (mm_custody m)")
    note n = passphrase_for_newD[OF H(3-5) x]
    have np: "never_plain v h1 m" using n(3) ok(2)
      by (auto simp: never_plain_def TAG_SEALED_def TAG_PLAIN_def)
    show ?thesis
    proof (cases x)
      case (Inl e)
      then show ?thesis using b False x n(1) np none by (auto simp: bundle_passphrase_def disk_opens_def)
    next
      case (Inr pw)
      obtain h2 y where y: "disk_bundle_create v h1 ?p (configured_size_mb v h1) pw = (h2, y)"
        by (cases "disk_bundle_create v h1 ?p (configured_size_mb v h1) pw")
      note c = createD[OF H(1,2) y]
      have pe: "passphrase_for_existing v h2 ?c = Inr pw" using n(2)[OF Inr] passphrase_same_host[OF c(1,2)] by simp
      have "h' = h2" "r = (case y of Inl e \<Rightarrow> Inl e | Inr _ \<Rightarrow> Inr pw)"
        using b False x Inr y by (auto simp: bundle_passphrase_def split: sum.splits)
      then show ?thesis using c n(1) none pe np by (auto simp: disk_opens_def never_plain_def split: sum.splits)
    qed
  qed
  then show "disk_opens v disk h' m" "never_plain v h' m"
    "r = Inr pass \<Longrightarrow> disk h' ?p = Some pass \<and> passphrase_for_existing v h' ?c = Inr pass" by blast+
qed

lemma same_host_opens:
  assumes "kc_get v h' = kc_get v h" "sk_search v h' = sk_search v h" "disk h' = disk h"
  shows "disk_opens v disk h' m = disk_opens v disk h m" "never_plain v h' m = never_plain v h m"
  using passphrase_same_host[OF assms(1,2)] assms by (simp_all add: disk_opens_def never_plain_def)

lemma mac_attachD:
  assumes host: "mac_host_ok v disk" and a: "mac_attach v h m mp = (h', m', r)"
    and ok: "disk_opens v disk h m" "never_plain v h m"
  shows "disk_opens v disk h' m" "never_plain v h' m" "\<exists>x. m' = m\<lparr>mm_mount_point := x\<rparr>"
    "\<not> is_attached v h mp \<Longrightarrow> r = Inr () \<Longrightarrow>
      \<exists>pass. disk h' (mm_bundle_path m) = Some pass \<and> passphrase_for_existing v h' (mm_container m) = Inr pass"
proof -
  have keep: "\<exists>x. m = m\<lparr>mm_mount_point := x\<rparr>" by (intro exI[of _ "mm_mount_point m"]) simp
  have "disk_opens v disk h' m \<and> never_plain v h' m \<and> (\<exists>x. m' = m\<lparr>mm_mount_point := x\<rparr>) \<and>
    (\<not> is_attached v h mp \<longrightarrow> r = Inr () \<longrightarrow>
      (\<exists>pass. disk h' (mm_bundle_path m) = Some pass \<and> passphrase_for_existing v h' (mm_container m) = Inr pass))"
  proof (cases "is_attached v h mp")
    case True
    then show ?thesis using a ok by (auto simp: mac_attach_def)
  next
    case False
    obtain h1 x where x: "bundle_passphrase v h m = (h1, x)" by (cases "bundle_passphrase v h m")
    note b = bundle_passphraseD[OF host x ok]
    show ?thesis
    proof (cases x)
      case (Inl e)
      then show ?thesis using a False x b keep by (auto simp: mac_attach_def)
    next
      case (Inr pw)
      obtain h2 y where y: "disk_bundle_attach v h1 (mm_bundle_path m) mp pw = (h2, y)"
        by (cases "disk_bundle_attach v h1 (mm_bundle_path m) mp pw")
      have run: "run_hdiutil_with_passphrase v h1 (''attach'' # [''-nobrowse'', ''-mountpoint'', mp, ''-stdinpass'']) (mm_bundle_path m) pw = (h2, y)"
        using y by (simp add: disk_bundle_attach_def attach_args_def)
      note same = run_hdiutilD(1-3)[OF mac_host_okD(2)[OF host] run]
      have d: "disk h2 = disk h1" using same(3) by simp
      have "h' = h2" "m' = m \<or> m' = m\<lparr>mm_mount_point := Some mp\<rparr>"
        using a False x Inr y by (auto simp: mac_attach_def split: sum.splits)
      then show ?thesis
        using b(1,2) b(3)[OF Inr] same_host_opens[OF same(1,2) d] passphrase_same_host[OF same(1,2)] d keep by auto
    qed
  qed
  then show "disk_opens v disk h' m" "never_plain v h' m" "\<exists>x. m' = m\<lparr>mm_mount_point := x\<rparr>"
    "\<not> is_attached v h mp \<Longrightarrow> r = Inr () \<Longrightarrow>
      \<exists>pass. disk h' (mm_bundle_path m) = Some pass \<and> passphrase_for_existing v h' (mm_container m) = Inr pass" by blast+
qed

lemma mac_detachD:
  assumes host: "mac_host_ok v disk" and a: "mac_detach v h m = (h', m', r)"
  shows "kc_get v h' = kc_get v h \<and> sk_search v h' = sk_search v h \<and> disk h' = disk h" "m' = m\<lparr>mm_mount_point := None\<rparr>"
proof -
  have hd: "kc_get v h2 = kc_get v h \<and> sk_search v h2 = sk_search v h \<and> disk h2 = disk h"
    if "os_hdiutil v h [''detach'', mp] [] = (h2, x)" for mp h2 x
  proof -
    have "os_hdiutil v h (''detach'' # [] @ [mp]) [] = (h2, x)" using that by simp
    then have "kc_get v h2 = kc_get v h \<and> sk_search v h2 = sk_search v h \<and>
        disk h2 = (if ''detach'' = ''create'' \<and> (\<exists>e. x = Inr (True, e)) then (disk h)(mp := Some []) else disk h)"
      using mac_host_okD(2)[OF host] unfolding hdiutil_ok_def by blast
    then show ?thesis by simp
  qed
  show "kc_get v h' = kc_get v h \<and> sk_search v h' = sk_search v h \<and> disk h' = disk h"
    using a hd by (auto simp: mac_detach_def disk_bundle_detach_def Let_def split: option.splits prod.splits sum.splits)
  show "m' = m\<lparr>mm_mount_point := None\<rparr>" using a by (auto simp: mac_detach_def Let_def split: option.splits prod.splits)
qed

lemma mac_wipeD:
  assumes host: "mac_host_ok v disk" and w: "mac_request_wipe v h m = (h', m', r)"
  shows "m' = m\<lparr>mm_mount_point := None\<rparr>"
    and "snd (snd (mac_detach v h m)) = Inl e \<Longrightarrow> r = Inl e \<and> kc_get v h' = kc_get v h \<and> sk_search v h' = sk_search v h \<and> disk h' = disk h"
    and "snd (snd (mac_detach v h m)) = Inr x \<Longrightarrow> kc_get v h' = (kc_get v h)(key_account (mm_container m) := None) \<and>
      (disk h' = (disk h)(mm_bundle_path m := None) \<or> disk h' = disk h \<and> r \<noteq> Inr ())"
proof -
  obtain h1 y where d: "mac_detach v h m = (h1, m\<lparr>mm_mount_point := None\<rparr>, y)"
    using mac_detachD(2)[OF host] by (metis prod_cases3)
  note same = mac_detachD(1)[OF host d]
  let ?p = "mm_bundle_path m"
  define h2 where "h2 = kc_delete v h1 (key_account (mm_container m))"
  have kc: "kc_get v h2 = (kc_get v h1)(key_account (mm_container m) := None)" "disk h2 = disk h1"
    using mac_host_okD(3)[OF host] unfolding keychain_ok_def h2_def by blast+
  have ex: "os_exists v h2 ?p = (disk h2 ?p \<noteq> None)" using mac_host_okD(1)[OF host] unfolding host_files_ok_def by blast
  have rm: "kc_get v h3 = kc_get v h2 \<and> (disk h3 = (disk h2)(?p := None) \<or> disk h3 = disk h2 \<and> z \<noteq> Inr ())"
    if "os_remove_dir_all v h2 ?p = (h3, z)" for h3 z
    using mac_host_okD(1)[OF host] that unfolding host_files_ok_def same_host_def by (cases z) auto
  show "m' = m\<lparr>mm_mount_point := None\<rparr>"
    using w d by (auto simp: mac_request_wipe_def Let_def split: sum.splits if_splits prod.splits)
  show "r = Inl e \<and> kc_get v h' = kc_get v h \<and> sk_search v h' = sk_search v h \<and> disk h' = disk h"
    if "snd (snd (mac_detach v h m)) = Inl e" using w d that same by (simp add: mac_request_wipe_def)
  show "kc_get v h' = (kc_get v h)(key_account (mm_container m) := None) \<and>
      (disk h' = (disk h)(?p := None) \<or> disk h' = disk h \<and> r \<noteq> Inr ())" if i: "snd (snd (mac_detach v h m)) = Inr x"
  proof (cases "os_exists v h2 ?p")
    case True
    obtain h3 z where z: "os_remove_dir_all v h2 ?p = (h3, z)" by (cases "os_remove_dir_all v h2 ?p")
    then have "h' = h3" "r = map_err OsError z" using w d i True by (simp_all add: mac_request_wipe_def Let_def h2_def)
    then show ?thesis using rm[OF z] kc same by (cases z) auto
  next
    case False
    then have "h' = h2" "r = Inr ()" using w d i by (simp_all add: mac_request_wipe_def Let_def h2_def)
    moreover have "(disk h)(?p := None) = disk h" using False ex kc same by auto
    ultimately show ?thesis using kc same by simp
  qed
qed

lemma load_stored_None: "kc_get v h (key_account c) = None \<Longrightarrow> load_stored v h c = Inr None"
  by (simp add: load_stored_def)

lemma mac_step_ok:
  assumes host: "mac_host_ok v disk" and ok: "disk_opens v disk h m" "never_plain v h m"
    and s: "mac_apply v (h, m) op = (h', m')"
  shows "disk_opens v disk h' m'" "never_plain v h' m'" "\<exists>x. m' = m\<lparr>mm_mount_point := x\<rparr>"
proof -
  have mp: "disk_opens v disk k (m\<lparr>mm_mount_point := x\<rparr>) = disk_opens v disk k m"
    "never_plain v k (m\<lparr>mm_mount_point := x\<rparr>) = never_plain v k m" for k x by (simp_all add: disk_opens_def never_plain_def)
  have "disk_opens v disk h' m \<and> never_plain v h' m \<and> (\<exists>x. m' = m\<lparr>mm_mount_point := x\<rparr>)"
  proof (cases op)
    case (MacAttach p)
    then obtain r where "mac_attach v h m p = (h', m', r)" using s by (auto split: prod.splits)
    then show ?thesis using mac_attachD(1-3)[OF host _ ok] by blast
  next
    case MacDetach
    then obtain r where d: "mac_detach v h m = (h', m', r)" using s by (auto split: prod.splits)
    note D = mac_detachD[OF host d]
    then show ?thesis using same_host_opens[of v h' h disk m] ok by auto
  next
    case MacWipe
    then obtain r where w: "mac_request_wipe v h m = (h', m', r)" using s by (auto split: prod.splits)
    note W = mac_wipeD[OF host w]
    show ?thesis
    proof (cases "snd (snd (mac_detach v h m))")
      case (Inl e)
      then show ?thesis using W(1) W(2)[OF Inl] same_host_opens[of v h' h disk m] ok by auto
    next
      case (Inr x)
      then have "kc_get v h' (key_account (mm_container m)) = None" using W(3) by simp
      then show ?thesis using W(1) load_stored_None[of v h']
        by (auto simp: disk_opens_def never_plain_def passphrase_for_existing_def)
    qed
  qed
  then show "disk_opens v disk h' m'" "never_plain v h' m'" "\<exists>x. m' = m\<lparr>mm_mount_point := x\<rparr>" using mp by auto
qed

text \<open>
  (C28) The macOS disk opens with its own passphrase. On a host as documented, idealised in that the key
  agreement of the Enclave never fails on opening and that a path exists exactly when a bundle is there, starting where nothing is
  stored and no bundle exists, over any sequence of attaching, detaching and wiping: whenever the bundle
  exists, the passphrase the code finds is the one it was created with, or none is left, never another;
  and a disk that requires hardware custody never has a plain passphrase in the Keychain.
\<close>

theorem mac_disk_opens:
  assumes "mac_host_ok v disk" "disk h path = None" "kc_get v h (key_account c) = None"
    and "foldl (mac_apply v) (h, mac_volume_new c path custody) ops = (h', m')"
  shows "(\<forall>pass. disk h' path = Some pass \<longrightarrow> passphrase_for_existing v h' c \<in> {Inr pass, Inl PassphraseMissing}) \<and>
    (custody = RequireHardware \<longrightarrow> (\<forall>b. kc_get v h' (key_account c) \<noteq> Some (TAG_PLAIN # b)))"
proof -
  have "disk_opens v disk h' m' \<and> never_plain v h' m' \<and> (\<exists>x. m' = m\<lparr>mm_mount_point := x\<rparr>)"
    if "disk_opens v disk h m" "never_plain v h m" "foldl (mac_apply v) (h, m) ops = (h', m')" for h m
    using that
  proof (induction ops arbitrary: h m)
    case Nil
    then show ?case by (auto intro: exI[of _ "mm_mount_point m"])
  next
    case (Cons op ops)
    obtain h1 m1 where s: "mac_apply v (h, m) op = (h1, m1)" by (cases "mac_apply v (h, m) op")
    note step = mac_step_ok[OF assms(1) Cons.prems(1,2) s]
    then show ?case using Cons.IH[OF step(1,2)] Cons.prems(3) s by auto
  qed
  moreover have "disk_opens v disk h (mac_volume_new c path custody)" "never_plain v h (mac_volume_new c path custody)"
    using assms(2,3) by (simp_all add: disk_opens_def never_plain_def mac_volume_new_def)
  ultimately have "disk_opens v disk h' m' \<and> never_plain v h' m' \<and> (\<exists>x. m' = (mac_volume_new c path custody)\<lparr>mm_mount_point := x\<rparr>)"
    using assms(4) by blast
  then show ?thesis by (auto simp: disk_opens_def never_plain_def mac_volume_new_def)
qed

text \<open>
  Wiping the macOS disk. When the volume detaches, the wipe removes the passphrase from the Keychain
  and, unless an error is returned, the bundle. When detaching fails, for instance because a file is
  open, the wipe stops there: passphrase and bundle are kept, and the mount is forgotten.
\<close>

theorem mac_wipe_exact:
  assumes "mac_host_ok v disk" "mac_request_wipe v h m = (h', m', r)"
  shows "mm_mount_point m' = None \<and>
    (case snd (snd (mac_detach v h m)) of
       Inl e \<Rightarrow> r = Inl e \<and> kc_get v h' = kc_get v h \<and> disk h' = disk h
     | Inr _ \<Rightarrow> load_stored v h' (mm_container m) = Inr None \<and> (if r = Inr () then disk h' (mm_bundle_path m) = None else True))"
proof (cases "snd (snd (mac_detach v h m))")
  case (Inl e)
  then show ?thesis using mac_wipeD(1)[OF assms] mac_wipeD(2)[OF assms Inl] by simp
next
  case (Inr x)
  then show ?thesis using mac_wipeD(1)[OF assms] mac_wipeD(3)[OF assms Inr] load_stored_None[of v h'] by auto
qed

section \<open>A concrete host\<close>

record demo_host =
  dh_keychain :: "string \<Rightarrow> bytes option"
  dh_disks :: "string \<Rightarrow> bytes option"
  dh_se_key :: bool
  dh_busy :: bool

datatype demo_key = SeKey | EphemeralKey

definition demo_public :: "demo_key \<Rightarrow> bytes" where
  "demo_public k = (if k = SeKey then 1 else 2) # replicate 64 0"

definition demo_hdiutil :: "demo_host \<Rightarrow> string list \<Rightarrow> bytes \<Rightarrow> demo_host \<times> (string + bool \<times> string)" where
  "demo_hdiutil h args pass =
     (if hd args = ''create'' then (h\<lparr>dh_disks := (dh_disks h)(last args := Some pass)\<rparr>, Inr (True, []))
      else if hd args = ''attach'' then (h, Inr (dh_disks h (last args) = Some pass, []))
      else (h, Inr (\<not> dh_busy h, [])))"

definition demo_mac_env :: "(demo_host, demo_key, demo_key) mac_env" where
  "demo_mac_env =
     \<lparr>os_var = (\<lambda>_ _. None), os_random = (\<lambda>h. (h, Inr (replicate 32 7))),
      os_exists = (\<lambda>h p. dh_disks h p \<noteq> None), os_create_dir_all = (\<lambda>h _. (h, Inr ())),
      os_remove_dir_all = (\<lambda>h p. (h\<lparr>dh_disks := (dh_disks h)(p := None)\<rparr>, Inr ())),
      os_hdiutil = demo_hdiutil, os_diskutil_info = (\<lambda>_ _. Inr False),
      kc_get = dh_keychain, kc_set = (\<lambda>h a s. (h\<lparr>dh_keychain := (dh_keychain h)(a := Some s)\<rparr>, Inr ())),
      kc_delete = (\<lambda>h a. h\<lparr>dh_keychain := (dh_keychain h)(a := None)\<rparr>),
      sk_search = (\<lambda>h. if dh_se_key h then SeResults [Some SeKey] else SeItemNotFound),
      sk_generate = (\<lambda>h. (h\<lparr>dh_se_key := True\<rparr>, Inr SeKey)), sk_ephemeral = (\<lambda>h. (h, Inr EphemeralKey)),
      sk_public_key = Some, sk_external = (\<lambda>k. Some (demo_public k)),
      sk_import = (\<lambda>b. Inr (if b = demo_public SeKey then SeKey else EphemeralKey)),
      sk_exchange = (\<lambda>_ _. Inr [9]), me_sha = (\<lambda>_. replicate 32 0),
      me_kw = \<lparr>kw_wrap = (\<lambda>_ d. d @ replicate 8 0), kw_unwrap = (\<lambda>_ w. Some (take (length w - 8) w))\<rparr>\<rparr>"

lemma demo_host_ok: "mac_host_ok demo_mac_env dh_disks"
  unfolding mac_host_ok_def
proof (intro conjI)
  show "host_files_ok demo_mac_env dh_disks" by (simp add: host_files_ok_def demo_mac_env_def same_host_def)
  show "hdiutil_ok demo_mac_env dh_disks" by (auto simp: hdiutil_ok_def demo_mac_env_def demo_hdiutil_def)
  show "keychain_ok demo_mac_env dh_disks" by (auto simp: keychain_ok_def demo_mac_env_def same_host_def)
  show "randomness_ok demo_mac_env dh_disks" by (auto simp: randomness_ok_def demo_mac_env_def same_host_def)
  have "demo_public EphemeralKey \<noteq> demo_public SeKey" by (simp add: demo_public_def)
  then have "(if demo_public p = demo_public SeKey then SeKey else EphemeralKey) = p" for p by (cases p) auto
  then show "agreement_ok demo_mac_env" by (auto simp: agreement_ok_def demo_mac_env_def aes_kw_correct_def)
qed

abbreviation "demo_host0 \<equiv> \<lparr>dh_keychain = (\<lambda>_. None), dh_disks = (\<lambda>_. None), dh_se_key = False, dh_busy = False\<rparr>"

lemma demo_mac_env_simps:
  "os_hdiutil demo_mac_env = demo_hdiutil" "os_create_dir_all demo_mac_env h p = (h, Inr ())"
  "os_exists demo_mac_env h p = (dh_disks h p \<noteq> None)" "is_attached demo_mac_env h p = False"
  by (simp_all add: demo_mac_env_def is_attached_def)

lemma demo_attach_creates:
  assumes "dh_disks h (mm_bundle_path m) = None" "passphrase_for_new demo_mac_env h (mm_container m) (mm_custody m) = (h1, Inr pw)"
  shows "dh_disks (fst (mac_attach demo_mac_env h m mp)) (mm_bundle_path m) = Some pw"
  using assms by (simp add: mac_attach_def bundle_passphrase_def disk_bundle_create_def disk_bundle_attach_def
      run_hdiutil_with_passphrase_def demo_mac_env_simps demo_hdiutil_def create_args_def attach_args_def
      split: option.splits)

lemma demo_passphrase: "\<exists>h1 pw. passphrase_for_new demo_mac_env demo_host0 5 RequireHardware = (h1, Inr pw)"
proof -
  obtain pw where m: "mint_passphrase demo_mac_env demo_host0 = (demo_host0, Inr pw)"
    by (simp add: mint_passphrase_def demo_mac_env_def)
  then have l: "length pw = 64" using mint_length(2)[OF mac_host_okD(4)[OF demo_host_ok]] by blast
  have g: "se_load_or_generate demo_mac_env demo_host0 = (demo_host0\<lparr>dh_se_key := True\<rparr>, Inr SeKey)"
    by (simp add: se_load_or_generate_def se_load_def demo_mac_env_def)
  have p: "se_public_key_bytes demo_mac_env SeKey = Inr (demo_public SeKey)"
    by (simp add: se_public_key_bytes_def demo_mac_env_def)
  have "\<exists>b. se_seal demo_mac_env h (demo_public SeKey) pw = (h, Inr b)" for h
    using l by (simp add: se_seal_def demo_mac_env_def import_p256_public_key_def demo_public_def P256_PUBLIC_LEN_def
        SE_WRAPPED_LEN_def Let_def)
  then obtain b where "seal_or_plain demo_mac_env demo_host0 RequireHardware pw = (demo_host0\<lparr>dh_se_key := True\<rparr>, Inr (StoredSealed b))"
    using g p by (metis (no_types, lifting) case_prod_conv prod.case rbind_simps(2) seal_or_plain_def sum.case(2))
  then show ?thesis using m
    by (simp add: passphrase_for_new_def load_stored_def store_key_def demo_mac_env_def)
qed

lemma mac_disk_opens_witness:
  "case foldl (mac_apply demo_mac_env) (demo_host0, mac_volume_new 5 ''/d/b'' RequireHardware) [MacAttach ''/Volumes/C''] of
     (h, m) \<Rightarrow> \<exists>pw. dh_disks h ''/d/b'' = Some pw \<and> passphrase_for_existing demo_mac_env h 5 \<in> {Inr pw, Inl PassphraseMissing}"
proof -
  obtain h m where r: "foldl (mac_apply demo_mac_env) (demo_host0, mac_volume_new 5 ''/d/b'' RequireHardware) [MacAttach ''/Volumes/C''] = (h, m)"
    by (cases "foldl (mac_apply demo_mac_env) (demo_host0, mac_volume_new 5 ''/d/b'' RequireHardware) [MacAttach ''/Volumes/C'']")
  obtain h1 pw where "passphrase_for_new demo_mac_env demo_host0 5 RequireHardware = (h1, Inr pw)" using demo_passphrase by blast
  then have "dh_disks (fst (mac_attach demo_mac_env demo_host0 (mac_volume_new 5 ''/d/b'' RequireHardware) ''/Volumes/C'')) ''/d/b'' = Some pw"
    using demo_attach_creates[of demo_host0 "mac_volume_new 5 ''/d/b'' RequireHardware"] by (simp add: mac_volume_new_def)
  then have "dh_disks h ''/d/b'' = Some pw" using r by (auto split: prod.splits)
  moreover have "kc_get demo_mac_env demo_host0 (key_account 5) = None" by (simp add: demo_mac_env_def)
  ultimately show ?thesis using mac_disk_opens[OF demo_host_ok _ _ r] r by simp
qed

lemma mac_wipe_exact_witness:
  "\<exists>h. mac_request_wipe demo_mac_env (demo_host0\<lparr>dh_disks := [''/d/b'' \<mapsto> [1]], dh_busy := True\<rparr>)
     ((mac_volume_new 5 ''/d/b'' RequireHardware)\<lparr>mm_mount_point := Some ''/Volumes/C''\<rparr>) =
       (h, mac_volume_new 5 ''/d/b'' RequireHardware, Inl (DetachFailed [])) \<and> dh_disks h ''/d/b'' = Some [1]"
proof -
  let ?h = "demo_host0\<lparr>dh_disks := [''/d/b'' \<mapsto> [1]], dh_busy := True\<rparr>"
  let ?m = "(mac_volume_new 5 ''/d/b'' RequireHardware)\<lparr>mm_mount_point := Some ''/Volumes/C''\<rparr>"
  obtain h m r where w: "mac_request_wipe demo_mac_env ?h ?m = (h, m, r)" by (metis prod_cases3)
  have d: "snd (snd (mac_detach demo_mac_env ?h ?m)) = Inl (DetachFailed [])" by code_simp
  have "m = ?m\<lparr>mm_mount_point := None\<rparr>" using mac_wipeD(1)[OF demo_host_ok w] .
  then show ?thesis using mac_wipe_exact[OF demo_host_ok w] d w by (simp add: mac_volume_new_def)
qed

end
