(* ===== verification/Clip_Guard.thy ===== *)
theory Clip_Guard
  imports Daemon_Props
begin

text \<open>
  The clipboard guards of the two platforms (\<open>clipboard.rs\<close> of \<open>clave-mac\<close> and \<open>clave-win\<close>, started
  by \<open>spawn_clipboard_guard\<close> of \<open>mac_main.rs\<close> and \<open>win_main.rs\<close>): the guard that tags a payload a
  work application copied, the driver that polls the clipboard, and the classification of the
  formats. The pasteboard, the foreground window and the Win32 clipboard calls are the functions of
  \<open>mac_pasteboard\<close> and \<open>win_clipboard\<close>. One turn of the polling loop is one step: it reads the
  state of the host once and one clock value. The locale \<open>front_guard\<close> is what the loop relies on;
  both guards are interpreted in it, and the theorem on runs is proved from it.
\<close>

section \<open>The guard\<close>

datatype guard_action = GuardNothing | ClearPasteboard

text \<open>The change count is an \<open>i64\<close> that is only compared.\<close>

record tagged =
  tg_change_count :: int
  tg_formats :: "clip_format list"

type_synonym clipboard_guard = "tagged option"

definition guard_new :: clipboard_guard where
  "guard_new = None"

definition holds_work_payload :: "clipboard_guard \<Rightarrow> bool" where
  "holds_work_payload g = (g \<noteq> None)"

definition on_copy :: "clipboard_guard \<Rightarrow> int \<Rightarrow> zone \<Rightarrow> clip_format list \<Rightarrow> clipboard_guard" where
  "on_copy g change_count copied_by formats =
     (case copied_by of
        Work \<Rightarrow> Some \<lparr>tg_change_count = change_count, tg_formats = formats\<rparr>
      | Personal \<Rightarrow> None)"

text \<open>
  \<open>decide\<close> is a closure with effects, a function on a state. On macOS every format is decided before
  the decisions are looked at; on Windows the iterator stops at the first that is not allowed.
\<close>

type_synonym 's clip_decide = "'s \<Rightarrow> zone \<Rightarrow> zone \<Rightarrow> clip_format \<Rightarrow> 's \<times> decision"

fun decide_formats :: "'s clip_decide \<Rightarrow> 's \<Rightarrow> clip_format list \<Rightarrow> 's \<times> decision list" where
  "decide_formats dec s [] = (s, [])"
| "decide_formats dec s (fmt # fmts) =
     (let (s, d) = dec s Work Personal fmt; (s, ds) = decide_formats dec s fmts in (s, d # ds))"

definition mac_on_front ::
  "'s clip_decide \<Rightarrow> clipboard_guard \<Rightarrow> zone \<Rightarrow> int \<Rightarrow> 's \<Rightarrow> clipboard_guard \<times> 's \<times> guard_action" where
  "mac_on_front dec g front change_count s =
     (if front = Work then (g, s, GuardNothing)
      else case g of
             None \<Rightarrow> (None, s, GuardNothing)
           | Some t \<Rightarrow>
               if tg_change_count t \<noteq> change_count then (None, s, GuardNothing)
               else let (s, decisions) = decide_formats dec s (tg_formats t)
                    in if list_ex (\<lambda>d. d \<noteq> Allow) decisions then (None, s, ClearPasteboard)
                       else (Some t, s, GuardNothing))"

fun denied_format :: "'s clip_decide \<Rightarrow> 's \<Rightarrow> clip_format list \<Rightarrow> 's \<times> bool" where
  "denied_format dec s [] = (s, False)"
| "denied_format dec s (fmt # fmts) =
     (let (s, d) = dec s Work Personal fmt in if d \<noteq> Allow then (s, True) else denied_format dec s fmts)"

definition win_on_front ::
  "'s clip_decide \<Rightarrow> clipboard_guard \<Rightarrow> zone \<Rightarrow> int \<Rightarrow> 's \<Rightarrow> clipboard_guard \<times> 's \<times> guard_action" where
  "win_on_front dec g front change_count s =
     (if front = Work then (g, s, GuardNothing)
      else case g of
             None \<Rightarrow> (None, s, GuardNothing)
           | Some t \<Rightarrow>
               if tg_change_count t \<noteq> change_count then (None, s, GuardNothing)
               else let (s, denied) = denied_format dec s (tg_formats t)
                    in if denied then (None, s, ClearPasteboard) else (Some t, s, GuardNothing))"

section \<open>The drivers\<close>

text \<open>What the loop asks of the host: the frontmost process, the change count, the formats, the clearing.\<close>

record 'h clip_os =
  co_front :: "'h \<Rightarrow> u32 option"
  co_count :: "'h \<Rightarrow> int"
  co_formats :: "'h \<Rightarrow> clip_format list"
  co_clear :: "'h \<Rightarrow> 'h \<times> int"

definition frontmost_zone :: "zone_registry \<Rightarrow> u32 option \<Rightarrow> zone" where
  "frontmost_zone zones pid =
     (case pid of Some p \<Rightarrow> if p \<in> set (supervised_pids zones) then Work else Personal | None \<Rightarrow> Personal)"

definition guard_poll ::
  "'h clip_os \<Rightarrow> (clipboard_guard \<Rightarrow> zone \<Rightarrow> int \<Rightarrow> 's \<Rightarrow> clipboard_guard \<times> 's \<times> guard_action) \<Rightarrow> zone_registry
     \<Rightarrow> 'h \<times> clipboard_guard \<times> int \<times> 's \<Rightarrow> 'h \<times> clipboard_guard \<times> int \<times> 's \<times> guard_action" where
  "guard_poll os on_front zones st =
     (let (h, guard, last_count, s) = st;
          front = frontmost_zone zones (co_front os h);
          count = co_count os h;
          (guard, last_count) =
            (if count \<noteq> last_count then (on_copy guard count front (co_formats os h), count)
             else (guard, last_count));
          (guard, s, act) = on_front guard front count s
      in if act = ClearPasteboard then (let (h, last_count) = co_clear os h in (h, guard, last_count, s, act))
         else (h, guard, last_count, s, act))"

definition push_new :: "clip_format list \<Rightarrow> clip_format \<Rightarrow> clip_format list" where
  "push_new out fmt = (if fmt \<in> set out then out else out @ [fmt])"

subsection \<open>macOS\<close>

definition classify_uti :: "string \<Rightarrow> clip_format" where
  "classify_uti uti =
     (if uti \<in> set [''public.utf8-plain-text'', ''public.plain-text'', ''NSStringPboardType''] then PlainText
      else if uti \<in> set [''public.rtf'', ''NeXT Rich Text Format v1.0 pasteboard type''] then RichText
      else if uti \<in> set [''public.html'', ''Apple HTML pasteboard type''] then Html
      else if uti \<in> set [''public.tiff'', ''public.png'', ''public.jpeg'', ''NSTIFFPboardType''] then Image
      else if uti \<in> set [''public.file-url'', ''NSFilenamesPboardType''] then Files
      else OtherFormat)"

text \<open>\<open>types\<close> is \<open>None\<close> for nil, an element \<open>None\<close> for a name that has no UTF-8 form.\<close>

definition mac_formats :: "string option list option \<Rightarrow> clip_format list" where
  "mac_formats types =
     (case types of
        None \<Rightarrow> []
      | Some ts \<Rightarrow> foldl (\<lambda>out t. case t of None \<Rightarrow> out | Some uti \<Rightarrow> push_new out (classify_uti uti)) [] ts)"

record 'h mac_pasteboard =
  mp_frontmost :: "'h \<Rightarrow> int option"
  mp_change_count :: "'h \<Rightarrow> int"
  mp_types :: "'h \<Rightarrow> string option list option"
  mp_clear_contents :: "'h \<Rightarrow> 'h \<times> int"

definition frontmost_pid :: "'h mac_pasteboard \<Rightarrow> 'h \<Rightarrow> u32 option" where
  "frontmost_pid pb h =
     (case mp_frontmost pb h of None \<Rightarrow> None | Some pid \<Rightarrow> if 0 \<le> pid then Some (word_of_int pid) else None)"

definition mac_clip_os :: "'h mac_pasteboard \<Rightarrow> 'h clip_os" where
  "mac_clip_os pb =
     \<lparr>co_front = frontmost_pid pb, co_count = mp_change_count pb,
      co_formats = (\<lambda>h. mac_formats (mp_types pb h)), co_clear = mp_clear_contents pb\<rparr>"

subsection \<open>Windows\<close>

definition CF_TEXT :: u32 where "CF_TEXT = 1"
definition CF_BITMAP :: u32 where "CF_BITMAP = 2"
definition CF_DIB :: u32 where "CF_DIB = 8"
definition CF_UNICODETEXT :: u32 where "CF_UNICODETEXT = 13"
definition CF_HDROP :: u32 where "CF_HDROP = 15"
definition CF_DIBV5 :: u32 where "CF_DIBV5 = 17"

definition classify_format :: "u32 \<Rightarrow> u32 \<Rightarrow> u32 \<Rightarrow> clip_format" where
  "classify_format fmt html rtf =
     (if fmt \<in> set [CF_UNICODETEXT, CF_TEXT] then PlainText
      else if fmt = CF_HDROP then Files
      else if fmt \<in> set [CF_BITMAP, CF_DIB, CF_DIBV5] then Image
      else if html \<noteq> 0 \<and> fmt = html then Html
      else if rtf \<noteq> 0 \<and> fmt = rtf then RichText
      else OtherFormat)"

text \<open>
  \<open>wc_window_pid\<close> is \<open>None\<close> without a foreground window. \<open>wc_enum\<close> lists what repeated calls of
  \<open>EnumClipboardFormats\<close> return before zero, \<open>wc_register\<close> the ids of the two named formats.
\<close>

record 'h win_clipboard =
  wc_window_pid :: "'h \<Rightarrow> u32 option"
  wc_sequence :: "'h \<Rightarrow> u32"
  wc_open :: "'h \<Rightarrow> bool"
  wc_enum :: "'h \<Rightarrow> u32 list"
  wc_register :: "u32 \<times> u32"
  wc_empty :: "'h \<Rightarrow> 'h"

definition foreground_pid :: "'h win_clipboard \<Rightarrow> 'h \<Rightarrow> u32 option" where
  "foreground_pid wc h =
     (case wc_window_pid wc h of None \<Rightarrow> None | Some pid \<Rightarrow> if pid \<noteq> 0 then Some pid else None)"

definition win_sequence :: "'h win_clipboard \<Rightarrow> 'h \<Rightarrow> int" where
  "win_sequence wc h = uint (wc_sequence wc h)"

definition win_formats :: "'h win_clipboard \<Rightarrow> 'h \<Rightarrow> clip_format list" where
  "win_formats wc h =
     (if \<not> wc_open wc h then []
      else let (html, rtf) = wc_register wc
           in foldl (\<lambda>out fmt. push_new out (classify_format fmt html rtf)) [] (wc_enum wc h))"

definition clear_clipboard :: "'h win_clipboard \<Rightarrow> 'h \<Rightarrow> 'h" where
  "clear_clipboard wc h = (if wc_open wc h then wc_empty wc h else h)"

definition win_clip_os :: "'h win_clipboard \<Rightarrow> 'h clip_os" where
  "win_clip_os wc =
     \<lparr>co_front = foreground_pid wc, co_count = win_sequence wc, co_formats = win_formats wc,
      co_clear = (\<lambda>h. let h' = clear_clipboard wc h in (h', win_sequence wc h'))\<rparr>"

subsection \<open>The daemon's decision\<close>

definition clip_dec :: "('k, 'b, 't) daemon_env \<Rightarrow> unix_time \<Rightarrow> ('k, 'b, 't) daemon clip_decide" where
  "clip_dec v now d src dst fmt =
     (let (d, verdict) = decide_action v d (ClipboardTransfer src dst fmt) now in (d, vd_decision verdict))"

section \<open>What the loop relies on\<close>

locale front_guard =
  fixes on_front :: "clipboard_guard \<Rightarrow> zone \<Rightarrow> int \<Rightarrow> 's \<Rightarrow> clipboard_guard \<times> 's \<times> guard_action"
    and denies :: "'s \<Rightarrow> clip_format list \<Rightarrow> bool"
  assumes work: "on_front g Work c s = (g, s, GuardNothing)"
    and untagged: "on_front None z c s = (None, s, GuardNothing)"
    and stale: "tg_change_count t \<noteq> c \<Longrightarrow> on_front (Some t) Personal c s = (None, s, GuardNothing)"
    and denied: "tg_change_count t = c \<Longrightarrow> denies s (tg_formats t) \<Longrightarrow>
      \<exists>s'. on_front (Some t) Personal c s = (None, s', ClearPasteboard)"
    and allowed: "tg_change_count t = c \<Longrightarrow> \<not> denies s (tg_formats t) \<Longrightarrow>
      \<exists>s'. on_front (Some t) Personal c s = (Some t, s', GuardNothing)"
begin

text \<open>A poll on a guard that has seen the current payload clears exactly a denied one.\<close>

lemma poll_seen:
  assumes "guard_poll os on_front zones (h, g, co_count os h, s) = (h', g', last', s', act)"
    and "g = (if w then Some \<lparr>tg_change_count = co_count os h, tg_formats = co_formats os h\<rparr> else None)"
    and "clr \<longleftrightarrow> frontmost_zone zones (co_front os h) = Personal \<and> w \<and> denies s (co_formats os h)"
  shows "if clr then act = ClearPasteboard \<and> g' = None \<and> (h', last') = co_clear os h
         else act = GuardNothing \<and> g' = g \<and> h' = h \<and> last' = co_count os h"
proof (cases "frontmost_zone zones (co_front os h)")
  case Work
  then show ?thesis using assms by (auto simp: guard_poll_def Let_def work)
next
  case Personal
  show ?thesis
  proof (cases w)
    case False
    then show ?thesis using assms Personal by (auto simp: guard_poll_def Let_def untagged)
  next
    case True
    let ?t = "\<lparr>tg_change_count = co_count os h, tg_formats = co_formats os h\<rparr>"
    show ?thesis
      using assms Personal True denied[of ?t "co_count os h" s] allowed[of ?t "co_count os h" s]
      by (cases "denies s (co_formats os h)") (auto simp: guard_poll_def Let_def split: prod.splits)
  qed
qed

text \<open>A poll that sees a new payload takes it for a copy by the frontmost application and keeps it.\<close>

lemma poll_fresh:
  assumes "guard_poll os on_front zones (h, g, last_count, s) = (h', g', last', s', act)" "co_count os h \<noteq> last_count"
    and "frontmost_zone zones (co_front os h) = z"
  shows "g' = on_copy g (co_count os h) z (co_formats os h) \<and> h' = h \<and> last' = co_count os h \<and> s' = s \<and> act = GuardNothing"
  using assms by (cases z) (auto simp: guard_poll_def Let_def on_copy_def work untagged)

end

interpretation mac_guard: front_guard "mac_on_front dec"
  "\<lambda>s fmts. list_ex (\<lambda>d. d \<noteq> Allow) (snd (decide_formats dec s fmts))" for dec
  by unfold_locales (auto simp: mac_on_front_def case_prod_beta split: option.splits)

interpretation win_guard: front_guard "win_on_front dec" "\<lambda>s fmts. snd (denied_format dec s fmts)" for dec
  by unfold_locales (auto simp: win_on_front_def case_prod_beta split: option.splits)

text \<open>Deciding a format audits it and leaves what the next decision depends on.\<close>

lemma clip_dec_result:
  "snd (clip_dec v now d src dst fmt) =
     vd_decision (decide (ClipboardTransfer src dst fmt) (dm_zones d) (dm_policy d) now)"
  by (auto simp: clip_dec_def decide_action_def Let_def split: prod.splits option.splits if_splits)

lemma clip_dec_keeps:
  "dm_zones (fst (clip_dec v now d src dst fmt)) = dm_zones d"
  "dm_policy (fst (clip_dec v now d src dst fmt)) = dm_policy d"
  by (simp_all add: clip_dec_def case_prod_beta decide_frame)

lemma decide_formats_daemon:
  "snd (decide_formats (clip_dec v now) d fmts) =
     map (\<lambda>f. vd_decision (decide (ClipboardTransfer Work Personal f) (dm_zones d) (dm_policy d) now)) fmts"
  by (induction fmts arbitrary: d) (auto simp: case_prod_beta clip_dec_result clip_dec_keeps)

lemma denied_format_daemon:
  "snd (denied_format (clip_dec v now) d fmts) \<longleftrightarrow>
     (\<exists>f \<in> set fmts. vd_decision (decide (ClipboardTransfer Work Personal f) (dm_zones d) (dm_policy d) now) \<noteq> Allow)"
  by (induction fmts arbitrary: d) (auto simp: case_prod_beta clip_dec_result clip_dec_keeps)

section \<open>Runs\<close>

text \<open>
  A run of the guard among the other programs. \<open>cl_owner\<close> is the zone of the application that copied
  what the clipboard holds, \<open>None\<close> when the guard has not seen a copy or has cleared it; \<open>cl_seen\<close>
  says that the guard has polled since the last copy. A copy is made by the frontmost application and
  raises the change count. Between a copy and the next poll the foreground stays in its zone: the
  rule \<open>other\<close> (any change of the foreground, the zones and the daemon) requires it.
\<close>

record ('h, 'd) clip_state =
  cl_host :: 'h
  cl_guard :: clipboard_guard
  cl_last :: int
  cl_daemon :: 'd
  cl_owner :: "zone option"
  cl_seen :: bool

definition front_of :: "'h clip_os \<Rightarrow> ('h, ('k, 'b, 't) daemon) clip_state \<Rightarrow> zone" where
  "front_of os st = frontmost_zone (dm_zones (cl_daemon st)) (co_front os (cl_host st))"

definition poll_state ::
  "'h clip_os \<Rightarrow> (('k, 'b, 't) daemon clip_decide
       \<Rightarrow> clipboard_guard \<Rightarrow> zone \<Rightarrow> int \<Rightarrow> ('k, 'b, 't) daemon \<Rightarrow> clipboard_guard \<times> ('k, 'b, 't) daemon \<times> guard_action)
     \<Rightarrow> ('k, 'b, 't) daemon_env \<Rightarrow> unix_time \<Rightarrow> ('h, ('k, 'b, 't) daemon) clip_state
     \<Rightarrow> 'h \<times> clipboard_guard \<times> int \<times> ('k, 'b, 't) daemon \<times> guard_action" where
  "poll_state os on_front v now st =
     guard_poll os (on_front (clip_dec v now)) (dm_zones (cl_daemon st))
       (cl_host st, cl_guard st, cl_last st, cl_daemon st)"

inductive clip_run ::
  "'h clip_os \<Rightarrow> (('k, 'b, 't) daemon clip_decide
       \<Rightarrow> clipboard_guard \<Rightarrow> zone \<Rightarrow> int \<Rightarrow> ('k, 'b, 't) daemon \<Rightarrow> clipboard_guard \<times> ('k, 'b, 't) daemon \<times> guard_action)
     \<Rightarrow> ('k, 'b, 't) daemon_env \<Rightarrow> ('h, ('k, 'b, 't) daemon) clip_state \<Rightarrow> bool"
  for os :: "'h clip_os" and on_front and v :: "('k, 'b, 't) daemon_env"
where
  start: "clip_run os on_front v \<lparr>cl_host = h, cl_guard = guard_new, cl_last = co_count os h, cl_daemon = d,
            cl_owner = None, cl_seen = True\<rparr>"
| copied: "clip_run os on_front v st \<Longrightarrow> co_count os (cl_host st) < co_count os h \<Longrightarrow>
     co_front os h = co_front os (cl_host st) \<Longrightarrow>
     clip_run os on_front v (st\<lparr>cl_host := h, cl_owner := Some (front_of os st), cl_seen := False\<rparr>)"
| other: "clip_run os on_front v st \<Longrightarrow> co_count os h = co_count os (cl_host st) \<Longrightarrow>
     co_formats os h = co_formats os (cl_host st) \<Longrightarrow>
     st' = st\<lparr>cl_host := h, cl_daemon := d\<rparr> \<Longrightarrow> cl_seen st \<or> front_of os st' = front_of os st \<Longrightarrow>
     clip_run os on_front v st'"
| polled: "clip_run os on_front v st \<Longrightarrow> poll_state os on_front v now st = (h, g, last_count, d, act) \<Longrightarrow>
     clip_run os on_front v (st\<lparr>cl_host := h, cl_guard := g, cl_last := last_count, cl_daemon := d,
       cl_owner := (if act = ClearPasteboard then None else cl_owner st), cl_seen := True\<rparr>)"

definition clip_inv :: "'h clip_os \<Rightarrow> ('h, ('k, 'b, 't) daemon) clip_state \<Rightarrow> bool" where
  "clip_inv os st =
     (if cl_seen st
      then cl_last st = co_count os (cl_host st) \<and>
           cl_guard st = (if cl_owner st = Some Work
             then Some \<lparr>tg_change_count = co_count os (cl_host st), tg_formats = co_formats os (cl_host st)\<rparr> else None)
      else cl_last st < co_count os (cl_host st) \<and> cl_owner st = Some (front_of os st))"

definition denies_transfer :: "('k, 'b, 't) daemon \<Rightarrow> unix_time \<Rightarrow> clip_format list \<Rightarrow> bool" where
  "denies_transfer d now fmts =
     list_ex (\<lambda>f. vd_decision (decide (ClipboardTransfer Work Personal f) (dm_zones d) (dm_policy d) now) \<noteq> Allow) fmts"

text \<open>The count that clearing returns is the count of the cleared clipboard.\<close>

definition clear_reports_count :: "'h clip_os \<Rightarrow> bool" where
  "clear_reports_count os = (\<forall>h. snd (co_clear os h) = co_count os (fst (co_clear os h)))"

lemma poll_state_exact:
  assumes fg: "front_guard (on_front (clip_dec v now)) (\<lambda>d. denies_transfer d now)"
    and inv: "clip_inv os st" and p: "poll_state os on_front v now st = (h, g, last_count, d, act)"
    and clr: "clr \<longleftrightarrow> front_of os st = Personal \<and> cl_owner st = Some Work \<and>
      denies_transfer (cl_daemon st) now (co_formats os (cl_host st))"
  shows "if clr then act = ClearPasteboard \<and> g = None \<and> (h, last_count) = co_clear os (cl_host st)
         else act = GuardNothing \<and> h = cl_host st \<and> last_count = co_count os h \<and>
              g = (if cl_owner st = Some Work
                   then Some \<lparr>tg_change_count = co_count os h, tg_formats = co_formats os h\<rparr> else None)"
proof (cases "cl_seen st")
  case True
  then have i: "cl_last st = co_count os (cl_host st)"
    "cl_guard st = (if cl_owner st = Some Work
       then Some \<lparr>tg_change_count = co_count os (cl_host st), tg_formats = co_formats os (cl_host st)\<rparr> else None)"
    using inv by (simp_all add: clip_inv_def)
  from front_guard.poll_seen[OF fg p[unfolded poll_state_def i(1)] i(2) clr[unfolded front_of_def]] i(2)
  show ?thesis by auto
next
  case False
  then have i: "cl_last st < co_count os (cl_host st)" "cl_owner st = Some (front_of os st)"
    using inv by (auto simp: clip_inv_def)
  then have "\<not> clr" using clr by auto
  then show ?thesis
    using front_guard.poll_fresh[OF fg p[unfolded poll_state_def], of "front_of os st"] i
    by (auto simp: front_of_def on_copy_def split: zone.splits)
qed

lemma clip_run_inv:
  assumes "\<And>now. front_guard (on_front (clip_dec v now)) (\<lambda>d. denies_transfer d now)" "clear_reports_count os"
    and "clip_run os on_front v st"
  shows "clip_inv os st"
  using assms(3)
proof (induction rule: clip_run.induct)
  case (start h d)
  then show ?case by (simp add: clip_inv_def guard_new_def)
next
  case (copied st h)
  then show ?case by (auto simp: clip_inv_def front_of_def split: if_splits)
next
  case (other st h st' d)
  then show ?case by (auto simp: clip_inv_def split: if_splits)
next
  case (polled st now h g last_count d act)
  define clr where "clr \<longleftrightarrow> front_of os st = Personal \<and> cl_owner st = Some Work \<and>
      denies_transfer (cl_daemon st) now (co_formats os (cl_host st))"
  note * = poll_state_exact[OF assms(1) polled.IH polled.hyps(2) clr_def]
  show ?case
  proof (cases clr)
    case True
    then have "act = ClearPasteboard" "g = None" "(h, last_count) = co_clear os (cl_host st)" using * by simp_all
    then show ?thesis using assms(2) by (simp add: clip_inv_def clear_reports_count_def) (metis fst_conv snd_conv)
  next
    case False
    then show ?thesis using * by (auto simp: clip_inv_def)
  qed
qed

lemma mac_front_guard: "front_guard (mac_on_front (clip_dec v now)) (\<lambda>d. denies_transfer d now)"
proof -
  have "(\<lambda>d. denies_transfer d now) = (\<lambda>s fmts. list_ex (\<lambda>d. d \<noteq> Allow) (snd (decide_formats (clip_dec v now) s fmts)))"
    by (intro ext) (simp add: decide_formats_daemon denies_transfer_def list_ex_iff)
  then show ?thesis using mac_guard.front_guard_axioms[of "clip_dec v now"] by simp
qed

lemma win_front_guard: "front_guard (win_on_front (clip_dec v now)) (\<lambda>d. denies_transfer d now)"
proof -
  have "(\<lambda>d. denies_transfer d now) = (\<lambda>s fmts. snd (denied_format (clip_dec v now) s fmts))"
    by (intro ext) (simp add: denied_format_daemon denies_transfer_def list_ex_iff)
  then show ?thesis using win_guard.front_guard_axioms[of "clip_dec v now"] by simp
qed

text \<open>
  (C27) The macOS clipboard guard, under the premise its polling needs. Take a run (\<open>clip_run\<close>) in which
  the application in front at a copy is still in front, or one of the same zone, at the next poll, and in
  which a poll is one step, with no copy in its middle. Then a poll clears the pasteboard exactly when a
  personal application is in front, a work application copied what the pasteboard holds and the daemon's
  policy does not allow one of its formats to go from work to personal. Otherwise the pasteboard is left
  as it is, so what a personal application copied is never cleared. Without the premise this fails: the
  next section shows, for the Windows guard, which has the same loop, that a work copy is never cleared
  when the user moves to a personal application before the poll.
\<close>

theorem mac_clipboard_exact:
  assumes "clear_reports_count (mac_clip_os pb)" "clip_run (mac_clip_os pb) mac_on_front v st"
    and "poll_state (mac_clip_os pb) mac_on_front v now st = (h, g, last_count, d, act)"
  shows "(act = ClearPasteboard \<longleftrightarrow>
       front_of (mac_clip_os pb) st = Personal \<and> cl_owner st = Some Work \<and>
       (\<exists>f \<in> set (mac_formats (mp_types pb (cl_host st))).
          vd_decision (decide (ClipboardTransfer Work Personal f) (dm_zones (cl_daemon st)) (dm_policy (cl_daemon st)) now) \<noteq> Allow)) \<and>
     h = (if act = ClearPasteboard then fst (mp_clear_contents pb (cl_host st)) else cl_host st)"
proof -
  have "clip_inv (mac_clip_os pb) st" by (rule clip_run_inv[OF mac_front_guard assms(1,2)])
  from poll_state_exact[OF mac_front_guard this assms(3) refl] show ?thesis
    by (auto simp: denies_transfer_def list_ex_iff mac_clip_os_def split: if_splits) (metis fst_conv)+
qed

section \<open>Where polling falls short\<close>

text \<open>The actions of later turns of the loop, each given the zones and the host it finds.\<close>

fun later_polls ::
  "'h clip_os \<Rightarrow> (clipboard_guard \<Rightarrow> zone \<Rightarrow> int \<Rightarrow> 's \<Rightarrow> clipboard_guard \<times> 's \<times> guard_action)
     \<Rightarrow> clipboard_guard \<times> int \<times> 's \<Rightarrow> (zone_registry \<times> 'h) list \<Rightarrow> guard_action list" where
  "later_polls os on_front st [] = []"
| "later_polls os on_front (g, last_count, s) ((zones, h) # rest) =
     (let (h, g, last_count, s, act) = guard_poll os on_front zones (h, g, last_count, s)
      in act # later_polls os on_front (g, last_count, s) rest)"

context front_guard
begin

lemma untagged_idle:
  "\<forall>(zones, h) \<in> set later. co_count os h = last_count \<Longrightarrow>
   set (later_polls os on_front (None, last_count, s) later) \<subseteq> {GuardNothing}"
proof (induction later)
  case (Cons x later)
  obtain zones h where x: "x = (zones, h)" by (cases x)
  have "guard_poll os on_front zones (h, None, last_count, s) = (h, None, last_count, s, GuardNothing)"
    using Cons.prems by (auto simp: x guard_poll_def Let_def untagged)
  then show ?case using Cons by (simp add: x)
qed simp

end

text \<open>
  What the Windows guard misses. When it decides to clear a payload while another program holds
  the clipboard open, the payload stays; and when the user moves from a work to a personal
  application before the poll that follows a copy, the payload is taken for a personal one. In both
  cases the guard has dropped its tag: however often it polls afterwards, it does nothing about that
  payload until something else is copied.
\<close>

theorem win_clipboard_gaps:
  fixes wc :: "'h win_clipboard" and dec :: "'s clip_decide"
  assumes "guard_poll (win_clip_os wc) (win_on_front dec) zones (h, g, last_count, s) = (h', g', last', s', act)"
    and "(act = ClearPasteboard \<and> \<not> wc_open wc h) \<or>
         (win_sequence wc h \<noteq> last_count \<and> frontmost_zone zones (foreground_pid wc h) = Personal)"
    and "\<forall>(_, k) \<in> set later. wc_sequence wc k = wc_sequence wc h"
  shows "h' = h \<and> set (later_polls (win_clip_os wc) (win_on_front dec) (g', last', s') later) \<subseteq> {GuardNothing}"
proof -
  let ?os = "win_clip_os wc"
  have os: "co_count ?os = win_sequence wc" "co_front ?os = foreground_pid wc"
    "\<not> wc_open wc h \<Longrightarrow> co_clear ?os h = (h, win_sequence wc h)"
    by (simp_all add: win_clip_os_def clear_clipboard_def)
  have "h' = h \<and> g' = None \<and> last' = co_count ?os h"
  proof (cases "win_sequence wc h \<noteq> last_count")
    case True
    from win_guard.poll_fresh[OF assms(1) _ refl] True have
      "g' = on_copy g (co_count ?os h) (frontmost_zone zones (co_front ?os h)) (co_formats ?os h)"
      "h' = h" "last' = co_count ?os h" "act = GuardNothing" by (simp_all add: os)
    then show ?thesis using assms(2) by (auto simp: os on_copy_def)
  next
    case False
    then have c: "act = ClearPasteboard" "\<not> wc_open wc h" using assms(2) by auto
    then have "h' = h \<and> last' = co_count ?os h"
      using assms(1) os by (auto simp: guard_poll_def Let_def split: prod.splits if_splits)
    moreover have "g' = None"
      using assms(1) c by (auto simp: guard_poll_def Let_def win_on_front_def split: prod.splits if_splits option.splits)
    ultimately show ?thesis by simp
  qed
  moreover have "set (later_polls ?os (win_on_front dec) (None, co_count ?os h, s') later) \<subseteq> {GuardNothing}"
    using assms(3) by (intro win_guard.untagged_idle) (auto simp: os win_sequence_def)
  ultimately show ?thesis by simp
qed

section \<open>Witnesses\<close>

text \<open>A pasteboard as the frontmost process, the change count and the types; process 7 is a work application.\<close>

definition demo_pasteboard :: "(int \<times> int \<times> string list) mac_pasteboard" where
  "demo_pasteboard =
     \<lparr>mp_frontmost = (\<lambda>(p, _, _). Some p), mp_change_count = (\<lambda>(_, n, _). n), mp_types = (\<lambda>(_, _, ts). Some (map Some ts)),
      mp_clear_contents = (\<lambda>(p, n, _). ((p, n + 1, []), n + 1))\<rparr>"

definition clip_daemon :: "(mem_key_store, mem_backing, loopback_tunnel) daemon" where
  "clip_daemon = demo_daemon\<lparr>dm_zones := zone_join zone_new (Macos 0 0 0 0 0 7 0 0) Launcher\<rparr>"

definition clip_tagged :: "(int \<times> int \<times> string list, (mem_key_store, mem_backing, loopback_tunnel) daemon) clip_state" where
  "clip_tagged =
     \<lparr>cl_host = (9, 1, [''public.html'']), cl_guard = Some \<lparr>tg_change_count = 1, tg_formats = [Html]\<rparr>, cl_last = 1,
      cl_daemon = clip_daemon, cl_owner = Some Work, cl_seen = True\<rparr>"

lemma clip_daemon_front:
  "frontmost_zone (dm_zones clip_daemon) (Some 7) = Work" "frontmost_zone (dm_zones clip_daemon) (Some 9) = Personal"
  by (simp_all add: clip_daemon_def frontmost_zone_def supervised_pids_def zone_join_def zone_new_def hm_insert_def hm_keys_def)

lemma demo_clip_os:
  "co_front (mac_clip_os demo_pasteboard) (p, n, ts) = (if 0 \<le> p then Some (word_of_int p) else None)"
  "co_count (mac_clip_os demo_pasteboard) (p, n, ts) = n"
  "co_formats (mac_clip_os demo_pasteboard) (p, n, ts) = mac_formats (Some (map Some ts))"
  by (simp_all add: mac_clip_os_def demo_pasteboard_def frontmost_pid_def)

lemma clip_tagged_run: "clip_run (mac_clip_os demo_pasteboard) mac_on_front demo_daemon_env clip_tagged"
proof -
  let ?os = "mac_clip_os demo_pasteboard"
  define s0 where "s0 = \<lparr>cl_host = (7 :: int, 0 :: int, [] :: string list), cl_guard = guard_new, cl_last = co_count ?os (7, 0, []),
      cl_daemon = clip_daemon, cl_owner = None, cl_seen = True\<rparr>"
  define s1 where "s1 = s0\<lparr>cl_host := (7, 1, [''public.html'']), cl_owner := Some Work, cl_seen := False\<rparr>"
  have f: "front_of ?os s0 = Work" by (simp add: front_of_def s0_def demo_clip_os clip_daemon_front)
  have "clip_run ?os mac_on_front demo_daemon_env s0" unfolding s0_def by (rule clip_run.start)
  from clip_run.copied[OF this, of "(7, 1, [''public.html''])"] f
  have r1: "clip_run ?os mac_on_front demo_daemon_env s1" by (simp add: s1_def s0_def demo_clip_os)
  have "poll_state ?os mac_on_front demo_daemon_env 100 s1 =
      ((7, 1, [''public.html'']), Some \<lparr>tg_change_count = 1, tg_formats = [Html]\<rparr>, 1, clip_daemon, GuardNothing)"
    by (simp add: poll_state_def guard_poll_def Let_def s1_def s0_def demo_clip_os clip_daemon_front on_copy_def
        mac_on_front_def mac_formats_def push_new_def classify_uti_def)
  from clip_run.polled[OF r1 this]
  have r2: "clip_run ?os mac_on_front demo_daemon_env
      (s1\<lparr>cl_guard := Some \<lparr>tg_change_count = 1, tg_formats = [Html]\<rparr>, cl_last := 1, cl_seen := True\<rparr>)"
    by (simp add: s1_def s0_def)
  from clip_run.other[OF r2, of "(9, 1, [''public.html''])" clip_tagged clip_daemon]
  show ?thesis by (simp add: s1_def s0_def clip_tagged_def demo_clip_os)
qed

text \<open>The work application copied HTML and a personal application comes to the front: the pasteboard is cleared.\<close>

theorem mac_clipboard_exact_witness:
  "case poll_state (mac_clip_os demo_pasteboard) mac_on_front demo_daemon_env 101 clip_tagged of
     (h, g, last_count, d, act) \<Rightarrow> act = ClearPasteboard \<and> h = (9, 2, [])"
proof -
  let ?os = "mac_clip_os demo_pasteboard"
  obtain h g last_count d act where p: "poll_state ?os mac_on_front demo_daemon_env 101 clip_tagged = (h, g, last_count, d, act)"
    using prod_cases5 by blast
  have c: "clear_reports_count ?os"
    by (auto simp: clear_reports_count_def mac_clip_os_def demo_pasteboard_def)
  have "front_of ?os clip_tagged = Personal"
    by (simp add: front_of_def clip_tagged_def demo_clip_os clip_daemon_front)
  moreover have "mac_formats (mp_types demo_pasteboard (cl_host clip_tagged)) = [Html]"
    by (simp add: clip_tagged_def demo_pasteboard_def mac_formats_def push_new_def classify_uti_def)
  moreover have "dm_policy clip_daemon = restrictive_default"
    by (simp add: clip_daemon_def demo_daemon_def set_policy_observer_def daemon_new_def)
  then have "vd_decision (decide (ClipboardTransfer Work Personal Html) (dm_zones (cl_daemon clip_tagged))
      (dm_policy (cl_daemon clip_tagged)) 101) \<noteq> Allow"
    by (simp add: clip_tagged_def decide_def restrictive_default_def work_to_personal_def verdict_of_def)
  moreover have "cl_owner clip_tagged = Some Work" "fst (mp_clear_contents demo_pasteboard (cl_host clip_tagged)) = (9, 2, [])"
    by (simp_all add: clip_tagged_def demo_pasteboard_def)
  ultimately show ?thesis using mac_clipboard_exact[OF c clip_tagged_run p] by (simp add: p)
qed

text \<open>A clipboard another program holds open: the denied payload with sequence number 1 stays.\<close>

definition busy_clipboard :: "unit win_clipboard" where
  "busy_clipboard =
     \<lparr>wc_window_pid = (\<lambda>_. Some 9), wc_sequence = (\<lambda>_. 1), wc_open = (\<lambda>_. False), wc_enum = (\<lambda>_. [13]),
      wc_register = (0xC001, 0xC002), wc_empty = id\<rparr>"

theorem win_clipboard_gaps_witness:
  "guard_poll (win_clip_os busy_clipboard) (win_on_front (\<lambda>s _ _ _. (s, Deny))) zone_new
     ((), Some \<lparr>tg_change_count = 1, tg_formats = [PlainText]\<rparr>, 1, ()) = ((), None, 1, (), ClearPasteboard) \<and>
   set (later_polls (win_clip_os busy_clipboard) (win_on_front (\<lambda>s _ _ _. (s, Deny))) (None, 1, ())
     [(zone_new, ()), (zone_new, ())]) \<subseteq> {GuardNothing}"
proof -
  have "guard_poll (win_clip_os busy_clipboard) (win_on_front (\<lambda>s _ _ _. (s, Deny))) zone_new
     ((), Some \<lparr>tg_change_count = 1, tg_formats = [PlainText]\<rparr>, 1, ()) = ((), None, 1, (), ClearPasteboard)"
    by code_simp
  from win_clipboard_gaps[OF this, of "[(zone_new, ()), (zone_new, ())]"] this show ?thesis
    by (simp add: busy_clipboard_def)
qed

end
