(* ===== verification/Os_Watch.thy ===== *)
theory Os_Watch
  imports Complex_Main Daemon_Props Rust_Num
begin

text \<open>
  The watches that report, and do not block (\<open>screen.rs\<close> and \<open>input.rs\<close> of \<open>clave-mac\<close>, \<open>input.rs\<close>
  of \<open>clave-win\<close>, with the closures of \<open>mac_main.rs\<close> and \<open>win_main.rs\<close> that hand a report to the
  daemon): capture tools running over work windows, programs that tap the keyboard while a work
  application is focused, and injected key strokes. The process table, the window list, the event
  taps and the clock are arguments. The locale \<open>once_watch\<close> is the contract of the two watches; from
  it the theorem on runs says exactly which poll reports whom.
\<close>

section \<open>Text of the process table\<close>

definition parse_u32 :: "string \<Rightarrow> u32 option" where
  "parse_u32 s =
     (let t = (case s of c # r \<Rightarrow> (if c = CHR ''+'' then r else s) | [] \<Rightarrow> s)
      in case parse_nat t of None \<Rightarrow> None | Some n \<Rightarrow> if n < 2 ^ 32 then Some (of_nat n) else None)"

definition strip_cr :: "string \<Rightarrow> string" where
  "strip_cr s = (if s \<noteq> [] \<and> last s = CHR 0x0D then butlast s else s)"

definition str_lines :: "string \<Rightarrow> string list" where
  "str_lines s =
     (let ps = split_on s (CHR 0x0A)
      in map strip_cr (butlast ps) @ (if last ps = [] then [] else [last ps]))"

fun split_once_ws :: "string \<Rightarrow> (string \<times> string) option" where
  "split_once_ws [] = None"
| "split_once_ws (c # s) =
     (case ws_prefix (c # s) of
        Some w \<Rightarrow> Some ([], drop (length w) (c # s))
      | None \<Rightarrow> map_option (\<lambda>(a, b). (c # a, b)) (split_once_ws s))"

definition last_component :: "string \<Rightarrow> string" where
  "last_component s = rev (takeWhile (\<lambda>c. c \<noteq> CHR ''/'') (rev s))"

section \<open>Reporting once\<close>

text \<open>\<open>filter\<close> with \<open>HashSet::insert\<close>: an element passes when its process is not in the set yet.\<close>

fun report_new :: "('a \<Rightarrow> u32) \<Rightarrow> u32 set \<Rightarrow> 'a list \<Rightarrow> u32 set \<times> 'a list" where
  "report_new pid reported [] = (reported, [])"
| "report_new pid reported (c # cs) =
     (let (reported', out) = report_new pid (insert (pid c) reported) cs
      in (reported', if pid c \<in> reported then out else c # out))"

subsection \<open>Screen capture (screen.rs)\<close>

definition CAPTURE_TOOLS :: "string list" where
  "CAPTURE_TOOLS =
     [''screencapture'', ''screencaptureui'', ''Screenshot'', ''QuickTime Player'', ''obs'', ''OBS'']"

definition is_capture_tool :: "string \<Rightarrow> bool" where
  "is_capture_tool exe = (exe \<in> set CAPTURE_TOOLS)"

record capturer =
  cp_pid :: u32
  cp_exe :: string

type_synonym capture_watch = "u32 set"

definition capture_watch_new :: capture_watch where
  "capture_watch_new = {}"

definition capture_observe :: "capture_watch \<Rightarrow> capturer list \<Rightarrow> bool \<Rightarrow> capture_watch \<times> capturer list" where
  "capture_observe reported running work_on_screen =
     (let live = set (map cp_pid running); reported = Set.filter (\<lambda>pid. pid \<in> live) reported
      in if \<not> work_on_screen then (reported, []) else report_new cp_pid reported running)"

definition ps_capturer :: "string \<Rightarrow> capturer option" where
  "ps_capturer line =
     (case split_once_ws (trim line) of
        None \<Rightarrow> None
      | Some (pid, path) \<Rightarrow>
          (let exe = last_component (trim path)
           in if \<not> is_capture_tool exe then None
              else map_option (\<lambda>n. \<lparr>cp_pid = n, cp_exe = exe\<rparr>) (parse_u32 (trim pid))))"

text \<open>The output of \<open>ps\<close>, \<open>None\<close> when it cannot be run.\<close>

definition running_capture_tools :: "string option \<Rightarrow> capturer list" where
  "running_capture_tools ps =
     (case ps of None \<Rightarrow> [] | Some out \<Rightarrow> List.map_filter ps_capturer (str_lines out))"

text \<open>
  A window of the window list: its number, layer, owner and bounds (x, y, width, height), each absent
  when the dictionary has no such entry; a null entry of the list is \<open>None\<close>. The bounds are finite
  floating-point numbers, taken as the reals they denote.
\<close>

record mac_window =
  mw_number :: "int option"
  mw_layer :: "int option"
  mw_owner :: "int option"
  mw_bounds :: "(real \<times> real \<times> real \<times> real) option"

definition window_owner :: "mac_window \<Rightarrow> u32" where
  "window_owner w = word_of_int (case mw_owner w of None \<Rightarrow> 0 | Some p \<Rightarrow> p)"

definition work_windows_on_screen :: "zone_registry \<Rightarrow> mac_window option list option \<Rightarrow> nat" where
  "work_windows_on_screen zones info =
     (let supervised = supervised_pids zones
      in if supervised = [] then 0
         else case info of
                None \<Rightarrow> 0
              | Some ws \<Rightarrow>
                  length (filter (\<lambda>x. case x of
                      None \<Rightarrow> False
                    | Some w \<Rightarrow>
                        mw_layer w = Some 0 \<and> window_owner w \<in> set supervised \<and>
                        (case mw_bounds w of None \<Rightarrow> False | Some (x, y, width, height) \<Rightarrow> width \<ge> 1 \<and> height \<ge> 1)) ws))"

text \<open>One turn of \<open>run_screen_watch\<close>, with the closure of \<open>spawn_screen_watch\<close>.\<close>

definition report_capture ::
  "('k, 'b, 't) daemon_env \<Rightarrow> unix_time \<Rightarrow> ('k, 'b, 't) daemon \<Rightarrow> capturer \<Rightarrow> ('k, 'b, 't) daemon" where
  "report_capture v now d c =
     fst (decide_action v d (ScreenCapture (Some (proc_id_for_pid True (cp_pid c))) (cp_exe c)) now)"

definition screen_watch_round ::
  "('k, 'b, 't) daemon_env \<Rightarrow> string option \<Rightarrow> mac_window option list option \<Rightarrow> unix_time
     \<Rightarrow> capture_watch \<times> ('k, 'b, 't) daemon \<Rightarrow> capture_watch \<times> ('k, 'b, 't) daemon" where
  "screen_watch_round v ps info now st =
     (let (watch, d) = st;
          running = running_capture_tools ps;
          work_on_screen = (running \<noteq> [] \<and> work_windows_on_screen (dm_zones d) info > 0);
          (watch, seen) = capture_observe watch running work_on_screen
      in (watch, foldl (report_capture v now) d seen))"

subsection \<open>Keyboard taps (clave-mac input.rs)\<close>

record tapper =
  tp_pid :: u32
  tp_exe :: string

type_synonym tap_watch = "u32 set"

definition tap_watch_new :: tap_watch where
  "tap_watch_new = {}"

definition tap_observe :: "tap_watch \<Rightarrow> tapper list \<Rightarrow> bool \<Rightarrow> tap_watch \<times> tapper list" where
  "tap_observe reported tapping work_focused =
     (let live = set (map tp_pid tapping); reported = Set.filter (\<lambda>pid. pid \<in> live) reported
      in if \<not> work_focused then (reported, []) else report_new tp_pid reported tapping)"

definition KEYBOARD_MASK :: u64 where
  "KEYBOARD_MASK = push_bit 10 1 OR push_bit 11 1 OR push_bit 12 1"

record event_tap =
  et_events_of_interest :: u64
  et_tapping_process :: int

definition raw_keyboard_taps :: "event_tap list \<Rightarrow> u32 list" where
  "raw_keyboard_taps taps =
     map (\<lambda>t. word_of_int (et_tapping_process t))
       (filter (\<lambda>t. et_events_of_interest t AND KEYBOARD_MASK \<noteq> 0 \<and> et_tapping_process t > 0) taps)"

text \<open>\<open>comm\<close> is what \<open>ps\<close> prints for a process, \<open>None\<close> when it cannot be run.\<close>

definition exe_name :: "(u32 \<Rightarrow> string option) \<Rightarrow> u32 \<Rightarrow> string option" where
  "exe_name comm pid =
     (case comm pid of
        None \<Rightarrow> None
      | Some out \<Rightarrow> (let path = trim out in if path = [] then None else Some (last_component path)))"

definition keyboard_tappers :: "(u32 \<Rightarrow> string option) \<Rightarrow> u32 \<Rightarrow> zone_registry \<Rightarrow> event_tap list \<Rightarrow> tapper list" where
  "keyboard_tappers comm own zones taps =
     (let supervised = supervised_pids zones
      in List.map_filter (\<lambda>pid. map_option (\<lambda>exe. \<lparr>tp_pid = pid, tp_exe = exe\<rparr>) (exe_name comm pid))
           (filter (\<lambda>pid. pid \<noteq> own \<and> pid \<notin> set supervised) (raw_keyboard_taps taps)))"

definition report_tap ::
  "('k, 'b, 't) daemon_env \<Rightarrow> unix_time \<Rightarrow> ('k, 'b, 't) daemon \<Rightarrow> tapper \<Rightarrow> ('k, 'b, 't) daemon" where
  "report_tap v now d t =
     fst (decide_action v d (InputTap (Some (proc_id_for_pid True (tp_pid t))) (tp_exe t)) now)"

definition input_watch_round ::
  "('k, 'b, 't) daemon_env \<Rightarrow> (u32 \<Rightarrow> string option) \<Rightarrow> u32 \<Rightarrow> event_tap list \<Rightarrow> u32 option \<Rightarrow> unix_time
     \<Rightarrow> tap_watch \<times> ('k, 'b, 't) daemon \<Rightarrow> tap_watch \<times> ('k, 'b, 't) daemon" where
  "input_watch_round v comm own taps front now st =
     (let (watch, d) = st;
          tapping = keyboard_tappers comm own (dm_zones d) taps;
          work_focused = (case front of None \<Rightarrow> False | Some pid \<Rightarrow> pid \<in> set (supervised_pids (dm_zones d)));
          (watch, seen) = tap_observe watch tapping work_focused
      in (watch, foldl (report_tap v now) d seen))"

subsection \<open>Injected key strokes (clave-win input.rs)\<close>

definition REPORT_THROTTLE :: int where
  "REPORT_THROTTLE = 1000"

text \<open>The milliseconds since the epoch become an \<open>i64\<close>; a clock before the epoch gives \<open>None\<close>.\<close>

definition throttled :: "u64 \<Rightarrow> nat option \<Rightarrow> u64 \<times> bool" where
  "throttled last_report clock =
     (let now = (case clock of None \<Rightarrow> 0 | Some ms \<Rightarrow> of_nat ms)
      in if sint (now - last_report) < REPORT_THROTTLE then (last_report, True) else (now, False))"

text \<open>
  The hook is called with a code, a message and the flags of the event; \<open>is_action\<close>, \<open>is_keydown\<close> and
  \<open>is_injected\<close> are the comparisons with the constants of the platform.
\<close>

definition report_if_over_work ::
  "('k, 'b, 't) daemon_env \<Rightarrow> u32 option \<Rightarrow> nat option \<Rightarrow> unix_time
     \<Rightarrow> u64 \<times> ('k, 'b, 't) daemon \<Rightarrow> u64 \<times> ('k, 'b, 't) daemon" where
  "report_if_over_work v front clock now st =
     (let (last_report, d) = st
      in case front of
           None \<Rightarrow> st
         | Some pid \<Rightarrow>
             if pid \<notin> set (supervised_pids (dm_zones d)) then st
             else case throttled last_report clock of
                    (last_report, True) \<Rightarrow> (last_report, d)
                  | (last_report, False) \<Rightarrow> (last_report, fst (decide_action v d (InputTap None ''injected'') now)))"

definition hook_proc ::
  "('k, 'b, 't) daemon_env \<Rightarrow> bool \<Rightarrow> bool \<Rightarrow> bool \<Rightarrow> u32 option \<Rightarrow> nat option \<Rightarrow> unix_time
     \<Rightarrow> u64 \<times> ('k, 'b, 't) daemon \<Rightarrow> u64 \<times> ('k, 'b, 't) daemon" where
  "hook_proc v is_action is_keydown is_injected front clock now st =
     (if is_action \<and> is_keydown \<and> is_injected then report_if_over_work v front clock now st else st)"

section \<open>Which poll reports whom\<close>

lemma report_new_set: "fst (report_new pid reported cs) = reported \<union> pid ` set cs"
  by (induction cs arbitrary: reported) (auto simp: case_prod_beta)

lemma report_new_pids: "pid ` set (snd (report_new pid reported cs)) = pid ` set cs - reported"
  by (induction cs arbitrary: reported) (auto simp: case_prod_beta image_iff)

lemma report_new_distinct: "distinct (map pid (snd (report_new pid reported cs)))"
proof (induction cs arbitrary: reported)
  case (Cons c cs)
  have "pid c \<notin> pid ` set (snd (report_new pid (insert (pid c) reported) cs))" by (simp add: report_new_pids)
  then show ?case using Cons by (simp add: case_prod_beta)
qed simp

lemma report_new_subset: "set (snd (report_new pid reported cs)) \<subseteq> set cs"
  by (induction cs arbitrary: reported) (auto simp: case_prod_beta)

text \<open>
  A watch over a state that names the processes reported: it forgets those that are gone, and when
  the condition holds it reports, once each, those present that it had not reported.
\<close>

locale once_watch =
  fixes pid :: "'a \<Rightarrow> u32" and observe :: "u32 set \<Rightarrow> 'a list \<Rightarrow> bool \<Rightarrow> u32 set \<times> 'a list"
  assumes forgets: "fst (observe r xs b) = (if b then pid ` set xs else r \<inter> pid ` set xs)"
    and reports: "pid ` set (snd (observe r xs b)) = (if b then pid ` set xs - r else {})"
    and once: "distinct (map pid (snd (observe r xs b)))" "set (snd (observe r xs b)) \<subseteq> set xs"
begin

text \<open>The state after polls and what each of them reports.\<close>

definition watch_after :: "('a list \<times> bool) list \<Rightarrow> u32 set" where
  "watch_after polls = foldl (\<lambda>r (xs, b). fst (observe r xs b)) {} polls"

definition reported_at :: "('a list \<times> bool) list \<Rightarrow> nat \<Rightarrow> 'a list" where
  "reported_at polls i = snd (observe (watch_after (take i polls)) (fst (polls ! i)) (snd (polls ! i)))"

definition present :: "('a list \<times> bool) list \<Rightarrow> nat \<Rightarrow> u32 \<Rightarrow> bool" where
  "present polls k p = (p \<in> pid ` set (fst (polls ! k)))"

lemma watch_after_mem:
  "i \<le> length polls \<Longrightarrow>
   p \<in> watch_after (take i polls) \<longleftrightarrow> (\<exists>j < i. snd (polls ! j) \<and> (\<forall>k. j \<le> k \<and> k < i \<longrightarrow> present polls k p))"
proof (induction i)
  case (Suc i)
  obtain xs b where x: "polls ! i = (xs, b)" by (cases "polls ! i")
  have w: "watch_after (take (Suc i) polls) = fst (observe (watch_after (take i polls)) xs b)"
    using Suc.prems x by (simp add: watch_after_def take_Suc_conv_app_nth)
  show ?case
  proof (cases b)
    case True
    then have "p \<in> watch_after (take (Suc i) polls) \<longleftrightarrow> present polls i p" by (simp add: w forgets present_def x)
    also have "\<dots> \<longleftrightarrow> (\<exists>j < Suc i. snd (polls ! j) \<and> (\<forall>k. j \<le> k \<and> k < Suc i \<longrightarrow> present polls k p))"
    proof
      assume "present polls i p"
      then have "\<forall>k. i \<le> k \<and> k < Suc i \<longrightarrow> present polls k p" by (metis le_antisym less_Suc_eq_le)
      then show "\<exists>j < Suc i. snd (polls ! j) \<and> (\<forall>k. j \<le> k \<and> k < Suc i \<longrightarrow> present polls k p)"
        using True x by (metis lessI snd_conv)
    qed (auto simp: less_Suc_eq_le)
    finally show ?thesis .
  next
    case False
    then have "p \<in> watch_after (take (Suc i) polls) \<longleftrightarrow> p \<in> watch_after (take i polls) \<and> present polls i p"
      by (simp add: w forgets present_def x)
    also have "\<dots> \<longleftrightarrow> (\<exists>j < i. snd (polls ! j) \<and> (\<forall>k. j \<le> k \<and> k < Suc i \<longrightarrow> present polls k p))"
      using Suc.IH Suc.prems by (auto simp: less_Suc_eq)
    also have "\<dots> \<longleftrightarrow> (\<exists>j < Suc i. snd (polls ! j) \<and> (\<forall>k. j \<le> k \<and> k < Suc i \<longrightarrow> present polls k p))"
      using False x by (auto simp: less_Suc_eq)
    finally show ?thesis .
  qed
qed (simp add: watch_after_def)

lemma reported_exactly:
  assumes "i < length polls"
  shows "p \<in> pid ` set (reported_at polls i) \<longleftrightarrow>
     snd (polls ! i) \<and> present polls i p \<and>
     \<not> (\<exists>j < i. snd (polls ! j) \<and> (\<forall>k. j \<le> k \<and> k < i \<longrightarrow> present polls k p))"
  using assms watch_after_mem[of i polls p] by (auto simp: reported_at_def reports present_def)

end

interpretation capture: once_watch cp_pid capture_observe
  by unfold_locales
    (auto simp: capture_observe_def Let_def report_new_set report_new_pids report_new_distinct
      dest: report_new_subset[THEN subsetD])

interpretation tap: once_watch tp_pid tap_observe
  by unfold_locales
    (auto simp: tap_observe_def Let_def report_new_set report_new_pids report_new_distinct
      dest: report_new_subset[THEN subsetD])

text \<open>What \<open>CaptureWatch\<close> reports over a sequence of polls, each with the tools running and whether work is on screen.\<close>

fun capture_reports :: "capture_watch \<Rightarrow> (capturer list \<times> bool) list \<Rightarrow> capturer list list" where
  "capture_reports w [] = []"
| "capture_reports w ((running, work) # polls) =
     (let (w, seen) = capture_observe w running work in seen # capture_reports w polls)"

lemma capture_reports_nth:
  "i < length polls \<Longrightarrow>
   capture_reports w polls ! i =
     snd (capture_observe (foldl (\<lambda>r (xs, b). fst (capture_observe r xs b)) w (take i polls)) (fst (polls ! i)) (snd (polls ! i)))"
proof (induction polls arbitrary: w i)
  case (Cons x polls)
  then show ?case by (cases x; cases i) (auto simp: case_prod_beta)
qed simp

text \<open>
  Screen captures are reported once. Over any sequence of polls from the start, poll \<open>i\<close> reports
  a process exactly when it runs a capture tool then, work is on screen then, and in no earlier poll
  since which it has been running all the time was work on screen; no process is reported twice in
  one poll, and everything reported was running. So a capture over work is reported at the first poll
  that sees it, a lasting one is not reported again, a capture of a personal desktop never is, and a
  new process that takes a used process id is reported again.
\<close>

theorem capture_reports_exact:
  assumes "i < length polls"
  shows "(p \<in> cp_pid ` set (capture_reports capture_watch_new polls ! i) \<longleftrightarrow>
       snd (polls ! i) \<and> p \<in> cp_pid ` set (fst (polls ! i)) \<and>
       \<not> (\<exists>j < i. snd (polls ! j) \<and> (\<forall>k. j \<le> k \<and> k < i \<longrightarrow> p \<in> cp_pid ` set (fst (polls ! k))))) \<and>
     distinct (map cp_pid (capture_reports capture_watch_new polls ! i)) \<and>
     set (capture_reports capture_watch_new polls ! i) \<subseteq> set (fst (polls ! i))"
proof -
  have "capture_reports capture_watch_new polls ! i = capture.reported_at polls i"
    using capture_reports_nth[OF assms, of capture_watch_new]
    by (simp add: capture.reported_at_def capture.watch_after_def capture_watch_new_def)
  then show ?thesis
    using capture.reported_exactly[OF assms, of p] capture.once
    by (simp add: capture.present_def capture.reported_at_def)
qed

text \<open>Process 42 captures a personal desktop, then work, twice; after it has exited its id is used again.\<close>

theorem capture_reports_exact_witness:
  "capture_reports capture_watch_new
     [([\<lparr>cp_pid = 42, cp_exe = ''obs''\<rparr>], False), ([\<lparr>cp_pid = 42, cp_exe = ''obs''\<rparr>], True),
      ([\<lparr>cp_pid = 42, cp_exe = ''obs''\<rparr>], True), ([], True), ([\<lparr>cp_pid = 42, cp_exe = ''screencapture''\<rparr>], True)]
   = [[], [\<lparr>cp_pid = 42, cp_exe = ''obs''\<rparr>], [], [], [\<lparr>cp_pid = 42, cp_exe = ''screencapture''\<rparr>]] \<and>
   42 \<in> cp_pid ` set (capture_reports capture_watch_new [([\<lparr>cp_pid = 42, cp_exe = ''obs''\<rparr>], True)] ! 0)"
proof -
  have "0 < length [([\<lparr>cp_pid = 42, cp_exe = ''obs''\<rparr>], True)]" by simp
  from capture_reports_exact[OF this, of 42] show ?thesis
    by (simp add: capture_watch_new_def capture_observe_def Let_def)
qed

section \<open>The throttle\<close>

text \<open>Which of a sequence of injected key strokes over work are reported, by the clock at each.\<close>

fun throttle_reports :: "u64 \<Rightarrow> nat list \<Rightarrow> bool list" where
  "throttle_reports last_report [] = []"
| "throttle_reports last_report (ms # rest) =
     (let (last_report, silent) = throttled last_report (Some ms) in (\<not> silent) # throttle_reports last_report rest)"

lemma throttled_nat:
  assumes "l \<le> t" "t < 2 ^ 63"
  shows "throttled (of_nat l) (Some t) = (if t < l + 1000 then (of_nat l, True) else (of_nat t, False))"
proof -
  have "of_nat t - of_nat l = (of_nat (t - l) :: u64)" using assms(1) by (simp add: of_nat_diff)
  moreover have "uint (of_nat (t - l) :: u64) = int (t - l)"
    using assms(2) by (simp add: unsigned_of_nat take_bit_nat_eq_self)
  then have "sint (of_nat (t - l) :: u64) = int (t - l)"
    using assms(2) by (simp add: sint_uint signed_take_bit_int_eq_self)
  ultimately show ?thesis using assms(1) by (auto simp: throttled_def REPORT_THROTTLE_def Let_def)
qed

lemma length_throttle [simp]: "length (throttle_reports l ts) = length ts"
  by (induction ts arbitrary: l) (auto simp: case_prod_beta)

lemma throttle_spaced:
  "sorted (l # ts) \<Longrightarrow> \<forall>t \<in> set ts. t < 2 ^ 63 \<Longrightarrow> i < length ts \<Longrightarrow> throttle_reports (of_nat l) ts ! i \<Longrightarrow>
   l + 1000 \<le> ts ! i \<and> (\<forall>j < i. throttle_reports (of_nat l) ts ! j \<longrightarrow> ts ! j + 1000 \<le> ts ! i)"
proof (induction ts arbitrary: l i)
  case (Cons t ts)
  show ?case
  proof (cases "t < l + 1000")
    case True
    then have r: "throttle_reports (of_nat l) (t # ts) = False # throttle_reports (of_nat l) ts"
      using Cons.prems by (simp add: throttled_nat)
    then obtain m where m: "i = Suc m" using Cons.prems by (cases i) auto
    have "sorted (l # ts)" using Cons.prems(1) by auto
    from Cons.IH[OF this, of m] Cons.prems r m show ?thesis by (auto simp: nth_Cons split: nat.splits)
  next
    case False
    then have r: "throttle_reports (of_nat l) (t # ts) = True # throttle_reports (of_nat t) ts"
      using Cons.prems by (simp add: throttled_nat)
    show ?thesis
    proof (cases i)
      case 0
      then show ?thesis using False by simp
    next
      case (Suc m)
      have "sorted (t # ts)" using Cons.prems(1) by auto
      from Cons.IH[OF this, of m] Cons.prems r Suc False show ?thesis by (auto simp: nth_Cons split: nat.splits)
    qed
  qed
qed simp

lemma ex_le_Suc: "(\<exists>j \<le> Suc m. P j) \<longleftrightarrow> P 0 \<or> (\<exists>j \<le> m. P (Suc j))"
  by (metis Suc_le_mono le0 not0_implies_Suc)

lemma throttle_covers:
  "sorted (l # ts) \<Longrightarrow> \<forall>t \<in> set ts. t < 2 ^ 63 \<Longrightarrow> i < length ts \<Longrightarrow>
   ts ! i < l + 1000 \<or> (\<exists>j \<le> i. throttle_reports (of_nat l) ts ! j \<and> ts ! i < ts ! j + 1000)"
proof (induction ts arbitrary: l i)
  case (Cons t ts)
  show ?case
  proof (cases "t < l + 1000")
    case True
    then have r: "throttle_reports (of_nat l) (t # ts) = False # throttle_reports (of_nat l) ts"
      using Cons.prems by (simp add: throttled_nat)
    show ?thesis
    proof (cases i)
      case (Suc m)
      have "sorted (l # ts)" using Cons.prems(1) by auto
      from Cons.IH[OF this, of m] Cons.prems Suc r show ?thesis by (auto simp: ex_le_Suc)
    qed (use True in simp)
  next
    case False
    then have r: "throttle_reports (of_nat l) (t # ts) = True # throttle_reports (of_nat t) ts"
      using Cons.prems by (simp add: throttled_nat)
    show ?thesis
    proof (cases i)
      case 0
      then show ?thesis using r by auto
    next
      case (Suc m)
      have "sorted (t # ts)" using Cons.prems(1) by auto
      from Cons.IH[OF this, of m] Cons.prems Suc r show ?thesis by (auto simp: ex_le_Suc)
    qed
  qed
qed simp

text \<open>
  Throttled reports of injected input. While the clock does not go back, two reports are at least
  a second apart, and every injected key stroke over a work window comes less than a second after a
  report, or is one. The clock is the time since the epoch in milliseconds as a signed 64-bit number,
  at least a second.
\<close>

theorem injected_reports_spaced:
  assumes "sorted clock" "\<forall>t \<in> set clock. 1000 \<le> t \<and> t < 2 ^ 63" "i < length clock"
  shows "(throttle_reports 0 clock ! i \<longrightarrow>
       (\<forall>j < i. throttle_reports 0 clock ! j \<longrightarrow> clock ! j + 1000 \<le> clock ! i)) \<and>
     (\<exists>j \<le> i. throttle_reports 0 clock ! j \<and> clock ! j \<le> clock ! i \<and> clock ! i < clock ! j + 1000)"
proof -
  have s: "sorted (0 # clock)" "\<forall>t \<in> set clock. t < 2 ^ 63" using assms by auto
  have "\<not> clock ! i < 0 + 1000" using assms by (simp add: not_less)
  moreover have "clock ! j \<le> clock ! i" if "j \<le> i" for j using assms that by (simp add: sorted_nth_mono)
  ultimately show ?thesis
    using throttle_spaced[OF s assms(3)] throttle_covers[OF s assms(3)] by auto
qed

theorem injected_reports_spaced_witness:
  "throttle_reports 0 [5000, 5400, 6000] = [True, False, True] \<and>
   (\<exists>j \<le> 1. throttle_reports 0 [5000, 5400, 6000] ! j \<and> [5000, 5400, 6000 :: nat] ! 1 < [5000, 5400, 6000] ! j + 1000)"
proof -
  have "sorted [5000, 5400, 6000 :: nat]" "\<forall>t \<in> set [5000, 5400, 6000 :: nat]. 1000 \<le> t \<and> t < 2 ^ 63"
    "1 < length [5000, 5400, 6000 :: nat]" by simp_all
  from injected_reports_spaced[OF this] show ?thesis
    by (auto simp: throttled_def REPORT_THROTTLE_def)
qed

end
