(* ===== verification/Edge_Paint.thy ===== *)
theory Edge_Paint
  imports Os_Watch Overlay_Pixels
begin

text \<open>
  Drawing the Clave Edge (\<open>edge.rs\<close> of \<open>clave-mac\<close> and \<open>clave-win\<close>): the windows the frames are
  computed for, and on Windows the painting of the frames into the 32-bit back buffer of the overlay
  window, byte by byte, where a write outside the buffer is \<open>None\<close>. Integers of 32 bits are wrapped
  by \<open>i32\<close>. Creating the overlay window and blitting are the operating system's. The theorem carries
  the pixels of the geometry through to the bytes of the buffer.
\<close>

section \<open>Windows\<close>

text \<open>A top-level window as \<open>EnumWindows\<close> reports it, front to back, with what is asked of it.\<close>

record win_window =
  ww_hwnd :: u64
  ww_visible :: bool
  ww_iconic :: bool
  ww_pid :: u32
  ww_rect :: "(int \<times> int \<times> int \<times> int) option"

definition top_level_windows :: "win_window list \<Rightarrow> win_window list" where
  "top_level_windows ws = filter (\<lambda>w. ww_visible w \<and> \<not> ww_iconic w) ws"

definition window_pid :: "win_window \<Rightarrow> u32 option" where
  "window_pid w = (if ww_pid w \<noteq> 0 then Some (ww_pid w) else None)"

definition window_rect :: "win_window \<Rightarrow> rect_px option" where
  "window_rect w =
     (case ww_rect w of
        None \<Rightarrow> None
      | Some (l, t, r, b) \<Rightarrow>
          (let w = i32 (r - l); h = i32 (b - t)
           in if w \<ge> 1 \<and> h \<ge> 1 then Some (rect_new l t w h) else None))"

text \<open>The windows that take part, each with its geometry and whether it is a work window.\<close>

definition framed_windows :: "u32 list \<Rightarrow> u32 \<Rightarrow> win_window list \<Rightarrow> (window_geom \<times> bool) list" where
  "framed_windows supervised own ws =
     List.map_filter (\<lambda>w. case (window_pid w, window_rect w) of
         (Some pid, Some rect) \<Rightarrow>
           if pid = own then None
           else Some (\<lparr>wg_window = WindowId (ww_hwnd w), wg_rect = rect\<rparr>, pid \<in> set supervised)
       | _ \<Rightarrow> None) (top_level_windows ws)"

definition compute_frames :: "zone_registry \<Rightarrow> border_cfg \<Rightarrow> u32 \<Rightarrow> win_window list \<Rightarrow> frame list" where
  "compute_frames zones cfg own ws =
     (let supervised = supervised_pids zones
      in if supervised = [] then []
         else let fw = framed_windows supervised own ws;
                  windows = map fst fw;
                  work = map (\<lambda>(g, _). wg_window g) (filter snd fw)
              in if work = [] then [] else recompute_frames_themed windows work cfg [])"

section \<open>The back buffer\<close>

record surface =
  sf_origin :: "int \<times> int"
  sf_size :: "int \<times> int"

definition put_pixel :: "bytes \<Rightarrow> int \<Rightarrow> bytes \<Rightarrow> bytes option" where
  "put_pixel buf off bgra =
     (if 0 \<le> off \<and> nat off + length bgra \<le> length buf
      then Some (take (nat off) buf @ bgra @ drop (nat off + length bgra) buf) else None)"

definition fill_row :: "int \<Rightarrow> int \<Rightarrow> int \<Rightarrow> bytes \<Rightarrow> int \<Rightarrow> bytes \<Rightarrow> bytes option" where
  "fill_row x0 x1 stride bgra y buf =
     foldl (\<lambda>b x. Option.bind b (\<lambda>b. put_pixel b (y * stride + x * 4) bgra)) (Some buf) [x0..x1 - 1]"

definition fill :: "surface \<Rightarrow> rect_px \<Rightarrow> bytes \<Rightarrow> int \<Rightarrow> int \<Rightarrow> int \<Rightarrow> bytes \<Rightarrow> bytes option" where
  "fill sf seg bgra stride w h buf =
     (let x0 = max (i32 (rx seg - fst (sf_origin sf))) 0;
          y0 = max (i32 (ry seg - snd (sf_origin sf))) 0;
          x1 = min (i32 (i32 (rx seg - fst (sf_origin sf)) + rw seg)) w;
          y1 = min (i32 (i32 (ry seg - snd (sf_origin sf)) + rh seg)) h
      in foldl (\<lambda>b y. Option.bind b (fill_row x0 x1 stride bgra y)) (Some buf) [y0..y1 - 1])"

definition premultiply :: "u8 \<Rightarrow> u8 \<Rightarrow> u8" where
  "premultiply c a = ucast ((ucast c * ucast a :: u32) div 255)"

definition frame_bgra :: "frame \<Rightarrow> bytes" where
  "frame_bgra f =
     (let c = fr_color f
      in [premultiply (rgba_b c) (rgba_a c), premultiply (rgba_g c) (rgba_a c),
          premultiply (rgba_r c) (rgba_a c), rgba_a c])"

text \<open>\<open>write_bytes\<close> clears \<open>w * h * 4\<close> bytes, a product of 32-bit numbers, of the buffer.\<close>

definition paint :: "surface \<Rightarrow> frame list \<Rightarrow> bytes \<Rightarrow> bytes option" where
  "paint sf frames buf =
     (let (w, h) = sf_size sf;
          stride = i32 (w * 4);
          n = i32 (i32 (w * h) * 4)
      in if n < 0 \<or> length buf < nat n then None
         else foldl (\<lambda>b f. foldl (\<lambda>b seg. Option.bind b (fill sf seg (frame_bgra f) stride w h)) b (fr_segments f))
                (Some (replicate (nat n) 0 @ drop (nat n) buf)) frames)"

section \<open>macOS\<close>

definition round_half_away :: "real \<Rightarrow> int" where
  "round_half_away x = (if 0 \<le> x then \<lfloor>x + 1 / 2\<rfloor> else \<lceil>x - 1 / 2\<rceil>)"

definition as_i32 :: "int \<Rightarrow> int" where
  "as_i32 n = max (- (2 ^ 31)) (min (2 ^ 31 - 1) n)"

definition mac_window_geom :: "u32 \<Rightarrow> mac_window option \<Rightarrow> (window_geom \<times> u32) option" where
  "mac_window_geom own entry =
     (case entry of
        None \<Rightarrow> None
      | Some w \<Rightarrow>
          if mw_layer w \<noteq> Some 0 \<or> window_owner w = own then None
          else case mw_bounds w of
                 None \<Rightarrow> None
               | Some (x, y, width, height) \<Rightarrow>
                   if width < 1 \<or> height < 1 then None
                   else Some (\<lparr>wg_window = WindowId (word_of_int (case mw_number w of None \<Rightarrow> 0 | Some n \<Rightarrow> n)),
                               wg_rect = rect_new (as_i32 (round_half_away x)) (as_i32 (round_half_away y))
                                           (as_i32 (round_half_away width)) (as_i32 (round_half_away height))\<rparr>,
                              window_owner w))"

record screen_space =
  ss_min_x :: real
  ss_min_y :: real
  ss_width :: real
  ss_height :: real
  ss_primary_height :: real

text \<open>The frame of each screen: origin and size.\<close>

definition screen_space_of :: "(real \<times> real \<times> real \<times> real) list \<Rightarrow> screen_space" where
  "screen_space_of screens =
     (if screens = [] then \<lparr>ss_min_x = 0, ss_min_y = 0, ss_width = 0, ss_height = 0, ss_primary_height = 0\<rparr>
      else let min_x = Min (set (map (\<lambda>(x, y, w, h). x) screens));
               min_y = Min (set (map (\<lambda>(x, y, w, h). y) screens));
               max_x = Max (set (map (\<lambda>(x, y, w, h). x + w) screens));
               max_y = Max (set (map (\<lambda>(x, y, w, h). y + h) screens));
               primary_height = foldl (\<lambda>p (x, y, w, h). if x = 0 \<and> y = 0 then h else p) 0 screens
           in \<lparr>ss_min_x = min_x, ss_min_y = min_y, ss_width = max_x - min_x, ss_height = max_y - min_y,
               ss_primary_height = (if primary_height = 0 then max_y - min_y else primary_height)\<rparr>)"

text \<open>A layer of the overlay: x, y, width, height with y growing upwards from the bottom.\<close>

definition local_rect :: "screen_space \<Rightarrow> rect_px \<Rightarrow> real \<times> real \<times> real \<times> real" where
  "local_rect space s =
     (real_of_int (rx s) - ss_min_x space,
      (ss_primary_height space - (real_of_int (ry s) + real_of_int (rh s))) - ss_min_y space,
      real_of_int (rw s), real_of_int (rh s))"

definition compute_segments ::
  "zone_registry \<Rightarrow> (window_id, rgba) hmap \<Rightarrow> border_cfg \<Rightarrow> u32 \<Rightarrow> screen_space \<Rightarrow> mac_window option list option
     \<Rightarrow> ((real \<times> real \<times> real \<times> real) \<times> rgba) list" where
  "compute_segments zones tracked cfg own space info =
     (let supervised = supervised_pids zones
      in if supervised = [] \<and> tracked = [] then []
         else case info of
                None \<Rightarrow> []
              | Some ws \<Rightarrow>
                  (let gs = List.map_filter (mac_window_geom own) ws;
                       work = map (\<lambda>(g, _). wg_window g)
                                (filter (\<lambda>(g, owner). owner \<in> set supervised \<or> hm_contains tracked (wg_window g)) gs);
                       frames = recompute_frames_themed (map fst gs) work cfg tracked
                   in concat (map (\<lambda>f. map (\<lambda>s. (local_rect space s, fr_color f)) (fr_segments f)) frames)))"

section \<open>Pixels of the buffer\<close>

definition pix :: "int \<Rightarrow> bytes \<Rightarrow> int \<Rightarrow> int \<Rightarrow> bytes" where
  "pix w buf x y = take 4 (drop (4 * nat (y * w + x)) buf)"

text \<open>\<open>buf'\<close> has the colour \<open>c\<close> on the pixels of \<open>S\<close> and is \<open>buf\<close> elsewhere.\<close>

definition painted :: "int \<Rightarrow> int \<Rightarrow> bytes \<Rightarrow> bytes \<Rightarrow> (int \<times> int) set \<Rightarrow> bytes \<Rightarrow> bool" where
  "painted w h c buf S buf' =
     (length buf' = length buf \<and>
      (\<forall>x y. 0 \<le> x \<and> x < w \<and> 0 \<le> y \<and> y < h \<longrightarrow>
         pix w buf' x y = (if (x, y) \<in> S then c else pix w buf x y)))"

lemma painted_refl: "painted w h c buf {} buf"
  by (simp add: painted_def)

lemma painted_trans: "painted w h c a S b \<Longrightarrow> painted w h c b T d \<Longrightarrow> painted w h c a (S \<union> T) d"
  by (auto simp: painted_def)

lemma painted_cong:
  assumes "\<And>x y. 0 \<le> x \<Longrightarrow> x < w \<Longrightarrow> 0 \<le> y \<Longrightarrow> y < h \<Longrightarrow> (x, y) \<in> S \<longleftrightarrow> (x, y) \<in> T"
  shows "painted w h c buf S buf' \<longleftrightarrow> painted w h c buf T buf'"
  using assms unfolding painted_def by (intro conj_cong refl iff_allI) (auto split: if_splits)

lemma splice_same: "length c = 4 \<Longrightarrow> 4 * i + 4 \<le> length buf \<Longrightarrow>
   take 4 (drop (4 * i) (take (4 * i) buf @ c @ drop (4 * i + 4) buf)) = c"
  by simp

lemma splice_other:
  assumes "length c = 4" "4 * i + 4 \<le> length buf" "i \<noteq> j"
  shows "take 4 (drop (4 * j) (take (4 * i) buf @ c @ drop (4 * i + 4) buf)) = take 4 (drop (4 * j) buf)"
proof (cases "j < i")
  case True
  then show ?thesis using assms by (simp add: drop_take)
next
  case False
  then obtain k where "j = i + 1 + k" using assms(3) by (metis Suc_eq_plus1 add.assoc add.commute less_iff_Suc_add linorder_neqE_nat)
  then show ?thesis using assms(1,2) by (simp add: algebra_simps)
qed

lemma pixel_index:
  fixes w h x y :: int
  assumes "0 \<le> x" "x < w" "0 \<le> y" "y < h"
  shows "0 \<le> y * w + x" "y * w + x < w * h"
proof -
  show "0 \<le> y * w + x" using assms by simp
  have "y * w + x < (y + 1) * w" using assms(2) by (simp add: algebra_simps)
  also have "\<dots> \<le> h * w" using assms by (intro mult_right_mono) auto
  finally show "y * w + x < w * h" by (simp add: mult.commute)
qed

lemma pixel_index_inj:
  fixes w x y x' y' :: int
  assumes "0 \<le> x" "x < w" "0 \<le> x'" "x' < w" "y * w + x = y' * w + x'"
  shows "x = x' \<and> y = y'"
proof -
  have "(y * w + x) div w = y" "(y' * w + x') div w = y'" using assms(1-4) by simp_all
  then have "y = y'" using assms(5) by metis
  then show ?thesis using assms(5) by simp
qed

lemma put_pixel_painted:
  assumes "length c = 4" "length buf = nat (w * h * 4)" "0 \<le> x" "x < w" "0 \<le> y" "y < h"
  shows "\<exists>buf'. put_pixel buf (y * (w * 4) + x * 4) c = Some buf' \<and> painted w h c buf {(x, y)} buf'"
proof -
  let ?i = "nat (y * w + x)"
  have i: "0 \<le> y * w + x" "y * w + x < w * h" using pixel_index assms by auto
  then have off: "y * (w * 4) + x * 4 = 4 * int ?i" by simp
  have "int ?i + 1 \<le> w * h" using i by simp
  then have fits: "4 * ?i + 4 \<le> length buf" using assms(2) by linarith
  define buf' where "buf' = take (4 * ?i) buf @ c @ drop (4 * ?i + 4) buf"
  have "put_pixel buf (y * (w * 4) + x * 4) c = Some buf'"
    using fits assms(1) unfolding put_pixel_def off by (simp add: buf'_def nat_mult_distrib)
  moreover have "painted w h c buf {(x, y)} buf'"
    unfolding painted_def
  proof (intro conjI allI impI)
    show "length buf' = length buf" using fits assms(1) by (simp add: buf'_def)
    fix x' y' assume r: "0 \<le> x' \<and> x' < w \<and> 0 \<le> y' \<and> y' < h"
    have "0 \<le> y' * w + x'" using pixel_index(1)[of x' w y' h] r by blast
    then have "nat (y' * w + x') = ?i \<longleftrightarrow> y' * w + x' = y * w + x" using i(1) by linarith
    then have "nat (y' * w + x') = ?i \<longleftrightarrow> (x', y') = (x, y)"
      using pixel_index_inj[of x' w x y' y] r assms(3,4) by blast
    then show "pix w buf' x' y' = (if (x', y') \<in> {(x, y)} then c else pix w buf x' y')"
    proof (cases "(x', y') = (x, y)")
      case True
      then show ?thesis using splice_same[OF assms(1) fits] by (simp only: pix_def buf'_def prod.inject insertI1 if_True)
    next
      case False
      then have "?i \<noteq> nat (y' * w + x')" using \<open>nat (y' * w + x') = ?i \<longleftrightarrow> (x', y') = (x, y)\<close> by metis
      from splice_other[OF assms(1) fits this] False show ?thesis by (simp only: pix_def buf'_def singleton_iff if_False)
    qed
  qed
  ultimately show ?thesis by blast
qed

lemma fold_painted:
  assumes "\<And>a b. a \<in> set as \<Longrightarrow> length b = n \<Longrightarrow> \<exists>b'. f a b = Some b' \<and> painted w h c b (S a) b'"
    and "length buf = n"
  shows "\<exists>buf'. foldl (\<lambda>b a. Option.bind b (f a)) (Some buf) as = Some buf' \<and> painted w h c buf (\<Union>a \<in> set as. S a) buf'"
  using assms
proof (induction as arbitrary: buf)
  case Nil
  then show ?case by (simp add: painted_refl)
next
  case (Cons a as)
  obtain b where b: "f a buf = Some b" "painted w h c buf (S a) b" using Cons.prems by auto
  then have "length b = n" using Cons.prems(2) by (simp add: painted_def)
  from Cons.IH[OF Cons.prems(1) this] obtain buf' where
    "foldl (\<lambda>b a. Option.bind b (f a)) (Some b) as = Some buf'" "painted w h c b (\<Union>a \<in> set as. S a) buf'" by auto
  then show ?case using b painted_trans by fastforce
qed

lemma fill_row_painted:
  assumes "length c = 4" "length buf = nat (w * h * 4)" "0 \<le> x0" "x1 \<le> w" "0 \<le> y" "y < h"
  shows "\<exists>buf'. fill_row x0 x1 (w * 4) c y buf = Some buf' \<and> painted w h c buf {(x, y') |x y'. x0 \<le> x \<and> x < x1 \<and> y' = y} buf'"
proof -
  have eq: "(\<Union>x \<in> set [x0..x1 - 1]. {(x, y)}) = {(x, y') |x y'. x0 \<le> x \<and> x < x1 \<and> y' = y}" by auto
  have "\<exists>buf'. fill_row x0 x1 (w * 4) c y buf = Some buf' \<and> painted w h c buf (\<Union>x \<in> set [x0..x1 - 1]. {(x, y)}) buf'"
    unfolding fill_row_def
  proof (rule fold_painted[OF put_pixel_painted[OF assms(1)] assms(2)])
    fix x and b :: bytes assume "x \<in> set [x0..x1 - 1]" "length b = nat (w * h * 4)"
    then show "length b = nat (w * h * 4)" "0 \<le> x" "x < w" "0 \<le> y" "y < h" using assms(3-6) by simp_all
  qed
  then show ?thesis unfolding eq .
qed

text \<open>The pixels of the surface that a rectangle of the screen covers.\<close>

definition surface_pixels :: "surface \<Rightarrow> rect_px \<Rightarrow> (int \<times> int) set" where
  "surface_pixels sf seg = {(x, y). covers seg (x + fst (sf_origin sf), y + snd (sf_origin sf))}"

definition surface_ok :: "surface \<Rightarrow> bool" where
  "surface_ok sf =
     (case (sf_origin sf, sf_size sf) of ((ox, oy), (w, h)) \<Rightarrow>
        - (2 ^ 29) \<le> ox \<and> ox \<le> 2 ^ 29 \<and> - (2 ^ 29) \<le> oy \<and> oy \<le> 2 ^ 29 \<and> 1 \<le> w \<and> 1 \<le> h \<and> w * h < 2 ^ 29)"

lemma fill_painted:
  assumes sf: "surface_ok sf" "sf_size sf = (w, h)" and seg: "on_screen seg"
    and c: "length c = 4" and buf: "length buf = nat (w * h * 4)"
  shows "\<exists>buf'. fill sf seg c (w * 4) w h buf = Some buf' \<and> painted w h c buf (surface_pixels sf seg) buf'"
proof -
  obtain ox oy where o: "sf_origin sf = (ox, oy)" by (cases "sf_origin sf")
  have wrap: "i32 (rx seg - ox) = rx seg - ox" "i32 (ry seg - oy) = ry seg - oy"
    "i32 (rx seg - ox + rw seg) = rx seg + rw seg - ox" "i32 (ry seg - oy + rh seg) = ry seg + rh seg - oy"
    using sf seg by (auto simp: surface_ok_def o on_screen_def i32_small algebra_simps)
  let ?x0 = "max (rx seg - ox) 0" and ?y0 = "max (ry seg - oy) 0"
  let ?x1 = "min (rx seg + rw seg - ox) w" and ?y1 = "min (ry seg + rh seg - oy) h"
  have "fill sf seg c (w * 4) w h buf = foldl (\<lambda>b y. Option.bind b (fill_row ?x0 ?x1 (w * 4) c y)) (Some buf) [?y0..?y1 - 1]"
    by (simp add: fill_def o wrap)
  moreover have "\<exists>buf'. foldl (\<lambda>b y. Option.bind b (fill_row ?x0 ?x1 (w * 4) c y)) (Some buf) [?y0..?y1 - 1] = Some buf' \<and>
      painted w h c buf (\<Union>y \<in> set [?y0..?y1 - 1]. {(x, y') |x y'. ?x0 \<le> x \<and> x < ?x1 \<and> y' = y}) buf'"
    by (rule fold_painted[OF fill_row_painted[OF c]]) (use buf in auto)
  moreover have "painted w h c buf (\<Union>y \<in> set [?y0..?y1 - 1]. {(x, y') |x y'. ?x0 \<le> x \<and> x < ?x1 \<and> y' = y}) b \<longleftrightarrow>
      painted w h c buf (surface_pixels sf seg) b" for b
    by (rule painted_cong) (auto simp: surface_pixels_def covers_def o)
  ultimately show ?thesis by auto
qed

lemma i32_quad: "0 \<le> n \<Longrightarrow> n < 2 ^ 29 \<Longrightarrow> i32 (i32 n * 4) = n * 4"
  by (simp add: i32_id)

lemma bind_foldl: "foldl (\<lambda>b a. Option.bind b (f a)) None as = None"
  by (induction as) auto

lemma paint_painted:
  assumes sf: "surface_ok sf" "sf_origin sf = (ox, oy)" "sf_size sf = (w, h)" and buf: "length buf = nat (w * h * 4)"
    and fr: "\<And>f. f \<in> set frames \<Longrightarrow> list_all on_screen (fr_segments f) \<and> frame_bgra f = c"
  shows "\<exists>buf'. paint sf frames buf = Some buf' \<and>
     painted w h c (replicate (nat (w * h * 4)) 0)
       {(x, y). \<exists>f \<in> set frames. covers_any (fr_segments f) (x + ox, y + oy)} buf'"
proof -
  have w: "1 \<le> w" "1 \<le> h" "w * h < 2 ^ 29" using sf by (simp_all add: surface_ok_def)
  have "w * 1 \<le> w * h" using w by (intro mult_left_mono) auto
  then have "w < 2 ^ 29" using w(3) by linarith
  then have "i32 (w * 4) = w * 4" using w by (intro i32_id) simp_all
  moreover have "i32 (i32 (w * h) * 4) = w * h * 4" using w by (intro i32_quad) simp_all
  ultimately have wrap: "i32 (w * 4) = w * 4" "i32 (i32 (w * h) * 4) = w * h * 4" by simp_all
  have n: "0 \<le> w * h * 4" using w by simp
  define g where "g f b = foldl (\<lambda>b seg. Option.bind b (fill sf seg (frame_bgra f) (w * 4) w h)) (Some b) (fr_segments f)" for f b
  have bind: "foldl (\<lambda>b seg. Option.bind b (fill sf seg (frame_bgra f) (w * 4) w h)) b (fr_segments f) = Option.bind b (g f)" for f b
    by (cases b) (simp_all add: g_def bind_foldl)
  have p: "paint sf frames buf = foldl (\<lambda>b f. Option.bind b (g f)) (Some (replicate (nat (w * h * 4)) 0)) frames"
    using n buf by (simp add: paint_def sf Let_def wrap bind)
  have g: "\<exists>b'. g f b = Some b' \<and> painted w h c b (\<Union>seg \<in> set (fr_segments f). surface_pixels sf seg) b'"
    if f: "f \<in> set frames" and b: "length b = nat (w * h * 4)" for f b
    unfolding g_def
  proof (rule fold_painted[OF _ b])
    fix seg and b' :: bytes assume "seg \<in> set (fr_segments f)" "length b' = nat (w * h * 4)"
    then show "\<exists>b''. fill sf seg (frame_bgra f) (w * 4) w h b' = Some b'' \<and> painted w h c b' (surface_pixels sf seg) b''"
      using fill_painted[OF sf(1,3), of seg "frame_bgra f" b'] fr[OF f] by (simp add: list_all_iff frame_bgra_def Let_def)
  qed
  from fold_painted[where buf = "replicate (nat (w * h * 4)) 0" and as = frames and f = g and n = "nat (w * h * 4)"
      and S = "\<lambda>f. \<Union>seg \<in> set (fr_segments f). surface_pixels sf seg", OF g]
  obtain buf' where "paint sf frames buf = Some buf'"
    "painted w h c (replicate (nat (w * h * 4)) 0) (\<Union>f \<in> set frames. \<Union>seg \<in> set (fr_segments f). surface_pixels sf seg) buf'"
    using p by auto
  moreover have "(\<Union>f \<in> set frames. \<Union>seg \<in> set (fr_segments f). surface_pixels sf seg) =
      {(x, y). \<exists>f \<in> set frames. covers_any (fr_segments f) (x + ox, y + oy)}"
    by (auto simp: surface_pixels_def sf covers_any_ex)
  ultimately show ?thesis by auto
qed

section \<open>Frames by pixels\<close>

lemma window_frame_on_screen:
  assumes "on_screen (wg_rect wg)" "list_all (\<lambda>w. on_screen (wg_rect w)) occs" "f \<in> set (window_frame work t col occs wg)"
  shows "list_all on_screen (fr_segments f)"
proof -
  have e: "\<not> rect_is_empty (wg_rect wg)" and f: "fr_segments f = segments_of (ring (wg_rect wg) t) (visible_after [wg_rect wg] occs)"
    "fr_segments f \<noteq> []"
    using assms(3) by (auto simp: window_frame_def Let_def split: if_splits)
  have "0 < t" using f e by (cases "0 < t") (auto simp: segments_of_def ring_def)
  then have b: "list_all on_screen (ring (wg_rect wg) t)" using ring_spec(1)[OF assms(1) e] by simp
  have v: "list_all on_screen (visible_after [wg_rect wg] occs)"
    using visible_after_spec[of "[wg_rect wg]" occs] assms(1,2) by (simp add: disjoint_rects_def)
  show ?thesis
    unfolding list_all_iff
  proof
    fix s assume "s \<in> set (fr_segments f)"
    then obtain band r where "band \<in> set (ring (wg_rect wg) t)" "r \<in> set (visible_after [wg_rect wg] occs)"
      "intersect band r = Some s"
      unfolding f(1) segments_of_def by (auto split: option.splits)
    then show "on_screen s" using b v intersect_Some(1) unfolding list_all_iff by blast
  qed
qed

lemma frames_at:
  "f \<in> set (frames_impl ws work t col) \<longleftrightarrow>
   (\<exists>i < length ws. f \<in> set (window_frame work t col (take i ws) (ws ! i)))"
  by (auto simp: frames_impl_def)

lemma frames_pixels:
  assumes "list_all (\<lambda>w. on_screen (wg_rect w)) ws"
  shows "(\<exists>f \<in> set (frames_impl ws work t col). covers_any (fr_segments f) p) \<longleftrightarrow>
     (\<exists>i < length ws. wg_window (ws ! i) \<in> set work \<and> 0 < t \<and> in_ring (wg_rect (ws ! i)) t p \<and>
        \<not> (\<exists>w \<in> set (take i ws). covers (wg_rect w) p))"
    and "f \<in> set (frames_impl ws work t col) \<Longrightarrow> list_all on_screen (fr_segments f)"
proof -
  have a: "on_screen (wg_rect (ws ! i))" "list_all (\<lambda>w. on_screen (wg_rect w)) (take i ws)" if "i < length ws" for i
    using assms that by (auto simp: list_all_length list_all_iff dest: in_set_takeD)
  have "(\<exists>f \<in> set (frames_impl ws work t col). covers_any (fr_segments f) p) \<longleftrightarrow>
      (\<exists>i < length ws. \<exists>f \<in> set (window_frame work t col (take i ws) (ws ! i)). covers_any (fr_segments f) p)"
    unfolding Bex_def frames_at by blast
  also have "\<dots> \<longleftrightarrow> (\<exists>i < length ws. wg_window (ws ! i) \<in> set work \<and> 0 < t \<and> in_ring (wg_rect (ws ! i)) t p \<and>
        \<not> (\<exists>w \<in> set (take i ws). covers (wg_rect w) p))"
    by (intro ex_cong1 conj_cong[OF refl] window_frame_pixels a)
  finally show "(\<exists>f \<in> set (frames_impl ws work t col). covers_any (fr_segments f) p) \<longleftrightarrow>
     (\<exists>i < length ws. wg_window (ws ! i) \<in> set work \<and> 0 < t \<and> in_ring (wg_rect (ws ! i)) t p \<and>
        \<not> (\<exists>w \<in> set (take i ws). covers (wg_rect w) p))" .
  show "list_all on_screen (fr_segments f)" if "f \<in> set (frames_impl ws work t col)"
    using that window_frame_on_screen[OF a] by (auto simp: frames_at)
qed

section \<open>What is on the overlay\<close>

definition work_ids :: "(window_geom \<times> bool) list \<Rightarrow> window_id list" where
  "work_ids fw = map (\<lambda>(g, _). wg_window g) (filter snd fw)"

lemma compute_frames_impl:
  assumes "fw = framed_windows (supervised_pids zones) own wins"
  shows "compute_frames zones cfg own wins = frames_impl (map fst fw) (work_ids fw) (bc_thickness cfg) (\<lambda>_. bc_color cfg)"
proof -
  have none: "frames_impl (map fst fw) [] (bc_thickness cfg) (\<lambda>_. bc_color cfg) = []" by (simp add: frames_impl_def window_frame_def)
  have "work_ids fw = []" if "supervised_pids zones = []"
  proof -
    have "\<not> snd x" if "x \<in> set fw" for x
      using that \<open>supervised_pids zones = []\<close> by (auto simp: assms framed_windows_def List.map_filter_def split: option.splits if_splits)
    then show ?thesis by (simp add: work_ids_def filter_empty_conv)
  qed
  then show ?thesis
    using none by (auto simp: compute_frames_def recompute_frames_themed_def assms work_ids_def hm_get_def Let_def)
qed

lemma work_ids_iff:
  assumes "distinct (map (wg_window \<circ> fst) fw)" "i < length fw"
  shows "wg_window (fst (fw ! i)) \<in> set (work_ids fw) \<longleftrightarrow> snd (fw ! i)"
proof
  assume "wg_window (fst (fw ! i)) \<in> set (work_ids fw)"
  then obtain j where j: "j < length fw" "snd (fw ! j)" "wg_window (fst (fw ! j)) = wg_window (fst (fw ! i))"
    by (auto simp: work_ids_def in_set_conv_nth)
  then have "j = i" using assms by (auto simp: distinct_conv_nth)
  then show "snd (fw ! i)" using j by simp
next
  assume "snd (fw ! i)"
  then have "fw ! i \<in> set (filter snd fw)" using assms(2) by simp
  then show "wg_window (fst (fw ! i)) \<in> set (work_ids fw)" unfolding work_ids_def by (force simp: case_prod_beta)
qed

lemma pix_blank:
  assumes "0 \<le> x" "x < w" "0 \<le> y" "y < h"
  shows "pix w (replicate (nat (w * h * 4)) 0) x y = [0, 0, 0, 0]"
proof -
  have "y * w + x < w * h" "0 \<le> y * w + x" using pixel_index[of x w y h] assms by auto
  then have "nat (w * h * 4) - 4 * nat (y * w + x) \<ge> 4" by linarith
  then show ?thesis by (simp add: pix_def numeral_eq_Suc)
qed

text \<open>
  (C29) The Clave Edge on Windows, to the pixel. On a virtual screen whose buffer fits 31 bits, with
  window coordinates below \<open>2\<^sup>2\<^sup>9\<close>, painting never writes outside the back buffer, and afterwards
  each pixel has the border colour, premultiplied, exactly when it lies within the border of a
  visible window of a supervised process and no window in front covers it; every other pixel is fully
  transparent. The windows are the visible ones that are not the daemon's own, front to back.
\<close>

theorem win_edge_pixels:
  assumes sf: "surface_ok sf" "sf_origin sf = (ox, oy)" "sf_size sf = (w, h)" and buf: "length buf = nat (w * h * 4)"
    and ws: "fw = framed_windows (supervised_pids zones) own wins" "\<forall>(g, _) \<in> set fw. on_screen (wg_rect g)"
    and ids: "distinct (map (wg_window \<circ> fst) fw)"
    and px: "0 \<le> x" "x < w" "0 \<le> y" "y < h"
  shows "\<exists>buf'. paint sf (compute_frames zones cfg own wins) buf = Some buf' \<and> length buf' = length buf \<and>
     pix w buf' x y =
       (if \<exists>i < length fw. snd (fw ! i) \<and> 0 < bc_thickness cfg \<and>
             in_ring (wg_rect (fst (fw ! i))) (bc_thickness cfg) (x + ox, y + oy) \<and>
             \<not> (\<exists>(g, _) \<in> set (take i fw). covers (wg_rect g) (x + ox, y + oy))
        then frame_bgra \<lparr>fr_window = WindowId 0, fr_color = bc_color cfg, fr_segments = []\<rparr> else [0, 0, 0, 0])"
proof -
  define c where "c = frame_bgra \<lparr>fr_window = WindowId 0, fr_color = bc_color cfg, fr_segments = []\<rparr>"
  let ?fr = "frames_impl (map fst fw) (work_ids fw) (bc_thickness cfg) (\<lambda>_. bc_color cfg)"
  let ?on = "\<lambda>x y. \<exists>f \<in> set ?fr. covers_any (fr_segments f) (x + ox, y + oy)"
  have scr: "list_all (\<lambda>w. on_screen (wg_rect w)) (map fst fw)" using ws(2) by (auto simp: list_all_iff)
  have bgra: "frame_bgra f = c" if "f \<in> set ?fr" for f
    using that by (auto simp: frames_at window_frame_def Let_def c_def frame_bgra_def split: if_splits)
  have "\<exists>buf'. paint sf ?fr buf = Some buf' \<and> painted w h c (replicate (nat (w * h * 4)) 0) {(x, y). ?on x y} buf'"
    using frames_pixels(2)[OF scr] bgra by (intro paint_painted[OF sf buf]) auto
  then obtain buf' where p: "paint sf ?fr buf = Some buf'" "painted w h c (replicate (nat (w * h * 4)) 0) {(x, y). ?on x y} buf'"
    by blast
  have "?on x y \<longleftrightarrow>
      (\<exists>i < length fw. snd (fw ! i) \<and> 0 < bc_thickness cfg \<and>
             in_ring (wg_rect (fst (fw ! i))) (bc_thickness cfg) (x + ox, y + oy) \<and>
             \<not> (\<exists>(g, _) \<in> set (take i fw). covers (wg_rect g) (x + ox, y + oy)))"
    unfolding frames_pixels(1)[OF scr] length_map
    by (intro ex_cong1 conj_cong[OF refl]) (simp add: work_ids_iff[OF ids] take_map case_prod_beta)
  moreover have "length buf' = length buf" using p(2) by (simp add: painted_def buf)
  moreover have "pix w buf' x y = (if ?on x y then c else [0, 0, 0, 0])"
    using p(2) px pix_blank[OF px] unfolding painted_def by simp
  ultimately show ?thesis unfolding compute_frames_impl[OF ws(1)] c_def using p(1) by auto
qed

text \<open>A screen of four by three pixels with a work window of three by three: its left border at \<open>(0, 1)\<close>.\<close>

definition edge_zones :: zone_registry where
  "edge_zones = zone_join zone_new (Windows 7 0) Launcher"

definition edge_windows :: "win_window list" where
  "edge_windows = [\<lparr>ww_hwnd = 5, ww_visible = True, ww_iconic = False, ww_pid = 7, ww_rect = Some (0, 0, 3, 3)\<rparr>]"

definition edge_surface :: surface where
  "edge_surface = \<lparr>sf_origin = (0, 0), sf_size = (4, 3)\<rparr>"

lemma edge_framed:
  "framed_windows (supervised_pids edge_zones) 1 edge_windows =
     [(\<lparr>wg_window = WindowId 5, wg_rect = rect_new 0 0 3 3\<rparr>, True)]"
  by (auto simp: framed_windows_def edge_zones_def edge_windows_def supervised_pids_def zone_join_def zone_new_def
      hm_insert_def hm_keys_def top_level_windows_def window_pid_def window_rect_def i32_small List.map_filter_def)

theorem win_edge_pixels_witness:
  "\<exists>buf'. paint edge_surface (compute_frames edge_zones \<lparr>bc_thickness = 1, bc_color = CLAVE_EDGE\<rparr> 1 edge_windows)
       (replicate 48 7) = Some buf' \<and> pix 4 buf' 0 1 = [0xD6, 0x6F, 0x1E, 0xFF]"
proof -
  let ?w = "[(\<lparr>wg_window = WindowId 5, wg_rect = rect_new 0 0 3 3\<rparr>, True)]"
  have a: "surface_ok edge_surface" "sf_origin edge_surface = (0, 0)" "sf_size edge_surface = (4, 3)"
    by (simp_all add: edge_surface_def surface_ok_def)
  have b: "\<forall>(g, _) \<in> set ?w. on_screen (wg_rect g)" "distinct (map (wg_window \<circ> fst) ?w)"
    "length (replicate 48 (7 :: u8)) = nat (4 * 3 * 4)"
    by (simp_all add: on_screen_def rect_new_def)
  have r: "in_ring (rect_new 0 0 3 3) 1 (0, 1)" by (simp add: in_ring_def covers_def rect_new_def)
  have c: "frame_bgra \<lparr>fr_window = WindowId 0, fr_color = CLAVE_EDGE, fr_segments = []\<rparr> = [0xD6, 0x6F, 0x1E, 0xFF]"
    by code_simp
  from win_edge_pixels[OF a b(3) edge_framed[symmetric] b(1,2), of 0 1 "\<lparr>bc_thickness = 1, bc_color = CLAVE_EDGE\<rparr>"]
  show ?thesis using r c by auto
qed

end
