(* ===== verification/Mac_Gate.thy ===== *)
theory Mac_Gate
  imports Path Split_Router
begin

text \<open>
  The macOS system extension's entry points (\<open>clave-mac\<close>: \<open>lib.rs\<close>, \<open>es_gate.rs\<close>) and the platform
  objects of both systems (\<open>platform.rs\<close> of \<open>clave-mac\<close> and \<open>clave-win\<close>, \<open>sip.rs\<close>). The statics the
  entry points share are one record; a null pointer is \<open>None\<close>, a C string that is not UTF-8 \<open>Some None\<close>.
  Decoding JSON is a parameter. The theorem says what the file gate answers after any history of
  calls, from a reference definition that reads the history and keeps no state.
\<close>

section \<open>The file gate (es\_gate.rs)\<close>

record es_gate_config =
  eg_mount_prefix :: string
  eg_allow_save_outside_enclave :: bool

definition es_gate_config_default :: es_gate_config where
  "es_gate_config_default =
     \<lparr>eg_mount_prefix = ''/Volumes/ClaveDisk'', eg_allow_save_outside_enclave = False\<rparr>"

definition set_mount_prefix :: "es_gate_config \<Rightarrow> string \<Rightarrow> es_gate_config" where
  "set_mount_prefix g pre = g\<lparr>eg_mount_prefix := trim_end_matches pre (CHR ''/'')\<rparr>"

definition set_allow_save_outside_enclave :: "es_gate_config \<Rightarrow> bool \<Rightarrow> es_gate_config" where
  "set_allow_save_outside_enclave g allow = g\<lparr>eg_allow_save_outside_enclave := allow\<rparr>"

definition apply_file_policy :: "es_gate_config \<Rightarrow> file_policy \<Rightarrow> es_gate_config" where
  "apply_file_policy g files = g\<lparr>eg_allow_save_outside_enclave := fp_allow_save_outside_enclave files\<rparr>"

definition authorize_open_with :: "zone_registry \<Rightarrow> proc_id \<Rightarrow> string \<Rightarrow> bool \<Rightarrow> es_gate_config \<Rightarrow> bool" where
  "authorize_open_with zones p path write config =
     (let inside = is_under_mount path (eg_mount_prefix config);
          acc = (if write then Write else Read)
      in is_allow (decide_file_open (is_supervised zones p) inside acc (eg_allow_save_outside_enclave config)))"

definition authorize_relocation_with ::
  "zone_registry \<Rightarrow> proc_id \<Rightarrow> string \<Rightarrow> string \<Rightarrow> es_gate_config \<Rightarrow> bool" where
  "authorize_relocation_with zones p source target config =
     (authorize_open_with zones p source False config \<and> authorize_open_with zones p target True config)"

section \<open>The entry points (lib.rs)\<close>

type_synonym audit_token = "u32 \<times> u32 \<times> u32 \<times> u32 \<times> u32 \<times> u32 \<times> u32 \<times> u32"

fun proc_macos :: "audit_token \<Rightarrow> proc_id" where
  "proc_macos (a, b, c, d, e, f, g, h) = Macos a b c d e f g h"

type_synonym c_string = "string option option"

definition read_cstr :: "c_string \<Rightarrow> string" where
  "read_cstr p = (case p of Some (Some s) \<Rightarrow> s | _ \<Rightarrow> [])"

definition read_token :: "audit_token option \<Rightarrow> audit_token option" where
  "read_token p = p"

record mac_statics =
  ms_zones :: zone_registry
  ms_policy :: app_policy
  ms_gate :: es_gate_config

definition mac_statics_new :: mac_statics where
  "mac_statics_new = \<lparr>ms_zones = zone_new, ms_policy = app_policy_empty, ms_gate = es_gate_config_default\<rparr>"

fun route_code :: "route \<Rightarrow> u8" where
  "route_code RDirect = 0"
| "route_code RTunnel = 1"
| "route_code RBlock = 2"

definition clave_mac_route_flow :: "mac_statics \<Rightarrow> audit_token option \<Rightarrow> bool \<Rightarrow> u8" where
  "clave_mac_route_flow m token_ptr dst_blocked =
     (case read_token token_ptr of
        Some t \<Rightarrow> route_code (net_route (proc_macos t) (ms_zones m) dst_blocked)
      | None \<Rightarrow> route_code RDirect)"

record policy_json =
  pj_bundle :: "bytes \<Rightarrow> policy_bundle option"
  pj_apps :: "bytes \<Rightarrow> app_policy option"

definition clave_mac_load_policy_json :: "policy_json \<Rightarrow> mac_statics \<Rightarrow> bytes option \<Rightarrow> mac_statics \<times> bool" where
  "clave_mac_load_policy_json j m ptr =
     (case ptr of
        None \<Rightarrow> (m, False)
      | Some bs \<Rightarrow>
          (case pj_bundle j bs of
             Some bundle \<Rightarrow>
               (m\<lparr>ms_policy := pb_apps bundle, ms_gate := apply_file_policy (ms_gate m) (pb_files bundle)\<rparr>, True)
           | None \<Rightarrow>
               (case pj_apps j bs of Some parsed \<Rightarrow> (m\<lparr>ms_policy := parsed\<rparr>, True) | None \<Rightarrow> (m, False))))"

definition clave_mac_authorize_exec ::
  "mac_statics \<Rightarrow> audit_token option \<Rightarrow> audit_token option \<Rightarrow> c_string \<Rightarrow> c_string \<Rightarrow> bool \<Rightarrow> mac_statics \<times> bool" where
  "clave_mac_authorize_exec m parent_token target_token team_id signing_id is_platform_binary =
     (let parent_supervised = (case read_token parent_token of
            Some t \<Rightarrow> is_supervised (ms_zones m) (proc_macos t) | None \<Rightarrow> False);
          binary = BMacos (read_cstr team_id) (read_cstr signing_id);
          verdict = classify_exec binary is_platform_binary parent_supervised (ms_policy m)
      in (if ev_joins_zone verdict
          then case read_token target_token of
                 Some t \<Rightarrow>
                   (let reason = (case ev_matched verdict of
                          Some _ \<Rightarrow> AllowList
                        | None \<Rightarrow> Child (proc_macos (case read_token parent_token of
                                      Some p \<Rightarrow> p | None \<Rightarrow> (0, 0, 0, 0, 0, 0, 0, 0))))
                    in m\<lparr>ms_zones := zone_join (ms_zones m) (proc_macos t) reason\<rparr>)
               | None \<Rightarrow> m
          else m, ev_allow verdict))"

definition clave_mac_zone_join :: "mac_statics \<Rightarrow> audit_token option \<Rightarrow> mac_statics" where
  "clave_mac_zone_join m token_ptr =
     (case read_token token_ptr of
        Some t \<Rightarrow> m\<lparr>ms_zones := zone_join (ms_zones m) (proc_macos t) Launcher\<rparr> | None \<Rightarrow> m)"

definition clave_mac_zone_leave :: "mac_statics \<Rightarrow> audit_token option \<Rightarrow> mac_statics" where
  "clave_mac_zone_leave m token_ptr =
     (case read_token token_ptr of
        Some t \<Rightarrow> m\<lparr>ms_zones := zone_leave (ms_zones m) (proc_macos t)\<rparr> | None \<Rightarrow> m)"

definition clave_mac_can_access_volume :: "mac_statics \<Rightarrow> audit_token option \<Rightarrow> bool" where
  "clave_mac_can_access_volume m token_ptr =
     (case read_token token_ptr of Some t \<Rightarrow> is_supervised (ms_zones m) (proc_macos t) | None \<Rightarrow> False)"

definition clave_mac_set_mount_prefix :: "mac_statics \<Rightarrow> c_string \<Rightarrow> mac_statics \<times> bool" where
  "clave_mac_set_mount_prefix m ptr =
     (if ptr = None then (m, False)
      else let pre = read_cstr ptr
           in if pre = [] then (m, False) else (m\<lparr>ms_gate := set_mount_prefix (ms_gate m) pre\<rparr>, True))"

definition clave_mac_authorize_open :: "mac_statics \<Rightarrow> audit_token option \<Rightarrow> c_string \<Rightarrow> bool \<Rightarrow> bool" where
  "clave_mac_authorize_open m token_ptr path_ptr write =
     (case read_token token_ptr of
        None \<Rightarrow> False
      | Some t \<Rightarrow>
          if path_ptr = None then False
          else let path = read_cstr path_ptr
               in if path = [] then False
                  else authorize_open_with (ms_zones m) (proc_macos t) path write (ms_gate m))"

text \<open>\<open>clave_mac_authorize_clone\<close>, \<open>_rename\<close> and \<open>_link\<close> all call this function.\<close>

definition authorize_relocation_ffi :: "mac_statics \<Rightarrow> audit_token option \<Rightarrow> c_string \<Rightarrow> c_string \<Rightarrow> bool" where
  "authorize_relocation_ffi m token_ptr source_ptr target_ptr =
     (case read_token token_ptr of
        None \<Rightarrow> False
      | Some t \<Rightarrow>
          if source_ptr = None \<or> target_ptr = None then False
          else let source = read_cstr source_ptr; target = read_cstr target_ptr
               in if source = [] \<or> target = [] then False
                  else authorize_relocation_with (ms_zones m) (proc_macos t) source target (ms_gate m))"

section \<open>The platform objects (platform.rs, sip.rs)\<close>

datatype sip_status = SipEnabled | SipDisabled | SipUnknown

definition sip_detect :: "int \<Rightarrow> u32 \<Rightarrow> sip_status" where
  "sip_detect rc config = (if rc = 0 then (if config = 0 then SipEnabled else SipDisabled) else SipUnknown)"

definition sip_is_disabled :: "sip_status \<Rightarrow> bool" where
  "sip_is_disabled s = (s = SipDisabled)"

fun sip_display :: "sip_status \<Rightarrow> string" where
  "sip_display SipEnabled = ''enabled''"
| "sip_display SipDisabled = ''disabled''"
| "sip_display SipUnknown = ''unknown''"

definition mac_default_enforcement :: enforcement_report where
  "mac_default_enforcement =
     [(ProcessSupervision, DevelopmentOnly), (CapVolume, DevelopmentOnly), (CapClipboard, DevelopmentOnly),
      (CapNetwork, DevelopmentOnly), (CapScreen, DevelopmentOnly), (CapOverlay, DevelopmentOnly), (CapInput, DevelopmentOnly)]"

definition win_default_enforcement :: enforcement_report where
  "win_default_enforcement =
     [(ProcessSupervision, DevelopmentOnly), (CapVolume, Unavailable), (CapClipboard, Unavailable),
      (CapNetwork, DevelopmentOnly), (CapScreen, Unavailable), (CapOverlay, Unavailable), (CapInput, Unavailable)]"

definition set_enforcement :: "enforcement_report \<Rightarrow> capability \<Rightarrow> enforcement_status \<Rightarrow> enforcement_report" where
  "set_enforcement t cap status = map (\<lambda>(c, s). (c, if c = cap then status else s)) t"

definition enforcement :: "enforcement_report \<Rightarrow> capability \<Rightarrow> enforcement_status" where
  "enforcement t cap = (case List.find (\<lambda>(c, _). c = cap) t of None \<Rightarrow> Unavailable | Some (_, s) \<Rightarrow> s)"

definition apply_sip_posture :: "enforcement_report \<Rightarrow> sip_status \<Rightarrow> enforcement_report" where
  "apply_sip_posture t sip =
     (let status = (if sip_is_disabled sip then DevelopmentOnly else Unavailable)
      in set_enforcement (set_enforcement t ProcessSupervision status) CapNetwork status)"

definition classify_and_gate :: "zone \<Rightarrow> zone \<Rightarrow> clip_format \<Rightarrow> decision" where
  "classify_and_gate src dst fmt = (if src = dst then Allow else Deny)"

definition overlay_track :: "(window_id, rgba) hmap \<Rightarrow> window_id \<Rightarrow> rgba \<Rightarrow> (window_id, rgba) hmap" where
  "overlay_track tracked w color = hm_insert tracked w color"

definition overlay_untrack :: "(window_id, rgba) hmap \<Rightarrow> window_id \<Rightarrow> (window_id, rgba) hmap" where
  "overlay_untrack tracked w = hm_remove tracked w"

section \<open>The gate after any history of calls\<close>

datatype ffi_call =
    LoadPolicyJson "bytes option"
  | AuthorizeExec "audit_token option" "audit_token option" c_string c_string bool
  | ZoneJoin "audit_token option"
  | ZoneLeave "audit_token option"
  | SetMountPrefix c_string

fun ffi_apply :: "policy_json \<Rightarrow> mac_statics \<Rightarrow> ffi_call \<Rightarrow> mac_statics" where
  "ffi_apply j m (LoadPolicyJson ptr) = fst (clave_mac_load_policy_json j m ptr)"
| "ffi_apply j m (AuthorizeExec parent target team sign plat) = fst (clave_mac_authorize_exec m parent target team sign plat)"
| "ffi_apply j m (ZoneJoin t) = clave_mac_zone_join m t"
| "ffi_apply j m (ZoneLeave t) = clave_mac_zone_leave m t"
| "ffi_apply j m (SetMountPrefix p) = fst (clave_mac_set_mount_prefix m p)"

text \<open>The reference: each answer read off the history, the latest call first.\<close>

fun hist_apps :: "policy_json \<Rightarrow> ffi_call list \<Rightarrow> app_policy" where
  "hist_apps j [] = app_policy_empty"
| "hist_apps j (LoadPolicyJson (Some bs) # cs) =
     (case pj_bundle j bs of
        Some b \<Rightarrow> pb_apps b
      | None \<Rightarrow> (case pj_apps j bs of Some a \<Rightarrow> a | None \<Rightarrow> hist_apps j cs))"
| "hist_apps j (_ # cs) = hist_apps j cs"

fun hist_saves_outside :: "policy_json \<Rightarrow> ffi_call list \<Rightarrow> bool" where
  "hist_saves_outside j [] = False"
| "hist_saves_outside j (LoadPolicyJson (Some bs) # cs) =
     (case pj_bundle j bs of
        Some b \<Rightarrow> fp_allow_save_outside_enclave (pb_files b) | None \<Rightarrow> hist_saves_outside j cs)"
| "hist_saves_outside j (_ # cs) = hist_saves_outside j cs"

fun hist_mount :: "ffi_call list \<Rightarrow> string" where
  "hist_mount [] = ''/Volumes/ClaveDisk''"
| "hist_mount (SetMountPrefix p # cs) =
     (if read_cstr p = [] then hist_mount cs else trim_end_matches (read_cstr p) (CHR ''/''))"
| "hist_mount (_ # cs) = hist_mount cs"

fun hist_work :: "policy_json \<Rightarrow> ffi_call list \<Rightarrow> audit_token \<Rightarrow> bool" where
  "hist_work j [] t = False"
| "hist_work j (ZoneJoin p # cs) t = (p = Some t \<or> hist_work j cs t)"
| "hist_work j (ZoneLeave p # cs) t = (p \<noteq> Some t \<and> hist_work j cs t)"
| "hist_work j (AuthorizeExec parent target team sign plat # cs) t =
     (hist_work j cs t \<or>
      target = Some t \<and>
        (match_app (hist_apps j cs) (BMacos (read_cstr team) (read_cstr sign)) plat \<noteq> None \<or>
         (case parent of None \<Rightarrow> False | Some p \<Rightarrow> hist_work j cs p)))"
| "hist_work j (_ # cs) t = hist_work j cs t"

definition hist_may :: "policy_json \<Rightarrow> ffi_call list \<Rightarrow> audit_token \<Rightarrow> string \<Rightarrow> bool \<Rightarrow> bool" where
  "hist_may j cs t path write =
     (if is_under_mount path (hist_mount cs) then hist_work j cs t
      else \<not> (hist_work j cs t \<and> write \<and> \<not> hist_saves_outside j cs))"

lemma proc_macos_inj [simp]: "proc_macos t = proc_macos u \<longleftrightarrow> t = u"
  by (cases t rule: proc_macos.cases; cases u rule: proc_macos.cases) simp

lemma exec_zone:
  "is_supervised (ms_zones (fst (clave_mac_authorize_exec m parent target team sign plat))) q \<longleftrightarrow>
     is_supervised (ms_zones m) q \<or>
     (\<exists>t. target = Some t \<and> q = proc_macos t \<and>
        (match_app (ms_policy m) (BMacos (read_cstr team) (read_cstr sign)) plat \<noteq> None \<or>
         (case parent of None \<Rightarrow> False | Some p \<Rightarrow> is_supervised (ms_zones m) (proc_macos p))))"
  by (cases target; cases parent; cases "match_app (ms_policy m) (BMacos (read_cstr team) (read_cstr sign)) plat")
    (auto simp: clave_mac_authorize_exec_def classify_exec_def Let_def read_token_def)

lemma ffi_exec_frame:
  "ms_policy (fst (clave_mac_authorize_exec m parent target team sign plat)) = ms_policy m"
  "ms_gate (fst (clave_mac_authorize_exec m parent target team sign plat)) = ms_gate m"
  by (auto simp: clave_mac_authorize_exec_def Let_def split: option.splits)

lemmas ffi_defs = clave_mac_load_policy_json_def clave_mac_zone_join_def clave_mac_zone_leave_def
  clave_mac_set_mount_prefix_def set_mount_prefix_def apply_file_policy_def read_token_def

lemma history_state:
  "ms_policy (foldl (ffi_apply j) mac_statics_new calls) = hist_apps j (rev calls)"
  "eg_allow_save_outside_enclave (ms_gate (foldl (ffi_apply j) mac_statics_new calls)) = hist_saves_outside j (rev calls)"
  "eg_mount_prefix (ms_gate (foldl (ffi_apply j) mac_statics_new calls)) = hist_mount (rev calls)"
  "is_supervised (ms_zones (foldl (ffi_apply j) mac_statics_new calls)) (proc_macos t) \<longleftrightarrow> hist_work j (rev calls) t"
proof -
  have "ms_policy (foldl (ffi_apply j) mac_statics_new calls) = hist_apps j (rev calls) \<and>
    eg_allow_save_outside_enclave (ms_gate (foldl (ffi_apply j) mac_statics_new calls)) = hist_saves_outside j (rev calls) \<and>
    eg_mount_prefix (ms_gate (foldl (ffi_apply j) mac_statics_new calls)) = hist_mount (rev calls) \<and>
    (\<forall>t. is_supervised (ms_zones (foldl (ffi_apply j) mac_statics_new calls)) (proc_macos t) \<longleftrightarrow> hist_work j (rev calls) t)"
  proof (induction calls rule: rev_induct)
    case Nil
    then show ?case by (simp add: mac_statics_new_def es_gate_config_default_def)
  next
    case (snoc c calls)
    show ?case
    proof (cases c)
      case (LoadPolicyJson p)
      then show ?thesis using snoc by (cases p) (auto simp: ffi_defs split: option.splits)
    next
      case (AuthorizeExec parent target team sign plat)
      then show ?thesis using snoc by (auto simp: exec_zone ffi_exec_frame split: option.splits)
    next
      case (ZoneJoin p)
      then show ?thesis using snoc by (cases p) (auto simp: ffi_defs)
    next
      case (ZoneLeave p)
      then show ?thesis using snoc by (cases p) (auto simp: ffi_defs)
    next
      case (SetMountPrefix p)
      then show ?thesis using snoc by (cases p) (auto simp: ffi_defs read_cstr_def)
    qed
  qed
  then show "ms_policy (foldl (ffi_apply j) mac_statics_new calls) = hist_apps j (rev calls)"
    "eg_allow_save_outside_enclave (ms_gate (foldl (ffi_apply j) mac_statics_new calls)) = hist_saves_outside j (rev calls)"
    "eg_mount_prefix (ms_gate (foldl (ffi_apply j) mac_statics_new calls)) = hist_mount (rev calls)"
    "is_supervised (ms_zones (foldl (ffi_apply j) mac_statics_new calls)) (proc_macos t) \<longleftrightarrow> hist_work j (rev calls) t"
    by blast+
qed

lemma authorize_open_with_iff:
  "authorize_open_with zones p path write config \<longleftrightarrow>
     (if is_under_mount path (eg_mount_prefix config) then is_supervised zones p
      else is_supervised zones p \<and> write \<longrightarrow> eg_allow_save_outside_enclave config)"
  by (auto simp: authorize_open_with_def decide_file_open_def Let_def verdict_simps)

text \<open>
  (C26) The answers of the macOS extension. After any history of calls, what the extension answers is determined
  by the history alone. A process may open a file of the mounted Clave Disk exactly when it is a work
  process, and a work process may write elsewhere only when the last policy bundle that was loaded allows
  saving outside; everything else is allowed. A clone, rename or link is allowed exactly when reading its
  source and writing its target are, so a process takes a file out of the disk only if it is a work
  process and that policy allows saving outside. A null token, a null or empty path, or one that is not
  UTF-8, is refused there. A start of a program is always allowed, whatever the policy; it is the zone
  of the new process that depends on the policy and on its parent. A flow of a work process goes through
  the tunnel, or is blocked when its destination is said to be; any other flow goes directly. The last
  bundle counts whatever its \<open>not_after\<close>: the rule of the documentation that an expired policy fails
  closed is not implemented here.
\<close>

theorem es_gate_history:
  "(clave_mac_authorize_open (foldl (ffi_apply j) mac_statics_new calls) token path write \<longleftrightarrow>
      (\<exists>t. token = Some t \<and> read_cstr path \<noteq> [] \<and> hist_may j (rev calls) t (read_cstr path) write)) \<and>
   (authorize_relocation_ffi (foldl (ffi_apply j) mac_statics_new calls) token source target \<longleftrightarrow>
      (\<exists>t. token = Some t \<and> read_cstr source \<noteq> [] \<and> read_cstr target \<noteq> [] \<and>
         hist_may j (rev calls) t (read_cstr source) False \<and> hist_may j (rev calls) t (read_cstr target) True)) \<and>
   (clave_mac_can_access_volume (foldl (ffi_apply j) mac_statics_new calls) token \<longleftrightarrow>
      (\<exists>t. token = Some t \<and> hist_work j (rev calls) t)) \<and>
   (snd (clave_mac_authorize_exec (foldl (ffi_apply j) mac_statics_new calls) token child team sign plat) \<and>
    (clave_mac_can_access_volume (fst (clave_mac_authorize_exec (foldl (ffi_apply j) mac_statics_new calls) token child team sign plat)) other \<longleftrightarrow>
      (\<exists>t. other = Some t \<and>
        (hist_work j (rev calls) t \<or>
         child = Some t \<and>
           ((\<exists>a. match_app (hist_apps j (rev calls)) (BMacos (read_cstr team) (read_cstr sign)) plat = Some a) \<or>
            (\<exists>p. token = Some p \<and> hist_work j (rev calls) p)))))) \<and>
   clave_mac_route_flow (foldl (ffi_apply j) mac_statics_new calls) token blocked =
      (if \<exists>t. token = Some t \<and> hist_work j (rev calls) t then if blocked then 2 else 1 else 0)"
proof -
  define m where "m = foldl (ffi_apply j) mac_statics_new calls"
  have "authorize_open_with (ms_zones m) (proc_macos t) p w (ms_gate m) \<longleftrightarrow> hist_may j (rev calls) t p w" for t p w
    unfolding authorize_open_with_iff hist_may_def m_def history_state by auto
  moreover have work: "is_supervised (ms_zones m) (proc_macos t) \<longleftrightarrow> hist_work j (rev calls) t" for t
    unfolding m_def by (rule history_state)
  moreover have "read_cstr None = []" by (simp add: read_cstr_def)
  ultimately have files: "(clave_mac_authorize_open m token path write \<longleftrightarrow>
      (\<exists>t. token = Some t \<and> read_cstr path \<noteq> [] \<and> hist_may j (rev calls) t (read_cstr path) write)) \<and>
   (authorize_relocation_ffi m token source target \<longleftrightarrow>
      (\<exists>t. token = Some t \<and> read_cstr source \<noteq> [] \<and> read_cstr target \<noteq> [] \<and>
         hist_may j (rev calls) t (read_cstr source) False \<and> hist_may j (rev calls) t (read_cstr target) True)) \<and>
   (clave_mac_can_access_volume m token \<longleftrightarrow> (\<exists>t. token = Some t \<and> hist_work j (rev calls) t))"
    by (cases token; cases path; cases source; cases target)
      (simp_all add: clave_mac_authorize_open_def authorize_relocation_ffi_def authorize_relocation_with_def
        clave_mac_can_access_volume_def read_token_def Let_def)
  have exec: "snd (clave_mac_authorize_exec m token child team sign plat)"
    by (simp add: clave_mac_authorize_exec_def classify_exec_def Let_def split: option.splits)
  have "ms_policy m = hist_apps j (rev calls)" unfolding m_def by (rule history_state)
  then have zone: "clave_mac_can_access_volume (fst (clave_mac_authorize_exec m token child team sign plat)) other \<longleftrightarrow>
      (\<exists>t. other = Some t \<and>
        (hist_work j (rev calls) t \<or>
         child = Some t \<and>
           ((\<exists>a. match_app (hist_apps j (rev calls)) (BMacos (read_cstr team) (read_cstr sign)) plat = Some a) \<or>
            (\<exists>p. token = Some p \<and> hist_work j (rev calls) p))))"
    by (cases other; cases token) (auto simp: clave_mac_can_access_volume_def read_token_def exec_zone work)
  have route: "clave_mac_route_flow m token blocked =
      (if \<exists>t. token = Some t \<and> hist_work j (rev calls) t then if blocked then 2 else 1 else 0)"
    by (cases token) (auto simp: clave_mac_route_flow_def read_token_def net_route_def classify_flow_def work)
  show ?thesis unfolding m_def[symmetric] using files exec zone route by blast
qed

section \<open>The enforcement table\<close>

lemma enforcement_other: "c \<noteq> cap \<Longrightarrow> enforcement (set_enforcement t cap s) c = enforcement t c"
  by (induction t) (auto simp: enforcement_def set_enforcement_def)

lemma enforcement_same: "cap \<in> set (map fst t) \<Longrightarrow> enforcement (set_enforcement t cap s) cap = s"
  by (induction t) (auto simp: enforcement_def set_enforcement_def)

lemma set_enforcement_keys [simp]: "map fst (set_enforcement t cap s) = map fst t"
  by (auto simp: set_enforcement_def)

lemma default_enforcement_keys:
  "map fst mac_default_enforcement = Capability_ALL" "map fst win_default_enforcement = Capability_ALL"
  by (simp_all add: mac_default_enforcement_def win_default_enforcement_def Capability_ALL_def)

lemma last_enforcement:
  assumes "map fst t = Capability_ALL"
  shows "enforcement (foldl (\<lambda>t (c, s). set_enforcement t c s) t ops) cap =
     (case List.find (\<lambda>(c, _). c = cap) (rev ops) of None \<Rightarrow> enforcement t cap | Some (_, s) \<Rightarrow> s)"
proof (induction ops rule: rev_induct)
  case (snoc x ops)
  obtain c s where x: "x = (c, s)" by (cases x)
  have keys: "map fst (foldl (\<lambda>t (c, s). set_enforcement t c s) t ops) = map fst t"
    by (induction ops rule: rev_induct) (auto simp: case_prod_beta)
  have "cap \<in> set (map fst (foldl (\<lambda>t (c, s). set_enforcement t c s) t ops))"
    unfolding keys assms by (simp add: Capability_ALL_complete)
  then show ?case using snoc by (cases "c = cap") (simp_all add: x enforcement_same enforcement_other)
qed simp

text \<open>
  The posture both platforms report. A platform passes the production gate exactly when every
  capability was promoted to enforced by its last setting: neither table starts with one that is,
  and the posture derived from the system integrity protection never is one.
\<close>

lemma production_needs_promotion:
  assumes "t = mac_default_enforcement \<or> t = win_default_enforcement"
    and "d = foldl (\<lambda>t (c, s). set_enforcement t c s) t ops"
  shows "require_production (report_from_fn (enforcement d)) = Inr () \<longleftrightarrow>
     (\<forall>cap. \<exists>s. List.find (\<lambda>(c, _). c = cap) (rev ops) = Some (cap, s) \<and> s = Enforced)"
proof -
  have k: "map fst t = Capability_ALL" using assms(1) default_enforcement_keys by auto
  have start: "enforcement t cap \<noteq> Enforced" for cap
    using assms(1) by (cases cap) (auto simp: enforcement_def mac_default_enforcement_def win_default_enforcement_def)
  have "enforcement d cap = Enforced \<longleftrightarrow> (\<exists>s. List.find (\<lambda>(c, _). c = cap) (rev ops) = Some (cap, s) \<and> s = Enforced)" for cap
    unfolding assms(2) last_enforcement[OF k] using start[of cap]
    by (auto split: option.splits dest!: find_SomeD)
  then show ?thesis by (auto simp: require_production_def production_blockers_def report_from_fn_def filter_empty_conv
      is_enforced_iff Capability_ALL_complete Let_def)
qed

end
