(* ===== verification/Win_Divert.thy ===== *)
theory Win_Divert
  imports Decide Ext Rust_Num
begin

text \<open>
  The split tunnel on Windows (\<open>clave-win\<close>: \<open>divert.rs\<close>, started by \<open>spawn_split_tunnel\<close> of
  \<open>win_main.rs\<close>): the decoding of a socket event of the WinDivert driver, the blocked addresses taken
  from the policy and the decision to re-inject or drop an event. Integers in native order are
  little-endian, as on every Windows target. The driver itself is not modelled: an event is its bytes.
\<close>

section \<open>Socket events\<close>

datatype net_verdict = NetAllow | NetBlock

definition WINDIVERT_ADDRESS_LEN :: nat where "WINDIVERT_ADDRESS_LEN = 80"
definition EVENT_SOCKET_CONNECT :: u8 where "EVENT_SOCKET_CONNECT = 4"

definition u32_from_ne :: "bytes \<Rightarrow> u32" where
  "u32_from_ne bs = of_nat (le_val bs)"

definition u16_from_be :: "bytes \<Rightarrow> u16" where
  "u16_from_be bs = of_nat (le_val (rev bs))"

definition slice :: "bytes \<Rightarrow> nat \<Rightarrow> nat \<Rightarrow> bytes" where
  "slice bs a b = take (b - a) (drop a bs)"

text \<open>An IPv4 address is its 32-bit number; the remote address of an IPv6 event is not decoded.\<close>

record socket_event =
  se_event :: u8
  se_outbound :: bool
  se_ipv6 :: bool
  se_pid :: u32
  se_remote_ip :: "u32 option"
  se_remote_port :: u16

definition is_outbound_connect :: "socket_event \<Rightarrow> bool" where
  "is_outbound_connect ev = (se_event ev = EVENT_SOCKET_CONNECT \<and> se_outbound ev)"

definition parse_socket_address :: "bytes \<Rightarrow> socket_event option" where
  "parse_socket_address buf =
     (if length buf < WINDIVERT_ADDRESS_LEN then None
      else let bits = u32_from_ne (slice buf 8 12);
               data = slice buf 16 WINDIVERT_ADDRESS_LEN;
               ipv6 = (drop_bit 20 bits AND 1 = 1)
           in Some \<lparr>se_event = ucast (drop_bit 8 bits AND 0xFF), se_outbound = (drop_bit 17 bits AND 1 = 1),
                    se_ipv6 = ipv6, se_pid = u32_from_ne (slice data 16 20),
                    se_remote_ip = (if ipv6 then None else Some (u32_from_ne (slice data 36 40))),
                    se_remote_port = u16_from_be (slice data 54 56)\<rparr>)"

section \<open>Addresses as text\<close>

definition parse_octet :: "string \<Rightarrow> nat option" where
  "parse_octet s =
     (if length s > 3 \<or> (length s > 1 \<and> hd s = CHR ''0'') then None
      else case parse_nat s of None \<Rightarrow> None | Some n \<Rightarrow> if n \<le> 255 then Some n else None)"

definition parse_ipv4 :: "string \<Rightarrow> u32 option" where
  "parse_ipv4 s =
     (case split_on s (CHR ''.'') of
        [a, b, c, d] \<Rightarrow>
          Option.bind (parse_octet a) (\<lambda>a. Option.bind (parse_octet b) (\<lambda>b.
          Option.bind (parse_octet c) (\<lambda>c. Option.bind (parse_octet d) (\<lambda>d.
            Some (of_nat (((a * 256 + b) * 256 + c) * 256 + d))))))
      | _ \<Rightarrow> None)"

definition ipv4_text :: "u32 \<Rightarrow> string" where
  "ipv4_text ip =
     dec_of_nat (unat ip div 2 ^ 24) @ CHR ''.'' # dec_of_nat (unat ip div 2 ^ 16 mod 256)
       @ CHR ''.'' # dec_of_nat (unat ip div 2 ^ 8 mod 256) @ CHR ''.'' # dec_of_nat (unat ip mod 256)"

section \<open>Enforcement\<close>

text \<open>
  The set of blocked addresses, taken once from the policy the daemon starts with. A host that is not
  an address is left out; IPv6 addresses are in the set of the code but no event is looked up by one.
\<close>

definition blocked_ips :: "policy_bundle \<Rightarrow> u32 list" where
  "blocked_ips pol = List.map_filter parse_ipv4 (np_blocked_hosts (pb_network pol))"

definition tunnel_decide :: "u32 list \<Rightarrow> zone \<Rightarrow> u32 \<Rightarrow> u16 \<Rightarrow> net_verdict" where
  "tunnel_decide blocked z ip port = (if z = Work \<and> ip \<in> set blocked then NetBlock else NetAllow)"

text \<open>One turn of the loop on a received event: whether it is sent on.\<close>

definition reinjects :: "(zone \<Rightarrow> u32 \<Rightarrow> u16 \<Rightarrow> net_verdict) \<Rightarrow> zone_registry \<Rightarrow> bytes \<Rightarrow> bool" where
  "reinjects decide_net zones addr =
     (case parse_socket_address addr of
        None \<Rightarrow> True
      | Some ev \<Rightarrow>
          if is_outbound_connect ev
          then case se_remote_ip ev of
                 None \<Rightarrow> True
               | Some ip \<Rightarrow>
                   (let z = (if se_pid ev \<in> set (supervised_pids zones) then Work else Personal)
                    in decide_net z ip (se_remote_port ev) \<noteq> NetBlock)
          else True)"

definition open_failure_reason :: "u32 \<Rightarrow> string" where
  "open_failure_reason code =
     (let hint =
        (if code = 5 then ''run the daemon elevated (Administrator)''
         else if code = 2 \<or> code = 3 then ''WinDivert64.sys is missing next to the daemon''
         else if code = 87 then ''WinDivert reported ERROR_INVALID_PARAMETER (driver/DLL version mismatch)''
         else if code = 577
         then ''the WinDivert driver signature was rejected (Secure Boot is blocking the third-party driver)''
         else if code = 1275 \<or> code = 1276 then ''the WinDivert driver is blocked by a Windows code-integrity policy''
         else ''see the WinDivert error code'')
      in ''WinDivertOpen failed (error '' @ dec_of_nat (unat code) @ '') '' @ [CHR 0xE2, CHR 0x80, CHR 0x94] @ '' '' @ hint)"

section \<open>Decimal octets\<close>

text \<open>The number a string of digits denotes, as \<open>parse_nat\<close> computes it.\<close>

abbreviation digits_value :: "string \<Rightarrow> nat" where
  "digits_value s \<equiv> foldl (\<lambda>a c. a * 10 + ((of_char c :: nat) - 48)) 0 s"

lemma digit_char_inverse: "is_digit c \<Longrightarrow> digit_char ((of_char c :: nat) - 48) = c"
  by (simp add: is_digit_def digit_char_def)

lemma digits_value_pos: "list_all is_digit s \<Longrightarrow> s \<noteq> [] \<Longrightarrow> hd s \<noteq> CHR ''0'' \<Longrightarrow> 0 < digits_value s"
proof (induction s rule: rev_induct)
  case (snoc c s)
  show ?case
  proof (cases "s = []")
    case True
    then have "is_digit c" "c \<noteq> CHR ''0''" using snoc.prems by auto
    then have "48 < (of_char c :: nat)"
      using of_char_eq_iff[of c "CHR ''0''", where 'a = nat] by (auto simp: is_digit_def le_less)
    then show ?thesis using True by simp
  next
    case False
    then show ?thesis using snoc by simp
  qed
qed simp

lemma dec_of_digits:
  "list_all is_digit s \<Longrightarrow> s \<noteq> [] \<Longrightarrow> (length s > 1 \<longrightarrow> hd s \<noteq> CHR ''0'') \<Longrightarrow> dec_of_nat (digits_value s) = s"
proof (induction s rule: rev_induct)
  case (snoc c s)
  have c: "is_digit c" using snoc.prems by simp
  then have d: "(of_char c :: nat) - 48 < 10" by (auto simp: is_digit_def)
  show ?case
  proof (cases "s = []")
    case True
    then show ?thesis using d c by (simp add: dec_of_nat.simps digit_char_inverse)
  next
    case False
    then have h: "hd s \<noteq> CHR ''0''" using snoc.prems by (cases s) auto
    then have "0 < digits_value s" using digits_value_pos snoc.prems False by simp
    then have "\<not> digits_value (s @ [c]) < 10" by simp
    moreover have "dec_of_nat (digits_value s) = s" using snoc False h by simp
    ultimately show ?thesis using d c by (subst dec_of_nat.simps) (simp add: digit_char_inverse)
  qed
qed simp

lemma dec_no_zero: "dec_of_nat n = s \<Longrightarrow> length s > 1 \<Longrightarrow> hd s \<noteq> CHR ''0''"
proof (induction n arbitrary: s rule: dec_of_nat.induct)
  case (1 n)
  show ?case
  proof (cases "n < 10")
    case True
    then show ?thesis using "1.prems" by (auto simp: dec_of_nat.simps)
  next
    case False
    then have s: "s = dec_of_nat (n div 10) @ [digit_char (n mod 10)]" using "1.prems"(1) by (simp add: dec_of_nat.simps)
    have ne: "dec_of_nat (n div 10) \<noteq> []" using dec_of_nat_digits by blast
    show ?thesis
    proof (cases "length (dec_of_nat (n div 10)) > 1")
      case True
      then show ?thesis using "1.IH"[OF False refl] s ne by simp
    next
      case f: False
      have "n div 10 < 10"
      proof (rule ccontr)
        assume "\<not> n div 10 < 10"
        then have "dec_of_nat (n div 10) = dec_of_nat (n div 10 div 10) @ [digit_char (n div 10 mod 10)]"
          by (subst dec_of_nat.simps) simp
        moreover have "dec_of_nat (n div 10 div 10) \<noteq> []" using dec_of_nat_digits by blast
        ultimately show False using f by (cases "dec_of_nat (n div 10 div 10)") auto
      qed
      then have "hd s = digit_char (n div 10)" "0 < n div 10" using s False by (simp_all add: dec_of_nat.simps)
      moreover have "digit_char (n div 10) = CHR ''0'' \<Longrightarrow> n div 10 = 0"
        using of_char_digit[OF \<open>n div 10 < 10\<close>] by simp
      ultimately show ?thesis by auto
    qed
  qed
qed

lemma dec_length: "n \<le> 255 \<Longrightarrow> length (dec_of_nat n) \<le> 3"
  by (simp add: dec_of_nat.simps)

lemma parse_octet_iff: "parse_octet s = Some n \<longleftrightarrow> n \<le> 255 \<and> s = dec_of_nat n"
proof
  assume p: "parse_octet s = Some n"
  then have "list_all is_digit s" "s \<noteq> []" "n = digits_value s" "n \<le> 255" "length s > 1 \<longrightarrow> hd s \<noteq> CHR ''0''"
    by (auto simp: parse_octet_def parse_nat_def split: if_splits)
  then show "n \<le> 255 \<and> s = dec_of_nat n" using dec_of_digits by simp
next
  assume "n \<le> 255 \<and> s = dec_of_nat n"
  then show "parse_octet s = Some n"
    using parse_nat_dec[of n] dec_length[of n] dec_no_zero[of n s] by (auto simp: parse_octet_def)
qed

section \<open>Addresses\<close>

lemma power2_8: "2 ^ 8 = (256 :: nat)"
  by simp

lemma low_octet: "d \<le> 255 \<Longrightarrow> (m * 256 + d) div 256 = m" "d \<le> 255 \<Longrightarrow> (m * 256 + d) mod 256 = d" for m d :: nat
  by simp_all

lemma octets_of:
  fixes a b c d :: nat
  assumes "a \<le> 255" "b \<le> 255" "c \<le> 255" "d \<le> 255"
  defines "n \<equiv> ((a * 256 + b) * 256 + c) * 256 + d"
  shows "n div 2 ^ 24 = a" "n div 2 ^ 16 mod 256 = b" "n div 2 ^ 8 mod 256 = c" "n mod 256 = d" "n < 2 ^ 32"
proof -
  have 8: "n div 2 ^ 8 = (a * 256 + b) * 256 + c" "n mod 256 = d"
    unfolding n_def power2_8 by (simp_all only: low_octet[OF assms(4)])
  have "n div 2 ^ 16 = n div 2 ^ 8 div 256" "n div 2 ^ 24 = n div 2 ^ 8 div 256 div 256"
    by (simp_all add: div_mult2_eq[symmetric])
  then have 16: "n div 2 ^ 16 = a * 256 + b" "n div 2 ^ 24 = a"
    by (simp_all only: 8 low_octet[OF assms(3)] low_octet[OF assms(2)])
  then show "n div 2 ^ 24 = a" "n div 2 ^ 16 mod 256 = b" "n div 2 ^ 8 mod 256 = c" "n mod 256 = d"
    by (simp_all only: 8 low_octet[OF assms(3)] low_octet[OF assms(2)])
  show "n < 2 ^ 32" using assms by simp
qed

lemma octets_join:
  "((n div 2 ^ 24 * 256 + n div 2 ^ 16 mod 256) * 256 + n div 2 ^ 8 mod 256) * 256 + n mod 256 = (n :: nat)"
proof -
  have "n div 2 ^ 16 = n div 2 ^ 8 div 256" "n div 2 ^ 24 = n div 2 ^ 8 div 256 div 256"
    by (simp_all add: div_mult2_eq[symmetric])
  then show ?thesis by (simp add: mult.commute)
qed

lemma dec_no_dot: "CHR ''.'' \<notin> set (dec_of_nat n)"
  using dec_of_nat_digits[of n] by (auto simp: list_all_iff is_digit_def)

lemma split_on_no: "c \<notin> set s \<Longrightarrow> split_on s c = [s]"
  by (induction s) auto

lemma split_ipv4_text:
  "split_on (ipv4_text ip) CHR ''.'' =
     [dec_of_nat (unat ip div 2 ^ 24), dec_of_nat (unat ip div 2 ^ 16 mod 256),
      dec_of_nat (unat ip div 2 ^ 8 mod 256), dec_of_nat (unat ip mod 256)]"
  by (simp only: ipv4_text_def split_on_sep split_on_no[OF dec_no_dot] append.simps)

text \<open>An address has exactly one text that is read as it.\<close>

lemma parse_ipv4_iff: "parse_ipv4 s = Some ip \<longleftrightarrow> s = ipv4_text ip"
proof
  assume "parse_ipv4 s = Some ip"
  then obtain a b c d na nb nc nd where p: "split_on s CHR ''.'' = [a, b, c, d]"
    "parse_octet a = Some na" "parse_octet b = Some nb" "parse_octet c = Some nc" "parse_octet d = Some nd"
    "ip = of_nat (((na * 256 + nb) * 256 + nc) * 256 + nd)"
    by (auto simp: parse_ipv4_def split: list.splits bind_splits)
  define n where "n = ((na * 256 + nb) * 256 + nc) * 256 + nd"
  have o: "na \<le> 255" "nb \<le> 255" "nc \<le> 255" "nd \<le> 255" using p by (auto simp: parse_octet_iff)
  have "n < 2 ^ 32" unfolding n_def by (rule octets_of(5)[OF o])
  then have "unat ip = n" unfolding p(6) n_def[symmetric] by (simp add: unat_of_nat)
  then have "split_on (ipv4_text ip) CHR ''.'' = split_on s CHR ''.''"
    using p octets_of(1-4)[OF o] by (simp add: split_ipv4_text parse_octet_iff n_def)
  then show "s = ipv4_text ip" by (metis split_on_inj)
next
  have "unat ip < 2 ^ 32" using unsigned_less[of ip, where 'a = nat] by simp
  then have "unat ip div 2 ^ 24 \<le> 255" by simp
  moreover have "unat ip div 2 ^ 16 mod 256 \<le> 255" "unat ip div 2 ^ 8 mod 256 \<le> 255" "unat ip mod 256 \<le> 255"
    by (simp_all add: less_Suc_eq_le[symmetric])
  moreover have "(of_nat (((unat ip div 2 ^ 24 * 256 + unat ip div 2 ^ 16 mod 256) * 256 + unat ip div 2 ^ 8 mod 256) * 256 + unat ip mod 256) :: u32) = ip"
    by (simp only: octets_join of_nat_unat ucast_id)
  moreover assume "s = ipv4_text ip"
  ultimately show "parse_ipv4 s = Some ip"
    by (simp only: parse_ipv4_def split_ipv4_text list.case parse_octet_iff[THEN iffD2, OF conjI[OF _ refl]] Option.bind.simps)
qed

section \<open>The bytes of an event\<close>

lemma slice_four: "i + 4 \<le> length b \<Longrightarrow> slice b i (i + 4) = [b ! i, b ! (i + 1), b ! (i + 2), b ! (i + 3)]"
  by (simp add: slice_def list_eq_iff_nth_eq nth_Cons' less_Suc_eq numeral_eq_Suc)

lemma slice_slice: "i \<le> j \<Longrightarrow> j \<le> n \<Longrightarrow> slice (slice b k (k + n)) i j = slice b (k + i) (k + j)"
  by (simp add: slice_def take_drop min_def add.commute)

text \<open>The octets of a number in native order.\<close>

lemma ne_octets:
  fixes b0 b1 b2 b3 :: u8
  defines "w \<equiv> u32_from_ne [b0, b1, b2, b3]"
  shows "unat w div 2 ^ 24 = unat b3" "unat w div 2 ^ 16 mod 256 = unat b2" "unat w div 2 ^ 8 mod 256 = unat b1"
    "unat w mod 256 = unat b0"
proof -
  have o: "unat b3 \<le> 255" "unat b2 \<le> 255" "unat b1 \<le> 255" "unat b0 \<le> 255"
    using unsigned_less[of b0, where 'a = nat] unsigned_less[of b1, where 'a = nat]
      unsigned_less[of b2, where 'a = nat] unsigned_less[of b3, where 'a = nat] by simp_all
  define n where "n = ((unat b3 * 256 + unat b2) * 256 + unat b1) * 256 + unat b0"
  have "le_val [b0, b1, b2, b3] = n" by (simp add: n_def)
  moreover have "n < 2 ^ 32" unfolding n_def by (rule octets_of(5)[OF o])
  ultimately have w: "unat w = n" by (simp add: w_def u32_from_ne_def unat_of_nat)
  show "unat w div 2 ^ 24 = unat b3" "unat w div 2 ^ 16 mod 256 = unat b2" "unat w div 2 ^ 8 mod 256 = unat b1"
    "unat w mod 256 = unat b0"
    unfolding w n_def by (rule octets_of[OF o])+
qed

lemma octet_bit:
  fixes w :: u32
  assumes "k < 8"
  shows "bit w (j + k) \<longleftrightarrow> bit (unat w div 2 ^ j mod 256) k"
proof -
  have "bit w (j + k) \<longleftrightarrow> bit (unat w) (j + k)" by (simp add: bit_unsigned_iff)
  also have "\<dots> \<longleftrightarrow> bit (unat w div 2 ^ j) k" by (simp add: bit_iff_odd power_add div_mult2_eq)
  also have "\<dots> \<longleftrightarrow> bit (take_bit 8 (unat w div 2 ^ j)) k" using assms by (simp only: bit_take_bit_iff) simp
  finally show ?thesis by (simp add: take_bit_eq_mod)
qed

text \<open>The packed word: the event in its second octet, two of its flags in the third.\<close>

lemma packed_word:
  fixes b0 b1 b2 b3 :: u8
  defines "w \<equiv> u32_from_ne [b0, b1, b2, b3]"
  shows "(ucast (drop_bit 8 w AND 0xFF) :: u8) = b1"
    "(drop_bit 17 w AND 1 = 1) = bit b2 1" "(drop_bit 20 w AND 1 = 1) = bit b2 4"
proof -
  note o = ne_octets[of b0 b1 b2 b3, folded w_def]
  have nb: "bit (unat b) k \<longleftrightarrow> bit b k" if "k < 8" for b :: u8 and k using that by (simp add: bit_unsigned_iff)
  have 1: "bit w (8 + k) \<longleftrightarrow> bit b1 k" "bit w (16 + k) \<longleftrightarrow> bit b2 k" if "k < 8" for k
    using octet_bit[OF that, of w 8] octet_bit[OF that, of w 16] o(2,3) nb[OF that] by simp_all
  have m: "(0xFF :: u32) = mask 8" by (simp add: mask_eq_exp_minus_1)
  show "(ucast (drop_bit 8 w AND 0xFF) :: u8) = b1"
  proof (rule bit_word_eqI)
    fix k assume "k < LENGTH(8)"
    then have "k < 8" by simp
    then show "bit (ucast (drop_bit 8 w AND 0xFF) :: u8) k = bit b1 k"
      using 1(1)[of k] unfolding m by (simp add: bit_ucast_iff bit_and_iff bit_mask_iff bit_drop_bit_eq)
  qed
  have bitand: "drop_bit n w AND 1 = 1 \<longleftrightarrow> bit w n" for n
    by (simp add: and_one_eq mod2_eq_if bit_iff_odd_drop_bit)
  show "(drop_bit 17 w AND 1 = 1) = bit b2 1" "(drop_bit 20 w AND 1 = 1) = bit b2 4"
    using 1(2)[of 1] 1(2)[of 4] by (simp_all add: bitand)
qed

text \<open>
  The decoded event, octet by octet: the number of the event is octet 9 of the buffer, the flags are bits
  of octet 10, the process id is little-endian, the port big-endian, and the address is in the order its
  dotted form reads backwards.
\<close>

definition dotted :: "bytes \<Rightarrow> string" where
  "dotted b = dec_of_nat (unat (b ! 55)) @ CHR ''.'' # dec_of_nat (unat (b ! 54))
     @ CHR ''.'' # dec_of_nat (unat (b ! 53)) @ CHR ''.'' # dec_of_nat (unat (b ! 52))"

definition event_pid :: "bytes \<Rightarrow> u32" where
  "event_pid b = of_nat (le_val [b ! 32, b ! 33, b ! 34, b ! 35])"

lemma slice_two: "i + 2 \<le> length b \<Longrightarrow> slice b i (i + 2) = [b ! i, b ! (i + 1)]"
  by (simp add: slice_def list_eq_iff_nth_eq nth_Cons' less_Suc_eq numeral_eq_Suc)

lemma parse_octets:
  assumes "80 \<le> length b"
  defines "ip \<equiv> u32_from_ne [b ! 52, b ! 53, b ! 54, b ! 55]"
  shows "parse_socket_address b = Some \<lparr>se_event = b ! 9, se_outbound = bit (b ! 10) 1, se_ipv6 = bit (b ! 10) 4,
      se_pid = event_pid b, se_remote_ip = (if bit (b ! 10) 4 then None else Some ip),
      se_remote_port = of_nat (256 * unat (b ! 70) + unat (b ! 71))\<rparr>"
    and "ipv4_text ip = dotted b"
proof -
  have s: "slice b 8 12 = [b ! 8, b ! 9, b ! 10, b ! 11]" "slice (slice b 16 80) 16 20 = [b ! 32, b ! 33, b ! 34, b ! 35]"
    "slice (slice b 16 80) 36 40 = [b ! 52, b ! 53, b ! 54, b ! 55]" "slice (slice b 16 80) 54 56 = [b ! 70, b ! 71]"
    using slice_four[of 8 b] slice_slice[of 16 20 64 b 16] slice_four[of 32 b] slice_slice[of 36 40 64 b 16] slice_four[of 52 b]
      slice_slice[of 54 56 64 b 16] slice_two[of 70 b] assms(1) by simp_all
  have "\<not> length b < WINDIVERT_ADDRESS_LEN" using assms(1) by (simp add: WINDIVERT_ADDRESS_LEN_def)
  then show "parse_socket_address b = Some \<lparr>se_event = b ! 9, se_outbound = bit (b ! 10) 1, se_ipv6 = bit (b ! 10) 4,
      se_pid = event_pid b, se_remote_ip = (if bit (b ! 10) 4 then None else Some ip),
      se_remote_port = of_nat (256 * unat (b ! 70) + unat (b ! 71))\<rparr>"
    unfolding parse_socket_address_def Let_def WINDIVERT_ADDRESS_LEN_def s packed_word ip_def
    by (simp add: event_pid_def u32_from_ne_def u16_from_be_def add.commute)
  show "ipv4_text ip = dotted b"
    unfolding ipv4_text_def dotted_def ip_def ne_octets ..
qed

section \<open>What is dropped\<close>

lemma blocked_ips_mem: "ip \<in> set (blocked_ips pol) \<longleftrightarrow> ipv4_text ip \<in> set (np_blocked_hosts (pb_network pol))"
proof -
  have "set (List.map_filter parse_ipv4 hs) = {ip. \<exists>h \<in> set hs. parse_ipv4 h = Some ip}" for hs
    by (induction hs) (auto simp: List.map_filter_simps split: option.splits)
  then show ?thesis by (simp add: blocked_ips_def parse_ipv4_iff)
qed

text \<open>
  (C30) What the Windows split tunnel drops, of any bytes the driver delivers. An event is not sent on
  exactly when its buffer is whole, its number is that of a connect, its outbound flag is set and its
  IPv6 flag is not, its process id is that of a work process, and the dotted decimal form of its address,
  read from the octets, is among the blocked hosts of the policy the filter was started with. Then the
  policy denies a work process that connection as well. Every other event is sent on: of another kind,
  inbound, over IPv6 whatever the policy blocks, or too short.
\<close>

theorem split_tunnel_exact:
  "(\<not> reinjects (tunnel_decide (blocked_ips pol)) zones b \<longleftrightarrow>
      80 \<le> length b \<and> b ! 9 = 4 \<and> bit (b ! 10) 1 \<and> \<not> bit (b ! 10) 4 \<and>
      event_pid b \<in> set (supervised_pids zones) \<and> dotted b \<in> set (np_blocked_hosts (pb_network pol))) \<and>
   (\<not> reinjects (tunnel_decide (blocked_ips pol)) zones b \<and> is_supervised zones p \<longrightarrow>
      \<not> is_allow (decide (NetConnect p (dotted b)) zones pol now))"
proof -
  have r: "\<not> reinjects (tunnel_decide (blocked_ips pol)) zones b \<longleftrightarrow>
      80 \<le> length b \<and> b ! 9 = 4 \<and> bit (b ! 10) 1 \<and> \<not> bit (b ! 10) 4 \<and>
      event_pid b \<in> set (supervised_pids zones) \<and> dotted b \<in> set (np_blocked_hosts (pb_network pol))"
  proof (cases "80 \<le> length b")
    case True
    show ?thesis
      by (auto simp: reinjects_def parse_octets(1)[OF True] is_outbound_connect_def EVENT_SOCKET_CONNECT_def True
          tunnel_decide_def blocked_ips_mem parse_octets(2)[OF True] Let_def)
  next
    case False
    then show ?thesis by (simp add: reinjects_def parse_socket_address_def WINDIVERT_ADDRESS_LEN_def)
  qed
  moreover have "\<not> is_allow (decide (NetConnect p (dotted b)) zones pol now)"
    if "dotted b \<in> set (np_blocked_hosts (pb_network pol))" "is_supervised zones p"
    using that by (auto simp: decide_def is_blocked_iff verdict_simps)
  ultimately show ?thesis by blast
qed

text \<open>Work process 7 connects to 192.0.2.1, which is blocked; the same event inbound is sent on.\<close>

definition demo_connect :: "u8 \<Rightarrow> bytes" where
  "demo_connect flags =
     replicate 9 0 @ [4, flags] @ replicate 21 0 @ [7, 0, 0, 0] @ replicate 16 0 @ [1, 2, 0, 192] @ replicate 14 0
       @ [1, 187] @ replicate 8 0"

abbreviation "demo_tunnel_policy \<equiv>
  restrictive_default\<lparr>pb_network := \<lparr>np_blocked_hosts = [''192.0.2.1''], np_egress_ip = None, np_providers = []\<rparr>\<rparr>"

theorem split_tunnel_exact_witness:
  "\<not> reinjects (tunnel_decide (blocked_ips demo_tunnel_policy)) (zone_join zone_new (Windows 7 0) Launcher) (demo_connect 2) \<and>
   reinjects (tunnel_decide (blocked_ips demo_tunnel_policy)) (zone_join zone_new (Windows 7 0) Launcher) (demo_connect 0) \<and>
   \<not> is_allow (decide (NetConnect (Windows 7 0) ''192.0.2.1'') (zone_join zone_new (Windows 7 0) Launcher) demo_tunnel_policy 1)"
proof -
  let ?z = "zone_join zone_new (Windows 7 0) Launcher"
  have z: "7 \<in> set (supervised_pids ?z)" by (simp add: supervised_pids_def zone_join_def zone_new_def hm_insert_def hm_keys_def)
  have w: "is_supervised ?z (Windows 7 0)" by simp
  have b: "length (demo_connect f) = 80" "demo_connect f ! 9 = 4" "demo_connect f ! 10 = f" for f
    by (simp_all add: demo_connect_def nth_append)
  have p: "event_pid (demo_connect 2) = 7" "dotted (demo_connect 2) = ''192.0.2.1''" by code_simp+
  have bits: "bit (2 :: u8) 1" "\<not> bit (2 :: u8) 4" "\<not> bit (0 :: u8) 1" by code_simp+
  note T = split_tunnel_exact[of demo_tunnel_policy ?z _ "Windows 7 0" 1]
  show ?thesis using T[of "demo_connect 2"] T[of "demo_connect 0"] z w b p bits by simp
qed

end
