(* ===== verification/Launch_Spawn.thy ===== *)
theory Launch_Spawn
  imports Boot
begin

text \<open>
  Spawning a contained application: \<open>spawn_contained\<close> and its helpers in \<open>clave-daemon\<close> (\<open>lib.rs\<close>), and
  from \<open>clave-mac\<close> the search for the process of an application that was opened (\<open>launch.rs\<close>) and the
  keychain of the contained home (\<open>keychain.rs\<close>). The file system, the environment, the processes and
  the programs \<open>open\<close>, \<open>plutil\<close> and \<open>security\<close> are the functions of \<open>spawn_env\<close> on a state of the host;
  paths are Unix paths. In \<open>Daemon\<close> the whole of this is the function \<open>pl_spawn\<close>. Shown are what
  seeding the home may link, that the search ends, and that it may settle on a process that was
  already running.
\<close>

section \<open>The host\<close>

text \<open>
  \<open>sp_open\<close> runs a program with its arguments and returns the process id; \<open>sp_security\<close> runs \<open>security\<close>
  with \<open>HOME\<close> set to the first argument and says whether it succeeded; \<open>sp_plutil\<close> is the output of
  \<open>plutil\<close> on a file when it succeeds. \<open>sp_polls\<close> lists, for a bundle, the clock and the process ids
  that successive turns of the waiting loop observe.
\<close>

record 'h spawn_env =
  sp_macos :: bool
  sp_var :: "'h \<Rightarrow> string \<Rightarrow> string option"
  sp_exists :: "'h \<Rightarrow> string \<Rightarrow> bool"
  sp_is_dir :: "'h \<Rightarrow> string \<Rightarrow> bool"
  sp_lexists :: "'h \<Rightarrow> string \<Rightarrow> bool"
  sp_first_entry :: "'h \<Rightarrow> string \<Rightarrow> string option"
  sp_create_dir_all :: "'h \<Rightarrow> string \<Rightarrow> 'h \<times> (string + unit)"
  sp_symlink :: "'h \<Rightarrow> string \<Rightarrow> string \<Rightarrow> 'h"
  sp_read :: "'h \<Rightarrow> string \<Rightarrow> string + string"
  sp_write :: "'h \<Rightarrow> string \<Rightarrow> string \<Rightarrow> 'h \<times> (string + unit)"
  sp_random :: "'h \<Rightarrow> 'h \<times> bytes"
  sp_security :: "'h \<Rightarrow> string \<Rightarrow> string list \<Rightarrow> 'h \<times> (string + bool)"
  sp_open :: "'h \<Rightarrow> string \<Rightarrow> string list \<Rightarrow> (string \<times> string) list \<Rightarrow> 'h \<times> (string + u32)"
  sp_plutil :: "'h \<Rightarrow> string \<Rightarrow> string option"
  sp_running :: "'h \<Rightarrow> string \<Rightarrow> int list"
  sp_polls :: "'h \<Rightarrow> string \<Rightarrow> (nat \<times> int list) list"

section \<open>Paths\<close>

definition path_file_name :: "string \<Rightarrow> string option" where
  "path_file_name s =
     (let r = trim_rev (rev s); n = rev (takeWhile (\<lambda>c. c \<noteq> CHR ''/'') r)
      in if n = [] \<or> n = ''.'' \<or> n = ''..'' then None else Some n)"

text \<open>A name is split at its last dot, unless that is its first character.\<close>

definition path_extension :: "string \<Rightarrow> string option" where
  "path_extension s =
     (case path_file_name s of
        None \<Rightarrow> None
      | Some n \<Rightarrow> if CHR ''.'' \<in> set (tl n) then Some (rev (takeWhile (\<lambda>c. c \<noteq> CHR ''.'') (rev n))) else None)"

definition path_file_stem :: "string \<Rightarrow> string option" where
  "path_file_stem s =
     (case path_file_name s of
        None \<Rightarrow> None
      | Some n \<Rightarrow>
          if CHR ''.'' \<in> set (tl n) then Some (rev (tl (dropWhile (\<lambda>c. c \<noteq> CHR ''.'') (rev n)))) else Some n)"

definition spec_home :: "launch_spec \<Rightarrow> string option" where
  "spec_home spec = map_option snd (List.find (\<lambda>(k, _). k = ''HOME'') (ls_env spec))"

section \<open>The keychain of the contained home (keychain.rs)\<close>

definition LOGIN_KEYCHAIN :: string where "LOGIN_KEYCHAIN = ''login.keychain-db''"
definition PASS_FILE :: string where "PASS_FILE = ''.clave-keychain-pass''"

definition generate_passphrase :: "'h spawn_env \<Rightarrow> 'h \<Rightarrow> 'h \<times> string" where
  "generate_passphrase v h =
     (let (h, buf) = sp_random v h
      in (h, concat (map (\<lambda>b. [nibble (drop_bit 4 b), nibble (b AND 0x0F)]) buf)))"

definition run_security :: "'h spawn_env \<Rightarrow> 'h \<Rightarrow> string \<Rightarrow> string list \<Rightarrow> string \<Rightarrow> 'h \<times> (string + unit)" where
  "run_security v h home args failed =
     (case sp_security v h home args of
        (h, Inl e) \<Rightarrow> (h, Inl e)
      | (h, Inr True) \<Rightarrow> (h, Inr ())
      | (h, Inr False) \<Rightarrow> (h, Inl failed))"

definition create_keychain :: "'h spawn_env \<Rightarrow> 'h \<Rightarrow> string \<Rightarrow> string \<Rightarrow> string \<Rightarrow> 'h \<times> (string + unit)" where
  "create_keychain v h home path pass =
     run_security v h home [''create-keychain'', ''-p'', pass, path] (''security create-keychain failed for '' @ path)"

definition unlock_keychain :: "'h spawn_env \<Rightarrow> 'h \<Rightarrow> string \<Rightarrow> string \<Rightarrow> string \<Rightarrow> 'h \<times> (string + unit)" where
  "unlock_keychain v h home path pass =
     run_security v h home [''unlock-keychain'', ''-u'', ''-p'', pass, path] (''security unlock-keychain failed for '' @ path)"

definition contained_passphrase :: "'h spawn_env \<Rightarrow> 'h \<Rightarrow> string \<Rightarrow> string \<Rightarrow> string \<Rightarrow> 'h \<times> (string + string)" where
  "contained_passphrase v h home keychain pass_path =
     (if sp_exists v h keychain then (h, rbind (sp_read v h pass_path) (\<lambda>s. Inr (trim s)))
      else let (h, pass) = generate_passphrase v h
           in case sp_write v h pass_path pass of
                (h, Inl e) \<Rightarrow> (h, Inl e)
              | (h, Inr _) \<Rightarrow>
                  (case create_keychain v h home keychain pass of
                     (h, Inl e) \<Rightarrow> (h, Inl e)
                   | (h, Inr _) \<Rightarrow> (h, Inr pass)))"

definition provision_contained_keychain :: "'h spawn_env \<Rightarrow> 'h \<Rightarrow> string \<Rightarrow> 'h \<times> (string + unit)" where
  "provision_contained_keychain v h home =
     (let keychains_dir = path_join home ''Library/Keychains''
      in case sp_create_dir_all v h keychains_dir of
           (h, Inl e) \<Rightarrow> (h, Inl e)
         | (h, Inr _) \<Rightarrow>
             (let keychain = path_join keychains_dir LOGIN_KEYCHAIN; pass_path = path_join home PASS_FILE
              in case contained_passphrase v h home keychain pass_path of
                   (h, Inl e) \<Rightarrow> (h, Inl e)
                 | (h, Inr passphrase) \<Rightarrow>
                     (case unlock_keychain v h home keychain passphrase of
                        (h, Inl e) \<Rightarrow> (h, Inl e)
                      | (h, Inr _) \<Rightarrow>
                          (fst (sp_security v h home [''set-keychain-settings'', ''-lut'', ''86400'', keychain]), Inr ()))))"

section \<open>Finding the process of an application (launch.rs)\<close>

definition bundle_identifier :: "'h spawn_env \<Rightarrow> 'h \<Rightarrow> string \<Rightarrow> string option" where
  "bundle_identifier v h app_bundle =
     (case sp_plutil v h (path_join app_bundle ''Contents/Info.plist'') of
        None \<Rightarrow> None
      | Some out \<Rightarrow> (let i = trim out in if i = [] then None else Some i))"

definition bundle_pids :: "int list \<Rightarrow> u32 list" where
  "bundle_pids raw = remdups_adj (sort (List.map_filter (\<lambda>p. if 0 \<le> p then Some (word_of_int p) else None) raw))"

definition running_pids_for_bundle :: "'h spawn_env \<Rightarrow> 'h \<Rightarrow> string \<Rightarrow> u32 list" where
  "running_pids_for_bundle v h bundle_id = bundle_pids (sp_running v h bundle_id)"

definition first_new :: "u32 list \<Rightarrow> u32 list \<Rightarrow> u32 option" where
  "first_new current exclude = List.find (\<lambda>pid. pid \<notin> set exclude) current"

text \<open>\<open>None\<close> when the observations end before the loop does.\<close>

fun wait_loop :: "u32 list \<Rightarrow> nat \<Rightarrow> (nat \<times> u32 list) list \<Rightarrow> u32 option option" where
  "wait_loop exclude deadline [] = None"
| "wait_loop exclude deadline ((now, current) # rest) =
     (case first_new current exclude of
        Some pid \<Rightarrow> Some (Some pid)
      | None \<Rightarrow>
          if now \<ge> deadline then Some (if current = [] then None else Some (last current))
          else wait_loop exclude deadline rest)"

definition wait_for_new_app_pid :: "'h spawn_env \<Rightarrow> 'h \<Rightarrow> string \<Rightarrow> u32 list \<Rightarrow> nat \<Rightarrow> nat \<Rightarrow> u32 option option" where
  "wait_for_new_app_pid v h app_bundle exclude start timeout =
     (case bundle_identifier v h app_bundle of
        None \<Rightarrow> Some None
      | Some bundle_id \<Rightarrow>
          wait_loop exclude (start + timeout) (map (\<lambda>(now, raw). (now, bundle_pids raw)) (sp_polls v h bundle_id)))"

section \<open>Spawning (lib.rs)\<close>

definition resolve_program :: "'h spawn_env \<Rightarrow> 'h \<Rightarrow> string \<Rightarrow> string" where
  "resolve_program v h executable =
     (if path_extension executable = Some ''app'' \<and> sp_is_dir v h executable
      then let macos_dir = path_join (path_join executable ''Contents'') ''MacOS''
           in case map_option (path_join macos_dir) (path_file_stem executable) of
                Some named \<Rightarrow>
                  if sp_exists v h named then named
                  else (case sp_first_entry v h macos_dir of Some e \<Rightarrow> e | None \<Rightarrow> executable)
              | None \<Rightarrow> (case sp_first_entry v h macos_dir of Some e \<Rightarrow> e | None \<Rightarrow> executable)
      else executable)"

definition seed_one :: "'h spawn_env \<Rightarrow> string \<Rightarrow> string \<Rightarrow> 'h \<Rightarrow> string \<Rightarrow> 'h" where
  "seed_one v real_home home h rel =
     (let rel = trim_start_matches rel (CHR ''/'')
      in if rel = [] \<or> ''..'' \<in> set (split_on rel (CHR ''/'')) then h
         else let src = path_join real_home rel
              in if \<not> sp_exists v h src then h
                 else let dst = path_join home rel
                      in if sp_lexists v h dst then h
                         else let h = (case path_parent dst of None \<Rightarrow> h | Some parent \<Rightarrow> fst (sp_create_dir_all v h parent))
                              in sp_symlink v h src dst)"

definition seed_contained_home :: "'h spawn_env \<Rightarrow> 'h \<Rightarrow> launch_spec \<Rightarrow> 'h" where
  "seed_contained_home v h spec =
     (if ls_seed_home spec = [] then h
      else case spec_home spec of
             None \<Rightarrow> h
           | Some home \<Rightarrow>
               if home = [] then h
               else case sp_var v h ''HOME'' of
                      None \<Rightarrow> h
                    | Some real_home \<Rightarrow>
                        if home = real_home then h else foldl (seed_one v real_home home) h (ls_seed_home spec))"

definition open_args :: "launch_spec \<Rightarrow> string list" where
  "open_args spec =
     (let bundle = ls_executable spec; home = (case spec_home spec of None \<Rightarrow> [] | Some s \<Rightarrow> s)
      in (if ends_with bundle ''Finder.app'' \<and> home \<noteq> [] then [''-n'', ''-a'', bundle, home]
          else [''-n'', ''-a'', bundle] @ (if ls_args spec = [] then [] else ''--args'' # ls_args spec))
         @ concat (map (\<lambda>(k, x). [''--env'', k @ ''='' @ x]) (ls_env spec)))"

text \<open>The deadline is three seconds, in milliseconds, after \<open>start\<close>.\<close>

definition spawn_macos_app :: "'h spawn_env \<Rightarrow> nat \<Rightarrow> 'h \<Rightarrow> launch_spec \<Rightarrow> 'h \<times> (string + u32) option" where
  "spawn_macos_app v start h spec =
     (let bundle = ls_executable spec;
          preexisting = (case bundle_identifier v h bundle of None \<Rightarrow> [] | Some i \<Rightarrow> running_pids_for_bundle v h i)
      in case sp_open v h ''/usr/bin/open'' (open_args spec) [] of
           (h, Inl e) \<Rightarrow> (h, Some (Inl e))
         | (h, Inr open_pid) \<Rightarrow>
             (h, map_option (\<lambda>found. Inr (case found of None \<Rightarrow> open_pid | Some pid \<Rightarrow> pid))
                   (wait_for_new_app_pid v h bundle preexisting start 3000)))"

definition prepare_dirs :: "'h spawn_env \<Rightarrow> 'h \<Rightarrow> launch_spec \<Rightarrow> 'h" where
  "prepare_dirs v h spec =
     foldl (\<lambda>h (key, x). if (key = ''HOME'' \<or> key = ''TMPDIR'') \<and> x \<noteq> [] then fst (sp_create_dir_all v h x) else h) h (ls_env spec)"

definition prepare_keychain :: "'h spawn_env \<Rightarrow> 'h \<Rightarrow> launch_spec \<Rightarrow> 'h" where
  "prepare_keychain v h spec =
     (if \<not> sp_macos v then h
      else case spec_home spec of
             None \<Rightarrow> h
           | Some home \<Rightarrow>
               if home = [] \<or> sp_var v h ''HOME'' = Some home then h
               else fst (provision_contained_keychain v h home))"

definition prepare_user_data :: "'h spawn_env \<Rightarrow> 'h \<Rightarrow> launch_spec \<Rightarrow> 'h" where
  "prepare_user_data v h spec =
     foldl (\<lambda>h arg. case strip_prefix arg ''--user-data-dir='' of
                None \<Rightarrow> h | Some dir \<Rightarrow> if dir = [] then h else fst (sp_create_dir_all v h dir)) h (ls_args spec)"

definition os_spawn_contained :: "'h spawn_env \<Rightarrow> nat \<Rightarrow> 'h \<Rightarrow> launch_spec \<Rightarrow> 'h \<times> (string + u32) option" where
  "os_spawn_contained v start h spec =
     (let h = prepare_dirs v h spec; h = prepare_keychain v h spec; h = prepare_user_data v h spec;
          h = seed_contained_home v h spec
      in if sp_macos v \<and> path_extension (ls_executable spec) = Some ''app'' then spawn_macos_app v start h spec
         else let (h, r) = sp_open v h (resolve_program v h (ls_executable spec)) (ls_args spec) (ls_env spec) in (h, Some r))"

section \<open>What seeding links\<close>

definition link_into :: "'h spawn_env \<Rightarrow> 'h \<Rightarrow> string \<times> string \<Rightarrow> 'h" where
  "link_into v h l =
     (case l of (src, dst) \<Rightarrow>
        sp_symlink v (case path_parent dst of None \<Rightarrow> h | Some parent \<Rightarrow> fst (sp_create_dir_all v h parent)) src dst)"

text \<open>A link from the contained home into the user's own at the same relative path, which does not climb.\<close>

definition safe_link :: "string \<Rightarrow> string \<Rightarrow> string \<times> string \<Rightarrow> bool" where
  "safe_link real_home home l =
     (\<exists>rel. rel \<noteq> [] \<and> hd rel \<noteq> CHR ''/'' \<and> ''..'' \<notin> set (split_on rel CHR ''/'') \<and>
        l = (path_join real_home rel, path_join home rel))"

lemma trim_start_matches_hd: "trim_start_matches s c \<noteq> [] \<Longrightarrow> hd (trim_start_matches s c) \<noteq> c"
  unfolding trim_start_matches_def using hd_dropWhile by blast

lemma seed_one_links:
  "seed_one v real_home home h rel = h \<or>
   (\<exists>l. safe_link real_home home l \<and> sp_exists v h (fst l) \<and> \<not> sp_lexists v h (snd l) \<and>
      seed_one v real_home home h rel = link_into v h l)"
proof (cases "seed_one v real_home home h rel = h")
  case False
  define r where "r = trim_start_matches rel CHR ''/''"
  have "r \<noteq> []" "''..'' \<notin> set (split_on r CHR ''/'')" "sp_exists v h (path_join real_home r)"
    "\<not> sp_lexists v h (path_join home r)"
    "seed_one v real_home home h rel = link_into v h (path_join real_home r, path_join home r)"
    using False by (auto simp: seed_one_def Let_def r_def[symmetric] link_into_def split: if_splits)
  moreover have "hd r \<noteq> CHR ''/''" using trim_start_matches_hd[of rel "CHR ''/''"] \<open>r \<noteq> []\<close> by (simp add: r_def)
  ultimately show ?thesis unfolding safe_link_def by fastforce
qed simp

text \<open>
  Seeding a contained home. Whatever a policy lists as the paths to seed, all that happens is a
  sequence of symbolic links, each with the parent directory made first: from a path of the contained
  home to the same relative path of the user's own home, where the relative path is not empty, is not
  absolute and has no \<open>..\<close> component. When the two homes are the same nothing happens.
\<close>

theorem seeding_stays_home:
  "\<exists>links. seed_contained_home v h spec = foldl (link_into v) h links \<and>
     (links = [] \<or> (\<exists>real_home home. sp_var v h ''HOME'' = Some real_home \<and> spec_home spec = Some home \<and> home \<noteq> real_home \<and>
        list_all (safe_link real_home home) links))"
proof -
  have seq: "\<exists>links. foldl (seed_one v real_home home) h rels = foldl (link_into v) h links \<and>
      list_all (safe_link real_home home) links" for real_home home h rels
  proof (induction rels arbitrary: h)
    case Nil
    show ?case by (intro exI[of _ "[]"]) simp
  next
    case (Cons rel rels)
    let ?h = "seed_one v real_home home h rel"
    obtain links where l: "foldl (seed_one v real_home home) ?h rels = foldl (link_into v) ?h links"
      "list_all (safe_link real_home home) links" using Cons by blast
    consider "?h = h" | k where "safe_link real_home home k" "?h = link_into v h k" using seed_one_links[of v real_home home h rel] by blast
    then show ?case
    proof cases
      case 1
      then show ?thesis using l by auto
    next
      case 2
      then have "foldl (seed_one v real_home home) h (rel # rels) = foldl (link_into v) h (k # links)" using l(1) by simp
      then show ?thesis using 2(1) l(2) by (intro exI[of _ "k # links"]) simp
    qed
  qed
  consider "seed_contained_home v h spec = h"
    | real_home home where "sp_var v h ''HOME'' = Some real_home" "spec_home spec = Some home" "home \<noteq> real_home"
      "seed_contained_home v h spec = foldl (seed_one v real_home home) h (ls_seed_home spec)"
    by (cases "ls_seed_home spec = []"; cases "spec_home spec"; cases "spec_home spec = Some []"; cases "sp_var v h ''HOME''";
        cases "sp_var v h ''HOME'' = spec_home spec") (simp_all add: seed_contained_home_def)
  then show ?thesis
  proof cases
    case 1
    then show ?thesis by (intro exI[of _ "[]"]) simp
  next
    case 2
    then show ?thesis using seq[of real_home home h "ls_seed_home spec"] by auto
  qed
qed

section \<open>The search for the process\<close>

lemma wait_loop_ends: "\<exists>x \<in> set obs. deadline \<le> fst x \<Longrightarrow> \<exists>r. wait_loop exclude deadline obs = Some r"
proof (induction obs)
  case (Cons x obs)
  then show ?case by (cases x) (auto split: option.splits)
qed simp

lemma wait_loop_result:
  "wait_loop exclude deadline obs = Some (Some pid) \<Longrightarrow>
   \<exists>(now, current) \<in> set obs. pid \<in> set current \<and> (pid \<in> set exclude \<longrightarrow> deadline \<le> now)"
proof (induction obs)
  case (Cons x obs)
  obtain now current where x: "x = (now, current)" by (cases x)
  show ?case
  proof (cases "first_new current exclude")
    case None
    then show ?thesis using Cons x by (auto split: if_splits)
  next
    case (Some p)
    then have "p \<in> set current" "p \<notin> set exclude" by (auto simp: first_new_def dest: find_SomeD)
    then show ?thesis using Cons.prems x Some by auto
  qed
qed simp

lemma wait_loop_old:
  assumes "\<forall>(now, current) \<in> set obs. set current \<subseteq> set exclude" "wait_loop exclude deadline obs = Some (Some pid)"
  shows "pid \<in> set exclude"
  using wait_loop_result[OF assms(2)] assms(1) by auto

text \<open>
  The wait for a launched application ends. Each turn of the loop sleeps for 50 milliseconds, so
  when turn \<open>i\<close> runs at least \<open>50 i\<close> milliseconds after the start, the loop has returned by turn 61;
  a process it returns was running at one of its turns, and is one that did not run before the launch
  unless the three seconds were over.
\<close>

theorem launch_wait_ends:
  assumes "\<forall>i < length obs. start + 50 * i \<le> fst (obs ! i)" "61 \<le> length obs"
  shows "\<exists>r. wait_loop exclude (start + 3000) obs = Some r \<and>
     (case r of None \<Rightarrow> True
      | Some pid \<Rightarrow> \<exists>(now, current) \<in> set obs. pid \<in> set current \<and> (pid \<notin> set exclude \<or> start + 3000 \<le> now))"
proof -
  have "start + 3000 \<le> fst (obs ! 60)" "obs ! 60 \<in> set obs" using assms(1)[rule_format, of 60] assms(2) by simp_all
  then obtain r where r: "wait_loop exclude (start + 3000) obs = Some r" using wait_loop_ends by blast
  then show ?thesis using wait_loop_result[of exclude "start + 3000" obs] by (cases r) (auto split: prod.splits)
qed

theorem launch_wait_ends_witness:
  "\<exists>r. wait_loop [7] (0 + 3000) (map (\<lambda>i. (50 * i, [7])) [0..<61]) = Some r \<and>
     (case r of None \<Rightarrow> True
      | Some pid \<Rightarrow> \<exists>(now, current) \<in> set (map (\<lambda>i. (50 * i, [7])) [0..<61]). pid \<in> set current \<and> (pid \<notin> set [7] \<or> 0 + 3000 \<le> now))"
  by (rule launch_wait_ends) (simp_all add: nth_map_upt del: upt_rec_numeral)

lemma wait_loop_some:
  "\<forall>(now, current) \<in> set obs. current \<noteq> [] \<Longrightarrow> wait_loop exclude deadline obs \<noteq> Some None"
proof (induction obs)
  case (Cons x obs)
  then show ?case by (cases x) (auto split: option.splits)
qed simp

text \<open>
  A launch may take over a process of the user. When the application is already running and opening
  it starts no other process (every turn of the wait sees processes of the bundle, and only ones that ran
  before), the process id the launch returns is one of those: a process started by the user outside of
  work. The daemon puts the process of a launch into the work zone.
\<close>

theorem launch_adopts_running:
  assumes b: "bundle_identifier v h (ls_executable spec) = Some i" "bundle_identifier v h' (ls_executable spec) = Some i"
    and opened: "sp_open v h ''/usr/bin/open'' (open_args spec) [] = (h', Inr open_pid)"
    and old: "\<forall>(now, raw) \<in> set (sp_polls v h' i). bundle_pids raw \<noteq> [] \<and> set (bundle_pids raw) \<subseteq> set (running_pids_for_bundle v h i)"
    and ends: "\<exists>(now, raw) \<in> set (sp_polls v h' i). start + 3000 \<le> now"
  shows "\<exists>pid \<in> set (running_pids_for_bundle v h i). spawn_macos_app v start h spec = (h', Some (Inr pid))"
proof -
  let ?ex = "running_pids_for_bundle v h i" and ?obs = "map (\<lambda>(now, raw). (now, bundle_pids raw)) (sp_polls v h' i)"
  have "\<exists>x \<in> set ?obs. start + 3000 \<le> fst x" using ends by force
  then obtain r where r: "wait_loop ?ex (start + 3000) ?obs = Some r" using wait_loop_ends by blast
  have "\<forall>(now, current) \<in> set ?obs. current \<noteq> []" "\<forall>(now, current) \<in> set ?obs. set current \<subseteq> set ?ex" using old by auto
  then obtain pid where "r = Some pid" "pid \<in> set ?ex" using wait_loop_some wait_loop_old r by (metis option.exhaust)
  then show ?thesis
    using r b opened by (simp add: spawn_macos_app_def wait_for_new_app_pid_def)
qed

definition busy_host :: "unit spawn_env" where
  "busy_host = \<lparr>sp_macos = True, sp_var = \<lambda>_ _. None, sp_exists = \<lambda>_ _. False, sp_is_dir = \<lambda>_ _. False,
     sp_lexists = \<lambda>_ _. False, sp_first_entry = \<lambda>_ _. None, sp_create_dir_all = \<lambda>h _. (h, Inr ()),
     sp_symlink = \<lambda>h _ _. h, sp_read = \<lambda>_ _. Inl [], sp_write = \<lambda>h _ _. (h, Inr ()), sp_random = \<lambda>h. (h, []),
     sp_security = \<lambda>h _ _. (h, Inr True), sp_open = \<lambda>h _ _ _. (h, Inr 900), sp_plutil = \<lambda>_ _. Some ''com.app'',
     sp_running = \<lambda>_ _. [100], sp_polls = \<lambda>_ _. map (\<lambda>i. (50 * i, [100])) [0..<61]\<rparr>"

lemma trim_bundle: "trim ''com.app'' = ''com.app''"
  by code_simp

theorem launch_adopts_running_witness:
  "\<exists>pid \<in> set (running_pids_for_bundle busy_host () ''com.app'').
     spawn_macos_app busy_host 0 () \<lparr>ls_app_id = AppId ''a'', ls_executable = ''/A.app'', ls_args = [], ls_env = [], ls_namespace_prefix = None, ls_seed_home = []\<rparr>
       = ((), Some (Inr pid))"
proof (rule launch_adopts_running[where open_pid = 900])
  show "\<exists>(now, raw) \<in> set (sp_polls busy_host () ''com.app''). 0 + 3000 \<le> now"
    by (rule bexI[of _ "(50 * 60, [100])"]) (simp, simp only: busy_host_def spawn_env.simps set_map set_upt, force)
qed (auto simp: busy_host_def bundle_identifier_def running_pids_for_bundle_def bundle_pids_def List.map_filter_simps
       trim_bundle Let_def)

end
