(* ===== verification/Win_Job.thy ===== *)
theory Win_Job
  imports Boot
begin

text \<open>
  The job object that holds the launched applications on Windows (\<open>clave-win\<close>, \<open>job.rs\<close>): assigning a
  process to it and reading back the processes it holds. The job is the list of the process ids the
  operating system keeps in it. \<open>jb_query\<close> stands for \<open>QueryInformationJobObject\<close> on a buffer with room
  for a number of ids. Shown is one round of the supervisor of \<open>Boot\<close> on what this query returns, also
  when the job holds more processes than the buffer.
\<close>

record job_env =
  jb_open :: "u32 \<Rightarrow> string + unit"
  jb_assign :: "u64 list \<Rightarrow> u32 \<Rightarrow> string + u64 list"
  jb_query :: "u64 list \<Rightarrow> nat \<Rightarrow> string + u64 list"

definition MAX_PIDS :: nat where
  "MAX_PIDS = 1024"

text \<open>The first id is part of the header structure of the list, so the buffer holds one more.\<close>

definition pid_room :: nat where
  "pid_room = MAX_PIDS + 1"

definition contain :: "job_env \<Rightarrow> u64 list \<Rightarrow> u32 \<Rightarrow> u64 list \<times> (platform_error + unit)" where
  "contain v job pid =
     (case jb_open v pid of
        Inl e \<Rightarrow> (job, Inl (PIo e))
      | Inr _ \<Rightarrow> (case jb_assign v job pid of Inl e \<Rightarrow> (job, Inl (PIo e)) | Inr job' \<Rightarrow> (job', Inr ())))"

definition contained_pids :: "job_env \<Rightarrow> u64 list \<Rightarrow> u32 list" where
  "contained_pids v job =
     (case jb_query v job pid_room of
        Inl _ \<Rightarrow> []
      | Inr ids \<Rightarrow> map ucast (take (min (length ids) MAX_PIDS) ids))"

text \<open>One turn of the loop of \<open>spawn_zone_supervisor\<close>.\<close>

definition zone_supervisor_turn :: "job_env \<Rightarrow> u64 list \<Rightarrow> zone_registry \<Rightarrow> zone_registry" where
  "zone_supervisor_turn v job z = supervise_round z (contained_pids v job)"

section \<open>What the operating system documents of a job\<close>

text \<open>
  A query fails when the buffer is too small and otherwise lists the ids; an assignment that succeeds
  adds the process. Process ids fit into 32 bits.
\<close>

definition job_api :: "job_env \<Rightarrow> bool" where
  "job_api v \<longleftrightarrow>
     (\<forall>job room. jb_query v job room = (if room < length job then Inl ''ERROR_MORE_DATA'' else Inr job)) \<and>
     (\<forall>job job' pid. jb_assign v job pid = Inr job' \<longrightarrow> job' = job @ [ucast pid])"

definition has_pid :: "u64 list \<Rightarrow> u32 \<Rightarrow> bool" where
  "has_pid job pid \<longleftrightarrow> ucast pid \<in> set job"

lemma ucast_roundtrip [simp]: "(ucast (ucast (w :: u32) :: u64) :: u32) = w"
  by transfer (simp add: take_bit_take_bit)

lemma contained_pids_exact:
  "job_api v \<Longrightarrow> contained_pids v job = (if length job \<le> 1025 then map ucast (take 1024 job) else [])"
  by (auto simp: contained_pids_def job_api_def pid_room_def MAX_PIDS_def min_def)

lemma small_pid_in_job:
  assumes "\<forall>i \<in> set job. (ucast (ucast i :: u32) :: u64) = i"
  shows "pid \<in> set (map ucast job) \<longleftrightarrow> has_pid job pid"
proof
  assume "pid \<in> set (map ucast job)"
  then obtain i where "i \<in> set job" "pid = ucast i" by auto
  then show "has_pid job pid" using assms by (simp add: has_pid_def)
next
  assume "has_pid job pid"
  then have "ucast (ucast pid :: u64) \<in> set (map (ucast :: u64 \<Rightarrow> u32) job)" unfolding has_pid_def by (metis image_eqI list.set_map)
  then show "pid \<in> set (map ucast job)" by simp
qed

text \<open>
  The job and the work zone. After a turn of the supervisor a process launched by the daemon is in
  the work zone exactly when it is among the first 1024 processes of the job and the job holds at most
  1025. With more the query fails and reports no process, so no launched process stays in the work zone
  although the job holds them all: an application that starts enough processes takes itself and every
  other launched application out of the zone.
\<close>

theorem crowded_job_leaves_zone:
  assumes "job_api v" "\<forall>i \<in> set job. (ucast (ucast i :: u32) :: u64) = i"
  shows "is_supervised (zone_supervisor_turn v job z) (proc_id_for_pid False pid) \<longleftrightarrow>
     length job \<le> 1025 \<and> has_pid (take 1024 job) pid"
proof -
  have "pid \<in> set (map ucast (take 1024 job)) \<longleftrightarrow> has_pid (take 1024 job) pid"
    using assms(2) by (intro small_pid_in_job) (auto dest: in_set_takeD)
  then show ?thesis using assms(1) by (simp add: zone_supervisor_turn_def supervise_round_exact contained_pids_exact)
qed

definition plain_job :: job_env where
  "plain_job = \<lparr>jb_open = \<lambda>_. Inr (), jb_assign = \<lambda>job pid. Inr (job @ [ucast pid]),
     jb_query = \<lambda>job room. if room < length job then Inl ''ERROR_MORE_DATA'' else Inr job\<rparr>"

theorem crowded_job_leaves_zone_witness:
  "is_supervised (zone_supervisor_turn plain_job [7] zone_new) (proc_id_for_pid False 7) \<and>
   \<not> is_supervised (zone_supervisor_turn plain_job (replicate 1026 7) zone_new) (proc_id_for_pid False 7)"
proof -
  have "job_api plain_job" by (simp add: job_api_def plain_job_def)
  then show ?thesis
    using crowded_job_leaves_zone[of plain_job "[7]" zone_new 7]
      crowded_job_leaves_zone[of plain_job "replicate 1026 7" zone_new 7] by (simp add: has_pid_def)
qed

end
