(* ===== verification/Workos.thy ===== *)
theory Workos
  imports Gateway
begin

text \<open>
  \<open>clave-gateway/src/workos.rs\<close>: the identity provider over the WorkOS service. The service, the HTTP
  client, the JSON decoding of serde and the token library are fields of \<open>workos_env\<close>; what they answer
  is arbitrary, and an error of theirs is its text.
\<close>

section \<open>The service and the libraries\<close>

record http_reply =
  hp_success :: bool
  hp_status :: string
  hp_body :: bytes

record workos_user =
  wu_id :: string
  wu_email :: string

record auth_response =
  ar_access_token :: string
  ar_refresh_token :: string
  ar_user :: workos_user
  ar_organization_id :: "string option"
  ar_authentication_method :: "string option"

record device_auth_response =
  dr_device_code :: string
  dr_user_code :: string
  dr_verification_uri :: string

record access_claims =
  ac_sub :: "string option"
  ac_exp :: nat

text \<open>The algorithm of a published key, and the settings a token is decoded with.\<close>

datatype jwk_parameters = RsaParameters string string | OtherParameters

datatype jwt_algorithm = RS256

record jwt_validation =
  jv_algorithm :: jwt_algorithm
  jv_validate_aud :: bool

text \<open>\<open>Validation::new\<close>: one algorithm, and the audience is checked unless the caller turns that off.\<close>

definition validation_new :: "jwt_algorithm \<Rightarrow> jwt_validation" where
  "validation_new a = \<lparr>jv_algorithm = a, jv_validate_aud = True\<rparr>"

record ('jwks, 'key) workos_env =
  we_post :: "string \<Rightarrow> (string \<times> string) list \<Rightarrow> string + http_reply"
  we_get :: "string \<Rightarrow> string + http_reply"
  we_auth_json :: "bytes \<Rightarrow> string + auth_response"
  we_device_json :: "bytes \<Rightarrow> string + device_auth_response"
  we_jwks_json :: "bytes \<Rightarrow> string + 'jwks"
  we_jwks_find :: "'jwks \<Rightarrow> string \<Rightarrow> jwk_parameters option"
  we_decode_header :: "string \<Rightarrow> string + string option"
  we_from_rsa_components :: "string \<Rightarrow> string \<Rightarrow> string + 'key"
  we_decode :: "string \<Rightarrow> 'key \<Rightarrow> jwt_validation \<Rightarrow> string + access_claims"

section \<open>The provider\<close>

record workos_provider =
  wp_api_key :: string
  wp_client_id :: string
  wp_base_url :: string
  wp_resolve_workspace :: "string \<Rightarrow> workspace_id option"

definition idp_err :: "string \<Rightarrow> gateway_error" where
  "idp_err e = GIdp e"

definition map_method :: "string option \<Rightarrow> auth_method" where
  "map_method m =
     (case m of
        Some other \<Rightarrow>
          (if other = ''SSO'' then Sso True
           else if other = ''Password'' then Password
           else if other = ''MagicAuth'' then EmailCode
           else if ends_with other ''OAuth'' then Sso False
           else EmailCode)
      | None \<Rightarrow> EmailCode)"

definition workos_new :: "string \<Rightarrow> string \<Rightarrow> (string \<Rightarrow> workspace_id option) \<Rightarrow> workos_provider" where
  "workos_new api_key client_id resolve_workspace =
     \<lparr>wp_api_key = api_key, wp_client_id = client_id, wp_base_url = ''https://api.workos.com'',
      wp_resolve_workspace = resolve_workspace\<rparr>"

definition with_base_url :: "workos_provider \<Rightarrow> string \<Rightarrow> workos_provider" where
  "with_base_url p url = p\<lparr>wp_base_url := url\<rparr>"

definition verify_access_token ::
  "('jwks, 'key) workos_env \<Rightarrow> workos_provider \<Rightarrow> string \<Rightarrow> gateway_error + unit" where
  "verify_access_token v p token =
     rbind (map_err idp_err (we_decode_header v token)) (\<lambda>kid.
     rbind (ok_or kid (GIdp ''access token missing kid'')) (\<lambda>kid.
     rbind (map_err idp_err (we_get v (wp_base_url p @ ''/sso/jwks/'' @ wp_client_id p))) (\<lambda>reply.
     rbind (map_err idp_err (we_jwks_json v (hp_body reply))) (\<lambda>jwks.
     rbind (ok_or (we_jwks_find v jwks kid) (GIdp ''no JWKS key for kid'')) (\<lambda>jwk.
     rbind
       (case jwk of
          RsaParameters n e \<Rightarrow> map_err idp_err (we_from_rsa_components v n e)
        | OtherParameters \<Rightarrow> Inl (GIdp ''unsupported JWKS key type'')) (\<lambda>key.
     let validation = (validation_new RS256)\<lparr>jv_validate_aud := False\<rparr>
     in rbind (map_err idp_err (we_decode v token key validation)) (\<lambda>_. Inr ())))))))"

definition verify_and_build ::
  "('jwks, 'key) workos_env \<Rightarrow> workos_provider \<Rightarrow> auth_response \<Rightarrow> gateway_error + verified_user" where
  "verify_and_build v p body =
     rbind (verify_access_token v p (ar_access_token body)) (\<lambda>_.
     rbind (ok_or (email_parse (wu_email (ar_user body))) (GIdp ''identity provider returned an invalid email'')) (\<lambda>email.
     rbind
       (ok_or (case ar_organization_id body of None \<Rightarrow> None | Some org \<Rightarrow> wp_resolve_workspace p org)
          (GIdp ''no workspace for WorkOS organization'')) (\<lambda>workspace.
     Inr \<lparr>vu_email = email, vu_idp_user_id = wu_id (ar_user body), vu_workspace = workspace,
          vu_method = map_method (ar_authentication_method body),
          vu_access_token = ar_access_token body, vu_refresh_token = ar_refresh_token body\<rparr>)))"

definition workos_exchange_console_code ::
  "('jwks, 'key) workos_env \<Rightarrow> workos_provider \<Rightarrow> string \<Rightarrow> gateway_error + verified_user" where
  "workos_exchange_console_code v p code =
     rbind (map_err idp_err (we_post v (wp_base_url p @ ''/user_management/authenticate'')
       [(''client_id'', wp_client_id p), (''client_secret'', wp_api_key p),
        (''grant_type'', ''authorization_code''), (''code'', code)])) (\<lambda>resp.
     if \<not> hp_success resp then Inl (GIdp (''WorkOS authenticate failed: HTTP '' @ hp_status resp))
     else rbind (map_err idp_err (we_auth_json v (hp_body resp))) (verify_and_build v p))"

definition workos_begin_device_auth ::
  "('jwks, 'key) workos_env \<Rightarrow> workos_provider \<Rightarrow> workspace_id \<Rightarrow> gateway_error + device_auth" where
  "workos_begin_device_auth v p workspace =
     rbind (map_err idp_err (we_post v (wp_base_url p @ ''/user_management/authorize/device'')
       [(''client_id'', wp_client_id p)])) (\<lambda>resp.
     if \<not> hp_success resp then Inl (GIdp (''WorkOS device authorize failed: HTTP '' @ hp_status resp))
     else rbind (map_err idp_err (we_device_json v (hp_body resp))) (\<lambda>body.
       Inr \<lparr>da_user_code = dr_user_code body, da_verification_uri = dr_verification_uri body,
            da_device_code = dr_device_code body\<rparr>))"

definition workos_poll_device_auth ::
  "('jwks, 'key) workos_env \<Rightarrow> workos_provider \<Rightarrow> string \<Rightarrow> gateway_error + verified_user option" where
  "workos_poll_device_auth v p device_code =
     rbind (map_err idp_err (we_post v (wp_base_url p @ ''/user_management/authenticate'')
       [(''client_id'', wp_client_id p), (''client_secret'', wp_api_key p),
        (''grant_type'', ''urn:ietf:params:oauth:grant-type:device_code''), (''device_code'', device_code)])) (\<lambda>resp.
     if hp_success resp
     then rbind (map_err idp_err (we_auth_json v (hp_body resp))) (\<lambda>body.
       rbind (verify_and_build v p body) (\<lambda>vu. Inr (Some vu)))
     else Inr None)"

definition workos_refresh_session ::
  "('jwks, 'key) workos_env \<Rightarrow> workos_provider \<Rightarrow> string \<Rightarrow> gateway_error + verified_user" where
  "workos_refresh_session v p refresh_token =
     rbind (map_err idp_err (we_post v (wp_base_url p @ ''/user_management/authenticate'')
       [(''client_id'', wp_client_id p), (''client_secret'', wp_api_key p),
        (''grant_type'', ''refresh_token''), (''refresh_token'', refresh_token)])) (\<lambda>resp.
     if \<not> hp_success resp then Inl (GIdp (''WorkOS refresh failed: HTTP '' @ hp_status resp))
     else rbind (map_err idp_err (we_auth_json v (hp_body resp))) (verify_and_build v p))"

definition workos_identity_provider :: "('jwks, 'key) workos_env \<Rightarrow> workos_provider \<Rightarrow> identity_provider" where
  "workos_identity_provider v p =
     \<lparr>ip_exchange_console_code = workos_exchange_console_code v p,
      ip_begin_device_auth = workos_begin_device_auth v p,
      ip_poll_device_auth = workos_poll_device_auth v p,
      ip_refresh_session = workos_refresh_session v p\<rparr>"

end
