(* ===== verification/Gateway_Server.thy ===== *)
theory Gateway_Server
  imports Workos Http
begin

text \<open>
  \<open>clave-gateway/src/server_main.rs\<close>: the gateway that the server binary builds from its environment
  variables, up to the point where it listens. What the database and the system do is a field of
  \<open>server_io\<close>; an error is its text.
\<close>

record ('s, 'a) server_io =
  si_env :: "string \<Rightarrow> string option"
  si_connect :: "string \<Rightarrow> string + 's"
  si_migrate :: "'s \<Rightarrow> 's \<times> (string + unit)"
  si_audit_store :: "'s \<Rightarrow> 'a"
  si_counter_file :: "string \<Rightarrow> file_counter"
  si_kw :: aes_kw
  si_x25519 :: x25519
  si_ephemeral :: device_sealing_key

text \<open>What \<open>main\<close> hands to the HTTP server: the application state, the provider and the address.\<close>

record ('s, 'a) server =
  sv_provider :: workos_provider
  sv_state :: "('s, file_counter, 'a) app_state"
  sv_bind :: string

definition env_var :: "(string \<Rightarrow> string option) \<Rightarrow> string \<Rightarrow> string + string" where
  "env_var env name = ok_or (env name) ''environment variable not found''"

definition server_resolve :: "string \<Rightarrow> u64 \<Rightarrow> string \<Rightarrow> workspace_id option" where
  "server_resolve org w o' = (if org \<noteq> [] \<and> o' = org then Some (WorkspaceId w) else None)"

definition server_workspace :: "(string \<Rightarrow> string option) \<Rightarrow> u64" where
  "server_workspace env =
     (case env ''WORKSPACE_ID'' of
        None \<Rightarrow> 0
      | Some v \<Rightarrow> (case parse_u64 v of None \<Rightarrow> 0 | Some n \<Rightarrow> n))"

text \<open>\<open>std::env::var(name).ok().and_then(parse)\<close>\<close>

definition env_key :: "(string \<Rightarrow> string option) \<Rightarrow> string \<Rightarrow> (string \<Rightarrow> bytes option outcome) \<Rightarrow> bytes option outcome" where
  "env_key env name parse = (case env name of None \<Rightarrow> Returned None | Some s \<Rightarrow> parse s)"

definition server_issuer :: "('s, 'a) server_io \<Rightarrow> bytes \<Rightarrow> file_counter policy_issuer" where
  "server_issuer io seed =
     (let workspace_id = server_workspace (si_env io);
          counter_path = (case si_env io ''GATEWAY_COUNTER_PATH'' of
             Some path \<Rightarrow> path | None \<Rightarrow> ''clave-gateway-counter-'' @ dec_of_word workspace_id);
          issuer = issuer_with_counter (signing_key_from_seed (TenantId workspace_id) seed) (si_counter_file io counter_path)
      in set_policy issuer (WorkspaceId workspace_id) restrictive_default)"

definition server_key_service ::
  "sha256 \<Rightarrow> ('s, 'a) server_io \<Rightarrow> bytes \<Rightarrow> workspace_id \<Rightarrow> bytes \<Rightarrow> gateway_error + wrapped_volume_key option" where
  "server_key_service sha io dek =
     (let workspace_id = server_workspace (si_env io)
      in sealed_issue_wrapped_volume_key sha (si_kw io) (si_x25519 io) (si_ephemeral io)
           (key_service_set_container [] (WorkspaceId workspace_id) (ContainerId (ucast workspace_id)) dek))"

definition server_gateway ::
  "('s, file_counter, 'a) gateway_env \<Rightarrow> ('s, 'a) server_io \<Rightarrow> 's \<Rightarrow> bytes option \<Rightarrow> bytes option
     \<Rightarrow> ('s, file_counter, 'a) gateway" where
  "server_gateway v io store seed dek =
     (let g = with_audit_store (gateway_new store) (si_audit_store io store);
          g = (case seed of Some seed \<Rightarrow> with_policy_issuer g (server_issuer io seed) | None \<Rightarrow> g);
          g = (case dek of Some dek \<Rightarrow> with_volume_key_service g (server_key_service (ge_sha v) io dek) | None \<Rightarrow> g)
      in fst (hydrate_audit v g))"

definition server_main ::
  "('s, file_counter, 'a) gateway_env \<Rightarrow> ('s, 'a) server_io \<Rightarrow> (string + ('s, 'a) server) outcome" where
  "server_main v io =
     (case rbind (env_var (si_env io) ''DATABASE_URL'') (\<lambda>database_url.
           rbind (env_var (si_env io) ''WORKOS_API_KEY'') (\<lambda>api_key.
           rbind (env_var (si_env io) ''WORKOS_CLIENT_ID'') (\<lambda>client_id.
           rbind (env_var (si_env io) ''SESSION_KEY'') (\<lambda>session_key.
           rbind (si_connect io database_url) (\<lambda>store.
           case si_migrate io store of
             (store, Inl e) \<Rightarrow> Inl e
           | (store, Inr _) \<Rightarrow> Inr (api_key, client_id, session_key, store)))))) of
        Inl e \<Rightarrow> Returned (Inl e)
      | Inr (api_key, client_id, session_key, store) \<Rightarrow>
          (let org = (case si_env io ''WORKOS_ORG_ID'' of Some o' \<Rightarrow> o' | None \<Rightarrow> []);
               bind = (case si_env io ''BIND'' of Some b \<Rightarrow> b | None \<Rightarrow> ''0.0.0.0:8080'');
               provider = workos_new api_key client_id (server_resolve org (server_workspace (si_env io)))
           in case env_key (si_env io) ''GATEWAY_SIGNING_SEED'' parse_key of
                Panicked \<Rightarrow> Panicked
              | Returned seed \<Rightarrow>
                  (case env_key (si_env io) ''GATEWAY_VOLUME_DEK'' (parse_dek DEK_LEN) of
                     Panicked \<Rightarrow> Panicked
                   | Returned dek \<Rightarrow>
                       (case parse_key session_key of
                          Panicked \<Rightarrow> Panicked
                        | Returned None \<Rightarrow> Returned (Inl ''SESSION_KEY must be 64 hex chars (32 bytes)'')
                        | Returned (Some key) \<Rightarrow>
                            Returned (Inr \<lparr>sv_provider = provider,
                              sv_state = app_state_new (server_gateway v io store seed dek) \<lparr>sl_key = key\<rparr>,
                              sv_bind = bind\<rparr>)))))"

end
