(* ===== verification/Workos_Props.thy ===== *)
theory Workos_Props
  imports Workos Postgres_Props
begin

text \<open>
  What a sign-in over WorkOS rests on. A session of the console needs a token signed by a published key,
  an organization that stands for the workspace, an allowed address and, where the workspace requires
  it, enterprise single sign-on. The enrollment of a device rests on the address alone.
\<close>

section \<open>What WorkOS vouches for\<close>

declare map_err_eq_Inr [simp] ok_or_eq_Inr [simp]

lemma map_method_sso [simp]: "map_method m = Sso True \<longleftrightarrow> m = Some ''SSO''"
  by (auto simp: map_method_def split: option.splits)

text \<open>The token carries a signature under an RSA key that the service publishes for this client.\<close>

definition token_signed :: "('jwks, 'key) workos_env \<Rightarrow> workos_provider \<Rightarrow> string \<Rightarrow> bool" where
  "token_signed v p token =
     (\<exists>kid reply jwks n e key claims.
        we_decode_header v token = Inr (Some kid) \<and>
        we_get v (wp_base_url p @ ''/sso/jwks/'' @ wp_client_id p) = Inr reply \<and>
        we_jwks_json v (hp_body reply) = Inr jwks \<and> we_jwks_find v jwks kid = Some (RsaParameters n e) \<and>
        we_from_rsa_components v n e = Inr key \<and>
        we_decode v token key \<lparr>jv_algorithm = RS256, jv_validate_aud = False\<rparr> = Inr claims)"

lemma rsa_parameters_Inr:
  "(case k of RsaParameters n e \<Rightarrow> f n e | OtherParameters \<Rightarrow> Inl x) = Inr b \<longleftrightarrow>
     (\<exists>n e. k = RsaParameters n e \<and> f n e = Inr b)"
  by (cases k) simp_all

lemma verify_access_token_iff: "verify_access_token v p token = Inr () \<longleftrightarrow> token_signed v p token"
  unfolding verify_access_token_def token_signed_def Let_def rbind_eq_Inr ok_or_eq_Inr map_err_eq_Inr rsa_parameters_Inr
  by (auto simp: validation_new_def)

text \<open>
  The service answers a request with this form with the body \<open>body\<close>, and what the body says of the
  user is as in \<open>vu\<close>.
\<close>

definition vouched ::
  "('jwks, 'key) workos_env \<Rightarrow> workos_provider \<Rightarrow> (string \<times> string) list \<Rightarrow> auth_response \<Rightarrow> verified_user \<Rightarrow> bool" where
  "vouched v p form body vu =
     ((\<exists>reply. we_post v (wp_base_url p @ ''/user_management/authenticate'')
          ([(''client_id'', wp_client_id p), (''client_secret'', wp_api_key p)] @ form) = Inr reply \<and>
        hp_success reply \<and> we_auth_json v (hp_body reply) = Inr body) \<and>
      token_signed v p (ar_access_token body) \<and> email_parse (wu_email (ar_user body)) = Some (vu_email vu) \<and>
      (\<exists>org. ar_organization_id body = Some org \<and> wp_resolve_workspace p org = Some (vu_workspace vu)) \<and>
      vu = \<lparr>vu_email = vu_email vu, vu_idp_user_id = wu_id (ar_user body), vu_workspace = vu_workspace vu,
            vu_method = map_method (ar_authentication_method body),
            vu_access_token = ar_access_token body, vu_refresh_token = ar_refresh_token body\<rparr>)"

lemma verify_and_build_iff:
  "verify_and_build v p body = Inr vu \<longleftrightarrow>
     token_signed v p (ar_access_token body) \<and> email_parse (wu_email (ar_user body)) = Some (vu_email vu) \<and>
     (\<exists>org. ar_organization_id body = Some org \<and> wp_resolve_workspace p org = Some (vu_workspace vu)) \<and>
     vu = \<lparr>vu_email = vu_email vu, vu_idp_user_id = wu_id (ar_user body), vu_workspace = vu_workspace vu,
            vu_method = map_method (ar_authentication_method body),
            vu_access_token = ar_access_token body, vu_refresh_token = ar_refresh_token body\<rparr>"
  by (cases vu) (auto simp: verify_and_build_def rbind_eq_Inr verify_access_token_iff[symmetric] split: option.splits)

lemma exchange_vouched:
  "workos_exchange_console_code v p code = Inr vu \<longleftrightarrow>
     (\<exists>body. vouched v p [(''grant_type'', ''authorization_code''), (''code'', code)] body vu)"
  unfolding workos_exchange_console_code_def vouched_def verify_and_build_iff[symmetric]
  by (auto simp: rbind_eq_Inr)

lemma refresh_vouched:
  "workos_refresh_session v p token = Inr vu \<longleftrightarrow>
     (\<exists>body. vouched v p [(''grant_type'', ''refresh_token''), (''refresh_token'', token)] body vu)"
  unfolding workos_refresh_session_def vouched_def verify_and_build_iff[symmetric]
  by (auto simp: rbind_eq_Inr)

lemma poll_vouched:
  "workos_poll_device_auth v p code = Inr (Some vu) \<longleftrightarrow>
     (\<exists>body. vouched v p [(''grant_type'', ''urn:ietf:params:oauth:grant-type:device_code''), (''device_code'', code)] body vu)"
  unfolding workos_poll_device_auth_def vouched_def verify_and_build_iff[symmetric]
  by (auto simp: rbind_eq_Inr)

section \<open>Sessions of the console\<close>

lemma gbind_Inr: "gbind x f = (g', Inr b) \<longleftrightarrow> (\<exists>g a. x = (g, Inr a) \<and> f g a = (g', Inr b))"
  by (cases x) (auto simp: gbind_def split: sum.splits)

lemma authorize_login_allow:
  "authorize_login email how w found = LoginAllow r \<longleftrightarrow>
     domain_allowed w email \<and> (ws_sso w = Required \<longrightarrow> how = Sso True) \<and>
     (\<exists>m. found = Some m \<and> me_workspace m = ws_id w \<and> me_status m = Active \<and> me_role m = r)"
  by (auto simp: authorize_login_def active_member_role_def is_verified_sso_def
      split: option.splits membership_status.splits)

lemma login_session_Inr:
  "(g, case d of LoginAllow r \<Rightarrow> Inr (f r) | LoginDeny e \<Rightarrow> Inl (h e)) = (g', Inr s) \<longleftrightarrow>
     g' = g \<and> (\<exists>r. d = LoginAllow r \<and> s = f r)"
  by (cases d) auto

lemma console_login_allowed:
  assumes "console_login v g code now ttl = (g', Inr s)"
  shows "\<exists>vu ws found. ip_exchange_console_code (ge_idp v) code = Inr vu \<and> ss_workspace s = vu_workspace vu \<and>
    so_workspace (ge_store v) (gw_store g) (vu_workspace vu) = Inr (Some ws) \<and>
    authorize_login (vu_email vu) (vu_method vu) ws found = LoginAllow (ss_role s)"
  using assms unfolding console_login_def gbind_Inr login_session_Inr
  by (elim exE conjE) (auto simp: rbind_eq_Inr)

lemma refresh_session_allowed:
  assumes "refresh_session v g s0 now ttl = (g', Inr s)"
  shows "\<exists>vu ws found. ip_refresh_session (ge_idp v) (ss_refresh_token s0) = Inr vu \<and> ss_workspace s = vu_workspace vu \<and>
    so_workspace (ge_store v) (gw_store g) (vu_workspace vu) = Inr (Some ws) \<and>
    authorize_login (vu_email vu) (vu_method vu) ws found = LoginAllow (ss_role s)"
  using assms unfolding refresh_session_def gbind_Inr login_session_Inr
  by (elim exE conjE) (auto simp: rbind_eq_Inr)

text \<open>The ways to a session, and the form each sends to the service.\<close>

datatype sign_in = WithCode string | WithRefresh session

fun sign_in_at ::
  "('s, 'c, 'a) gateway_env \<Rightarrow> ('s, 'c, 'a) gateway \<Rightarrow> sign_in \<Rightarrow> unix_time \<Rightarrow> u64 \<Rightarrow> ('s, 'c, 'a, session) gw_result" where
  "sign_in_at v g (WithCode code) now ttl = console_login v g code now ttl"
| "sign_in_at v g (WithRefresh s) now ttl = refresh_session v g s now ttl"

fun sign_in_form :: "sign_in \<Rightarrow> (string \<times> string) list" where
  "sign_in_form (WithCode code) = [(''grant_type'', ''authorization_code''), (''code'', code)]"
| "sign_in_form (WithRefresh s) = [(''grant_type'', ''refresh_token''), (''refresh_token'', ss_refresh_token s)]"

lemma vouched_login:
  assumes "vouched v p form body vu" "authorize_login (vu_email vu) (vu_method vu) ws found = LoginAllow r"
  shows "domain_allowed ws (vu_email vu) \<and> (ws_sso ws = Required \<longrightarrow> ar_authentication_method body = Some ''SSO'')"
proof -
  have "vu_method vu = map_method (ar_authentication_method body)"
    using assms(1) by (metis vouched_def verified_user.select_convs(4))
  then show ?thesis using assms(2) by (simp add: authorize_login_allow)
qed

text \<open>
  (C17) Every session over WorkOS is vouched for. When a login or a refresh gives a session for a workspace,
  the service answered this very code or token with a body whose token is signed by a published RSA key,
  whose organization stands for that workspace and whose address the workspace allows; and where the
  workspace requires single sign-on, the body says that is how the user signed in. No password, mail code
  or social login passes there, whatever the rest of the answer claims.
\<close>

theorem workos_session_vouched:
  assumes "ge_idp v = workos_identity_provider we p" "sign_in_at v g x now ttl = (g', Inr s)"
  shows "\<exists>body vu ws. vouched we p (sign_in_form x) body vu \<and> vu_workspace vu = ss_workspace s \<and>
    so_workspace (ge_store v) (gw_store g) (ss_workspace s) = Inr (Some ws) \<and> domain_allowed ws (vu_email vu) \<and>
    (ws_sso ws = Required \<longrightarrow> ar_authentication_method body = Some ''SSO'')"
proof (cases x)
  case (WithCode code)
  with console_login_allowed[of v g code now ttl g' s] assms obtain vu ws found where
    vu: "workos_exchange_console_code we p code = Inr vu" "ss_workspace s = vu_workspace vu"
    "so_workspace (ge_store v) (gw_store g) (vu_workspace vu) = Inr (Some ws)"
    "authorize_login (vu_email vu) (vu_method vu) ws found = LoginAllow (ss_role s)"
    by (auto simp: workos_identity_provider_def)
  then obtain body where "vouched we p (sign_in_form x) body vu" using WithCode exchange_vouched by fastforce
  then show ?thesis using vouched_login[OF _ vu(4)] vu(2,3) by metis
next
  case (WithRefresh s0)
  with refresh_session_allowed[of v g s0 now ttl g' s] assms obtain vu ws found where
    vu: "workos_refresh_session we p (ss_refresh_token s0) = Inr vu" "ss_workspace s = vu_workspace vu"
    "so_workspace (ge_store v) (gw_store g) (vu_workspace vu) = Inr (Some ws)"
    "authorize_login (vu_email vu) (vu_method vu) ws found = LoginAllow (ss_role s)"
    by (auto simp: workos_identity_provider_def)
  then obtain body where "vouched we p (sign_in_form x) body vu" using WithRefresh refresh_vouched by fastforce
  then show ?thesis using vouched_login[OF _ vu(4)] vu(2,3) by metis
qed

section \<open>Enrollment\<close>

lemma enrollment_steps_idp:
  "issue_tls (v\<lparr>ge_idp := i\<rparr>) g d = issue_tls v g d"
  "register_audit_key (v\<lparr>ge_idp := i\<rparr>) g d k = register_audit_key v g d k"
  by (simp_all add: issue_tls_def register_audit_key_def split: option.splits sum.splits)

lemma complete_enrollment_idp:
  assumes "ip_poll_device_auth i1 code = Inr (Some vu1)" "ip_poll_device_auth i2 code = Inr (Some vu2)"
    and "vu_email vu1 = vu_email vu2" "vu_idp_user_id vu1 = vu_idp_user_id vu2"
  shows "complete_enrollment (v\<lparr>ge_idp := i1\<rparr>) g w code k kek now = complete_enrollment (v\<lparr>ge_idp := i2\<rparr>) g w code k kek now"
  using assms
  by (simp add: complete_enrollment_def authorize_enrollment_poll_def enrollment_steps_idp cong: option.case_cong prod.case_cong)

text \<open>
  (C18) The enrollment of a device rests on the address alone. If WorkOS approves the device code for a user,
  then neither the organization the user signed in to nor how the user signed in matters: the gateway does
  the same as for any other approval with that address and user id.
\<close>

theorem workos_enrollment_ignores_sso:
  assumes "vouched we p (form code) body vu" "vouched we' p' (form code) body' vu'"
    and "form code = [(''grant_type'', ''urn:ietf:params:oauth:grant-type:device_code''), (''device_code'', code)]"
    and "wu_id (ar_user body) = wu_id (ar_user body')" "wu_email (ar_user body) = wu_email (ar_user body')"
  shows "complete_enrollment (v\<lparr>ge_idp := workos_identity_provider we p\<rparr>) g w code k kek now =
    complete_enrollment (v\<lparr>ge_idp := workos_identity_provider we' p'\<rparr>) g w code k kek now"
proof (rule complete_enrollment_idp)
  show "ip_poll_device_auth (workos_identity_provider we p) code = Inr (Some vu)"
    "ip_poll_device_auth (workos_identity_provider we' p') code = Inr (Some vu')"
    using assms(1-3) by (auto simp: workos_identity_provider_def poll_vouched)
  show "vu_email vu = vu_email vu'" using assms(1,2,5) by (simp add: vouched_def)
  show "vu_idp_user_id vu = vu_idp_user_id vu'"
    using assms(1,2,4) by (metis vouched_def verified_user.select_convs(2))
qed

section \<open>Concrete services\<close>

text \<open>
  A service that answers every request with the body given, and a workspace that requires single sign-on
  and is known to WorkOS as \<open>org_1\<close>; \<open>org_2\<close> is another one.
\<close>

definition demo_workos :: "auth_response \<Rightarrow> (unit, string) workos_env" where
  "demo_workos body =
     \<lparr>we_post = (\<lambda>_ _. Inr \<lparr>hp_success = True, hp_status = ''200 OK'', hp_body = []\<rparr>),
      we_get = (\<lambda>_. Inr \<lparr>hp_success = True, hp_status = ''200 OK'', hp_body = []\<rparr>),
      we_auth_json = (\<lambda>_. Inr body), we_device_json = (\<lambda>_. Inl ''none''), we_jwks_json = (\<lambda>_. Inr ()),
      we_jwks_find = (\<lambda>_ kid. if kid = ''k1'' then Some (RsaParameters ''n'' ''e'') else None),
      we_decode_header = (\<lambda>_. Inr (Some ''k1'')), we_from_rsa_components = (\<lambda>n e. Inr (n @ e)),
      we_decode = (\<lambda>_ _ _. Inr \<lparr>ac_sub = None, ac_exp = 0\<rparr>)\<rparr>"

definition demo_body :: "string \<Rightarrow> string \<Rightarrow> auth_response" where
  "demo_body org how =
     \<lparr>ar_access_token = ''t'', ar_refresh_token = ''r'', ar_user = \<lparr>wu_id = ''u'', wu_email = ''a@b.c''\<rparr>,
      ar_organization_id = Some org, ar_authentication_method = Some how\<rparr>"

definition demo_provider :: workos_provider where
  "demo_provider = workos_new ''key'' ''client''
     (\<lambda>org. if org = ''org_1'' then Some (WorkspaceId 1) else if org = ''org_2'' then Some (WorkspaceId 2) else None)"

definition demo_sso_gateway :: "(pg_state, mem_counter, mem_audit_store) gateway" where
  "demo_sso_gateway = gateway_new (demo_pg\<lparr>pg_workspace := [\<lparr>wsr_id = 1, wsr_allowed_domains = [], wsr_sso_mode = ''required''\<rparr>]\<rparr>)"

definition demo_sso_env :: "auth_response \<Rightarrow> (pg_state, mem_counter, mem_audit_store) gateway_env" where
  "demo_sso_env body = demo_pg_gateway_env\<lparr>ge_idp := workos_identity_provider (demo_workos body) demo_provider\<rparr>"

lemma demo_email: "email_parse ''a@b.c'' = Some (EmailAddr ''a@b.c'')" by code_simp

definition demo_vouched :: "workspace_id \<Rightarrow> auth_method \<Rightarrow> verified_user" where
  "demo_vouched w m = \<lparr>vu_email = EmailAddr ''a@b.c'', vu_idp_user_id = ''u'', vu_workspace = w, vu_method = m,
     vu_access_token = ''t'', vu_refresh_token = ''r''\<rparr>"

lemma demo_vouches:
  "wp_resolve_workspace demo_provider org = Some w \<Longrightarrow>
     vouched (demo_workos (demo_body org how)) demo_provider form (demo_body org how) (demo_vouched w (map_method (Some how)))"
  by (simp add: vouched_def token_signed_def demo_workos_def demo_body_def demo_vouched_def demo_email)

lemma demo_organizations:
  "wp_resolve_workspace demo_provider ''org_1'' = Some (WorkspaceId 1)"
  "wp_resolve_workspace demo_provider ''org_2'' = Some (WorkspaceId 2)"
  by (simp_all add: demo_provider_def workos_new_def)

lemmas demo_sso_defs = demo_sso_gateway_def demo_sso_env_def demo_pg_gateway_env_def demo_pg_def demo_pg_env_def
  gateway_new_def pg_store_ops_def pg_workspace_by_id_def pg_query_def pg_upsert_user_def pg_execute_def upsert_row_def
  pg_membership_of_def find_member_def pg_record_device_def has_user_def has_workspace_def has_device_def sso_from_def role_from_def status_from_def
  workos_identity_provider_def demo_vouched_def active_member_role_def

lemma demo_workos_login:
  "workos_exchange_console_code (demo_workos (demo_body ''org_1'' how)) demo_provider ''c'' =
     Inr (demo_vouched (WorkspaceId 1) (map_method (Some how)))"
  using demo_vouches[OF demo_organizations(1)] by (auto simp: exchange_vouched)

lemma demo_sso_login:
  "snd (console_login (demo_sso_env (demo_body ''org_1'' how)) demo_sso_gateway ''c'' 5 10) =
     (if how = ''SSO'' then Inr \<lparr>ss_user = UserId 2, ss_workspace = WorkspaceId 1, ss_role = Admin, ss_expires_at = 15,
        ss_refresh_token = ''r''\<rparr> else Inl (Unauthorized SsoRequired))"
  using demo_workos_login[of how]
  by (simp add: console_login_def demo_sso_defs Let_def authorize_login_def domain_allowed_def is_verified_sso_def saturating_add_def)

text \<open>A member signs in with SSO.\<close>

theorem workos_session_vouched_witness:
  "\<exists>vu. vouched (demo_workos (demo_body ''org_1'' ''SSO'')) demo_provider
     [(''grant_type'', ''authorization_code''), (''code'', ''c'')] (demo_body ''org_1'' ''SSO'') vu \<and> vu_workspace vu = WorkspaceId 1"
proof -
  obtain g' where g': "console_login (demo_sso_env (demo_body ''org_1'' ''SSO'')) demo_sso_gateway ''c'' 5 10 = (g',
      Inr \<lparr>ss_user = UserId 2, ss_workspace = WorkspaceId 1, ss_role = Admin, ss_expires_at = 15, ss_refresh_token = ''r''\<rparr>)"
    using demo_sso_login[of "''SSO''"] by (metis prod.collapse)
  have "ge_idp (demo_sso_env (demo_body ''org_1'' ''SSO'')) = workos_identity_provider (demo_workos (demo_body ''org_1'' ''SSO'')) demo_provider"
    by (simp add: demo_sso_env_def)
  from workos_session_vouched[OF this, of demo_sso_gateway "WithCode ''c''" 5 10 g'] g'
  obtain body vu where "vouched (demo_workos (demo_body ''org_1'' ''SSO'')) demo_provider
     [(''grant_type'', ''authorization_code''), (''code'', ''c'')] body vu" "vu_workspace vu = WorkspaceId 1"
    by auto
  moreover from this(1) have "body = demo_body ''org_1'' ''SSO''" by (simp add: vouched_def demo_workos_def)
  ultimately show ?thesis by blast
qed

text \<open>
  With a password the same member is refused at the console, and gets a device enrolled, also when signed
  in to the organization of another workspace.
\<close>

theorem workos_enrollment_ignores_sso_witness:
  "snd (console_login (demo_sso_env (demo_body ''org_1'' ''Password'')) demo_sso_gateway ''c'' 5 10) = Inl (Unauthorized SsoRequired) \<and>
   complete_enrollment (demo_sso_env (demo_body ''org_2'' ''Password'')) demo_sso_gateway (WorkspaceId 1) ''c'' (replicate 32 7) None 10 =
   complete_enrollment (demo_sso_env (demo_body ''org_1'' ''SSO'')) demo_sso_gateway (WorkspaceId 1) ''c'' (replicate 32 7) None 10 \<and>
   (\<exists>d. snd (complete_enrollment (demo_sso_env (demo_body ''org_2'' ''Password'')) demo_sso_gateway (WorkspaceId 1) ''c''
      (replicate 32 7) None 10) = Inr (CompletionApproved d (UserId 2) Admin None None None))"
proof (intro conjI)
  show "complete_enrollment (demo_sso_env (demo_body ''org_2'' ''Password'')) demo_sso_gateway (WorkspaceId 1) ''c'' (replicate 32 7) None 10 =
      complete_enrollment (demo_sso_env (demo_body ''org_1'' ''SSO'')) demo_sso_gateway (WorkspaceId 1) ''c'' (replicate 32 7) None 10"
    unfolding demo_sso_env_def
    by (rule workos_enrollment_ignores_sso[where form = "\<lambda>c. [(''grant_type'', ''urn:ietf:params:oauth:grant-type:device_code''), (''device_code'', c)]",
          OF demo_vouches[OF demo_organizations(2)] demo_vouches[OF demo_organizations(1)]])
      (simp_all add: demo_body_def)
  have "workos_poll_device_auth (demo_workos (demo_body ''org_2'' ''Password'')) demo_provider ''c'' = Inr (Some (demo_vouched (WorkspaceId 2) Password))"
    using demo_vouches[OF demo_organizations(2), of "''Password''"] by (auto simp: poll_vouched map_method_def)
  then show "\<exists>d. snd (complete_enrollment (demo_sso_env (demo_body ''org_2'' ''Password'')) demo_sso_gateway (WorkspaceId 1) ''c''
      (replicate 32 7) None 10) = Inr (CompletionApproved d (UserId 2) Admin None None None)"
    by (simp add: complete_enrollment_def authorize_enrollment_poll_def demo_sso_defs Let_def authorize_enrollment_def
        register_audit_key_def issue_tls_def)
qed (simp add: demo_sso_login)

end
