(* ===== verification/Gateway_Server_Props.thy ===== *)
theory Gateway_Server_Props
  imports Gateway_Server Workos_Props Http_Props Daemon_Props
begin

text \<open>
  The server that the binary starts: it admits sign-ins of one organization into one workspace, it never
  accepts an event of the directory, and it has forgotten the policies authored before it started, so the
  devices that hold a later version refuse what it issues until as many were authored again.
\<close>

section \<open>The gateway that is started\<close>

lemma restore_audit_frame:
  "gw_policy_issuer (fst (hydrate_audit v g)) = gw_policy_issuer g"
  "gw_device_ca (fst (hydrate_audit v g)) = gw_device_ca g"
  "gw_store (fst (hydrate_audit v g)) = gw_store g"
  by (simp_all add: hydrate_audit_def split: option.splits sum.splits)

lemma server_gateway_parts:
  "gw_policy_issuer (server_gateway v io store seed dek) = map_option (server_issuer io) seed"
  "gw_device_ca (server_gateway v io store seed dek) = None"
  "gw_store (server_gateway v io store seed dek) = store"
  by (simp_all add: server_gateway_def Let_def restore_audit_frame with_policy_issuer_def with_volume_key_service_def
      with_audit_store_def gateway_new_def split: option.splits)

lemma server_main_started:
  assumes "server_main v io = Returned (Inr sv)"
  shows "\<exists>store seed dek key org.
    st_gateway (sv_state sv) = server_gateway v io store seed dek \<and> st_sealer (sv_state sv) = \<lparr>sl_key = key\<rparr> \<and>
    st_scim_token (sv_state sv) = None \<and>
    wp_resolve_workspace (sv_provider sv) = server_resolve org (server_workspace (si_env io)) \<and>
    env_key (si_env io) ''GATEWAY_SIGNING_SEED'' parse_key = Returned seed"
  using assms unfolding server_main_def
  by (auto simp: Let_def app_state_new_def workos_new_def split: sum.splits prod.splits outcome.splits option.splits) blast+

text \<open>Sessions of the server are sessions of its workspace.\<close>

lemma server_session_workspace:
  assumes "server_main v io = Returned (Inr sv)" "vouched we (sv_provider sv) form body vu"
  shows "vu_workspace vu = WorkspaceId (server_workspace (si_env io)) \<and> ar_organization_id body \<noteq> Some []"
proof -
  obtain org where "wp_resolve_workspace (sv_provider sv) = server_resolve org (server_workspace (si_env io))"
    using server_main_started[OF assms(1)] by blast
  then show ?thesis using assms(2) by (auto simp: vouched_def server_resolve_def split: if_splits)
qed

section \<open>Policies after a restart\<close>

lemma issuer_versions:
  "policy_versions i w = Inr vs \<Longrightarrow> issuer_current i w = Some b \<Longrightarrow> vs \<noteq> [] \<and> pb_version b = last vs"
  by (auto simp: policy_versions_def issuer_current_def last_map split: option.splits if_splits)

lemma last_count_from: "last (v # count_from v n) = v + of_nat n"
  by (induction n arbitrary: v) (simp_all add: add.assoc)

lemma server_issuer_versions:
  "policy_versions (server_issuer io seed) w = Inr (if w = WorkspaceId (server_workspace (si_env io)) then [0] else [])"
  by (simp add: policy_versions_def server_issuer_def set_policy_def issuer_with_counter_def restrictive_default_def Let_def)

lemma authored_version:
  assumes "issuer_current (author_all (server_issuer io seed) w bs) w = Some b"
  shows "pb_version b = of_nat (length bs)"
proof -
  note vs = author_all_versions[OF server_issuer_versions, of io seed w bs]
  show ?thesis
    using issuer_versions[OF vs assms] last_count_from[of 0 "length bs"]
    by (cases "w = WorkspaceId (server_workspace (si_env io))") (auto simp: last_append split: if_splits)
qed

lemma gw_author_all:
  assumes "can (rc_role ctx) ManagePolicy"
  shows "gw_policy_issuer g = Some i \<Longrightarrow>
    gw_policy_issuer (foldl (\<lambda>g b. fst (gw_author_policy g ctx b)) g bs) = Some (author_all i (rc_workspace ctx) bs)"
  using assms
  by (induction bs arbitrary: g i) (simp_all add: gw_author_policy_def require_def on_issuer_def)

lemma gw_author_none:
  "gw_policy_issuer g = None \<Longrightarrow> gw_policy_issuer (foldl (\<lambda>g b. fst (gw_author_policy g ctx b)) g bs) = None"
  by (induction bs arbitrary: g) (simp_all add: gw_author_policy_def require_def)

text \<open>A command whose bundle is older than the policy of a device does not change the policy.\<close>

lemma older_bundle_refused:
  assumes "dv_envelope dv = pc" "cd_dec pc (sc_envelope sc) = Some env" "en_command env = UpdatePolicy b"
    and "pb_version b < policy_version d"
  shows "dm_policy (fst (apply_gateway_command dv d sc t)) = dm_policy d \<and> isl (snd (apply_gateway_command dv d sc t))"
proof -
  obtain gv r where v: "verify (dv_ed dv) pc (dm_gateway d) sc t = (gv, r)" by fastforce
  have "r = Inr cmd \<Longrightarrow> cmd = UpdatePolicy b" for cmd
    using v assms(2,3) by (auto simp: verify_Inr_iff authentic_def)
  then show ?thesis using assms(1,4) v
    by (cases r) (auto simp: apply_gateway_command_def update_policy_def policy_version_def Let_def)
qed

lemma author_all_signer: "pi_signer (author_all i w bs) = pi_signer i"
  by (induction bs arbitrary: i) (simp_all add: author_policy_def Let_def)

lemma sign_current_Inr:
  assumes "sign_current ed pc nxt i w now = (i', Inr (Some sc))"
  shows "\<exists>b c. issuer_current i w = Some b \<and> sc = gk_sign ed pc (pi_signer i) c now (UpdatePolicy b)"
  using assms by (auto simp: sign_current_def split: option.splits prod.splits sum.splits)

lemma reissued:
  assumes "gw_reissue_policy v g ctx now = (g2, Inr sc)"
  shows "can (rc_role ctx) ManagePolicy \<and> (\<exists>i b c. gw_policy_issuer g = Some i \<and>
    issuer_current i (rc_workspace ctx) = Some b \<and>
    sc = gk_sign (ge_ed v) (ge_envelope v) (pi_signer i) c now (UpdatePolicy b))"
proof -
  have c: "can (rc_role ctx) ManagePolicy" using assms by (auto simp: gw_reissue_policy_def require_def split: if_splits)
  obtain i where i: "gw_policy_issuer g = Some i"
    using assms c by (cases "gw_policy_issuer g") (auto simp: gw_reissue_policy_def require_def)
  obtain i' r where r: "sign_current (ge_ed v) (ge_envelope v) (ge_next v) i (rc_workspace ctx) now = (i', r)" by fastforce
  have "r = Inr (Some sc)"
    using assms c i r by (cases r) (auto simp: gw_reissue_policy_def require_def reissue_policy_def on_issuer_def gbind_Inr)
  then show ?thesis using c i sign_current_Inr r by blast
qed

lemma gk_sign_decodes:
  "cd_dec pc (cd_enc pc (envelope_new (gk_tenant k) c now cmd)) = Some (envelope_new (gk_tenant k) c now cmd) \<Longrightarrow>
     cd_dec pc (sc_envelope (gk_sign ed pc k c now cmd)) = Some (envelope_new (gk_tenant k) c now cmd)"
  by (simp add: gk_sign_def sign_envelope_def envelope_to_bytes_def Let_def)

text \<open>
  (C21) A restarted server does not govern its devices. The server starts with the restrictive default at
  version 0, whatever was authored before. While fewer policies have been authored since the start than
  the version a device holds, every policy the server signs is refused by that device, and the device
  keeps the policy it has.
\<close>

theorem restarted_server_refused:
  assumes "server_main v io = Returned (Inr sv)"
    and "g1 = foldl (\<lambda>g b. fst (gw_author_policy g ctx b)) (st_gateway (sv_state sv)) bundles"
    and "gw_reissue_policy v g1 ctx now = (g2, Inr sc)"
    and "codec_ok_on (ge_envelope v) {envelope_new (TenantId (server_workspace (si_env io))) c now (UpdatePolicy b) |
           c b. get_policy g1 ctx = Inr (Some b)}"
    and "dv_envelope dv = ge_envelope v" "length bundles < unat (policy_version d)"
  shows "dm_policy (fst (apply_gateway_command dv d sc t)) = dm_policy d \<and> isl (snd (apply_gateway_command dv d sc t))"
proof -
  obtain i b c where r: "can (rc_role ctx) ManagePolicy" "gw_policy_issuer g1 = Some i"
    "issuer_current i (rc_workspace ctx) = Some b" "sc = gk_sign (ge_ed v) (ge_envelope v) (pi_signer i) c now (UpdatePolicy b)"
    using reissued[OF assms(3)] by blast
  obtain store seed dek where "st_gateway (sv_state sv) = server_gateway v io store seed dek"
    using server_main_started[OF assms(1)] by blast
  then have g0: "gw_policy_issuer (st_gateway (sv_state sv)) = map_option (server_issuer io) seed"
    by (simp add: server_gateway_parts)
  then have "seed \<noteq> None" using gw_author_none[of "st_gateway (sv_state sv)" ctx bundles] r(2) assms(2) by auto
  then obtain sd where sd: "seed = Some sd" by blast
  then have i: "i = author_all (server_issuer io sd) (rc_workspace ctx) bundles"
    using gw_author_all[OF r(1), of "st_gateway (sv_state sv)" _ bundles] g0 sd r(2) assms(2) by simp
  have "get_policy g1 ctx = Inr (Some b)"
    using r(1-3) by (simp add: get_policy_def require_def current_policy_def)
  moreover have "gk_tenant (pi_signer i) = TenantId (server_workspace (si_env io))"
    by (simp add: i author_all_signer server_issuer_def set_policy_def issuer_with_counter_def signing_key_from_seed_def Let_def)
  ultimately have "cd_dec (ge_envelope v) (sc_envelope sc) = Some (envelope_new (gk_tenant (pi_signer i)) c now (UpdatePolicy b))"
    unfolding r(4) using assms(4) by (intro gk_sign_decodes) (auto simp: codec_ok_on_def)
  moreover have "pb_version b < policy_version d"
    using authored_version[of io sd] r(3) i assms(6) le_less_trans[OF mod_less_eq_dividend[of "length bundles"]]
    by (simp add: word_less_nat_alt unat_of_nat)
  ultimately show ?thesis using older_bundle_refused[OF assms(5), of sc] by (simp add: envelope_new_def)
qed

section \<open>What the server signs\<close>

text \<open>The signed commands in a response.\<close>

fun reply_commands :: "body \<Rightarrow> signed_command list" where
  "reply_commands (JSigned sc) = [sc]"
| "reply_commands (JCompletion (CompletionApproved _ _ _ (Some sc) _ _)) = [sc]"
| "reply_commands _ = []"

definition signs_policies :: "('s, 'c, 'a) gateway_env \<Rightarrow> response \<Rightarrow> bool" where
  "signs_policies v r =
     list_all (\<lambda>sc. \<exists>k c now b. sc = gk_sign (ge_ed v) (ge_envelope v) k c now (UpdatePolicy b)) (reply_commands (rs_body r))"

lemma signs_policies_simps [simp]:
  "reply_commands (rs_body r) = [] \<Longrightarrow> signs_policies v r"
  "rs_body (err_response e) = Text (gateway_error_display e)" "rs_body (reply n b) = b" "rs_body (with_cookie h r c) = rs_body r"
  by (simp_all add: signs_policies_def err_response_def reply_def with_cookie_def Let_def)

lemma answer_signs:
  "(\<And>a. snd x = Inr a \<Longrightarrow> signs_policies v (f a)) \<Longrightarrow> signs_policies v (snd (answer st x f))"
  by (simp add: answer_def split: sum.splits)

lemma as_admin_signs:
  "(\<And>ctx. signs_policies v (snd (f ctx))) \<Longrightarrow> signs_policies v (snd (as_admin v' h st hdr now f))"
  by (cases "admin_ctx v' h st hdr now")
    (auto simp: as_admin_def admin_ctx_def rbind_def ok_or_def map_err_def split: option.splits sum.splits)

lemma on_device_signs: "signs_policies v (snd (on_device st device f))"
  by (auto simp: on_device_def intro: answer_signs split: option.splits)

lemma initial_policy_signs:
  assumes "(let g = register_audit_key v g d k
      in case gw_policy_issuer g of
           Some i \<Rightarrow> on_issuer g (issue_initial_policy (ge_ed v) (ge_envelope v) (ge_next v) i w now)
         | None \<Rightarrow> (g, Inr None)) = (g', Inr (Some sc))"
  shows "\<exists>i i'. sign_current (ge_ed v) (ge_envelope v) (ge_next v) i w now = (i', Inr (Some sc))"
  using assms by (auto simp: Let_def on_issuer_def issue_initial_policy_def split: option.splits) (metis prod.collapse)

lemma completion_signs:
  assumes "complete_enrollment v g w code k kek now = (g', Inr r)"
  shows "signs_policies v (reply 200 (JCompletion r))"
proof -
  have "\<exists>i i'. sign_current (ge_ed v) (ge_envelope v) (ge_next v) i w now = (i', Inr (Some sc))"
    if r: "r = CompletionApproved d u ro (Some sc) key tls" for d u ro sc key tls
  proof -
    obtain ga a where a: "authorize_enrollment_poll v g w code = (ga, Inr a)"
      using assms by (auto simp: complete_enrollment_def gbind_Inr)
    then obtain u' ro' where "a = Some (u', ro')" using assms r by (cases a) (auto simp: complete_enrollment_def)
    with a assms r show ?thesis
      by (auto simp: complete_enrollment_def gbind_Inr dest!: initial_policy_signs)
  qed
  then show ?thesis using sign_current_Inr
    by (cases r; cases "reply_commands (JCompletion r)") (fastforce simp: signs_policies_def elim!: reply_commands.elims)+
qed

lemma snd_signs:
  "snd (complete_enrollment v g w code k kek now) = Inr r \<Longrightarrow> signs_policies v (reply 200 (JCompletion r))"
  "snd (gw_reissue_policy v g ctx now) = Inr sc \<Longrightarrow> signs_policies v (reply 200 (JSigned sc))"
  by (metis completion_signs prod.collapse)
    (cases "gw_reissue_policy v g ctx now", auto dest!: reissued simp: signs_policies_def)

text \<open>
  (C19) The server only ever signs policies. Whatever is requested, in whatever state, a command in the answer
  is a signed policy: neither locking nor wiping a device at the console, nor anything else, makes the
  server sign a command to lock or to wipe, so no device that receives what the server answers locks or
  wipes its volume.
\<close>

theorem server_signs_only_policies:
  "signs_policies v (snd (build_router v h st hdr nonce clock req))"
proof -
  have "signs_policies v (snd (build_router v h st hdr nonce clock r))"
    if "required_action r \<noteq> None" for r
    using that
    by (cases r) (auto simp: admin_handlers intro!: as_admin_signs answer_signs on_device_signs snd_signs)
  moreover have "signs_policies v (snd (build_router v h st hdr nonce clock r))"
    if "required_action r = None" for r
    using that
    by (cases r) (auto simp: console_callback_def auth_me_def refresh_and_reply_def logout_def enroll_start_def enroll_poll_def
        enroll_complete_def audit_ingest_def scim_events_def audit_err_response_def
        intro!: answer_signs snd_signs split: option.splits prod.splits sum.splits gateway_error.splits)
  ultimately show ?thesis by blast
qed

section \<open>The directory\<close>

lemma answer_token [simp]: "st_scim_token (fst (answer st x f)) = st_scim_token st"
  by (simp add: answer_def)

lemma as_admin_token:
  "(\<And>ctx. st_scim_token (fst (f ctx)) = st_scim_token st) \<Longrightarrow> st_scim_token (fst (as_admin v h st hdr now f)) = st_scim_token st"
  by (simp add: as_admin_def split: sum.splits)

lemma on_device_token [simp]: "st_scim_token (fst (on_device st device f)) = st_scim_token st"
  by (simp add: on_device_def split: option.splits)

lemma router_token: "st_scim_token (fst (build_router v h st hdr nonce clock req)) = st_scim_token st"
  by (cases req)
    (auto simp: admin_handlers as_admin_token console_callback_def auth_me_def refresh_and_reply_def enroll_start_def
      enroll_poll_def enroll_complete_def audit_ingest_def scim_events_def
      split: option.splits prod.splits sum.splits gateway_error.splits)

text \<open>
  The server never hears of the directory. It is started without a SCIM token and no request sets one, so
  after any requests every event of the directory, with any token, is answered 401 and changes nothing:
  a member suspended there keeps the access the directory took away.
\<close>

theorem server_ignores_directory:
  assumes "server_main v io = Returned (Inr sv)"
    and "st = foldl (\<lambda>st (hdr, nonce, clock, req). fst (build_router v h st hdr nonce clock req)) (sv_state sv) reqs"
  shows "build_router v h st hdr nonce clock (ScimEvents e) = (st, reply 401 (Text ''invalid or missing SCIM token''))"
proof -
  have "st_scim_token (foldl (\<lambda>st (hdr, nonce, clock, req). fst (build_router v h st hdr nonce clock req)) s0 reqs) = st_scim_token s0" for s0
    by (induction reqs arbitrary: s0) (auto simp: router_token)
  moreover have "st_scim_token (sv_state sv) = None" using server_main_started[OF assms(1)] by blast
  ultimately show ?thesis by (simp add: assms(2) scim_events_def scim_authorized_def)
qed

section \<open>A concrete server\<close>

definition zero_key :: string where
  "zero_key = replicate 64 (CHR ''0'')"

lemma parse_zero_key: "parse_key zero_key = Returned (Some (replicate 32 0))"
  by code_simp

definition demo_io :: "(mem_store, mem_audit_store) server_io" where
  "demo_io =
     \<lparr>si_env = (\<lambda>name. if name = ''WORKSPACE_ID'' then Some (dec_of_word (7 :: u64)) else if name = ''GATEWAY_VOLUME_DEK'' then None
        else if name = ''BIND'' then None else Some zero_key),
      si_connect = (\<lambda>_. Inr mem_store_new), si_migrate = (\<lambda>s. (s, Inr ())), si_audit_store = (\<lambda>_. mem_audit_store_new),
      si_counter_file = (\<lambda>_. \<lparr>fc_content = None, fc_write_err = None\<rparr>),
      si_kw = \<lparr>kw_wrap = (\<lambda>k d. d), kw_unwrap = (\<lambda>k d. Some d)\<rparr>,
      si_x25519 = \<lparr>dh_public = (\<lambda>_. None), dh_shared = (\<lambda>_ _. None)\<rparr>,
      si_ephemeral = \<lparr>ds_secret = [], ds_public = []\<rparr>\<rparr>"

definition first_policy :: policy_bundle where
  "first_policy = restrictive_default\<lparr>pb_version := 1\<rparr>"

text \<open>An envelope with the first policy is as many bytes as its counter.\<close>

definition first_policy_codec :: "envelope codec" where
  "first_policy_codec = \<lparr>cd_enc = (\<lambda>e. replicate (unat (en_counter e)) 0),
     cd_dec = (\<lambda>bs. Some (envelope_new (TenantId 7) (of_nat (length bs)) 10 (UpdatePolicy first_policy)))\<rparr>"

definition demo_server_env :: "(mem_store, file_counter, mem_audit_store) gateway_env" where
  "demo_server_env = \<lparr>ge_ed = ed_demo, ge_sha = id, ge_envelope = first_policy_codec, ge_event = demo_event_codec,
     ge_idp = mock_identity_provider demo_user ''code'', ge_store = mem_store_ops, ge_next = fc_next, ge_audit_store = mem_audit_ops\<rparr>"

definition demo_server :: "(mem_store, mem_audit_store) server" where
  "demo_server = \<lparr>sv_provider = workos_new zero_key zero_key (server_resolve zero_key 7),
     sv_state = app_state_new (server_gateway demo_server_env demo_io mem_store_new (Some (replicate 32 0)) None)
       \<lparr>sl_key = replicate 32 0\<rparr>, sv_bind = ''0.0.0.0:8080''\<rparr>"

lemma demo_io_env [simp]:
  "si_env demo_io ''WORKSPACE_ID'' = Some (dec_of_word (7 :: u64))" "si_env demo_io ''GATEWAY_VOLUME_DEK'' = None"
  "si_env demo_io ''BIND'' = None" "si_env demo_io ''DATABASE_URL'' = Some zero_key" "si_env demo_io ''SESSION_KEY'' = Some zero_key"
  "si_env demo_io ''WORKOS_API_KEY'' = Some zero_key" "si_env demo_io ''WORKOS_CLIENT_ID'' = Some zero_key"
  "si_env demo_io ''WORKOS_ORG_ID'' = Some zero_key" "si_env demo_io ''GATEWAY_SIGNING_SEED'' = Some zero_key"
  "si_connect demo_io x = Inr mem_store_new" "si_migrate demo_io s = (s, Inr ())"
  "si_counter_file demo_io x = \<lparr>fc_content = None, fc_write_err = None\<rparr>"
  by (simp_all add: demo_io_def)

lemma demo_workspace [simp]: "server_workspace (si_env demo_io) = 7"
  by (simp add: server_workspace_def parse_u64_dec)

lemma demo_server_starts: "server_main demo_server_env demo_io = Returned (Inr demo_server)"
  by (simp add: server_main_def env_var_def env_key_def ok_or_def parse_zero_key demo_server_def)

text \<open>A member is suspended in the directory after somebody polled for an enrollment.\<close>

theorem server_ignores_directory_witness:
  "rs_status (snd (build_router demo_server_env demo_http
     (fst (build_router demo_server_env demo_http (sv_state demo_server) \<lparr>hd_cookie = None, hd_authorization = None\<rparr> [] (\<lambda>_. 5) (EnrollPoll 7 ''c'')))
     \<lparr>hd_cookie = None, hd_authorization = Some ''Bearer t''\<rparr> [] (\<lambda>_. 6) (ScimEvents (UserDeactivated (WorkspaceId 7) (EmailAddr ''a@b.c''))))) = 401"
  using server_ignores_directory[OF demo_server_starts, of _ demo_http "[(\<lparr>hd_cookie = None, hd_authorization = None\<rparr>, [], \<lambda>_. 5, EnrollPoll 7 ''c'')]"]
  by (simp add: reply_def)

text \<open>An owner authors a first policy after the restart and sends it to a device at version 5.\<close>

theorem restarted_server_refused_witness:
  "\<exists>g1 g2 sc. g1 = fst (gw_author_policy (st_gateway (sv_state demo_server)) \<lparr>rc_user = UserId 1, rc_workspace = WorkspaceId 7, rc_role = Owner\<rparr> restrictive_default) \<and>
     gw_reissue_policy demo_server_env g1 \<lparr>rc_user = UserId 1, rc_workspace = WorkspaceId 7, rc_role = Owner\<rparr> 10 = (g2, Inr sc) \<and>
     isl (snd (apply_gateway_command (demo_daemon_env\<lparr>dv_envelope := first_policy_codec\<rparr>)
       (fst (update_policy demo_daemon (restrictive_default\<lparr>pb_version := 5\<rparr>))) sc 20))"
proof -
  define ctx where "ctx = \<lparr>rc_user = UserId 1, rc_workspace = WorkspaceId 7, rc_role = Owner\<rparr>"
  define g1 where "g1 = fst (gw_author_policy (st_gateway (sv_state demo_server)) ctx restrictive_default)"
  have i0: "gw_policy_issuer (st_gateway (sv_state demo_server)) = Some (server_issuer demo_io (replicate 32 0))"
    by (simp add: demo_server_def app_state_new_def server_gateway_parts)
  have c: "can (rc_role ctx) ManagePolicy" by (simp add: ctx_def can_def less_eq_role_def)
  let ?i = "author_all (server_issuer demo_io (replicate 32 0)) (WorkspaceId 7) [restrictive_default]"
  have i1: "gw_policy_issuer g1 = Some ?i"
    using gw_author_all[OF c i0, of "[restrictive_default]"] by (simp add: g1_def ctx_def)
  have cur: "issuer_current ?i (WorkspaceId 7) = Some first_policy"
    by (simp add: author_policy_def server_issuer_def set_policy_def issuer_with_counter_def issuer_current_def first_policy_def
        restrictive_default_def Let_def)
  have "\<exists>g2 sc. gw_reissue_policy demo_server_env g1 ctx 10 = (g2, Inr sc)"
    using i1 c cur by (simp add: gw_reissue_policy_def require_def reissue_policy_def sign_current_def ctx_def on_issuer_def
        ok_or_def demo_server_env_def fc_next_def Let_def server_issuer_def set_policy_def issuer_with_counter_def author_policy_def
        split: prod.splits option.splits sum.splits)
  then obtain g2 sc where r: "gw_reissue_policy demo_server_env g1 ctx 10 = (g2, Inr sc)" by blast
  have "codec_ok_on (ge_envelope demo_server_env) {envelope_new (TenantId (server_workspace (si_env demo_io))) c 10 (UpdatePolicy b) |
      c b. get_policy g1 ctx = Inr (Some b)}"
    using i1 c cur by (auto simp: get_policy_def require_def current_policy_def ctx_def codec_ok_on_def demo_server_env_def
        first_policy_codec_def envelope_new_def)
  moreover have "g1 = foldl (\<lambda>g b. fst (gw_author_policy g ctx b)) (st_gateway (sv_state demo_server)) [restrictive_default]"
    by (simp add: g1_def)
  ultimately have "isl (snd (apply_gateway_command (demo_daemon_env\<lparr>dv_envelope := first_policy_codec\<rparr>)
       (fst (update_policy demo_daemon (restrictive_default\<lparr>pb_version := 5\<rparr>))) sc 20))"
    using restarted_server_refused[OF demo_server_starts _ r, of "[restrictive_default]"
        "demo_daemon_env\<lparr>dv_envelope := first_policy_codec\<rparr>" "fst (update_policy demo_daemon (restrictive_default\<lparr>pb_version := 5\<rparr>))" 20]
    by (simp add: demo_server_env_def policy_version_def update_policy_def demo_daemon_def set_policy_observer_def daemon_new_def
        restrictive_default_def)
  then show ?thesis using g1_def r ctx_def by blast
qed

end
