(* ===== verification/Mtls.thy ===== *)
theory Mtls
  imports Gateway
begin

text \<open>
  \<open>clave-proto/src/mtls.rs\<close> and the issuer of \<open>clave-gateway/src/cert.rs\<close>: identities and roots read
  from PEM, the configurations of both ends, the fingerprint by which the gateway knows a device, and the
  certificate authority for devices. The libraries (rustls, rustls_pemfile, rcgen) are the fields of
  \<open>tls_lib\<close> and \<open>rcgen_lib\<close>; certificates are their DER bytes. Of a connection only the chain that the
  peer presented is kept: the messages on it are those of the pump in \<open>Link\<close>.
\<close>

datatype tls_error = InvalidInput string | TlsIo string

record identity =
  id_certs :: "bytes list"
  id_key :: bytes

record client_config =
  cc_roots :: "bytes list"
  cc_identity :: identity

record server_config =
  sc_client_roots :: "bytes list"
  sc_identity :: identity

text \<open>A check of the library gives its error, if any; \<open>'io\<close> is the stream below the connection.\<close>

record 'io tls_lib =
  tl_certs :: "bytes \<Rightarrow> (string + bytes) list"
  tl_private_key :: "bytes \<Rightarrow> string + bytes option"
  tl_root_error :: "bytes \<Rightarrow> string option"
  tl_client_error :: "bytes list \<Rightarrow> identity \<Rightarrow> string option"
  tl_verifier_error :: "bytes list \<Rightarrow> string option"
  tl_server_error :: "bytes list \<Rightarrow> identity \<Rightarrow> string option"
  tl_name_error :: "string \<Rightarrow> string option"
  tl_connect :: "client_config \<Rightarrow> string \<Rightarrow> 'io \<Rightarrow> string + unit"
  tl_accept :: "server_config \<Rightarrow> 'io \<Rightarrow> string + bytes list option"

definition tls_check :: "string option \<Rightarrow> tls_error + unit" where
  "tls_check e = (case e of None \<Rightarrow> Inr () | Some e \<Rightarrow> Inl (InvalidInput e))"

section \<open>Identities and roots\<close>

text \<open>\<open>collect::<Result<Vec<_>, _>>()\<close>: the first error ends the iteration.\<close>

fun collect_certs :: "(string + bytes) list \<Rightarrow> tls_error + bytes list" where
  "collect_certs [] = Inr []"
| "collect_certs (Inl e # _) = Inl (TlsIo e)"
| "collect_certs (Inr c # cs) = rbind (collect_certs cs) (\<lambda>cs. Inr (c # cs))"

definition identity_from_pem :: "'io tls_lib \<Rightarrow> bytes \<Rightarrow> bytes \<Rightarrow> tls_error + identity" where
  "identity_from_pem lib cert_pem key_pem =
     rbind (collect_certs (tl_certs lib cert_pem)) (\<lambda>certs.
     if certs = [] then Inl (InvalidInput ''no certificate found in PEM'')
     else rbind (map_err TlsIo (tl_private_key lib key_pem)) (\<lambda>key.
       rbind (ok_or key (InvalidInput ''no private key found in PEM'')) (\<lambda>key.
       Inr \<lparr>id_certs = certs, id_key = key\<rparr>)))"

fun add_roots :: "'io tls_lib \<Rightarrow> bytes list \<Rightarrow> (string + bytes) list \<Rightarrow> tls_error + bytes list" where
  "add_roots lib roots [] = Inr roots"
| "add_roots lib roots (Inl e # _) = Inl (TlsIo e)"
| "add_roots lib roots (Inr c # cs) = rbind (tls_check (tl_root_error lib c)) (\<lambda>_. add_roots lib (roots @ [c]) cs)"

definition roots_from_pem :: "'io tls_lib \<Rightarrow> bytes \<Rightarrow> tls_error + bytes list" where
  "roots_from_pem lib ca_pem =
     rbind (add_roots lib [] (tl_certs lib ca_pem)) (\<lambda>roots.
     if roots = [] then Inl (InvalidInput ''no CA certificates found in PEM'') else Inr roots)"

definition make_client_config :: "'io tls_lib \<Rightarrow> bytes \<Rightarrow> identity \<Rightarrow> tls_error + client_config" where
  "make_client_config lib ca_pem ident =
     rbind (roots_from_pem lib ca_pem) (\<lambda>roots.
     rbind (tls_check (tl_client_error lib roots ident)) (\<lambda>_. Inr \<lparr>cc_roots = roots, cc_identity = ident\<rparr>))"

definition make_server_config :: "'io tls_lib \<Rightarrow> bytes \<Rightarrow> identity \<Rightarrow> tls_error + server_config" where
  "make_server_config lib client_ca_pem ident =
     rbind (roots_from_pem lib client_ca_pem) (\<lambda>roots.
     rbind (tls_check (tl_verifier_error lib roots)) (\<lambda>_.
     rbind (tls_check (tl_server_error lib roots ident)) (\<lambda>_.
     Inr \<lparr>sc_client_roots = roots, sc_identity = ident\<rparr>)))"

section \<open>Connections\<close>

definition tls_connect :: "'io tls_lib \<Rightarrow> client_config \<Rightarrow> string \<Rightarrow> 'io \<Rightarrow> tls_error + unit" where
  "tls_connect lib config server_name stream =
     rbind (tls_check (tl_name_error lib server_name)) (\<lambda>_. map_err TlsIo (tl_connect lib config server_name stream))"

definition tls_accept :: "'io tls_lib \<Rightarrow> server_config \<Rightarrow> 'io \<Rightarrow> tls_error + bytes list option" where
  "tls_accept lib config stream = map_err TlsIo (tl_accept lib config stream)"

text \<open>\<open>connect_gateway_link\<close>: the TCP stream to \<open>addr\<close>, if it can be opened, is the argument \<open>dial\<close>.\<close>

definition connect_gateway_link ::
  "'io tls_lib \<Rightarrow> (string \<Rightarrow> string + 'io) \<Rightarrow> string \<Rightarrow> string \<Rightarrow> bytes \<Rightarrow> identity \<Rightarrow> tls_error + unit" where
  "connect_gateway_link lib dial addr server_name ca_pem ident =
     rbind (make_client_config lib ca_pem ident) (\<lambda>config.
     rbind (map_err TlsIo (dial addr)) (\<lambda>tcp.
     tls_connect lib config server_name tcp))"

definition accept_device_link :: "'io tls_lib \<Rightarrow> server_config \<Rightarrow> 'io \<Rightarrow> tls_error + unit" where
  "accept_device_link lib config stream = rbind (tls_accept lib config stream) (\<lambda>_. Inr ())"

definition cert_fingerprint :: "sha256 \<Rightarrow> bytes \<Rightarrow> bytes" where
  "cert_fingerprint sha der = sha der"

definition accept_device_session :: "'io tls_lib \<Rightarrow> sha256 \<Rightarrow> server_config \<Rightarrow> 'io \<Rightarrow> tls_error + bytes" where
  "accept_device_session lib sha config stream =
     rbind (tls_accept lib config stream) (\<lambda>peer.
     rbind
       (ok_or (case peer of Some (leaf # _) \<Rightarrow> Some leaf | _ \<Rightarrow> None)
          (InvalidInput ''device presented no client certificate'')) (\<lambda>leaf.
     Inr (cert_fingerprint sha leaf)))"

text \<open>
  The daemon's end (\<open>gateway_link_from_tls\<close> and \<open>gateway_link_from_env\<close> of \<open>clave-daemon/src/lib.rs\<close>):
  whether a link is up. A file is read as its bytes, if it can be.
\<close>

definition ok_of :: "'e + 'a \<Rightarrow> 'a option" where
  "ok_of r = (case r of Inr a \<Rightarrow> Some a | Inl _ \<Rightarrow> None)"

definition gateway_link_from_tls :: "'io tls_lib \<Rightarrow> (string \<Rightarrow> string + 'io) \<Rightarrow> tls_credentials \<Rightarrow> unit option" where
  "gateway_link_from_tls lib dial tls =
     Option.bind (ok_of (identity_from_pem lib (tc_cert_pem tls) (tc_key_pem tls))) (\<lambda>ident.
     ok_of (connect_gateway_link lib dial (tc_gateway_addr tls) (tc_server_name tls) (tc_ca_pem tls) ident))"

definition gateway_link_from_env ::
  "'io tls_lib \<Rightarrow> (string \<Rightarrow> string + 'io) \<Rightarrow> (string \<Rightarrow> string option) \<Rightarrow> (string \<Rightarrow> bytes option) \<Rightarrow> unit option" where
  "gateway_link_from_env lib dial env file =
     Option.bind (env ''CLAVE_GATEWAY_ADDR'') (\<lambda>addr.
     let server_name = (case env ''CLAVE_GATEWAY_SERVER_NAME'' of Some n \<Rightarrow> n | None \<Rightarrow> ''gateway'')
     in Option.bind (Option.bind (env ''CLAVE_GATEWAY_CA'') file) (\<lambda>ca.
        Option.bind (Option.bind (env ''CLAVE_DEVICE_CERT'') file) (\<lambda>cert.
        Option.bind (Option.bind (env ''CLAVE_DEVICE_KEY'') file) (\<lambda>key.
        Option.bind (ok_of (identity_from_pem lib cert key)) (\<lambda>ident.
        ok_of (connect_gateway_link lib dial addr server_name ca ident))))))"

section \<open>The certificate authority\<close>

record cert_params =
  cp_names :: "string list"
  cp_is_ca :: bool
  cp_common_name :: "string option"

record rcgen_lib =
  rg_key_pair :: "nat \<Rightarrow> string + bytes"
  rg_params_error :: "string list \<Rightarrow> string option"
  rg_self_signed :: "cert_params \<Rightarrow> bytes \<Rightarrow> string + bytes"
  rg_signed_by :: "cert_params \<Rightarrow> bytes \<Rightarrow> bytes \<Rightarrow> bytes \<Rightarrow> string + bytes"
  rg_pem :: "bytes \<Rightarrow> bytes"
  rg_key_pem :: "bytes \<Rightarrow> bytes"

text \<open>The key pairs that \<open>KeyPair::generate\<close> draws are indexed by the argument \<open>seed\<close>.\<close>

definition params_new :: "rcgen_lib \<Rightarrow> string list \<Rightarrow> tls_error + cert_params" where
  "params_new rg names =
     rbind (tls_check (rg_params_error rg names)) (\<lambda>_.
     Inr \<lparr>cp_names = names, cp_is_ca = False, cp_common_name = None\<rparr>)"

record device_ca =
  dc_cert :: bytes
  dc_key :: bytes
  dc_ca_pem :: bytes

definition device_ca_generate :: "rcgen_lib \<Rightarrow> nat \<Rightarrow> tls_error + device_ca" where
  "device_ca_generate rg seed =
     rbind (map_err InvalidInput (rg_key_pair rg seed)) (\<lambda>key.
     rbind (params_new rg []) (\<lambda>params.
     let params = params\<lparr>cp_is_ca := True, cp_common_name := Some ''Clave Device CA''\<rparr>
     in rbind (map_err InvalidInput (rg_self_signed rg params key)) (\<lambda>cert.
        Inr \<lparr>dc_cert = cert, dc_key = key, dc_ca_pem = rg_pem rg cert\<rparr>)))"

definition ca_issue_server :: "rcgen_lib \<Rightarrow> device_ca \<Rightarrow> nat \<Rightarrow> string \<Rightarrow> tls_error + bytes \<times> bytes" where
  "ca_issue_server rg ca seed dns_name =
     rbind (map_err InvalidInput (rg_key_pair rg seed)) (\<lambda>key.
     rbind (params_new rg [dns_name]) (\<lambda>params.
     rbind (map_err InvalidInput (rg_signed_by rg params key (dc_cert ca) (dc_key ca))) (\<lambda>cert.
     Inr (rg_pem rg cert, rg_key_pem rg key))))"

record issued_device_cert =
  ic_cert_pem :: bytes
  ic_key_pem :: bytes
  ic_fingerprint :: bytes

text \<open>\<open>{device_id:032x}\<close>\<close>

definition hex_padded :: "nat \<Rightarrow> 'a::len word \<Rightarrow> string" where
  "hex_padded n w = (let s = hex_of_nat (unat w) in replicate (n - length s) (CHR ''0'') @ s)"

definition ca_issue_device :: "rcgen_lib \<Rightarrow> sha256 \<Rightarrow> device_ca \<Rightarrow> nat \<Rightarrow> u128 \<Rightarrow> tls_error + issued_device_cert" where
  "ca_issue_device rg sha ca seed device_id =
     rbind (map_err InvalidInput (rg_key_pair rg seed)) (\<lambda>key.
     rbind (params_new rg [''device-'' @ hex_padded 32 device_id @ ''.clave'']) (\<lambda>params.
     rbind (map_err InvalidInput (rg_signed_by rg params key (dc_cert ca) (dc_key ca))) (\<lambda>cert.
     Inr \<lparr>ic_cert_pem = rg_pem rg cert, ic_key_pem = rg_key_pem rg key,
          ic_fingerprint = cert_fingerprint sha cert\<rparr>)))"

section \<open>The issuer of the gateway (cert.rs)\<close>

record device_ca_issuer =
  dci_ca :: device_ca
  dci_ca_pem :: bytes
  dci_server_name :: string
  dci_gateway_addr :: string

definition device_ca_issuer_new :: "device_ca \<Rightarrow> string \<Rightarrow> string \<Rightarrow> device_ca_issuer" where
  "device_ca_issuer_new ca server_name gateway_addr =
     \<lparr>dci_ca = ca, dci_ca_pem = dc_ca_pem ca, dci_server_name = server_name, dci_gateway_addr = gateway_addr\<rparr>"

fun tls_error_display :: "tls_error \<Rightarrow> string" where
  "tls_error_display (InvalidInput e) = e"
| "tls_error_display (TlsIo e) = e"

definition issuer_issue_server ::
  "rcgen_lib \<Rightarrow> device_ca_issuer \<Rightarrow> nat \<Rightarrow> string \<Rightarrow> gateway_error + bytes \<times> bytes" where
  "issuer_issue_server rg i seed dns_name =
     map_err (\<lambda>e. GStore (tls_error_display e)) (ca_issue_server rg (dci_ca i) seed dns_name)"

definition issuer_issue ::
  "rcgen_lib \<Rightarrow> sha256 \<Rightarrow> device_ca_issuer \<Rightarrow> nat \<Rightarrow> u128 \<Rightarrow> gateway_error + issued_tls" where
  "issuer_issue rg sha i seed device_id =
     rbind (map_err (\<lambda>e. GStore (tls_error_display e)) (ca_issue_device rg sha (dci_ca i) seed device_id)) (\<lambda>issued.
     Inr \<lparr>it_ca_pem = dci_ca_pem i, it_cert_pem = ic_cert_pem issued, it_key_pem = ic_key_pem issued,
          it_fingerprint = ic_fingerprint issued\<rparr>)"

definition device_ca_issuer_ops :: "rcgen_lib \<Rightarrow> sha256 \<Rightarrow> device_ca_issuer \<Rightarrow> nat \<Rightarrow> device_cert_issuer" where
  "device_ca_issuer_ops rg sha i seed =
     \<lparr>ci_issue = issuer_issue rg sha i seed, ci_server_name = dci_server_name i, ci_gateway_addr = dci_gateway_addr i\<rparr>"

end
