(* ===== verification/Mtls_Props.thy ===== *)
theory Mtls_Props
  imports Mtls Postgres_Props
begin

text \<open>
  The gateway knows a device by the certificate it issued last: over PostgreSQL a session is attributed
  to a device exactly when the certificate it presents is that one. The store in memory also keeps the
  certificates issued before.
\<close>

section \<open>Issuing\<close>

text \<open>Reading a certificate back from its PEM form, which the libraries document.\<close>

definition pem_round_trip :: "'io tls_lib \<Rightarrow> rcgen_lib \<Rightarrow> bytes \<Rightarrow> bool" where
  "pem_round_trip lib rg c = (tl_certs lib (rg_pem rg c) = [Inr c])"

lemma tls_check_Inr [simp]: "tls_check e = Inr u \<longleftrightarrow> e = None"
  by (cases e) (simp_all add: tls_check_def)

lemma issued_certificate:
  assumes "issuer_issue rg sha i seed d = Inr t"
  shows "\<exists>c. it_cert_pem t = rg_pem rg c \<and> it_fingerprint t = cert_fingerprint sha c"
  using assms by (auto simp: issuer_issue_def ca_issue_device_def rbind_eq_Inr map_err_eq_Inr)

lemma identity_of_certificate:
  assumes "pem_round_trip lib rg c" "identity_from_pem lib (rg_pem rg c) key = Inr ident"
  shows "id_certs ident = [c]"
  using assms by (auto simp: identity_from_pem_def pem_round_trip_def rbind_eq_Inr split: if_splits)

lemma issue_tls_cases:
  assumes "issue_tls v g d = (g', Inr (Some tls))" "gw_device_ca g = Some ca"
  shows "\<exists>t. ci_issue ca (device_num d) = Inr t \<and> tc_cert_pem tls = it_cert_pem t \<and> tc_key_pem tls = it_key_pem t \<and>
    so_set_device_fingerprint (ge_store v) (gw_store g) d (it_fingerprint t) = (gw_store g', Inr ())"
  using assms by (auto simp: issue_tls_def on_store_def gbind_def prod_eq_iff split: sum.splits)

section \<open>Attribution over PostgreSQL\<close>

lemma pg_fingerprint_set:
  assumes "pg_set_device_fingerprint e s d fp = (s', Inr ())" "has_device s (device_num d)"
    and "pg_device_by_fingerprint e' s' fp' = Inr r"
  shows "r = Some d \<longleftrightarrow> fp' = fp"
proof -
  let ?upd = "\<lambda>r. if vr_id r = device_num d then r\<lparr>vr_cert_fingerprint := Some fp\<rparr> else r"
  have s': "pg_device s' = map ?upd (pg_device s)"
    and free: "\<not> list_ex (\<lambda>r. vr_id r \<noteq> device_num d \<and> vr_cert_fingerprint r = Some fp) (pg_device s)"
    using assms(1,2) unfolding pg_set_device_fingerprint_def
    by (auto elim!: pg_execute_cases simp: has_device_def split: if_splits)
  have r: "r = map_option (\<lambda>r. DeviceId (vr_id r)) (List.find (\<lambda>r. vr_cert_fingerprint r = Some fp') (pg_device s'))"
    using assms(3) pg_query_Inr by (fastforce simp: pg_device_by_fingerprint_def)
  have own: "x \<in> set (pg_device s') \<Longrightarrow> vr_id x = device_num d \<Longrightarrow> vr_cert_fingerprint x = Some fp" for x
    by (auto simp: s')
  have other: "x \<in> set (pg_device s') \<Longrightarrow> vr_cert_fingerprint x = Some fp \<Longrightarrow> vr_id x = device_num d" for x
    using free by (auto simp: s' list_ex_iff split: if_splits)
  obtain x0 where x0: "x0 \<in> set (pg_device s)" "vr_id x0 = device_num d" using assms(2) by (auto simp: has_device_def list_ex_iff)
  have x: "?upd x0 \<in> set (pg_device s')" unfolding s' set_map using x0(1) by (rule imageI)
  have x_fp: "vr_cert_fingerprint (?upd x0) = Some fp" using x0(2) by simp
  show ?thesis
  proof (cases "List.find (\<lambda>r. vr_cert_fingerprint r = Some fp') (pg_device s')")
    case None
    then have "vr_cert_fingerprint (?upd x0) \<noteq> Some fp'" using x unfolding find_None_iff by blast
    moreover have "r = None" using r unfolding None by simp
    ultimately show ?thesis using x_fp by (cases "fp' = fp") simp_all
  next
    case (Some y)
    have y: "y \<in> set (pg_device s')" "vr_cert_fingerprint y = Some fp'" using find_SomeD[OF Some] by simp_all
    have "vr_id y = device_num d \<longleftrightarrow> fp' = fp" using own[OF y(1)] other[OF y(1)] y(2) by auto
    moreover have "r = Some (DeviceId (vr_id y))" using r unfolding Some by simp
    ultimately show ?thesis by (metis device_id.collapse device_id.sel option.inject)
  qed
qed

text \<open>
  (C20) A connection is attributed to the device whose certificate it presents. After an enrollment has issued
  a certificate to a device of the directory, the device reads its identity from what it received. A
  session is then taken for this device exactly when the leaf it presents has the
  fingerprint of that identity's certificate; so the certificates the device was issued before, and those
  of any other device, up to collisions of the hash, are not taken for it.
\<close>

theorem session_attribution_exact:
  assumes "gw_device_ca g = Some (device_ca_issuer_ops rg sha i seed)" "ge_store v = pg_store_ops e"
    and "has_device (gw_store g) (device_num d)" "issue_tls v g d = (g', Inr (Some tls))"
    and "identity_from_pem lib (tc_cert_pem tls) (tc_key_pem tls) = Inr ident"
    and "\<And>c. tc_cert_pem tls = rg_pem rg c \<Longrightarrow> pem_round_trip lib rg c"
    and "accept_device_session lib sha config stream = Inr fp" "tl_accept lib config stream = Inr (Some (leaf # chain))"
    and "device_for_fingerprint v g' fp = Inr found"
  shows "found = Some d \<longleftrightarrow> cert_fingerprint sha leaf = cert_fingerprint sha (hd (id_certs ident))"
proof -
  obtain t where t: "issuer_issue rg sha i seed (device_num d) = Inr t" "tc_cert_pem tls = it_cert_pem t"
    "pg_set_device_fingerprint e (gw_store g) d (it_fingerprint t) = (gw_store g', Inr ())"
    using issue_tls_cases[OF assms(4,1)] assms(2) by (auto simp: device_ca_issuer_ops_def pg_store_ops_def)
  obtain c where c: "it_cert_pem t = rg_pem rg c" "it_fingerprint t = cert_fingerprint sha c"
    using issued_certificate[OF t(1)] by blast
  have "id_certs ident = [c]"
    using identity_of_certificate assms(5,6) t(2) c(1) by metis
  moreover have "fp = cert_fingerprint sha leaf"
    using assms(7,8) by (simp add: accept_device_session_def tls_accept_def ok_or_def)
  moreover have "pg_device_by_fingerprint e (gw_store g') fp = Inr found"
    using assms(2,9) by (simp add: device_for_fingerprint_def pg_store_ops_def)
  ultimately show ?thesis using pg_fingerprint_set[OF t(3) assms(3)] c(2) by auto
qed

text \<open>A device of the directory is issued a certificate, connects with it, and another one with its own.\<close>

definition demo_tls :: "bytes tls_lib" where
  "demo_tls = \<lparr>tl_certs = (\<lambda>p. [Inr p]), tl_private_key = (\<lambda>p. Inr (Some p)), tl_root_error = (\<lambda>_. None),
     tl_client_error = (\<lambda>_ _. None), tl_verifier_error = (\<lambda>_. None), tl_server_error = (\<lambda>_ _. None),
     tl_name_error = (\<lambda>_. None), tl_connect = (\<lambda>_ _ _. Inr ()), tl_accept = (\<lambda>_ leaf. Inr (Some [leaf]))\<rparr>"

definition demo_rcgen :: rcgen_lib where
  "demo_rcgen = \<lparr>rg_key_pair = (\<lambda>seed. Inr [of_nat seed]), rg_params_error = (\<lambda>_. None),
     rg_self_signed = (\<lambda>_ k. Inr (1 # k)), rg_signed_by = (\<lambda>_ k c ck. Inr (2 # k)), rg_pem = id, rg_key_pem = id\<rparr>"

definition demo_issuer_ca :: device_ca_issuer where
  "demo_issuer_ca = device_ca_issuer_new \<lparr>dc_cert = [1, 5], dc_key = [5], dc_ca_pem = [1, 5]\<rparr> ''gateway.test'' ''127.0.0.1:1''"

theorem session_attribution_exact_witness:
  "\<exists>g' tls. issue_tls demo_pg_gateway_env (with_device_ca (gateway_new (demo_pg\<lparr>pg_device := [pg_device_1]\<rparr>))
       (device_ca_issuer_ops demo_rcgen id demo_issuer_ca 8)) (DeviceId 7) = (g', Inr (Some tls)) \<and>
     device_for_fingerprint demo_pg_gateway_env g' [2, 8] = Inr (Some (DeviceId 7)) \<and>
     device_for_fingerprint demo_pg_gateway_env g' [2, 9] \<noteq> Inr (Some (DeviceId 7))"
proof -
  let ?g = "with_device_ca (gateway_new (demo_pg\<lparr>pg_device := [pg_device_1]\<rparr>)) (device_ca_issuer_ops demo_rcgen id demo_issuer_ca 8)"
    and ?config = "\<lparr>sc_client_roots = [], sc_identity = \<lparr>id_certs = [], id_key = []\<rparr>\<rparr>"
  have ca: "gw_device_ca ?g = Some (device_ca_issuer_ops demo_rcgen id demo_issuer_ca 8)" "ge_store demo_pg_gateway_env = pg_store_ops (demo_pg_env (\<lambda>_ _. None))"
    by (simp_all add: with_device_ca_def gateway_new_def demo_pg_gateway_env_def)
  have dev: "has_device (gw_store ?g) (device_num (DeviceId 7))"
    by (simp add: with_device_ca_def gateway_new_def has_device_def pg_device_1_def)
  have "\<exists>g' tls. issue_tls demo_pg_gateway_env ?g (DeviceId 7) = (g', Inr (Some tls)) \<and> tc_cert_pem tls = [2, 8]"
    by (simp add: issue_tls_def ca ca(1) device_ca_issuer_ops_def issuer_issue_def ca_issue_device_def params_new_def tls_check_def
        demo_rcgen_def pg_store_ops_def pg_set_device_fingerprint_def pg_execute_def demo_pg_env_def with_device_ca_def gateway_new_def
        pg_device_1_def has_device_def Let_def)
  then obtain g' tls where i: "issue_tls demo_pg_gateway_env ?g (DeviceId 7) = (g', Inr (Some tls))" "tc_cert_pem tls = [2, 8]" by blast
  have ident: "identity_from_pem demo_tls (tc_cert_pem tls) (tc_key_pem tls) = Inr \<lparr>id_certs = [[2, 8]], id_key = tc_key_pem tls\<rparr>"
    by (simp add: identity_from_pem_def demo_tls_def i(2) ok_or_def)
  have "device_for_fingerprint demo_pg_gateway_env g' leaf = Inr found \<Longrightarrow> found = Some (DeviceId 7) \<longleftrightarrow> leaf = [2, 8]" for leaf found
    using session_attribution_exact[OF ca dev i(1) ident, of ?config leaf leaf leaf "[]" found]
    by (simp add: pem_round_trip_def accept_device_session_def tls_accept_def demo_tls_def demo_rcgen_def cert_fingerprint_def ok_or_def)
  moreover have "\<exists>found. device_for_fingerprint demo_pg_gateway_env g' leaf = Inr found" for leaf
    by (simp add: device_for_fingerprint_def ca pg_store_ops_def pg_device_by_fingerprint_def pg_query_def demo_pg_env_def)
  ultimately show ?thesis using i(1) by fastforce
qed

end
