(* ===== verification/Launcher.thy ===== *)
theory Launcher
  imports Ipc Path Rust_Num
begin

text \<open>
  The two front ends of the daemon: the commands of the launcher window
  (\<open>apps/clave-launcher/src-tauri/src/lib.rs\<close>) and the command line \<open>clave-cli\<close>
  (\<open>clave-cli/src/main.rs\<close>). Both ask the daemon over \<open>Ipc\<close>; \<open>sock\<close> is the connection to its endpoint,
  if one can be opened. Files, JSON and the debug form of strings are fields of \<open>cli_env\<close>.
\<close>

section \<open>The launcher's own policy\<close>

definition MOUNT :: string where
  "MOUNT = ''/Volumes/ClaveDisk''"

definition demo_app_rule :: "string \<Rightarrow> string \<Rightarrow> string \<Rightarrow> string \<Rightarrow> app_rule" where
  "demo_app_rule i signing name exec =
     with_executable (with_display_name (app_rule_new (AppId i) (BMacos ''DEMO000000'' signing)) name) exec"

definition chromium_app :: "string \<Rightarrow> string \<Rightarrow> string \<Rightarrow> string \<Rightarrow> app_rule" where
  "chromium_app i signing name exec = with_launch (demo_app_rule i signing name exec) launch_profile_chromium"

definition demo_policy :: policy_bundle where
  "demo_policy = restrictive_default\<lparr>pb_apps := \<lparr>ap_allow =
     [chromium_app ''chrome-work'' ''com.google.Chrome'' ''Google Chrome'' ''/Applications/Google Chrome.app'',
      demo_app_rule ''excel-work'' ''com.microsoft.Excel'' ''Excel'' ''/Applications/Microsoft Excel.app'',
      demo_app_rule ''word-work'' ''com.microsoft.Word'' ''Word'' ''/Applications/Microsoft Word.app'',
      demo_app_rule ''outlook-work'' ''com.microsoft.Outlook'' ''Outlook'' ''/Applications/Microsoft Outlook.app'',
      demo_app_rule ''files-work'' ''com.apple.finder'' ''Files'' ''/System/Library/CoreServices/Finder.app'',
      demo_app_rule ''powerpoint-work'' ''com.microsoft.Powerpoint'' ''PowerPoint'' ''/Applications/Microsoft PowerPoint.app'',
      chromium_app ''edge-work'' ''com.microsoft.edgemac'' ''Edge'' ''/Applications/Microsoft Edge.app'',
      demo_app_rule ''acrobat-work'' ''com.adobe.Acrobat.Pro'' ''Adobe Acrobat'' ''/Applications/Adobe Acrobat.app'',
      chromium_app ''teams-work'' ''com.microsoft.teams2'' ''Teams'' ''/Applications/Microsoft Teams.app'',
      chromium_app ''slack-work'' ''com.tinyspeck.slackmacgap'' ''Slack'' ''/Applications/Slack.app'',
      chromium_app ''vscode-work'' ''com.microsoft.VSCode'' ''Visual Studio Code'' ''/Applications/Visual Studio Code.app'',
      chromium_app ''cursor-work'' ''com.todesktop.230313mzl4w4u92'' ''Cursor'' ''/Applications/Cursor.app'',
      demo_app_rule ''calculator-work'' ''com.apple.calculator'' ''Calculator'' ''/System/Applications/Calculator.app'',
      demo_app_rule ''textedit-work'' ''com.apple.TextEdit'' ''TextEdit'' ''/System/Applications/TextEdit.app'']\<rparr>\<rparr>"

section \<open>Commands of the launcher\<close>

record app_info =
  ai_id :: string
  ai_label :: string

record launch_info =
  li_executable :: string
  li_args :: "string list"
  li_env :: "(string \<times> string) list"
  li_namespace_prefix :: "string option"

record web_app =
  wb_id :: string
  wb_label :: string
  wb_url :: string

record status_info =
  si_connected :: bool
  si_tenant :: u64
  si_policy_version :: u64
  si_volume_unlocked :: bool
  si_mount_point :: "string option"
  si_gateway_high_water :: u64

record ipc_codecs =
  ic_request :: "launcher_request codec"
  ic_reply :: "launcher_reply codec"

fun frame_error_debug :: "frame_error \<Rightarrow> string" where
  "frame_error_debug TooLarge = ''TooLarge''"
| "frame_error_debug FrameMalformed = ''Malformed''"

fun transport_error_display :: "transport_error \<Rightarrow> string" where
  "transport_error_display (TIo e) = ''io: '' @ e"
| "transport_error_display (TFrame e) = ''frame: '' @ frame_error_debug e"
| "transport_error_display (Handshake m) = ''handshake: '' @ m"
| "transport_error_display Truncated = ''peer closed mid-frame''"
| "transport_error_display (TLaunchFailed e) = e"

text \<open>\<open>LauncherClient::connect(...).await.ok()\<close>\<close>

definition launcher_daemon :: "ipc_codecs \<Rightarrow> connection option \<Rightarrow> connection option" where
  "launcher_daemon ic sock =
     (case sock of
        None \<Rightarrow> None
      | Some c \<Rightarrow> (case client_connect (ic_request ic) (ic_reply ic) c of (c, Inr _) \<Rightarrow> Some c | (_, Inl _) \<Rightarrow> None))"

definition to_launch_info :: "launch_spec \<Rightarrow> launch_info" where
  "to_launch_info s =
     \<lparr>li_executable = ls_executable s, li_args = ls_args s, li_env = ls_env s, li_namespace_prefix = ls_namespace_prefix s\<rparr>"

definition demo_apps :: "app_info list" where
  "demo_apps = map (\<lambda>r. \<lparr>ai_id = app_id_str (ar_app_id r), ai_label = app_rule_label r\<rparr>)
     (filter is_launchable (ap_allow (pb_apps demo_policy)))"

definition demo_launch_spec :: "(string \<Rightarrow> string option) \<Rightarrow> string \<Rightarrow> launch_info option" where
  "demo_launch_spec env app_id =
     (case app_policy_rule (pb_apps demo_policy) (AppId app_id) of
        None \<Rightarrow> None
      | Some rule \<Rightarrow>
          (if \<not> is_launchable rule then None
           else let user = (case env ''USER'' of Some u \<Rightarrow> u | None \<Rightarrow> ''user'')
                in Some (to_launch_info (rule_launch_spec rule MOUNT user))))"

definition ui_list_apps :: "ipc_codecs \<Rightarrow> connection option \<Rightarrow> app_info list" where
  "ui_list_apps ic sock =
     (case launcher_daemon ic sock of
        Some client \<Rightarrow>
          (case snd (client_list_apps (ic_request ic) (ic_reply ic) client) of
             Inr apps \<Rightarrow> map (\<lambda>a. \<lparr>ai_id = app_id_str (la_app_id a), ai_label = la_label a\<rparr>) apps
           | Inl _ \<Rightarrow> demo_apps)
      | None \<Rightarrow> demo_apps)"

definition ui_launch_spec ::
  "ipc_codecs \<Rightarrow> (string \<Rightarrow> string option) \<Rightarrow> connection option \<Rightarrow> string \<Rightarrow> launch_info option" where
  "ui_launch_spec ic env sock app_id =
     (case launcher_daemon ic sock of
        Some client \<Rightarrow>
          (case snd (client_prepare_launch (ic_request ic) (ic_reply ic) client (AppId app_id)) of
             Inr spec \<Rightarrow> map_option to_launch_info spec
           | Inl _ \<Rightarrow> demo_launch_spec env app_id)
      | None \<Rightarrow> demo_launch_spec env app_id)"

definition launched_pid :: "transport_error + u32 option \<Rightarrow> string + u32" where
  "launched_pid r =
     (case r of
        Inr (Some pid) \<Rightarrow> Inr pid
      | Inr None \<Rightarrow> Inl ''launch returned no pid''
      | Inl (TLaunchFailed e) \<Rightarrow> Inl e
      | Inl e \<Rightarrow> Inl (transport_error_display e))"

definition ui_launch_app :: "ipc_codecs \<Rightarrow> connection option \<Rightarrow> string \<Rightarrow> string + u32" where
  "ui_launch_app ic sock app_id =
     (case launcher_daemon ic sock of
        Some client \<Rightarrow> launched_pid (snd (client_launch (ic_request ic) (ic_reply ic) client (AppId app_id)))
      | None \<Rightarrow> Inl ''daemon not running'')"

definition ui_launch_web :: "ipc_codecs \<Rightarrow> connection option \<Rightarrow> string \<Rightarrow> string + u32" where
  "ui_launch_web ic sock app_id =
     (case launcher_daemon ic sock of
        Some client \<Rightarrow> launched_pid (snd (client_launch_web (ic_request ic) (ic_reply ic) client (AppId app_id)))
      | None \<Rightarrow> Inl ''daemon not running'')"

text \<open>\<open>report()\<close>: the posture of the platform, where there is one.\<close>

definition platform_report :: "enforcement_report option \<Rightarrow> (string \<times> string) list" where
  "platform_report r =
     (case r of None \<Rightarrow> [] | Some r \<Rightarrow> map (\<lambda>(c, s). (capability_name c, enforcement_status_display s)) r)"

definition ui_enforcement :: "ipc_codecs \<Rightarrow> enforcement_report option \<Rightarrow> connection option \<Rightarrow> (string \<times> string) list" where
  "ui_enforcement ic rep sock =
     (case launcher_daemon ic sock of
        Some client \<Rightarrow>
          (case snd (client_enforcement (ic_request ic) (ic_reply ic) client) of
             Inr caps \<Rightarrow> caps
           | Inl _ \<Rightarrow> platform_report rep)
      | None \<Rightarrow> platform_report rep)"

definition ui_list_web_apps :: "ipc_codecs \<Rightarrow> connection option \<Rightarrow> web_app list" where
  "ui_list_web_apps ic sock =
     (case launcher_daemon ic sock of
        Some client \<Rightarrow>
          (case snd (client_list_web_apps (ic_request ic) (ic_reply ic) client) of
             Inr apps \<Rightarrow> map (\<lambda>a. \<lparr>wb_id = app_id_str (wi_app_id a), wb_label = wi_label a, wb_url = wi_url a\<rparr>) apps
           | Inl _ \<Rightarrow> [])
      | None \<Rightarrow> [])"

definition disconnected :: status_info where
  "disconnected = \<lparr>si_connected = False, si_tenant = 0, si_policy_version = 0, si_volume_unlocked = False,
     si_mount_point = None, si_gateway_high_water = 0\<rparr>"

definition ui_status :: "ipc_codecs \<Rightarrow> connection option \<Rightarrow> status_info" where
  "ui_status ic sock =
     (case launcher_daemon ic sock of
        Some client \<Rightarrow>
          (case snd (client_status (ic_request ic) (ic_reply ic) client) of
             Inr s \<Rightarrow> \<lparr>si_connected = True, si_tenant = lst_tenant s, si_policy_version = lst_policy_version s,
                       si_volume_unlocked = lst_volume_unlocked s, si_mount_point = lst_mount_point s,
                       si_gateway_high_water = lst_gateway_high_water s\<rparr>
           | Inl _ \<Rightarrow> disconnected)
      | None \<Rightarrow> disconnected)"

end
