(* ===== verification/Cli.thy ===== *)
theory Cli
  imports Launcher
begin

text \<open>
  \<open>clave-cli/src/main.rs\<close>: the command line for administrators. A command is a function of its arguments
  and of what the system gives: its result is the text it prints, or the error it exits with.
\<close>

record cli_env =
  ce_env :: "string \<Rightarrow> string option"
  ce_read :: "string \<Rightarrow> string + string"
  ce_policy_json :: "string \<Rightarrow> string + policy_bundle"
  ce_policy_pretty :: "policy_bundle \<Rightarrow> string + string"
  ce_audit_pretty :: "audit_event list \<Rightarrow> string + string"
  ce_debug :: "string \<Rightarrow> string"
  ce_report :: "enforcement_report option"
  ce_runtime :: "string option"
  ce_socket :: "connection option"
  ce_codecs :: ipc_codecs

definition newline :: string where
  "newline = [CHR 0x0A]"

definition tab :: string where
  "tab = [CHR 0x09]"

text \<open>\<open>args.first().ok_or(...)\<close> and \<open>args.get(i).ok_or(...)\<close>\<close>

definition cli_arg :: "string list \<Rightarrow> nat \<Rightarrow> string \<Rightarrow> string + string" where
  "cli_arg args i missing = (if i < length args then Inr (args ! i) else Inl missing)"

definition load_policy :: "cli_env \<Rightarrow> string \<Rightarrow> string + policy_bundle" where
  "load_policy v path =
     rbind (map_err (\<lambda>e. ''reading '' @ path @ '': '' @ e) (ce_read v path)) (\<lambda>text.
     map_err (\<lambda>e. ''parsing '' @ path @ '': '' @ e) (ce_policy_json v text))"

definition launchable_list :: "policy_bundle \<Rightarrow> string" where
  "launchable_list pol =
     (let out = concat (map (\<lambda>rule. app_id_str (ar_app_id rule) @ tab @ app_rule_label rule @ newline)
                  (filter is_launchable (ap_allow (pb_apps pol))))
      in if out = [] then ''(no launchable apps in this policy)'' @ newline else out)"

definition cli_user :: "cli_env \<Rightarrow> string" where
  "cli_user v =
     (case ce_env v ''USER'' of
        None \<Rightarrow> ''user''
      | Some u \<Rightarrow> (if trim u = [] then ''user'' else trim u))"

definition launch_text :: "policy_bundle \<Rightarrow> string \<Rightarrow> string \<Rightarrow> string \<Rightarrow> string + string" where
  "launch_text pol app_id mount user =
     rbind (ok_or (app_policy_rule (pb_apps pol) (AppId app_id)) (''unknown app: '' @ app_id)) (\<lambda>rule.
     if \<not> is_launchable rule then Inl (app_id @ '' has no executable (authorization-only)'')
     else
       let spec = rule_launch_spec rule mount user
       in Inr (''exec: '' @ ls_executable spec @ newline
               @ concat (map (\<lambda>(k, v). ''  '' @ k @ ''='' @ v @ newline) (ls_env spec))
               @ (case ls_namespace_prefix spec of Some ns \<Rightarrow> ''  namespace: '' @ ns @ newline | None \<Rightarrow> [])
               @ ''(spawn + inject = OS layer, deferred)'' @ newline))"

definition policy_template_bundle :: policy_bundle where
  "policy_template_bundle = restrictive_default\<lparr>pb_version := 1,
     pb_apps := \<lparr>ap_allow = ap_allow (pb_apps restrictive_default) @
       [with_executable (with_display_name (app_rule_new (AppId ''example-work'') (BMacos ''TEAMID1234'' ''com.example.app'')) ''Example'')
          ''/Applications/Example.app'']\<rparr>\<rparr>"

definition policy_template :: "cli_env \<Rightarrow> string" where
  "policy_template v = (case ce_policy_pretty v policy_template_bundle of Inr s \<Rightarrow> s @ newline | Inl _ \<Rightarrow> [])"

definition policy_cmd :: "cli_env \<Rightarrow> string list \<Rightarrow> string + string" where
  "policy_cmd v args =
     (case args of
        [] \<Rightarrow> Inl ''policy needs a subcommand: validate | template''
      | sub # rest \<Rightarrow>
          if sub = ''validate'' then
            rbind (cli_arg rest 0 ''policy validate needs <policy.json>'') (\<lambda>path.
            rbind (load_policy v path) (\<lambda>pol.
            let issues = validate pol
            in if issues = []
               then Inr (path @ '': valid '' @ em_dash @ '' v'' @ dec_of_word (pb_version pol) @ '', ''
                     @ dec_of_nat (length (ap_allow (pb_apps pol))) @ '' app(s), ''
                     @ dec_of_nat (length (wp_apps (pb_web pol))) @ '' web app(s)'' @ newline)
               else Inr (path @ '': '' @ dec_of_nat (length issues) @ '' issue(s)'' @ newline
                     @ concat (map (\<lambda>i. ''  - '' @ i @ newline) issues))))
          else if sub = ''template'' then Inr (policy_template v)
          else Inl (''unknown policy subcommand: '' @ sub))"

fun audit_action_debug :: "audit_action \<Rightarrow> string" where
  "audit_action_debug ClipboardBlocked = ''ClipboardBlocked''"
| "audit_action_debug ClipboardSanitized = ''ClipboardSanitized''"
| "audit_action_debug FileSaveDenied = ''FileSaveDenied''"
| "audit_action_debug EnclaveIntrusionBlocked = ''EnclaveIntrusionBlocked''"
| "audit_action_debug NetworkBlocked = ''NetworkBlocked''"
| "audit_action_debug ScreenCaptureOverWork = ''ScreenCaptureOverWork''"
| "audit_action_debug InputTapOverWork = ''InputTapOverWork''"
| "audit_action_debug ProcessJoinedZone = ''ProcessJoinedZone''"
| "audit_action_debug ProcessLeftZone = ''ProcessLeftZone''"
| "audit_action_debug VolumeMounted = ''VolumeMounted''"
| "audit_action_debug VolumeUnmounted = ''VolumeUnmounted''"
| "audit_action_debug Wiped = ''Wiped''"

fun decision_debug :: "decision \<Rightarrow> string" where
  "decision_debug Allow = ''Allow''"
| "decision_debug Deny = ''Deny''"
| "decision_debug Watermark = ''Watermark''"
| "decision_debug Prompt = ''Prompt''"
| "decision_debug Sanitize = ''Sanitize''"

definition audit_cmd :: "cli_env \<Rightarrow> bool \<Rightarrow> string + string" where
  "audit_cmd v json =
     (case ce_runtime v of
        Some e \<Rightarrow> Inl e
      | None \<Rightarrow>
          rbind (ok_or (launcher_daemon (ce_codecs v) (ce_socket v)) ''cannot reach the clave daemon (is it running?)'') (\<lambda>client.
          rbind (map_err transport_error_display
              (snd (client_peek_audit (ic_request (ce_codecs v)) (ic_reply (ce_codecs v)) client))) (\<lambda>events.
          if json then rbind (ce_audit_pretty v events) (\<lambda>s. Inr (s @ newline))
          else if events = [] then Inr (''(audit spool is empty)'' @ newline)
          else Inr (concat (map (\<lambda>e.
                 dec_of_word (ae_ts e) @ tab @ audit_action_debug (ae_action e) @ tab
                 @ decision_debug (vd_decision (ae_verdict e)) @ tab @ ''app=''
                 @ (case ae_app_id e of Some a \<Rightarrow> app_id_str a | None \<Rightarrow> ''-'') @ newline) events)))))"

fun allow_entries :: "string list \<Rightarrow> string + app_rule list" where
  "allow_entries [] = Inr []"
| "allow_entries (spec # specs) =
     rbind (ok_or (split_once spec (CHR '':'')) (''bad allow entry '' @ [CHR 0x27] @ spec @ [CHR 0x27] @ '', want team:signing'')) (\<lambda>(t, s).
     rbind (allow_entries specs) (\<lambda>rules. Inr (app_rule_new (AppId (t @ '':'' @ s)) (BMacos t s) # rules)))"

definition classify_exec_cmd :: "cli_env \<Rightarrow> string list \<Rightarrow> string + string" where
  "classify_exec_cmd v args =
     rbind (cli_arg args 0 ''classify-exec needs <team_id>'') (\<lambda>team.
     rbind (cli_arg args 1 ''classify-exec needs <signing_id>'') (\<lambda>signing.
     rbind (allow_entries (drop 2 args)) (\<lambda>allow.
     let r = classify_exec (BMacos team signing) (team = []) False \<lparr>ap_allow = allow\<rparr>
     in Inr (''joins_zone='' @ (if ev_joins_zone r then ''true'' else ''false'') @ '' matched=''
          @ (case ev_matched r of Some a \<Rightarrow> ''Some('' @ ce_debug v (app_id_str a) @ '')'' | None \<Rightarrow> ''None'') @ newline))))"

fun path_class_debug :: "path_class \<Rightarrow> string" where
  "path_class_debug WorkData = ''WorkData''"
| "path_class_debug SystemCow = ''SystemCow''"
| "path_class_debug PassThrough = ''PassThrough''"

definition classify_path_cmd :: "string list \<Rightarrow> string + string" where
  "classify_path_cmd args =
     rbind (cli_arg args 0 ''classify-path needs <mount_point>'') (\<lambda>mount.
     rbind (cli_arg args 1 ''classify-path needs <path>'') (\<lambda>path.
     let files = \<lparr>fp_allow_save_outside_enclave = False, fp_work_data_roots = drop 2 args, fp_cow_roots = []\<rparr>
     in Inr (path_class_debug (classify_path path mount [] files) @ newline)))"

definition enforcement_text :: "cli_env \<Rightarrow> string" where
  "enforcement_text v =
     (case ce_report v of Some r \<Rightarrow> report_display r | None \<Rightarrow> ''no OS platform adapter for this target'' @ newline)"

definition cli_run :: "cli_env \<Rightarrow> string list \<Rightarrow> string + string" where
  "cli_run v args =
     (case args of
        [] \<Rightarrow> Inl ''no command given''
      | cmd # rest \<Rightarrow>
          if cmd = ''version'' then
            Inr (''ipc proto v'' @ dec_of_word IPC_PROTO_VERSION @ newline
                 @ ''gateway proto v'' @ dec_of_word GATEWAY_PROTO_VERSION @ newline)
          else if cmd = ''enforcement'' then Inr (enforcement_text v)
          else if cmd = ''classify-exec'' then classify_exec_cmd v rest
          else if cmd = ''classify-path'' then classify_path_cmd rest
          else if cmd = ''apps'' then
            rbind (cli_arg rest 0 ''apps needs <policy.json>'') (\<lambda>path.
            rbind (load_policy v path) (\<lambda>pol. Inr (launchable_list pol)))
          else if cmd = ''launch'' then
            rbind (cli_arg rest 0 ''launch needs <policy.json>'') (\<lambda>path.
            rbind (cli_arg rest 1 ''launch needs <app_id>'') (\<lambda>app.
            rbind (cli_arg rest 2 ''launch needs <mount_point>'') (\<lambda>mount.
            rbind (load_policy v path) (\<lambda>pol. launch_text pol app mount (cli_user v)))))
          else if cmd = ''audit'' then audit_cmd v (list_ex (\<lambda>a. a = ''--json'') rest)
          else if cmd = ''policy'' then policy_cmd v rest
          else Inl (''unknown command: '' @ cmd))"

text \<open>\<open>main\<close>: the exit code, and what goes to the standard output.\<close>

definition cli_main :: "cli_env \<Rightarrow> string list \<Rightarrow> nat \<times> string" where
  "cli_main v args = (case cli_run v args of Inr out \<Rightarrow> (0, out) | Inl e \<Rightarrow> (2, []))"

end
