(* ===== verification/Launcher_Props.thy ===== *)
theory Launcher_Props
  imports Cli Daemon_Props
begin

text \<open>
  The front ends show what the daemon answers: the launcher window whatever the sizes of the pieces in
  which the answers arrive, and the command line the same launch for the same policy.
\<close>

section \<open>A conversation with the daemon\<close>

text \<open>The stream brings the welcome of the handshake and then the answers \<open>rs\<close>, in pieces of any size.\<close>

definition answered :: "ipc_codecs \<Rightarrow> connection \<Rightarrow> launcher_reply list \<Rightarrow> bool" where
  "answered ic c rs =
     ((\<exists>chunks. conn_stream c chunks (concat (map (frame_of (ic_reply ic)) (LWelcome IPC_PROTO_VERSION # rs)))) \<and>
      list_all (framable (ic_reply ic)) (LWelcome IPC_PROTO_VERSION # rs) \<and> cn_write_err c = None)"

text \<open>What the client has written when it has asked its question.\<close>

definition asked :: "ipc_codecs \<Rightarrow> connection \<Rightarrow> launcher_request \<Rightarrow> connection \<Rightarrow> bool" where
  "asked ic c req c' =
     (cn_written c' = cn_written c @ encode (ic_request ic) (LHello IPC_PROTO_VERSION) @ encode (ic_request ic) req)"

lemma client_call_stream:
  assumes "framable rp r" "conn_stream c chunks (frame_of rp r @ rest)" "cn_write_err c = None"
  shows "\<exists>c' chunks'. client_call rq rp c req pick = (c', pick r) \<and> conn_stream c' chunks' rest \<and> cn_write_err c' = None \<and>
    cn_written c' = cn_written c @ encode rq req"
proof -
  let ?c = "c\<lparr>cn_written := cn_written c @ encode rq req\<rparr>"
  have "conn_stream ?c chunks (frame_of rp r @ rest)" using assms(2) by (simp add: conn_stream_def)
  from conn_read_stream[OF assms(1) this] obtain c' chunks' where
    "conn_read rp ?c = (c', Inr (Some r))" "conn_stream c' chunks' rest" "cn_write_err c' = cn_write_err ?c"
    "cn_written c' = cn_written ?c" by blast
  then show ?thesis using assms(3) by (auto simp: client_call_def conn_write_def)
qed

lemma launcher_daemon_answered:
  assumes "answered ic c [r]"
  shows "\<exists>c1. launcher_daemon ic (Some c) = Some c1"
    "launcher_daemon ic (Some c) = Some c2 \<Longrightarrow>
       \<exists>c3. client_call (ic_request ic) (ic_reply ic) c2 req pick = (c3, pick r) \<and> asked ic c req c3"
proof -
  obtain chunks where "conn_stream c chunks (frame_of (ic_reply ic) (LWelcome IPC_PROTO_VERSION) @ frame_of (ic_reply ic) r @ [])"
    and f: "framable (ic_reply ic) (LWelcome IPC_PROTO_VERSION)" "framable (ic_reply ic) r" "cn_write_err c = None"
    using assms by (auto simp: answered_def)
  let ?pick = "\<lambda>r. case r of LWelcome proto \<Rightarrow> (if proto = IPC_PROTO_VERSION then Inr () else Inl (Handshake ''protocol version mismatch''))
                          | _ \<Rightarrow> Inl (Handshake ''expected Welcome'')"
  obtain c1 chunks1 where "client_call (ic_request ic) (ic_reply ic) c (LHello IPC_PROTO_VERSION) ?pick = (c1, Inr ())"
      and c1: "conn_stream c1 chunks1 (frame_of (ic_reply ic) r @ [])" "cn_write_err c1 = None"
      "cn_written c1 = cn_written c @ encode (ic_request ic) (LHello IPC_PROTO_VERSION)"
    using client_call_stream[OF f(1) \<open>conn_stream c chunks _\<close> f(3), of "ic_request ic" "LHello IPC_PROTO_VERSION" ?pick] by auto
  then have conn: "client_connect (ic_request ic) (ic_reply ic) c = (c1, Inr ())" by (simp only: client_connect_def)
  then show "\<exists>c1. launcher_daemon ic (Some c) = Some c1" by (simp add: launcher_daemon_def)
  assume "launcher_daemon ic (Some c) = Some c2"
  then show "\<exists>c3. client_call (ic_request ic) (ic_reply ic) c2 req pick = (c3, pick r) \<and> asked ic c req c3"
    using conn client_call_stream[OF f(2) c1(1,2), of "ic_request ic" req pick] c1(3) by (auto simp: launcher_daemon_def asked_def)
qed

section \<open>What is shown\<close>

definition launch_lines :: "launch_spec \<Rightarrow> string" where
  "launch_lines spec = ''exec: '' @ ls_executable spec @ newline
     @ concat (map (\<lambda>(k, v). ''  '' @ k @ ''='' @ v @ newline) (ls_env spec))
     @ (case ls_namespace_prefix spec of Some ns \<Rightarrow> ''  namespace: '' @ ns @ newline | None \<Rightarrow> [])
     @ ''(spawn + inject = OS layer, deferred)'' @ newline"

definition audit_lines :: "audit_event list \<Rightarrow> string" where
  "audit_lines events =
     (if events = [] then ''(audit spool is empty)'' @ newline
      else concat (map (\<lambda>e. dec_of_word (ae_ts e) @ tab @ audit_action_debug (ae_action e) @ tab
             @ decision_debug (vd_decision (ae_verdict e)) @ tab @ ''app=''
             @ (case ae_app_id e of Some a \<Rightarrow> app_id_str a | None \<Rightarrow> ''-'') @ newline) events))"

text \<open>The result of a launch as both front ends report it.\<close>

definition launch_outcome :: "launch_error + launched_app \<Rightarrow> string + u32" where
  "launch_outcome r = (case r of Inr l \<Rightarrow> Inr (ld_pid l) | Inl e \<Rightarrow> Inl (launch_error_display e))"

lemma launched_pid_reply: "launched_pid (pick_launched (launched_reply r)) = launch_outcome r"
  by (cases r) (simp_all add: launched_pid_def pick_launched_def launched_reply_def launch_outcome_def)

lemma cli_launch:
  assumes "load_policy cv path = Inr pol" "pl_mount_point pl = Some mount"
    and "ce_env cv ''USER'' = Some u" "pl_user_var pl = Some u" "trim u \<noteq> []"
  shows "case prepare_launch pl (d\<lparr>dm_policy := pol\<rparr>) a of
      Some spec \<Rightarrow> cli_run cv [''launch'', path, app_id_str a, mount] = Inr (launch_lines spec)
    | None \<Rightarrow> isl (cli_run cv [''launch'', path, app_id_str a, mount])"
proof -
  have u: "cli_user cv = trim u" "pl_user pl = trim u"
    using assms(3-5) by (simp_all add: cli_user_def pl_user_def contained_user_def split: list.splits)
  have "cli_run cv [''launch'', path, app_id_str a, mount] = launch_text pol (app_id_str a) mount (trim u)"
    using assms(1) u(1) by (simp add: cli_run_def cli_arg_def)
  then show ?thesis using assms(2) u(2)
    by (simp add: prepare_launch_def launch_text_def launch_lines_def ok_or_def Let_def split: option.splits)
qed

text \<open>
  (C31) The front ends show the daemon. On a connection whose other end welcomes the client and answers its
  one request as the daemon does, and however the bytes of both answers are cut into pieces, each command of the launcher
  window writes the hello and just that request, and shows just what the daemon answered: the launchable
  applications and the web applications of the policy in force, the launch it would make, its status field by field,
  its posture, and the process or the error of a launch. The command line prints the pending audit events
  of the daemon it asks. Its \<open>launch\<close> asks nobody: for the policy in the file it is given, the mount
  point it is given, and the user variable of the daemon, it prints the launch that a daemon with
  this policy and mount point would make, and an error where that would make none.
\<close>

theorem front_ends_show_daemon:
  assumes "answered ic c [snd (handle_launcher_request dv pl d req now)]"
  shows "\<exists>c1. launcher_daemon ic (Some c) = Some c1 \<and> (case req of
      ListApps \<Rightarrow> asked ic c req (fst (client_list_apps (ic_request ic) (ic_reply ic) c1)) \<and>
        ui_list_apps ic (Some c) = map (\<lambda>a. \<lparr>ai_id = app_id_str (la_app_id a), ai_label = la_label a\<rparr>) (launchable_apps d)
    | PrepareLaunch a \<Rightarrow> asked ic c req (fst (client_prepare_launch (ic_request ic) (ic_reply ic) c1 a)) \<and>
        ui_launch_spec ic env (Some c) (app_id_str a) = map_option to_launch_info (prepare_launch pl d a) \<and>
        (load_policy cv path = Inr pol \<and> pl_mount_point pl = Some mount \<and>
           ce_env cv ''USER'' = Some u \<and> pl_user_var pl = Some u \<and> trim u \<noteq> [] \<longrightarrow>
         (case prepare_launch pl (d\<lparr>dm_policy := pol\<rparr>) a of
            Some spec \<Rightarrow> cli_run cv [''launch'', path, app_id_str a, mount] = Inr (launch_lines spec)
          | None \<Rightarrow> isl (cli_run cv [''launch'', path, app_id_str a, mount])))
    | LLaunch a \<Rightarrow> asked ic c req (fst (client_launch (ic_request ic) (ic_reply ic) c1 a)) \<and>
        ui_launch_app ic (Some c) (app_id_str a) = launch_outcome (snd (daemon_launch dv pl d a now))
    | LaunchWeb a \<Rightarrow> asked ic c req (fst (client_launch_web (ic_request ic) (ic_reply ic) c1 a)) \<and>
        ui_launch_web ic (Some c) (app_id_str a) = launch_outcome (snd (launch_web dv pl d a now))
    | LEnforcement \<Rightarrow> asked ic c req (fst (client_enforcement (ic_request ic) (ic_reply ic) c1)) \<and>
        ui_enforcement ic rep (Some c) = platform_report (Some (report_from_fn (pl_enforcement pl)))
    | LStatus \<Rightarrow> asked ic c req (fst (client_status (ic_request ic) (ic_reply ic) c1)) \<and>
        ui_status ic (Some c) =
          \<lparr>si_connected = True, si_tenant = (case gv_tenant (dm_gateway d) of TenantId t \<Rightarrow> t),
           si_policy_version = policy_version d, si_volume_unlocked = volume_is_unlocked (dm_volume d),
           si_mount_point = pl_mount_point pl, si_gateway_high_water = gv_high_water (dm_gateway d)\<rparr>
    | ListWebApps \<Rightarrow> asked ic c req (fst (client_list_web_apps (ic_request ic) (ic_reply ic) c1)) \<and>
        ui_list_web_apps ic (Some c) =
          map (\<lambda>a. \<lparr>wb_id = app_id_str (wi_app_id a), wb_label = wi_label a, wb_url = wi_url a\<rparr>) (web_apps d)
    | PeekAudit \<Rightarrow> asked ic c req (fst (client_peek_audit (ic_request ic) (ic_reply ic) c1)) \<and>
        (ce_codecs cv = ic \<and> ce_socket cv = Some c \<and> ce_runtime cv = None \<longrightarrow>
         cli_run cv [''audit''] = Inr (audit_lines (map se_event (fst (spool_peek (dm_audit d))))))
    | LHello _ \<Rightarrow> True)"
proof -
  obtain c1 where c1: "launcher_daemon ic (Some c) = Some c1" using launcher_daemon_answered(1)[OF assms] by blast
  have call: "snd (client_call (ic_request ic) (ic_reply ic) c1 q pick) = pick (snd (handle_launcher_request dv pl d req now))"
    "asked ic c q (fst (client_call (ic_request ic) (ic_reply ic) c1 q pick))" for q and pick :: "launcher_reply \<Rightarrow> transport_error + 'q"
    using launcher_daemon_answered(2)[OF assms c1, of q pick] by auto
  show ?thesis
  proof (cases req)
    case ListApps
    then show ?thesis by (auto simp: call c1 ui_list_apps_def client_list_apps_def)
  next
    case (PrepareLaunch a)
    then show ?thesis using cli_launch[where cv = cv and path = path and pol = pol and pl = pl and mount = mount and u = u and d = d and a = a]
      by (auto simp: call c1 ui_launch_spec_def client_prepare_launch_def)
  next
    case (LLaunch a)
    then show ?thesis
      by (auto simp: call c1 ui_launch_app_def client_launch_def launched_pid_reply split: prod.splits)
  next
    case (LaunchWeb a)
    then show ?thesis
      by (auto simp: call c1 ui_launch_web_def client_launch_web_def launched_pid_reply split: prod.splits)
  next
    case LEnforcement
    then show ?thesis
      by (auto simp: call c1 ui_enforcement_def client_enforcement_def platform_report_def)
  next
    case LStatus
    then show ?thesis
      by (auto simp: call c1 ui_status_def client_status_def daemon_launcher_status_def)
  next
    case ListWebApps
    then show ?thesis by (auto simp: call c1 ui_list_web_apps_def client_list_web_apps_def)
  next
    case PeekAudit
    then show ?thesis
      by (auto simp: call c1 cli_run_def audit_cmd_def client_peek_audit_def audit_lines_def ok_or_def)
  qed (use c1 in simp)
qed

text \<open>The template the command line prints has nothing to complain about.\<close>

lemma policy_template_valid: "validate policy_template_bundle = []"
proof -
  have "trim ''example-work'' \<noteq> []" by code_simp
  then show ?thesis
    by (simp add: validate_def policy_template_bundle_def restrictive_default_def app_policy_empty_def web_policy_default_def app_rule_new_def with_display_name_def
        with_executable_def Let_def)
qed

section \<open>A concrete conversation\<close>

text \<open>The launcher asks a daemon with the template policy; the answers arrive in three pieces.\<close>

definition demo_codecs :: ipc_codecs where
  "demo_codecs = \<lparr>ic_request = \<lparr>cd_enc = (\<lambda>_. [0]), cd_dec = (\<lambda>_. None)\<rparr>,
     ic_reply = \<lparr>cd_enc = (\<lambda>r. case r of LWelcome _ \<Rightarrow> [1] | _ \<Rightarrow> [2]),
       cd_dec = (\<lambda>bs. Some (if bs = [1] then LWelcome IPC_PROTO_VERSION
         else Apps [\<lparr>la_app_id = AppId ''example-work'', la_label = ''Example''\<rparr>]))\<rparr>\<rparr>"

definition demo_conn :: connection where
  "demo_conn = \<lparr>cn_reads = [Inr [1, 0], Inr [0, 0, 1, 1, 0], Inr [0, 0, 2]], cn_buf = [], cn_written = [], cn_write_err = None,
     cn_cred = Inl Truncated\<rparr>"

definition demo_platform :: platform where
  "demo_platform = \<lparr>pl_mount_point = Some ''/m'', pl_route = (\<lambda>_ _. RBlock), pl_enforcement = (\<lambda>_. Unavailable), pl_containment = False,
     pl_user_var = Some ''ada'', pl_home_var = None, pl_spawn = (\<lambda>_. Inl ''none''), pl_macos = True\<rparr>"

theorem front_ends_show_daemon_witness:
  "ui_list_apps demo_codecs (Some demo_conn) = [\<lparr>ai_id = ''example-work'', ai_label = ''Example''\<rparr>]"
proof -
  let ?d = "demo_daemon\<lparr>dm_policy := policy_template_bundle\<rparr>"
  have apps: "launchable_apps ?d = [\<lparr>la_app_id = AppId ''example-work'', la_label = ''Example''\<rparr>]"
    by (simp add: launchable_apps_def policy_template_bundle_def restrictive_default_def app_policy_empty_def app_rule_new_def
        with_display_name_def with_executable_def is_launchable_def app_rule_label_def)
  have one: "le_bytes 4 (Suc 0) = [1, 0, 0, 0]" by code_simp
  have frames: "concat (map (frame_of (ic_reply demo_codecs)) [LWelcome IPC_PROTO_VERSION, Apps (launchable_apps ?d)]) =
      [1, 0, 0, 0, 1, 1, 0, 0, 0, 2]"
    by (simp add: frame_of_def demo_codecs_def one)
  have "conn_stream demo_conn [[1, 0], [0, 0, 1, 1, 0], [0, 0, 2]]
      (concat (map (frame_of (ic_reply demo_codecs)) [LWelcome IPC_PROTO_VERSION, Apps (launchable_apps ?d)]))"
    unfolding frames by (simp add: conn_stream_def demo_conn_def)
  moreover have "list_all (framable (ic_reply demo_codecs)) [LWelcome IPC_PROTO_VERSION, Apps (launchable_apps ?d)]"
    by (simp add: framable_def apps demo_codecs_def MAX_FRAME_def)
  ultimately have "answered demo_codecs demo_conn [snd (handle_launcher_request demo_daemon_env demo_platform ?d ListApps 5)]"
    by (auto simp: answered_def demo_conn_def)
  from front_ends_show_daemon[OF this] show ?thesis by (auto simp add: apps)
qed

end
