(* ===== verification/Wireguard.thy ===== *)
theory Wireguard
  imports Split_Router
begin

text \<open>
  The WireGuard engine of \<open>clave-net\<close> (\<open>wireguard.rs\<close>, compiled with the feature \<open>wireguard\<close>). The noise
  protocol is the \<open>Tunn\<close> of the crate \<open>boringtun\<close>, which is an argument here: a state and operations
  that answer a \<open>TunnResult\<close>, or panic (\<open>None\<close>) when the buffer they are given is too small. Shown are
  the packets that fit the fixed buffer of the engine, and that packets the crate holds back while it
  has no session are never sent: nothing in the engine or the router asks the crate for them.
\<close>

section \<open>The crate behind the engine\<close>

datatype tunn_result =
    TunnDone | TunnErr string | WriteToNetwork bytes | WriteToTunnelV4 bytes bytes | WriteToTunnelV6 bytes bytes

text \<open>
  A number is the length of the destination buffer. The age of the last handshake is in nanoseconds,
  and the error of \<open>Tunn::new\<close> is its \<open>Debug\<close> text.
\<close>

record 'n tunn_ops =
  tu_new :: "bytes \<Rightarrow> bytes \<Rightarrow> u32 \<Rightarrow> string + 'n"
  tu_public_key :: "bytes \<Rightarrow> bytes"
  tu_encapsulate :: "'n \<Rightarrow> nat \<Rightarrow> bytes \<Rightarrow> ('n \<times> tunn_result) option"
  tu_decapsulate :: "'n \<Rightarrow> nat \<Rightarrow> bytes \<Rightarrow> ('n \<times> tunn_result) option"
  tu_update_timers :: "'n \<Rightarrow> nat \<Rightarrow> ('n \<times> tunn_result) option"
  tu_handshake_age :: "'n \<Rightarrow> nat option"

section \<open>The engine\<close>

definition SCRATCH :: nat where
  "SCRATCH = 2048"

datatype decap_result = DecapPacket bytes | DecapReply bytes | DecapDone

definition wireguard_new :: "'n tunn_ops \<Rightarrow> gateway_config \<Rightarrow> u32 \<Rightarrow> string + 'n" where
  "wireguard_new T cfg index = tu_new T (gc_private_key cfg) (gc_peer_public_key cfg) index"

definition wireguard_public_key :: "'n tunn_ops \<Rightarrow> bytes \<Rightarrow> bytes" where
  "wireguard_public_key T private_key = tu_public_key T private_key"

fun decap_result_of :: "tunn_result \<Rightarrow> decap_result" where
  "decap_result_of (WriteToNetwork b) = DecapReply b"
| "decap_result_of (WriteToTunnelV4 p _) = DecapPacket p"
| "decap_result_of (WriteToTunnelV6 p _) = DecapPacket p"
| "decap_result_of TunnDone = DecapDone"
| "decap_result_of (TunnErr _) = DecapDone"

definition decapsulate_raw :: "'n tunn_ops \<Rightarrow> 'n \<Rightarrow> bytes \<Rightarrow> ('n \<times> decap_result) option" where
  "decapsulate_raw T t dgram = map_option (\<lambda>(t, r). (t, decap_result_of r)) (tu_decapsulate T t SCRATCH dgram)"

fun network_bytes :: "tunn_result \<Rightarrow> bytes option" where
  "network_bytes (WriteToNetwork b) = Some b"
| "network_bytes _ = None"

definition wg_encapsulate :: "'n tunn_ops \<Rightarrow> 'n \<Rightarrow> bytes \<Rightarrow> ('n \<times> tunnel_out) option" where
  "wg_encapsulate T t pkt =
     map_option (\<lambda>(t, r). (t, case network_bytes r of Some b \<Rightarrow> SendToGateway b | None \<Rightarrow> TOIdle))
       (tu_encapsulate T t SCRATCH pkt)"

fun inbound_of :: "decap_result \<Rightarrow> inbound" where
  "inbound_of (DecapPacket p) = ToProcess p"
| "inbound_of (DecapReply r) = InToGateway r"
| "inbound_of DecapDone = InIdle"

definition wg_decapsulate :: "'n tunn_ops \<Rightarrow> 'n \<Rightarrow> bytes \<Rightarrow> ('n \<times> inbound) option" where
  "wg_decapsulate T t dgram = map_option (\<lambda>(t, r). (t, inbound_of r)) (decapsulate_raw T t dgram)"

definition wg_poll_outgoing :: "'n tunn_ops \<Rightarrow> 'n \<Rightarrow> ('n \<times> bytes option) option" where
  "wg_poll_outgoing T t = map_option (\<lambda>(t, r). (t, network_bytes r)) (tu_encapsulate T t SCRATCH [])"

definition wg_update_timers :: "'n tunn_ops \<Rightarrow> 'n \<Rightarrow> ('n \<times> bytes option) option" where
  "wg_update_timers T t = map_option (\<lambda>(t, r). (t, network_bytes r)) (tu_update_timers T t SCRATCH)"

definition wg_is_established :: "'n tunn_ops \<Rightarrow> 'n \<Rightarrow> bool" where
  "wg_is_established T t = (case tu_handshake_age T t of Some age \<Rightarrow> age < 180 * 10 ^ 9 | None \<Rightarrow> False)"

text \<open>\<open>Debug\<close> of a gateway configuration; \<open>sd\<close> is \<open>Debug\<close> of a string.\<close>

definition gateway_config_debug :: "(string \<Rightarrow> string) \<Rightarrow> gateway_config \<Rightarrow> string" where
  "gateway_config_debug sd cfg =
     ''GatewayConfig { private_key: '' @ sd ''<redacted>'' @ '', peer_public_key: '' @ sd ''<redacted>''
       @ '', endpoint: '' @ sd (gc_endpoint cfg) @ '', static_egress_ip: ''
       @ (case gc_static_egress_ip cfg of None \<Rightarrow> ''None'' | Some ip \<Rightarrow> ''Some('' @ sd ip @ '')'') @ '' }''"

section \<open>The engine as the tunnel of the router\<close>

text \<open>
  The router is behind a mutex, which a panic inside it poisons: from then on every call panics at
  the lock. \<open>wt_panicked\<close> says that this happened; nothing leaves the tunnel any more.
\<close>

record 'n wireguard_tunnel =
  wt_tun :: 'n
  wt_panicked :: bool

definition wg_call :: "('n \<Rightarrow> ('n \<times> 'r) option) \<Rightarrow> 'r \<Rightarrow> 'n wireguard_tunnel \<Rightarrow> 'n wireguard_tunnel \<times> 'r" where
  "wg_call f idle w =
     (if wt_panicked w then (w, idle)
      else case f (wt_tun w) of None \<Rightarrow> (w\<lparr>wt_panicked := True\<rparr>, idle) | Some (t, r) \<Rightarrow> (w\<lparr>wt_tun := t\<rparr>, r))"

definition wireguard_ops :: "'n tunn_ops \<Rightarrow> 'n wireguard_tunnel tunnel_ops" where
  "wireguard_ops T =
     \<lparr>tn_encapsulate = (\<lambda>w pkt. wg_call (\<lambda>t. wg_encapsulate T t pkt) TOIdle w),
      tn_decapsulate = (\<lambda>w dgram. wg_call (\<lambda>t. wg_decapsulate T t dgram) InIdle w),
      tn_poll_outgoing = wg_call (wg_poll_outgoing T) None,
      tn_update_timers = wg_call (wg_update_timers T) None,
      tn_is_established = (\<lambda>w. wg_is_established T (wt_tun w))\<rparr>"

section \<open>Packets that fit\<close>

text \<open>
  What the crate documents of its buffer: sealing a packet needs 32 bytes more than the packet and at
  least 148, the length of a handshake initiation, and panics with less. \<open>live\<close> says that there is a
  session.
\<close>

definition tunn_room :: "'n tunn_ops \<Rightarrow> ('n \<Rightarrow> bool) \<Rightarrow> bool" where
  "tunn_room T live \<longleftrightarrow>
     (\<forall>t room pkt. (max 148 (length pkt + 32) \<le> room \<longrightarrow> tu_encapsulate T t room pkt \<noteq> None) \<and>
        (live t \<and> room < length pkt + 32 \<longrightarrow> tu_encapsulate T t room pkt = None))"

text \<open>
  With the buffer of the engine a packet of at most 2016 bytes is always sealed; a longer one panics
  as soon as there is a session. The router hands on packets of any length.
\<close>

theorem wireguard_room:
  assumes "tunn_room T live"
  shows "(length pkt \<le> 2016 \<longrightarrow> wg_encapsulate T t pkt \<noteq> None \<and> wg_poll_outgoing T t \<noteq> None) \<and>
    (live t \<and> 2016 < length pkt \<longrightarrow> wg_encapsulate T t pkt = None)"
  using assms by (auto simp: tunn_room_def wg_encapsulate_def wg_poll_outgoing_def SCRATCH_def)

section \<open>Packets that are held back\<close>

text \<open>
  What the crate documents of the packets it sends: with a session a packet is sent at once. Without
  one it is held back and a handshake is begun; the packets held back are sent when
  \<open>decapsulate\<close> is called with an empty datagram, which a caller is to repeat after every answer that goes to the
  network. \<open>sent\<close> are the packets sent so far, empty ones (keepalives) aside.
\<close>

definition tunn_sends :: "'n tunn_ops \<Rightarrow> ('n \<Rightarrow> bool) \<Rightarrow> ('n \<Rightarrow> bytes list) \<Rightarrow> bool" where
  "tunn_sends T live sent \<longleftrightarrow>
     (\<forall>t t' room pkt r. tu_encapsulate T t room pkt = Some (t', r) \<longrightarrow>
        sent t' = sent t @ (if live t \<and> pkt \<noteq> [] then [pkt] else [])) \<and>
     (\<forall>t t' room dgram r. tu_decapsulate T t room dgram = Some (t', r) \<and> dgram \<noteq> [] \<longrightarrow> sent t' = sent t) \<and>
     (\<forall>t t' room r. tu_update_timers T t room = Some (t', r) \<longrightarrow> sent t' = sent t)"

definition router_sent :: "('n \<Rightarrow> bytes list) \<Rightarrow> 'n wireguard_tunnel split_router \<Rightarrow> bytes list" where
  "router_sent sent r = sent (wt_tun (sr_tunnel r))"

definition router_live :: "('n \<Rightarrow> bool) \<Rightarrow> 'n wireguard_tunnel split_router \<Rightarrow> bool" where
  "router_live live r = live (wt_tun (sr_tunnel r))"

lemma tunn_sendsD:
  assumes "tunn_sends T live sent"
  shows "tu_encapsulate T t room pkt = Some (t', r) \<Longrightarrow> sent t' = sent t @ (if live t \<and> pkt \<noteq> [] then [pkt] else [])"
    and "tu_decapsulate T t room dgram = Some (t', r) \<Longrightarrow> dgram \<noteq> [] \<Longrightarrow> sent t' = sent t"
    and "tu_update_timers T t room = Some (t', r) \<Longrightarrow> sent t' = sent t"
  using assms unfolding tunn_sends_def by blast+

lemma wg_call_sent:
  assumes "\<And>t t' x. f t = Some (t', x) \<Longrightarrow> sent t' = sent t"
  shows "sent (wt_tun (fst (wg_call f idle w))) = sent (wt_tun w)"
  using assms by (auto simp: wg_call_def split: option.splits)

lemma wireguard_step:
  assumes T: "tunn_sends T live sent" and "e \<noteq> InPkt []"
  shows "router_sent sent (router_apply (wireguard_ops T) r e) = router_sent sent r \<or>
    (\<exists>i pkt. e = OutPkt i pkt \<and> router_live live r \<and>
       router_sent sent (router_apply (wireguard_ops T) r e) = router_sent sent r @ [pkt])"
proof (cases e)
  case (OutPkt i pkt)
  have "sent (wt_tun (fst (wg_call (\<lambda>t. wg_encapsulate T t pkt) TOIdle w))) =
      sent (wt_tun w) \<or> live (wt_tun w) \<and>
      sent (wt_tun (fst (wg_call (\<lambda>t. wg_encapsulate T t pkt) TOIdle w))) = sent (wt_tun w) @ [pkt]" for w
    by (cases "tu_encapsulate T (wt_tun w) SCRATCH pkt")
      (auto simp: wg_call_def wg_encapsulate_def dest!: tunn_sendsD(1)[OF T] split: if_splits)
  from this[of "sr_tunnel r"] show ?thesis
    by (auto simp: OutPkt router_outbound_def wireguard_ops_def router_sent_def router_live_def
        split: prod.splits tunnel_out.splits)
next
  case (InPkt dgram)
  then have "sent (wt_tun (fst (wg_call (\<lambda>t. wg_decapsulate T t dgram) InIdle w))) = sent (wt_tun w)" for w
    using assms(2) by (intro wg_call_sent) (auto simp: wg_decapsulate_def decapsulate_raw_def dest: tunn_sendsD(2)[OF T])
  from this[of "sr_tunnel r"] show ?thesis
    by (auto simp: InPkt router_inbound_def wireguard_ops_def router_sent_def split: prod.splits)
next
  case PollOut
  have "sent (wt_tun (fst (wg_call (wg_poll_outgoing T) None w))) = sent (wt_tun w)" for w
    by (intro wg_call_sent) (auto simp: wg_poll_outgoing_def dest: tunn_sendsD(1)[OF T])
  from this[of "sr_tunnel r"] show ?thesis
    by (auto simp: PollOut router_poll_outgoing_def wireguard_ops_def router_sent_def split: prod.splits)
next
  case Tick
  have "sent (wt_tun (fst (wg_call (wg_update_timers T) None w))) = sent (wt_tun w)" for w
    by (intro wg_call_sent) (auto simp: wg_update_timers_def dest: tunn_sendsD(3)[OF T])
  from this[of "sr_tunnel r"] show ?thesis
    by (auto simp: Tick router_tick_def wireguard_ops_def router_sent_def split: prod.splits)
qed (simp_all add: open_flow_def open_dns_flow_def close_flow_def router_sent_def Let_def)

text \<open>
  A packet that reaches the tunnel only while there is no session is never sent, whatever the router
  does and receives afterwards: the handshake it starts completes, polling and the timers run, but
  the packet stays behind unless an empty datagram arrives from the network.
\<close>

theorem held_packets_stranded:
  assumes T: "tunn_sends T live sent" and "InPkt [] \<notin> set es" "pkt \<notin> set (router_sent sent r)"
    and "\<forall>k < length es. \<forall>i. es ! k = OutPkt i pkt \<longrightarrow>
           \<not> router_live live (foldl (router_apply (wireguard_ops T)) r (take k es))"
  shows "pkt \<notin> set (router_sent sent (foldl (router_apply (wireguard_ops T)) r es))"
  using assms(2,4)
proof (induction es rule: rev_induct)
  case Nil
  then show ?case using assms(3) by simp
next
  case (snoc e es)
  have "\<forall>k < length es. \<forall>i. es ! k = OutPkt i pkt \<longrightarrow>
      \<not> router_live live (foldl (router_apply (wireguard_ops T)) r (take k es))"
    using snoc.prems(2) by (auto simp: nth_append dest: less_SucI)
  then have IH: "pkt \<notin> set (router_sent sent (foldl (router_apply (wireguard_ops T)) r es))"
    using snoc by simp
  have "e = OutPkt i pkt \<Longrightarrow> \<not> router_live live (foldl (router_apply (wireguard_ops T)) r es)" for i
    using snoc.prems(2)[rule_format, of "length es" i] by simp
  moreover have "e \<noteq> InPkt []" using snoc.prems(1) by auto
  ultimately show ?case using IH wireguard_step[OF T, of e "foldl (router_apply (wireguard_ops T)) r es"]
    by auto
qed

text \<open>
  The same router over a model of the crate: no session until a datagram arrives, packets in a queue
  that only an empty datagram empties.
\<close>

definition queue_tunn :: "(bool \<times> bytes list \<times> bytes list) tunn_ops" where
  "queue_tunn =
     \<lparr>tu_new = (\<lambda>_ _ _. Inr (False, [], [])), tu_public_key = id,
      tu_encapsulate = (\<lambda>(up, held, out) room pkt.
        if room < length pkt + 32 then None
        else if up then Some ((up, held, if pkt = [] then out else out @ [pkt]), WriteToNetwork (replicate 32 0 @ pkt))
        else Some ((up, held @ [pkt], out), WriteToNetwork (replicate 148 1))),
      tu_decapsulate = (\<lambda>(up, held, out) room dgram.
        if dgram \<noteq> [] then Some ((True, held, out), WriteToNetwork (replicate 32 0))
        else case held of [] \<Rightarrow> Some ((up, [], out), TunnDone)
             | p # ps \<Rightarrow> Some ((up, ps, out @ [p]), WriteToNetwork (replicate 32 0 @ p))),
      tu_update_timers = (\<lambda>t _. Some (t, TunnDone)),
      tu_handshake_age = (\<lambda>(up, _). if up then Some 0 else None)\<rparr>"

definition queue_run :: "bool \<times> bytes list \<times> bytes list" where
  "queue_run = wt_tun (sr_tunnel (foldl (router_apply (wireguard_ops queue_tunn))
     \<lparr>sr_tunnel = \<lparr>wt_tun = (False, [], []), wt_panicked = False\<rparr>, sr_flows = [(1, HeldOffline)]\<rparr>
     [OutPkt 1 [7], InPkt [2], PollOut, Tick, OutPkt 1 [8]]))"

lemma queue_tunn_sends: "tunn_sends queue_tunn fst (snd \<circ> snd)"
  by (auto simp: tunn_sends_def queue_tunn_def split: if_splits list.splits)

text \<open>The handshake completes and the second packet is sent; the first one still waits.\<close>

lemma queue_run_strands: "queue_run = (True, [[7]], [[8]])"
  by (simp add: queue_run_def queue_tunn_def router_outbound_def router_inbound_def router_poll_outgoing_def
      router_tick_def wireguard_ops_def wg_call_def wg_encapsulate_def wg_decapsulate_def decapsulate_raw_def
      wg_poll_outgoing_def wg_update_timers_def SCRATCH_def hm_get_def)

end
