(* ===== verification/Os_Start.thy ===== *)
theory Os_Start
  imports Win_Job Mac_Gate Boot_Props
begin

text \<open>
  The platform objects of both systems as the daemon holds them (\<open>clave-win\<close> and \<open>clave-mac\<close>,
  \<open>platform.rs\<close>), how the entry points \<open>run_windows\<close> and \<open>run_macos\<close> of \<open>clave-daemon\<close> set them up before the
  daemon is built, what they answer to it, and what they do with the calls it makes. Shown are the
  posture each start reports and what becomes of launching after a wipe or a lock: on macOS the disk
  is detached and nothing can be launched into it, on Windows nothing changes.
\<close>

section \<open>The Windows platform\<close>

text \<open>
  The state of \<open>WindowsPlatform\<close>: the mount point of \<open>WinVolumeMount\<close>, whether a job object was
  installed, and the enforcement table. The zone registry is shared with the daemon and is passed
  where it is read.
\<close>

record win_platform =
  wo_mount_point :: "string option"
  wo_containment :: bool
  wo_enforcement :: enforcement_report

definition win_platform_new :: win_platform where
  "win_platform_new = \<lparr>wo_mount_point = None, wo_containment = False, wo_enforcement = win_default_enforcement\<rparr>"

definition win_configure_volume :: "win_platform \<Rightarrow> string \<Rightarrow> win_platform" where
  "win_configure_volume p mp = p\<lparr>wo_mount_point := Some mp\<rparr>"

definition win_configure_containment :: "win_platform \<Rightarrow> win_platform" where
  "win_configure_containment p = p\<lparr>wo_containment := True\<rparr>"

definition win_set_enforcement :: "win_platform \<Rightarrow> capability \<Rightarrow> enforcement_status \<Rightarrow> win_platform" where
  "win_set_enforcement p cap status = p\<lparr>wo_enforcement := set_enforcement (wo_enforcement p) cap status\<rparr>"

definition win_is_mounted :: "win_platform \<Rightarrow> bool" where
  "win_is_mounted p = (wo_mount_point p \<noteq> None)"

definition win_request_wipe :: "win_platform \<Rightarrow> win_platform \<times> (platform_error + unit)" where
  "win_request_wipe p = (p, Inr ())"

definition win_classify_and_gate :: "zone \<Rightarrow> zone \<Rightarrow> clip_format \<Rightarrow> decision" where
  "win_classify_and_gate src dst fmt = (if src = dst then Allow else Deny)"

text \<open>What the process environment and the spawning of the system add to the answers of a platform.\<close>

record os_answers =
  oa_user_var :: "string option"
  oa_home_var :: "string option"
  oa_spawn :: "launch_spec \<Rightarrow> string + u32"

definition win_answers :: "os_answers \<Rightarrow> zone_registry \<Rightarrow> win_platform \<Rightarrow> platform" where
  "win_answers os z p =
     \<lparr>pl_mount_point = wo_mount_point p, pl_route = (\<lambda>q blocked. net_route q z blocked),
      pl_enforcement = enforcement (wo_enforcement p), pl_containment = wo_containment p,
      pl_user_var = oa_user_var os, pl_home_var = oa_home_var os, pl_spawn = oa_spawn os, pl_macos = False\<rparr>"

text \<open>
  A call of the daemon. The overlay object of Windows does nothing; excluding a window from capture
  changes the window, not the platform; the daemon ignores what a call returns.
\<close>

fun win_perform :: "job_env \<Rightarrow> win_platform \<times> u64 list \<Rightarrow> platform_call \<Rightarrow> win_platform \<times> u64 list" where
  "win_perform j (p, job) (Track w color) = (p, job)"
| "win_perform j (p, job) (Untrack w) = (p, job)"
| "win_perform j (p, job) (ProtectWindow w) = (p, job)"
| "win_perform j (p, job) (Contain pid) = (p, if wo_containment p then fst (contain j job pid) else job)"
| "win_perform j (p, job) RequestWipe = (fst (win_request_wipe p), job)"

section \<open>Starting on Windows\<close>

definition WIN_MOUNT_POINT :: string where
  "WIN_MOUNT_POINT = ''X:''"

text \<open>What \<open>spawn_clave_disk\<close> reports within ten seconds.\<close>

datatype disk_start = DiskMounted | DiskRefused string | DiskTimeout

definition win_start_platform :: "disk_start \<Rightarrow> platform_error + unit \<Rightarrow> win_platform" where
  "win_start_platform disk job =
     (let p = win_configure_volume win_platform_new WIN_MOUNT_POINT;
          p = win_set_enforcement p CapClipboard DevelopmentOnly;
          p = win_set_enforcement p CapOverlay DevelopmentOnly;
          p = win_set_enforcement p CapInput DevelopmentOnly;
          p = (if disk = DiskMounted then win_set_enforcement p CapVolume DevelopmentOnly else p)
      in case job of Inr _ \<Rightarrow> win_configure_containment p | Inl _ \<Rightarrow> p)"

section \<open>The macOS platform\<close>

record mac_platform =
  mo_volume :: mac_volume_mount
  mo_tracked :: "(window_id, rgba) hmap"
  mo_enforcement :: enforcement_report

definition mac_volume_default :: "string \<Rightarrow> mac_volume_mount" where
  "mac_volume_default tmp =
     mac_volume_new 0 (path_join tmp ''clave-disk-unconfigured.sparsebundle'') AllowPlainFallback"

definition mac_platform_new :: "string \<Rightarrow> mac_platform" where
  "mac_platform_new tmp =
     \<lparr>mo_volume = mac_volume_default tmp, mo_tracked = [], mo_enforcement = mac_default_enforcement\<rparr>"

definition mac_configure_volume :: "mac_platform \<Rightarrow> u128 \<Rightarrow> string \<Rightarrow> custody \<Rightarrow> mac_platform" where
  "mac_configure_volume p container bundle custody = p\<lparr>mo_volume := mac_volume_new container bundle custody\<rparr>"

definition mac_apply_sip_posture :: "mac_platform \<Rightarrow> sip_status \<Rightarrow> mac_platform" where
  "mac_apply_sip_posture p sip = p\<lparr>mo_enforcement := apply_sip_posture (mo_enforcement p) sip\<rparr>"

definition mac_answers :: "os_answers \<Rightarrow> zone_registry \<Rightarrow> mac_platform \<Rightarrow> platform" where
  "mac_answers os z p =
     \<lparr>pl_mount_point = mm_mount_point (mo_volume p), pl_route = (\<lambda>q blocked. net_route q z blocked),
      pl_enforcement = enforcement (mo_enforcement p), pl_containment = False,
      pl_user_var = oa_user_var os, pl_home_var = oa_home_var os, pl_spawn = oa_spawn os, pl_macos = True\<rparr>"

text \<open>Protecting a window is unsupported on macOS, and there is nothing to contain a process in.\<close>

fun mac_perform :: "('h, 'k, 'p) mac_env \<Rightarrow> 'h \<times> mac_platform \<Rightarrow> platform_call \<Rightarrow> 'h \<times> mac_platform" where
  "mac_perform v (h, p) (Track w color) = (h, p\<lparr>mo_tracked := overlay_track (mo_tracked p) w color\<rparr>)"
| "mac_perform v (h, p) (Untrack w) = (h, p\<lparr>mo_tracked := overlay_untrack (mo_tracked p) w\<rparr>)"
| "mac_perform v (h, p) (ProtectWindow w) = (h, p)"
| "mac_perform v (h, p) (Contain pid) = (h, p)"
| "mac_perform v (h, p) RequestWipe =
     (case mac_request_wipe v h (mo_volume p) of (h, m, _) \<Rightarrow> (h, p\<lparr>mo_volume := m\<rparr>))"

section \<open>Starting on macOS\<close>

text \<open>The platform up to the posture; a disk that cannot be attached is reported and left out.\<close>

definition mac_start_platform ::
  "('h, 'k, 'p) mac_env \<Rightarrow> environment \<Rightarrow> string \<Rightarrow> 'h \<Rightarrow> profile \<Rightarrow> sip_status
     \<Rightarrow> ('h \<times> mac_platform) \<times> (mac_error + unit)" where
  "mac_start_platform v env tmp h profile sip =
     (let p = mac_configure_volume (mac_platform_new tmp) (profile_container profile)
                (disk_bundle_path env tmp profile) (profile_custody profile)
      in case mac_attach v h (mo_volume p) (mount_point env profile) of
           (h, m, r) \<Rightarrow> ((h, mac_apply_sip_posture (p\<lparr>mo_volume := m\<rparr>) sip), r))"

fun profile_banner :: "profile \<Rightarrow> string" where
  "profile_banner Dev =
     ''profile: dev (unsigned `cargo run`) '' @ map char_of [0xE2, 0x80, 0x94 :: nat]
       @ '' plain-Keychain disk, no Secure Enclave.'' @ [CHR 0x0A]
       @ ''Run ClaveDaemonHost.app for the hardware-sealed disk.''"
| "profile_banner SignedHost =
     ''profile: signed host '' @ map char_of [0xE2, 0x80, 0x94 :: nat]
       @ '' Secure-Enclave-sealed disk (hardware-rooted key custody).''"

section \<open>The posture after a start\<close>

lemma win_start_simps:
  "wo_mount_point (win_start_platform disk job) = Some WIN_MOUNT_POINT"
  "wo_containment (win_start_platform disk job) \<longleftrightarrow> job = Inr ()"
  by (auto simp: win_start_platform_def win_configure_volume_def win_set_enforcement_def
      win_configure_containment_def win_platform_new_def Let_def split: sum.splits)

lemma win_start_enforcement:
  "enforcement (wo_enforcement (win_start_platform disk job)) cap =
     (if cap = CapScreen \<or> cap = CapVolume \<and> disk \<noteq> DiskMounted then Unavailable else DevelopmentOnly)"
  by (cases cap)
    (auto simp: win_start_platform_def win_configure_volume_def win_set_enforcement_def
      win_configure_containment_def win_platform_new_def enforcement_def set_enforcement_def
      win_default_enforcement_def Let_def split: sum.splits)

lemma mac_start_enforcement:
  "enforcement (mo_enforcement (snd (fst (mac_start_platform v env tmp h profile sip)))) cap =
     (if cap \<in> {ProcessSupervision, CapNetwork} \<and> sip \<noteq> SipDisabled then Unavailable else DevelopmentOnly)"
  by (cases cap)
    (auto simp: mac_start_platform_def mac_configure_volume_def mac_platform_new_def mac_apply_sip_posture_def
      apply_sip_posture_def sip_is_disabled_def enforcement_def set_enforcement_def mac_default_enforcement_def
      Let_def split: prod.splits)

text \<open>
  The posture each start reports, which the calls of the daemon never change. Neither system passes
  the production gate, whatever the disk, the job and the integrity protection are like. On macOS
  the disk is reported as development-only even when it could not be attached.
\<close>

lemma win_perform_platform: "fst (foldl (win_perform j) (p, job) calls) = p"
proof -
  have "fst (win_perform j x c) = fst x" for x c
    by (cases "(j, x, c)" rule: win_perform.cases) (simp_all add: win_request_wipe_def)
  then show ?thesis by (induction calls rule: rev_induct) auto
qed

lemma mac_perform_enforcement:
  "mo_enforcement (snd (foldl (mac_perform v) hp calls)) = mo_enforcement (snd hp)"
proof -
  have "mo_enforcement (snd (mac_perform v x c)) = mo_enforcement (snd x)" for x c
    by (cases "(v, x, c)" rule: mac_perform.cases) (auto split: prod.splits)
  then show ?thesis by (induction calls rule: rev_induct) auto
qed

lemma blockers_named: "f CapClipboard \<noteq> Enforced \<Longrightarrow>
  require_production (report_from_fn f) = Inl (filter (\<lambda>(c, s). s \<noteq> Enforced) (map (\<lambda>c. (c, f c)) Capability_ALL))"
  by (auto simp: require_production_def production_blockers_def report_from_fn_def is_enforced_iff
      Let_def Capability_ALL_def)

theorem start_never_production:
  "require_production (report_from_fn (pl_enforcement
      (win_answers os z (fst (foldl (win_perform j) (win_start_platform disk job, pids) calls))))) =
     Inl (map (\<lambda>c. (c, if c = CapScreen \<or> c = CapVolume \<and> disk \<noteq> DiskMounted then Unavailable else DevelopmentOnly))
       Capability_ALL) \<and>
   require_production (report_from_fn (pl_enforcement
      (mac_answers os z (snd (foldl (mac_perform v) (fst (mac_start_platform v env tmp h profile sip)) calls))))) =
     Inl (map (\<lambda>c. (c, if c \<in> {ProcessSupervision, CapNetwork} \<and> sip \<noteq> SipDisabled then Unavailable else DevelopmentOnly))
       Capability_ALL)"
  by (subst blockers_named; simp add: win_answers_def mac_answers_def win_perform_platform mac_perform_enforcement
      win_start_enforcement mac_start_enforcement Capability_ALL_def)+

section \<open>Launching after a wipe or a lock\<close>

lemma win_launch:
  "prepare_launch (win_answers os z (fst (foldl (win_perform j) (win_start_platform disk job, pids) calls))) d app =
     Option.bind (app_policy_rule (pb_apps (dm_policy d)) app)
       (\<lambda>rule. if is_launchable rule
          then Some (rule_launch_spec rule WIN_MOUNT_POINT (contained_user (oa_user_var os) (oa_home_var os))) else None)"
  unfolding win_perform_platform
  by (auto simp: prepare_launch_def win_answers_def win_start_simps pl_user_def split: option.splits)

lemma mac_wipe_unmounts: "mac_request_wipe v h m = (h', m', r) \<Longrightarrow> mm_mount_point m' = None"
  by (auto simp: mac_request_wipe_def mac_detach_def Let_def split: option.splits prod.splits sum.splits if_splits)

lemma mac_launch_after_wipe:
  assumes "calls \<noteq> []" "last calls = RequestWipe"
  shows "prepare_launch (mac_answers os z (snd (foldl (mac_perform v) hp calls))) d app = None"
proof -
  obtain cs where "calls = cs @ [RequestWipe]" using assms by (metis append_butlast_last_id)
  then have "mm_mount_point (mo_volume (snd (foldl (mac_perform v) hp calls))) = None"
    by (cases "foldl (mac_perform v) hp cs") (auto split: prod.splits dest: mac_wipe_unmounts)
  then show ?thesis by (simp add: prepare_launch_def mac_answers_def)
qed

lemma wipe_calls:
  assumes "verify (dv_ed v) (dv_envelope v) (dm_gateway d) sc now = (gv, Inr (Wipe container why))"
    and "apply_gateway_command v d sc now = (d', Inr ())"
  shows "dm_calls d' = dm_calls d @ [RequestWipe]" "dm_policy d' = dm_policy d"
  using assms by (auto simp: apply_gateway_command_def daemon_wipe_def call_platform_def Let_def
      split: if_splits prod.splits sum.splits)

text \<open>
  (C22) What a wipe does to launching. After a verified wipe that the daemon carried out, macOS has given up
  the disk, so no application can be prepared for a launch any more. On Windows every allowed
  application is prepared as before, with its home on the disk: the platform answers the wipe
  without touching the disk, and it names the mount point whether or not the disk was ever mounted.
\<close>

theorem wipe_and_launch:
  assumes "verify (dv_ed v) (dv_envelope v) (dm_gateway d) sc now = (gv, Inr (Wipe container why))"
    and "apply_gateway_command v d sc now = (d', Inr ())"
  shows "prepare_launch (mac_answers os z (snd (foldl (mac_perform mv) hp (dm_calls d')))) d' app = None \<and>
    prepare_launch (win_answers os z (fst (foldl (win_perform j) (win_start_platform disk job, pids) (dm_calls d')))) d' app =
      Option.bind (app_policy_rule (pb_apps (dm_policy d)) app)
        (\<lambda>rule. if is_launchable rule
           then Some (rule_launch_spec rule ''X:'' (contained_user (oa_user_var os) (oa_home_var os))) else None)"
  unfolding win_launch WIN_MOUNT_POINT_def wipe_calls(2)[OF assms]
  using wipe_calls(1)[OF assms] by (intro conjI mac_launch_after_wipe) simp_all

text \<open>A lock asks nothing of the platform, so launching goes on as before on both systems.\<close>

lemma lock_and_launch:
  assumes "verify (dv_ed v) (dv_envelope v) (dm_gateway d) sc now = (gv, Inr (Lock why))"
    and "apply_gateway_command v d sc now = (d', r)"
  shows "r = Inr () \<and> dm_calls d' = dm_calls d \<and> prepare_launch pl d' app = prepare_launch pl d app"
proof -
  have "r = Inr () \<and> dm_calls d' = dm_calls d \<and> dm_policy d' = dm_policy d"
    using assms by (auto simp: apply_gateway_command_def lock_volume_def Let_def)
  then show ?thesis by (auto simp: prepare_launch_def split: option.splits)
qed

text \<open>The notepad of the built-in policy, on a device whose disk was never mounted.\<close>

definition win_demo_daemon :: "(mem_key_store, mem_backing, loopback_tunnel) daemon" where
  "win_demo_daemon = demo_daemon\<lparr>dm_policy := win_demo_policy (\<lambda>_. None)\<rparr>"

lemma win_demo_wipe:
  "verify (dv_ed demo_daemon_env) (dv_envelope demo_daemon_env) (dm_gateway win_demo_daemon) demo_wipe 100 =
     (dm_gateway demo_daemon\<lparr>gv_high_water := 3\<rparr>, Inr (Wipe 9 LostOrStolen))"
  "snd (apply_gateway_command demo_daemon_env win_demo_daemon demo_wipe 100) = Inr ()"
proof -
  show *: "verify (dv_ed demo_daemon_env) (dv_envelope demo_daemon_env) (dm_gateway win_demo_daemon) demo_wipe 100 =
     (dm_gateway demo_daemon\<lparr>gv_high_water := 3\<rparr>, Inr (Wipe 9 LostOrStolen))"
    using demo_wipe_verified by (simp add: win_demo_daemon_def)
  have "snd (volume_wipe (dv_keystore demo_daemon_env) (dv_backing demo_daemon_env) (dm_volume demo_daemon)) = Inr ()"
    using ms.wipe_dead[of "dm_volume demo_daemon"] by (simp add: demo_daemon_env_stores demo_daemon_volume)
  then show "snd (apply_gateway_command demo_daemon_env win_demo_daemon demo_wipe 100) = Inr ()" using *
    by (auto simp: apply_gateway_command_def win_demo_daemon_def demo_daemon_volume daemon_wipe_def Let_def
        split: prod.splits sum.splits)
qed

theorem wipe_and_launch_witness:
  "\<exists>rule. app_policy_rule (pb_apps (dm_policy win_demo_daemon)) (AppId ''notepad-work'') = Some rule \<and> is_launchable rule \<and>
     prepare_launch (win_answers \<lparr>oa_user_var = Some ''ann'', oa_home_var = None, oa_spawn = (\<lambda>_. Inr 7)\<rparr> zone_new
       (fst (foldl (win_perform \<lparr>jb_open = (\<lambda>_. Inr ()), jb_assign = (\<lambda>j _. Inr j), jb_query = (\<lambda>j _. Inr j)\<rparr>)
          (win_start_platform DiskTimeout (Inr ()), [])
          (dm_calls (fst (apply_gateway_command demo_daemon_env win_demo_daemon demo_wipe 100))))))
       (fst (apply_gateway_command demo_daemon_env win_demo_daemon demo_wipe 100)) (AppId ''notepad-work'') =
     Some (rule_launch_spec rule ''X:'' ''ann'')"
proof -
  obtain d' where a: "apply_gateway_command demo_daemon_env win_demo_daemon demo_wipe 100 = (d', Inr ())"
    using win_demo_wipe(2) by (metis prod.collapse)
  have "map_option is_launchable (app_policy_rule (pb_apps (win_demo_policy (\<lambda>_. None))) (AppId ''notepad-work'')) = Some True"
    by code_simp
  then obtain rule where r: "app_policy_rule (pb_apps (dm_policy win_demo_daemon)) (AppId ''notepad-work'') = Some rule" "is_launchable rule"
    by (auto simp: win_demo_daemon_def)
  have "contained_user (Some ''ann'') None = ''ann''" by code_simp
  then have "prepare_launch (win_answers \<lparr>oa_user_var = Some ''ann'', oa_home_var = None, oa_spawn = (\<lambda>_. Inr 7)\<rparr> z
      (fst (foldl (win_perform j) (win_start_platform disk job, pids) (dm_calls d')))) d' (AppId ''notepad-work'') =
    Some (rule_launch_spec rule ''X:'' ''ann'')" for z j disk job pids
    using wipe_and_launch[OF win_demo_wipe(1) a, THEN conjunct2] r by simp
  then show ?thesis using r unfolding a fst_conv by blast
qed

end
