(* ===== verification/Es_Publish.thy ===== *)
theory Es_Publish
  imports Mac_Gate Boot_Props
begin

text \<open>
  How an accepted policy reaches the Endpoint Security extension of macOS (\<open>clave-daemon\<close>, \<open>mac_main.rs\<close>,
  with the receiving side in \<open>clave-mac\<close>): the observer that saves the policy and starts a thread which
  publishes it, and the publication over XPC or into a file. The threads are not ordered, so the system
  is a step relation: a policy is accepted, or one of the waiting publications runs. Shown are which
  policies the extension can hold, and that it can be left with an older one than the daemon.
\<close>

section \<open>Publication\<close>

text \<open>\<open>to_json\<close> is the pretty printer of \<open>serde_json\<close>, \<open>send\<close> the publisher the signed host registered, if any.\<close>

datatype es_publication = NotSerialized string | PushedOverXpc bytes bool | ToPolicyFile bytes string

definition es_policy_path :: "environment \<Rightarrow> string" where
  "es_policy_path env = env_or env ''CLAVE_POLICY_JSON'' ''/Users/Shared/Clave/policy.json''"

definition publish_es_policy ::
  "(policy_bundle \<Rightarrow> string + bytes) \<Rightarrow> (bytes \<Rightarrow> bool) option \<Rightarrow> environment \<Rightarrow> policy_bundle \<Rightarrow> es_publication" where
  "publish_es_policy to_json send env policy =
     (case to_json policy of
        Inl e \<Rightarrow> NotSerialized e
      | Inr json \<Rightarrow>
          (case send of
             Some f \<Rightarrow> PushedOverXpc json (f json)
           | None \<Rightarrow> ToPolicyFile json (es_policy_path env)))"

text \<open>
  A push that was answered with success has been loaded by the extension. The file is read only when
  the extension starts.
\<close>

fun es_deliver :: "policy_json \<Rightarrow> es_publication \<Rightarrow> mac_statics \<Rightarrow> mac_statics" where
  "es_deliver j (PushedOverXpc json ok) x = (if ok then fst (clave_mac_load_policy_json j x (Some json)) else x)"
| "es_deliver j _ x = x"

section \<open>The observer and its threads\<close>

text \<open>
  The daemon, the bundles whose threads have not run yet, the store with the record in memory, and the
  extension. The observer saves the record and then starts the thread.
\<close>

record ('k, 'b, 't) es_system =
  es_daemon :: "('k, 'b, 't) daemon"
  es_pending :: "policy_bundle list"
  es_store :: "file_enrollment_store \<times> enrollment_record"
  es_ext :: mac_statics

definition mac_observe ::
  "enrollment_record codec \<Rightarrow> ('k, 'b, 't) es_system \<Rightarrow> policy_bundle \<Rightarrow> ('k, 'b, 't) es_system" where
  "mac_observe rc s b = s\<lparr>es_store := persist_policy rc (es_store s) b, es_pending := es_pending s @ [b]\<rparr>"

definition es_accept ::
  "enrollment_record codec \<Rightarrow> ('k, 'b, 't) es_system \<Rightarrow> policy_bundle \<Rightarrow> ('k, 'b, 't) es_system \<times> (policy_error + unit)" where
  "es_accept rc s b =
     (case update_policy (es_daemon s) b of
        (d, Inl e) \<Rightarrow> (s\<lparr>es_daemon := d\<rparr>, Inl e)
      | (d, Inr _) \<Rightarrow> (mac_observe rc (s\<lparr>es_daemon := d\<rparr>) b, Inr ()))"

definition es_publish ::
  "policy_json \<Rightarrow> (policy_bundle \<Rightarrow> es_publication) \<Rightarrow> ('k, 'b, 't) es_system \<Rightarrow> nat \<Rightarrow> ('k, 'b, 't) es_system" where
  "es_publish j publish s i =
     s\<lparr>es_pending := take i (es_pending s) @ drop (Suc i) (es_pending s),
       es_ext := es_deliver j (publish (es_pending s ! i)) (es_ext s)\<rparr>"

inductive es_step ::
  "enrollment_record codec \<Rightarrow> policy_json \<Rightarrow> (policy_bundle \<Rightarrow> es_publication)
     \<Rightarrow> ('k, 'b, 't) es_system \<Rightarrow> ('k, 'b, 't) es_system \<Rightarrow> bool"
  for rc j publish where
  Accept: "es_step rc j publish s (fst (es_accept rc s b))"
| Publish: "i < length (es_pending s) \<Longrightarrow> es_step rc j publish s (es_publish j publish s i)"

inductive es_run ::
  "enrollment_record codec \<Rightarrow> policy_json \<Rightarrow> (policy_bundle \<Rightarrow> es_publication)
     \<Rightarrow> ('k, 'b, 't) es_system \<Rightarrow> ('k, 'b, 't) es_system \<Rightarrow> bool"
  for rc j publish where
  Refl: "es_run rc j publish s s"
| Step: "es_run rc j publish s s' \<Longrightarrow> es_step rc j publish s' s'' \<Longrightarrow> es_run rc j publish s s''"

section \<open>Which policies the extension can hold\<close>

text \<open>
  What a publication of a bundle of \<open>B\<close> carries is read back as the bundle it was made from, and the
  publisher is registered and answers with success.
\<close>

definition es_faithful :: "policy_json \<Rightarrow> (policy_bundle \<Rightarrow> es_publication) \<Rightarrow> policy_bundle set \<Rightarrow> bool" where
  "es_faithful j publish B \<longleftrightarrow> (\<forall>b \<in> B. \<exists>json. publish b = PushedOverXpc json True \<and> pj_bundle j json = Some b)"

text \<open>The extension holds a bundle: the applications and the file policy are the bundle's.\<close>

definition es_holds :: "mac_statics \<Rightarrow> policy_bundle \<Rightarrow> bool" where
  "es_holds x b \<longleftrightarrow> ms_policy x = pb_apps b \<and>
     eg_allow_save_outside_enclave (ms_gate x) = fp_allow_save_outside_enclave (pb_files b)"

lemma deliver_holds: "es_faithful j publish B \<Longrightarrow> b \<in> B \<Longrightarrow> es_holds (es_deliver j (publish b) x) b"
  unfolding es_faithful_def
  by (drule bspec[of _ _ b]) (auto simp: es_holds_def clave_mac_load_policy_json_def apply_file_policy_def)

text \<open>
  The bundles the extension may come to hold: those accepted since the start, of which the last is the
  daemon's. The observer of the daemon keeps them.
\<close>

definition es_inv :: "policy_bundle set \<Rightarrow> ('k, 'b, 't) es_system \<Rightarrow> ('k, 'b, 't) es_system \<Rightarrow> bool" where
  "es_inv B s0 s \<longleftrightarrow> (\<exists>l. dm_observer (es_daemon s) = Some l \<and> set (es_pending s) \<subseteq> set l \<and>
     (dm_policy (es_daemon s) = (if l = [] then dm_policy (es_daemon s0) else last l)) \<and>
     (set l \<subseteq> B \<longrightarrow> es_ext s = es_ext s0 \<or> (\<exists>b \<in> set l. es_holds (es_ext s) b)))"

lemma es_step_inv:
  assumes F: "es_faithful j publish B" and "es_step rc j publish s s'" "es_inv B s0 s"
  shows "es_inv B s0 s'"
  using assms(2)
proof (cases rule: es_step.cases)
  case (Accept b)
  have acc: "es_accept rc s b =
      (if pb_version b < pb_version (dm_policy (es_daemon s)) then
         (s, Inl (Rollback (pb_version (dm_policy (es_daemon s))) (pb_version b)))
       else (mac_observe rc (s\<lparr>es_daemon := (es_daemon s)\<lparr>dm_policy := b,
               dm_observer := map_option (\<lambda>l. l @ [b]) (dm_observer (es_daemon s))\<rparr>\<rparr>) b, Inr ()))"
    by (simp add: es_accept_def update_policy_def Let_def)
  show ?thesis
  proof (cases "pb_version b < pb_version (dm_policy (es_daemon s))")
    case True
    then show ?thesis using Accept assms(3) acc by simp
  next
    case False
    obtain l where "dm_observer (es_daemon s) = Some l" "set (es_pending s) \<subseteq> set l"
      "set l \<subseteq> B \<longrightarrow> es_ext s = es_ext s0 \<or> (\<exists>b \<in> set l. es_holds (es_ext s) b)"
      using assms(3) by (auto simp: es_inv_def)
    then show ?thesis using Accept acc False unfolding es_inv_def
      by (intro exI[of _ "l @ [b]"]) (auto simp: mac_observe_def)
  qed
next
  case (Publish i)
  obtain l where l: "dm_observer (es_daemon s) = Some l" "set (es_pending s) \<subseteq> set l"
    using assms(3) by (auto simp: es_inv_def)
  have "set (es_pending s') \<subseteq> set (es_pending s)"
    using Publish by (auto simp: es_publish_def dest: in_set_takeD in_set_dropD)
  moreover have "es_pending s ! i \<in> set l" using l(2) Publish by auto
  ultimately show ?thesis using assms(3) l Publish deliver_holds[OF F, of "es_pending s ! i" "es_ext s"]
    by (auto simp: es_inv_def es_publish_def)
qed

lemma es_run_inv:
  assumes F: "es_faithful j publish B" and "es_run rc j publish s0 s" "es_inv B s0 s0"
  shows "es_inv B s0 s"
  using assms(2,3)
proof (induction rule: es_run.induct)
  case (Step s s' s'')
  then show ?case using es_step_inv[OF F] by blast
qed simp

lemma es_overtaken:
  fixes s0 :: "('k, 'b, 't) es_system"
  assumes F: "es_faithful j publish B" and "es_pending s0 = []"
    and v: "policy_version (es_daemon s0) \<le> pb_version b1" "pb_version b1 \<le> pb_version b2" "b1 \<in> B"
  shows "\<exists>s'. es_run rc j publish s0 s' \<and> es_pending s' = [] \<and> dm_policy (es_daemon s') = b2 \<and> es_holds (es_ext s') b1"
proof -
  define s1 where "s1 = fst (es_accept rc s0 b1)"
  define s2 where "s2 = fst (es_accept rc s1 b2)"
  define s3 where "s3 = es_publish j publish s2 1"
  define s4 where "s4 = es_publish j publish s3 0"
  have s1: "es_pending s1 = [b1]" "dm_policy (es_daemon s1) = b1"
    using v assms(2) by (auto simp: s1_def es_accept_def update_policy_def mac_observe_def policy_version_def Let_def)
  then have s2: "es_pending s2 = [b1, b2]" "dm_policy (es_daemon s2) = b2"
    using v(2) by (auto simp: s2_def es_accept_def update_policy_def mac_observe_def Let_def)
  then have s3: "es_pending s3 = [b1]" "dm_policy (es_daemon s3) = b2" by (simp_all add: s3_def es_publish_def)
  then have s4: "es_pending s4 = []" "dm_policy (es_daemon s4) = b2" "es_holds (es_ext s4) b1"
    using deliver_holds[OF F v(3)] by (simp_all add: s4_def es_publish_def)
  have "es_step rc j publish s0 s1" "es_step rc j publish s1 s2" "es_step rc j publish s2 s3" "es_step rc j publish s3 s4"
    using s2 s3 by (auto simp: s1_def s2_def s3_def s4_def intro: es_step.intros)
  then have "es_run rc j publish s0 s4" by (metis es_run.intros)
  with s4 show ?thesis by blast
qed

text \<open>
  (C39) Whatever the order of the threads, the extension holds what it started with or a policy that the
  daemon accepted. With a publisher that always succeeds it can still end with any accepted policy that is not
  the daemon's: when two are accepted before the first is published, their threads may run in either
  order, and the extension takes what comes last without comparing versions.
\<close>

theorem es_policy_order:
  fixes s0 :: "('k, 'b, 't) es_system"
  assumes "es_faithful j publish B" "dm_observer (es_daemon s0) = Some []" "es_pending s0 = []"
  shows "(\<forall>s l. es_run rc j publish s0 s \<and> dm_observer (es_daemon s) = Some l \<and> set l \<subseteq> B \<longrightarrow>
      es_ext s = es_ext s0 \<or> (\<exists>b \<in> set l. es_holds (es_ext s) b)) \<and>
    (\<forall>b1 \<in> B. \<forall>b2. policy_version (es_daemon s0) \<le> pb_version b1 \<and> pb_version b1 \<le> pb_version b2 \<longrightarrow>
      (\<exists>s. es_run rc j publish s0 s \<and> es_pending s = [] \<and> dm_policy (es_daemon s) = b2 \<and> es_holds (es_ext s) b1))"
proof -
  have "es_inv B s0 s0" using assms by (simp add: es_inv_def)
  then have inv: "es_run rc j publish s0 s \<Longrightarrow> es_inv B s0 s" for s using es_run_inv[OF assms(1)] by blast
  have "es_run rc j publish s0 s \<and> dm_observer (es_daemon s) = Some l \<and> set l \<subseteq> B
      \<Longrightarrow> es_ext s = es_ext s0 \<or> (\<exists>b \<in> set l. es_holds (es_ext s) b)" for s l
    using inv[of s] by (auto simp: es_inv_def)
  with es_overtaken[OF assms(1,3)] show ?thesis by blast
qed

text \<open>
  The stricter of two policies is accepted last, and the extension keeps the looser one, which lets
  work processes save outside the disk.
\<close>

definition loose_policy :: policy_bundle where
  "loose_policy = restrictive_default\<lparr>pb_version := 1,
     pb_files := \<lparr>fp_allow_save_outside_enclave = True, fp_work_data_roots = [], fp_cow_roots = []\<rparr>\<rparr>"

definition strict_policy :: policy_bundle where
  "strict_policy = restrictive_default\<lparr>pb_version := 2\<rparr>"

definition one_byte_json :: policy_json where
  "one_byte_json = \<lparr>pj_bundle = (\<lambda>bs. Some (if bs = [1] then loose_policy else strict_policy)), pj_apps = (\<lambda>_. None)\<rparr>"

definition one_byte_publish :: "policy_bundle \<Rightarrow> es_publication" where
  "one_byte_publish b = publish_es_policy (\<lambda>b. Inr [ucast (pb_version b)]) (Some (\<lambda>_. True)) (\<lambda>_. None) b"

definition es_demo :: "(mem_key_store, mem_backing, loopback_tunnel) es_system" where
  "es_demo = \<lparr>es_daemon = demo_daemon, es_pending = [], es_store = (no_enrollment, demo_record), es_ext = mac_statics_new\<rparr>"

lemma one_byte_faithful: "es_faithful one_byte_json one_byte_publish {loose_policy, strict_policy}"
  by (auto simp: es_faithful_def one_byte_publish_def publish_es_policy_def one_byte_json_def
      loose_policy_def strict_policy_def)

theorem es_policy_order_witness:
  "\<exists>s. es_run demo_record_codec one_byte_json one_byte_publish es_demo s \<and> es_pending s = [] \<and>
     dm_policy (es_daemon s) = strict_policy \<and> \<not> fp_allow_save_outside_enclave (pb_files (dm_policy (es_daemon s))) \<and>
     eg_allow_save_outside_enclave (ms_gate (es_ext s))"
proof -
  have "dm_observer (es_daemon es_demo) = Some []" "es_pending es_demo = []"
    "policy_version (es_daemon es_demo) \<le> pb_version loose_policy"
    by (simp_all add: es_demo_def demo_daemon_def set_policy_observer_def daemon_new_def policy_version_def
        restrictive_default_def loose_policy_def)
  moreover have "pb_version loose_policy \<le> pb_version strict_policy" by (simp add: loose_policy_def strict_policy_def)
  ultimately obtain s where s: "es_run demo_record_codec one_byte_json one_byte_publish es_demo s" "es_pending s = []"
      "dm_policy (es_daemon s) = strict_policy" "es_holds (es_ext s) loose_policy"
    using es_policy_order[OF one_byte_faithful, of es_demo demo_record_codec] by blast
  from s(4) have "eg_allow_save_outside_enclave (ms_gate (es_ext s))"
    by (simp add: es_holds_def loose_policy_def)
  moreover have "\<not> fp_allow_save_outside_enclave (pb_files strict_policy)"
    by (simp add: strict_policy_def restrictive_default_def)
  ultimately show ?thesis using s by auto
qed

end
