(* ===== verification/Ipc_Endpoint.thy ===== *)
theory Ipc_Endpoint
  imports Boot
begin

text \<open>
  The two ends of the local connection (\<open>clave-ipc\<close>, \<open>transport.rs\<close>): the address both use, connecting with
  its retries on Windows, the server that always keeps a pipe instance staged, and the loop of the daemon that
  accepts launcher connections (\<open>serve_launcher_loop\<close> of \<open>win_main.rs\<close> and \<open>mac_main.rs\<close>). What the
  operating system answers to each call is an argument. Shown are exactly when connecting succeeds
  and how long it may wait, and that the loop never meets an empty stage but ends with the first
  failure.
\<close>

section \<open>The address\<close>

definition default_launcher_endpoint :: "bool \<Rightarrow> environment \<Rightarrow> string \<Rightarrow> string" where
  "default_launcher_endpoint windows env tmp =
     (case env ''CLAVE_LAUNCHER_SOCK'' of
        Some p \<Rightarrow> p
      | None \<Rightarrow>
          if windows then [CHR 0x5C, CHR 0x5C, CHR ''.'', CHR 0x5C] @ ''pipe'' @ [CHR 0x5C] @ ''clave-launcher''
          else path_join tmp ''clave-launcher.sock'')"

section \<open>Connecting\<close>

definition ERROR_PIPE_BUSY :: int where "ERROR_PIPE_BUSY = 231"
definition ERROR_FILE_NOT_FOUND :: int where "ERROR_FILE_NOT_FOUND = 2"

text \<open>An I/O error with its code of the system, if it has one.\<close>

record sys_error =
  ioe_code :: "int option"
  ioe_text :: string

definition pipe_retryable :: "sys_error \<Rightarrow> bool" where
  "pipe_retryable e \<longleftrightarrow> ioe_code e \<in> {Some ERROR_PIPE_BUSY, Some ERROR_FILE_NOT_FOUND}"

definition PIPE_ATTEMPTS :: nat where "PIPE_ATTEMPTS = 50"
definition PIPE_DELAY_MS :: nat where "PIPE_DELAY_MS = 50"

text \<open>
  \<open>open k\<close> is the answer to the attempt \<open>k\<close>. With the result comes the time slept, in milliseconds.
\<close>

fun pipe_attempts :: "(nat \<Rightarrow> sys_error + 'c) \<Rightarrow> nat \<Rightarrow> nat \<Rightarrow> nat \<times> (transport_error + 'c)" where
  "pipe_attempts open_pipe k 0 = (0, Inl (TIo ''named pipe was busy or absent after retrying''))"
| "pipe_attempts open_pipe k (Suc n) =
     (case open_pipe k of
        Inr client \<Rightarrow> (0, Inr client)
      | Inl e \<Rightarrow>
          if pipe_retryable e
          then (let (ms, r) = pipe_attempts open_pipe (Suc k) n in (PIPE_DELAY_MS + ms, r))
          else (0, Inl (TIo (ioe_text e))))"

definition connect_pipe :: "(nat \<Rightarrow> sys_error + 'c) \<Rightarrow> nat \<times> (transport_error + 'c)" where
  "connect_pipe open_pipe = pipe_attempts open_pipe 0 PIPE_ATTEMPTS"

definition connect_unix :: "sys_error + 'c \<Rightarrow> transport_error + 'c" where
  "connect_unix r = map_err (\<lambda>e. TIo (ioe_text e)) r"

section \<open>The server\<close>

record 'p pipe_server =
  psv_next :: "'p option"

definition pipe_bind :: "sys_error + 'p \<Rightarrow> transport_error + 'p pipe_server" where
  "pipe_bind created = map_err (\<lambda>e. TIo (ioe_text e)) (rbind created (\<lambda>p. Inr \<lparr>psv_next = Some p\<rparr>))"

text \<open>
  One \<open>accept\<close>: the staged instance is taken, waits for its client and is replaced by a new one. The result is
  \<open>None\<close> when no instance is staged: the code panics there.
\<close>

definition pipe_accept ::
  "'p pipe_server \<Rightarrow> sys_error + unit \<Rightarrow> sys_error + 'p \<Rightarrow> ('p pipe_server \<times> (transport_error + 'p)) option" where
  "pipe_accept srv connected created =
     (case psv_next srv of
        None \<Rightarrow> None
      | Some server \<Rightarrow>
          (let srv = srv\<lparr>psv_next := None\<rparr>
           in Some (case connected of
                      Inl e \<Rightarrow> (srv, Inl (TIo (ioe_text e)))
                    | Inr _ \<Rightarrow>
                        (case created of
                           Inl e \<Rightarrow> (srv, Inl (TIo (ioe_text e)))
                         | Inr nxt \<Rightarrow> (srv\<lparr>psv_next := Some nxt\<rparr>, Inr server)))))"

text \<open>
  The loop of the daemon over the answers the system gives; every connection is served by a task of its own.
  It returns the connections handed to tasks and the error it ends with, if it has ended.
\<close>

fun accept_loop ::
  "'p pipe_server \<Rightarrow> ((sys_error + unit) \<times> (sys_error + 'p)) list \<Rightarrow> ('p list \<times> transport_error option) option" where
  "accept_loop srv [] = Some ([], None)"
| "accept_loop srv ((connected, created) # rest) =
     (case pipe_accept srv connected created of
        None \<Rightarrow> None
      | Some (srv, Inl e) \<Rightarrow> Some ([], Some e)
      | Some (srv, Inr conn) \<Rightarrow> map_option (\<lambda>(conns, e). (conn # conns, e)) (accept_loop srv rest))"

definition serve_launcher_loop ::
  "sys_error + 'p \<Rightarrow> ((sys_error + unit) \<times> (sys_error + 'p)) list \<Rightarrow> ('p list \<times> transport_error option) option" where
  "serve_launcher_loop created answers =
     (case pipe_bind created of Inl e \<Rightarrow> Some ([], Some e) | Inr srv \<Rightarrow> accept_loop srv answers)"

text \<open>On Unix \<open>accept\<close> is the call of the listener.\<close>

fun unix_accept_loop :: "(sys_error + 'c) list \<Rightarrow> 'c list \<times> transport_error option" where
  "unix_accept_loop [] = ([], None)"
| "unix_accept_loop (Inl e # rest) = ([], Some (TIo (ioe_text e)))"
| "unix_accept_loop (Inr c # rest) = (let (cs, e) = unix_accept_loop rest in (c # cs, e))"

text \<open>What \<open>run_windows\<close> prints when the loop has ended; the code 5 is \<open>ERROR_ACCESS_DENIED\<close>.\<close>

definition launcher_loop_message :: "string \<Rightarrow> int option \<Rightarrow> string \<Rightarrow> string" where
  "launcher_loop_message endpoint code text =
     (if code = Some 5
      then ''clave-daemon: another clave-daemon already owns the launcher pipe ('' @ endpoint @ ''). Stop it first.''
      else ''clave-daemon: launcher IPC server stopped: '' @ text)"

section \<open>Connecting is decided by the first answer that is not a retry\<close>

lemma pipe_attempts_exact:
  "snd (pipe_attempts f k n) =
     (case List.find (\<lambda>i. case f i of Inl e \<Rightarrow> \<not> pipe_retryable e | Inr _ \<Rightarrow> True) [k..<k + n] of
        None \<Rightarrow> Inl (TIo ''named pipe was busy or absent after retrying'')
      | Some i \<Rightarrow> map_err (\<lambda>e. TIo (ioe_text e)) (f i))"
proof (induction n arbitrary: k)
  case (Suc n)
  have "[k..<k + Suc n] = k # [Suc k..<Suc k + n]" by (simp add: upt_conv_Cons)
  then show ?case using Suc[of "Suc k"]
    by (cases "f k"; cases "pipe_attempts f (Suc k) n") (simp_all del: upt_Suc)
qed simp

lemma pipe_attempts_wait: "fst (pipe_attempts f k n) \<le> n * PIPE_DELAY_MS"
proof (induction n arbitrary: k)
  case (Suc n)
  then show ?case using Suc[of "Suc k"] by (cases "pipe_attempts f (Suc k) n") (auto split: sum.splits)
qed simp

text \<open>
  Connecting to the pipe gives what the first of fifty attempts gives that is neither busy nor absent, and an
  error when there is none; it sleeps two and a half seconds at most.
\<close>

theorem connect_pipe_exact:
  "snd (connect_pipe f) =
     (case List.find (\<lambda>i. case f i of Inl e \<Rightarrow> \<not> pipe_retryable e | Inr _ \<Rightarrow> True) [0..<50] of
        None \<Rightarrow> Inl (TIo ''named pipe was busy or absent after retrying'')
      | Some i \<Rightarrow> map_err (\<lambda>e. TIo (ioe_text e)) (f i)) \<and>
   fst (connect_pipe f) \<le> 2500"
  using pipe_attempts_exact[of f 0 50] pipe_attempts_wait[of f 0 50]
  by (simp add: connect_pipe_def PIPE_ATTEMPTS_def PIPE_DELAY_MS_def)

section \<open>The accept loop\<close>

text \<open>
  Once bound, the loop never finds the stage empty. Each instance is handed over in the order it was
  staged, and the first accept that fails ends the loop, whatever clients would come after it.
\<close>

lemma accept_loop_staged:
  "psv_next srv = Some p \<Longrightarrow> \<exists>conns e. accept_loop srv answers = Some (conns, e) \<and>
     (e = None \<longleftrightarrow> list_all (\<lambda>(c, n). \<not> isl c \<and> \<not> isl n) answers) \<and>
     conns = butlast (p # map (projr \<circ> snd) (takeWhile (\<lambda>(c, n). \<not> isl c \<and> \<not> isl n) answers))"
proof (induction answers arbitrary: srv p)
  case (Cons a answers)
  obtain c n where a: "a = (c, n)" by fastforce
  show ?case
  proof (cases "isl c \<or> isl n")
    case True
    then show ?thesis using Cons.prems by (cases c; cases n) (auto simp: a pipe_accept_def Let_def)
  next
    case False
    then obtain u q where cn: "c = Inr u" "n = Inr q" by (cases c; cases n) auto
    from Cons.IH[of "srv\<lparr>psv_next := Some q\<rparr>" q] Cons.prems show ?thesis
      by (auto simp: a cn pipe_accept_def Let_def)
  qed
qed simp

theorem launcher_loop_exact:
  assumes "pipe_bind created = Inr srv"
  shows "\<exists>p conns e. created = Inr p \<and> serve_launcher_loop created answers = Some (conns, e) \<and>
    (e = None \<longleftrightarrow> list_all (\<lambda>(c, n). \<not> isl c \<and> \<not> isl n) answers) \<and>
    conns = butlast (p # map (projr \<circ> snd) (takeWhile (\<lambda>(c, n). \<not> isl c \<and> \<not> isl n) answers))"
proof -
  obtain p where "created = Inr p" "srv = \<lparr>psv_next = Some p\<rparr>"
    using assms by (auto simp: pipe_bind_def map_err_eq_Inr rbind_eq_Inr)
  with accept_loop_staged[of srv p answers] assms show ?thesis by (auto simp: serve_launcher_loop_def)
qed

end
