(* ===== verification/Spec2Isabelle.thy ===== *)
theory Spec2Isabelle
  imports Overlay_Pixels Path Ipc Split_Router Volume_Props Gateway_Props Clave_End_To_End
    Enrollment_Props Gateway_Restart Clave_Disk_Runs Mac_Volume_Props Clip_Guard Edge_Paint Mac_Gate Win_Divert
    Launch_Spawn Win_Job Gateway_Server_Props Mtls_Props Launcher_Props
    Wireguard Os_Start Es_Publish Ipc_Endpoint
begin

text \<open>
  Clave separates work from personal use on one machine. An agent on the device, the \<^emph>\<open>daemon\<close>
  (\<open>clave-daemon\<close>), keeps the set of supervised processes (the work \<^emph>\<open>zone\<close>), decides their file,
  clipboard, screen and network actions from a signed policy, serves an encrypted volume to them,
  routes their packets through a tunnel and writes an audit trail. A \<^emph>\<open>gateway\<close> (\<open>clave-gateway\<close>)
  manages workspaces, members and devices, signs the policies and commands, releases the volume
  keys and collects the audit trail. Local clients talk to the daemon over \<open>clave-ipc\<close>, the daemon to
  the gateway over \<open>clave-proto\<close>. All paths below are relative to \<open>src/crates\<close>.

  \<^bold>\<open>Foundations.\<close>
  \<open>Clave_Prelude\<close> has the integer types at their widths, saturating arithmetic, and \<open>HashMap\<close> as an
  association list with distinct keys, with its laws as a locale. \<open>Rust_Str\<close>, \<open>Rust_Num\<close> and
  \<open>Rust_Hex\<close> model the parts of \<open>str\<close>, decimal and hexadecimal conversion the sources use; a
  \<open>String\<close> is its UTF-8 bytes. \<open>Ext\<close> has the records of functions that stand for code outside the
  repository (postcard, Ed25519, SHA-256) and the properties of it that theorems assume:
  \<open>ed25519_correct\<close> (what a key signs verifies under its public key), \<open>codec_ok_on\<close> (decoding inverts
  encoding on the named values), and the like for AES-XTS (on areas of whole sectors whose indices fit 64
  bits), AES-KW and X25519 in \<open>Volume\<close>. Every theorem with such an assumption has a witness with concrete
  functions. Two of these assumptions idealise more than the rest: \<open>agreement_ok\<close> (\<open>Mac_Volume_Props\<close>) says that
  the key agreement of the Secure Enclave never fails on opening, and \<open>host_files_ok\<close> (there) that a
  file the system reports as existing is there and the other way round.

  \<^bold>\<open>Policy and decisions\<close> (\<open>clave-core\<close>, \<open>clave-platform\<close>).
  \<open>Platform\<close>: process ids, zones, errors, the enforcement posture and the production gate.
  \<open>Zone\<close> (\<open>zone.rs\<close>): the registry of supervised processes; the last join or leave decides.
  \<open>App\<close> (\<open>app.rs\<close>, \<open>web.rs\<close>): the allow-list and the classification of an exec.
  \<open>Path\<close> (\<open>path.rs\<close>, \<open>learn.rs\<close>): containment by whole components, profiles learned from traces.
  \<open>Overlay\<close>, \<open>Overlay_Pixels\<close> (\<open>overlay.rs\<close>): the frames of work windows in 32-bit arithmetic, and
  that they cover exactly the visible border pixels.
  \<open>Policy\<close> (\<open>policy.rs\<close>, \<open>net.rs\<close>): the bundle, its defaults and its lint.
  \<open>Decide\<close> (\<open>decide.rs\<close>, \<open>net.rs\<close>, \<open>audit.rs\<close>): the verdict on every action, the route of a flow and
  the answer to a DNS query. Work data leaves the zone only where an unexpired policy permits it, and
  a verdict depends only on the zone membership of the processes it names.

  \<^bold>\<open>Gateway protocol\<close> (\<open>clave-proto\<close>, \<open>clave-ipc\<close>).
  \<open>Proto\<close>: signed commands and the verifier with its high-water mark; of any stream of messages exactly
  those are accepted that are authentic, of this tenant, fresh and above all valid ones before them. \<open>Audit_Spool\<close>: the hash chain, the spool and signed batches, with
  completeness and tamper evidence. \<open>Link\<close>: the loopback and channel links, framing, and the
  transport pump as an inductive step relation. \<open>Ipc\<close>: messages, framing, handshakes, the server loops
  and the launcher client; serving is independent of how the stream is cut into chunks. \<open>Ipc_Endpoint\<close>: the address, the fifty
  attempts to connect to a pipe, the server that keeps an instance staged, and the daemon's accept loop.

  \<^bold>\<open>Volume and network\<close> (\<open>clave-volume\<close>, \<open>clave-net\<close>).
  \<open>Volume\<close>, \<open>Volume_Props\<close>: keys, sealing, containers, key stores and the volume's state machine:
  reads return what was written, outsiders are refused before anything else, and a wipe is final.
  \<open>Split_Router\<close>: flows, the router and the loopback tunnel; work packets leave only through the
  tunnel. Tunnel, backing and key store are locales, interpreted on the definitions of the sources.
  \<open>Wireguard\<close> (\<open>wireguard.rs\<close>): the engine over the operations of boringtun; which packets fit its buffer,
  and that packets held back without a session are never sent.

  \<^bold>\<open>Gateway\<close> (\<open>clave-identity\<close>, \<open>clave-gateway\<close>).
  \<open>Identity\<close>: addresses, roles and the decisions on login, enrollment and invitation.
  \<open>Gateway_Store\<close> (\<open>store.rs\<close>, \<open>session.rs\<close>, \<open>scim.rs\<close>): the directory and \<open>MemStore\<close>.
  \<open>Gateway_Policy\<close> (\<open>policy.rs\<close>, \<open>volume.rs\<close>): counters, policy versions and key services.
  \<open>Gateway_Audit\<close> (\<open>audit_ingest.rs\<close>): the ledger with one verified chain per device.
  \<open>Gateway\<close>, \<open>Gateway_Props\<close> (\<open>gateway.rs\<close>): every operation of the control plane. Over any sequence of
  them nobody rises above the most senior actor of a workspace, and suspension takes effect at once.
  \<open>Postgres\<close>, \<open>Postgres_Props\<close> (\<open>postgres.rs\<close>): the directory and the audit store in a database, tables as
  lists of rows and every statement with its constraints; a statement may fail at any time, carried out or
  not; a transaction is a combinator with begin, rollback and commit. Nobody escalates there either; a batch
  leaves the tables alone or adds its events under new numbers (and drops those under used ones) and moves
  the chain; and without failures the database holds the chains the store in memory holds, but not the
  events of a chain that started again. \<open>Gateway_Restart\<close>: without failures, a gateway restarted from this
  audit store answers every batch as if it had not stopped.
  \<open>Http\<close>, \<open>Http_Props\<close> (\<open>http.rs\<close>): sealed session cookies, every handler and the router; every
  administrative route is guarded, and a login's cookie is answered, until it expires, from the membership
  stored at the moment of the request.
  \<open>Workos\<close>, \<open>Workos_Props\<close> (\<open>workos.rs\<close>): the identity provider over WorkOS. A session of the console is
  vouched for by a signed token, the organization and, where required, single sign-on; the enrollment of a
  device rests on the address alone.
  \<open>Mtls\<close>, \<open>Mtls_Props\<close> (\<open>mtls.rs\<close> of \<open>clave-proto\<close>, \<open>cert.rs\<close>): identities, roots, the certificate authority
  and the session of a device, which is attributed by the certificate that was issued last.
  \<open>Gateway_Server\<close>, \<open>Gateway_Server_Props\<close> (\<open>server_main.rs\<close>): the gateway that the binary builds from its
  environment; what it signs, what a restart forgets and that it never hears of the directory.

  \<^bold>\<open>Daemon\<close> (\<open>clave-daemon\<close>).
  \<open>Daemon\<close>, \<open>Daemon_Props\<close> (\<open>lib.rs\<close>): every handler, the event loop, checkpoints and the gateway
  synchronisation. Policies never roll back, a command is applied at most once, a verified wipe is final
  within the run, and every denial leaves a trace in the audit.
  \<open>Enrollment\<close> (\<open>enroll.rs\<close>, \<open>enrollment_store.rs\<close>, \<open>enroll_client.rs\<close>): acceptance of a grant, the
  persisted record, booting from it, the client and its command line.
  \<open>Boot\<close>, \<open>Boot_Props\<close> (\<open>mac_main.rs\<close>, \<open>win_main.rs\<close>): the daemon built from a record and what
  survives a restart: the policy and the replay protection do, a wipe does not.
  \<open>Os_Start\<close> (both \<open>platform.rs\<close> and the entry points): the platform objects, the posture each start
  reports, and launching after a wipe. \<open>Es_Publish\<close> (\<open>mac_main.rs\<close>): the threads that publish policies to the
  macOS extension as an inductive step relation, and which policies it can end with.

  \<^bold>\<open>Devices\<close> (\<open>clave-win\<close>, \<open>clave-mac\<close>). What the operating system does is a record of functions on a
  state of the host, or an argument with what it reported.
  \<open>Clave_Disk\<close> (\<open>mount.rs\<close>): the callbacks of the encrypting file system on Windows, with Rust's panics
  as values; \<open>Clave_Disk_Props\<close>, \<open>Clave_Disk_Rename\<close> and \<open>Clave_Disk_Runs\<close> show that the
  contents behave as plain files over the calls that keep to the contract of WinFsp (\<open>lawful\<close>), and that
  such a sequence returns and keeps the table a tree as long as its renames are \<open>orderly\<close> (a condition
  the code does not check, and without which renames go wrong), and what such a rename moves. \<open>Mac_Volume\<close>, \<open>Mac_Volume_Props\<close> (\<open>volume.rs\<close>, \<open>se_seal.rs\<close>): the disk bundle of
  macOS; its stored passphrase is the one it was created with, or gone.
  \<open>Clip_Guard\<close> (both \<open>clipboard.rs\<close>): when a payload of work is cleared, and when it is missed.
  \<open>Os_Watch\<close> (\<open>screen.rs\<close>, both \<open>input.rs\<close>): which polls report whom, and the spacing of reports.
  \<open>Edge_Paint\<close> (both \<open>edge.rs\<close>): the border of work windows to the pixel.
  \<open>Mac_Gate\<close> (\<open>es_gate.rs\<close>, \<open>lib.rs\<close>, \<open>sip.rs\<close>, \<open>platform.rs\<close>): the entry points of the macOS extension as
  a function of the history of calls, and the enforcement posture.
  \<open>Win_Divert\<close> (\<open>divert.rs\<close>): which connections the Windows filter drops.
  \<open>Win_Job\<close> (\<open>job.rs\<close>): the job of the launched applications and its bound.
  \<open>Launch_Spawn\<close> (\<open>launch.rs\<close>, \<open>keychain.rs\<close> and the spawning part of the daemon's \<open>lib.rs\<close>): the
  contained home, its links and keychain, and the search for the process of a launch.

  \<^bold>\<open>Front ends.\<close> \<open>Launcher\<close> (\<open>apps/clave-launcher/src-tauri/src/lib.rs\<close>, beside \<open>src/crates\<close>): the commands of
  the launcher window over \<open>Ipc\<close>, and what it shows without a daemon. \<open>Cli\<close> (\<open>clave-cli/src/main.rs\<close>): every
  command as a function of its arguments. \<open>Launcher_Props\<close>: both show what the daemon answers; the
  \<open>launch\<close> of the command line asks nobody and computes from its own policy file.

  \<^bold>\<open>Composition.\<close>
  \<open>Clave_End_To_End\<close> runs the daemon, its spool, the in-process \<open>LoopbackLink\<close> and the gateway's ledger
  together: what the gateway has logged followed by what is pending is exactly what the daemon emitted, and
  one round over a live link completes the log; of batches that a transport behind the link loses,
  repeats or reorders, the gateway takes a first part. \<open>Enrollment_Props\<close> runs the client against the
  gateway's routes and operations: with the symmetric key service the record it ends with holds the
  gateway's policy and opens to the escrowed key; with the sealing service, which the server installs, the
  client fails.

  \<^bold>\<open>Conventions.\<close> A struct is a record (its fields prefixed), an enum a datatype, \<open>Result\<close> a sum with
  \<open>Inl\<close> the error; \<open>&mut self\<close> and interior mutability are state passing. Every operation is one step:
  this is exact where a method holds its lock for the whole call, and it is an abstraction where it does
  not. The daemon's \<open>update_policy\<close> loads and stores an \<open>ArcSwap\<close> without a lock, and the handlers of the
  gateway (\<open>change_role\<close>, \<open>complete_enrollment\<close> and the others) await between reading and writing the
  store; two concurrent calls can interleave there, which the model drops. What is proved of such
  operations is proved of calls one after the other. Interleaving is modelled where the code is about it, by
  step relations: \<open>pump_step\<close> and \<open>es_step\<close>.
  Traits are records of functions (\<open>store_ops\<close>, \<open>link_ops\<close>, \<open>keystore_ops\<close>). Loops are structural
  recursion or have a termination measure; the iteration bounds are the client's own
  \<open>max_polls\<close> and the observations the wait for a launched process makes within its three seconds. Time, nonces and ephemeral keys are arguments.

  \<^bold>\<open>Not modelled.\<close> Of \<open>clave-mac\<close> and \<open>clave-win\<close> the calls into the operating system (windows and layers of the overlay,
  loading \<open>WinDivert.dll\<close>, hook registration, job creation); connecting to the database and its migrations;
  opening sockets and windows; concurrent calls of one operation of the daemon or of the gateway (above).
  Log output is left out everywhere.
\<close>

end
